(* ===== verification/Prelude.thy ===== *)
theory Prelude
  imports Main "HOL-Library.Char_ord" "HOL-Library.List_Lexorder" "HOL-Library.Option_ord"
    "HOL-Library.Product_Lexorder"
begin

text \<open>
  What every component of the development shares: the effect type of operations that change a
  state and may throw, the strings of the source and the few string functions it uses, the JSON
  values it passes around, and tables of keyed rows with the SQL statements over them.

  A JavaScript string is a list of \<open>char\<close>, each \<open>char\<close> one UTF-16 code unit (code units above
  255 are not represented); \<open>length\<close> counts code units, as the source's \<open>.length\<close> does, and
  the lexicographic order of \<open>HOL-Library.List_Lexorder\<close> is the order of SQLite's BINARY
  collation on these strings.
\<close>

named_theorems eff_simps "unfolding of the effect combinators"
named_theorems preserves_rules "introduction rules for preserved invariants"

subsection \<open>Operations that change a state and may throw\<close>

text \<open>
  \<open>('e, 's, 'a) eff\<close> is an operation on a state \<open>'s\<close>: it returns (\<open>Inr\<close>) or throws
  (\<open>Inl\<close>), and in both cases leaves a state behind, because an exception of the source does
  not undo the effects that precede it. Only \<open>atomically\<close>, a database transaction, does.
\<close>

type_synonym ('e, 's, 'a) eff = "'s \<Rightarrow> ('e + 'a) \<times> 's"

definition ok :: "'a \<Rightarrow> ('e, 's, 'a) eff" where
  [eff_simps]: "ok x s = (Inr x, s)"

definition fail :: "'e \<Rightarrow> ('e, 's, 'a) eff" where
  [eff_simps]: "fail e s = (Inl e, s)"

definition andThen :: "('e, 's, 'a) eff \<Rightarrow> ('a \<Rightarrow> ('e, 's, 'b) eff) \<Rightarrow> ('e, 's, 'b) eff" where
  [eff_simps]: "andThen m f s = (case m s of (r, s') \<Rightarrow>
     (case r of Inl e \<Rightarrow> (Inl e, s') | Inr x \<Rightarrow> f x s'))"

definition query :: "('s \<Rightarrow> 'a) \<Rightarrow> ('e, 's, 'a) eff" where
  [eff_simps]: "query f s = (Inr (f s), s)"

definition update :: "('s \<Rightarrow> 's) \<Rightarrow> ('e, 's, unit) eff" where
  [eff_simps]: "update f s = (Inr (), f s)"

definition require :: "bool \<Rightarrow> 'e \<Rightarrow> ('e, 's, unit) eff" where
  [eff_simps]: "require b e s = (if b then (Inr (), s) else (Inl e, s))"

definition lift_res :: "('e + 'a) \<Rightarrow> ('e, 's, 'a) eff" where
  [eff_simps]: "lift_res r s = (r, s)"

definition orThrow :: "'e \<Rightarrow> 'a option \<Rightarrow> ('e, 's, 'a) eff" where
  [eff_simps]: "orThrow e r s = (case r of None \<Rightarrow> (Inl e, s) | Some x \<Rightarrow> (Inr x, s))"

definition atomically :: "('e, 's, 'a) eff \<Rightarrow> ('e, 's, 'a) eff" where
  "atomically m s = (case m s of (r, s') \<Rightarrow>
     (case r of Inl e \<Rightarrow> (Inl e, s) | Inr x \<Rightarrow> (Inr x, s')))"

fun forEach :: "'x list \<Rightarrow> ('x \<Rightarrow> ('e, 's, unit) eff) \<Rightarrow> ('e, 's, unit) eff" where
  "forEach [] f = ok ()"
| "forEach (x # xs) f = andThen (f x) (\<lambda>_. forEach xs f)"

text \<open>A loop that accumulates a result.\<close>

fun foldEach :: "'x list \<Rightarrow> ('x \<Rightarrow> 'acc \<Rightarrow> ('e, 's, 'acc) eff) \<Rightarrow> 'acc \<Rightarrow> ('e, 's, 'acc) eff" where
  "foldEach [] f acc = ok acc"
| "foldEach (x # xs) f acc = andThen (f x acc) (foldEach xs f)"

lemma atomically_Inl: "atomically m s = (Inl e, s') \<Longrightarrow> s' = s"
  by (auto simp: atomically_def split: prod.splits sum.splits)

lemma atomically_Inr: "atomically m s = (Inr x, s') \<longleftrightarrow> m s = (Inr x, s')"
  by (auto simp: atomically_def split: prod.splits sum.splits)

lemma snd_atomically: "snd (atomically m s) = (case fst (m s) of Inl _ \<Rightarrow> s | Inr _ \<Rightarrow> snd (m s))"
  by (auto simp: atomically_def split: prod.splits sum.splits)

lemma andThen_step: "m s = (Inr x, t) \<Longrightarrow> andThen m f s = f x t"
  by (simp add: andThen_def)

lemma andThen_query: "andThen (query q) f s = f (q s) s"
  by (simp add: andThen_def query_def)

lemma andThen_require: "b \<Longrightarrow> andThen (require b e) f s = f () s"
  by (simp add: andThen_def require_def)

lemma andThen_Inr:
  "andThen m f s = (Inr y, t) \<longleftrightarrow> (\<exists>x s'. m s = (Inr x, s') \<and> f x s' = (Inr y, t))"
  by (auto simp: andThen_def split: prod.splits sum.splits)

lemma andThen_Inl:
  "andThen m f s = (Inl e, t) \<longleftrightarrow>
     m s = (Inl e, t) \<or> (\<exists>x s'. m s = (Inr x, s') \<and> f x s' = (Inl e, t))"
  by (auto simp: andThen_def split: prod.splits sum.splits)

subsection \<open>Preserved relations\<close>

text \<open>
  \<open>keeps R m\<close>: the state \<open>m\<close> leaves, whether it returned or threw, is \<open>R\<close>-related to the
  state it started in. With a reflexive and transitive \<open>R\<close> this composes along the operation;
  \<open>preserves I\<close> is the special case of an invariant.
\<close>

definition keeps :: "('s \<Rightarrow> 's \<Rightarrow> bool) \<Rightarrow> ('e, 's, 'a) eff \<Rightarrow> bool" where
  "keeps R m \<longleftrightarrow> (\<forall>s. R s (snd (m s)))"

definition preserves :: "('s \<Rightarrow> bool) \<Rightarrow> ('e, 's, 'a) eff \<Rightarrow> bool" where
  "preserves I m \<longleftrightarrow> (\<forall>s. I s \<longrightarrow> I (snd (m s)))"

lemma preservesD: "preserves I m \<Longrightarrow> I s \<Longrightarrow> m s = (r, t) \<Longrightarrow> I t"
  unfolding preserves_def by (metis snd_conv)

lemma keepsD: "keeps R m \<Longrightarrow> m s = (r, t) \<Longrightarrow> R s t"
  unfolding keeps_def by (metis snd_conv)

lemma preserves_basic [preserves_rules]:
  "preserves I (ok x)" "preserves I (fail e)" "preserves I (query f)" "preserves I (require b e)"
  "preserves I (lift_res r)" "preserves I (orThrow e y)"
  by (auto simp: preserves_def eff_simps split: option.splits)

lemma preserves_andThen [preserves_rules]:
  assumes "preserves I m" and "\<And>x. preserves I (f x)"
  shows "preserves I (andThen m f)"
  unfolding preserves_def
proof (intro allI impI)
  fix s assume "I s"
  obtain r s' where m: "m s = (r, s')" by (cases "m s")
  with assms(1) \<open>I s\<close> have "I s'" by (rule preservesD)
  with assms(2) m show "I (snd (andThen m f s))"
    by (auto simp: andThen_def preserves_def split: sum.splits)
qed

lemma preserves_update [preserves_rules]: "(\<And>s. I s \<Longrightarrow> I (f s)) \<Longrightarrow> preserves I (update f)"
  by (simp add: preserves_def update_def)

lemma preserves_atomically [preserves_rules]: "preserves I m \<Longrightarrow> preserves I (atomically m)"
  by (auto simp: preserves_def snd_atomically split: sum.splits)

lemma preserves_forEach [preserves_rules]:
  "(\<And>x. x \<in> set xs \<Longrightarrow> preserves I (f x)) \<Longrightarrow> preserves I (forEach xs f)"
  by (induction xs) (auto intro!: preserves_rules)

lemma preserves_foldEach [preserves_rules]:
  "(\<And>x a. x \<in> set xs \<Longrightarrow> preserves I (f x a)) \<Longrightarrow> preserves I (foldEach xs f acc)"
  by (induction xs arbitrary: acc) (auto intro!: preserves_rules)

lemma preserves_split [preserves_rules]:
  "(b \<Longrightarrow> preserves I m) \<Longrightarrow> (\<not> b \<Longrightarrow> preserves I n) \<Longrightarrow> preserves I (if b then m else n)"
  "preserves I k \<Longrightarrow> (\<And>x. y = Some x \<Longrightarrow> preserves I (g x)) \<Longrightarrow> preserves I (case y of None \<Rightarrow> k | Some x \<Rightarrow> g x)"
  "(\<And>e. preserves I (h e)) \<Longrightarrow> (\<And>x. preserves I (g' x)) \<Longrightarrow> preserves I (case r of Inl e \<Rightarrow> h e | Inr x \<Rightarrow> g' x)"
  "preserves I k \<Longrightarrow> (\<And>x xs. preserves I (f x xs)) \<Longrightarrow> preserves I (case l of [] \<Rightarrow> k | x # xs \<Rightarrow> f x xs)"
  "(\<And>a b. preserves I (f' a b)) \<Longrightarrow> preserves I (case p of (a, b) \<Rightarrow> f' a b)"
  by (auto split: option.splits sum.splits list.splits prod.splits)

subsection \<open>Relations kept by every operation\<close>

text \<open>
  A relation between an earlier and a later state (rows only ever appended, statuses moving only
  along legal transitions) that is reflexive and transitive is kept by an operation as soon as it
  is kept by each of its steps.
\<close>

locale evolution =
  fixes R :: "'s \<Rightarrow> 's \<Rightarrow> bool"
  assumes refl: "R s s"
    and trans: "R s t \<Longrightarrow> R t u \<Longrightarrow> R s u"
begin

lemma keeps_basic:
  "keeps R (ok x)" "keeps R (fail e)" "keeps R (query f)" "keeps R (require b e)"
  "keeps R (lift_res r)" "keeps R (orThrow e y)"
  by (auto simp: keeps_def eff_simps refl split: option.splits)

lemma keeps_andThen:
  assumes "keeps R m" and "\<And>x. keeps R (f x)"
  shows "keeps R (andThen m f)"
  unfolding keeps_def
proof
  fix s
  obtain r s' where m: "m s = (r, s')" by (cases "m s")
  with assms(1) have "R s s'" by (rule keepsD)
  with assms(2) m show "R s (snd (andThen m f s))"
    by (auto simp: andThen_def keeps_def split: sum.splits intro: trans)
qed

lemma keeps_atomically: "keeps R m \<Longrightarrow> keeps R (atomically m)"
  by (auto simp: keeps_def snd_atomically refl split: sum.splits)

lemma keeps_update: "(\<And>s. R s (f s)) \<Longrightarrow> keeps R (update f)"
  by (simp add: keeps_def update_def)

lemma keeps_forEach: "(\<And>x. keeps R (f x)) \<Longrightarrow> keeps R (forEach xs f)"
  by (induction xs) (auto intro: keeps_basic keeps_andThen)

lemma keeps_foldEach: "(\<And>x a. x \<in> set xs \<Longrightarrow> keeps R (f x a)) \<Longrightarrow> keeps R (foldEach xs f acc)"
  by (induction xs arbitrary: acc) (auto intro: keeps_basic keeps_andThen)

lemma keeps_query_andThen: "(\<And>s. keeps R (f (q s))) \<Longrightarrow> keeps R (andThen (query q) f)"
  by (simp add: keeps_def andThen_def query_def)

lemma keeps_split:
  "(b \<Longrightarrow> keeps R m) \<Longrightarrow> (\<not> b \<Longrightarrow> keeps R n) \<Longrightarrow> keeps R (if b then m else n)"
  "keeps R k \<Longrightarrow> (\<And>x. keeps R (g x)) \<Longrightarrow> keeps R (case y of None \<Rightarrow> k | Some x \<Rightarrow> g x)"
  "(\<And>e. keeps R (h e)) \<Longrightarrow> (\<And>x. keeps R (g' x)) \<Longrightarrow> keeps R (case r of Inl e \<Rightarrow> h e | Inr x \<Rightarrow> g' x)"
  "keeps R k \<Longrightarrow> (\<And>x xs. keeps R (f x xs)) \<Longrightarrow> keeps R (case l of [] \<Rightarrow> k | x # xs \<Rightarrow> f x xs)"
  "(\<And>a b. keeps R (f' a b)) \<Longrightarrow> keeps R (case p of (a, b) \<Rightarrow> f' a b)"
  by (auto split: option.splits sum.splits list.splits prod.splits)

lemmas keeps_rules = keeps_basic keeps_andThen keeps_atomically keeps_update keeps_forEach keeps_foldEach keeps_split

end

subsection \<open>Tables of rows and the SQL statements over them\<close>

text \<open>
  A table is the list of its rows in rowid order. \<open>get\<close> reads it from the state and \<open>upd\<close>
  is the record's update function for that field. \<open>sql_update\<close> returns the number of rows the
  WHERE clause selected, which is what the driver reports as \<open>changes\<close>.
\<close>

definition sql_all :: "('s \<Rightarrow> 'r list) \<Rightarrow> ('r \<Rightarrow> bool) \<Rightarrow> ('e, 's, 'r list) eff" where
  [eff_simps]: "sql_all get P s = (Inr (filter P (get s)), s)"

definition sql_get :: "('s \<Rightarrow> 'r list) \<Rightarrow> ('r \<Rightarrow> bool) \<Rightarrow> ('e, 's, 'r option) eff" where
  [eff_simps]: "sql_get get P s = (Inr (find P (get s)), s)"

definition update_rows :: "('r \<Rightarrow> bool) \<Rightarrow> ('r \<Rightarrow> 'r) \<Rightarrow> 'r list \<Rightarrow> 'r list" where
  "update_rows P f rows = map (\<lambda>r. if P r then f r else r) rows"

definition sql_update ::
  "('s \<Rightarrow> 'r list) \<Rightarrow> (('r list \<Rightarrow> 'r list) \<Rightarrow> 's \<Rightarrow> 's) \<Rightarrow> ('r \<Rightarrow> bool) \<Rightarrow> ('r \<Rightarrow> 'r) \<Rightarrow> ('e, 's, nat) eff" where
  [eff_simps]: "sql_update get upd P f s = (Inr (length (filter P (get s))), upd (update_rows P f) s)"

definition sql_delete ::
  "('s \<Rightarrow> 'r list) \<Rightarrow> (('r list \<Rightarrow> 'r list) \<Rightarrow> 's \<Rightarrow> 's) \<Rightarrow> ('r \<Rightarrow> bool) \<Rightarrow> ('e, 's, nat) eff" where
  [eff_simps]: "sql_delete get upd P s = (Inr (length (filter P (get s))), upd (filter (\<lambda>r. \<not> P r)) s)"

definition unique_key :: "('r \<Rightarrow> 'k) \<Rightarrow> 'r list \<Rightarrow> bool" where
  "unique_key key rows \<longleftrightarrow> distinct (map key rows)"

lemma set_update_rows: "r \<in> set (update_rows P f rows) \<longleftrightarrow> (\<exists>q \<in> set rows. r = (if P q then f q else q))"
  by (auto simp: update_rows_def)

lemma update_rows_Nil [simp]: "update_rows P f [] = []"
  by (simp add: update_rows_def)

lemma length_update_rows [simp]: "length (update_rows P f rows) = length rows"
  by (simp add: update_rows_def)

lemma map_key_update_rows:
  "(\<And>r. P r \<Longrightarrow> key (f r) = key r) \<Longrightarrow> map key (update_rows P f rows) = map key rows"
  by (auto simp: update_rows_def)

lemma key_image_update_rows:
  assumes "\<And>r. P r \<Longrightarrow> key (f r) = key r"
  shows "key ` set (update_rows P f rows) = key ` set rows"
proof -
  have "set (map key (update_rows P f rows)) = set (map key rows)"
    using assms by (simp only: map_key_update_rows)
  then show ?thesis by simp
qed

lemma ball_update_rows:
  assumes "\<forall>r \<in> set rows. Q r" and "\<And>r. P r \<Longrightarrow> Q r \<Longrightarrow> Q (f r)"
  shows "\<forall>r \<in> set (update_rows P f rows). Q r"
  using assms by (auto simp: update_rows_def)

lemma unique_key_update_rows:
  "(\<And>r. P r \<Longrightarrow> key (f r) = key r) \<Longrightarrow> unique_key key (update_rows P f rows) = unique_key key rows"
  by (simp add: unique_key_def map_key_update_rows)

lemma find_key_Some: "find (\<lambda>r. key r = k) rows = Some r \<Longrightarrow> r \<in> set rows \<and> key r = k"
  by (auto simp: find_Some_iff in_set_conv_nth)

lemma find_key_None: "find (\<lambda>r. key r = k) rows = None \<longleftrightarrow> k \<notin> key ` set rows"
  by (auto simp: find_None_iff)

lemma unique_key_inj:
  "unique_key key rows \<Longrightarrow> r \<in> set rows \<Longrightarrow> q \<in> set rows \<Longrightarrow> key r = key q \<Longrightarrow> r = q"
  by (auto simp: unique_key_def distinct_map inj_on_def)

lemma find_key_unique:
  assumes "unique_key key rows" and "r \<in> set rows"
  shows "find (\<lambda>q. key q = key r) rows = Some r"
proof -
  have "find (\<lambda>q. key q = key r) rows \<noteq> None" using assms(2) by (auto simp: find_None_iff)
  then obtain q where q: "find (\<lambda>q. key q = key r) rows = Some q" by blast
  with assms show ?thesis by (metis find_key_Some unique_key_inj)
qed

lemma filter_key_length:
  assumes "unique_key key rows"
  shows "length (filter (\<lambda>r. key r = k \<and> Q r) rows) =
    (case find (\<lambda>r. key r = k) rows of None \<Rightarrow> 0 | Some r \<Rightarrow> if Q r then 1 else 0)"
  using assms
proof (induction rows)
  case (Cons r rows)
  have "key r = k \<Longrightarrow> filter (\<lambda>r. key r = k \<and> Q r) rows = []"
    using Cons.prems by (auto simp: unique_key_def filter_empty_conv) (metis image_eqI)
  with Cons show ?case by (auto simp: unique_key_def)
qed simp

lemma find_update_rows:
  assumes "\<And>r. P r \<Longrightarrow> key (f r) = key r"
  shows "find (\<lambda>r. key r = k) (update_rows P f rows) =
    map_option (\<lambda>r. if P r then f r else r) (find (\<lambda>r. key r = k) rows)"
  by (induction rows) (auto simp: update_rows_def assms)

lemma find_snoc: "find P (xs @ [x]) = (case find P xs of None \<Rightarrow> if P x then Some x else None | Some y \<Rightarrow> Some y)"
  by (induction xs) auto

text \<open>
  The contract of a table inside the database state: \<open>get\<close> and \<open>upd\<close> are the reader and the
  writer of one field. The statements then act on that table only.
\<close>

locale table =
  fixes get :: "'s \<Rightarrow> 'r list"
    and upd :: "('r list \<Rightarrow> 'r list) \<Rightarrow> 's \<Rightarrow> 's"
    and key :: "'r \<Rightarrow> 'k"
  assumes get_upd: "get (upd g s) = g (get s)"
    and upd_same: "g (get s) = get s \<Longrightarrow> upd g s = s"
    and upd_cong: "g (get s) = h (get s) \<Longrightarrow> upd g s = upd h s"
begin

text \<open>
  A compare-and-swap on the row under a primary key: it changes that row and reports one change if
  the row is there and satisfies the guard, and otherwise changes nothing.
\<close>

lemma cas_update:
  assumes "unique_key key (get s)"
  shows "sql_update get upd (\<lambda>r. key r = k \<and> Q r) f s =
    (case find (\<lambda>r. key r = k) (get s) of
       Some r \<Rightarrow> if Q r then (Inr 1, upd (update_rows (\<lambda>r. key r = k) f) s) else (Inr 0, s)
     | None \<Rightarrow> (Inr 0, s))"
proof (cases "find (\<lambda>r. key r = k) (get s)")
  case None
  then have n: "\<forall>r \<in> set (get s). key r \<noteq> k" by (auto simp: find_None_iff)
  then have "upd (update_rows (\<lambda>r. key r = k \<and> Q r) f) s = s"
    by (intro upd_same) (simp add: update_rows_def map_idI)
  with None n show ?thesis by (simp add: sql_update_def filter_empty_conv)
next
  case (Some q)
  then have q: "q \<in> set (get s)" "key q = k" by (auto dest: find_key_Some)
  have same: "key r = k \<longleftrightarrow> r = q" if "r \<in> set (get s)" for r
    using unique_key_inj [OF assms that q(1)] q(2) by auto
  have n: "length (filter (\<lambda>r. key r = k \<and> Q r) (get s)) = (if Q q then 1 else 0)"
    using filter_key_length [OF assms, of k Q] Some by simp
  show ?thesis
  proof (cases "Q q")
    case True
    have "upd (update_rows (\<lambda>r. key r = k \<and> Q r) f) s = upd (update_rows (\<lambda>r. key r = k) f) s"
      using same True by (intro upd_cong) (auto simp: update_rows_def)
    with True Some n show ?thesis by (simp add: sql_update_def)
  next
    case False
    have "upd (update_rows (\<lambda>r. key r = k \<and> Q r) f) s = s"
      using same False by (intro upd_same) (auto simp: update_rows_def intro!: map_idI)
    with False Some n show ?thesis by (simp add: sql_update_def)
  qed
qed

lemma update_key_count:
  assumes "unique_key key (get s)"
  shows "sql_update get upd (\<lambda>r. key r = k \<and> Q r) f s =
    (Inr (case find (\<lambda>r. key r = k) (get s) of None \<Rightarrow> 0 | Some r \<Rightarrow> if Q r then 1 else 0),
     upd (update_rows (\<lambda>r. key r = k \<and> Q r) f) s)"
  using assms by (simp add: sql_update_def filter_key_length)

lemma get_after_update:
  assumes "\<And>r. P r \<Longrightarrow> key (f r) = key r"
  shows "find (\<lambda>r. key r = k) (get (snd (sql_update get upd P f s))) =
    map_option (\<lambda>r. if P r then f r else r) (find (\<lambda>r. key r = k) (get s))"
  using assms by (simp add: sql_update_def get_upd find_update_rows)

lemma update_keeps_keys:
  assumes "\<And>r. P r \<Longrightarrow> key (f r) = key r"
  shows "map key (get (snd (sql_update get upd P f s))) = map key (get s)"
  using assms by (simp add: sql_update_def get_upd map_key_update_rows)

end

text \<open>
  ORDER BY: a stable sort of the rows in rowid order. Strings are compared by code unit and NULL
  comes first (\<open>HOL-Library.Option_ord\<close>), as in SQLite.
\<close>

definition order_by :: "('r \<Rightarrow> 'k::linorder) \<Rightarrow> 'r list \<Rightarrow> 'r list" where
  "order_by key rows = sort_key key rows"

definition order_by_desc :: "('r \<Rightarrow> 'k::linorder) \<Rightarrow> 'r list \<Rightarrow> 'r list" where
  "order_by_desc key rows = rev (sort_key key (rev rows))"

lemma set_order_by [simp]: "set (order_by key rows) = set rows"
  "set (order_by_desc key rows) = set rows"
  by (simp_all add: order_by_def order_by_desc_def)

lemma length_order_by [simp]: "length (order_by key rows) = length rows"
  "length (order_by_desc key rows) = length rows"
  by (simp_all add: order_by_def order_by_desc_def)

lemma order_by_Nil [simp]: "order_by key [] = []" "order_by_desc key [] = []"
  by (simp_all add: order_by_def order_by_desc_def)

lemma order_by_sorted: "sorted (map key rows) \<Longrightarrow> order_by key rows = rows"
  by (simp add: order_by_def sorted_sort_id sort_key_id_if_sorted)

lemma sort_key_map: "sort_key f (map g xs) = map g (sort_key (\<lambda>x. f (g x)) xs)"
proof (induction xs)
  case (Cons x xs)
  have "insort_key f (g x) (map g ys) = map g (insort_key (\<lambda>x. f (g x)) x ys)" for ys
    by (induction ys) auto
  with Cons show ?case by simp
qed simp

lemma order_by_map: "order_by f (map g xs) = map g (order_by (\<lambda>x. f (g x)) xs)"
  by (simp add: order_by_def sort_key_map)

lemma order_by_pair_const: "order_by (\<lambda>x. (f x, c)) xs = order_by f xs"
proof -
  have "insort_key (\<lambda>x. (f x, c)) x ys = insort_key f x ys" for x and ys :: "'a list"
    by (induction ys) (auto simp: less_eq_prod_def)
  then show ?thesis by (induction xs) (simp_all add: order_by_def)
qed

lemma order_by_hd:
  assumes "order_by key rows = r # rest" and "q \<in> set rows"
  shows "key r \<le> key q"
proof -
  have "sorted (map key (r # rest))" unfolding assms(1) [symmetric] order_by_def by simp
  moreover have "q \<in> set (r # rest)" unfolding assms(1) [symmetric] using assms(2) by simp
  ultimately show ?thesis by auto
qed

lemma order_by_desc_hd:
  assumes "order_by_desc key rows = r # rest" and "q \<in> set rows"
  shows "key q \<le> key r"
proof -
  have eq: "sort_key key (rev rows) = rev rest @ [r]"
    using assms(1) unfolding order_by_desc_def by (metis rev.simps(2) rev_rev_ident)
  then have "sorted (map key (rev rest @ [r]))" by (metis sorted_sort_key)
  moreover have "q \<in> set (rev rest @ [r])" unfolding eq [symmetric] using assms(2) by simp
  ultimately show ?thesis by (auto simp: sorted_append)
qed

subsection \<open>Strings\<close>

definition js_space :: "char \<Rightarrow> bool" where
  "js_space c \<longleftrightarrow> (of_char c :: nat) \<in> {9, 10, 11, 12, 13, 32, 160}"

definition trim :: "string \<Rightarrow> string" where
  "trim s = rev (dropWhile js_space (rev (dropWhile js_space s)))"

definition alnum :: "char \<Rightarrow> bool" where
  "alnum c \<longleftrightarrow> (let n = (of_char c :: nat) in
     48 \<le> n \<and> n \<le> 57 \<or> 65 \<le> n \<and> n \<le> 90 \<or> 97 \<le> n \<and> n \<le> 122)"

definition starts_with :: "string \<Rightarrow> string \<Rightarrow> bool" where
  "starts_with p s \<longleftrightarrow> take (length p) s = p"

fun contains :: "string \<Rightarrow> string \<Rightarrow> bool" where
  "contains p [] = (p = [])"
| "contains p (c # cs) = (starts_with p (c # cs) \<or> contains p cs)"

text \<open>\<open>LIKE '%pattern%'\<close> in SQLite ignores the case of ASCII letters.\<close>

definition ascii_lower :: "char \<Rightarrow> char" where
  "ascii_lower c = (let n = (of_char c :: nat) in if 65 \<le> n \<and> n \<le> 90 then char_of (n + 32) else c)"

definition like_contains :: "string \<Rightarrow> string \<Rightarrow> bool" where
  "like_contains p s \<longleftrightarrow> contains (map ascii_lower p) (map ascii_lower s)"

fun join :: "string \<Rightarrow> string list \<Rightarrow> string" where
  "join sep [] = []"
| "join sep [x] = x"
| "join sep (x # y # xs) = x @ sep @ join sep (y # xs)"

definition digit :: "nat \<Rightarrow> char" where
  "digit n = char_of (48 + n)"

fun show_nat :: "nat \<Rightarrow> string" where
  "show_nat n = (if n < 10 then [digit n] else show_nat (n div 10) @ [digit (n mod 10)])"

declare show_nat.simps [simp del]

definition show_int :: "int \<Rightarrow> string" where
  "show_int i = (if i < 0 then ''-'' @ show_nat (nat (- i)) else show_nat (nat i))"

definition newline :: "string" where
  "newline = [char_of (10 :: nat)]"

lemma dropWhile_idem_rev: "dropWhile P (dropWhile P xs) = dropWhile P xs"
  by (induction xs) auto

lemma hd_dropWhile_rev:
  "dropWhile P (rev (dropWhile P (rev (dropWhile P xs)))) = rev (dropWhile P (rev (dropWhile P xs)))"
proof -
  define ys where "ys = dropWhile P xs"
  have "\<forall>z zs. ys = z # zs \<longrightarrow> \<not> P z"
    unfolding ys_def by (metis hd_dropWhile list.discI list.sel(1))
  then have "dropWhile P (rev (dropWhile P (rev ys))) = rev (dropWhile P (rev ys))"
    by (cases ys) (auto simp: dropWhile_append split: if_splits)
  then show ?thesis by (simp add: ys_def)
qed

lemma trim_trim [simp]: "trim (trim s) = trim s"
  by (simp add: trim_def hd_dropWhile_rev dropWhile_idem_rev)

lemma dropWhile_none: "\<forall>x \<in> set xs. \<not> P x \<Longrightarrow> dropWhile P xs = xs"
  by (cases xs) auto

lemma trim_no_space: "\<forall>c \<in> set s. \<not> js_space c \<Longrightarrow> trim s = s"
  by (simp add: trim_def dropWhile_none)

subsection \<open>JSON values\<close>

text \<open>
  A JSON column of the database holds the text \<open>JSON.stringify\<close> wrote; the model keeps the
  value itself. Objects keep their keys in order, so equality of values is equality of texts.
  Numbers are the integers the program stores.
\<close>

datatype json = JNull | JBool bool | JNum int | JStr string | JArr "json list" | JObj "(string \<times> json) list"

fun json_field :: "string \<Rightarrow> json \<Rightarrow> json option" where
  "json_field k (JObj kvs) = map_of kvs k"
| "json_field k _ = None"

text \<open>
  \<open>isDeepStrictEqual\<close> does not look at the order of an object's keys: it compares the values with
  every object's keys sorted.
\<close>

primrec json_canon :: "json \<Rightarrow> json" where
  "json_canon JNull = JNull"
| "json_canon (JBool b) = JBool b"
| "json_canon (JNum n) = JNum n"
| "json_canon (JStr s) = JStr s"
| "json_canon (JArr xs) = JArr (map json_canon xs)"
| "json_canon (JObj kvs) = JObj (sort_key fst (map (map_prod id json_canon) kvs))"

definition isDeepStrictEqual :: "json option \<Rightarrow> json option \<Rightarrow> bool" where
  "isDeepStrictEqual a b \<longleftrightarrow> map_option json_canon a = map_option json_canon b"

definition max_safe_int :: int where
  "max_safe_int = 9007199254740991"

definition is_safe_int :: "int \<Rightarrow> bool" where
  "is_safe_int n \<longleftrightarrow> - max_safe_int \<le> n \<and> n \<le> max_safe_int"

end
