(* ===== verification/Protocol.thy ===== *)
theory Protocol
  imports Prelude
begin

text \<open>
  \<open>src/protocol.ts\<close>: the enumerations of the task protocol, the task payload and route plan
  schemas with the normalisation they perform, and the two transition tables.

  A schema is a function that returns the normalised value, or \<open>None\<close> where \<open>parse\<close> throws.
\<close>

subsection \<open>Enumerations\<close>

datatype task_status = TQueued | TRunning | TNeedsReview | TBlocked | TDone

datatype priority = PLow | PNormal | PHigh | PUrgent

datatype agent_selection = SelAuto | SelCodex | SelClaude | SelOpenclaw | SelParallel

datatype agent_kind = Codex | Claude | Openclaw

datatype route_role = Execute | Review | Approval

datatype run_status = RQueued | RStarting | RRunning | RSucceeded | RFailed | RStopped | RStale

datatype route_mode = Single | Sequential | Parallel

datatype risk_level = RiskNormal | RiskHigh

datatype artifact_kind = KPrompt | KStdout | KStderr | KResult | KDiff | KGitStatus | KCommit
  | KScreenshot | KTestLog | KHandoff | KMetadata

definition TaskStatusSchema :: "(string \<times> task_status) list" where
  "TaskStatusSchema = [(''queued'', TQueued), (''running'', TRunning),
     (''needs-review'', TNeedsReview), (''blocked'', TBlocked), (''done'', TDone)]"

definition PrioritySchema :: "(string \<times> priority) list" where
  "PrioritySchema = [(''low'', PLow), (''normal'', PNormal), (''high'', PHigh), (''urgent'', PUrgent)]"

definition AgentSelectionSchema :: "(string \<times> agent_selection) list" where
  "AgentSelectionSchema = [(''auto'', SelAuto), (''codex'', SelCodex), (''claude'', SelClaude),
     (''openclaw'', SelOpenclaw), (''parallel'', SelParallel)]"

definition AgentKindSchema :: "(string \<times> agent_kind) list" where
  "AgentKindSchema = [(''codex'', Codex), (''claude'', Claude), (''openclaw'', Openclaw)]"

definition RouteRoleSchema :: "(string \<times> route_role) list" where
  "RouteRoleSchema = [(''execute'', Execute), (''review'', Review), (''approval'', Approval)]"

definition RunStatusSchema :: "(string \<times> run_status) list" where
  "RunStatusSchema = [(''queued'', RQueued), (''starting'', RStarting), (''running'', RRunning),
     (''succeeded'', RSucceeded), (''failed'', RFailed), (''stopped'', RStopped), (''stale'', RStale)]"

definition ArtifactKindSchema :: "(string \<times> artifact_kind) list" where
  "ArtifactKindSchema = [(''prompt'', KPrompt), (''stdout'', KStdout), (''stderr'', KStderr),
     (''result'', KResult), (''diff'', KDiff), (''git-status'', KGitStatus), (''commit'', KCommit),
     (''screenshot'', KScreenshot), (''test-log'', KTestLog), (''handoff'', KHandoff),
     (''metadata'', KMetadata)]"

text \<open>The spelling of an enumeration's value: the key its schema maps to it.\<close>

definition enum_name :: "(string \<times> 'a) list \<Rightarrow> 'a \<Rightarrow> string" where
  "enum_name schema v = (case find (\<lambda>kv. snd kv = v) schema of None \<Rightarrow> [] | Some kv \<Rightarrow> fst kv)"

subsection \<open>Task identifiers\<close>

definition id_char :: "char \<Rightarrow> bool" where
  "id_char c \<longleftrightarrow> alnum c \<or> c \<in> {CHR ''.'', CHR ''_'', CHR ''-''}"

definition task_id_shape :: "string \<Rightarrow> bool" where
  "task_id_shape s \<longleftrightarrow> (case s of [] \<Rightarrow> False | c # cs \<Rightarrow> alnum c \<and> list_all id_char cs)"

definition TaskIdSchema :: "string \<Rightarrow> string option" where
  "TaskIdSchema s = (let v = trim s in
     if 1 \<le> length v \<and> length v \<le> 160 \<and> task_id_shape v \<and> v \<noteq> ''.'' \<and> v \<noteq> ''..''
     then Some v else None)"

subsection \<open>The task payload\<close>

record task_payload =
  p_id :: "string option"
  p_goal :: string
  p_repo :: string
  p_baseRef :: string
  p_agent :: agent_selection
  p_priority :: priority
  p_context :: "string option"
  p_successCriteria :: "string list"
  p_verificationCommand :: "string option"
  p_handoffRequired :: bool

text \<open>\<open>z.string().trim().min(lo).max(hi)\<close>: the checks see the trimmed value, which is the result.\<close>

definition text_field :: "nat \<Rightarrow> nat option \<Rightarrow> string \<Rightarrow> string option" where
  "text_field lo hi s = (let v = trim s in
     if lo \<le> length v \<and> (case hi of None \<Rightarrow> True | Some h \<Rightarrow> length v \<le> h) then Some v else None)"

definition optional_field :: "('a \<Rightarrow> 'b option) \<Rightarrow> 'a option \<Rightarrow> 'b option option" where
  "optional_field f x = (case x of None \<Rightarrow> Some None | Some v \<Rightarrow> map_option Some (f v))"

fun all_fields :: "('a \<Rightarrow> 'b option) \<Rightarrow> 'a list \<Rightarrow> 'b list option" where
  "all_fields f [] = Some []"
| "all_fields f (x # xs) = (case f x of None \<Rightarrow> None | Some y \<Rightarrow> map_option ((#) y) (all_fields f xs))"

definition TaskPayloadSchema :: "task_payload \<Rightarrow> task_payload option" where
  "TaskPayloadSchema p =
     Option.bind (optional_field TaskIdSchema (p_id p)) (\<lambda>i.
     Option.bind (text_field 1 (Some 10000) (p_goal p)) (\<lambda>goal.
     Option.bind (text_field 1 None (p_repo p)) (\<lambda>repo.
     Option.bind (text_field 1 None (p_baseRef p)) (\<lambda>baseRef.
     Option.bind (optional_field (text_field 0 (Some 100000)) (p_context p)) (\<lambda>context.
     Option.bind (if length (p_successCriteria p) \<le> 50
                  then all_fields (text_field 1 None) (p_successCriteria p) else None) (\<lambda>criteria.
     Option.bind (optional_field (text_field 0 (Some 2000)) (p_verificationCommand p)) (\<lambda>command.
     Some \<lparr>p_id = i, p_goal = goal, p_repo = repo, p_baseRef = baseRef, p_agent = p_agent p,
           p_priority = p_priority p, p_context = context, p_successCriteria = criteria,
           p_verificationCommand = command, p_handoffRequired = p_handoffRequired p\<rparr>)))))))"

text \<open>
  The same schema on an untyped JSON value: the types of the fields, the defaults of absent
  fields, and \<open>.strict()\<close>, which rejects an object with any other key.
\<close>

fun json_string :: "json \<Rightarrow> string option" where
  "json_string (JStr s) = Some s" | "json_string _ = None"

fun json_bool :: "json \<Rightarrow> bool option" where
  "json_bool (JBool b) = Some b" | "json_bool _ = None"

fun json_array :: "json \<Rightarrow> json list option" where
  "json_array (JArr xs) = Some xs" | "json_array _ = None"

definition json_enum :: "(string \<times> 'a) list \<Rightarrow> json \<Rightarrow> 'a option" where
  "json_enum schema v = Option.bind (json_string v) (map_of schema)"

definition default_field :: "'a \<Rightarrow> (json \<Rightarrow> 'a option) \<Rightarrow> json option \<Rightarrow> 'a option" where
  "default_field d f x = (case x of None \<Rightarrow> Some d | Some v \<Rightarrow> f v)"

definition task_payload_keys :: "string list" where
  "task_payload_keys = [''id'', ''goal'', ''repo'', ''baseRef'', ''agent'', ''priority'', ''context'',
     ''successCriteria'', ''verificationCommand'', ''handoffRequired'']"

definition parseTaskPayload :: "json \<Rightarrow> task_payload option" where
  "parseTaskPayload v = (case v of
     JObj kvs \<Rightarrow>
       if \<not> list_all (\<lambda>kv. fst kv \<in> set task_payload_keys) kvs then None
       else
         Option.bind (optional_field json_string (json_field ''id'' v)) (\<lambda>i.
         Option.bind (Option.bind (json_field ''goal'' v) json_string) (\<lambda>goal.
         Option.bind (Option.bind (json_field ''repo'' v) json_string) (\<lambda>repo.
         Option.bind (default_field ''HEAD'' json_string (json_field ''baseRef'' v)) (\<lambda>baseRef.
         Option.bind (default_field SelAuto (json_enum AgentSelectionSchema) (json_field ''agent'' v)) (\<lambda>agent.
         Option.bind (default_field PNormal (json_enum PrioritySchema) (json_field ''priority'' v)) (\<lambda>prio.
         Option.bind (optional_field json_string (json_field ''context'' v)) (\<lambda>context.
         Option.bind (default_field [] (\<lambda>w. Option.bind (json_array w) (all_fields json_string))
                        (json_field ''successCriteria'' v)) (\<lambda>criteria.
         Option.bind (optional_field json_string (json_field ''verificationCommand'' v)) (\<lambda>command.
         Option.bind (default_field True json_bool (json_field ''handoffRequired'' v)) (\<lambda>handoff.
         TaskPayloadSchema \<lparr>p_id = i, p_goal = goal, p_repo = repo, p_baseRef = baseRef,
           p_agent = agent, p_priority = prio, p_context = context, p_successCriteria = criteria,
           p_verificationCommand = command, p_handoffRequired = handoff\<rparr>))))))))))
   | _ \<Rightarrow> None)"

subsection \<open>Route plans\<close>

record route_step =
  st_id :: string
  st_sequence :: int
  st_agent :: agent_kind
  st_role :: route_role
  st_required :: bool
  st_reason :: string

record route_plan =
  rp_mode :: route_mode
  rp_risk :: risk_level
  rp_reasons :: "string list"
  rp_steps :: "route_step list"

definition RouteStepSchema :: "route_step \<Rightarrow> bool" where
  "RouteStepSchema s \<longleftrightarrow> 1 \<le> length (st_id s) \<and> is_safe_int (st_sequence s) \<and> 0 \<le> st_sequence s
     \<and> 1 \<le> length (st_reason s)"

definition RoutePlanSchema :: "route_plan \<Rightarrow> route_plan option" where
  "RoutePlanSchema p = (if list_all RouteStepSchema (rp_steps p) \<and> 1 \<le> length (rp_steps p)
     then Some p else None)"

subsection \<open>Transition tables\<close>

datatype transition_error = InvalidTaskTransition task_status task_status
  | InvalidRunTransition run_status run_status

fun TASK_TRANSITIONS :: "task_status \<Rightarrow> task_status list" where
  "TASK_TRANSITIONS TQueued = [TRunning, TBlocked]"
| "TASK_TRANSITIONS TRunning = [TNeedsReview, TBlocked, TDone, TQueued]"
| "TASK_TRANSITIONS TNeedsReview = [TDone, TQueued, TBlocked]"
| "TASK_TRANSITIONS TBlocked = [TQueued, TDone]"
| "TASK_TRANSITIONS TDone = [TQueued]"

definition assertTaskTransition :: "task_status \<Rightarrow> task_status \<Rightarrow> transition_error + unit" where
  "assertTaskTransition frm to = (if frm = to then Inr ()
     else if to \<notin> set (TASK_TRANSITIONS frm) then Inl (InvalidTaskTransition frm to) else Inr ())"

fun RUN_TRANSITIONS :: "run_status \<Rightarrow> run_status list" where
  "RUN_TRANSITIONS RQueued = [RStarting, RStopped]"
| "RUN_TRANSITIONS RStarting = [RRunning, RFailed, RStopped]"
| "RUN_TRANSITIONS RRunning = [RSucceeded, RFailed, RStopped, RStale]"
| "RUN_TRANSITIONS RSucceeded = []"
| "RUN_TRANSITIONS RFailed = [RQueued]"
| "RUN_TRANSITIONS RStopped = [RQueued]"
| "RUN_TRANSITIONS RStale = [RQueued, RFailed]"

definition assertRunTransition :: "run_status \<Rightarrow> run_status \<Rightarrow> transition_error + unit" where
  "assertRunTransition frm to = (if frm = to then Inr ()
     else if to \<notin> set (RUN_TRANSITIONS frm) then Inl (InvalidRunTransition frm to) else Inr ())"

subsection \<open>Facts about the schemas\<close>

definition task_step_ok :: "task_status \<Rightarrow> task_status \<Rightarrow> bool" where
  "task_step_ok a b \<longleftrightarrow> assertTaskTransition a b = Inr ()"

definition run_step_ok :: "run_status \<Rightarrow> run_status \<Rightarrow> bool" where
  "run_step_ok a b \<longleftrightarrow> assertRunTransition a b = Inr ()"

lemma task_step_ok_iff: "task_step_ok a b \<longleftrightarrow> a = b \<or> b \<in> set (TASK_TRANSITIONS a)"
  by (simp add: task_step_ok_def assertTaskTransition_def)

lemma run_step_ok_iff: "run_step_ok a b \<longleftrightarrow> a = b \<or> b \<in> set (RUN_TRANSITIONS a)"
  by (simp add: run_step_ok_def assertRunTransition_def)

lemma assertTaskTransition_cases:
  "(case assertTaskTransition a b of Inl e \<Rightarrow> x e | Inr u \<Rightarrow> y u) =
   (if task_step_ok a b then y () else x (InvalidTaskTransition a b))"
  by (auto simp: assertTaskTransition_def task_step_ok_def)

lemma text_field_idem: "text_field lo hi s = Some v \<Longrightarrow> text_field lo hi v = Some v"
  by (auto simp: text_field_def Let_def split: if_splits option.splits)

lemma TaskIdSchema_idem: "TaskIdSchema s = Some v \<Longrightarrow> TaskIdSchema v = Some v"
  by (auto simp: TaskIdSchema_def Let_def split: if_splits)

lemma optional_field_idem:
  assumes "\<And>s v. f s = Some v \<Longrightarrow> f v = Some v" and "optional_field f x = Some y"
  shows "optional_field f y = Some y"
  using assms by (auto simp: optional_field_def split: option.splits)

lemma all_fields_idem:
  assumes "\<And>s v. f s = Some v \<Longrightarrow> f v = Some v" and "all_fields f xs = Some ys"
  shows "all_fields f ys = Some ys"
  using assms(2)
proof (induction xs arbitrary: ys)
  case (Cons x xs)
  then show ?case by (auto split: option.splits dest: assms(1))
qed simp

lemma all_fields_length: "all_fields f xs = Some ys \<Longrightarrow> length ys = length xs"
  by (induction xs arbitrary: ys) (auto split: option.splits)

lemma TaskPayloadSchema_idem:
  assumes "TaskPayloadSchema p = Some q"
  shows "TaskPayloadSchema q = Some q"
  using assms unfolding TaskPayloadSchema_def
  by (auto simp: bind_eq_Some_conv text_field_idem all_fields_length split: if_splits
      intro!: optional_field_idem [OF TaskIdSchema_idem] optional_field_idem [OF text_field_idem]
        all_fields_idem [OF text_field_idem])

lemma TaskIdSchema_shape: "TaskIdSchema s = Some v \<Longrightarrow> task_id_shape v \<and> length v \<le> 160 \<and> v \<noteq> []"
  by (auto simp: TaskIdSchema_def Let_def split: if_splits)

lemma id_char_no_space: "id_char c \<Longrightarrow> \<not> js_space c"
  by (auto simp: id_char_def alnum_def js_space_def Let_def)

lemma id_char_no_slash: "id_char c \<Longrightarrow> c \<noteq> CHR ''/'' \<and> c \<noteq> CHR 0x5C"
  by (auto simp: id_char_def alnum_def Let_def)

lemma task_id_shape_chars: "task_id_shape s \<Longrightarrow> list_all id_char s"
  by (auto simp: task_id_shape_def id_char_def split: list.splits)

end
