(* ===== verification/Schemas.thy ===== *)
theory Schemas
  imports Protocol
begin

text \<open>
  The part of zod that \<open>src/accp\<close> uses, as a syntax of schemas and the function \<open>parse\<close> on JSON values:
  \<open>Some w\<close> with the value zod returns (unknown keys of an object dropped, its keys in the order of the
  schema, defaults filled in), \<open>None\<close> where it throws. \<open>z.string().url()\<close> asks the platform's URL
  parser, the argument \<open>url\<close>.
\<close>

datatype presence = Required | Optional | Defaulted json

datatype schema =
    SStr nat "nat option"
  | SPat "string \<Rightarrow> bool"
  | SInt "int option"
  | SLit json
  | SEnum "string list"
  | SBool
  | SUrl
  | SUnknown
  | SRecord
  | SArr schema nat "nat option"
  | SObj "(string \<times> presence \<times> schema) list"
  | SRefine schema "json \<Rightarrow> bool"

definition within :: "nat \<Rightarrow> nat option \<Rightarrow> nat \<Rightarrow> bool" where
  "within lo hi n \<longleftrightarrow> lo \<le> n \<and> (case hi of None \<Rightarrow> True | Some h \<Rightarrow> n \<le> h)"

lemma size_schema_field [termination_simp]:
  "(k, p, sc) \<in> set fs \<Longrightarrow> size sc < Suc (size_list (\<lambda>(_, _, s). size s) fs)"
  by (induction fs) auto

fun parse :: "(string \<Rightarrow> bool) \<Rightarrow> schema \<Rightarrow> json \<Rightarrow> json option"
  and parse_fields :: "(string \<Rightarrow> bool) \<Rightarrow> (string \<times> presence \<times> schema) list \<Rightarrow> (string \<times> json) list \<Rightarrow> (string \<times> json) list option"
where
  "parse url (SStr lo hi) v = (case v of JStr s \<Rightarrow> if within lo hi (length s) then Some v else None | _ \<Rightarrow> None)"
| "parse url (SPat p) v = (case v of JStr s \<Rightarrow> if p s then Some v else None | _ \<Rightarrow> None)"
| "parse url (SInt lo) v = (case v of JNum n \<Rightarrow>
     if is_safe_int n \<and> (case lo of None \<Rightarrow> True | Some l \<Rightarrow> l \<le> n) then Some v else None | _ \<Rightarrow> None)"
| "parse url (SLit l) v = (if v = l then Some v else None)"
| "parse url (SEnum names) v = (case v of JStr s \<Rightarrow> if s \<in> set names then Some v else None | _ \<Rightarrow> None)"
| "parse url SBool v = (case v of JBool b \<Rightarrow> Some v | _ \<Rightarrow> None)"
| "parse url SUrl v = (case v of JStr s \<Rightarrow> if url s then Some v else None | _ \<Rightarrow> None)"
| "parse url SUnknown v = Some v"
| "parse url SRecord v = (case v of JObj kvs \<Rightarrow> Some v | _ \<Rightarrow> None)"
| "parse url (SArr e lo hi) v = (case v of JArr xs \<Rightarrow>
     if within lo hi (length xs) then map_option JArr (all_fields (\<lambda>x. parse url e x) xs) else None | _ \<Rightarrow> None)"
| "parse url (SObj fs) v = (case v of JObj kvs \<Rightarrow> map_option JObj (parse_fields url fs kvs) | _ \<Rightarrow> None)"
| "parse url (SRefine e p) v = (case parse url e v of Some w \<Rightarrow> if p w then Some w else None | None \<Rightarrow> None)"
| "parse_fields url [] kvs = Some []"
| "parse_fields url ((k, pr, sc) # fs) kvs = (case map_of kvs k of
     Some v \<Rightarrow> Option.bind (parse url sc v) (\<lambda>w. map_option ((#) (k, w)) (parse_fields url fs kvs))
   | None \<Rightarrow> (case pr of
       Required \<Rightarrow> None
     | Optional \<Rightarrow> parse_fields url fs kvs
     | Defaulted d \<Rightarrow> map_option ((#) (k, d)) (parse_fields url fs kvs)))"

text \<open>
  A schema is well-formed when no object lists a key twice and every default is a value the schema of its
  field returns unchanged.
\<close>

fun wf_schema :: "(string \<Rightarrow> bool) \<Rightarrow> schema \<Rightarrow> bool"
  and wf_fields :: "(string \<Rightarrow> bool) \<Rightarrow> (string \<times> presence \<times> schema) list \<Rightarrow> bool"
where
  "wf_schema url (SArr e lo hi) = wf_schema url e"
| "wf_schema url (SObj fs) = wf_fields url fs"
| "wf_schema url (SRefine e p) = wf_schema url e"
| "wf_schema url _ = True"
| "wf_fields url [] = True"
| "wf_fields url ((k, pr, sc) # fs) = (k \<notin> fst ` set fs \<and> wf_schema url sc \<and>
     (case pr of Defaulted d \<Rightarrow> parse url sc d = Some d | _ \<Rightarrow> True) \<and> wf_fields url fs)"

text \<open>Parsing is a projection: what a schema returns, it returns again.\<close>

lemma parse_idem:
  "wf_schema url sc \<Longrightarrow> parse url sc v = Some w \<Longrightarrow> parse url sc w = Some w"
  "wf_fields url fs \<Longrightarrow> parse_fields url fs kvs = Some out \<Longrightarrow> fst ` set out \<subseteq> fst ` set fs \<and>
     (\<forall>ext. (\<forall>k \<in> fst ` set fs. map_of ext k = map_of out k) \<longrightarrow> parse_fields url fs ext = Some out)"
proof (induction url sc v and url fs kvs arbitrary: w and out rule: parse_parse_fields.induct)
  case (10 url e lo hi v)
  from 10(3) obtain xs ys where v: "v = JArr xs" "within lo hi (length xs)" "all_fields (\<lambda>x. parse url e x) xs = Some ys" "w = JArr ys"
    by (auto split: json.splits if_splits)
  have wf: "wf_schema url e" using 10(2) by simp
  have "all_fields (\<lambda>x. parse url e x) ys = Some ys"
    by (rule all_fields_idem [OF _ v(3)]) (rule 10(1) [OF v(1,2) wf])
  with v show ?case by (simp add: all_fields_length [OF v(3)])
next
  case (11 url fs v)
  from 11(3) obtain kvs out where v: "v = JObj kvs" "parse_fields url fs kvs = Some out" "w = JObj out"
    by (auto split: json.splits)
  have wf: "wf_fields url fs" using 11(2) by simp
  have "parse_fields url fs out = Some out" using 11(1) [OF v(1) wf v(2)] by blast
  with v(3) show ?case by simp
next
  case (14 url k pr sc fs kvs)
  from 14(5) have wf: "k \<notin> fst ` set fs" "wf_schema url sc" "wf_fields url fs"
    and dflt: "\<And>d. pr = Defaulted d \<Longrightarrow> parse url sc d = Some d" by (auto split: presence.splits)
  show ?case
  proof (cases "map_of kvs k")
    case None
    show ?thesis
    proof (cases pr)
      case Required
      with None 14(6) show ?thesis by simp
    next
      case Optional
      then have out: "parse_fields url fs kvs = Some out" using None 14(6) by simp
      note IH = 14(1) [OF None Optional wf(3) out]
      have "k \<notin> fst ` set out" using IH wf(1) by auto
      then have "map_of out k = None" by (simp add: map_of_eq_None_iff)
      with IH Optional show ?thesis by auto
    next
      case (Defaulted d)
      then obtain out' where out: "parse_fields url fs kvs = Some out'" "out = (k, d) # out'" using None 14(6) by auto
      note IH = 14(2) [OF None Defaulted wf(3) out(1)]
      show ?thesis
      proof (intro conjI allI impI)
        show "fst ` set out \<subseteq> fst ` set ((k, pr, sc) # fs)" using IH out(2) by auto
        fix ext assume e: "\<forall>k' \<in> fst ` set ((k, pr, sc) # fs). map_of ext k' = map_of out k'"
        then have "map_of ext k = Some d" "\<forall>k' \<in> fst ` set fs. map_of ext k' = map_of out' k'"
          using wf(1) out(2) by auto
        with IH dflt [OF Defaulted] out(2) show "parse_fields url ((k, pr, sc) # fs) ext = Some out" by simp
      qed
    qed
  next
    case (Some v)
    with 14(6) obtain w out' where w: "parse url sc v = Some w" "parse_fields url fs kvs = Some out'" "out = (k, w) # out'"
      by (auto simp: bind_eq_Some_conv)
    have pw: "parse url sc w = Some w" by (rule 14(3) [OF Some wf(2) w(1)])
    note IH = 14(4) [OF Some w(1) wf(3) w(2)]
    show ?thesis
    proof (intro conjI allI impI)
      show "fst ` set out \<subseteq> fst ` set ((k, pr, sc) # fs)" using IH w(3) by auto
      fix ext assume e: "\<forall>k' \<in> fst ` set ((k, pr, sc) # fs). map_of ext k' = map_of out k'"
      then have "map_of ext k = Some w" "\<forall>k' \<in> fst ` set fs. map_of ext k' = map_of out' k'"
        using wf(1) w(3) by auto
      with IH pw w(3) show "parse_fields url ((k, pr, sc) # fs) ext = Some out" by simp
    qed
  qed
qed (auto split: json.splits if_splits option.splits)

subsection \<open>Parsing flat objects\<close>

text \<open>A schema of scalars returns what it accepts; an object of such fields is only filtered and reordered.\<close>

fun scalar :: "schema \<Rightarrow> bool" where
  "scalar (SArr e lo hi) = False"
| "scalar (SObj fs) = False"
| "scalar (SRefine e p) = scalar e"
| "scalar _ = True"

lemma parse_scalar: "scalar sc \<Longrightarrow> parse url sc v = Some w \<Longrightarrow> w = v"
  by (induction sc rule: scalar.induct) (auto split: json.splits if_splits option.splits)

lemma parse_fields_flat:
  assumes "\<forall>(k, pr, sc) \<in> set fs. scalar sc \<and> pr \<in> {Required, Optional}" and "distinct (map fst fs)"
    and "parse_fields url fs kvs = Some out"
  shows "distinct (map fst out) \<and> set out = {(k, v). k \<in> fst ` set fs \<and> map_of kvs k = Some v}"
  using assms
proof (induction fs arbitrary: out)
  case (Cons f fs)
  obtain k pr sc where f: "f = (k, pr, sc)" by (cases f)
  from Cons.prems f have IH: "parse_fields url fs kvs = Some out' \<Longrightarrow>
      distinct (map fst out') \<and> set out' = {(k, v). k \<in> fst ` set fs \<and> map_of kvs k = Some v}" for out'
    using Cons.IH by simp
  have k: "k \<notin> fst ` set fs" and sc: "scalar sc" and pr: "pr \<in> {Required, Optional}" using Cons.prems f by auto
  show ?case
  proof (cases "map_of kvs k")
    case None
    with Cons.prems(3) f pr have "parse_fields url fs kvs = Some out" by auto
    with IH [OF this] None f show ?thesis by auto
  next
    case (Some v)
    with Cons.prems(3) f obtain w out' where w: "parse url sc v = Some w" "parse_fields url fs kvs = Some out'" "out = (k, w) # out'"
      by (auto simp: bind_eq_Some_conv)
    have "w = v" using parse_scalar [OF sc w(1)] .
    with IH [OF w(2)] w(3) f k Some show ?thesis by (auto simp: image_iff)
  qed
qed simp

text \<open>An object that only has the listed fields, each once, comes back with its fields reordered.\<close>

lemma parse_fields_same:
  assumes "\<forall>(k, pr, sc) \<in> set fs. scalar sc \<and> pr \<in> {Required, Optional}" and "distinct (map fst fs)"
    and "parse_fields url fs kvs = Some out" and "distinct (map fst kvs)" and "fst ` set kvs \<subseteq> fst ` set fs"
  shows "distinct (map fst out) \<and> set out = set kvs \<and> map_of out = map_of kvs"
proof -
  from parse_fields_flat [OF assms(1-3)]
  have d: "distinct (map fst out)" and s: "set out = {(k, v). k \<in> fst ` set fs \<and> map_of kvs k = Some v}" by auto
  have "set out = set kvs"
  proof (intro set_eqI, clarify)
    fix k v show "(k, v) \<in> set out \<longleftrightarrow> (k, v) \<in> set kvs"
      using assms(4,5) by (force simp: s)
  qed
  with d assms(4) show ?thesis by (metis map_of_inject_set)
qed

end
