(* ===== verification/Messages.thy ===== *)
theory Messages
  imports Schemas
begin

text \<open>
  \<open>src/accp/messages.ts\<close> and the primitive formats of \<open>src/accp/envelope.ts\<close>: the payload schema of every
  ACCP message type, in the order of the file, the table of types and \<open>parsePayload\<close>. The regular
  expressions are anchored patterns of fixed width, written as a list of character classes.
\<close>

subsection \<open>Formats\<close>

definition char_in :: "nat \<Rightarrow> nat \<Rightarrow> char \<Rightarrow> bool" where
  "char_in lo hi c \<longleftrightarrow> (let n = (of_char c :: nat) in lo \<le> n \<and> n \<le> hi)"

definition is_digit :: "char \<Rightarrow> bool" where
  "is_digit = char_in 48 57"

definition hex_lc :: "char \<Rightarrow> bool" where
  "hex_lc c \<longleftrightarrow> is_digit c \<or> char_in 97 102 c"

definition hex_any :: "char \<Rightarrow> bool" where
  "hex_any c \<longleftrightarrow> hex_lc c \<or> char_in 65 70 c"

definition shape :: "(char \<Rightarrow> bool) list \<Rightarrow> string \<Rightarrow> bool" where
  "shape ps s \<longleftrightarrow> list_all2 (\<lambda>p c. p c) ps s"

definition UuidSchema :: schema where
  "UuidSchema = SPat (shape (replicate 8 hex_any @ [\<lambda>c. c = CHR ''-''] @ replicate 4 hex_any @ [\<lambda>c. c = CHR ''-'']
     @ [\<lambda>c. c = CHR ''7''] @ replicate 3 hex_any @ [\<lambda>c. c = CHR ''-'']
     @ [\<lambda>c. c \<in> set ''89abAB''] @ replicate 3 hex_any @ [\<lambda>c. c = CHR ''-''] @ replicate 12 hex_any))"

definition is_digest :: "string \<Rightarrow> bool" where
  "is_digest s \<longleftrightarrow> starts_with ''sha256:'' s \<and> shape (replicate 64 hex_lc) (drop 7 s)"

definition DigestSchema :: schema where
  "DigestSchema = SPat is_digest"

definition Sha256HexSchema :: schema where
  "Sha256HexSchema = SPat (shape (replicate 64 hex_lc))"

definition GitShaSchema :: schema where
  "GitShaSchema = SPat (shape (replicate 40 hex_lc))"

definition is_date_time :: "string \<Rightarrow> bool" where
  "is_date_time s \<longleftrightarrow>
     shape (replicate 4 is_digit @ [\<lambda>c. c = CHR ''-''] @ replicate 2 is_digit @ [\<lambda>c. c = CHR ''-''] @ replicate 2 is_digit
       @ [\<lambda>c. c = CHR ''T''] @ replicate 2 is_digit @ [\<lambda>c. c = CHR '':''] @ replicate 2 is_digit @ [\<lambda>c. c = CHR '':'']
       @ replicate 2 is_digit) (take 19 s)
     \<and> (case drop 19 s of
          [] \<Rightarrow> False
        | c # cs \<Rightarrow> c = CHR ''Z'' \<and> cs = [] \<or>
            c = CHR ''.'' \<and> cs \<noteq> [] \<and> last cs = CHR ''Z'' \<and> list_all is_digit (butlast cs)
              \<and> 1 \<le> length (butlast cs) \<and> length (butlast cs) \<le> 9)"

definition DateTimeSchema :: schema where
  "DateTimeSchema = SPat is_date_time"

definition CursorSchema :: schema where
  "CursorSchema = SInt (Some 0)"

definition positive :: schema where
  "positive = SInt (Some 1)"

definition any_string :: schema where
  "any_string = SStr 0 None"

definition up_to :: "nat \<Rightarrow> schema" where
  "up_to n = SStr 0 (Some n)"

abbreviation req :: "string \<Rightarrow> schema \<Rightarrow> string \<times> presence \<times> schema" where
  "req k sc \<equiv> (k, Required, sc)"

abbreviation opt :: "string \<Rightarrow> schema \<Rightarrow> string \<times> presence \<times> schema" where
  "opt k sc \<equiv> (k, Optional, sc)"

subsection \<open>Payloads\<close>

definition Capacity :: schema where
  "Capacity = SObj [req ''maxConcurrentRuns'' positive, req ''availableRuns'' CursorSchema]"

definition NodeHelloSchema :: schema where
  "NodeHelloSchema = SObj [
     req ''supportedProtocols'' (SArr any_string 1 None),
     req ''schemaBundleDigest'' DigestSchema,
     req ''nodeVersion'' any_string,
     req ''platform'' any_string,
     req ''adapterManifests'' (SArr (SObj [
       req ''adapterId'' any_string,
       req ''manifestDigest'' DigestSchema,
       req ''readiness'' (SEnum [''ready'', ''degraded'', ''unavailable'', ''misconfigured'', ''unauthenticated''])]) 0 None),
     req ''capabilities'' (SArr any_string 0 None),
     req ''capacity'' Capacity,
     req ''resume'' (SObj [req ''cloudCursor'' CursorSchema, req ''nodeCursor'' CursorSchema])]"

definition NodeWelcomeSchema :: schema where
  "NodeWelcomeSchema = SObj [
     req ''protocol'' any_string,
     req ''connectionEpoch'' positive,
     req ''schemaBundleDigest'' DigestSchema,
     req ''cloudCursor'' CursorSchema,
     req ''nodeCursorAck'' CursorSchema,
     req ''policyBundleDigest'' DigestSchema,
     req ''limits'' (SObj [
       req ''maxUnackedBatches'' positive,
       req ''maxEventsPerBatch'' positive,
       req ''maxEnvelopeBytes'' positive,
       req ''heartbeatIntervalMs'' (SLit (JNum 15000)),
       req ''deadAfterMs'' (SLit (JNum 45000))]),
     req ''serverTime'' DateTimeSchema,
     opt ''deprecation'' (SObj [req ''noNewWorkAt'' DateTimeSchema, req ''removalAt'' DateTimeSchema])]"

definition NodeHeartbeatSchema :: schema where
  "NodeHeartbeatSchema = SObj [
     req ''status'' (SEnum [''online'', ''degraded'', ''draining'']),
     req ''capacity'' Capacity,
     req ''activeLeaseIds'' (SArr UuidSchema 0 None),
     req ''buffer'' (SObj [req ''events'' CursorSchema, req ''bytes'' (SInt None)])]"

definition WorkOfferSchema :: schema where
  "WorkOfferSchema = SObj [
     req ''taskId'' UuidSchema,
     req ''runId'' UuidSchema,
     req ''taskRevision'' positive,
     req ''planRevision'' (SObj [req ''digest'' Sha256HexSchema, req ''baseCommit'' GitShaSchema]),
     req ''lease'' (SObj [
       req ''leaseId'' UuidSchema,
       req ''expiresAt'' DateTimeSchema,
       req ''renewIntervalMs'' (SInt (Some 5000))]),
     req ''policyBundle'' (SObj [req ''digest'' DigestSchema, req ''bytesUrl'' SUrl]),
     req ''requiredCapabilities'' (SArr any_string 0 None),
     req ''requiredSecrets'' (SArr any_string 0 None)]"

definition WorkAcceptedSchema :: schema where
  "WorkAcceptedSchema = SObj [
     req ''taskId'' UuidSchema,
     req ''runId'' UuidSchema,
     req ''leaseId'' UuidSchema,
     req ''persistedAt'' DateTimeSchema,
     req ''planRevisionDigest'' Sha256HexSchema]"

definition WorkDeclinedSchema :: schema where
  "WorkDeclinedSchema = SObj [
     req ''taskId'' UuidSchema,
     req ''runId'' UuidSchema,
     req ''leaseId'' UuidSchema,
     req ''reason'' (SEnum [''REPO_BASE_UNAVAILABLE'', ''SECRET_MISSING'', ''CAPABILITY_MISSING'',
       ''POLICY_BUNDLE_UNSUPPORTED'', ''CAPACITY'']),
     opt ''detail'' (up_to 2000),
     opt ''retryAfterMs'' positive]"

definition LeaseRenewedSchema :: schema where
  "LeaseRenewedSchema = SObj [
     req ''leaseId'' UuidSchema, req ''runId'' UuidSchema, req ''expiresAt'' DateTimeSchema]"

definition LeaseRevokedSchema :: schema where
  "LeaseRevokedSchema = SObj [
     req ''leaseId'' UuidSchema,
     req ''runId'' UuidSchema,
     req ''reason'' (SEnum [''OPERATOR_STOP'', ''POLICY_CHANGE'', ''SUPERSEDED'', ''NODE_DEGRADED'']),
     req ''stopDeadlineAt'' DateTimeSchema]"

definition RunCancelRequestedSchema :: schema where
  "RunCancelRequestedSchema = SObj [
     req ''runId'' UuidSchema, req ''reason'' (up_to 2000), req ''deadlineAt'' DateTimeSchema]"

definition RunMessagePostedSchema :: schema where
  "RunMessagePostedSchema = SObj [
     req ''runId'' UuidSchema,
     req ''operatorMessageId'' UuidSchema,
     req ''body'' (SStr 1 (Some 16384)),
     req ''postedBy'' any_string,
     req ''postedAt'' DateTimeSchema]"

definition NodeEventSchema :: schema where
  "NodeEventSchema = SObj [
     req ''cursor'' CursorSchema,
     req ''eventId'' UuidSchema,
     opt ''runId'' UuidSchema,
     opt ''taskId'' UuidSchema,
     req ''kind'' any_string,
     req ''occurredAt'' DateTimeSchema,
     req ''data'' SRecord]"

text \<open>The refinement of an event batch: its cursors are the contiguous range its header announces.\<close>

definition json_int :: "json option \<Rightarrow> int" where
  "json_int v = (case v of Some (JNum n) \<Rightarrow> n | _ \<Rightarrow> 0)"

definition json_list :: "json option \<Rightarrow> json list" where
  "json_list v = (case v of Some (JArr xs) \<Rightarrow> xs | _ \<Rightarrow> [])"

definition contiguous_batch :: "json \<Rightarrow> bool" where
  "contiguous_batch batch \<longleftrightarrow> (let first = json_int (json_field ''firstCursor'' batch);
       events = json_list (json_field ''events'' batch) in
     json_int (json_field ''lastCursor'' batch) = first + int (length events) - 1
     \<and> map (\<lambda>e. json_int (json_field ''cursor'' e)) events = map (\<lambda>i. first + int i) [0..<length events])"

definition RunEventBatchSchema :: schema where
  "RunEventBatchSchema = SRefine (SObj [
     req ''batchId'' UuidSchema,
     req ''firstCursor'' CursorSchema,
     req ''lastCursor'' CursorSchema,
     req ''events'' (SArr NodeEventSchema 1 (Some 256)),
     (''truncatedPendingReconcile'', Defaulted (JBool False), SBool)]) contiguous_batch"

definition ArtifactDeclaredSchema :: schema where
  "ArtifactDeclaredSchema = SObj [
     req ''artifactId'' UuidSchema,
     req ''runId'' UuidSchema,
     req ''taskId'' UuidSchema,
     req ''kind'' any_string,
     req ''mediaType'' any_string,
     req ''sizeBytes'' positive,
     req ''digest'' Sha256HexSchema,
     req ''partSizeBytes'' (SLit (JNum 8388608)),
     req ''partCount'' positive,
     req ''redactionState'' (SEnum [''none'', ''redacted'']),
     req ''provenance'' (SObj [req ''producer'' any_string, opt ''stepId'' any_string])]"

definition ArtifactUploadGrantedSchema :: schema where
  "ArtifactUploadGrantedSchema = SObj [
     req ''artifactId'' UuidSchema,
     req ''uploadId'' any_string,
     req ''parts'' (SArr (SObj [
       req ''partNumber'' positive,
       req ''url'' SUrl,
       req ''expiresAt'' DateTimeSchema,
       req ''maxBytes'' positive]) 0 None),
     req ''committedParts'' (SArr (SObj [
       req ''partNumber'' positive,
       req ''digest'' Sha256HexSchema]) 0 None)]"

definition ArtifactCommittedSchema :: schema where
  "ArtifactCommittedSchema = SObj [
     req ''artifactId'' UuidSchema,
     req ''uploadId'' any_string,
     req ''sizeBytes'' positive,
     req ''digest'' Sha256HexSchema,
     req ''parts'' (SArr (SObj [
       req ''partNumber'' positive,
       req ''sizeBytes'' positive,
       req ''digest'' Sha256HexSchema]) 1 None)]"

definition RunCompletionProposedSchema :: schema where
  "RunCompletionProposedSchema = SObj [
     req ''runId'' UuidSchema,
     req ''taskId'' UuidSchema,
     req ''taskRevision'' positive,
     req ''planRevisionDigest'' Sha256HexSchema,
     req ''outcome'' (SEnum [''succeeded'', ''failed'', ''stopped'', ''stale'', ''unknown'']),
     req ''completionDigest'' Sha256HexSchema,
     req ''evidenceManifestDigest'' Sha256HexSchema,
     req ''finalCursor'' CursorSchema,
     opt ''verification'' (SObj [
       req ''status'' (SEnum [''passed'', ''failed'', ''error'', ''cancelled'']),
       req ''artifactId'' UuidSchema])]"

definition RunCompletionAcceptedSchema :: schema where
  "RunCompletionAcceptedSchema = SObj [
     req ''runId'' UuidSchema,
     req ''completionDigest'' Sha256HexSchema,
     req ''taskStatus'' (SEnum [''needs-review'', ''done'', ''blocked'', ''queued''])]"

definition ReviewDecisionSchema :: schema where
  "ReviewDecisionSchema = SObj [
     req ''reviewId'' UuidSchema,
     req ''taskId'' UuidSchema,
     req ''runId'' UuidSchema,
     req ''subjectDigest'' Sha256HexSchema,
     req ''decision'' (SEnum [''approved'', ''rework-requested'', ''rejected'', ''expired'', ''superseded'']),
     req ''decidedBy'' any_string,
     req ''decidedAt'' DateTimeSchema,
     opt ''feedback'' (SObj [req ''note'' (up_to 16384), req ''criterionIds'' (SArr any_string 0 None)])]"

definition EffectGrantedSchema :: schema where
  "EffectGrantedSchema = SObj [
     req ''grantId'' UuidSchema,
     req ''effectKey'' any_string,
     req ''runId'' UuidSchema,
     req ''taskId'' UuidSchema,
     req ''kind'' any_string,
     req ''parametersDigest'' Sha256HexSchema,
     req ''providerTarget'' any_string,
     req ''riskClass'' any_string,
     req ''expiresAt'' DateTimeSchema,
     opt ''compensation'' (SObj [req ''kind'' any_string, req ''parametersDigest'' Sha256HexSchema])]"

definition EffectRevokedSchema :: schema where
  "EffectRevokedSchema = SObj [
     req ''grantId'' UuidSchema, req ''effectKey'' any_string, req ''reason'' (up_to 2000)]"

definition EffectObservedSchema :: schema where
  "EffectObservedSchema = SObj [
     req ''grantId'' UuidSchema,
     req ''effectKey'' any_string,
     req ''runId'' UuidSchema,
     req ''status'' (SEnum [''succeeded'', ''failed'', ''unknown'', ''compensating'', ''compensated'']),
     opt ''receipt'' SRecord,
     opt ''reason'' (up_to 2000),
     req ''observedAt'' DateTimeSchema]"

definition MessageAckSchema :: schema where
  "MessageAckSchema = SObj [
     req ''ackFor'' UuidSchema,
     opt ''cursorAck'' (SObj [
       req ''highestContiguousCursor'' CursorSchema,
       req ''gaps'' (SArr (SObj [req ''fromCursor'' CursorSchema, req ''toCursor'' CursorSchema]) 0 None)])]"

definition NackCodeSchema :: schema where
  "NackCodeSchema = SEnum [''SIGNATURE_INVALID'', ''CLOCK_SKEW_EXCEEDED'', ''SCHEMA_VIOLATION'',
     ''VERSION_UNSUPPORTED'', ''SEQUENCE_REGRESSION'', ''IDEMPOTENCY_CONFLICT'', ''PAYLOAD_TOO_LARGE'',
     ''UNKNOWN_TYPE'', ''EXPIRED'', ''RATE_LIMITED'', ''LEASE_UNKNOWN'', ''SUBJECT_STALE'',
     ''CAPABILITY_MISSING'', ''ARTIFACT_DIGEST_MISMATCH'', ''ARTIFACT_SIZE_MISMATCH'']"

definition MessageNackSchema :: schema where
  "MessageNackSchema = SObj [
     req ''nackFor'' UuidSchema,
     req ''code'' NackCodeSchema,
     req ''retryable'' SBool,
     opt ''detail'' (up_to 2000)]"

definition ReconcileSummarySchema :: schema where
  "ReconcileSummarySchema = SObj [
     req ''nodeCursor'' CursorSchema,
     req ''cloudCursorApplied'' CursorSchema,
     req ''activeLeases'' (SArr (SObj [
       req ''leaseId'' UuidSchema,
       req ''runId'' UuidSchema,
       req ''expiresAt'' DateTimeSchema]) 0 None),
     req ''unknownRuns'' (SArr (SObj [req ''runId'' UuidSchema, req ''reason'' any_string]) 0 None),
     req ''artifactManifestDigests'' (SArr Sha256HexSchema 0 None),
     req ''truncations'' (SArr (SObj [
       opt ''runId'' UuidSchema,
       req ''fromCursor'' CursorSchema,
       req ''toCursor'' CursorSchema,
       req ''reason'' (SEnum [''BUFFER_BYTES'', ''BUFFER_AGE''])]) 0 None)]"

definition ReconcileRequestSchema :: schema where
  "ReconcileRequestSchema = SObj [
     req ''missingRanges'' (SArr (SObj [req ''fromCursor'' CursorSchema, req ''toCursor'' CursorSchema]) 0 None),
     req ''quarantine'' (SArr (SObj [req ''runId'' UuidSchema, req ''reason'' (up_to 2000)]) 0 None)]"

definition MESSAGE_SCHEMAS :: "(string \<times> schema) list" where
  "MESSAGE_SCHEMAS = [
     (''node.hello'', NodeHelloSchema),
     (''node.welcome'', NodeWelcomeSchema),
     (''node.heartbeat'', NodeHeartbeatSchema),
     (''work.offer'', WorkOfferSchema),
     (''work.accepted'', WorkAcceptedSchema),
     (''work.declined'', WorkDeclinedSchema),
     (''lease.renewed'', LeaseRenewedSchema),
     (''lease.revoked'', LeaseRevokedSchema),
     (''run.cancel_requested'', RunCancelRequestedSchema),
     (''run.message_posted'', RunMessagePostedSchema),
     (''run.event_batch'', RunEventBatchSchema),
     (''artifact.declared'', ArtifactDeclaredSchema),
     (''artifact.upload_granted'', ArtifactUploadGrantedSchema),
     (''artifact.committed'', ArtifactCommittedSchema),
     (''run.completion_proposed'', RunCompletionProposedSchema),
     (''run.completion_accepted'', RunCompletionAcceptedSchema),
     (''review.decision'', ReviewDecisionSchema),
     (''effect.granted'', EffectGrantedSchema),
     (''effect.revoked'', EffectRevokedSchema),
     (''effect.observed'', EffectObservedSchema),
     (''message.ack'', MessageAckSchema),
     (''message.nack'', MessageNackSchema),
     (''reconcile.summary'', ReconcileSummarySchema),
     (''reconcile.request'', ReconcileRequestSchema)]"

definition isAccpMessageType :: "string \<Rightarrow> bool" where
  "isAccpMessageType ty \<longleftrightarrow> map_of MESSAGE_SCHEMAS ty \<noteq> None"

definition parsePayload :: "(string \<Rightarrow> bool) \<Rightarrow> string \<Rightarrow> json \<Rightarrow> json option" where
  "parsePayload url ty payload = Option.bind (map_of MESSAGE_SCHEMAS ty) (\<lambda>sc. parse url sc payload)"

lemmas message_schema_defs = NodeHelloSchema_def NodeWelcomeSchema_def NodeHeartbeatSchema_def WorkOfferSchema_def
  WorkAcceptedSchema_def WorkDeclinedSchema_def LeaseRenewedSchema_def LeaseRevokedSchema_def
  RunCancelRequestedSchema_def RunMessagePostedSchema_def NodeEventSchema_def RunEventBatchSchema_def
  ArtifactDeclaredSchema_def ArtifactUploadGrantedSchema_def ArtifactCommittedSchema_def
  RunCompletionProposedSchema_def RunCompletionAcceptedSchema_def ReviewDecisionSchema_def EffectGrantedSchema_def
  EffectRevokedSchema_def EffectObservedSchema_def MessageAckSchema_def MessageNackSchema_def
  ReconcileSummarySchema_def ReconcileRequestSchema_def Capacity_def UuidSchema_def DigestSchema_def
  Sha256HexSchema_def GitShaSchema_def DateTimeSchema_def CursorSchema_def positive_def any_string_def up_to_def
  NackCodeSchema_def

subsection \<open>Properties\<close>

lemma message_schemas_wf: "list_all (\<lambda>(ty, sc). wf_schema url sc) MESSAGE_SCHEMAS"
  by (simp add: MESSAGE_SCHEMAS_def message_schema_defs)

text \<open>
  Validation is a projection: a payload that passed the schema of its message type passes again and is
  returned unchanged, so a value that was validated, stored and read back is the value that was validated.
\<close>
theorem parsePayload_idem:
  assumes "parsePayload url ty v = Some w"
  shows "parsePayload url ty w = Some w"
proof -
  from assms obtain sc where sc: "map_of MESSAGE_SCHEMAS ty = Some sc" "parse url sc v = Some w"
    by (auto simp: parsePayload_def bind_eq_Some_conv)
  then have "(ty, sc) \<in> set MESSAGE_SCHEMAS" by (simp add: map_of_SomeD)
  with message_schemas_wf [of url] have "wf_schema url sc" by (auto simp: list_all_iff)
  with parse_idem(1) sc show ?thesis by (simp add: parsePayload_def)
qed

theorem parsePayload_idem_witness:
  "parsePayload (\<lambda>_. True) ''reconcile.request'' (JObj [(''missingRanges'', JArr []), (''quarantine'', JArr [])]) =
     Some (JObj [(''missingRanges'', JArr []), (''quarantine'', JArr [])])"
proof (rule parsePayload_idem)
  show "parsePayload (\<lambda>_. True) ''reconcile.request'' (JObj [(''extra'', JNull), (''quarantine'', JArr []), (''missingRanges'', JArr [])]) =
     Some (JObj [(''missingRanges'', JArr []), (''quarantine'', JArr [])])"
    by (simp add: parsePayload_def MESSAGE_SCHEMAS_def ReconcileRequestSchema_def within_def)
qed

end
