(* ===== verification/CanonicalJson.thy ===== *)
theory CanonicalJson
  imports Prelude
begin

text \<open>
  \<open>canonicalJson\<close> of \<open>src/accp/envelope.ts\<close>: the text of a JSON value that is hashed and signed, with
  \<open>JSON.stringify\<close> of strings and numbers written out, and the proof that the text determines the value
  up to the order of an object's keys.
\<close>

definition hex_digit :: "nat \<Rightarrow> char" where
  "hex_digit n = (if n < 10 then char_of (48 + n) else char_of (87 + n))"

definition escape_char :: "char \<Rightarrow> string" where
  "escape_char c = (let n = (of_char c :: nat) in
     if n = 34 then [CHR 0x5C, c] else if n = 92 then [CHR 0x5C, c]
     else if n = 8 then [CHR 0x5C, CHR ''b''] else if n = 9 then [CHR 0x5C, CHR ''t'']
     else if n = 10 then [CHR 0x5C, CHR ''n''] else if n = 12 then [CHR 0x5C, CHR ''f'']
     else if n = 13 then [CHR 0x5C, CHR ''r'']
     else if n < 32 then [CHR 0x5C, CHR ''u'', CHR ''0'', CHR ''0'', hex_digit (n div 16), hex_digit (n mod 16)]
     else [c])"

definition json_quote :: "string \<Rightarrow> string" where
  "json_quote s = [CHR 0x22] @ concat (map escape_char s) @ [CHR 0x22]"

primrec canonicalJson :: "json \<Rightarrow> string" where
  "canonicalJson JNull = ''null''"
| "canonicalJson (JBool b) = (if b then ''true'' else ''false'')"
| "canonicalJson (JNum n) = show_int n"
| "canonicalJson (JStr s) = json_quote s"
| "canonicalJson (JArr xs) = ''['' @ join '','' (map canonicalJson xs) @ '']''"
| "canonicalJson (JObj kvs) = ''{'' @ join '','' (map (\<lambda>(k, t). json_quote k @ '':'' @ t)
     (sort_key fst (map (map_prod id canonicalJson) kvs))) @ ''}''"

subsection \<open>Canonical JSON is a faithful serialization\<close>

text \<open>\<open>ser\<close> writes a value as it stands; \<open>canonicalJson\<close> is \<open>ser\<close> of the value with sorted keys.\<close>

primrec ser :: "json \<Rightarrow> string" where
  "ser JNull = ''null''"
| "ser (JBool b) = (if b then ''true'' else ''false'')"
| "ser (JNum n) = show_int n"
| "ser (JStr s) = json_quote s"
| "ser (JArr xs) = ''['' @ join '','' (map ser xs) @ '']''"
| "ser (JObj kvs) = ''{'' @ join '','' (map (\<lambda>(k, t). json_quote k @ '':'' @ t) (map (map_prod id ser) kvs)) @ ''}''"

lemma sort_fst_map_prod: "sort_key fst (map (map_prod id f) xs) = map (map_prod id f) (sort_key fst xs)"
  by (simp add: sort_key_map)

lemma canonicalJson_ser: "canonicalJson v = ser (json_canon v)"
proof (induction v)
  case (JArr xs)
  then have "map canonicalJson xs = map ser (map json_canon xs)" by simp
  then show ?case by (simp del: map_map)
next
  case (JObj kvs)
  then have "map (map_prod id canonicalJson) kvs = map (map_prod id ser) (map (map_prod id json_canon) kvs)"
    by (auto simp: snds.simps)
  then have "sort_key fst (map (map_prod id canonicalJson) kvs)
    = map (map_prod id ser) (sort_key fst (map (map_prod id json_canon) kvs))"
    by (simp only: sort_fst_map_prod)
  then show ?case by (simp del: map_map)
qed simp_all

definition hex_value :: "char \<Rightarrow> nat" where
  "hex_value c = (let n = of_char c in if n < 58 then n - 48 else n - 87)"

lemma hex_value_digit: "n < 16 \<Longrightarrow> hex_value (hex_digit n) = n"
  by (auto simp: hex_value_def hex_digit_def Let_def)

definition unescape :: "string \<Rightarrow> char \<times> string" where
  "unescape s = (if hd s \<noteq> CHR 0x5C then (hd s, tl s)
     else if s ! 1 = CHR ''b'' then (char_of (8 :: nat), drop 2 s)
     else if s ! 1 = CHR ''t'' then (char_of (9 :: nat), drop 2 s)
     else if s ! 1 = CHR ''n'' then (char_of (10 :: nat), drop 2 s)
     else if s ! 1 = CHR ''f'' then (char_of (12 :: nat), drop 2 s)
     else if s ! 1 = CHR ''r'' then (char_of (13 :: nat), drop 2 s)
     else if s ! 1 = CHR ''u'' then (char_of (16 * hex_value (s ! 4) + hex_value (s ! 5)), drop 6 s)
     else (s ! 1, drop 2 s))"

lemma char_code_eq: "n < 256 \<Longrightarrow> (of_char c = (n :: nat)) = (c = char_of n)"
  by auto

lemma special_chars:
  "char_of (34 :: nat) = CHR 0x22" "char_of (92 :: nat) = CHR 0x5C" "char_of (8 :: nat) = CHR 0x08"
  "char_of (9 :: nat) = CHR 0x09" "char_of (10 :: nat) = CHR 0x0A" "char_of (12 :: nat) = CHR 0x0C"
  "char_of (13 :: nat) = CHR 0x0D"
  by (simp_all add: char_of_def bit_Suc_0_iff)

lemma escape_char_cases:
  obtains (quoted) "c \<in> {CHR 0x22, CHR 0x5C}" "escape_char c = [CHR 0x5C, c]"
    | (short) "(c, escape_char c) \<in> {(CHR 0x08, [CHR 0x5C, CHR ''b'']), (CHR 0x09, [CHR 0x5C, CHR ''t'']),
        (CHR 0x0A, [CHR 0x5C, CHR ''n'']), (CHR 0x0C, [CHR 0x5C, CHR ''f'']), (CHR 0x0D, [CHR 0x5C, CHR ''r''])}"
    | (control) "(of_char c :: nat) < 32" "escape_char c = [CHR 0x5C, CHR ''u'', CHR ''0'', CHR ''0'',
        hex_digit (of_char c div 16), hex_digit (of_char c mod 16)]"
    | (plain) "c \<noteq> CHR 0x5C" "c \<noteq> CHR 0x22" "escape_char c = [c]"
proof -
  define n where "n = (of_char c :: nat)"
  have c: "c = char_of n" by (simp add: n_def)
  consider "n = 34" | "n = 92" | "n = 8" | "n = 9" | "n = 10" | "n = 12" | "n = 13"
    | "n < 32" "n \<notin> {8, 9, 10, 12, 13}" | "32 \<le> n" "n \<noteq> 34" "n \<noteq> 92" by fastforce
  then show ?thesis
  proof cases
    case 1 then have "c = CHR 0x22" "escape_char c = [CHR 0x5C, c]" using c by (simp_all add: special_chars escape_char_def Let_def n_def [symmetric])
    then show ?thesis by (intro quoted) simp_all
  next
    case 2 then have "c = CHR 0x5C" "escape_char c = [CHR 0x5C, c]" using c by (simp_all add: special_chars escape_char_def Let_def n_def [symmetric])
    then show ?thesis by (intro quoted) simp_all
  next
    case 3 with c show ?thesis by (intro short) (simp add: special_chars escape_char_def Let_def)
  next
    case 4 with c show ?thesis by (intro short) (simp add: special_chars escape_char_def Let_def)
  next
    case 5 with c show ?thesis by (intro short) (simp add: special_chars escape_char_def Let_def)
  next
    case 6 with c show ?thesis by (intro short) (simp add: special_chars escape_char_def Let_def)
  next
    case 7 with c show ?thesis by (intro short) (simp add: special_chars escape_char_def Let_def)
  next
    case 8 then show ?thesis by (intro control) (simp_all add: escape_char_def Let_def n_def [symmetric])
  next
    case 9 show ?thesis
    proof (rule plain)
      show "c \<noteq> CHR 0x5C" "c \<noteq> CHR 0x22" using 9 by (auto simp: n_def)
      show "escape_char c = [c]" using 9 by (simp add: escape_char_def Let_def n_def [symmetric])
    qed
  qed
qed

lemma unescape_escape: "unescape (escape_char c @ r) = (c, r)"
proof (cases c rule: escape_char_cases)
  case control
  define n where "n = (of_char c :: nat)"
  have "hex_value (hex_digit (n div 16)) = n div 16" "hex_value (hex_digit (n mod 16)) = n mod 16"
    using control(1) by (auto intro!: hex_value_digit simp: n_def)
  moreover have "char_of (16 * (n div 16) + n mod 16) = c" by (simp add: n_def)
  ultimately show ?thesis using control(2) by (simp add: unescape_def n_def [symmetric])
qed (auto simp: unescape_def special_chars)

lemma escape_char_hd: "escape_char c \<noteq> [] \<and> hd (escape_char c) \<noteq> CHR 0x22"
  by (cases c rule: escape_char_cases) auto

lemma escape_char_not_quote: "escape_char c \<noteq> CHR 0x22 # x" "CHR 0x22 # x \<noteq> escape_char c"
  using escape_char_hd [of c] by (metis list.sel(1))+

lemma json_quote_prefix_free: "json_quote s @ r = json_quote s' @ r' \<Longrightarrow> s = s' \<and> r = r'"
proof -
  have "concat (map escape_char s) @ CHR 0x22 # r = concat (map escape_char s') @ CHR 0x22 # r' \<Longrightarrow> s = s' \<and> r = r'"
  proof (induction s arbitrary: s')
    case Nil
    then show ?case using escape_char_hd by (cases s') (auto simp: escape_char_not_quote Cons_eq_append_conv)
  next
    case (Cons c s)
    show ?case
    proof (cases s')
      case Nil
      with Cons.prems show ?thesis using escape_char_hd [of c] by (auto simp: append_eq_Cons_conv)
    next
      case (Cons c' t')
      from Cons.prems have "unescape (escape_char c @ concat (map escape_char s) @ CHR 0x22 # r)
        = unescape (escape_char c' @ concat (map escape_char t') @ CHR 0x22 # r')" by (simp add: Cons)
      then have "c = c'" "concat (map escape_char s) @ CHR 0x22 # r = concat (map escape_char t') @ CHR 0x22 # r'"
        by (simp_all only: unescape_escape prod.inject)
      with Cons.IH Cons show ?thesis by simp
    qed
  qed
  then show "json_quote s @ r = json_quote s' @ r' \<Longrightarrow> s = s' \<and> r = r'" by (simp add: json_quote_def)
qed

definition dec_digit :: "char \<Rightarrow> bool" where
  "dec_digit c \<longleftrightarrow> (of_char c :: nat) \<in> {48..57}"

lemma dec_digit_digit: "n < 10 \<Longrightarrow> dec_digit (digit n)"
  by (simp add: dec_digit_def digit_def)

lemma show_nat_digits: "list_all dec_digit (show_nat n) \<and> show_nat n \<noteq> []"
proof (induction n rule: show_nat.induct)
  case (1 n)
  then show ?case by (subst (1 2) show_nat.simps) (simp add: dec_digit_digit)
qed

lemma digit_inj: "n < 10 \<Longrightarrow> m < 10 \<Longrightarrow> digit n = digit m \<Longrightarrow> n = m"
  by (auto simp: digit_def dest: arg_cong [where f = "of_char :: char \<Rightarrow> nat"])

lemma show_nat_inj: "show_nat n = show_nat m \<Longrightarrow> n = m"
proof (induction n arbitrary: m rule: show_nat.induct)
  case (1 n)
  have ne: "show_nat k \<noteq> []" for k using show_nat_digits by blast
  note ne' = ne [THEN not_sym]
  show ?case
  proof (cases "n < 10 \<or> m < 10")
    case True
    with "1.prems" ne ne' have "n < 10 \<and> m < 10" by (auto simp: show_nat.simps [of n] show_nat.simps [of m] split: if_splits)
    with "1.prems" show ?thesis by (auto simp: show_nat.simps [of n] show_nat.simps [of m] intro: digit_inj)
  next
    case False
    with "1.prems" have "show_nat (n div 10) = show_nat (m div 10)" "digit (n mod 10) = digit (m mod 10)"
      by (auto simp: show_nat.simps [of n] show_nat.simps [of m])
    with "1.IH" False have "n div 10 = m div 10" "n mod 10 = m mod 10" by (auto intro: digit_inj)
    then show ?thesis by (metis div_mult_mod_eq)
  qed
qed

definition stops :: "string \<Rightarrow> bool" where
  "stops r \<longleftrightarrow> (case r of [] \<Rightarrow> True | c # _ \<Rightarrow> \<not> dec_digit c)"

lemma digits_prefix_free:
  assumes "list_all dec_digit ds" "list_all dec_digit es" "stops r" "stops r'" "ds @ r = es @ r'"
  shows "ds = es \<and> r = r'"
proof -
  have "takeWhile dec_digit (ds @ r) = ds" if "list_all dec_digit ds" "stops r" for ds r
    using that by (cases r) (auto simp: stops_def list_all_iff takeWhile_append)
  with assms have "ds = es" by metis
  with assms(5) show ?thesis by simp
qed

lemma show_nat_hd: "show_nat n @ r \<noteq> CHR ''-'' # x"
  using show_nat_digits [of n] by (cases "show_nat n") (auto simp: dec_digit_def)

lemma show_int_prefix_free:
  "stops r \<Longrightarrow> stops r' \<Longrightarrow> show_int i @ r = show_int j @ r' \<Longrightarrow> i = j \<and> r = r'"
  using digits_prefix_free [of "show_nat (nat (- i))" "show_nat (nat (- j))" r r']
    digits_prefix_free [of "show_nat (nat i)" "show_nat (nat j)" r r'] show_nat_digits show_nat_hd show_nat_hd [THEN not_sym]
  by (auto simp: show_int_def split: if_splits dest!: show_nat_inj)

text \<open>A list of prefix-free texts between commas and a closing bracket is prefix-free.\<close>

definition prefix_free_at :: "('a \<Rightarrow> string) \<Rightarrow> 'a \<Rightarrow> bool" where
  "prefix_free_at p x \<longleftrightarrow> (\<forall>y r r'. stops r \<longrightarrow> stops r' \<longrightarrow> p x @ r = p y @ r' \<longrightarrow> x = y \<and> r = r')"

lemma join_Cons: "join '','' (x # xs) = x @ (case xs of [] \<Rightarrow> [] | _ \<Rightarrow> '','' @ join '','' xs)"
  by (cases xs) auto

lemma join_prefix_free:
  assumes "\<And>x. x \<in> set xs \<Longrightarrow> prefix_free_at p x"
    and start: "\<And>x r. p x @ r \<noteq> [] \<and> hd (p x @ r) \<noteq> c"
    and c: "\<not> dec_digit c" "c \<noteq> CHR '',''"
  shows "join '','' (map p xs) @ c # r = join '','' (map p ys) @ c # r' \<Longrightarrow> xs = ys \<and> r = r'"
  using assms(1)
proof (induction xs arbitrary: ys)
  case Nil
  show ?case
  proof (cases ys)
    case (Cons y ys')
    with Nil.prems(1) have "p y @ (case map p ys' of [] \<Rightarrow> [] | _ \<Rightarrow> '','' @ join '','' (map p ys')) @ c # r' = c # r"
      by (simp add: join_Cons)
    with start [of y] show ?thesis by (metis list.sel(1))
  qed (use Nil.prems(1) in simp)
next
  case (Cons x xs)
  show ?case
  proof (cases ys)
    case Nil
    with Cons.prems(1) have "p x @ (case map p xs of [] \<Rightarrow> [] | _ \<Rightarrow> '','' @ join '','' (map p xs)) @ c # r = c # r'"
      by (simp add: join_Cons)
    with start [of x] show ?thesis by (metis list.sel(1))
  next
    case (Cons y ys')
    define rest where "rest q zs = (case map p zs of [] \<Rightarrow> [] | _ \<Rightarrow> '','' @ join '','' (map p zs)) @ c # q" for q zs
    have st: "stops (rest q zs)" for q zs
      using c by (auto simp: rest_def stops_def dec_digit_def split: list.splits)
    have unroll: "join '','' (map p (z # zs)) @ c # q = p z @ rest q zs" for z zs q
      by (simp only: list.map join_Cons rest_def append_assoc)
    have "p x @ rest r xs = p y @ rest r' ys'"
      using Cons.prems(1) unfolding \<open>ys = y # ys'\<close> unroll .
    then have "x = y \<and> rest r xs = rest r' ys'"
      using Cons.prems(2) [of x] st by (simp only: prefix_free_at_def list.set_intros simp_thms) blast
    then have xy: "x = y" and re: "rest r xs = rest r' ys'" by simp_all
    from re have "join '','' (map p xs) @ c # r = join '','' (map p ys') @ c # r'"
      using c by (auto simp: rest_def split: list.splits)
    from Cons.IH [OF this] Cons.prems(2) xy \<open>ys = y # ys'\<close> show ?thesis by simp
  qed
qed

lemma pair_prefix_free:
  "prefix_free_at f v \<Longrightarrow> prefix_free_at (\<lambda>(k, v). json_quote k @ '':'' @ f v) (k, v)"
  unfolding prefix_free_at_def by (auto dest!: json_quote_prefix_free)

lemma show_int_start: "show_int i \<noteq> [] \<and> (hd (show_int i) = CHR ''-'' \<or> dec_digit (hd (show_int i)))"
  using show_nat_digits [of "nat i"] by (cases "show_nat (nat i)") (auto simp: show_int_def)

lemma ser_start: "ser v \<noteq> [] \<and> hd (ser v) \<noteq> CHR '']''"
proof (cases v)
  case (JNum n)
  have "\<not> dec_digit CHR '']''" by (simp add: dec_digit_def)
  with JNum show_int_start [of n] show ?thesis by auto
qed (auto simp: json_quote_def)

text \<open>The first character tells the constructor.\<close>

primrec kind_of_json :: "json \<Rightarrow> nat" where
  "kind_of_json JNull = 0" | "kind_of_json (JBool b) = (if b then 1 else 2)" | "kind_of_json (JNum n) = 3"
| "kind_of_json (JStr s) = 4" | "kind_of_json (JArr xs) = 5" | "kind_of_json (JObj kvs) = 6"

definition kind_of_char :: "char \<Rightarrow> nat" where
  "kind_of_char c = (if c = CHR ''n'' then 0 else if c = CHR ''t'' then 1 else if c = CHR ''f'' then 2
     else if c = CHR 0x22 then 4 else if c = CHR ''['' then 5 else if c = CHR ''{'' then 6 else 3)"

lemma kind_of_digit: "dec_digit c \<Longrightarrow> kind_of_char c = 3"
  by (auto simp: kind_of_char_def dec_digit_def)

lemma kind_of_ser: "kind_of_char (hd (ser v @ r)) = kind_of_json v"
proof (cases v)
  case (JNum n)
  have "kind_of_char CHR ''-'' = 3" by (simp add: kind_of_char_def)
  with JNum show_int_start [of n] kind_of_digit show ?thesis by (auto simp: hd_append)
qed (auto simp: json_quote_def kind_of_char_def)

lemma ser_kind: "ser v @ r = ser w @ r' \<Longrightarrow> kind_of_json v = kind_of_json w"
  by (metis kind_of_ser)

lemma ser_prefix_free: "prefix_free_at ser v"
proof (induction v)
  case (JBool b)
  show ?case unfolding prefix_free_at_def
  proof (intro allI impI)
    fix y r r' assume e: "ser (JBool b) @ r = ser y @ r'"
    with ser_kind [OF e] show "JBool b = y \<and> r = r'" by (cases y) (auto split: if_splits)
  qed
next
  case (JArr xs)
  show ?case unfolding prefix_free_at_def
  proof (intro allI impI)
    fix y r r' assume e: "ser (JArr xs) @ r = ser y @ r'"
    with ser_kind [OF e] obtain ys where y: "y = JArr ys" by (cases y) (auto split: if_splits)
    from e y have "join '','' (map ser xs) @ CHR '']'' # r = join '','' (map ser ys) @ CHR '']'' # r'" by simp
    with join_prefix_free [of xs ser "CHR '']''" r ys r'] JArr.IH ser_start y
    show "JArr xs = y \<and> r = r'" by (simp add: dec_digit_def hd_append)
  qed
next
  case (JObj kvs)
  define p where "p = (\<lambda>(k, v). json_quote k @ '':'' @ ser v)"
  have ser_obj: "ser (JObj l) = ''{'' @ join '','' (map p l) @ ''}''" for l
    by (simp add: p_def comp_def case_prod_unfold)
  have pf: "prefix_free_at p kv" if "kv \<in> set kvs" for kv
  proof -
    obtain k v where kv: "kv = (k, v)" by (cases kv)
    have "prefix_free_at ser v" by (rule JObj.IH [OF that]) (simp add: kv)
    then show ?thesis unfolding p_def kv by (rule pair_prefix_free)
  qed
  have start: "p x @ r \<noteq> [] \<and> hd (p x @ r) \<noteq> CHR ''}''" for x r
    by (auto simp: p_def json_quote_def split: prod.splits)
  show ?case unfolding prefix_free_at_def
  proof (intro allI impI)
    fix y r r' assume e: "ser (JObj kvs) @ r = ser y @ r'"
    with ser_kind [OF e] obtain l where y: "y = JObj l" by (cases y) (auto split: if_splits)
    from e y have "join '','' (map p kvs) @ CHR ''}'' # r = join '','' (map p l) @ CHR ''}'' # r'"
      by (simp only: ser_obj) simp
    with join_prefix_free [of kvs p "CHR ''}''" r l r'] pf start y
    show "JObj kvs = y \<and> r = r'" by (simp add: dec_digit_def)
  qed
next
  case (JNum n)
  show ?case unfolding prefix_free_at_def
  proof (intro allI impI)
    fix y r r' assume st: "stops r" "stops r'" and e: "ser (JNum n) @ r = ser y @ r'"
    with ser_kind [OF e] obtain m where y: "y = JNum m" by (cases y) (auto split: if_splits)
    with show_int_prefix_free [OF st] e show "JNum n = y \<and> r = r'" by auto
  qed
next
  case (JStr s)
  show ?case unfolding prefix_free_at_def
  proof (intro allI impI)
    fix y r r' assume e: "ser (JStr s) @ r = ser y @ r'"
    with ser_kind [OF e] obtain s' where y: "y = JStr s'" by (cases y) (auto split: if_splits)
    from e have "json_quote s @ r = json_quote s' @ r'" by (simp add: y)
    from json_quote_prefix_free [OF this] show "JStr s = y \<and> r = r'" by (simp add: y)
  qed
next
  case JNull
  show ?case unfolding prefix_free_at_def
  proof (intro allI impI)
    fix y r r' assume e: "ser JNull @ r = ser y @ r'"
    with ser_kind [OF e] show "JNull = y \<and> r = r'" by (cases y) (auto split: if_splits)
  qed
qed

lemma ser_inj: "ser v = ser w \<Longrightarrow> v = w"
  using ser_prefix_free [of v, unfolded prefix_free_at_def, rule_format, of "[]" "[]" w] by (simp add: stops_def)

lemma canonicalJson_eq: "canonicalJson v = canonicalJson w \<longleftrightarrow> json_canon v = json_canon w"
proof
  assume "canonicalJson v = canonicalJson w"
  then have "ser (json_canon v) = ser (json_canon w)" by (simp only: canonicalJson_ser)
  then show "json_canon v = json_canon w" by (rule ser_inj)
qed (simp only: canonicalJson_ser)

text \<open>
  C7 Canonical JSON is a faithful serialization: two values have the same canonical text exactly when
  they are equal up to the order of their objects' keys. So the text can be hashed and signed in place of the
  value: nothing but a reordering of keys goes unnoticed, and a reordering never invalidates a signature.
\<close>
theorem canonicalJson_faithful:
  "canonicalJson v = canonicalJson w \<longleftrightarrow> isDeepStrictEqual (Some v) (Some w)"
  by (simp add: canonicalJson_eq isDeepStrictEqual_def)

end
