(* ===== verification/Envelope.thy ===== *)
theory Envelope
  imports Messages CanonicalJson
begin

text \<open>
  \<open>src/accp/envelope.ts\<close> and \<open>src/accp/seal.ts\<close>: the envelope's schema, digest, signature,
  clock rules, the bounded duplicate index and the cursor decision of event batches; that a sealed envelope
  verifies and that nothing else does.

  An envelope is the JSON object on the wire. What the platform provides is an argument: \<open>sha\<close> (the hex
  digest of a text), \<open>sign\<close> and \<open>verify\<close> (Ed25519 in base64url), \<open>parseDate\<close> (\<open>Date.parse\<close> in
  milliseconds, \<open>None\<close> for NaN) and \<open>url\<close> (the URL parser).
\<close>

subsection \<open>Digest and signing input\<close>

definition computePayloadDigest :: "(string \<Rightarrow> string) \<Rightarrow> json \<Rightarrow> string" where
  "computePayloadDigest sha payload = ''sha256:'' @ sha (canonicalJson payload)"

definition json_without :: "string \<Rightarrow> json \<Rightarrow> json" where
  "json_without k v = (case v of JObj kvs \<Rightarrow> JObj (filter (\<lambda>kv. fst kv \<noteq> k) kvs) | _ \<Rightarrow> v)"

definition buildSigningInput :: "json \<Rightarrow> string" where
  "buildSigningInput envelope = canonicalJson (json_without ''signature'' envelope)"

subsection \<open>The envelope\<close>

definition COMMAND_OR_PROPOSAL_TYPES :: "string list" where
  "COMMAND_OR_PROPOSAL_TYPES = [''work.offer'', ''lease.renewed'', ''lease.revoked'', ''run.cancel_requested'',
     ''run.message_posted'', ''review.decision'', ''effect.granted'', ''effect.revoked'', ''work.accepted'',
     ''work.declined'', ''run.completion_proposed'', ''artifact.declared'', ''artifact.upload_granted'',
     ''artifact.committed'', ''effect.observed'']"

definition str_field :: "string \<Rightarrow> json \<Rightarrow> string" where
  "str_field k v = (case json_field k v of Some (JStr s) \<Rightarrow> s | _ \<Rightarrow> [])"

definition opt_str_field :: "string \<Rightarrow> json \<Rightarrow> string option" where
  "opt_str_field k v = (case json_field k v of Some (JStr s) \<Rightarrow> Some s | _ \<Rightarrow> None)"

definition sender_ok :: "string \<Rightarrow> bool" where
  "sender_ok s \<longleftrightarrow> s = ''cloud'' \<or> starts_with ''node:'' s \<and> drop 5 s \<noteq> []
     \<and> list_all (\<lambda>c. (of_char c :: nat) \<notin> {10, 13}) (drop 5 s)"

definition base64url_char :: "char \<Rightarrow> bool" where
  "base64url_char c \<longleftrightarrow> alnum c \<or> c = CHR ''_'' \<or> c = CHR ''-''"

definition signature_ok :: "string \<Rightarrow> bool" where
  "signature_ok s \<longleftrightarrow> starts_with ''ed25519:'' s \<and> takeWhile base64url_char (drop 8 s) \<noteq> []
     \<and> list_all (\<lambda>c. c = CHR ''='') (dropWhile base64url_char (drop 8 s))"

definition has_idempotency :: "json \<Rightarrow> bool" where
  "has_idempotency envelope \<longleftrightarrow> str_field ''type'' envelope \<notin> set COMMAND_OR_PROPOSAL_TYPES
     \<or> str_field ''idempotencyKey'' envelope \<noteq> []"

definition EnvelopeSchema :: schema where
  "EnvelopeSchema = SRefine (SObj [
     req ''protocol'' (SStr 1 None),
     req ''schemaDigest'' DigestSchema,
     req ''type'' (SStr 1 None),
     req ''messageId'' UuidSchema,
     req ''sessionId'' UuidSchema,
     req ''workspaceId'' UuidSchema,
     req ''senderId'' (SPat sender_ok),
     opt ''idempotencyKey'' (SStr 1 (Some 200)),
     opt ''correlationId'' UuidSchema,
     opt ''causationId'' UuidSchema,
     req ''sequence'' positive,
     req ''sentAt'' DateTimeSchema,
     opt ''expiresAt'' DateTimeSchema,
     req ''payloadDigest'' DigestSchema,
     opt ''payload'' SUnknown,
     req ''signature'' (SPat signature_ok)]) has_idempotency"

definition CLOCK_SKEW_TOLERANCE_MS :: int where
  "CLOCK_SKEW_TOLERANCE_MS = 120000"

definition isWithinClockSkew :: "(string \<Rightarrow> int option) \<Rightarrow> string \<Rightarrow> int \<Rightarrow> bool" where
  "isWithinClockSkew parseDate sentAt receiverNowMs = (case parseDate sentAt of
     None \<Rightarrow> False | Some sent \<Rightarrow> \<bar>receiverNowMs - sent\<bar> \<le> CLOCK_SKEW_TOLERANCE_MS)"

definition isExpired :: "(string \<Rightarrow> int option) \<Rightarrow> string option \<Rightarrow> int \<Rightarrow> bool" where
  "isExpired parseDate expiresAt receiverNowMs = (case expiresAt of
     None \<Rightarrow> False
   | Some at \<Rightarrow> (case parseDate at of None \<Rightarrow> False | Some t \<Rightarrow> t < receiverNowMs - CLOCK_SKEW_TOLERANCE_MS))"

subsection \<open>Sealing and verification\<close>

text \<open>\<open>unsigned\<close> are the fields of the envelope without digest and signature, in order.\<close>

definition sealEnvelope :: "(string \<Rightarrow> string) \<Rightarrow> (string \<Rightarrow> string) \<Rightarrow> (string \<times> json) list \<Rightarrow> json" where
  "sealEnvelope sha sign unsigned =
     (let payload = (case map_of unsigned ''payload'' of Some p \<Rightarrow> p | None \<Rightarrow> JNull);
          withDigest = unsigned @ [(''payloadDigest'', JStr (computePayloadDigest sha payload))];
          signature = sign (buildSigningInput (JObj withDigest))
      in JObj (withDigest @ [(''signature'', JStr (''ed25519:'' @ signature))]))"

datatype verify_code = SchemaViolation | UnknownType | SignatureInvalid | ClockSkewExceeded | Expired

text \<open>
  An envelope without a payload throws: \<open>canonicalJson\<close> rejects \<open>undefined\<close>. \<open>why\<close> is the message of the
  validation error.
\<close>

datatype verify_result = VerifyOk json json | VerifyFail verify_code "string option" | VerifyThrows

definition verifySealedEnvelope ::
  "(string \<Rightarrow> bool) \<Rightarrow> (string \<Rightarrow> json \<Rightarrow> string) \<Rightarrow> (string \<Rightarrow> string) \<Rightarrow> (string \<Rightarrow> string \<Rightarrow> string \<Rightarrow> bool) \<Rightarrow>
   (string \<Rightarrow> int option) \<Rightarrow> json \<Rightarrow> string \<Rightarrow> int \<Rightarrow> verify_result" where
  "verifySealedEnvelope url why sha verify parseDate raw senderPublicKeyPem nowMs =
     (case parse url EnvelopeSchema raw of
        None \<Rightarrow> VerifyFail SchemaViolation (Some ''envelope shape'')
      | Some envelope \<Rightarrow>
          if \<not> isAccpMessageType (str_field ''type'' envelope)
          then VerifyFail UnknownType (Some (str_field ''type'' envelope))
          else if \<not> verify senderPublicKeyPem (buildSigningInput envelope) (drop 8 (str_field ''signature'' envelope))
          then VerifyFail SignatureInvalid None
          else (case json_field ''payload'' envelope of
              None \<Rightarrow> VerifyThrows
            | Some payload \<Rightarrow>
                if computePayloadDigest sha payload \<noteq> str_field ''payloadDigest'' envelope
                then VerifyFail SignatureInvalid (Some ''payload digest'')
                else if \<not> isWithinClockSkew parseDate (str_field ''sentAt'' envelope) nowMs
                then VerifyFail ClockSkewExceeded None
                else if isExpired parseDate (opt_str_field ''expiresAt'' envelope) nowMs
                then VerifyFail Expired None
                else (case parsePayload url (str_field ''type'' envelope) payload of
                    Some p \<Rightarrow> VerifyOk envelope p
                  | None \<Rightarrow> VerifyFail SchemaViolation (Some (why (str_field ''type'' envelope) payload)))))"

subsection \<open>Duplicates\<close>

record dedup_index =
  dd_seen :: "string list"
  dd_capacity :: nat

text \<open>The constructor throws on a capacity that is not positive. The set is listed oldest first.\<close>

definition new_dedup :: "nat \<Rightarrow> dedup_index option" where
  "new_dedup capacity = (if capacity = 0 then None else Some \<lparr>dd_seen = [], dd_capacity = capacity\<rparr>)"

definition dedup_check :: "string \<Rightarrow> dedup_index \<Rightarrow> bool \<times> dedup_index" where
  "dedup_check messageId d =
     (if messageId \<in> set (dd_seen d) then (True, d)
      else let seen = dd_seen d @ [messageId]
           in (False, d\<lparr>dd_seen := (if dd_capacity d < length seen then tl seen else seen)\<rparr>))"

subsection \<open>Cursors\<close>

datatype cursor_decision = CursorAccept | CursorDuplicate int | CursorOverlap int | CursorGap int int

definition decideCursorAction :: "int \<Rightarrow> int \<Rightarrow> int \<Rightarrow> cursor_decision option" where
  "decideCursorAction highestContiguousAcked batchFirstCursor batchLastCursor =
     (if batchLastCursor < batchFirstCursor then None
      else if batchLastCursor \<le> highestContiguousAcked then Some (CursorDuplicate highestContiguousAcked)
      else if batchFirstCursor \<le> highestContiguousAcked then Some (CursorOverlap (highestContiguousAcked + 1))
      else if batchFirstCursor = highestContiguousAcked + 1 then Some CursorAccept
      else Some (CursorGap (highestContiguousAcked + 1) (batchFirstCursor - 1)))"

subsection \<open>Properties\<close>

text \<open>
  The cursor decision is exact: accept and overlap apply precisely the cursors of the batch the
  receiver does not have, and after them its contiguous prefix ends at the batch's last cursor; a
  duplicate holds nothing new; a gap names precisely the cursors missing before the batch. An inverted
  range is the only input that throws.
\<close>
theorem cursor_decision_exact:
  "(case decideCursorAction a f l of
      None \<Rightarrow> l < f
    | Some CursorAccept \<Rightarrow> f \<le> l \<and> {..a} \<inter> {f..l} = {} \<and> {..a} \<union> {f..l} = {..l}
    | Some (CursorDuplicate ackAt) \<Rightarrow> f \<le> l \<and> ackAt = a \<and> {f..l} \<subseteq> {..a}
    | Some (CursorOverlap from) \<Rightarrow> f \<le> l \<and> {from..l} = {f..l} - {..a} \<and> from \<le> l \<and> {..a} \<union> {f..l} = {..l}
    | Some (CursorGap lo hi) \<Rightarrow> f \<le> l \<and> lo \<le> hi \<and> {..a} \<inter> {lo..hi} = {} \<and> {..a} \<union> {lo..hi} = {..<f})"
  by (auto simp: decideCursorAction_def)

text \<open>The duplicate index holds the last \<open>capacity\<close> distinct ids it accepted.\<close>

primrec dedup_run :: "string list \<Rightarrow> dedup_index \<Rightarrow> string list \<times> dedup_index" where
  "dedup_run [] d = ([], d)"
| "dedup_run (m # ms) d = (case dedup_check m d of (dup, d') \<Rightarrow>
     (case dedup_run ms d' of (acc, d'') \<Rightarrow> (if dup then acc else m # acc, d'')))"

definition dedup_ok :: "dedup_index \<Rightarrow> bool" where
  "dedup_ok d \<longleftrightarrow> distinct (dd_seen d) \<and> length (dd_seen d) \<le> dd_capacity d \<and> 0 < dd_capacity d"

lemma dedup_check_ok: "dedup_ok d \<Longrightarrow> dedup_check m d = (dup, d') \<Longrightarrow> dedup_ok d' \<and> dd_capacity d' = dd_capacity d"
  by (cases "dd_seen d") (auto simp: dedup_ok_def dedup_check_def Let_def split: if_splits)

definition last_n :: "nat \<Rightarrow> 'a list \<Rightarrow> 'a list" where
  "last_n n xs = drop (length xs - n) xs"

lemma last_n_snoc:
  assumes "0 < n"
  shows "last_n n (xs @ [x]) = (if n < Suc (length (last_n n xs)) then tl (last_n n xs @ [x]) else last_n n xs @ [x])"
proof (cases "n \<le> length xs")
  case True
  with assms have "length xs - n < length xs" "Suc 0 - n = 0" by simp_all
  then have "tl (drop (length xs - n) xs @ [x]) = tl (drop (length xs - n) xs) @ [x]" by simp
  with True \<open>Suc 0 - n = 0\<close> show ?thesis by (simp add: last_n_def tl_drop [symmetric] drop_Suc Suc_diff_le drop_tl)
qed (simp add: last_n_def)

lemma dedup_check_last:
  assumes "dedup_ok d" and "dd_seen d = last_n (dd_capacity d) hist" and "dedup_check m d = (dup, d')"
  shows "dd_seen d' = last_n (dd_capacity d) (if dup then hist else hist @ [m])"
  using assms last_n_snoc [of "dd_capacity d" hist m]
  by (auto simp: dedup_ok_def dedup_check_def Let_def split: if_splits)

lemma dedup_run_last:
  "dedup_ok d \<Longrightarrow> dd_seen d = last_n (dd_capacity d) hist \<Longrightarrow> dedup_run ms d = (acc, d') \<Longrightarrow>
   dedup_ok d' \<and> dd_capacity d' = dd_capacity d \<and> dd_seen d' = last_n (dd_capacity d) (hist @ acc)"
proof (induction ms arbitrary: d hist acc)
  case (Cons m ms)
  obtain dup d1 where s: "dedup_check m d = (dup, d1)" by (cases "dedup_check m d")
  obtain acc1 where r: "dedup_run ms d1 = (acc1, d')" and acc: "acc = (if dup then acc1 else m # acc1)"
    using Cons.prems(3) s by (auto split: prod.splits)
  from dedup_check_ok [OF Cons.prems(1) s] dedup_check_last [OF Cons.prems(1,2) s] Cons.IH [OF _ _ r]
  show ?case by (auto simp: acc split: if_splits)
qed simp

text \<open>
  The duplicate index of a session is a sliding window: after any sequence of messages it holds exactly
  the last \<open>capacity\<close> accepted ids, without repetition and never more than its capacity, and the next
  message is a duplicate exactly when its id is in that window. No id is accepted twice within a window.
\<close>
theorem dedup_window:
  assumes "new_dedup capacity = Some d0" and "dedup_run ms d0 = (accepted, d)"
  shows "dd_seen d = last_n capacity accepted \<and> distinct (last_n capacity accepted)
    \<and> length (dd_seen d) \<le> capacity
    \<and> fst (dedup_check m d) = (m \<in> set (last_n capacity accepted))"
proof -
  from assms(1) have d0: "d0 = \<lparr>dd_seen = [], dd_capacity = capacity\<rparr>" "0 < capacity"
    by (auto simp: new_dedup_def split: if_splits)
  from dedup_run_last [OF _ _ assms(2), of "[]"] d0 show ?thesis
    by (auto simp: dedup_ok_def last_n_def dedup_check_def Let_def)
qed

lemma dedup_window_witness:
  "dedup_run [''a'', ''b'', ''a'', ''c'', ''a''] \<lparr>dd_seen = [], dd_capacity = 2\<rparr>
     = ([''a'', ''b'', ''c'', ''a''], \<lparr>dd_seen = [''c'', ''a''], dd_capacity = 2\<rparr>)
   \<and> distinct (last_n 2 [''a'', ''b'', ''c'', ''a''])
   \<and> fst (dedup_check ''c'' \<lparr>dd_seen = [''c'', ''a''], dd_capacity = 2\<rparr>)"
proof -
  have n: "new_dedup 2 = Some \<lparr>dd_seen = [], dd_capacity = 2\<rparr>" by (simp add: new_dedup_def)
  have r: "dedup_run [''a'', ''b'', ''a'', ''c'', ''a''] \<lparr>dd_seen = [], dd_capacity = 2\<rparr>
     = ([''a'', ''b'', ''c'', ''a''], \<lparr>dd_seen = [''c'', ''a''], dd_capacity = 2\<rparr>)"
    by (simp add: dedup_check_def)
  from dedup_window [OF n r, of "''c''"] r show ?thesis by (simp add: last_n_def)
qed

subsection \<open>Sealed envelopes\<close>

lemma json_canon_object:
  assumes "distinct (map fst a)" "distinct (map fst b)" "set a = set b"
  shows "json_canon (JObj a) = json_canon (JObj b)"
proof -
  have "sort_key fst a = sort_key fst b"
    by (rule map_sorted_distinct_set_unique [where f = fst])
       (use assms in \<open>auto simp: inj_on_def distinct_map dest: eq_key_imp_eq_value\<close>)
  then show ?thesis by (simp add: sort_key_map)
qed

definition envelope_fields :: "(string \<times> presence \<times> schema) list" where
  "envelope_fields = [
     req ''protocol'' (SStr 1 None), req ''schemaDigest'' DigestSchema, req ''type'' (SStr 1 None),
     req ''messageId'' UuidSchema, req ''sessionId'' UuidSchema, req ''workspaceId'' UuidSchema,
     req ''senderId'' (SPat sender_ok), opt ''idempotencyKey'' (SStr 1 (Some 200)),
     opt ''correlationId'' UuidSchema, opt ''causationId'' UuidSchema, req ''sequence'' positive,
     req ''sentAt'' DateTimeSchema, opt ''expiresAt'' DateTimeSchema, req ''payloadDigest'' DigestSchema,
     opt ''payload'' SUnknown, req ''signature'' (SPat signature_ok)]"

lemma EnvelopeSchema_fields: "EnvelopeSchema = SRefine (SObj envelope_fields) has_idempotency"
  by (simp add: EnvelopeSchema_def envelope_fields_def)

lemma envelope_fields_flat: "\<forall>(k, pr, sc) \<in> set envelope_fields. scalar sc \<and> pr \<in> {Required, Optional}"
  by (simp add: envelope_fields_def DigestSchema_def UuidSchema_def positive_def DateTimeSchema_def)

lemma envelope_fields_distinct: "distinct (map fst envelope_fields)"
  by (simp add: envelope_fields_def)

definition ENVELOPE_KEYS :: "string set" where
  "ENVELOPE_KEYS = fst ` set envelope_fields"

text \<open>An envelope that only has the fields of the schema, each once, is parsed to itself, keys reordered.\<close>

lemma parse_envelope_same:
  assumes "parse url EnvelopeSchema (JObj kvs) = Some e" "distinct (map fst kvs)" "fst ` set kvs \<subseteq> ENVELOPE_KEYS"
  obtains out where "e = JObj out" "distinct (map fst out)" "set out = set kvs" "map_of out = map_of kvs"
proof -
  from assms(1) obtain out where out: "e = JObj out" "parse_fields url envelope_fields kvs = Some out"
    by (auto simp: EnvelopeSchema_fields split: option.splits if_splits)
  have "fst ` set kvs \<subseteq> fst ` set envelope_fields" using assms(3) by (simp add: ENVELOPE_KEYS_def)
  from parse_fields_same [OF envelope_fields_flat envelope_fields_distinct out(2) assms(2) this] out(1) that
  show thesis by blast
qed

lemma starts_with_append [simp]: "starts_with p (p @ s)"
  by (simp add: starts_with_def)

text \<open>
  C9 What a peer seals, the receiver accepts: an envelope sealed from fields of the schema (each once), whose
  shape is valid, whose type is known, whose payload its schema accepts and whose clock readings are within
  tolerance verifies under the sender's key, with every field unchanged and the payload as parsed. The
  signature covers the reordered envelope the receiver rebuilds, because the canonical text ignores order.
\<close>
theorem sealed_envelope_verifies:
  assumes "\<And>text. verify pub text (sign text)"
    and "distinct (map fst unsigned)" "fst ` set unsigned \<subseteq> ENVELOPE_KEYS - {''payloadDigest'', ''signature''}"
    and "parse url EnvelopeSchema (sealEnvelope sha sign unsigned) = Some envelope"
    and "map_of unsigned ''type'' = Some (JStr ty)" "isAccpMessageType ty"
    and "map_of unsigned ''payload'' = Some body" "parsePayload url ty body = Some p"
    and "map_of unsigned ''sentAt'' = Some (JStr sent)" "isWithinClockSkew parseDate sent now"
    and "\<not> isExpired parseDate (opt_str_field ''expiresAt'' (JObj unsigned)) now"
  shows "verifySealedEnvelope url why sha verify parseDate (sealEnvelope sha sign unsigned) pub now = VerifyOk envelope p
    \<and> (\<forall>k. json_field k envelope = json_field k (sealEnvelope sha sign unsigned))"
proof -
  define digest where "digest = JStr (computePayloadDigest sha body)"
  define body_kvs where "body_kvs = unsigned @ [(''payloadDigest'', digest)]"
  define msg where "msg = buildSigningInput (JObj body_kvs)"
  define kvs where "kvs = body_kvs @ [(''signature'', JStr (''ed25519:'' @ sign msg))]"
  have seal: "sealEnvelope sha sign unsigned = JObj kvs"
    using assms(7) by (simp add: sealEnvelope_def Let_def kvs_def body_kvs_def digest_def msg_def)
  have keys: "''payloadDigest'' \<in> ENVELOPE_KEYS" "''signature'' \<in> ENVELOPE_KEYS"
    by (simp_all add: ENVELOPE_KEYS_def envelope_fields_def)
  have new: "''payloadDigest'' \<notin> fst ` set unsigned" "''signature'' \<notin> fst ` set unsigned" using assms(3) by auto
  have dist: "distinct (map fst kvs)" and sub: "fst ` set kvs \<subseteq> ENVELOPE_KEYS"
    using assms(2,3) new keys by (auto simp: kvs_def body_kvs_def)
  obtain out where out: "envelope = JObj out" "distinct (map fst out)" "set out = set kvs" "map_of out = map_of kvs"
    using parse_envelope_same [OF assms(4) [unfolded seal] dist sub] by blast
  have old: "map_of kvs k = map_of unsigned k" if "k \<in> {''type'', ''payload'', ''sentAt'', ''expiresAt''}" for k
    using that by (auto simp: kvs_def body_kvs_def map_add_def split: option.splits)
  have fields: "str_field ''type'' envelope = ty" "json_field ''payload'' envelope = Some body"
    "str_field ''sentAt'' envelope = sent" "opt_str_field ''expiresAt'' envelope = opt_str_field ''expiresAt'' (JObj unsigned)"
    using assms(5,7,9) by (simp_all add: str_field_def opt_str_field_def out(1,4) old)
  have none: "map_of unsigned ''payloadDigest'' = None" "map_of unsigned ''signature'' = None"
    using new by (simp_all add: map_of_eq_None_iff)
  have sealed: "str_field ''payloadDigest'' envelope = computePayloadDigest sha body"
    "str_field ''signature'' envelope = ''ed25519:'' @ sign msg"
    using none by (simp_all add: str_field_def out(1,4) kvs_def body_kvs_def digest_def map_add_def)
  have "json_canon (json_without ''signature'' envelope) = json_canon (JObj body_kvs)"
  proof -
    have "set (filter (\<lambda>kv. fst kv \<noteq> ''signature'') out) = set body_kvs"
      using out(3) new by (force simp: kvs_def body_kvs_def image_iff)
    moreover have "distinct (map fst body_kvs)" using dist by (simp add: kvs_def)
    ultimately show ?thesis
      using out(2) by (simp only: out(1) json_without_def json.case) (rule json_canon_object, auto simp: distinct_map_filter)
  qed
  moreover have "json_without ''signature'' (JObj body_kvs) = JObj body_kvs"
    using new by (force simp: json_without_def body_kvs_def filter_id_conv)
  ultimately have input: "buildSigningInput envelope = msg"
    by (simp only: buildSigningInput_def msg_def canonicalJson_eq)
  show ?thesis
    using assms(1,4,6,8,10,11) fields sealed input out(1,4)
    by (simp add: verifySealedEnvelope_def seal)
qed

text \<open>A concrete acknowledgement and concrete functions for the witnesses.\<close>

definition example_uuid :: string where
  "example_uuid = ''00000000-0000-7000-8000-000000000000''"

definition example_sha :: "string \<Rightarrow> string" where
  "example_sha s = replicate 64 CHR ''0''"

definition example_unsigned :: "(string \<times> json) list" where
  "example_unsigned = [(''protocol'', JStr ''accp/1.0''), (''schemaDigest'', JStr (''sha256:'' @ example_sha [])),
     (''type'', JStr ''message.ack''), (''messageId'', JStr example_uuid), (''sessionId'', JStr example_uuid),
     (''workspaceId'', JStr example_uuid), (''senderId'', JStr ''cloud''), (''sequence'', JNum 1),
     (''sentAt'', JStr ''2026-01-01T00:00:00Z''), (''payload'', JObj [(''ackFor'', JStr example_uuid)])]"

definition example_envelope :: json where
  "example_envelope = JObj [(''protocol'', JStr ''accp/1.0''), (''schemaDigest'', JStr (''sha256:'' @ example_sha [])),
     (''type'', JStr ''message.ack''), (''messageId'', JStr example_uuid), (''sessionId'', JStr example_uuid),
     (''workspaceId'', JStr example_uuid), (''senderId'', JStr ''cloud''), (''sequence'', JNum 1),
     (''sentAt'', JStr ''2026-01-01T00:00:00Z''), (''payloadDigest'', JStr (''sha256:'' @ example_sha [])),
     (''payload'', JObj [(''ackFor'', JStr example_uuid)]), (''signature'', JStr ''ed25519:AA'')]"

lemma example_uuid_ok: "parse url UuidSchema (JStr example_uuid) = Some (JStr example_uuid)"
  by code_simp

lemma example_digest_ok: "is_digest (''sha256:'' @ example_sha s)"
  by code_simp

lemma example_date_ok: "is_date_time ''2026-01-01T00:00:00Z''"
  by code_simp

lemma example_sender_ok: "sender_ok ''cloud''" "signature_ok ''ed25519:AA''"
  by code_simp+

lemma example_parse: "parse url EnvelopeSchema example_envelope = Some example_envelope"
proof -
  have "has_idempotency example_envelope"
    by (simp add: has_idempotency_def example_envelope_def str_field_def COMMAND_OR_PROPOSAL_TYPES_def)
  then show ?thesis
    using example_uuid_ok [of url] example_digest_ok example_date_ok example_sender_ok
    by (simp add: EnvelopeSchema_def example_envelope_def DigestSchema_def DateTimeSchema_def positive_def
      within_def is_safe_int_def max_safe_int_def)
qed

lemma example_payload:
  "parsePayload url ''message.ack'' (JObj [(''ackFor'', JStr example_uuid)]) = Some (JObj [(''ackFor'', JStr example_uuid)])"
  using example_uuid_ok [of url] by (simp add: parsePayload_def MESSAGE_SCHEMAS_def MessageAckSchema_def)

lemma example_type: "isAccpMessageType ''message.ack''"
  by (simp add: isAccpMessageType_def MESSAGE_SCHEMAS_def)

lemma example_seal: "sealEnvelope example_sha (\<lambda>_. ''AA'') example_unsigned =
   JObj (example_unsigned @ [(''payloadDigest'', JStr (''sha256:'' @ example_sha [])), (''signature'', JStr ''ed25519:AA'')])"
  by (simp add: sealEnvelope_def example_unsigned_def computePayloadDigest_def example_sha_def)

lemma example_sealed_parse:
  "parse url EnvelopeSchema (sealEnvelope example_sha (\<lambda>_. ''AA'') example_unsigned) = Some example_envelope"
  using example_parse [of url] unfolding example_seal
  by (simp add: EnvelopeSchema_def example_envelope_def example_unsigned_def split: option.splits if_splits)

lemma sealed_envelope_verifies_witness:
  "verifySealedEnvelope (\<lambda>_. True) (\<lambda>_ _. []) example_sha (\<lambda>_ _ sg. sg = ''AA'') (\<lambda>_. Some 0)
     (sealEnvelope example_sha (\<lambda>_. ''AA'') example_unsigned) ''key'' 5
   = VerifyOk example_envelope (JObj [(''ackFor'', JStr example_uuid)])"
proof (rule sealed_envelope_verifies [where ty = "''message.ack''" and sent = "''2026-01-01T00:00:00Z''"
    and body = "JObj [(''ackFor'', JStr example_uuid)]", THEN conjunct1])
  show "fst ` set example_unsigned \<subseteq> ENVELOPE_KEYS - {''payloadDigest'', ''signature''}"
    by (simp add: example_unsigned_def ENVELOPE_KEYS_def envelope_fields_def)
qed ((rule example_sealed_parse example_payload example_type | simp add: example_unsigned_def isWithinClockSkew_def isExpired_def opt_str_field_def CLOCK_SKEW_TOLERANCE_MS_def)+)

text \<open>
  C8 Nothing but what the sender sealed is accepted: if only signing inputs of the envelopes \<open>issued\<close>
  carry a valid signature under the sender's key, then every envelope that verifies is one of them (up to
  the order of keys and the signature's encoding): type, session, sequence, times and payload are the sender's.
  It is within the clock tolerance, not expired, and its payload is the parsed value of the type's schema.
\<close>
theorem accepted_was_issued:
  assumes "\<And>msg sg. verify pub msg sg \<Longrightarrow> \<exists>e \<in> issued. msg = buildSigningInput e"
    and "verifySealedEnvelope url why sha verify parseDate raw pub now = VerifyOk envelope p"
  shows "(\<exists>e \<in> issued. isDeepStrictEqual (Some (json_without ''signature'' envelope)) (Some (json_without ''signature'' e)))
    \<and> isWithinClockSkew parseDate (str_field ''sentAt'' envelope) now
    \<and> \<not> isExpired parseDate (opt_str_field ''expiresAt'' envelope) now
    \<and> (\<exists>payload. json_field ''payload'' envelope = Some payload
        \<and> computePayloadDigest sha payload = str_field ''payloadDigest'' envelope
        \<and> parsePayload url (str_field ''type'' envelope) payload = Some p)"
proof -
  from assms(2) obtain payload where
    v: "verify pub (buildSigningInput envelope) (drop 8 (str_field ''signature'' envelope))"
    and rest: "isWithinClockSkew parseDate (str_field ''sentAt'' envelope) now"
      "\<not> isExpired parseDate (opt_str_field ''expiresAt'' envelope) now"
      "json_field ''payload'' envelope = Some payload"
      "computePayloadDigest sha payload = str_field ''payloadDigest'' envelope"
      "parsePayload url (str_field ''type'' envelope) payload = Some p"
    by (auto simp: verifySealedEnvelope_def split: option.splits if_splits)
  from assms(1) [OF v] obtain e where e: "e \<in> issued" "buildSigningInput envelope = buildSigningInput e" by blast
  then have "isDeepStrictEqual (Some (json_without ''signature'' envelope)) (Some (json_without ''signature'' e))"
    by (simp only: buildSigningInput_def canonicalJson_eq isDeepStrictEqual_def option.map)
  with e(1) rest show ?thesis by blast
qed

lemma accepted_was_issued_witness:
  "isDeepStrictEqual (Some (json_without ''signature'' example_envelope)) (Some (json_without ''signature'' example_envelope))"
proof -
  have v: "verifySealedEnvelope (\<lambda>_. True) (\<lambda>_ _. []) example_sha (\<lambda>_ msg _. msg = buildSigningInput example_envelope)
      (\<lambda>_. Some 0) example_envelope ''key'' 5 = VerifyOk example_envelope (JObj [(''ackFor'', JStr example_uuid)])"
    (is "verifySealedEnvelope _ _ _ ?verify _ _ _ _ = _")
  proof -
    have "str_field ''type'' example_envelope = ''message.ack''" "str_field ''sentAt'' example_envelope = ''2026-01-01T00:00:00Z''"
      "json_field ''payload'' example_envelope = Some (JObj [(''ackFor'', JStr example_uuid)])"
      "opt_str_field ''expiresAt'' example_envelope = None"
      "str_field ''payloadDigest'' example_envelope = ''sha256:'' @ example_sha []"
      by (simp_all add: example_envelope_def str_field_def opt_str_field_def)
    then show ?thesis
      using example_parse example_type example_payload
      by (simp add: verifySealedEnvelope_def isWithinClockSkew_def isExpired_def CLOCK_SKEW_TOLERANCE_MS_def
        computePayloadDigest_def example_sha_def)
  qed
  have "\<exists>e \<in> {example_envelope}. isDeepStrictEqual (Some (json_without ''signature'' example_envelope)) (Some (json_without ''signature'' e))"
    by (rule accepted_was_issued [OF _ v, THEN conjunct1]) simp
  then show ?thesis by simp
qed

end
