(* ===== verification/NodeStore.thy ===== *)
theory NodeStore
  imports Envelope
begin

text \<open>
  \<open>src/node/state-store.ts\<close>: the durable half of a node session. The interface is the record of operations
  \<open>node_state_store\<close>, as in the source; \<open>InMemoryNodeStateStore\<close> and \<open>SqliteNodeStateStore\<close> implement it.
  The locale \<open>node_store\<close> states the contract as a refinement of an abstract journal, and both
  implementations are interpretations of it.

  An event of the SQLite journal is kept as the JSON value of its text and read back through
  \<open>NodeEventSchema\<close>.
\<close>

subsection \<open>Events and truncations\<close>

record node_event =
  ne_cursor :: int
  ne_eventId :: string
  ne_kind :: string
  ne_occurredAt :: string
  ne_data :: "(string \<times> json) list"
  ne_runId :: "string option"
  ne_taskId :: "string option"

definition opt_field :: "string \<Rightarrow> string option \<Rightarrow> (string \<times> json) list" where
  "opt_field k v = (case v of None \<Rightarrow> [] | Some s \<Rightarrow> [(k, JStr s)])"

definition event_json :: "node_event \<Rightarrow> json" where
  "event_json e = JObj ([(''cursor'', JNum (ne_cursor e)), (''eventId'', JStr (ne_eventId e)), (''kind'', JStr (ne_kind e)),
     (''occurredAt'', JStr (ne_occurredAt e)), (''data'', JObj (ne_data e))]
     @ opt_field ''runId'' (ne_runId e) @ opt_field ''taskId'' (ne_taskId e))"

definition event_of_json :: "json \<Rightarrow> node_event" where
  "event_of_json j = \<lparr>ne_cursor = json_int (json_field ''cursor'' j), ne_eventId = str_field ''eventId'' j,
     ne_kind = str_field ''kind'' j, ne_occurredAt = str_field ''occurredAt'' j,
     ne_data = (case json_field ''data'' j of Some (JObj kvs) \<Rightarrow> kvs | _ \<Rightarrow> []),
     ne_runId = opt_str_field ''runId'' j, ne_taskId = opt_str_field ''taskId'' j\<rparr>"

definition valid_event :: "(string \<Rightarrow> bool) \<Rightarrow> node_event \<Rightarrow> bool" where
  "valid_event url e \<longleftrightarrow> parse url NodeEventSchema (event_json e) \<noteq> None"

record truncation =
  tr_fromCursor :: int
  tr_toCursor :: int
  tr_reason :: string

definition TRUNCATION_REASONS :: "string list" where
  "TRUNCATION_REASONS = [''BUFFER_BYTES'', ''BUFFER_AGE'']"

datatype store_error = UnexpectedCursor int int | DuplicateCursor int | UniqueConstraint int
  | UnknownReason string | InvalidEvent json | UnsupportedVersion int

definition asTruncationReason :: "string \<Rightarrow> store_error + string" where
  "asTruncationReason reason = (if reason \<in> set TRUNCATION_REASONS then Inr reason else Inl (UnknownReason reason))"

subsection \<open>The interface\<close>

type_synonym answers = "string \<Rightarrow> (string \<times> json) option"

record 's node_state_store =
  loadCursors :: "(store_error, 's, int \<times> int) eff"
  setNodeCursor :: "int \<Rightarrow> (store_error, 's, unit) eff"
  setAckedCursor :: "int \<Rightarrow> (store_error, 's, unit) eff"
  appendEvent :: "node_event \<Rightarrow> (store_error, 's, unit) eff"
  appendEventAndAdvanceCursor :: "node_event \<Rightarrow> (store_error, 's, unit) eff"
  eventsAfter :: "int \<Rightarrow> (store_error, 's, node_event list) eff"
  pruneUpTo :: "int \<Rightarrow> (store_error, 's, unit) eff"
  deleteEventAt :: "int \<Rightarrow> (store_error, 's, unit) eff"
  saveOfferAnswer :: "string \<Rightarrow> string \<Rightarrow> json \<Rightarrow> (store_error, 's, unit) eff"
  loadOfferAnswers :: "(store_error, 's, answers) eff"
  appendTruncation :: "truncation \<Rightarrow> (store_error, 's, unit) eff"
  loadTruncations :: "(store_error, 's, truncation list) eff"

subsection \<open>InMemoryNodeStateStore\<close>

record memory_store =
  ms_nodeCursor :: int
  ms_ackedCursor :: int
  ms_events :: "node_event list"
  ms_offerAnswers :: answers
  ms_truncations :: "truncation list"

definition new_memory_store :: memory_store where
  "new_memory_store = \<lparr>ms_nodeCursor = 0, ms_ackedCursor = 0, ms_events = [], ms_offerAnswers = (\<lambda>_. None), ms_truncations = []\<rparr>"

definition memory_appendEventAndAdvanceCursor :: "node_event \<Rightarrow> (store_error, memory_store, unit) eff" where
  "memory_appendEventAndAdvanceCursor e =
     andThen (query ms_nodeCursor) (\<lambda>n.
     andThen (require (ne_cursor e = n + 1) (UnexpectedCursor (n + 1) (ne_cursor e))) (\<lambda>_.
     andThen (query ms_events) (\<lambda>events.
     andThen (require (\<not> list_ex (\<lambda>x. ne_cursor x = ne_cursor e) events) (DuplicateCursor (ne_cursor e))) (\<lambda>_.
     update (\<lambda>s. s\<lparr>ms_events := events @ [e], ms_nodeCursor := ne_cursor e\<rparr>)))))"

definition memory_eventsAfter :: "int \<Rightarrow> (store_error, memory_store, node_event list) eff" where
  "memory_eventsAfter cursor = query (\<lambda>s. order_by ne_cursor (filter (\<lambda>e. cursor < ne_cursor e) (ms_events s)))"

definition memory_appendTruncation :: "truncation \<Rightarrow> (store_error, memory_store, unit) eff" where
  "memory_appendTruncation t = andThen (lift_res (asTruncationReason (tr_reason t)))
     (\<lambda>reason. update (ms_truncations_update (\<lambda>ts. ts @ [t\<lparr>tr_reason := reason\<rparr>])))"

definition InMemoryNodeStateStore :: "memory_store node_state_store" where
  "InMemoryNodeStateStore = \<lparr>
     loadCursors = query (\<lambda>s. (ms_nodeCursor s, ms_ackedCursor s)),
     setNodeCursor = (\<lambda>n. update (ms_nodeCursor_update (\<lambda>_. n))),
     setAckedCursor = (\<lambda>n. update (ms_ackedCursor_update (\<lambda>_. n))),
     appendEvent = (\<lambda>e. update (ms_events_update (\<lambda>es. es @ [e]))),
     appendEventAndAdvanceCursor = memory_appendEventAndAdvanceCursor,
     eventsAfter = memory_eventsAfter,
     pruneUpTo = (\<lambda>cursor. update (ms_events_update (filter (\<lambda>e. cursor < ne_cursor e)))),
     deleteEventAt = (\<lambda>cursor. update (ms_events_update (filter (\<lambda>e. ne_cursor e \<noteq> cursor)))),
     saveOfferAnswer = (\<lambda>key ty payload. update (ms_offerAnswers_update (\<lambda>m. m(key \<mapsto> (ty, payload))))),
     loadOfferAnswers = query ms_offerAnswers,
     appendTruncation = memory_appendTruncation,
     loadTruncations = query ms_truncations\<rparr>"

subsection \<open>SqliteNodeStateStore\<close>

text \<open>
  \<open>node_events\<close> is the list of its (cursor, text) rows in rowid order, which is cursor order for an
  INTEGER PRIMARY KEY: \<open>INSERT\<close> keeps it sorted and refuses a cursor that is there. \<open>truncations\<close> is in the
  order of its AUTOINCREMENT id.
\<close>

record sqlite_store =
  ss_node_events :: "(int \<times> json) list"
  ss_node_cursors :: "string \<Rightarrow> int option"
  ss_offer_answers :: answers
  ss_truncations :: "truncation list"
  ss_user_version :: int

definition SCHEMA_VERSION :: int where
  "SCHEMA_VERSION = 1"

text \<open>The constructor: a fresh file (version 0) gets the schema, another version is refused.\<close>

definition new_sqlite_store :: "sqlite_store option \<Rightarrow> store_error + sqlite_store" where
  "new_sqlite_store file = (case file of
     None \<Rightarrow> Inr \<lparr>ss_node_events = [], ss_node_cursors = (\<lambda>_. None), ss_offer_answers = (\<lambda>_. None), ss_truncations = [],
       ss_user_version = SCHEMA_VERSION\<rparr>
   | Some s \<Rightarrow> if ss_user_version s = SCHEMA_VERSION then Inr s else Inl (UnsupportedVersion (ss_user_version s)))"

definition sqlite_cursorValue :: "string \<Rightarrow> sqlite_store \<Rightarrow> int" where
  "sqlite_cursorValue key s = (case ss_node_cursors s key of None \<Rightarrow> 0 | Some n \<Rightarrow> n)"

definition sqlite_upsertCursor :: "string \<Rightarrow> int \<Rightarrow> (store_error, sqlite_store, unit) eff" where
  "sqlite_upsertCursor key n = update (ss_node_cursors_update (\<lambda>m. m(key \<mapsto> n)))"

definition sqlite_insertEvent :: "int \<Rightarrow> json \<Rightarrow> (store_error, sqlite_store, unit) eff" where
  "sqlite_insertEvent cursor event_text =
     andThen (query ss_node_events) (\<lambda>rows.
     andThen (require (cursor \<notin> fst ` set rows) (UniqueConstraint cursor)) (\<lambda>_.
     update (ss_node_events_update (insort_key fst (cursor, event_text)))))"

definition sqlite_appendEventAndAdvanceCursor :: "node_event \<Rightarrow> (store_error, sqlite_store, unit) eff" where
  "sqlite_appendEventAndAdvanceCursor e =
     andThen (query (sqlite_cursorValue ''node_cursor'')) (\<lambda>n.
     andThen (require (ne_cursor e = n + 1) (UnexpectedCursor (n + 1) (ne_cursor e))) (\<lambda>_.
     atomically (andThen (sqlite_insertEvent (ne_cursor e) (event_json e)) (\<lambda>_.
       sqlite_upsertCursor ''node_cursor'' (ne_cursor e)))))"

definition sqlite_eventsAfter :: "(string \<Rightarrow> bool) \<Rightarrow> int \<Rightarrow> (store_error, sqlite_store, node_event list) eff" where
  "sqlite_eventsAfter url cursor =
     andThen (query (\<lambda>s. filter (\<lambda>row. cursor < fst row) (ss_node_events s))) (\<lambda>rows.
     foldEach rows (\<lambda>row acc. case parse url NodeEventSchema (snd row) of
         None \<Rightarrow> fail (InvalidEvent (snd row))
       | Some j \<Rightarrow> ok (acc @ [event_of_json j])) [])"

definition sqlite_loadTruncations :: "(store_error, sqlite_store, truncation list) eff" where
  "sqlite_loadTruncations =
     andThen (query ss_truncations) (\<lambda>rows.
     foldEach rows (\<lambda>row acc. andThen (lift_res (asTruncationReason (tr_reason row)))
       (\<lambda>reason. ok (acc @ [row\<lparr>tr_reason := reason\<rparr>]))) [])"

definition sqlite_appendTruncation :: "truncation \<Rightarrow> (store_error, sqlite_store, unit) eff" where
  "sqlite_appendTruncation t = andThen (lift_res (asTruncationReason (tr_reason t)))
     (\<lambda>reason. update (ss_truncations_update (\<lambda>ts. ts @ [t\<lparr>tr_reason := reason\<rparr>])))"

definition SqliteNodeStateStore :: "(string \<Rightarrow> bool) \<Rightarrow> sqlite_store node_state_store" where
  "SqliteNodeStateStore url = \<lparr>
     loadCursors = query (\<lambda>s. (sqlite_cursorValue ''node_cursor'' s, sqlite_cursorValue ''acked_cursor'' s)),
     setNodeCursor = sqlite_upsertCursor ''node_cursor'',
     setAckedCursor = sqlite_upsertCursor ''acked_cursor'',
     appendEvent = (\<lambda>e. sqlite_insertEvent (ne_cursor e) (event_json e)),
     appendEventAndAdvanceCursor = sqlite_appendEventAndAdvanceCursor,
     eventsAfter = sqlite_eventsAfter url,
     pruneUpTo = (\<lambda>cursor. update (ss_node_events_update (filter (\<lambda>row. \<not> fst row \<le> cursor)))),
     deleteEventAt = (\<lambda>cursor. update (ss_node_events_update (filter (\<lambda>row. fst row \<noteq> cursor)))),
     saveOfferAnswer = (\<lambda>key ty payload. update (ss_offer_answers_update (\<lambda>m. m(key \<mapsto> (ty, payload))))),
     loadOfferAnswers = query ss_offer_answers,
     appendTruncation = sqlite_appendTruncation,
     loadTruncations = sqlite_loadTruncations\<rparr>"

subsection \<open>The contract\<close>

record journal =
  j_node :: int
  j_acked :: int
  j_events :: "node_event list"
  j_answers :: answers
  j_truncations :: "truncation list"

text \<open>\<open>m\<close> returns from \<open>s\<close> and leaves a state that satisfies the invariant and stands for \<open>j\<close>.\<close>

definition commits :: "('s \<Rightarrow> bool) \<Rightarrow> ('s \<Rightarrow> journal) \<Rightarrow> (store_error, 's, unit) eff \<Rightarrow> 's \<Rightarrow> journal \<Rightarrow> bool" where
  "commits good view m s j \<longleftrightarrow> (\<exists>s'. m s = (Inr (), s') \<and> good s' \<and> view s' = j)"

definition has_cursor :: "int \<Rightarrow> journal \<Rightarrow> bool" where
  "has_cursor c j \<longleftrightarrow> c \<in> ne_cursor ` set (j_events j)"

definition insert_event :: "node_event \<Rightarrow> journal \<Rightarrow> journal" where
  "insert_event e j = j\<lparr>j_events := insort_key ne_cursor e (j_events j)\<rparr>"

locale node_store =
  fixes ops :: "'s node_state_store"
    and view :: "'s \<Rightarrow> journal"
    and good :: "'s \<Rightarrow> bool"
    and valid :: "node_event \<Rightarrow> bool"
  assumes ascending: "good s \<Longrightarrow> sorted_wrt (<) (map ne_cursor (j_events (view s)))"
    and load_cursors: "good s \<Longrightarrow> loadCursors ops s = (Inr (j_node (view s), j_acked (view s)), s)"
    and events_after: "good s \<Longrightarrow> eventsAfter ops c s = (Inr (filter (\<lambda>e. c < ne_cursor e) (j_events (view s))), s)"
    and load_answers: "good s \<Longrightarrow> loadOfferAnswers ops s = (Inr (j_answers (view s)), s)"
    and load_truncations: "good s \<Longrightarrow> loadTruncations ops s = (Inr (j_truncations (view s)), s)"
    and set_node: "good s \<Longrightarrow> commits good view (setNodeCursor ops n) s ((view s)\<lparr>j_node := n\<rparr>)"
    and set_acked: "good s \<Longrightarrow> commits good view (setAckedCursor ops n) s ((view s)\<lparr>j_acked := n\<rparr>)"
    and append_event: "good s \<Longrightarrow> valid e \<Longrightarrow> \<not> has_cursor (ne_cursor e) (view s) \<Longrightarrow>
      commits good view (appendEvent ops e) s (insert_event e (view s))"
    and append_advance: "good s \<Longrightarrow> valid e \<Longrightarrow> ne_cursor e = j_node (view s) + 1 \<Longrightarrow> \<not> has_cursor (ne_cursor e) (view s) \<Longrightarrow>
      commits good view (appendEventAndAdvanceCursor ops e) s ((insert_event e (view s))\<lparr>j_node := ne_cursor e\<rparr>)"
    and append_refused: "good s \<Longrightarrow> ne_cursor e \<noteq> j_node (view s) + 1 \<or> has_cursor (ne_cursor e) (view s) \<Longrightarrow>
      \<exists>err. appendEventAndAdvanceCursor ops e s = (Inl err, s)"
    and prune: "good s \<Longrightarrow> commits good view (pruneUpTo ops c) s
      ((view s)\<lparr>j_events := filter (\<lambda>e. c < ne_cursor e) (j_events (view s))\<rparr>)"
    and delete_at: "good s \<Longrightarrow> commits good view (deleteEventAt ops c) s
      ((view s)\<lparr>j_events := filter (\<lambda>e. ne_cursor e \<noteq> c) (j_events (view s))\<rparr>)"
    and save_answer: "good s \<Longrightarrow> commits good view (saveOfferAnswer ops k ty p) s
      ((view s)\<lparr>j_answers := (j_answers (view s))(k \<mapsto> (ty, p))\<rparr>)"
    and append_truncation: "good s \<Longrightarrow> tr_reason t \<in> set TRUNCATION_REASONS \<Longrightarrow>
      commits good view (appendTruncation ops t) s ((view s)\<lparr>j_truncations := j_truncations (view s) @ [t]\<rparr>)"
    and truncation_refused: "good s \<Longrightarrow> tr_reason t \<notin> set TRUNCATION_REASONS \<Longrightarrow>
      appendTruncation ops t s = (Inl (UnknownReason (tr_reason t)), s)"

subsection \<open>Reading back an event\<close>

lemma event_roundtrip_raw: "event_of_json (event_json e) = e"
  by (simp add: event_of_json_def event_json_def json_int_def str_field_def opt_str_field_def opt_field_def
      split: option.splits)

lemma event_of_json_cong:
  "(\<And>k. json_field k i = json_field k j) \<Longrightarrow> event_of_json i = event_of_json j"
  by (simp add: event_of_json_def str_field_def opt_str_field_def)

text \<open>
  What the schema returns for an event's JSON has the same fields, so reading back a valid event
  returns it.
\<close>

lemma event_roundtrip:
  assumes "parse url NodeEventSchema (event_json e) = Some j"
  shows "event_of_json j = e"
proof -
  obtain fs where fs: "NodeEventSchema = SObj fs" "\<forall>(k, pr, sc) \<in> set fs. scalar sc \<and> pr \<in> {Required, Optional}"
    "distinct (map fst fs)" "fst ` set fs = {''cursor'', ''eventId'', ''runId'', ''taskId'', ''kind'', ''occurredAt'', ''data''}"
    by (simp add: NodeEventSchema_def CursorSchema_def UuidSchema_def any_string_def DateTimeSchema_def)
  define kvs where "kvs = [(''cursor'', JNum (ne_cursor e)), (''eventId'', JStr (ne_eventId e)), (''kind'', JStr (ne_kind e)),
     (''occurredAt'', JStr (ne_occurredAt e)), (''data'', JObj (ne_data e))]
     @ opt_field ''runId'' (ne_runId e) @ opt_field ''taskId'' (ne_taskId e)"
  have "distinct (map fst kvs)" "fst ` set kvs \<subseteq> fst ` set fs" unfolding fs(4) kvs_def
    by (cases "ne_runId e"; cases "ne_taskId e"; simp add: opt_field_def)+
  moreover have "event_json e = JObj kvs" by (simp add: event_json_def kvs_def)
  ultimately have kvs: "event_json e = JObj kvs" "distinct (map fst kvs)" "fst ` set kvs \<subseteq> fst ` set fs" by simp_all
  from assms obtain out where out: "j = JObj out" "parse_fields url fs kvs = Some out"
    by (auto simp: fs(1) kvs(1))
  from parse_fields_same [OF fs(2,3) out(2) kvs(2,3)] have "map_of out = map_of kvs" by blast
  then have "json_field k j = json_field k (event_json e)" for k by (simp add: out(1) kvs(1))
  then show ?thesis by (metis event_of_json_cong event_roundtrip_raw)
qed

subsection \<open>The in-memory store keeps the contract\<close>

definition memory_good :: "memory_store \<Rightarrow> bool" where
  "memory_good s \<longleftrightarrow> distinct (map ne_cursor (ms_events s))"

definition memory_view :: "memory_store \<Rightarrow> journal" where
  "memory_view s = \<lparr>j_node = ms_nodeCursor s, j_acked = ms_ackedCursor s, j_events = sort_key ne_cursor (ms_events s),
     j_answers = ms_offerAnswers s, j_truncations = ms_truncations s\<rparr>"

lemma sort_snoc_fresh:
  assumes "distinct (map f xs)" "f x \<notin> f ` set xs"
  shows "sort_key f (xs @ [x]) = insort_key f x (sort_key f xs)"
proof (rule map_sorted_distinct_set_unique [where f = f])
  have d: "distinct xs" "x \<notin> set xs" and inj: "inj_on f (insert x (set xs))"
    using assms by (auto simp: distinct_map)
  have sets: "set (sort_key f (xs @ [x])) = insert x (set xs)" "set (insort_key f x (sort_key f xs)) = insert x (set xs)"
    by (simp_all add: set_insort_key)
  show "inj_on f (set (sort_key f (xs @ [x])) \<union> set (insort_key f x (sort_key f xs)))"
    using inj by (simp only: sets Un_absorb)
  show "distinct (map f (sort_key f (xs @ [x])))"
    using d inj by (simp only: distinct_map sets distinct_sort distinct_append) simp
  show "distinct (map f (insort_key f x (sort_key f xs)))"
    using d inj by (simp only: distinct_map sets distinct_insort distinct_sort set_sort) simp
  show "set (sort_key f (xs @ [x])) = set (insort_key f x (sort_key f xs))" by (simp only: sets)
  show "sorted (map f (sort_key f (xs @ [x])))" by (rule sorted_sort_key)
  show "sorted (map f (insort_key f x (sort_key f xs)))" by (simp only: sorted_insort_key sorted_sort_key)
qed

lemma memory_append_view:
  assumes "memory_good s" "\<not> has_cursor (ne_cursor e) (memory_view s)"
  shows "memory_good (s\<lparr>ms_events := ms_events s @ [e]\<rparr>)"
    "memory_view (s\<lparr>ms_events := ms_events s @ [e]\<rparr>) = insert_event e (memory_view s)"
  using assms sort_snoc_fresh [of ne_cursor "ms_events s" e]
  by (simp_all add: memory_good_def memory_view_def insert_event_def has_cursor_def)

lemma ms_events_update_at: "ms_events_update g s = s\<lparr>ms_events := g (ms_events s)\<rparr>"
  by (cases s) simp

lemmas memory_defs = InMemoryNodeStateStore_def memory_good_def memory_view_def eff_simps

interpretation memory: node_store InMemoryNodeStateStore memory_view memory_good "\<lambda>_. True"
proof
  fix s :: memory_store and e assume g: "memory_good s"
  show "sorted_wrt (<) (map ne_cursor (j_events (memory_view s)))"
    using g by (simp add: memory_good_def memory_view_def strict_sorted_iff distinct_map)
  show "eventsAfter InMemoryNodeStateStore c s = (Inr (filter (\<lambda>e. c < ne_cursor e) (j_events (memory_view s))), s)" for c
    by (simp add: memory_defs memory_eventsAfter_def order_by_def filter_sort)
  show "commits memory_good memory_view (pruneUpTo InMemoryNodeStateStore c) s
      ((memory_view s)\<lparr>j_events := filter (\<lambda>e. c < ne_cursor e) (j_events (memory_view s))\<rparr>)" for c
    using g by (simp add: commits_def memory_defs filter_sort distinct_map_filter)
  show "commits memory_good memory_view (deleteEventAt InMemoryNodeStateStore c) s
      ((memory_view s)\<lparr>j_events := filter (\<lambda>e. ne_cursor e \<noteq> c) (j_events (memory_view s))\<rparr>)" for c
    using g by (simp add: commits_def memory_defs filter_sort distinct_map_filter)
  show "ne_cursor e \<noteq> j_node (memory_view s) + 1 \<or> has_cursor (ne_cursor e) (memory_view s) \<Longrightarrow>
      \<exists>err. appendEventAndAdvanceCursor InMemoryNodeStateStore e s = (Inl err, s)"
    by (auto simp: memory_defs memory_appendEventAndAdvanceCursor_def has_cursor_def list_ex_iff image_iff)
  assume f: "\<not> has_cursor (ne_cursor e) (memory_view s)"
  note app = memory_append_view [OF g f]
  show "commits memory_good memory_view (appendEvent InMemoryNodeStateStore e) s (insert_event e (memory_view s))"
  proof -
    have "appendEvent InMemoryNodeStateStore e s = (Inr (), s\<lparr>ms_events := ms_events s @ [e]\<rparr>)"
      by (simp add: InMemoryNodeStateStore_def update_def)
    with app show ?thesis by (simp add: commits_def)
  qed
  assume n: "ne_cursor e = j_node (memory_view s) + 1"
  define s' where "s' = s\<lparr>ms_events := ms_events s @ [e]\<rparr>"
  have "\<not> list_ex (\<lambda>x. ne_cursor x = ne_cursor e) (ms_events s)" "ne_cursor e = ms_nodeCursor s + 1"
    using f n by (auto simp: has_cursor_def list_ex_iff memory_view_def image_iff)
  then have run: "appendEventAndAdvanceCursor InMemoryNodeStateStore e s = (Inr (), s'\<lparr>ms_nodeCursor := ne_cursor e\<rparr>)"
    by (simp add: InMemoryNodeStateStore_def memory_appendEventAndAdvanceCursor_def eff_simps s'_def)
  have "memory_good (s'\<lparr>ms_nodeCursor := ne_cursor e\<rparr>)" using app(1) by (simp add: memory_good_def s'_def)
  moreover have "memory_view (s'\<lparr>ms_nodeCursor := ne_cursor e\<rparr>) = (memory_view s')\<lparr>j_node := ne_cursor e\<rparr>"
    by (simp add: memory_view_def)
  ultimately show "commits memory_good memory_view (appendEventAndAdvanceCursor InMemoryNodeStateStore e) s
      ((insert_event e (memory_view s))\<lparr>j_node := ne_cursor e\<rparr>)"
    using app(2) run by (simp add: commits_def s'_def)
qed (simp_all add: commits_def memory_defs memory_appendTruncation_def asTruncationReason_def)

subsection \<open>The SQLite store keeps the contract\<close>

definition sqlite_good :: "(string \<Rightarrow> bool) \<Rightarrow> sqlite_store \<Rightarrow> bool" where
  "sqlite_good url s \<longleftrightarrow> sorted_wrt (<) (map fst (ss_node_events s))
     \<and> (\<forall>(c, t) \<in> set (ss_node_events s). \<exists>e. valid_event url e \<and> c = ne_cursor e \<and> t = event_json e)
     \<and> (\<forall>t \<in> set (ss_truncations s). tr_reason t \<in> set TRUNCATION_REASONS)"

definition sqlite_view :: "sqlite_store \<Rightarrow> journal" where
  "sqlite_view s = \<lparr>j_node = sqlite_cursorValue ''node_cursor'' s, j_acked = sqlite_cursorValue ''acked_cursor'' s,
     j_events = map (\<lambda>row. event_of_json (snd row)) (ss_node_events s),
     j_answers = ss_offer_answers s, j_truncations = ss_truncations s\<rparr>"

lemma sqlite_row:
  assumes "sqlite_good url s" and "row \<in> set (ss_node_events s)"
  shows "fst row = ne_cursor (event_of_json (snd row))"
    "\<exists>j. parse url NodeEventSchema (snd row) = Some j \<and> event_of_json j = event_of_json (snd row)"
proof -
  obtain c t where row: "row = (c, t)" by (cases row)
  with assms obtain e where e: "valid_event url e" "fst row = ne_cursor e" "snd row = event_json e"
    unfolding sqlite_good_def by auto
  show "fst row = ne_cursor (event_of_json (snd row))" using e(2,3) by (simp add: event_roundtrip_raw)
  from e(1) obtain j where j: "parse url NodeEventSchema (snd row) = Some j" by (auto simp: valid_event_def e(3))
  then show "\<exists>j. parse url NodeEventSchema (snd row) = Some j \<and> event_of_json j = event_of_json (snd row)"
    using event_roundtrip [of url e] by (simp add: e(3) event_roundtrip_raw)
qed

lemma read_rows:
  "(\<And>row. row \<in> set rows \<Longrightarrow> \<exists>j. parse url NodeEventSchema (snd row) = Some j \<and> event_of_json j = event_of_json (snd row)) \<Longrightarrow>
   foldEach rows (\<lambda>row acc. case parse url NodeEventSchema (snd row) of
       None \<Rightarrow> fail (InvalidEvent (snd row)) | Some j \<Rightarrow> ok (acc @ [event_of_json j])) acc s
   = (Inr (acc @ map (\<lambda>row. event_of_json (snd row)) rows), s)"
proof (induction rows arbitrary: acc)
  case (Cons row rows)
  from Cons.prems [of row] obtain j where "parse url NodeEventSchema (snd row) = Some j" "event_of_json j = event_of_json (snd row)"
    by auto
  with Cons show ?case by (simp add: andThen_def ok_def)
qed (simp add: ok_def)

lemma read_truncations:
  "\<forall>t \<in> set rows. tr_reason t \<in> set TRUNCATION_REASONS \<Longrightarrow>
   foldEach rows (\<lambda>row acc. andThen (lift_res (asTruncationReason (tr_reason row)))
     (\<lambda>reason. ok (acc @ [row\<lparr>tr_reason := reason\<rparr>]))) acc s = (Inr (acc @ rows), s)"
  by (induction rows arbitrary: acc) (simp_all add: andThen_def ok_def lift_res_def asTruncationReason_def)

lemma insort_rows:
  assumes "\<forall>row \<in> set rows. fst row = ne_cursor (g row)" and "g (c, t) = e" and "ne_cursor e = c"
  shows "map g (insort_key fst (c, t) rows) = insort_key ne_cursor e (map g rows)"
  using assms by (induction rows) auto

lemma sorted_insort_fresh:
  "sorted_wrt (<) (map f xs) \<Longrightarrow> f x \<notin> f ` set xs \<Longrightarrow> sorted_wrt (<) (map f (insort_key f x xs))"
  for f :: "'a \<Rightarrow> 'b :: linorder"
  by (induction xs) (auto simp: set_insort_key)

lemma sorted_insert_fresh:
  fixes f :: "'a \<Rightarrow> 'b :: linorder"
  assumes "sorted_wrt (<) (map f xs)" and "f x \<notin> f ` set xs"
  shows "sorted_wrt (<) (map f (insort_key f x xs))"
  using assms by (induction xs) (auto simp: set_insort_key)

lemma sorted_filter_map: "sorted_wrt (<) (map f xs) \<Longrightarrow> sorted_wrt (<) (map f (filter P xs))"
  by (induction xs) auto

lemmas sqlite_defs = SqliteNodeStateStore_def sqlite_view_def sqlite_cursorValue_def sqlite_upsertCursor_def eff_simps

lemma sqlite_has_cursor:
  assumes "sqlite_good url s"
  shows "has_cursor c (sqlite_view s) \<longleftrightarrow> c \<in> fst ` set (ss_node_events s)"
  using sqlite_row(1) [OF assms] by (auto simp: has_cursor_def sqlite_view_def image_image image_iff)

lemma sqlite_insert:
  assumes "sqlite_good url s" "valid_event url e" "\<not> has_cursor (ne_cursor e) (sqlite_view s)"
  obtains s' where "sqlite_insertEvent (ne_cursor e) (event_json e) s = (Inr (), s')" "sqlite_good url s'"
    "sqlite_view s' = insert_event e (sqlite_view s)" "ss_node_cursors s' = ss_node_cursors s"
proof
  let ?s = "s\<lparr>ss_node_events := insort_key fst (ne_cursor e, event_json e) (ss_node_events s)\<rparr>"
  have fresh: "ne_cursor e \<notin> fst ` set (ss_node_events s)" using assms(1,3) by (simp add: sqlite_has_cursor)
  have "ss_node_events_update (insort_key fst (ne_cursor e, event_json e)) s = ?s" by (cases s) simp
  with fresh show "sqlite_insertEvent (ne_cursor e) (event_json e) s = (Inr (), ?s)"
    by (simp add: sqlite_insertEvent_def andThen_def query_def require_def update_def)
  show "sqlite_good url ?s"
    using assms(1,2) fresh sorted_insert_fresh [of fst "ss_node_events s" "(ne_cursor e, event_json e)"]
    by (auto simp: sqlite_good_def set_insort_key)
  have "map (\<lambda>row. event_of_json (snd row)) (insort_key fst (ne_cursor e, event_json e) (ss_node_events s))
    = insort_key ne_cursor e (map (\<lambda>row. event_of_json (snd row)) (ss_node_events s))"
    using sqlite_row(1) [OF assms(1)] by (intro insort_rows) (auto simp: event_roundtrip_raw)
  then show "sqlite_view ?s = insert_event e (sqlite_view s)"
    by (simp add: sqlite_view_def insert_event_def sqlite_cursorValue_def)
qed simp

lemma sqlite_filter:
  assumes "sqlite_good url s" and "\<And>row. row \<in> set (ss_node_events s) \<Longrightarrow> P row = Q (event_of_json (snd row))"
  shows "commits (sqlite_good url) sqlite_view (update (ss_node_events_update (filter P))) s
    ((sqlite_view s)\<lparr>j_events := filter Q (j_events (sqlite_view s))\<rparr>)"
proof -
  let ?s = "s\<lparr>ss_node_events := filter P (ss_node_events s)\<rparr>"
  have "update (ss_node_events_update (filter P)) s = (Inr (), ?s)" by (cases s) (simp add: update_def)
  moreover have "sqlite_good url ?s" using assms(1) by (auto simp: sqlite_good_def sorted_filter_map)
  moreover have "filter P (ss_node_events s) = filter (Q \<circ> (\<lambda>row. event_of_json (snd row))) (ss_node_events s)"
    using assms(2) by (auto intro: filter_cong)
  then have "sqlite_view ?s = (sqlite_view s)\<lparr>j_events := filter Q (j_events (sqlite_view s))\<rparr>"
    by (simp add: sqlite_view_def sqlite_cursorValue_def filter_map)
  ultimately show ?thesis by (auto simp: commits_def)
qed

interpretation sqlite: node_store "SqliteNodeStateStore url" sqlite_view "sqlite_good url" "valid_event url" for url
proof
  fix s :: sqlite_store and e assume g: "sqlite_good url s"
  have evs: "map ne_cursor (j_events (sqlite_view s)) = map fst (ss_node_events s)"
    using sqlite_row(1) [OF g] by (simp add: sqlite_view_def)
  show "sorted_wrt (<) (map ne_cursor (j_events (sqlite_view s)))"
    using g unfolding evs by (simp add: sqlite_good_def)
  show "eventsAfter (SqliteNodeStateStore url) c s = (Inr (filter (\<lambda>e. c < ne_cursor e) (j_events (sqlite_view s))), s)" for c
  proof -
    have "filter (\<lambda>row. c < fst row) (ss_node_events s) = filter (\<lambda>row. c < ne_cursor (event_of_json (snd row))) (ss_node_events s)"
      using sqlite_row(1) [OF g] by (auto intro: filter_cong)
    moreover have "foldEach (filter (\<lambda>row. c < fst row) (ss_node_events s)) (\<lambda>row acc. case parse url NodeEventSchema (snd row) of
        None \<Rightarrow> fail (InvalidEvent (snd row)) | Some j \<Rightarrow> ok (acc @ [event_of_json j])) [] s
      = (Inr ([] @ map (\<lambda>row. event_of_json (snd row)) (filter (\<lambda>row. c < fst row) (ss_node_events s))), s)"
      by (rule read_rows) (rule sqlite_row(2) [OF g], simp)
    ultimately show ?thesis
      by (simp add: SqliteNodeStateStore_def sqlite_eventsAfter_def andThen_query sqlite_view_def filter_map comp_def)
  qed
  show "loadTruncations (SqliteNodeStateStore url) s = (Inr (j_truncations (sqlite_view s)), s)"
    using g by (simp add: SqliteNodeStateStore_def sqlite_loadTruncations_def andThen_query sqlite_good_def read_truncations sqlite_view_def)
  show "commits (sqlite_good url) sqlite_view (pruneUpTo (SqliteNodeStateStore url) c) s
      ((sqlite_view s)\<lparr>j_events := filter (\<lambda>e. c < ne_cursor e) (j_events (sqlite_view s))\<rparr>)" for c
    using sqlite_row(1) [OF g] by (simp add: SqliteNodeStateStore_def) (rule sqlite_filter [OF g], simp add: not_le)
  show "commits (sqlite_good url) sqlite_view (deleteEventAt (SqliteNodeStateStore url) c) s
      ((sqlite_view s)\<lparr>j_events := filter (\<lambda>e. ne_cursor e \<noteq> c) (j_events (sqlite_view s))\<rparr>)" for c
    using sqlite_row(1) [OF g] by (simp add: SqliteNodeStateStore_def) (rule sqlite_filter [OF g], simp)
  show "\<exists>err. appendEventAndAdvanceCursor (SqliteNodeStateStore url) e s = (Inl err, s)"
    if "ne_cursor e \<noteq> j_node (sqlite_view s) + 1 \<or> has_cursor (ne_cursor e) (sqlite_view s)"
  proof (cases "ne_cursor e = sqlite_cursorValue ''node_cursor'' s + 1")
    case True
    then have "ne_cursor e \<in> fst ` set (ss_node_events s)"
      using that unfolding sqlite_has_cursor [OF g] by (simp add: sqlite_view_def)
    with True show ?thesis
      by (simp add: SqliteNodeStateStore_def sqlite_appendEventAndAdvanceCursor_def sqlite_insertEvent_def eff_simps atomically_def)
  qed (simp add: SqliteNodeStateStore_def sqlite_appendEventAndAdvanceCursor_def eff_simps)
  assume v: "valid_event url e" and f: "\<not> has_cursor (ne_cursor e) (sqlite_view s)"
  from sqlite_insert [OF g v f] obtain s' where s': "sqlite_insertEvent (ne_cursor e) (event_json e) s = (Inr (), s')"
    "sqlite_good url s'" "sqlite_view s' = insert_event e (sqlite_view s)" "ss_node_cursors s' = ss_node_cursors s" .
  show "commits (sqlite_good url) sqlite_view (appendEvent (SqliteNodeStateStore url) e) s (insert_event e (sqlite_view s))"
    using s' by (simp add: commits_def SqliteNodeStateStore_def)
  assume n: "ne_cursor e = j_node (sqlite_view s) + 1"
  define t where "t = s'\<lparr>ss_node_cursors := (ss_node_cursors s')(''node_cursor'' \<mapsto> ne_cursor e)\<rparr>"
  have "ss_node_cursors_update (\<lambda>m. m(''node_cursor'' \<mapsto> ne_cursor e)) s' = t" by (cases s') (simp add: t_def)
  then have "appendEventAndAdvanceCursor (SqliteNodeStateStore url) e s = (Inr (), t)"
    using n s'(1) by (simp add: SqliteNodeStateStore_def sqlite_appendEventAndAdvanceCursor_def andThen_def query_def
      require_def sqlite_view_def atomically_def sqlite_upsertCursor_def update_def)
  moreover have "sqlite_good url t" using s'(2) by (simp add: sqlite_good_def t_def)
  moreover have "sqlite_view t = (sqlite_view s')\<lparr>j_node := ne_cursor e\<rparr>"
    by (simp add: sqlite_view_def t_def sqlite_cursorValue_def)
  ultimately show "commits (sqlite_good url) sqlite_view (appendEventAndAdvanceCursor (SqliteNodeStateStore url) e) s
      ((insert_event e (sqlite_view s))\<lparr>j_node := ne_cursor e\<rparr>)"
    using s'(3) by (simp add: commits_def)
qed (simp_all add: commits_def sqlite_defs sqlite_appendTruncation_def asTruncationReason_def sqlite_good_def ball_Un)

subsection \<open>Sequences of calls\<close>

datatype store_call = CallLoadCursors | CallSetNode int | CallSetAcked int | CallAppend node_event
  | CallAppendAdvance node_event | CallEventsAfter int | CallPrune int | CallDelete int
  | CallSaveAnswer string string json | CallLoadAnswers | CallTruncate truncation | CallLoadTruncations

datatype store_answer = AnsCursors "int \<times> int" | AnsDone unit | AnsEvents "node_event list" | AnsAnswers answers
  | AnsTruncations "truncation list" | AnsRefused

text \<open>The caller sees the value, or that the store threw.\<close>

definition answer_of :: "('a \<Rightarrow> store_answer) \<Rightarrow> ('s \<Rightarrow> (store_error + 'a) \<times> 's) \<Rightarrow> 's \<Rightarrow> store_answer \<times> 's" where
  "answer_of f m s = (case m s of (r, s') \<Rightarrow> (case r of Inl _ \<Rightarrow> AnsRefused | Inr x \<Rightarrow> f x, s'))"

fun call :: "'s node_state_store \<Rightarrow> store_call \<Rightarrow> 's \<Rightarrow> store_answer \<times> 's" where
  "call ops CallLoadCursors = answer_of AnsCursors (loadCursors ops)"
| "call ops (CallSetNode n) = answer_of AnsDone (setNodeCursor ops n)"
| "call ops (CallSetAcked n) = answer_of AnsDone (setAckedCursor ops n)"
| "call ops (CallAppend e) = answer_of AnsDone (appendEvent ops e)"
| "call ops (CallAppendAdvance e) = answer_of AnsDone (appendEventAndAdvanceCursor ops e)"
| "call ops (CallEventsAfter c) = answer_of AnsEvents (eventsAfter ops c)"
| "call ops (CallPrune c) = answer_of AnsDone (pruneUpTo ops c)"
| "call ops (CallDelete c) = answer_of AnsDone (deleteEventAt ops c)"
| "call ops (CallSaveAnswer k ty p) = answer_of AnsDone (saveOfferAnswer ops k ty p)"
| "call ops CallLoadAnswers = answer_of AnsAnswers (loadOfferAnswers ops)"
| "call ops (CallTruncate t) = answer_of AnsDone (appendTruncation ops t)"
| "call ops CallLoadTruncations = answer_of AnsTruncations (loadTruncations ops)"

text \<open>What the calls mean for the journal.\<close>

fun journal_call :: "store_call \<Rightarrow> journal \<Rightarrow> store_answer \<times> journal" where
  "journal_call CallLoadCursors j = (AnsCursors (j_node j, j_acked j), j)"
| "journal_call (CallSetNode n) j = (AnsDone (), j\<lparr>j_node := n\<rparr>)"
| "journal_call (CallSetAcked n) j = (AnsDone (), j\<lparr>j_acked := n\<rparr>)"
| "journal_call (CallAppend e) j = (AnsDone (), insert_event e j)"
| "journal_call (CallAppendAdvance e) j =
     (if ne_cursor e \<noteq> j_node j + 1 \<or> has_cursor (ne_cursor e) j then (AnsRefused, j)
      else (AnsDone (), (insert_event e j)\<lparr>j_node := ne_cursor e\<rparr>))"
| "journal_call (CallEventsAfter c) j = (AnsEvents (filter (\<lambda>e. c < ne_cursor e) (j_events j)), j)"
| "journal_call (CallPrune c) j = (AnsDone (), j\<lparr>j_events := filter (\<lambda>e. c < ne_cursor e) (j_events j)\<rparr>)"
| "journal_call (CallDelete c) j = (AnsDone (), j\<lparr>j_events := filter (\<lambda>e. ne_cursor e \<noteq> c) (j_events j)\<rparr>)"
| "journal_call (CallSaveAnswer k ty p) j = (AnsDone (), j\<lparr>j_answers := (j_answers j)(k \<mapsto> (ty, p))\<rparr>)"
| "journal_call CallLoadAnswers j = (AnsAnswers (j_answers j), j)"
| "journal_call (CallTruncate t) j =
     (if tr_reason t \<in> set TRUNCATION_REASONS then (AnsDone (), j\<lparr>j_truncations := j_truncations j @ [t]\<rparr>) else (AnsRefused, j))"
| "journal_call CallLoadTruncations j = (AnsTruncations (j_truncations j), j)"

text \<open>Events handed to the store fit their schema; \<open>appendEvent\<close> is for a cursor that is not there.\<close>

fun permitted :: "(node_event \<Rightarrow> bool) \<Rightarrow> store_call \<Rightarrow> journal \<Rightarrow> bool" where
  "permitted valid (CallAppend e) j = (valid e \<and> \<not> has_cursor (ne_cursor e) j)"
| "permitted valid (CallAppendAdvance e) j = valid e"
| "permitted valid _ j = True"

primrec calls :: "'s node_state_store \<Rightarrow> store_call list \<Rightarrow> 's \<Rightarrow> store_answer list" where
  "calls ops [] s = []"
| "calls ops (c # cs) s = (case call ops c s of (a, s') \<Rightarrow> a # calls ops cs s')"

primrec journal_calls :: "store_call list \<Rightarrow> journal \<Rightarrow> store_answer list" where
  "journal_calls [] j = []"
| "journal_calls (c # cs) j = (case journal_call c j of (a, j') \<Rightarrow> a # journal_calls cs j')"

primrec permitted_calls :: "(node_event \<Rightarrow> bool) \<Rightarrow> store_call list \<Rightarrow> journal \<Rightarrow> bool" where
  "permitted_calls valid [] j = True"
| "permitted_calls valid (c # cs) j = (permitted valid c j \<and> permitted_calls valid cs (snd (journal_call c j)))"

lemma answer_of_commits:
  "commits good view m s j \<Longrightarrow> \<exists>s'. answer_of AnsDone m s = (AnsDone (), s') \<and> good s' \<and> view s' = j"
  by (auto simp: commits_def answer_of_def)

lemma answer_of_eq: "m s = (Inr x, s') \<Longrightarrow> answer_of f m s = (f x, s')" "m s = (Inl e, s') \<Longrightarrow> answer_of f m s = (AnsRefused, s')"
  by (simp_all add: answer_of_def)

context node_store
begin

lemma call_refines:
  assumes "good s" and "permitted valid c (view s)"
  shows "\<exists>s'. call ops c s = (fst (journal_call c (view s)), s') \<and> good s' \<and> view s' = snd (journal_call c (view s))"
proof (cases c)
  case (CallAppendAdvance e)
  show ?thesis
  proof (cases "ne_cursor e \<noteq> j_node (view s) + 1 \<or> has_cursor (ne_cursor e) (view s)")
    case True
    with append_refused [OF assms(1), of e] CallAppendAdvance assms(1) answer_of_eq(2) show ?thesis by fastforce
  next
    case False
    with answer_of_commits [OF append_advance [OF assms(1)], of e] CallAppendAdvance assms(2) show ?thesis by simp
  qed
next
  case (CallTruncate t)
  show ?thesis
  proof (cases "tr_reason t \<in> set TRUNCATION_REASONS")
    case True
    with answer_of_commits [OF append_truncation [OF assms(1) True]] CallTruncate show ?thesis by simp
  next
    case False
    with truncation_refused [OF assms(1) False] CallTruncate assms(1) show ?thesis by (simp add: answer_of_def)
  qed
next
  case (CallAppend e)
  with answer_of_commits [OF append_event [OF assms(1)], of e] assms(2) show ?thesis by simp
qed (use assms(1) answer_of_commits [OF set_node] answer_of_commits [OF set_acked] answer_of_commits [OF prune]
    answer_of_commits [OF delete_at] answer_of_commits [OF save_answer] answer_of_eq(1) [OF load_cursors]
    answer_of_eq(1) [OF events_after] answer_of_eq(1) [OF load_answers] answer_of_eq(1) [OF load_truncations] in simp_all)

lemma calls_refine:
  "good s \<Longrightarrow> permitted_calls valid cs (view s) \<Longrightarrow> calls ops cs s = journal_calls cs (view s)"
proof (induction cs arbitrary: s)
  case (Cons c cs)
  from Cons.prems(2) have "permitted valid c (view s)" by simp
  from call_refines [OF Cons.prems(1) this] obtain s' where
    s': "call ops c s = (fst (journal_call c (view s)), s')" "good s'" "view s' = snd (journal_call c (view s))" by blast
  from Cons.IH [OF s'(2)] Cons.prems(2) have "calls ops cs s' = journal_calls cs (view s')" by (simp add: s'(3))
  then show ?case by (simp add: s'(1,3) case_prod_unfold)
qed simp

end

definition empty_journal :: journal where
  "empty_journal = \<lparr>j_node = 0, j_acked = 0, j_events = [], j_answers = (\<lambda>_. None), j_truncations = []\<rparr>"

text \<open>
  C17 The in-memory and the SQLite store are interchangeable: starting empty, every sequence of calls gets the
  same answers from both, the answers of the abstract journal. So what is tested on the in-memory store
  holds for the durable one, and a session cannot tell which it runs on.
\<close>
theorem stores_agree:
  assumes "new_sqlite_store None = Inr s0" and "permitted_calls (valid_event url) cs empty_journal"
  shows "calls InMemoryNodeStateStore cs new_memory_store = journal_calls cs empty_journal
    \<and> calls (SqliteNodeStateStore url) cs s0 = journal_calls cs empty_journal"
proof
  have weaken: "permitted_calls valid cs j \<Longrightarrow> permitted_calls (\<lambda>_. True) cs j" for valid j
    by (induction cs arbitrary: j) (auto elim!: permitted.elims)
  have m: "memory_good new_memory_store" "memory_view new_memory_store = empty_journal"
    by (simp_all add: memory_good_def memory_view_def new_memory_store_def empty_journal_def)
  from memory.calls_refine [OF m(1)] weaken [OF assms(2)]
  show "calls InMemoryNodeStateStore cs new_memory_store = journal_calls cs empty_journal" by (simp add: m(2))
  have s: "sqlite_good url s0" "sqlite_view s0 = empty_journal"
    using assms(1) by (auto simp: new_sqlite_store_def sqlite_good_def sqlite_view_def sqlite_cursorValue_def empty_journal_def)
  from sqlite.calls_refine [OF s(1)] assms(2)
  show "calls (SqliteNodeStateStore url) cs s0 = journal_calls cs empty_journal" by (simp add: s(2))
qed

definition example_event :: node_event where
  "example_event = \<lparr>ne_cursor = 1, ne_eventId = example_uuid, ne_kind = ''run.started'', ne_occurredAt = ''2026-01-01T00:00:00Z'',
     ne_data = [], ne_runId = Some example_uuid, ne_taskId = None\<rparr>"

lemma example_event_valid: "valid_event url example_event"
  using example_uuid_ok [of url] example_date_ok
  by (simp add: valid_event_def event_json_def example_event_def opt_field_def NodeEventSchema_def CursorSchema_def
      any_string_def DateTimeSchema_def within_def is_safe_int_def max_safe_int_def)

lemma stores_agree_witness:
  "calls (SqliteNodeStateStore (\<lambda>_. True))
     [CallAppendAdvance example_event, CallAppendAdvance example_event, CallEventsAfter 0, CallPrune 1, CallEventsAfter 0, CallLoadCursors]
     \<lparr>ss_node_events = [], ss_node_cursors = (\<lambda>_. None), ss_offer_answers = (\<lambda>_. None), ss_truncations = [],
       ss_user_version = 1\<rparr>
   = [AnsDone (), AnsRefused, AnsEvents [example_event], AnsDone (), AnsEvents [], AnsCursors (1, 0)]"
proof -
  let ?cs = "[CallAppendAdvance example_event, CallAppendAdvance example_event, CallEventsAfter 0, CallPrune 1, CallEventsAfter 0, CallLoadCursors]"
  have p: "permitted_calls (valid_event (\<lambda>_. True)) ?cs empty_journal" by (simp add: example_event_valid)
  have "journal_calls ?cs empty_journal = [AnsDone (), AnsRefused, AnsEvents [example_event], AnsDone (), AnsEvents [], AnsCursors (1, 0)]"
    by (simp add: empty_journal_def example_event_def insert_event_def has_cursor_def)
  with stores_agree [OF _ p] show ?thesis by (simp add: new_sqlite_store_def SCHEMA_VERSION_def)
qed

end
