(* ===== verification/NodeSession.thy ===== *)
theory NodeSession
  imports NodeStore
begin

text \<open>
  \<open>src/node/session.ts\<close>: the node's side of a federation session, a synchronous state machine over the durable
  store, the execution kernel and the sealed envelopes. One definition per method; \<open>now\<close> is the time in
  milliseconds and the private helpers keep their names.

  What the session gets from outside is the record \<open>session_env\<close>: the store's operations, the options and
  credentials, the platform's functions (digest, signature, dates, random part of a UUID) and the kernel
  behind \<open>KernelBridge\<close>, which keeps a state of its own.
\<close>

subsection \<open>Environment and state\<close>

datatype offer_decision = OfferAccept | OfferDecline string "string option"

datatype session_error = StoreFailed store_error | InvalidPayload string | VerifyThrew | KernelThrew string | OutOfFuel

record ('s, 'k) session_env =
  se_store :: "'s node_state_store"
  se_workspaceId :: string
  se_nodeId :: string
  se_cloudPublicKeyPem :: string
  se_schemaDigest :: string
  se_maxBufferedEvents :: nat
  se_platform :: string
  se_sha :: "string \<Rightarrow> string"
  se_sign :: "string \<Rightarrow> string"
  se_verify :: "string \<Rightarrow> string \<Rightarrow> string \<Rightarrow> bool"
  se_parseDate :: "string \<Rightarrow> int option"
  se_isoDate :: "int \<Rightarrow> string"
  se_url :: "string \<Rightarrow> bool"
  se_why :: "string \<Rightarrow> json \<Rightarrow> string"
  se_uuidV7 :: "nat \<Rightarrow> int \<Rightarrow> string"
  se_decideOffer :: "json \<Rightarrow> (string, 'k, offer_decision) eff"
  se_onReviewDecision :: "(json \<Rightarrow> 'k \<Rightarrow> 'k) option"

text \<open>\<open>sn_uuids\<close> counts the UUIDs drawn; it indexes the supply \<open>se_uuidV7\<close>.\<close>

record ('s, 'k) session =
  sn_store :: 's
  sn_kernel :: 'k
  sn_nodeCursor :: int
  sn_ackedCursor :: int
  sn_offerAnswers :: answers
  sn_sessionId :: string
  sn_epoch :: "int option"
  sn_outSeq :: int
  sn_welcome :: "json option"
  sn_dedup :: dedup_index
  sn_connected :: bool
  sn_uuids :: nat

type_synonym ('s, 'k, 'a) session_op = "(session_error, ('s, 'k) session, 'a) eff"

definition PROTOCOL :: string where
  "PROTOCOL = ''accp/1.0''"

definition PROTECTED_KIND_PREFIXES :: "string list" where
  "PROTECTED_KIND_PREFIXES = [''run.completion'', ''effect.'', ''verification.'']"

definition protected :: "node_event \<Rightarrow> bool" where
  "protected e \<longleftrightarrow> list_ex (\<lambda>p. starts_with p (ne_kind e)) PROTECTED_KIND_PREFIXES"

text \<open>A call of the store; what it throws passes through the session.\<close>

definition store_op :: "(store_error, 's, 'a) eff \<Rightarrow> ('s, 'k, 'a) session_op" where
  "store_op m s = (case m (sn_store s) of (r, st) \<Rightarrow>
     (case r of Inl e \<Rightarrow> (Inl (StoreFailed e), s\<lparr>sn_store := st\<rparr>) | Inr x \<Rightarrow> (Inr x, s\<lparr>sn_store := st\<rparr>)))"

definition new_dedup_index :: dedup_index where
  "new_dedup_index = \<lparr>dd_seen = [], dd_capacity = 10000\<rparr>"

text \<open>The constructor: the cursors and the stored offer answers come from the store.\<close>

definition newSession :: "('s, 'k) session_env \<Rightarrow> 's \<Rightarrow> 'k \<Rightarrow> session_error + ('s, 'k) session" where
  "newSession env st kstate =
     (case loadCursors (se_store env) st of
        (Inl e, _) \<Rightarrow> Inl (StoreFailed e)
      | (Inr (nodeCursor, ackedCursor), st1) \<Rightarrow>
          (case loadOfferAnswers (se_store env) st1 of
             (Inl e, _) \<Rightarrow> Inl (StoreFailed e)
           | (Inr stored, st2) \<Rightarrow> Inr \<lparr>sn_store = st2, sn_kernel = kstate, sn_nodeCursor = nodeCursor, sn_ackedCursor = ackedCursor,
               sn_offerAnswers = stored, sn_sessionId = [], sn_epoch = None, sn_outSeq = 0, sn_welcome = None,
               sn_dedup = new_dedup_index, sn_connected = False, sn_uuids = 0\<rparr>))"

subsection \<open>Sealing\<close>

definition uuid :: "('s, 'k) session_env \<Rightarrow> int \<Rightarrow> ('s, 'k, string) session_op" where
  "uuid env now s = (Inr (se_uuidV7 env (sn_uuids s) now), s\<lparr>sn_uuids := sn_uuids s + 1\<rparr>)"

definition seal :: "('s, 'k) session_env \<Rightarrow> string \<Rightarrow> json \<Rightarrow> int \<Rightarrow> (string \<times> json) list \<Rightarrow> ('s, 'k, json) session_op" where
  "seal env ty payload now extra =
     andThen (update (\<lambda>s. s\<lparr>sn_outSeq := sn_outSeq s + 1\<rparr>)) (\<lambda>_.
     andThen (uuid env now) (\<lambda>messageId.
     query (\<lambda>s. sealEnvelope (se_sha env) (se_sign env)
       ([(''protocol'', JStr PROTOCOL), (''schemaDigest'', JStr (se_schemaDigest env)), (''type'', JStr ty),
         (''messageId'', JStr messageId), (''sessionId'', JStr (sn_sessionId s)),
         (''workspaceId'', JStr (se_workspaceId env)), (''senderId'', JStr (''node:'' @ se_nodeId env)),
         (''sequence'', JNum (sn_outSeq s)), (''sentAt'', JStr (se_isoDate env now)), (''payload'', payload)] @ extra))))"

definition startHandshake :: "('s, 'k) session_env \<Rightarrow> int \<Rightarrow> ('s, 'k, json) session_op" where
  "startHandshake env now =
     andThen (uuid env now) (\<lambda>sessionId.
     andThen (update (\<lambda>s. s\<lparr>sn_sessionId := sessionId, sn_epoch := None, sn_outSeq := 0, sn_welcome := None,
       sn_connected := False, sn_dedup := new_dedup_index\<rparr>)) (\<lambda>_.
     andThen (query sn_nodeCursor) (\<lambda>nodeCursor.
     seal env ''node.hello'' (JObj [
       (''supportedProtocols'', JArr [JStr PROTOCOL]),
       (''schemaBundleDigest'', JStr (se_schemaDigest env)),
       (''nodeVersion'', JStr ''0.1.0-skeleton''),
       (''platform'', JStr (se_platform env)),
       (''adapterManifests'', JArr []),
       (''capabilities'', JArr [JStr ''worktree'']),
       (''capacity'', JObj [(''maxConcurrentRuns'', JNum 1), (''availableRuns'', JNum 1)]),
       (''resume'', JObj [(''cloudCursor'', JNum 0), (''nodeCursor'', JNum nodeCursor)])]) now [])))"

definition disconnect :: "('s, 'k, unit) session_op" where
  "disconnect = update (\<lambda>s. s\<lparr>sn_connected := False, sn_welcome := None, sn_epoch := None\<rparr>)"

subsection \<open>Events\<close>

text \<open>The ranges and runs grow at their end, as the source's arrays do.\<close>

definition extend_range :: "(int \<times> int) list \<Rightarrow> int \<Rightarrow> (int \<times> int) list" where
  "extend_range ranges cursor = (case rev ranges of
     [] \<Rightarrow> ranges @ [(cursor, cursor)]
   | (lo, hi) # _ \<Rightarrow> if cursor = hi + 1 then butlast ranges @ [(lo, cursor)] else ranges @ [(cursor, cursor)])"

definition contiguousRanges :: "int list \<Rightarrow> (int \<times> int) list" where
  "contiguousRanges cursors = foldl extend_range [] (sort (remdups cursors))"

definition extend_run :: "node_event list list \<Rightarrow> node_event \<Rightarrow> node_event list list" where
  "extend_run runs event = (case rev runs of
     [] \<Rightarrow> runs @ [[event]]
   | last_run # _ \<Rightarrow>
       if last_run \<noteq> [] \<and> ne_cursor event = ne_cursor (last last_run) + 1
       then butlast runs @ [last_run @ [event]] else runs @ [[event]])"

definition contiguousEventRuns :: "node_event list \<Rightarrow> node_event list list" where
  "contiguousEventRuns events = foldl extend_run [] events"

text \<open>
  The loop that drops unprotected events. Each round deletes one event, so as many rounds as there are
  unacked events at the start suffice; running out is a failure of its own, shown never to happen.
\<close>

primrec drop_victims :: "('s, 'k) session_env \<Rightarrow> nat \<Rightarrow> node_event list \<Rightarrow> int list \<Rightarrow> ('s, 'k, int list) session_op" where
  "drop_victims env 0 unacked dropped =
     (if se_maxBufferedEvents env < length unacked \<and> find (\<lambda>e. \<not> protected e) unacked \<noteq> None then fail OutOfFuel else ok dropped)"
| "drop_victims env (Suc n) unacked dropped =
     (if length unacked \<le> se_maxBufferedEvents env then ok dropped
      else case find (\<lambda>e. \<not> protected e) unacked of
        None \<Rightarrow> ok dropped
      | Some victim \<Rightarrow>
          andThen (store_op (deleteEventAt (se_store env) (ne_cursor victim))) (\<lambda>_.
          andThen (query sn_ackedCursor) (\<lambda>acked.
          andThen (store_op (eventsAfter (se_store env) acked)) (\<lambda>unacked'.
          drop_victims env n unacked' (dropped @ [ne_cursor victim])))))"

definition enforceBufferBounds :: "('s, 'k) session_env \<Rightarrow> ('s, 'k, unit) session_op" where
  "enforceBufferBounds env =
     andThen (query sn_ackedCursor) (\<lambda>acked.
     andThen (store_op (eventsAfter (se_store env) acked)) (\<lambda>unacked.
     if length unacked \<le> se_maxBufferedEvents env then ok ()
     else andThen (drop_victims env (length unacked) unacked []) (\<lambda>dropped.
       forEach (contiguousRanges dropped) (\<lambda>(fromCursor, toCursor).
         store_op (appendTruncation (se_store env)
           \<lparr>tr_fromCursor = fromCursor, tr_toCursor = toCursor, tr_reason = ''BUFFER_BYTES''\<rparr>)))))"

definition emitEvent ::
  "('s, 'k) session_env \<Rightarrow> string \<Rightarrow> (string \<times> json) list \<Rightarrow> string option \<Rightarrow> string option \<Rightarrow> int \<Rightarrow> ('s, 'k, node_event) session_op" where
  "emitEvent env kind data runId taskId now =
     andThen (query (\<lambda>s. sn_nodeCursor s + 1)) (\<lambda>cursor.
     andThen (uuid env now) (\<lambda>eventId.
     let event = \<lparr>ne_cursor = cursor, ne_eventId = eventId, ne_kind = kind, ne_occurredAt = se_isoDate env now,
           ne_data = data, ne_runId = runId, ne_taskId = taskId\<rparr> in
     andThen (store_op (appendEventAndAdvanceCursor (se_store env) event)) (\<lambda>_.
     andThen (update (\<lambda>s. s\<lparr>sn_nodeCursor := cursor\<rparr>)) (\<lambda>_.
     andThen (enforceBufferBounds env) (\<lambda>_.
     ok event)))))"

subsection \<open>Flushing\<close>

definition limit_of :: "string \<Rightarrow> json \<Rightarrow> int" where
  "limit_of k welcome = (case json_field ''limits'' welcome of Some limits \<Rightarrow> json_int (json_field k limits) | None \<Rightarrow> 0)"

text \<open>\<open>run.slice(i, i + size)\<close> for \<open>i = 0, size, 2 * size, ...\<close>; the schema makes \<open>size\<close> positive.\<close>

function chunks :: "nat \<Rightarrow> 'a list \<Rightarrow> 'a list list" where
  "chunks n xs = (if xs = [] \<or> n = 0 then [] else take n xs # chunks n (drop n xs))"
  by auto
termination by (relation "measure (\<lambda>(n, xs). length xs)") auto

declare chunks.simps [simp del]

primrec send_batches :: "('s, 'k) session_env \<Rightarrow> int \<Rightarrow> int \<Rightarrow> node_event list list \<Rightarrow> json list \<Rightarrow> ('s, 'k, json list) session_op" where
  "send_batches env now maxUnacked [] out = ok out"
| "send_batches env now maxUnacked (evs # batches) out =
     andThen (uuid env now) (\<lambda>batchId.
     andThen (store_op (loadTruncations (se_store env))) (\<lambda>truncs.
     andThen (seal env ''run.event_batch'' (JObj [
       (''batchId'', JStr batchId),
       (''firstCursor'', JNum (ne_cursor (hd evs))),
       (''lastCursor'', JNum (ne_cursor (last evs))),
       (''events'', JArr (map event_json evs)),
       (''truncatedPendingReconcile'', JBool (truncs \<noteq> []))]) now []) (\<lambda>envelope.
     if maxUnacked \<le> int (length (out @ [envelope])) then ok (out @ [envelope])
     else send_batches env now maxUnacked batches (out @ [envelope]))))"

definition flush :: "('s, 'k) session_env \<Rightarrow> int \<Rightarrow> int option \<Rightarrow> ('s, 'k, json list) session_op" where
  "flush env now fromCursor =
     andThen (query (\<lambda>s. (sn_connected s, sn_welcome s, sn_ackedCursor s))) (\<lambda>(connected, welcome, acked).
     case welcome of
       None \<Rightarrow> ok []
     | Some w \<Rightarrow>
         if \<not> connected then ok []
         else
           andThen (store_op (eventsAfter (se_store env) (case fromCursor of None \<Rightarrow> acked | Some c \<Rightarrow> c))) (\<lambda>pending.
           send_batches env now (limit_of ''maxUnackedBatches'' w)
             (concat (map (chunks (nat (limit_of ''maxEventsPerBatch'' w))) (contiguousEventRuns pending))) []))"

subsection \<open>Messages out\<close>

definition completion_key :: "json \<Rightarrow> string" where
  "completion_key completion = ''completion:'' @ str_field ''runId'' completion @ '':'' @ str_field ''completionDigest'' completion"

definition proposeCompletion :: "('s, 'k) session_env \<Rightarrow> json \<Rightarrow> int \<Rightarrow> ('s, 'k, json) session_op" where
  "proposeCompletion env payload now =
     andThen (orThrow (InvalidPayload ''run.completion_proposed'') (parsePayload (se_url env) ''run.completion_proposed'' payload)) (\<lambda>completion.
     seal env ''run.completion_proposed'' completion now [(''idempotencyKey'', JStr (completion_key completion))])"

definition truncation_json :: "truncation \<Rightarrow> json" where
  "truncation_json t = JObj [(''fromCursor'', JNum (tr_fromCursor t)), (''toCursor'', JNum (tr_toCursor t)), (''reason'', JStr (tr_reason t))]"

definition reconcileSummary :: "('s, 'k) session_env \<Rightarrow> int \<Rightarrow> ('s, 'k, json) session_op" where
  "reconcileSummary env now =
     andThen (store_op (loadTruncations (se_store env))) (\<lambda>truncs.
     andThen (query sn_nodeCursor) (\<lambda>nodeCursor.
     seal env ''reconcile.summary'' (JObj [
       (''nodeCursor'', JNum nodeCursor), (''cloudCursorApplied'', JNum 0), (''activeLeases'', JArr []),
       (''unknownRuns'', JArr []), (''artifactManifestDigests'', JArr []),
       (''truncations'', JArr (map truncation_json truncs))]) now []))"

subsection \<open>Messages in\<close>

text \<open>\<open>String(value)\<close> of a JSON value.\<close>

fun js_String :: "json \<Rightarrow> string" where
  "js_String JNull = ''null''"
| "js_String (JBool b) = (if b then ''true'' else ''false'')"
| "js_String (JNum n) = show_int n"
| "js_String (JStr s) = s"
| "js_String (JArr xs) = join '','' (map (\<lambda>x. case x of JNull \<Rightarrow> [] | _ \<Rightarrow> js_String x) xs)"
| "js_String (JObj kvs) = ''[object Object]''"

fun code_name :: "verify_code \<Rightarrow> string" where
  "code_name SchemaViolation = ''SCHEMA_VIOLATION''"
| "code_name UnknownType = ''UNKNOWN_TYPE''"
| "code_name SignatureInvalid = ''SIGNATURE_INVALID''"
| "code_name ClockSkewExceeded = ''CLOCK_SKEW_EXCEEDED''"
| "code_name Expired = ''EXPIRED''"

definition nack :: "('s, 'k) session_env \<Rightarrow> int \<Rightarrow> string \<Rightarrow> string \<Rightarrow> bool \<Rightarrow> string option \<Rightarrow> ('s, 'k, json list) session_op" where
  "nack env now nackFor code retryable detail =
     andThen (seal env ''message.nack'' (JObj ([(''nackFor'', JStr nackFor), (''code'', JStr code), (''retryable'', JBool retryable)]
       @ opt_field ''detail'' detail)) now []) (\<lambda>envelope. ok [envelope])"

definition ack :: "('s, 'k) session_env \<Rightarrow> int \<Rightarrow> string \<Rightarrow> ('s, 'k, json list) session_op" where
  "ack env now messageId =
     andThen (seal env ''message.ack'' (JObj [(''ackFor'', JStr messageId)]) now []) (\<lambda>envelope. ok [envelope])"

definition isExpectedCloudEnvelope :: "('s, 'k) session_env \<Rightarrow> ('s, 'k) session \<Rightarrow> json \<Rightarrow> bool" where
  "isExpectedCloudEnvelope env s envelope \<longleftrightarrow> str_field ''protocol'' envelope = PROTOCOL
     \<and> str_field ''senderId'' envelope = ''cloud'' \<and> str_field ''workspaceId'' envelope = se_workspaceId env
     \<and> str_field ''sessionId'' envelope = sn_sessionId s"

definition check_duplicate :: "string \<Rightarrow> ('s, 'k, bool) session_op" where
  "check_duplicate messageId s = (case dedup_check messageId (sn_dedup s) of (dup, d) \<Rightarrow> (Inr dup, s\<lparr>sn_dedup := d\<rparr>))"

definition receive_welcome :: "('s, 'k) session_env \<Rightarrow> json \<Rightarrow> int \<Rightarrow> ('s, 'k, json list) session_op" where
  "receive_welcome env welcome now =
     (let connectionEpoch = json_int (json_field ''connectionEpoch'' welcome) in
      andThen (query sn_epoch) (\<lambda>epoch.
      if (case epoch of None \<Rightarrow> False | Some e \<Rightarrow> connectionEpoch < e)
      then andThen disconnect (\<lambda>_. ok [])
      else
        andThen (update (\<lambda>s. s\<lparr>sn_welcome := Some welcome, sn_epoch := Some connectionEpoch, sn_connected := True\<rparr>)) (\<lambda>_.
        andThen (flush env now (Some (json_int (json_field ''nodeCursorAck'' welcome)))) (\<lambda>replays.
        andThen (store_op (loadTruncations (se_store env))) (\<lambda>truncs.
        andThen (if truncs \<noteq> [] then andThen (reconcileSummary env now) (\<lambda>e. ok [e]) else ok []) (\<lambda>summary.
        ok (summary @ replays)))))))"

definition receive_ack :: "('s, 'k) session_env \<Rightarrow> json \<Rightarrow> ('s, 'k, json list) session_op" where
  "receive_ack env message = (case json_field ''cursorAck'' message of
     None \<Rightarrow> ok []
   | Some cursorAck \<Rightarrow>
       andThen (query (\<lambda>s. max (sn_ackedCursor s) (json_int (json_field ''highestContiguousCursor'' cursorAck)))) (\<lambda>acked.
       andThen (update (\<lambda>s. s\<lparr>sn_ackedCursor := acked\<rparr>)) (\<lambda>_.
       andThen (store_op (setAckedCursor (se_store env) acked)) (\<lambda>_.
       andThen (store_op (pruneUpTo (se_store env) acked)) (\<lambda>_.
       ok [])))))"

definition answer_payload :: "('s, 'k) session_env \<Rightarrow> json \<Rightarrow> offer_decision \<Rightarrow> int \<Rightarrow> string \<times> json" where
  "answer_payload env offer decision now =
     (let field = (\<lambda>outer k. case json_field outer offer of Some v \<Rightarrow> JStr (str_field k v) | None \<Rightarrow> JNull);
          base = [(''taskId'', JStr (str_field ''taskId'' offer)), (''runId'', JStr (str_field ''runId'' offer)),
                  (''leaseId'', field ''lease'' ''leaseId'')]
      in case decision of
        OfferAccept \<Rightarrow> (''work.accepted'', JObj (base @ [(''persistedAt'', JStr (se_isoDate env now)),
          (''planRevisionDigest'', field ''planRevision'' ''digest'')]))
      | OfferDecline reason detail \<Rightarrow> (''work.declined'', JObj (base @ [(''reason'', JStr reason)] @ opt_field ''detail'' detail)))"

definition decide_offer :: "('s, 'k) session_env \<Rightarrow> json \<Rightarrow> ('s, 'k, offer_decision) session_op" where
  "decide_offer env offer s = (case se_decideOffer env offer (sn_kernel s) of (r, kstate) \<Rightarrow>
     (case r of Inl e \<Rightarrow> (Inl (KernelThrew e), s\<lparr>sn_kernel := kstate\<rparr>) | Inr d \<Rightarrow> (Inr d, s\<lparr>sn_kernel := kstate\<rparr>)))"

definition send_answer :: "('s, 'k) session_env \<Rightarrow> int \<Rightarrow> string \<Rightarrow> string \<Rightarrow> string \<times> json \<Rightarrow> ('s, 'k, json list) session_op" where
  "send_answer env now idem messageId answer =
     andThen (seal env (fst answer) (snd answer) now [(''idempotencyKey'', JStr idem), (''causationId'', JStr messageId)])
       (\<lambda>envelope. ok [envelope])"

definition receive_offer :: "('s, 'k) session_env \<Rightarrow> json \<Rightarrow> string \<Rightarrow> string \<Rightarrow> int \<Rightarrow> ('s, 'k, json list) session_op" where
  "receive_offer env offer idem messageId now =
     andThen (query (\<lambda>s. sn_offerAnswers s idem)) (\<lambda>answered.
     case (case answered of Some a \<Rightarrow> if isAccpMessageType (fst a) then Some a else None | None \<Rightarrow> None) of
       Some a \<Rightarrow> send_answer env now idem messageId a
     | None \<Rightarrow>
         andThen (decide_offer env offer) (\<lambda>decision.
         let answer = answer_payload env offer decision now in
         andThen (update (\<lambda>s. s\<lparr>sn_offerAnswers := (sn_offerAnswers s)(idem \<mapsto> answer)\<rparr>)) (\<lambda>_.
         andThen (store_op (saveOfferAnswer (se_store env) idem (fst answer) (snd answer))) (\<lambda>_.
         send_answer env now idem messageId answer))))"

definition receive_review :: "('s, 'k) session_env \<Rightarrow> json \<Rightarrow> string \<Rightarrow> int \<Rightarrow> ('s, 'k, json list) session_op" where
  "receive_review env decision messageId now =
     andThen (update (\<lambda>s. case se_onReviewDecision env of None \<Rightarrow> s | Some f \<Rightarrow> s\<lparr>sn_kernel := f decision (sn_kernel s)\<rparr>)) (\<lambda>_.
     ack env now messageId)"

text \<open>The body of \<open>switch (envelope.type)\<close>; each case parses the payload of its type.\<close>

definition dispatch :: "('s, 'k) session_env \<Rightarrow> json \<Rightarrow> int \<Rightarrow> ('s, 'k, json list) session_op" where
  "dispatch env envelope now =
     (let ty = str_field ''type'' envelope; messageId = str_field ''messageId'' envelope;
          payload = orThrow (InvalidPayload ty) (Option.bind (json_field ''payload'' envelope) (parsePayload (se_url env) ty))
      in
      if ty = ''node.welcome'' then andThen payload (\<lambda>welcome. receive_welcome env welcome now)
      else if ty = ''message.ack'' then andThen payload (receive_ack env)
      else if ty = ''work.offer'' then
        andThen payload (\<lambda>offer. receive_offer env offer (str_field ''idempotencyKey'' envelope) messageId now)
      else if ty = ''review.decision'' then andThen payload (\<lambda>decision. receive_review env decision messageId now)
      else if ty \<in> {''run.completion_accepted'', ''lease.renewed'', ''lease.revoked'', ''run.cancel_requested'', ''reconcile.request''}
      then ack env now messageId
      else nack env now messageId ''UNKNOWN_TYPE'' False None)"

definition raw_messageId :: "json \<Rightarrow> string option" where
  "raw_messageId raw = (case raw of JObj _ \<Rightarrow> map_option js_String (json_field ''messageId'' raw) | _ \<Rightarrow> None)"

definition receive :: "('s, 'k) session_env \<Rightarrow> json \<Rightarrow> int \<Rightarrow> ('s, 'k, json list) session_op" where
  "receive env raw now =
     (case verifySealedEnvelope (se_url env) (se_why env) (se_sha env) (se_verify env) (se_parseDate env) raw (se_cloudPublicKeyPem env) now of
        VerifyThrows \<Rightarrow> fail VerifyThrew
      | VerifyFail code detail \<Rightarrow>
          (case raw_messageId raw of
             None \<Rightarrow> ok []
           | Some messageId \<Rightarrow>
               if code = SignatureInvalid then ok []
               else nack env now messageId (code_name code) (code = Expired) detail)
      | VerifyOk envelope _ \<Rightarrow>
          andThen (query (\<lambda>s. isExpectedCloudEnvelope env s envelope)) (\<lambda>expected.
          if \<not> expected
          then nack env now (str_field ''messageId'' envelope) ''SCHEMA_VIOLATION'' False
                 (Some ''unexpected protocol, sender, workspace, or node session'')
          else
            andThen (check_duplicate (str_field ''messageId'' envelope)) (\<lambda>dup.
            if dup then ok [] else dispatch env envelope now)))"

end
