(* ===== verification/NodeEvents.thy ===== *)
theory NodeEvents
  imports NodeSession
begin

text \<open>
  The event buffer of a node session: the session's invariant, the ranges of dropped cursors and what
  \<open>emitEvent\<close> does to the journal, over any store that keeps the contract \<open>node_store\<close>.
\<close>

subsection \<open>The invariant\<close>

text \<open>
  The cached cursors and answers are those of the store, no event is ahead of the node cursor, and no
  event is lost silently: every cursor handed out is still in the journal, acknowledged, or inside a
  truncation record.
\<close>

definition accounted :: "journal \<Rightarrow> bool" where
  "accounted j \<longleftrightarrow> (\<forall>c \<in> {1..j_node j}. has_cursor c j \<or> c \<le> j_acked j
     \<or> list_ex (\<lambda>t. tr_fromCursor t \<le> c \<and> c \<le> tr_toCursor t) (j_truncations j))"

definition session_ok :: "('s \<Rightarrow> bool) \<Rightarrow> ('s \<Rightarrow> journal) \<Rightarrow> ('s, 'k) session \<Rightarrow> bool" where
  "session_ok good view s \<longleftrightarrow> good (sn_store s) \<and> (let j = view (sn_store s) in
     j_node j = sn_nodeCursor s \<and> j_acked j = sn_ackedCursor s \<and> j_answers j = sn_offerAnswers s
     \<and> (\<forall>e \<in> set (j_events j). ne_cursor e \<le> j_node j) \<and> accounted j)"

lemma session_okD:
  assumes "session_ok good view s"
  shows "good (sn_store s)" "j_node (view (sn_store s)) = sn_nodeCursor s" "j_acked (view (sn_store s)) = sn_ackedCursor s"
    "j_answers (view (sn_store s)) = sn_offerAnswers s"
    "e \<in> set (j_events (view (sn_store s))) \<Longrightarrow> ne_cursor e \<le> sn_nodeCursor s" "accounted (view (sn_store s))"
  using assms by (auto simp: session_ok_def Let_def)

lemma session_ok_cong:
  "sn_store s' = sn_store s \<Longrightarrow> sn_nodeCursor s' = sn_nodeCursor s \<Longrightarrow> sn_ackedCursor s' = sn_ackedCursor s \<Longrightarrow>
   sn_offerAnswers s' = sn_offerAnswers s \<Longrightarrow> session_ok good view s' = session_ok good view s"
  by (simp add: session_ok_def)

subsection \<open>Ranges\<close>

definition covered :: "(int \<times> int) list \<Rightarrow> int set" where
  "covered ranges = (\<Union>(lo, hi) \<in> set ranges. {lo..hi})"

text \<open>Ascending, non-empty ranges with a gap between neighbours.\<close>

fun separated :: "(int \<times> int) list \<Rightarrow> bool" where
  "separated [] = True"
| "separated [(lo, hi)] = (lo \<le> hi)"
| "separated ((lo, hi) # (lo', hi') # rs) = (lo \<le> hi \<and> hi + 1 < lo' \<and> separated ((lo', hi') # rs))"

lemma separated_snoc:
  "separated (rs @ [(lo, hi)]) \<longleftrightarrow> separated rs \<and> lo \<le> hi \<and> (rs = [] \<or> snd (last rs) + 1 < lo)"
  by (induction rs rule: separated.induct) auto

lemma extend_range_snoc:
  "extend_range [] c = [(c, c)]"
  "extend_range (rs @ [(lo, hi)]) c = (if c = hi + 1 then rs @ [(lo, c)] else rs @ [(lo, hi), (c, c)])"
  by (simp_all add: extend_range_def)

lemma extend_range_step:
  assumes "separated rs" and "rs \<noteq> [] \<Longrightarrow> snd (last rs) < c"
  shows "separated (extend_range rs c) \<and> covered (extend_range rs c) = insert c (covered rs)
    \<and> extend_range rs c \<noteq> [] \<and> snd (last (extend_range rs c)) = c"
proof (cases rs rule: rev_cases)
  case Nil
  then show ?thesis by (simp add: extend_range_snoc covered_def)
next
  case (snoc ys r)
  obtain lo hi where r: "r = (lo, hi)" by (cases r)
  have s: "separated ys" "lo \<le> hi" "ys = [] \<or> snd (last ys) + 1 < lo" "hi < c"
    using assms by (auto simp: snoc r separated_snoc)
  show ?thesis
  proof (cases "c = hi + 1")
    case True
    have "{lo..c} = insert c {lo..hi}" using True s(2) by auto
    with True s show ?thesis by (auto simp: snoc r extend_range_snoc separated_snoc covered_def)
  next
    case False
    have "separated ((ys @ [(lo, hi)]) @ [(c, c)])" using s False by (simp only: separated_snoc) simp
    with False show ?thesis by (auto simp: snoc r extend_range_snoc covered_def)
  qed
qed

lemma foldl_extend_range:
  "sorted_wrt (<) cs \<Longrightarrow> separated rs \<Longrightarrow> (\<And>c. rs \<noteq> [] \<Longrightarrow> c \<in> set cs \<Longrightarrow> snd (last rs) < c) \<Longrightarrow>
   separated (foldl extend_range rs cs) \<and> covered (foldl extend_range rs cs) = set cs \<union> covered rs"
proof (induction cs arbitrary: rs)
  case (Cons c cs)
  have "rs \<noteq> [] \<Longrightarrow> snd (last rs) < c" using Cons.prems(3) by simp
  from extend_range_step [OF Cons.prems(2) this]
  have e: "separated (extend_range rs c)" "covered (extend_range rs c) = insert c (covered rs)"
    "snd (last (extend_range rs c)) = c" by blast+
  have "separated (foldl extend_range (extend_range rs c) cs)
    \<and> covered (foldl extend_range (extend_range rs c) cs) = set cs \<union> covered (extend_range rs c)"
    using Cons.prems(1) e by (intro Cons.IH) auto
  with e show ?case by auto
qed simp

text \<open>The ranges list exactly the cursors, ascending and merged as far as they go.\<close>

lemma contiguousRanges_exact: "separated (contiguousRanges cs) \<and> covered (contiguousRanges cs) = set cs"
proof -
  have "sorted_wrt (<) (sort (remdups cs))" by (simp add: strict_sorted_iff)
  from foldl_extend_range [OF this, of "[]"] show ?thesis by (simp add: contiguousRanges_def covered_def)
qed

subsection \<open>Dropping events\<close>

definition unacked_of :: "journal \<Rightarrow> node_event list" where
  "unacked_of j = filter (\<lambda>e. j_acked j < ne_cursor e) (j_events j)"

definition victims :: "nat \<Rightarrow> node_event list \<Rightarrow> node_event list" where
  "victims bound unacked = take (length unacked - bound) (filter (\<lambda>e. \<not> protected e) unacked)"

definition without :: "int set \<Rightarrow> journal \<Rightarrow> journal" where
  "without cs j = j\<lparr>j_events := filter (\<lambda>e. ne_cursor e \<notin> cs) (j_events j)\<rparr>"

lemma without_empty [simp]: "without {} j = j"
  by (simp add: without_def)

lemma without_without: "without A (without B j) = without (A \<union> B) j"
  by (simp add: without_def conj_commute)

lemma sorted_cursor_distinct: "sorted_wrt (<) (map ne_cursor es) \<Longrightarrow> distinct (map ne_cursor es)"
  by (simp add: strict_sorted_iff)

lemma remove_victim:
  assumes "sorted_wrt (<) (map ne_cursor es)" and "find (\<lambda>e. \<not> protected e) es = Some v"
  defines "es' \<equiv> filter (\<lambda>e. ne_cursor e \<noteq> ne_cursor v) es"
  shows "length es = Suc (length es')" "filter (\<lambda>e. \<not> protected e) es = v # filter (\<lambda>e. \<not> protected e) es'"
proof -
  have "length es = Suc (length es') \<and> filter (\<lambda>e. \<not> protected e) es = v # filter (\<lambda>e. \<not> protected e) es'"
    using assms(1,2) unfolding es'_def
  proof (induction es)
    case (Cons e es)
    show ?case
    proof (cases "protected e")
      case False
      then have "v = e" "filter (\<lambda>x. ne_cursor x \<noteq> ne_cursor e) es = es" using Cons.prems by (auto simp: filter_id_conv)
      with False show ?thesis by simp
    next
      case True
      with Cons.prems have f: "find (\<lambda>e. \<not> protected e) es = Some v" "sorted_wrt (<) (map ne_cursor es)" by simp_all
      then have "v \<in> set es" by (auto simp: find_Some_iff)
      with Cons.prems(1) have "ne_cursor e \<noteq> ne_cursor v" by auto
      with True Cons.IH [OF f(2,1)] show ?thesis by simp
    qed
  qed simp
  then show "length es = Suc (length es')" "filter (\<lambda>e. \<not> protected e) es = v # filter (\<lambda>e. \<not> protected e) es'" by simp_all
qed

lemma store_op_commits:
  "commits good view m (sn_store s) j \<Longrightarrow> \<exists>st. store_op m s = (Inr (), s\<lparr>sn_store := st\<rparr>) \<and> good st \<and> view st = j"
  by (auto simp: commits_def store_op_def)

lemma store_op_reads: "m (sn_store s) = (Inr x, sn_store s) \<Longrightarrow> store_op m s = (Inr x, s)"
  by (simp add: store_op_def)

definition buffer_truncation :: "int \<times> int \<Rightarrow> truncation" where
  "buffer_truncation r = \<lparr>tr_fromCursor = fst r, tr_toCursor = snd r, tr_reason = ''BUFFER_BYTES''\<rparr>"

text \<open>What the overflow policy does to a journal.\<close>

definition bounded_journal :: "nat \<Rightarrow> journal \<Rightarrow> journal" where
  "bounded_journal bound j = (let cs = map ne_cursor (victims bound (unacked_of j)) in
     (without (set cs) j)\<lparr>j_truncations := j_truncations j @ map buffer_truncation (contiguousRanges cs)\<rparr>)"

context node_store
begin

lemma drop_victims_run:
  assumes "se_store env = ops"
  shows "good (sn_store s) \<Longrightarrow> j_acked (view (sn_store s)) = sn_ackedCursor s \<Longrightarrow> unacked = unacked_of (view (sn_store s)) \<Longrightarrow>
   length unacked \<le> n \<Longrightarrow>
   \<exists>st. drop_victims env n unacked dropped s
        = (Inr (dropped @ map ne_cursor (victims (se_maxBufferedEvents env) unacked)), s\<lparr>sn_store := st\<rparr>)
     \<and> good st \<and> view st = without (ne_cursor ` set (victims (se_maxBufferedEvents env) unacked)) (view (sn_store s))"
proof (induction n arbitrary: s unacked dropped)
  case 0
  then have "unacked = []" by simp
  with 0 show ?case by (auto simp: ok_def victims_def intro!: exI [of _ "sn_store s"])
next
  case (Suc n)
  let ?st = "sn_store s" and ?max = "se_maxBufferedEvents env"
  show ?case
  proof (cases "length unacked \<le> ?max \<or> find (\<lambda>e. \<not> protected e) unacked = None")
    case True
    then have "victims ?max unacked = []" by (auto simp: victims_def find_None_iff filter_empty_conv)
    with True Suc.prems show ?thesis by (auto simp: ok_def intro!: exI [of _ ?st])
  next
    case False
    then obtain v where v: "find (\<lambda>e. \<not> protected e) unacked = Some v" and long: "?max < length unacked" by auto
    have asc: "sorted_wrt (<) (map ne_cursor unacked)"
      using sorted_filter_map [OF ascending [OF Suc.prems(1)]] by (simp add: Suc.prems(3) unacked_of_def)
    define es' where "es' = filter (\<lambda>e. ne_cursor e \<noteq> ne_cursor v) unacked"
    note rem = remove_victim [OF asc v, folded es'_def]
    obtain st where st: "store_op (deleteEventAt ops (ne_cursor v)) s = (Inr (), s\<lparr>sn_store := st\<rparr>)" "good st"
      "view st = without {ne_cursor v} (view ?st)"
      using store_op_commits [OF delete_at [OF Suc.prems(1)]] by (auto simp: without_def)
    let ?s = "s\<lparr>sn_store := st\<rparr>"
    have un: "es' = unacked_of (view (sn_store ?s))"
      by (simp add: es'_def Suc.prems(3) unacked_of_def st(3) without_def conj_commute)
    have read: "store_op (eventsAfter ops (sn_ackedCursor ?s)) ?s = (Inr es', ?s)"
      using events_after [OF st(2)] Suc.prems(2) by (intro store_op_reads) (simp add: un unacked_of_def st(3) without_def)
    have len: "length es' \<le> n" using rem(1) Suc.prems(4) by simp
    have "j_acked (view (sn_store ?s)) = sn_ackedCursor ?s" using Suc.prems(2) by (simp add: st(3) without_def)
    from Suc.IH [of ?s es' "dropped @ [ne_cursor v]", OF _ this un len] st(2) obtain st' where st':
      "drop_victims env n es' (dropped @ [ne_cursor v]) ?s
        = (Inr ((dropped @ [ne_cursor v]) @ map ne_cursor (victims ?max es')), s\<lparr>sn_store := st'\<rparr>)"
      "good st'" "view st' = without (ne_cursor ` set (victims ?max es')) (view st)" by auto
    have vs: "victims ?max unacked = v # victims ?max es'"
      using rem long by (simp add: victims_def Suc_diff_le)
    have "drop_victims env (Suc n) unacked dropped s
      = drop_victims env n es' (dropped @ [ne_cursor v]) ?s"
      using long v st(1) read by (simp add: assms andThen_step andThen_query)
    with st' st(3) show ?thesis
      by (intro exI [of _ st']) (simp add: vs without_without insert_commute)
  qed
qed

lemma append_truncations_run:
  assumes "se_store env = ops"
  shows "good (sn_store s) \<Longrightarrow>
   \<exists>st. forEach rs (\<lambda>(fromCursor, toCursor). store_op (appendTruncation (se_store env)
           \<lparr>tr_fromCursor = fromCursor, tr_toCursor = toCursor, tr_reason = ''BUFFER_BYTES''\<rparr>)) s = (Inr (), s\<lparr>sn_store := st\<rparr>)
     \<and> good st \<and> view st = (view (sn_store s))\<lparr>j_truncations := j_truncations (view (sn_store s)) @ map buffer_truncation rs\<rparr>"
proof (induction rs arbitrary: s)
  case (Cons r rs)
  let ?t = "buffer_truncation r"
  have "tr_reason ?t \<in> set TRUNCATION_REASONS" by (simp add: buffer_truncation_def TRUNCATION_REASONS_def)
  from store_op_commits [OF append_truncation [OF Cons.prems this]] obtain st where
    st: "store_op (appendTruncation ops ?t) s = (Inr (), s\<lparr>sn_store := st\<rparr>)" "good st"
      "view st = (view (sn_store s))\<lparr>j_truncations := j_truncations (view (sn_store s)) @ [?t]\<rparr>" by blast
  from Cons.IH [of "s\<lparr>sn_store := st\<rparr>"] st(2) obtain st' where st':
    "forEach rs (\<lambda>(fromCursor, toCursor). store_op (appendTruncation (se_store env)
           \<lparr>tr_fromCursor = fromCursor, tr_toCursor = toCursor, tr_reason = ''BUFFER_BYTES''\<rparr>)) (s\<lparr>sn_store := st\<rparr>)
       = (Inr (), s\<lparr>sn_store := st'\<rparr>)"
    "good st'" "view st' = (view st)\<lparr>j_truncations := j_truncations (view st) @ map buffer_truncation rs\<rparr>" by auto
  from st(1) have "(case r of (fromCursor, toCursor) \<Rightarrow> store_op (appendTruncation (se_store env)
      \<lparr>tr_fromCursor = fromCursor, tr_toCursor = toCursor, tr_reason = ''BUFFER_BYTES''\<rparr>)) s = (Inr (), s\<lparr>sn_store := st\<rparr>)"
    by (simp add: assms buffer_truncation_def case_prod_unfold)
  with st' st(3) show ?case by (intro exI [of _ st']) (simp add: andThen_step)
next
  case Nil
  then show ?case by (intro exI [of _ "sn_store s"]) (simp add: ok_def)
qed

lemma enforce_run:
  assumes "se_store env = ops" and "good (sn_store s)" and "j_acked (view (sn_store s)) = sn_ackedCursor s"
  shows "\<exists>st. enforceBufferBounds env s = (Inr (), s\<lparr>sn_store := st\<rparr>) \<and> good st
    \<and> view st = bounded_journal (se_maxBufferedEvents env) (view (sn_store s))"
proof -
  let ?u = "unacked_of (view (sn_store s))" and ?max = "se_maxBufferedEvents env"
  have read: "store_op (eventsAfter ops (sn_ackedCursor s)) s = (Inr ?u, s)"
    using events_after [OF assms(2)] assms(3) by (intro store_op_reads) (simp add: unacked_of_def)
  show ?thesis
  proof (cases "length ?u \<le> ?max")
    case True
    then have "bounded_journal ?max (view (sn_store s)) = view (sn_store s)"
      by (simp add: bounded_journal_def victims_def contiguousRanges_def)
    with True read assms(2) show ?thesis
      by (intro exI [of _ "sn_store s"]) (simp add: enforceBufferBounds_def assms(1) andThen_query andThen_step ok_def)
  next
    case False
    from drop_victims_run [OF assms(1,2,3) refl order_refl, of "[]"] obtain st where st:
      "drop_victims env (length ?u) ?u [] s = (Inr (map ne_cursor (victims ?max ?u)), s\<lparr>sn_store := st\<rparr>)" "good st"
      "view st = without (ne_cursor ` set (victims ?max ?u)) (view (sn_store s))" by auto
    from append_truncations_run [OF assms(1), of "s\<lparr>sn_store := st\<rparr>" "contiguousRanges (map ne_cursor (victims ?max ?u))"] st(2)
    obtain st' where st': "forEach (contiguousRanges (map ne_cursor (victims ?max ?u)))
        (\<lambda>(fromCursor, toCursor). store_op (appendTruncation (se_store env)
           \<lparr>tr_fromCursor = fromCursor, tr_toCursor = toCursor, tr_reason = ''BUFFER_BYTES''\<rparr>)) (s\<lparr>sn_store := st\<rparr>) = (Inr (), s\<lparr>sn_store := st'\<rparr>)"
      "good st'" "view st' = (view st)\<lparr>j_truncations := j_truncations (view st) @ map buffer_truncation (contiguousRanges (map ne_cursor (victims ?max ?u)))\<rparr>"
      by auto
    have "view st' = bounded_journal ?max (view (sn_store s))"
      by (simp add: st'(3) st(3) bounded_journal_def Let_def without_def)
    moreover have "enforceBufferBounds env s = (Inr (), s\<lparr>sn_store := st'\<rparr>)"
      using False st'(1) st(1) read by (simp add: enforceBufferBounds_def assms(1) andThen_query andThen_step)
    ultimately show ?thesis using st'(2) by blast
  qed
qed

end

subsection \<open>Emitting an event\<close>

lemma covered_truncations:
  "c \<in> covered rs \<longleftrightarrow> list_ex (\<lambda>t. tr_fromCursor t \<le> c \<and> c \<le> tr_toCursor t) (map buffer_truncation rs)"
  by (force simp: covered_def list_ex_iff buffer_truncation_def)

lemma has_cursor_without: "has_cursor c (without cs j) \<longleftrightarrow> has_cursor c j \<and> c \<notin> cs"
  by (auto simp: has_cursor_def without_def)

lemma bounded_accounted:
  assumes "accounted j" shows "accounted (bounded_journal b j)"
proof -
  define cs where "cs = map ne_cursor (victims b (unacked_of j))"
  have bj: "bounded_journal b j = (without (set cs) j)\<lparr>j_truncations := j_truncations j @ map buffer_truncation (contiguousRanges cs)\<rparr>"
    by (simp add: bounded_journal_def cs_def Let_def)
  have cov: "list_ex (\<lambda>t. tr_fromCursor t \<le> c \<and> c \<le> tr_toCursor t) (map buffer_truncation (contiguousRanges cs))"
    if "c \<in> set cs" for c
    using that contiguousRanges_exact [of cs] covered_truncations by blast
  show ?thesis unfolding accounted_def
  proof
    fix c assume "c \<in> {1..j_node (bounded_journal b j)}"
    then have "c \<in> {1..j_node j}" by (simp add: bj without_def)
    with assms have "has_cursor c j \<or> c \<le> j_acked j \<or> list_ex (\<lambda>t. tr_fromCursor t \<le> c \<and> c \<le> tr_toCursor t) (j_truncations j)"
      by (simp add: accounted_def)
    moreover have "has_cursor c (bounded_journal b j) \<longleftrightarrow> has_cursor c j \<and> c \<notin> set cs"
      using has_cursor_without [of c "set cs" j] by (simp add: bj has_cursor_def)
    moreover have "j_acked (bounded_journal b j) = j_acked j" by (simp add: bj without_def)
    moreover have "j_truncations (bounded_journal b j) = j_truncations j @ map buffer_truncation (contiguousRanges cs)" by (simp add: bj)
    ultimately show "has_cursor c (bounded_journal b j) \<or> c \<le> j_acked (bounded_journal b j)
      \<or> list_ex (\<lambda>t. tr_fromCursor t \<le> c \<and> c \<le> tr_toCursor t) (j_truncations (bounded_journal b j))"
      using cov [of c] by (cases "c \<in> set cs") auto
  qed
qed

lemma bounded_fields:
  "j_node (bounded_journal b j) = j_node j" "j_acked (bounded_journal b j) = j_acked j" "j_answers (bounded_journal b j) = j_answers j"
  "set (j_events (bounded_journal b j)) \<subseteq> set (j_events j)"
  by (auto simp: bounded_journal_def without_def Let_def)

lemma insert_accounted:
  assumes "accounted j" and "ne_cursor e = j_node j + 1"
  shows "accounted ((insert_event e j)\<lparr>j_node := ne_cursor e\<rparr>)"
proof -
  have "{1..ne_cursor e} \<subseteq> insert (ne_cursor e) {1..j_node j}" using assms(2) by auto
  with assms(1) show ?thesis by (force simp: accounted_def has_cursor_def insert_event_def set_insort_key)
qed

lemma insort_last: "(\<And>y. y \<in> set xs \<Longrightarrow> f y < f x) \<Longrightarrow> insort_key f x xs = xs @ [x]"
  by (induction xs) (auto simp: not_le [symmetric])

definition appended :: "node_event \<Rightarrow> journal \<Rightarrow> journal" where
  "appended e j = j\<lparr>j_events := j_events j @ [e], j_node := ne_cursor e\<rparr>"

definition new_event :: "('s, 'k) session_env \<Rightarrow> ('s, 'k) session \<Rightarrow> string \<Rightarrow> (string \<times> json) list \<Rightarrow> string option \<Rightarrow> string option \<Rightarrow> int \<Rightarrow> node_event" where
  "new_event env s kind data runId taskId now = \<lparr>ne_cursor = sn_nodeCursor s + 1, ne_eventId = se_uuidV7 env (sn_uuids s) now,
     ne_kind = kind, ne_occurredAt = se_isoDate env now, ne_data = data, ne_runId = runId, ne_taskId = taskId\<rparr>"

context node_store
begin

lemma emit_run:
  assumes env: "se_store env = ops" and ok: "session_ok good view s"
    and valid: "valid (new_event env s kind data runId taskId now)" (is "valid ?e")
  obtains s' where "emitEvent env kind data runId taskId now s = (Inr ?e, s')" "session_ok good view s'"
    "view (sn_store s') = bounded_journal (se_maxBufferedEvents env) (appended ?e (view (sn_store s)))"
    "s' = s\<lparr>sn_store := sn_store s', sn_nodeCursor := sn_nodeCursor s + 1, sn_uuids := sn_uuids s + 1\<rparr>"
proof -
  let ?j = "view (sn_store s)" and ?max = "se_maxBufferedEvents env"
  note ok' = session_okD [OF ok]
  have next_cursor: "ne_cursor ?e = j_node ?j + 1" using ok'(2) by (simp add: new_event_def)
  have above: "ne_cursor y < ne_cursor ?e" if "y \<in> set (j_events ?j)" for y
    using ok'(5) [OF that] by (simp add: new_event_def)
  then have fresh: "\<not> has_cursor (ne_cursor ?e) ?j" by (force simp: has_cursor_def)
  have app: "(insert_event ?e ?j)\<lparr>j_node := ne_cursor ?e\<rparr> = appended ?e ?j"
    using insort_last [of "j_events ?j" ne_cursor ?e] above by (simp add: insert_event_def appended_def)
  let ?s0 = "s\<lparr>sn_uuids := sn_uuids s + 1\<rparr>"
  from store_op_commits [of good view "appendEventAndAdvanceCursor ops ?e" ?s0] append_advance [OF ok'(1) valid next_cursor fresh]
  obtain st where st: "store_op (appendEventAndAdvanceCursor ops ?e) ?s0 = (Inr (), ?s0\<lparr>sn_store := st\<rparr>)" "good st"
      "view st = appended ?e ?j" unfolding app by auto
  let ?s1 = "s\<lparr>sn_uuids := sn_uuids s + 1, sn_store := st, sn_nodeCursor := sn_nodeCursor s + 1\<rparr>"
  have "j_acked (view (sn_store ?s1)) = sn_ackedCursor ?s1" using ok'(3) by (simp add: st(3) appended_def)
  from enforce_run [OF env _ this] st(2) obtain st' where st': "enforceBufferBounds env ?s1 = (Inr (), ?s1\<lparr>sn_store := st'\<rparr>)"
    "good st'" "view st' = bounded_journal ?max (appended ?e ?j)" by (auto simp: st(3))
  let ?s2 = "?s1\<lparr>sn_store := st'\<rparr>"
  have run: "emitEvent env kind data runId taskId now s = (Inr ?e, ?s2)"
    using st(1) st'(1) by (simp add: emitEvent_def query_def andThen_def uuid_def update_def env ok_def Let_def new_event_def)
  have "accounted (bounded_journal ?max (appended ?e ?j))"
    using bounded_accounted [OF insert_accounted [OF ok'(6) next_cursor]] by (simp add: app)
  moreover have "ne_cursor y \<le> sn_nodeCursor s + 1" if "y \<in> set (j_events (bounded_journal ?max (appended ?e ?j)))" for y
    using that bounded_fields(4) [of ?max "appended ?e ?j"] above [of y] by (auto simp: appended_def new_event_def)
  ultimately have "session_ok good view ?s2"
    using st'(2,3) ok'(3,4) by (simp add: session_ok_def Let_def bounded_fields) (simp add: appended_def new_event_def)
  with run show thesis using st'(3) that by simp
qed

end

text \<open>
  C16 Emitting an event is exact on the durable journal: the event gets the next cursor and is appended; then
  the overflow policy drops the oldest unprotected unacked events, just as many as exceed the bound, never a
  completion, effect or verification event, and records exactly their cursors as truncated ranges. The
  invariant is kept: every cursor ever handed out is in the journal, acknowledged or recorded as truncated.
\<close>
theorem emitEvent_bounded:
  assumes "se_store env = SqliteNodeStateStore url" and "session_ok (sqlite_good url) sqlite_view s"
    and "valid_event url (new_event env s kind data runId taskId now)"
  shows "\<exists>s'. emitEvent env kind data runId taskId now s = (Inr (new_event env s kind data runId taskId now), s')
    \<and> session_ok (sqlite_good url) sqlite_view s'
    \<and> (let j = sqlite_view (sn_store s); e = new_event env s kind data runId taskId now; all = j_events j @ [e];
           unacked = filter (\<lambda>x. sn_ackedCursor s < ne_cursor x) all;
           dropped = take (length unacked - se_maxBufferedEvents env) (filter (\<lambda>x. \<not> protected x) unacked);
           j' = sqlite_view (sn_store s')
       in j_events j' = filter (\<lambda>x. ne_cursor x \<notin> ne_cursor ` set dropped) all
         \<and> (\<exists>ranges. j_truncations j' = j_truncations j @ map buffer_truncation ranges
             \<and> separated ranges \<and> covered ranges = ne_cursor ` set dropped))"
proof -
  obtain s' where s': "emitEvent env kind data runId taskId now s = (Inr (new_event env s kind data runId taskId now), s')"
    "session_ok (sqlite_good url) sqlite_view s'"
    "sqlite_view (sn_store s') = bounded_journal (se_maxBufferedEvents env) (appended (new_event env s kind data runId taskId now) (sqlite_view (sn_store s)))"
    by (rule sqlite.emit_run [OF assms])
  define j where "j = sqlite_view (sn_store s)"
  define e where "e = new_event env s kind data runId taskId now"
  define cs where "cs = map ne_cursor (victims (se_maxBufferedEvents env) (unacked_of (appended e j)))"
  have un: "unacked_of (appended e j) = filter (\<lambda>x. sn_ackedCursor s < ne_cursor x) (j_events j @ [e])"
    using session_okD(3) [OF assms(2)] by (simp add: unacked_of_def appended_def j_def)
  have v: "sqlite_view (sn_store s') = (without (set cs) (appended e j))\<lparr>j_truncations := j_truncations j @ map buffer_truncation (contiguousRanges cs)\<rparr>"
    using s'(3) by (simp add: bounded_journal_def Let_def cs_def j_def [symmetric] e_def [symmetric]) (simp add: appended_def)
  have r: "separated (contiguousRanges cs)" "covered (contiguousRanges cs) = set cs" using contiguousRanges_exact [of cs] by simp_all
  have set_cs: "set cs = ne_cursor ` set (take (length (filter (\<lambda>x. sn_ackedCursor s < ne_cursor x) (j_events j @ [e])) - se_maxBufferedEvents env)
      (filter (\<lambda>x. \<not> protected x) (filter (\<lambda>x. sn_ackedCursor s < ne_cursor x) (j_events j @ [e]))))"
    by (simp only: cs_def victims_def un set_map)
  show ?thesis unfolding Let_def j_def [symmetric] e_def [symmetric] set_cs [symmetric]
    using s'(1,2) r by (intro exI [of _ s'] conjI exI [of _ "contiguousRanges cs"]) (simp_all add: v without_def appended_def e_def)
qed

text \<open>A concrete node for the witnesses: room for one unacked event, a kernel without state that accepts.\<close>

definition example_env :: "'s node_state_store \<Rightarrow> ('s, unit) session_env" where
  "example_env ops = \<lparr>se_store = ops, se_workspaceId = example_uuid, se_nodeId = ''n1'', se_cloudPublicKeyPem = ''key'',
     se_schemaDigest = ''sha256:'' @ example_sha [], se_maxBufferedEvents = 1, se_platform = ''linux-x64'',
     se_sha = example_sha, se_sign = (\<lambda>_. ''AA''), se_verify = (\<lambda>_ _ sg. sg = ''AA''), se_parseDate = (\<lambda>_. Some 0),
     se_isoDate = (\<lambda>_. ''2026-01-01T00:00:00Z''), se_url = (\<lambda>_. True), se_why = (\<lambda>_ _. []), se_uuidV7 = (\<lambda>_ _. example_uuid),
     se_decideOffer = (\<lambda>_. ok OfferAccept), se_onReviewDecision = None\<rparr>"

definition example_store :: sqlite_store where
  "example_store = \<lparr>ss_node_events = [(1, event_json example_event)], ss_node_cursors = [''node_cursor'' \<mapsto> 1],
     ss_offer_answers = (\<lambda>_. None), ss_truncations = [], ss_user_version = 1\<rparr>"

definition example_session :: "(sqlite_store, unit) session" where
  "example_session = \<lparr>sn_store = example_store, sn_kernel = (), sn_nodeCursor = 1, sn_ackedCursor = 0, sn_offerAnswers = (\<lambda>_. None),
     sn_sessionId = example_uuid, sn_epoch = None, sn_outSeq = 0, sn_welcome = None, sn_dedup = new_dedup_index,
     sn_connected = False, sn_uuids = 0\<rparr>"

lemma example_session_ok: "session_ok (sqlite_good (\<lambda>_. True)) sqlite_view example_session"
proof -
  have "sqlite_good (\<lambda>_. True) example_store"
    using example_event_valid [of "\<lambda>_. True"]
    by (auto simp: sqlite_good_def example_store_def example_event_def intro!: exI [of _ example_event])
  moreover have "accounted (sqlite_view example_store)"
    by (auto simp: accounted_def sqlite_view_def example_store_def sqlite_cursorValue_def has_cursor_def event_roundtrip_raw example_event_def)
  ultimately show ?thesis
    by (simp add: session_ok_def example_session_def sqlite_view_def example_store_def sqlite_cursorValue_def event_roundtrip_raw example_event_def)
qed

lemma example_new_event_valid:
  "0 \<le> sn_nodeCursor s \<Longrightarrow> sn_nodeCursor s \<le> 1 \<Longrightarrow> valid_event url (new_event (example_env ops) s kind [] None None now)"
  using example_uuid_ok [of url] example_date_ok
  by (simp add: valid_event_def event_json_def new_event_def example_env_def opt_field_def NodeEventSchema_def CursorSchema_def
      any_string_def DateTimeSchema_def within_def is_safe_int_def max_safe_int_def)

lemma emitEvent_bounded_witness:
  "\<exists>s'. emitEvent (example_env (SqliteNodeStateStore (\<lambda>_. True))) ''verification.done'' [] None None 0 example_session
      = (Inr (new_event (example_env (SqliteNodeStateStore (\<lambda>_. True))) example_session ''verification.done'' [] None None 0), s')
    \<and> map ne_cursor (j_events (sqlite_view (sn_store s'))) = [2]"
proof -
  let ?env = "example_env (SqliteNodeStateStore (\<lambda>_. True))"
  let ?e = "new_event ?env example_session ''verification.done'' [] None None 0"
  have v: "valid_event (\<lambda>_. True) ?e" by (rule example_new_event_valid) (simp_all add: example_session_def)
  have env: "se_store ?env = SqliteNodeStateStore (\<lambda>_. True)" by (simp add: example_env_def)
  have evs: "j_events (sqlite_view (sn_store example_session)) = [example_event]"
    by (simp add: example_session_def example_store_def sqlite_view_def event_roundtrip_raw)
  have p: "\<not> protected example_event" "protected ?e"
    by (simp_all add: protected_def PROTECTED_KIND_PREFIXES_def example_event_def new_event_def starts_with_def)
  have c: "ne_cursor example_event = 1" "ne_cursor ?e = 2" "sn_ackedCursor example_session = 0" "se_maxBufferedEvents ?env = 1"
    by (simp_all add: example_event_def new_event_def example_session_def example_env_def)
  from emitEvent_bounded [OF env example_session_ok v] obtain s' where
    "emitEvent ?env ''verification.done'' [] None None 0 example_session = (Inr ?e, s')"
    "j_events (sqlite_view (sn_store s')) = [?e]"
    unfolding Let_def evs using p c by auto
  then show ?thesis using c by (intro exI [of _ s']) simp
qed

end
