(* ===== verification/NodeFlush.thy ===== *)
theory NodeFlush
  imports NodeEvents "HOL-Library.Sublist"
begin

text \<open>
  \<open>flush\<close>: the unacknowledged events leave in contiguous, bounded batches that the receiver's schema accepts.
\<close>

subsection \<open>Runs and chunks\<close>

fun contiguous :: "node_event list \<Rightarrow> bool" where
  "contiguous (e # f # es) = (ne_cursor f = ne_cursor e + 1 \<and> contiguous (f # es))"
| "contiguous _ = True"

lemma contiguous_snoc: "contiguous (es @ [e]) \<longleftrightarrow> contiguous es \<and> (es = [] \<or> ne_cursor e = ne_cursor (last es) + 1)"
  by (induction es rule: contiguous.induct) auto

lemma contiguous_append: "contiguous (xs @ ys) \<Longrightarrow> contiguous xs \<and> contiguous ys"
proof (induction xs)
  case (Cons x xs)
  then show ?case by (cases xs; cases ys) auto
qed simp

lemma contiguous_cursors: "contiguous (e # es) \<Longrightarrow> map ne_cursor (e # es) = map (\<lambda>i. ne_cursor e + int i) [0..<Suc (length es)]"
proof (induction es arbitrary: e)
  case (Cons f es)
  then have c: "contiguous (f # es)" and "ne_cursor f = ne_cursor e + 1" by simp_all
  note Cons.IH [OF c] \<open>ne_cursor f = ne_cursor e + 1\<close>
  then have "map ne_cursor (f # es) = map (\<lambda>i. ne_cursor e + int (Suc i)) [0..<Suc (length es)]" by (simp add: algebra_simps)
  also have "\<dots> = map (\<lambda>i. ne_cursor e + int i) (map Suc [0..<Suc (length es)])" by (simp only: map_map comp_def)
  also have "map Suc [0..<Suc (length es)] = [1..<Suc (Suc (length es))]" by (simp only: map_Suc_upt One_nat_def)
  finally show ?case by (simp only: list.map(2) [of _ e]) (simp add: upt_conv_Cons del: upt_Suc)
qed simp

lemma contiguous_last: "contiguous (e # es) \<Longrightarrow> ne_cursor (last (e # es)) = ne_cursor e + int (length es)"
  by (induction es arbitrary: e) auto

definition good_run :: "node_event list \<Rightarrow> bool" where
  "good_run r \<longleftrightarrow> r \<noteq> [] \<and> contiguous r"

lemma extend_run_step:
  assumes "\<forall>r \<in> set runs. good_run r"
  shows "(\<forall>r \<in> set (extend_run runs e). good_run r) \<and> concat (extend_run runs e) = concat runs @ [e]"
proof (cases runs rule: rev_cases)
  case Nil
  then show ?thesis by (simp add: extend_run_def good_run_def)
next
  case (snoc rs r)
  with assms have "good_run r" by simp
  with snoc assms show ?thesis by (auto simp: extend_run_def good_run_def contiguous_snoc)
qed

lemma foldl_extend_run:
  "\<forall>r \<in> set runs. good_run r \<Longrightarrow>
   (\<forall>r \<in> set (foldl extend_run runs es). good_run r) \<and> concat (foldl extend_run runs es) = concat runs @ es"
proof (induction es arbitrary: runs)
  case (Cons e es)
  note step = extend_run_step [OF Cons.prems, of e]
  from Cons.IH [OF step [THEN conjunct1]] step show ?case by simp
qed simp

lemma contiguousEventRuns_exact:
  "(\<forall>r \<in> set (contiguousEventRuns es). good_run r) \<and> concat (contiguousEventRuns es) = es"
  using foldl_extend_run [of "[]" es] by (simp add: contiguousEventRuns_def)

lemma chunks_exact:
  "0 < n \<Longrightarrow> contiguous xs \<Longrightarrow>
   concat (chunks n xs) = xs \<and> (\<forall>c \<in> set (chunks n xs). good_run c \<and> length c \<le> n)"
proof (induction n xs rule: chunks.induct)
  case (1 n xs)
  show ?case
  proof (cases "xs = []")
    case True
    then have "chunks n xs = []" by (subst chunks.simps) simp
    with True show ?thesis by simp
  next
    case False
    have "contiguous (take n xs @ drop n xs)" using "1.prems"(2) by simp
    from contiguous_append [OF this] have c: "contiguous (take n xs)" "contiguous (drop n xs)" by simp_all
    have "chunks n xs = take n xs # chunks n (drop n xs)" using False "1.prems"(1) by (subst chunks.simps) simp
    moreover have "concat (chunks n (drop n xs)) = drop n xs \<and> (\<forall>c \<in> set (chunks n (drop n xs)). good_run c \<and> length c \<le> n)"
      using "1.IH" [OF _ "1.prems"(1) c(2)] False "1.prems"(1) by simp
    moreover have "good_run (take n xs)" "length (take n xs) \<le> n" using False "1.prems"(1) c(1) by (simp_all add: good_run_def)
    ultimately show ?thesis by simp
  qed
qed

definition batches_of :: "nat \<Rightarrow> node_event list \<Rightarrow> node_event list list" where
  "batches_of n pending = concat (map (chunks n) (contiguousEventRuns pending))"

lemma batches_exact:
  assumes "0 < n"
  shows "concat (batches_of n pending) = pending \<and> (\<forall>b \<in> set (batches_of n pending). good_run b \<and> length b \<le> n)"
proof -
  have all: "concat (concat (map (chunks n) rs)) = concat rs \<and> (\<forall>b \<in> set (concat (map (chunks n) rs)). good_run b \<and> length b \<le> n)"
    if "\<forall>r \<in> set rs. good_run r" for rs
    using that
  proof (induction rs)
    case (Cons r rs)
    have "contiguous r" using Cons.prems by (simp add: good_run_def)
    note c = chunks_exact [OF assms this]
    have "\<forall>r \<in> set rs. good_run r" using Cons.prems by simp
    note IH = Cons.IH [OF this]
    from c IH show ?case by (simp only: list.map concat.simps concat_append set_append ball_Un simp_thms) blast
  qed simp
  note runs = contiguousEventRuns_exact [of pending]
  from all [OF runs [THEN conjunct1]] show ?thesis
    unfolding batches_of_def runs [THEN conjunct2] .
qed

subsection \<open>Batches on the wire\<close>

definition batch_payload :: "string \<Rightarrow> bool \<Rightarrow> node_event list \<Rightarrow> json" where
  "batch_payload batchId truncated evs = JObj [
     (''batchId'', JStr batchId), (''firstCursor'', JNum (ne_cursor (hd evs))), (''lastCursor'', JNum (ne_cursor (last evs))),
     (''events'', JArr (map event_json evs)), (''truncatedPendingReconcile'', JBool truncated)]"

lemma seal_field: "map_of unsigned k = Some v \<Longrightarrow> json_field k (sealEnvelope sha sign unsigned) = Some v"
  by (simp add: sealEnvelope_def Let_def map_add_def)

text \<open>What a sealed message of a session says, the signature aside.\<close>

definition says :: "string \<Rightarrow> json \<Rightarrow> int \<Rightarrow> json \<Rightarrow> bool" where
  "says ty payload sequence envelope \<longleftrightarrow> json_field ''type'' envelope = Some (JStr ty)
     \<and> json_field ''payload'' envelope = Some payload \<and> json_field ''sequence'' envelope = Some (JNum sequence)"

lemma seal_run:
  obtains envelope where "seal env ty payload now extra s = (Inr envelope, s\<lparr>sn_outSeq := sn_outSeq s + 1, sn_uuids := sn_uuids s + 1\<rparr>)"
    "says ty payload (sn_outSeq s + 1) envelope"
    "\<And>k v. map_of extra k = Some v \<Longrightarrow> k \<in> {''idempotencyKey'', ''causationId'', ''expiresAt''} \<Longrightarrow> json_field k envelope = Some v"
proof -
  let ?unsigned = "[(''protocol'', JStr PROTOCOL), (''schemaDigest'', JStr (se_schemaDigest env)), (''type'', JStr ty),
         (''messageId'', JStr (se_uuidV7 env (sn_uuids s) now)), (''sessionId'', JStr (sn_sessionId s)),
         (''workspaceId'', JStr (se_workspaceId env)), (''senderId'', JStr (''node:'' @ se_nodeId env)),
         (''sequence'', JNum (sn_outSeq s + 1)), (''sentAt'', JStr (se_isoDate env now)), (''payload'', payload)] @ extra"
  let ?e = "sealEnvelope (se_sha env) (se_sign env) ?unsigned"
  have "seal env ty payload now extra s = (Inr ?e, s\<lparr>sn_outSeq := sn_outSeq s + 1, sn_uuids := sn_uuids s + 1\<rparr>)"
    by (simp add: seal_def andThen_def update_def uuid_def query_def)
  moreover have "says ty payload (sn_outSeq s + 1) ?e" unfolding says_def by (intro conjI seal_field) simp_all
  moreover have "json_field k ?e = Some v" if "map_of extra k = Some v" "k \<in> {''idempotencyKey'', ''causationId'', ''expiresAt''}" for k v
    using that(2) by (elim insertE emptyE; intro seal_field) (use that(1) in simp_all)
  ultimately show thesis by (rule that)
qed

definition is_batch :: "('s, 'k) session_env \<Rightarrow> int \<Rightarrow> bool \<Rightarrow> node_event list \<Rightarrow> json \<Rightarrow> bool" where
  "is_batch env now truncated evs envelope \<longleftrightarrow>
     (\<exists>n q. says ''run.event_batch'' (batch_payload (se_uuidV7 env n now) truncated evs) q envelope)"

context node_store
begin

lemma send_batches_run:
  assumes "se_store env = ops"
  shows "good (sn_store s) \<Longrightarrow> int (length out) < maxUnacked \<Longrightarrow>
   \<exists>envs s'. send_batches env now maxUnacked bs out s = (Inr (out @ envs), s')
     \<and> list_all2 (is_batch env now (j_truncations (view (sn_store s)) \<noteq> [])) (take (nat maxUnacked - length out) bs) envs
     \<and> s' = s\<lparr>sn_outSeq := sn_outSeq s + int (length envs), sn_uuids := sn_uuids s + 2 * length envs\<rparr>"
proof (induction bs arbitrary: s out)
  case (Cons evs bs)
  let ?tr = "j_truncations (view (sn_store s))"
  let ?s1 = "s\<lparr>sn_uuids := sn_uuids s + 1\<rparr>"
  have read: "store_op (loadTruncations ops) ?s1 = (Inr ?tr, ?s1)"
    using load_truncations [OF Cons.prems(1)] by (intro store_op_reads) simp
  obtain e where e: "seal env ''run.event_batch'' (batch_payload (se_uuidV7 env (sn_uuids s) now) (?tr \<noteq> []) evs) now [] ?s1
      = (Inr e, s\<lparr>sn_outSeq := sn_outSeq s + 1, sn_uuids := sn_uuids s + 2\<rparr>)"
    "says ''run.event_batch'' (batch_payload (se_uuidV7 env (sn_uuids s) now) (?tr \<noteq> []) evs) (sn_outSeq ?s1 + 1) e"
    by (rule seal_run [of env "''run.event_batch''" "batch_payload (se_uuidV7 env (sn_uuids s) now) (?tr \<noteq> []) evs" now "[]" ?s1]) simp
  let ?s2 = "s\<lparr>sn_outSeq := sn_outSeq s + 1, sn_uuids := sn_uuids s + 2\<rparr>"
  have b: "is_batch env now (?tr \<noteq> []) evs e" using e(2) unfolding is_batch_def by blast
  have step: "send_batches env now maxUnacked (evs # bs) out s =
    (if maxUnacked \<le> int (length (out @ [e])) then ok (out @ [e]) else send_batches env now maxUnacked bs (out @ [e])) ?s2"
    using read e(1) by (simp add: andThen_def uuid_def assms batch_payload_def)
  show ?case
  proof (cases "maxUnacked \<le> int (length (out @ [e]))")
    case True
    with Cons.prems(2) have "nat maxUnacked - length out = 1" by auto
    with True step b show ?thesis by (intro exI [of _ "[e]"]) (simp add: ok_def)
  next
    case False
    with Cons.IH [of ?s2 "out @ [e]"] Cons.prems(1) obtain envs s' where IH:
      "send_batches env now maxUnacked bs (out @ [e]) ?s2 = (Inr ((out @ [e]) @ envs), s')"
      "list_all2 (is_batch env now (?tr \<noteq> [])) (take (nat maxUnacked - length (out @ [e])) bs) envs"
      "s' = ?s2\<lparr>sn_outSeq := sn_outSeq ?s2 + int (length envs), sn_uuids := sn_uuids ?s2 + 2 * length envs\<rparr>" by auto
    have "nat maxUnacked - length out = Suc (nat maxUnacked - length (out @ [e]))" using False by auto
    with IH b False step show ?thesis by (intro exI [of _ "e # envs"] exI [of _ s']) (simp add: algebra_simps)
  qed
qed (simp add: ok_def)

lemma flush_run:
  assumes "se_store env = ops" and "good (sn_store s)" and "sn_connected s" and "sn_welcome s = Some w"
    and "1 \<le> limit_of ''maxUnackedBatches'' w"
  shows "\<exists>envs s'. flush env now fromCursor s = (Inr envs, s')
     \<and> list_all2 (is_batch env now (j_truncations (view (sn_store s)) \<noteq> []))
         (take (nat (limit_of ''maxUnackedBatches'' w)) (batches_of (nat (limit_of ''maxEventsPerBatch'' w))
           (filter (\<lambda>e. (case fromCursor of None \<Rightarrow> sn_ackedCursor s | Some c \<Rightarrow> c) < ne_cursor e) (j_events (view (sn_store s)))))) envs
     \<and> s' = s\<lparr>sn_outSeq := sn_outSeq s + int (length envs), sn_uuids := sn_uuids s + 2 * length envs\<rparr>"
proof -
  let ?p = "filter (\<lambda>e. (case fromCursor of None \<Rightarrow> sn_ackedCursor s | Some c \<Rightarrow> c) < ne_cursor e) (j_events (view (sn_store s)))"
  have read: "store_op (eventsAfter ops (case fromCursor of None \<Rightarrow> sn_ackedCursor s | Some c \<Rightarrow> c)) s = (Inr ?p, s)"
    using events_after [OF assms(2)] by (intro store_op_reads) simp
  have "flush env now fromCursor s = send_batches env now (limit_of ''maxUnackedBatches'' w)
      (batches_of (nat (limit_of ''maxEventsPerBatch'' w)) ?p) [] s"
    using read by (simp add: flush_def andThen_query assms(1,3,4) andThen_step batches_of_def)
  with send_batches_run [OF assms(1,2), of "[]" "limit_of ''maxUnackedBatches'' w"] assms(5) show ?thesis by simp
qed

end

subsection \<open>The receiver accepts the batches\<close>

lemma all_fields_map:
  "(\<And>x. x \<in> set xs \<Longrightarrow> f (g x) = Some (h x)) \<Longrightarrow> all_fields f (map g xs) = Some (map h xs)"
  by (induction xs) auto

lemma parsed_event:
  assumes "valid_event url e"
  obtains j where "parse url NodeEventSchema (event_json e) = Some j" "json_int (json_field ''cursor'' j) = ne_cursor e"
proof -
  from assms obtain j where j: "parse url NodeEventSchema (event_json e) = Some j" by (auto simp: valid_event_def)
  have "ne_cursor (event_of_json j) = ne_cursor e" by (simp add: event_roundtrip [OF j])
  with j that show thesis by (simp add: event_of_json_def)
qed

lemma valid_cursor: "valid_event url e \<Longrightarrow> is_safe_int (ne_cursor e) \<and> 0 \<le> ne_cursor e"
  by (rule ccontr) (simp add: valid_event_def NodeEventSchema_def CursorSchema_def event_json_def del: not_None_eq)

lemma batch_accepted:
  assumes "good_run evs" "length evs \<le> 256" "\<forall>e \<in> set evs. valid_event url e" "parse url UuidSchema (JStr batchId) = Some (JStr batchId)"
  shows "\<exists>p. parsePayload url ''run.event_batch'' (batch_payload batchId truncated evs) = Some p"
proof -
  obtain e es where evs: "evs = e # es" using assms(1) by (cases evs) (auto simp: good_run_def)
  define out where "out x = the (parse url NodeEventSchema (event_json x))" for x
  have out: "parse url NodeEventSchema (event_json x) = Some (out x)" "json_int (json_field ''cursor'' (out x)) = ne_cursor x"
    if "x \<in> set evs" for x
  proof -
    from that assms(3) have v: "valid_event url x" by blast
    obtain j where j: "parse url NodeEventSchema (event_json x) = Some j" "json_int (json_field ''cursor'' j) = ne_cursor x"
      by (rule parsed_event [OF v])
    then show "parse url NodeEventSchema (event_json x) = Some (out x)" "json_int (json_field ''cursor'' (out x)) = ne_cursor x"
      by (simp_all add: out_def)
  qed
  have events: "all_fields (\<lambda>x. parse url NodeEventSchema x) (map event_json evs) = Some (map out evs)"
    using out(1) by (rule all_fields_map)
  have "e \<in> set evs" "last evs \<in> set evs" by (simp_all add: evs)
  then have cursors: "is_safe_int (ne_cursor e) \<and> 0 \<le> ne_cursor e" "is_safe_int (ne_cursor (last evs)) \<and> 0 \<le> ne_cursor (last evs)"
    using assms(3) valid_cursor by blast+
  let ?kvs = "[(''batchId'', JStr batchId), (''firstCursor'', JNum (ne_cursor e)), (''lastCursor'', JNum (ne_cursor (last evs))),
     (''events'', JArr (map out evs)), (''truncatedPendingReconcile'', JBool truncated)]"
  have c: "contiguous (e # es)" using assms(1) by (simp add: good_run_def evs)
  have "map (\<lambda>x. json_int (json_field ''cursor'' x)) (map out evs) = map ne_cursor evs" using out(2) by simp
  also have "\<dots> = map (\<lambda>i. ne_cursor e + int i) [0..<length (map out evs)]"
    using contiguous_cursors [OF c] by (simp add: evs del: upt_Suc)
  finally have curs: "map (\<lambda>x. json_int (json_field ''cursor'' x)) (map out evs)
    = map (\<lambda>i. ne_cursor e + int i) [0..<length (map out evs)]" .
  have f: "json_int (json_field ''firstCursor'' (JObj ?kvs)) = ne_cursor e" "json_int (json_field ''lastCursor'' (JObj ?kvs)) = ne_cursor (last evs)"
    "json_list (json_field ''events'' (JObj ?kvs)) = map out evs"
    by (simp_all add: json_int_def json_list_def)
  have "contiguous_batch (JObj ?kvs)"
    unfolding contiguous_batch_def Let_def f using curs contiguous_last [OF c] by (simp only: evs) simp
  moreover have "within 1 (Some 256) (length (map event_json evs))" using assms(2) by (simp add: within_def evs)
  ultimately show ?thesis
    using events assms(4) cursors
    by (simp add: parsePayload_def MESSAGE_SCHEMAS_def RunEventBatchSchema_def batch_payload_def CursorSchema_def evs)
qed

text \<open>
  Everything unacknowledged is sent, in order and in pieces the protocol allows: \<open>flush\<close> sends the
  events after the cursor as batches of consecutive cursors, each of at most \<open>maxEventsPerBatch\<close> events, at
  most \<open>maxUnackedBatches\<close> of them; together they are a prefix of the pending events, and all of them unless
  that limit cut them off. The journal is not touched. If the announced batch size is within the 256 of the
  message schema, the receiver's schema accepts every batch.
\<close>
theorem flush_batches:
  assumes "se_store env = SqliteNodeStateStore url" and "sqlite_good url (sn_store s)"
    and "sn_connected s" and "sn_welcome s = Some w"
    and "1 \<le> limit_of ''maxUnackedBatches'' w" and "1 \<le> limit_of ''maxEventsPerBatch'' w"
  shows "\<exists>envs s' batches. flush env now fromCursor s = (Inr envs, s')
    \<and> list_all2 (is_batch env now (j_truncations (sqlite_view (sn_store s)) \<noteq> [])) batches envs
    \<and> int (length envs) \<le> limit_of ''maxUnackedBatches'' w
    \<and> list_all (\<lambda>b. b \<noteq> [] \<and> contiguous b \<and> int (length b) \<le> limit_of ''maxEventsPerBatch'' w) batches
    \<and> (let pending = filter (\<lambda>e. (case fromCursor of None \<Rightarrow> sn_ackedCursor s | Some c \<Rightarrow> c) < ne_cursor e) (j_events (sqlite_view (sn_store s)))
       in prefix (concat batches) pending
         \<and> (int (length envs) < limit_of ''maxUnackedBatches'' w \<longrightarrow> concat batches = pending))
    \<and> sn_store s' = sn_store s
    \<and> (limit_of ''maxEventsPerBatch'' w \<le> 256 \<and> (\<forall>n. parse url UuidSchema (JStr (se_uuidV7 env n now)) = Some (JStr (se_uuidV7 env n now)))
        \<longrightarrow> list_all (\<lambda>envelope. \<exists>payload p. json_field ''payload'' envelope = Some payload
              \<and> parsePayload url ''run.event_batch'' payload = Some p) envs)"
proof -
  let ?view = "sqlite_view (sn_store s)" and ?n = "nat (limit_of ''maxEventsPerBatch'' w)" and ?m = "nat (limit_of ''maxUnackedBatches'' w)"
  define pending where "pending = filter (\<lambda>e. (case fromCursor of None \<Rightarrow> sn_ackedCursor s | Some c \<Rightarrow> c) < ne_cursor e) (j_events ?view)"
  define batches where "batches = take ?m (batches_of ?n pending)"
  from sqlite.flush_run [OF assms(1-5), of now fromCursor] obtain envs s' where run: "flush env now fromCursor s = (Inr envs, s')"
    "list_all2 (is_batch env now (j_truncations ?view \<noteq> [])) batches envs"
    "s' = s\<lparr>sn_outSeq := sn_outSeq s + int (length envs), sn_uuids := sn_uuids s + 2 * length envs\<rparr>"
    by (auto simp: batches_def pending_def)
  have n: "0 < ?n" using assms(6) by simp
  note exact = batches_exact [OF n, of pending]
  have len: "length envs = length batches" using list_all2_lengthD [OF run(2)] by simp
  have each: "good_run b \<and> length b \<le> ?n" if "b \<in> set batches" for b
    using that exact by (auto simp: batches_def dest: in_set_takeD)
  have pre: "prefix (concat batches) pending"
  proof -
    have "concat (batches_of ?n pending) = concat batches @ concat (drop ?m (batches_of ?n pending))"
      unfolding batches_def by (simp only: concat_append [symmetric] append_take_drop_id)
    with exact show ?thesis by (metis prefixI)
  qed
  have full: "concat batches = pending" if "int (length envs) < limit_of ''maxUnackedBatches'' w"
  proof -
    have "length (batches_of ?n pending) \<le> ?m" using that by (simp add: len batches_def)
    then show ?thesis using exact by (simp add: batches_def)
  qed
  have evs: "valid_event url e" if "e \<in> set pending" for e
  proof -
    from that obtain row where row: "row \<in> set (ss_node_events (sn_store s))" "e = event_of_json (snd row)"
      by (auto simp: pending_def sqlite_view_def)
    then obtain x where "valid_event url x" "snd row = event_json x"
      using assms(2) unfolding sqlite_good_def by (cases row) auto
    with row(2) show ?thesis by (simp add: event_roundtrip_raw)
  qed
  have accepted: "\<exists>payload p. json_field ''payload'' envelope = Some payload \<and> parsePayload url ''run.event_batch'' payload = Some p"
    if l: "limit_of ''maxEventsPerBatch'' w \<le> 256" and u: "\<forall>n. parse url UuidSchema (JStr (se_uuidV7 env n now)) = Some (JStr (se_uuidV7 env n now))"
      and e: "envelope \<in> set envs" for envelope
  proof -
    from e obtain i where i: "i < length envs" "envs ! i = envelope" by (auto simp: in_set_conv_nth)
    define b where "b = batches ! i"
    have b: "b \<in> set batches" "is_batch env now (j_truncations ?view \<noteq> []) b envelope"
      using run(2) i len by (auto simp: list_all2_conv_all_nth b_def)
    from b(2) obtain k where k: "json_field ''payload'' envelope = Some (batch_payload (se_uuidV7 env k now) (j_truncations ?view \<noteq> []) b)"
      by (auto simp: is_batch_def says_def)
    have "set b \<subseteq> set (concat batches)" using b(1) by auto
    with set_mono_prefix [OF pre] have "\<forall>e \<in> set b. valid_event url e" using evs by blast
    moreover have "?n \<le> 256" using l by simp
    then have "length b \<le> 256" using each [OF b(1)] by linarith
    ultimately show ?thesis using batch_accepted [of b url "se_uuidV7 env k now"] each [OF b(1)] u k by blast
  qed
  have shape: "list_all (\<lambda>b. b \<noteq> [] \<and> contiguous b \<and> int (length b) \<le> limit_of ''maxEventsPerBatch'' w) batches"
    unfolding list_all_iff
  proof
    fix b assume "b \<in> set batches"
    from each [OF this] have "good_run b" "length b \<le> ?n" by simp_all
    then show "b \<noteq> [] \<and> contiguous b \<and> int (length b) \<le> limit_of ''maxEventsPerBatch'' w"
      using assms(6) by (simp add: good_run_def)
  qed
  have bound: "int (length envs) \<le> limit_of ''maxUnackedBatches'' w" using assms(5) by (simp add: len batches_def)
  have store: "sn_store s' = sn_store s" by (simp add: run(3))
  show ?thesis unfolding Let_def pending_def [symmetric]
    by (intro exI [of _ envs] exI [of _ s'] exI [of _ batches] conjI impI run(1,2) shape bound pre store full)
       (use accepted in \<open>simp_all add: list_all_iff\<close>)
qed

definition example_welcome :: json where
  "example_welcome = JObj [(''connectionEpoch'', JNum 3), (''nodeCursorAck'', JNum 0),
     (''limits'', JObj [(''maxUnackedBatches'', JNum 4), (''maxEventsPerBatch'', JNum 2)])]"

definition connected_session :: "(sqlite_store, unit) session" where
  "connected_session = example_session\<lparr>sn_welcome := Some example_welcome, sn_connected := True\<rparr>"

lemma flush_batches_witness:
  "\<exists>envs s'. flush (example_env (SqliteNodeStateStore (\<lambda>_. True))) 0 None connected_session = (Inr envs, s')
    \<and> int (length envs) \<le> 4 \<and> list_all (\<lambda>e. \<exists>payload p. json_field ''payload'' e = Some payload
        \<and> parsePayload (\<lambda>_. True) ''run.event_batch'' payload = Some p) envs"
proof -
  let ?env = "example_env (SqliteNodeStateStore (\<lambda>_. True))"
  have env: "se_store ?env = SqliteNodeStateStore (\<lambda>_. True)" "\<forall>n. parse (\<lambda>_. True) UuidSchema (JStr (se_uuidV7 ?env n 0)) = Some (JStr (se_uuidV7 ?env n 0))"
    using example_uuid_ok [of "\<lambda>_. True"] by (simp_all add: example_env_def)
  have lim: "limit_of ''maxUnackedBatches'' example_welcome = 4" "limit_of ''maxEventsPerBatch'' example_welcome = 2"
    by (simp_all add: limit_of_def example_welcome_def json_int_def)
  have st: "sn_connected connected_session" "sn_welcome connected_session = Some example_welcome"
    by (simp_all add: connected_session_def)
  have good: "sqlite_good (\<lambda>_. True) (sn_store connected_session)"
    using session_okD(1) [OF example_session_ok] by (simp add: connected_session_def)
  have "(1 :: int) \<le> 4" "(1 :: int) \<le> 2" "(2 :: int) \<le> 256" by simp_all
  from flush_batches [OF env(1) good st, of 0 None, unfolded lim, OF this(1,2)] env(2) this(3) show ?thesis by blast
qed

end
