(* ===== verification/NodeReceive.thy ===== *)
theory NodeReceive
  imports NodeFlush
begin

text \<open>
  \<open>receive\<close> and the life of a session: the invariant along every sequence of operations, reconnects and
  process restarts, and what a message can and cannot do to the node.
\<close>

subsection \<open>What every operation keeps\<close>

text \<open>
  From an earlier to a later state of one node: cursors only advance, an answer once given to an offer stays
  (\<open>isAccpMessageType\<close> holds of every answer the session saves), truncation records stay, and a protected
  event leaves the journal only by being acknowledged. \<open>advances\<close> adds the invariant.
\<close>

definition session_grows :: "('s \<Rightarrow> journal) \<Rightarrow> ('s, 'k) session \<Rightarrow> ('s, 'k) session \<Rightarrow> bool" where
  "session_grows view s t \<longleftrightarrow> sn_nodeCursor s \<le> sn_nodeCursor t \<and> sn_ackedCursor s \<le> sn_ackedCursor t
     \<and> (\<forall>k a. sn_offerAnswers s k = Some a \<longrightarrow> isAccpMessageType (fst a) \<longrightarrow> sn_offerAnswers t k = Some a)
     \<and> prefix (j_truncations (view (sn_store s))) (j_truncations (view (sn_store t)))
     \<and> (\<forall>e \<in> set (j_events (view (sn_store s))). protected e \<longrightarrow>
          e \<in> set (j_events (view (sn_store t))) \<or> ne_cursor e \<le> sn_ackedCursor t)"

definition advances :: "('s \<Rightarrow> bool) \<Rightarrow> ('s \<Rightarrow> journal) \<Rightarrow> ('s, 'k) session \<Rightarrow> ('s, 'k) session \<Rightarrow> bool" where
  "advances good view s t \<longleftrightarrow> (session_ok good view s \<longrightarrow> session_ok good view t \<and> session_grows view s t)"

lemma session_grows_refl: "session_grows view s s"
  by (simp add: session_grows_def)

lemma session_grows_trans: "session_grows view s t \<Longrightarrow> session_grows view t u \<Longrightarrow> session_grows view s u"
  unfolding session_grows_def
  by (elim conjE, intro conjI) (linarith | blast | erule (1) prefix_order.trans | (intro ballI impI; elim ballE; fastforce))+

interpretation advance: evolution "advances good view" for good :: "'s \<Rightarrow> bool" and view
  by unfold_locales (auto simp: advances_def session_grows_refl intro: session_grows_trans)

text \<open>Changes of the connection state and of the kernel alone.\<close>

lemma advances_same:
  "sn_store t = sn_store s \<Longrightarrow> sn_nodeCursor t = sn_nodeCursor s \<Longrightarrow> sn_ackedCursor t = sn_ackedCursor s \<Longrightarrow>
   sn_offerAnswers t = sn_offerAnswers s \<Longrightarrow> advances good view s t"
  by (simp add: advances_def session_ok_def session_grows_def)

lemmas kept = advance.keeps_rules

lemma advances_uuid: "keeps (advances good view) (uuid env now)"
  by (simp add: keeps_def uuid_def advances_same)

lemma advances_seal: "keeps (advances good view) (seal env ty payload now extra)"
  unfolding seal_def by (intro kept advances_uuid) (simp add: advances_same)

lemma advances_disconnect: "keeps (advances good view) disconnect"
  unfolding disconnect_def by (intro kept) (simp add: advances_same)

lemma advances_startHandshake: "keeps (advances good view) (startHandshake env now)"
  unfolding startHandshake_def by (intro kept advances_uuid advances_seal) (simp add: advances_same)

lemma advances_answers:
  "keeps (advances good view) (nack env now i code retry detail)"
  "keeps (advances good view) (ack env now i)"
  "keeps (advances good view) (send_answer env now idem i a)"
  "keeps (advances good view) (proposeCompletion env payload now)"
  "keeps (advances good view) (receive_review env payload i now)"
  unfolding nack_def ack_def send_answer_def proposeCompletion_def receive_review_def ack_def
  by (intro kept advances_seal; simp add: advances_same split: option.splits)+

lemma advances_check_duplicate: "keeps (advances good view) (check_duplicate i)"
  by (auto simp: keeps_def check_duplicate_def advances_same split: prod.splits)

lemma advances_decide_offer: "keeps (advances good view) (decide_offer env offer)"
  by (auto simp: keeps_def decide_offer_def advances_same split: prod.splits sum.splits)

lemma accounted_ack:
  assumes "accounted j" and "j_acked j \<le> n"
  shows "accounted (j\<lparr>j_acked := n, j_events := filter (\<lambda>e. n < ne_cursor e) (j_events j)\<rparr>)"
  unfolding accounted_def
proof
  fix c assume "c \<in> {1..j_node (j\<lparr>j_acked := n, j_events := filter (\<lambda>e. n < ne_cursor e) (j_events j)\<rparr>)}"
  with assms have "has_cursor c j \<or> c \<le> n \<or> list_ex (\<lambda>t. tr_fromCursor t \<le> c \<and> c \<le> tr_toCursor t) (j_truncations j)"
    unfolding accounted_def by fastforce
  then show "has_cursor c (j\<lparr>j_acked := n, j_events := filter (\<lambda>e. n < ne_cursor e) (j_events j)\<rparr>)
      \<or> c \<le> j_acked (j\<lparr>j_acked := n, j_events := filter (\<lambda>e. n < ne_cursor e) (j_events j)\<rparr>)
      \<or> list_ex (\<lambda>t. tr_fromCursor t \<le> c \<and> c \<le> tr_toCursor t)
          (j_truncations (j\<lparr>j_acked := n, j_events := filter (\<lambda>e. n < ne_cursor e) (j_events j)\<rparr>))"
    by (auto simp: has_cursor_def image_iff)
qed

text \<open>An offer without a stored answer that can be sent again.\<close>

definition unanswered :: "('s, 'k) session \<Rightarrow> string \<Rightarrow> bool" where
  "unanswered s idem \<longleftrightarrow> (\<forall>a. sn_offerAnswers s idem = Some a \<longrightarrow> \<not> isAccpMessageType (fst a))"

lemma receive_offer_unanswered:
  assumes "unanswered s idem"
  shows "receive_offer env offer idem messageId now s =
     andThen (decide_offer env offer) (\<lambda>decision.
         let answer = answer_payload env offer decision now in
         andThen (update (\<lambda>s. s\<lparr>sn_offerAnswers := (sn_offerAnswers s)(idem \<mapsto> answer)\<rparr>)) (\<lambda>_.
         andThen (store_op (saveOfferAnswer (se_store env) idem (fst answer) (snd answer))) (\<lambda>_.
         send_answer env now idem messageId answer))) s"
proof -
  have "(case sn_offerAnswers s idem of Some a \<Rightarrow> if isAccpMessageType (fst a) then Some a else None | None \<Rightarrow> None) = None"
    using assms by (simp add: unanswered_def split: option.split)
  then show ?thesis by (simp add: receive_offer_def andThen_query)
qed

lemma bounded_protected:
  assumes "sorted_wrt (<) (map ne_cursor (j_events j))" "e \<in> set (j_events j)" "protected e"
  shows "e \<in> set (j_events (bounded_journal b j))"
proof -
  have "ne_cursor v \<noteq> ne_cursor e" if "v \<in> set (victims b (unacked_of j))" for v
  proof
    assume c: "ne_cursor v = ne_cursor e"
    have v: "v \<in> set (j_events j)" "\<not> protected v"
      using that by (auto simp: victims_def unacked_of_def dest!: in_set_takeD)
    with sorted_cursor_distinct [OF assms(1)] assms(2) c have "v = e" by (auto simp: distinct_map dest: inj_onD)
    with v(2) assms(3) show False by simp
  qed
  with assms(2) show ?thesis by (fastforce simp: bounded_journal_def Let_def without_def)
qed

context node_store
begin

lemma read_same: "good (sn_store s) \<Longrightarrow> store_op (loadTruncations ops) s = (Inr (j_truncations (view (sn_store s))), s)"
  "good (sn_store s) \<Longrightarrow> store_op (eventsAfter ops c) s = (Inr (filter (\<lambda>e. c < ne_cursor e) (j_events (view (sn_store s)))), s)"
  using load_truncations events_after by (auto intro: store_op_reads)

lemma advances_reads:
  assumes "se_store env = ops"
  shows "keeps (advances good view) (store_op (loadTruncations (se_store env)))"
    "keeps (advances good view) (store_op (eventsAfter (se_store env) c))"
  unfolding assms by (auto simp: keeps_def advances_def read_same session_okD(1) session_grows_refl)

lemma advances_send_batches:
  assumes "se_store env = ops"
  shows "keeps (advances good view) (send_batches env now m bs out)"
proof (induction bs arbitrary: out)
  case (Cons evs bs)
  show ?case unfolding send_batches.simps by (intro kept advances_uuid advances_seal advances_reads assms Cons.IH)
qed (simp, rule kept)

lemma advances_flush: "se_store env = ops \<Longrightarrow> keeps (advances good view) (flush env now fromCursor)"
  unfolding flush_def by (intro kept advances_reads advances_send_batches; assumption)

lemma advances_reconcileSummary: "se_store env = ops \<Longrightarrow> keeps (advances good view) (reconcileSummary env now)"
  unfolding reconcileSummary_def by (intro kept advances_reads advances_seal; assumption)

lemma advances_receive_welcome:
  assumes "se_store env = ops"
  shows "keeps (advances good view) (receive_welcome env w now)"
  unfolding receive_welcome_def Let_def
  by (intro kept advances_disconnect advances_flush advances_reads advances_reconcileSummary assms; simp add: advances_same)

lemma receive_ack_run:
  assumes "se_store env = ops" and ok: "session_ok good view s" and "json_field ''cursorAck'' message = Some a"
  defines "n \<equiv> max (sn_ackedCursor s) (json_int (json_field ''highestContiguousCursor'' a))"
  obtains st where "receive_ack env message s = (Inr [], s\<lparr>sn_ackedCursor := n, sn_store := st\<rparr>)" "good st"
    "view st = (view (sn_store s))\<lparr>j_acked := n, j_events := filter (\<lambda>e. n < ne_cursor e) (j_events (view (sn_store s)))\<rparr>"
proof -
  let ?j = "view (sn_store s)" and ?s1 = "s\<lparr>sn_ackedCursor := n\<rparr>"
  obtain st where st: "store_op (setAckedCursor ops n) ?s1 = (Inr (), ?s1\<lparr>sn_store := st\<rparr>)" "good st" "view st = ?j\<lparr>j_acked := n\<rparr>"
    using store_op_commits [of good view "setAckedCursor ops n" ?s1] set_acked [OF session_okD(1) [OF ok], of n] by auto
  obtain st' where st': "store_op (pruneUpTo ops n) (?s1\<lparr>sn_store := st\<rparr>) = (Inr (), ?s1\<lparr>sn_store := st'\<rparr>)" "good st'"
    "view st' = ?j\<lparr>j_acked := n, j_events := filter (\<lambda>e. n < ne_cursor e) (j_events ?j)\<rparr>"
    using store_op_commits [of good view "pruneUpTo ops n" "?s1\<lparr>sn_store := st\<rparr>"] prune [OF st(2), of n] by (auto simp: st(3))
  have "receive_ack env message s = (Inr [], ?s1\<lparr>sn_store := st'\<rparr>)"
    using st(1) st'(1) by (simp add: receive_ack_def assms(3) andThen_def query_def update_def ok_def assms(1) n_def)
  with st'(2,3) that show thesis by simp
qed

lemma advances_receive_ack:
  assumes "se_store env = ops"
  shows "keeps (advances good view) (receive_ack env message)"
proof (cases "json_field ''cursorAck'' message")
  case None
  then have "receive_ack env message = ok []" by (simp add: receive_ack_def)
  then show ?thesis by (simp only: kept)
next
  case (Some a)
  have "session_ok good view (snd (receive_ack env message s)) \<and> session_grows view s (snd (receive_ack env message s))"
    if ok: "session_ok good view s" for s
  proof -
    note o = session_okD [OF ok]
    obtain n st where run: "receive_ack env message s = (Inr [], s\<lparr>sn_ackedCursor := n, sn_store := st\<rparr>)" "good st"
      "view st = (view (sn_store s))\<lparr>j_acked := n, j_events := filter (\<lambda>e. n < ne_cursor e) (j_events (view (sn_store s)))\<rparr>"
      and n: "sn_ackedCursor s \<le> n"
      using receive_ack_run [OF assms ok Some] by (metis max.cobounded1)
    have "accounted (view st)" unfolding run(3) by (rule accounted_ack [OF o(6)]) (simp add: o(3) n)
    then have "session_ok good view (s\<lparr>sn_ackedCursor := n, sn_store := st\<rparr>)"
      using run(2,3) o by (simp add: session_ok_def Let_def)
    moreover have "session_grows view s (s\<lparr>sn_ackedCursor := n, sn_store := st\<rparr>)"
      using n by (auto simp: session_grows_def run(3))
    ultimately show ?thesis by (simp add: run(1))
  qed
  then show ?thesis by (simp add: keeps_def advances_def)
qed

text \<open>A new answer is saved in the store before it is sent.\<close>

lemma save_answer_run:
  assumes "se_store env = ops" and ok: "session_ok good view s"
  obtains st where "store_op (saveOfferAnswer (se_store env) idem (fst a) (snd a)) (s\<lparr>sn_offerAnswers := (sn_offerAnswers s)(idem \<mapsto> a)\<rparr>)
      = (Inr (), s\<lparr>sn_offerAnswers := (sn_offerAnswers s)(idem \<mapsto> a), sn_store := st\<rparr>)" "good st"
    "view st = (view (sn_store s))\<lparr>j_answers := (j_answers (view (sn_store s)))(idem \<mapsto> a)\<rparr>"
proof -
  let ?s = "s\<lparr>sn_offerAnswers := (sn_offerAnswers s)(idem \<mapsto> a)\<rparr>"
  obtain st where "store_op (saveOfferAnswer ops idem (fst a) (snd a)) ?s = (Inr (), ?s\<lparr>sn_store := st\<rparr>)" "good st"
    "view st = (view (sn_store s))\<lparr>j_answers := (j_answers (view (sn_store s)))(idem \<mapsto> a)\<rparr>"
    using store_op_commits [of good view "saveOfferAnswer ops idem (fst a) (snd a)" ?s] save_answer [OF session_okD(1) [OF ok], of idem "fst a" "snd a"]
    by auto
  with assms(1) that show thesis by simp
qed

lemma receive_offer_new:
  fixes now i
  assumes "se_store env = ops" and ok: "session_ok good view s"
    and new: "unanswered s idem"
    and kernel: "se_decideOffer env offer (sn_kernel s) = (Inr d, k)"
  defines "a \<equiv> answer_payload env offer d now"
  obtains st where "receive_offer env offer idem i now s
      = send_answer env now idem i a (s\<lparr>sn_kernel := k, sn_offerAnswers := (sn_offerAnswers s)(idem \<mapsto> a), sn_store := st\<rparr>)" "good st"
    "view st = (view (sn_store s))\<lparr>j_answers := (j_answers (view (sn_store s)))(idem \<mapsto> a)\<rparr>"
proof -
  let ?s = "s\<lparr>sn_kernel := k\<rparr>"
  have "session_ok good view ?s" using ok by (simp add: session_ok_def)
  from save_answer_run [OF assms(1) this, of idem a] obtain st where st:
    "store_op (saveOfferAnswer (se_store env) idem (fst a) (snd a)) (?s\<lparr>sn_offerAnswers := (sn_offerAnswers ?s)(idem \<mapsto> a)\<rparr>)
      = (Inr (), ?s\<lparr>sn_offerAnswers := (sn_offerAnswers ?s)(idem \<mapsto> a), sn_store := st\<rparr>)" "good st"
    "view st = (view (sn_store ?s))\<lparr>j_answers := (j_answers (view (sn_store ?s)))(idem \<mapsto> a)\<rparr>" .
  have "receive_offer env offer idem i now s
      = send_answer env now idem i a (s\<lparr>sn_kernel := k, sn_offerAnswers := (sn_offerAnswers s)(idem \<mapsto> a), sn_store := st\<rparr>)"
    using st(1) kernel
    by (simp add: receive_offer_unanswered [OF new] andThen_def decide_offer_def Let_def a_def [symmetric] update_def)
  with st(2,3) that show thesis by simp
qed

lemma receive_offer_replay:
  "sn_offerAnswers s idem = Some a \<Longrightarrow> isAccpMessageType (fst a) \<Longrightarrow> receive_offer env offer idem i now s = send_answer env now idem i a s"
  by (simp add: receive_offer_def andThen_query)

lemma receive_offer_threw:
  "unanswered s idem \<Longrightarrow>
   se_decideOffer env offer (sn_kernel s) = (Inl e, k) \<Longrightarrow>
   receive_offer env offer idem i now s = (Inl (KernelThrew e), s\<lparr>sn_kernel := k\<rparr>)"
  by (simp add: receive_offer_unanswered andThen_def decide_offer_def)

lemma advances_receive_offer:
  fixes env :: "('s, 'k) session_env"
  assumes "se_store env = ops"
  shows "keeps (advances good view) (receive_offer env offer idem i now)"
  unfolding keeps_def
proof
  fix s :: "('s, 'k) session"
  show "advances good view s (snd (receive_offer env offer idem i now s))"
  proof (cases "unanswered s idem")
    case False
    then obtain a where "sn_offerAnswers s idem = Some a" "isAccpMessageType (fst a)" by (auto simp: unanswered_def)
    with advances_answers(3) [of good view env now idem i a] show ?thesis by (simp add: receive_offer_replay keeps_def)
  next
    case new: True
    obtain r k where kernel: "se_decideOffer env offer (sn_kernel s) = (r, k)" by (cases "se_decideOffer env offer (sn_kernel s)")
    show ?thesis
    proof (cases r)
      case (Inl e)
      with kernel new show ?thesis by (simp add: receive_offer_threw advances_same)
    next
      case (Inr d)
      define a where "a = answer_payload env offer d now"
      have "advances good view s (snd (send_answer env now idem i a
          (s\<lparr>sn_kernel := k, sn_offerAnswers := (sn_offerAnswers s)(idem \<mapsto> a), sn_store := st\<rparr>)))"
        if "session_ok good view s" "good st" "view st = (view (sn_store s))\<lparr>j_answers := (j_answers (view (sn_store s)))(idem \<mapsto> a)\<rparr>" for st
      proof (rule advance.trans)
        note o = session_okD [OF that(1)]
        have "session_ok good view (s\<lparr>sn_kernel := k, sn_offerAnswers := (sn_offerAnswers s)(idem \<mapsto> a), sn_store := st\<rparr>)"
          using that(2,3) o by (simp add: session_ok_def Let_def accounted_def has_cursor_def)
        moreover have "session_grows view s (s\<lparr>sn_kernel := k, sn_offerAnswers := (sn_offerAnswers s)(idem \<mapsto> a), sn_store := st\<rparr>)"
          using new that(3) by (auto simp: session_grows_def unanswered_def)
        ultimately show "advances good view s (s\<lparr>sn_kernel := k, sn_offerAnswers := (sn_offerAnswers s)(idem \<mapsto> a), sn_store := st\<rparr>)"
          by (simp add: advances_def)
      qed (use advances_answers(3) [of good view env now idem i a] in \<open>simp add: keeps_def\<close>)
      with receive_offer_new [OF assms _ new kernel [unfolded Inr]] show ?thesis
        unfolding a_def by (metis advances_def)
    qed
  qed
qed

lemma advances_dispatch:
  assumes "se_store env = ops"
  shows "keeps (advances good view) (dispatch env e now)"
  unfolding dispatch_def Let_def
  by (intro kept advances_receive_welcome advances_receive_ack advances_receive_offer advances_answers assms)

lemma advances_receive:
  assumes "se_store env = ops"
  shows "keeps (advances good view) (receive env raw now)"
  unfolding receive_def
  by (cases "verifySealedEnvelope (se_url env) (se_why env) (se_sha env) (se_verify env) (se_parseDate env) raw (se_cloudPublicKeyPem env) now")
    (simp_all only: verify_result.case, (intro kept advances_answers advances_check_duplicate advances_dispatch assms)+)

lemma advances_emit:
  assumes "se_store env = ops" and "valid (new_event env s kind data runId taskId now)"
  shows "advances good view s (snd (emitEvent env kind data runId taskId now s))"
  unfolding advances_def
proof
  let ?e = "new_event env s kind data runId taskId now" and ?j = "view (sn_store s)" and ?max = "se_maxBufferedEvents env"
  assume ok: "session_ok good view s"
  then obtain s' where s': "emitEvent env kind data runId taskId now s = (Inr ?e, s')" "session_ok good view s'"
    "view (sn_store s') = bounded_journal ?max (appended ?e ?j)"
    "s' = s\<lparr>sn_store := sn_store s', sn_nodeCursor := sn_nodeCursor s + 1, sn_uuids := sn_uuids s + 1\<rparr>"
    by (rule emit_run [OF assms(1) _ assms(2)])
  have "e \<in> set (j_events (view (sn_store s')))" if "e \<in> set (j_events ?j)" "protected e" for e
    unfolding s'(3)
  proof (rule bounded_protected)
    have "ne_cursor x < ne_cursor ?e" if "x \<in> set (j_events ?j)" for x
      using session_okD(5) [OF ok that] by (simp add: new_event_def)
    then show "sorted_wrt (<) (map ne_cursor (j_events (appended ?e ?j)))"
      using ascending [OF session_okD(1) [OF ok]] by (auto simp: appended_def sorted_wrt_append)
  qed (use that in \<open>simp_all add: appended_def\<close>)
  moreover have "prefix (j_truncations ?j) (j_truncations (view (sn_store s')))"
    unfolding s'(3) by (simp add: bounded_journal_def Let_def appended_def without_def)
  ultimately have "session_grows view s s'"
    by (subst s'(4)) (simp add: session_grows_def)
  with s'(1,2) show "session_ok good view (snd (emitEvent env kind data runId taskId now s))
      \<and> session_grows view s (snd (emitEvent env kind data runId taskId now s))" by simp
qed

text \<open>A process restart: the new session has the durable state, and only that, of the old one.\<close>

lemma restart_run:
  assumes "se_store env = ops" and ok: "session_ok good view s"
  shows "newSession env (sn_store s) k = Inr \<lparr>sn_store = sn_store s, sn_kernel = k, sn_nodeCursor = sn_nodeCursor s,
     sn_ackedCursor = sn_ackedCursor s, sn_offerAnswers = sn_offerAnswers s, sn_sessionId = [], sn_epoch = None, sn_outSeq = 0,
     sn_welcome = None, sn_dedup = new_dedup_index, sn_connected = False, sn_uuids = 0\<rparr>"
  using session_okD [OF ok] by (simp add: newSession_def assms(1) load_cursors load_answers)

lemma advances_restart:
  assumes "se_store env = ops" and "newSession env (sn_store s) k = Inr t"
  shows "advances good view s t"
  using restart_run [OF assms(1), of s k] assms(2) by (auto simp: advances_def session_ok_def session_grows_def)

end

subsection \<open>The life of a node\<close>

text \<open>
  The steps of a node: every method of the session, and a restart of the process, which builds a new session
  (with any kernel state) over the same store. The kernel emits events that the event schema accepts.
\<close>

inductive session_step :: "('s, 'k) session_env \<Rightarrow> ('s, 'k) session \<Rightarrow> ('s, 'k) session \<Rightarrow> bool" for env where
  step_handshake: "session_step env s (snd (startHandshake env now s))"
| step_disconnect: "session_step env s (snd (disconnect s))"
| step_emit: "valid_event (se_url env) (new_event env s kind data runId taskId now) \<Longrightarrow>
    session_step env s (snd (emitEvent env kind data runId taskId now s))"
| step_flush: "session_step env s (snd (flush env now fromCursor s))"
| step_completion: "session_step env s (snd (proposeCompletion env payload now s))"
| step_summary: "session_step env s (snd (reconcileSummary env now s))"
| step_receive: "session_step env s (snd (receive env raw now s))"
| step_restart: "newSession env (sn_store s) k = Inr t \<Longrightarrow> session_step env s t"

abbreviation session_run :: "('s, 'k) session_env \<Rightarrow> ('s, 'k) session \<Rightarrow> ('s, 'k) session \<Rightarrow> bool" where
  "session_run env \<equiv> (session_step env)\<^sup>*\<^sup>*"

abbreviation sqlite_env :: "(sqlite_store, 'k) session_env \<Rightarrow> bool" where
  "sqlite_env env \<equiv> se_store env = SqliteNodeStateStore (se_url env)"

abbreviation node_ok :: "(sqlite_store, 'k) session_env \<Rightarrow> (sqlite_store, 'k) session \<Rightarrow> bool" where
  "node_ok env \<equiv> session_ok (sqlite_good (se_url env)) sqlite_view"

lemma step_advances:
  assumes "sqlite_env env" and "session_step env s t"
  shows "advances (sqlite_good (se_url env)) sqlite_view s t"
  using assms(2)
proof cases
  case (step_emit kind data runId taskId now)
  with sqlite.advances_emit [OF assms(1) step_emit(2)] show ?thesis by simp
next
  case (step_restart k)
  then show ?thesis by (intro sqlite.advances_restart [OF assms(1)])
qed (use keepsD [OF advances_startHandshake] keepsD [OF advances_disconnect] keepsD [OF advances_answers(4)]
       keepsD [OF sqlite.advances_flush [OF assms(1)]] keepsD [OF sqlite.advances_reconcileSummary [OF assms(1)]]
       keepsD [OF sqlite.advances_receive [OF assms(1)]] in \<open>metis prod.collapse\<close>)+

lemma run_advances:
  assumes "sqlite_env env" and "session_run env s t"
  shows "advances (sqlite_good (se_url env)) sqlite_view s t"
  using assms(2)
  by (induction rule: rtranclp_induct) (auto intro: advance.refl advance.trans step_advances [OF assms(1)])

lemma first_session_ok:
  assumes "sqlite_env env" and "new_sqlite_store None = Inr st" and "newSession env st k = Inr s"
  shows "node_ok env s"
proof -
  have "sqlite_good (se_url env) st" "sqlite_view st = empty_journal"
    using assms(2) by (auto simp: new_sqlite_store_def sqlite_good_def sqlite_view_def sqlite_cursorValue_def empty_journal_def)
  moreover from this assms(3) have "s = \<lparr>sn_store = st, sn_kernel = k, sn_nodeCursor = 0, sn_ackedCursor = 0, sn_offerAnswers = (\<lambda>_. None),
     sn_sessionId = [], sn_epoch = None, sn_outSeq = 0, sn_welcome = None, sn_dedup = new_dedup_index, sn_connected = False, sn_uuids = 0\<rparr>"
    using sqlite.load_cursors [of "se_url env" st] sqlite.load_answers [of "se_url env" st]
    by (simp add: newSession_def assms(1) empty_journal_def)
  ultimately show ?thesis by (simp add: session_ok_def empty_journal_def accounted_def)
qed

lemma run_ok:
  assumes "sqlite_env env" and "new_sqlite_store None = Inr st" and "newSession env st k = Inr s0" and "session_run env s0 s"
  shows "node_ok env s"
  using run_advances [OF assms(1,4)] first_session_ok [OF assms(1-3)] by (simp add: advances_def)

subsection \<open>Offers\<close>

lemma answer_is_message: "isAccpMessageType (fst (answer_payload env offer d now))"
  by (cases d) (simp_all add: answer_payload_def Let_def isAccpMessageType_def MESSAGE_SCHEMAS_def)

lemma dispatch_offer:
  "str_field ''type'' envelope = ''work.offer'' \<Longrightarrow> dispatch env envelope now =
     andThen (orThrow (InvalidPayload ''work.offer'') (Option.bind (json_field ''payload'' envelope) (parsePayload (se_url env) ''work.offer'')))
       (\<lambda>offer. receive_offer env offer (str_field ''idempotencyKey'' envelope) (str_field ''messageId'' envelope) now)"
  by (simp add: dispatch_def Let_def)

text \<open>The message of an answer, and what sending it changes.\<close>

definition answers_with :: "string \<times> json \<Rightarrow> string \<Rightarrow> string \<Rightarrow> int \<Rightarrow> json \<Rightarrow> bool" where
  "answers_with a idem messageId sequence envelope \<longleftrightarrow> says (fst a) (snd a) sequence envelope
     \<and> json_field ''idempotencyKey'' envelope = Some (JStr idem) \<and> json_field ''causationId'' envelope = Some (JStr messageId)"

lemma send_answer_run:
  obtains e where "send_answer env now idem i a s = (Inr [e], s\<lparr>sn_outSeq := sn_outSeq s + 1, sn_uuids := sn_uuids s + 1\<rparr>)"
    "answers_with a idem i (sn_outSeq s + 1) e"
proof -
  obtain e where e: "seal env (fst a) (snd a) now [(''idempotencyKey'', JStr idem), (''causationId'', JStr i)] s
      = (Inr e, s\<lparr>sn_outSeq := sn_outSeq s + 1, sn_uuids := sn_uuids s + 1\<rparr>)"
    "says (fst a) (snd a) (sn_outSeq s + 1) e"
    "\<And>k v. map_of [(''idempotencyKey'', JStr idem), (''causationId'', JStr i)] k = Some v
       \<Longrightarrow> k \<in> {''idempotencyKey'', ''causationId'', ''expiresAt''} \<Longrightarrow> json_field k e = Some v"
    using seal_run [of env "fst a" "snd a" now "[(''idempotencyKey'', JStr idem), (''causationId'', JStr i)]" s] by blast
  have "json_field ''idempotencyKey'' e = Some (JStr idem)" "json_field ''causationId'' e = Some (JStr i)"
    by (rule e(3); simp)+
  with e(1,2) that show thesis by (simp add: send_answer_def andThen_step ok_def answers_with_def)
qed

text \<open>After an offer is answered, the answer is stored under its key and was sent.\<close>

lemma offer_answered:
  assumes "sqlite_env env" and ok: "node_ok env s"
    and run: "receive_offer env offer idem i now s = (Inr out, t)"
  obtains a e where "sn_offerAnswers t idem = Some a" "isAccpMessageType (fst a)" "out = [e]" "answers_with a idem i (sn_outSeq t) e"
proof (cases "unanswered s idem")
  case False
  then obtain a where a: "sn_offerAnswers s idem = Some a" "isAccpMessageType (fst a)" by (auto simp: unanswered_def)
  obtain e where "send_answer env now idem i a s = (Inr [e], s\<lparr>sn_outSeq := sn_outSeq s + 1, sn_uuids := sn_uuids s + 1\<rparr>)"
    "answers_with a idem i (sn_outSeq s + 1) e" by (rule send_answer_run)
  then show thesis using run a by (intro that [of a e]) (auto simp: sqlite.receive_offer_replay)
next
  case True
  obtain r k where kernel: "se_decideOffer env offer (sn_kernel s) = (r, k)" by (cases "se_decideOffer env offer (sn_kernel s)")
  with run sqlite.receive_offer_threw [OF True] obtain d where d: "r = Inr d" by (cases r) auto
  let ?a = "answer_payload env offer d now"
  obtain st where st: "receive_offer env offer idem i now s
      = send_answer env now idem i ?a (s\<lparr>sn_kernel := k, sn_offerAnswers := (sn_offerAnswers s)(idem \<mapsto> ?a), sn_store := st\<rparr>)"
    by (rule sqlite.receive_offer_new [OF assms(1) ok True kernel [unfolded d]])
  let ?s = "s\<lparr>sn_kernel := k, sn_offerAnswers := (sn_offerAnswers s)(idem \<mapsto> ?a), sn_store := st\<rparr>"
  obtain e where "send_answer env now idem i ?a ?s = (Inr [e], ?s\<lparr>sn_outSeq := sn_outSeq ?s + 1, sn_uuids := sn_uuids ?s + 1\<rparr>)"
    "answers_with ?a idem i (sn_outSeq ?s + 1) e" by (rule send_answer_run)
  then show thesis using run st answer_is_message by (intro that [of ?a e]) auto
qed

subsection \<open>Properties\<close>


text \<open>
  C13 Completion, effect and verification events survive: once such an event is in the journal of a reachable
  node it stays there, across overflows, reconnects and restarts, until the acknowledged cursor has reached
  it; the cursors never move back, and no truncation record is forgotten.
\<close>
theorem protected_until_acked:
  assumes "sqlite_env env" and "new_sqlite_store None = Inr st" and "newSession env st k = Inr s0"
    and "session_run env s0 s" and "session_run env s t"
    and "e \<in> set (j_events (sqlite_view (sn_store s)))" and "protected e"
  shows "(e \<in> set (j_events (sqlite_view (sn_store t))) \<or> ne_cursor e \<le> sn_ackedCursor t)
    \<and> sn_nodeCursor s \<le> sn_nodeCursor t \<and> sn_ackedCursor s \<le> sn_ackedCursor t
    \<and> prefix (j_truncations (sqlite_view (sn_store s))) (j_truncations (sqlite_view (sn_store t)))"
  using run_advances [OF assms(1,5)] run_ok [OF assms(1-4)] assms(6,7) by (auto simp: advances_def session_grows_def)

text \<open>
  C14 An offer is decided once: after a work offer is answered, every later offer with the same idempotency
  key, also after reconnects and process restarts, gets the same answer again, under a fresh message with its
  own causation id; the kernel is not asked again and the store is not written.
\<close>
theorem offer_answered_once:
  assumes "sqlite_env env" and "new_sqlite_store None = Inr st" and "newSession env st k = Inr s0" and "session_run env s0 s"
    and "str_field ''type'' first = ''work.offer''" and "dispatch env first now s = (Inr out, t)"
    and "session_run env t u"
    and "str_field ''type'' again = ''work.offer''" and "str_field ''idempotencyKey'' again = str_field ''idempotencyKey'' first"
    and "Option.bind (json_field ''payload'' again) (parsePayload (se_url env) ''work.offer'') = Some offer"
  shows "\<exists>a e e'. out = [e] \<and> answers_with a (str_field ''idempotencyKey'' first) (str_field ''messageId'' first) (sn_outSeq t) e
    \<and> dispatch env again later u = (Inr [e'], u\<lparr>sn_outSeq := sn_outSeq u + 1, sn_uuids := sn_uuids u + 1\<rparr>)
    \<and> answers_with a (str_field ''idempotencyKey'' first) (str_field ''messageId'' again) (sn_outSeq u + 1) e'"
proof -
  let ?idem = "str_field ''idempotencyKey'' first"
  note ok = run_ok [OF assms(1-4)]
  obtain o1 where first: "receive_offer env o1 ?idem (str_field ''messageId'' first) now s = (Inr out, t)"
    using assms(6) by (auto simp: dispatch_offer [OF assms(5)] andThen_Inr orThrow_def split: option.splits)
  obtain a e where a: "sn_offerAnswers t ?idem = Some a" "isAccpMessageType (fst a)" "out = [e]"
    "answers_with a ?idem (str_field ''messageId'' first) (sn_outSeq t) e" by (rule offer_answered [OF assms(1) ok first])
  have "node_ok env t" using keepsD [OF sqlite.advances_receive_offer [OF assms(1)] first] ok by (simp add: advances_def)
  with run_advances [OF assms(1,7)] have "session_grows sqlite_view t u" by (simp add: advances_def)
  with a(1,2) have u: "sn_offerAnswers u ?idem = Some a" unfolding session_grows_def by blast
  obtain e' where e': "send_answer env later ?idem (str_field ''messageId'' again) a u
      = (Inr [e'], u\<lparr>sn_outSeq := sn_outSeq u + 1, sn_uuids := sn_uuids u + 1\<rparr>)"
    "answers_with a ?idem (str_field ''messageId'' again) (sn_outSeq u + 1) e'" by (rule send_answer_run)
  have "dispatch env again later u = receive_offer env offer ?idem (str_field ''messageId'' again) later u"
    by (simp add: dispatch_offer [OF assms(8)] assms(9,10) andThen_def orThrow_def)
  then show ?thesis using e' a(3,4)
    by (intro exI [of _ a] exI [of _ e] exI [of _ e'] conjI) (simp_all only: sqlite.receive_offer_replay [OF u a(2)])
qed

text \<open>
  C15 Reception fails closed: a message that does not verify, or comes from another protocol, sender,
  workspace or session, changes nothing but the counters of the messages sent back, and is answered by
  nothing or by one \<open>message.nack\<close>; a forged one is never answered. A duplicate of a message that verified
  is answered by nothing and changes nothing but the duplicate index.
\<close>
theorem receive_fails_closed:
  assumes "receive env raw now s = (Inr out, t)"
  defines "verdict \<equiv> verifySealedEnvelope (se_url env) (se_why env) (se_sha env) (se_verify env) (se_parseDate env) raw (se_cloudPublicKeyPem env) now"
  shows "case verdict of
      VerifyOk envelope _ \<Rightarrow> (\<not> isExpectedCloudEnvelope env s envelope \<longrightarrow>
          t = s\<lparr>sn_outSeq := sn_outSeq t, sn_uuids := sn_uuids t\<rparr> \<and> (\<exists>e p. out = [e] \<and> says ''message.nack'' p (sn_outSeq t) e))
        \<and> (isExpectedCloudEnvelope env s envelope \<and> fst (dedup_check (str_field ''messageId'' envelope) (sn_dedup s)) \<longrightarrow>
          out = [] \<and> t = s\<lparr>sn_dedup := sn_dedup t\<rparr>)
    | VerifyFail code _ \<Rightarrow> t = s\<lparr>sn_outSeq := sn_outSeq t, sn_uuids := sn_uuids t\<rparr>
        \<and> (out = [] \<or> code \<noteq> SignatureInvalid \<and> (\<exists>e p. out = [e] \<and> says ''message.nack'' p (sn_outSeq t) e))
    | VerifyThrows \<Rightarrow> False"
proof -
  have nack: "t = s\<lparr>sn_outSeq := sn_outSeq t, sn_uuids := sn_uuids t\<rparr> \<and> (\<exists>e p. out = [e] \<and> says ''message.nack'' p (sn_outSeq t) e)"
    if "nack env now i code retry detail s = (Inr out, t)" for i code retry detail
  proof -
    let ?p = "JObj ([(''nackFor'', JStr i), (''code'', JStr code), (''retryable'', JBool retry)] @ opt_field ''detail'' detail)"
    obtain e where "seal env ''message.nack'' ?p now [] s = (Inr e, s\<lparr>sn_outSeq := sn_outSeq s + 1, sn_uuids := sn_uuids s + 1\<rparr>)"
      "says ''message.nack'' ?p (sn_outSeq s + 1) e" by (rule seal_run)
    with that show ?thesis by (auto simp: nack_def andThen_def ok_def)
  qed
  show ?thesis
  proof (cases verdict)
    case (VerifyOk envelope x)
    then have "receive env raw now s = (if \<not> isExpectedCloudEnvelope env s envelope
        then nack env now (str_field ''messageId'' envelope) ''SCHEMA_VIOLATION'' False (Some ''unexpected protocol, sender, workspace, or node session'') s
        else andThen (check_duplicate (str_field ''messageId'' envelope)) (\<lambda>dup. if dup then ok [] else dispatch env envelope now) s)"
      by (simp add: receive_def verdict_def andThen_query)
    with assms(1) VerifyOk nack show ?thesis
      by (auto simp: andThen_def check_duplicate_def ok_def split: prod.splits if_splits)
  next
    case (VerifyFail code detail)
    then have "receive env raw now s = (case raw_messageId raw of None \<Rightarrow> ok [] | Some messageId \<Rightarrow>
        if code = SignatureInvalid then ok [] else nack env now messageId (code_name code) (code = Expired) detail) s"
      by (simp add: receive_def verdict_def)
    with assms(1) VerifyFail nack show ?thesis by (auto simp: ok_def split: option.splits if_splits)
  next
    case VerifyThrows
    with assms(1) show ?thesis by (simp add: receive_def verdict_def fail_def)
  qed
qed

subsection \<open>A concrete node\<close>

definition example_node :: "(sqlite_store, unit) session" where
  "example_node = \<lparr>sn_store = \<lparr>ss_node_events = [], ss_node_cursors = (\<lambda>_. None), ss_offer_answers = (\<lambda>_. None), ss_truncations = [],
     ss_user_version = 1\<rparr>, sn_kernel = (), sn_nodeCursor = 0, sn_ackedCursor = 0, sn_offerAnswers = (\<lambda>_. None),
     sn_sessionId = [], sn_epoch = None, sn_outSeq = 0, sn_welcome = None, sn_dedup = new_dedup_index, sn_connected = False, sn_uuids = 0\<rparr>"

abbreviation example_node_env :: "(sqlite_store, unit) session_env" where
  "example_node_env \<equiv> example_env (SqliteNodeStateStore (\<lambda>_. True))"

definition example_offer :: json where
  "example_offer = JObj [(''taskId'', JStr example_uuid), (''runId'', JStr example_uuid), (''taskRevision'', JNum 1),
     (''planRevision'', JObj [(''digest'', JStr (example_sha [])), (''baseCommit'', JStr (replicate 40 CHR ''a''))]),
     (''lease'', JObj [(''leaseId'', JStr example_uuid), (''expiresAt'', JStr ''2026-01-01T00:00:00Z''), (''renewIntervalMs'', JNum 5000)]),
     (''policyBundle'', JObj [(''digest'', JStr (''sha256:'' @ example_sha [])), (''bytesUrl'', JStr ''https://b'')]),
     (''requiredCapabilities'', JArr []), (''requiredSecrets'', JArr [])]"

definition offer_envelope :: "string \<Rightarrow> json" where
  "offer_envelope messageId = JObj [(''type'', JStr ''work.offer''), (''messageId'', JStr messageId), (''idempotencyKey'', JStr ''offer-1''),
     (''payload'', example_offer)]"

lemma example_offer_ok: "parsePayload (\<lambda>_. True) ''work.offer'' example_offer = Some example_offer"
proof -
  have "parse (\<lambda>_. True) Sha256HexSchema (JStr (example_sha [])) = Some (JStr (example_sha []))"
    "parse (\<lambda>_. True) GitShaSchema (JStr (replicate 40 CHR ''a'')) = Some (JStr (replicate 40 CHR ''a''))" by code_simp+
  then show ?thesis
    using example_uuid_ok [of "\<lambda>_. True"] example_digest_ok [of "[]"] example_date_ok
    by (simp add: parsePayload_def MESSAGE_SCHEMAS_def WorkOfferSchema_def example_offer_def
      DigestSchema_def DateTimeSchema_def positive_def any_string_def within_def is_safe_int_def max_safe_int_def)
qed

lemma offer_envelope_fields:
  "str_field ''type'' (offer_envelope i) = ''work.offer''" "str_field ''messageId'' (offer_envelope i) = i"
  "str_field ''idempotencyKey'' (offer_envelope i) = ''offer-1''" "json_field ''payload'' (offer_envelope i) = Some example_offer"
  by (simp_all add: offer_envelope_def str_field_def)

lemma example_node_start:
  "sqlite_env example_node_env" "new_sqlite_store None = Inr (sn_store example_node)"
  "newSession example_node_env (sn_store example_node) () = Inr example_node"
  by (simp_all add: example_env_def example_node_def new_sqlite_store_def SCHEMA_VERSION_def newSession_def SqliteNodeStateStore_def
    sqlite_cursorValue_def query_def)

definition example_emitted :: "(sqlite_store, unit) session" where
  "example_emitted = snd (emitEvent example_node_env ''verification.done'' [] None None 0 example_node)"

lemma example_emitted_run:
  "session_run example_node_env example_node example_emitted" "sn_nodeCursor example_emitted = 1"
  "\<exists>e \<in> set (j_events (sqlite_view (sn_store example_emitted))). protected e \<and> ne_cursor e = 1"
proof -
  let ?e = "new_event example_node_env example_node ''verification.done'' [] None None 0"
  have v: "valid_event (\<lambda>_. True) ?e" by (rule example_new_event_valid) (simp_all add: example_node_def)
  have url: "se_url example_node_env = (\<lambda>_. True)" by (simp add: example_env_def)
  have "session_step example_node_env example_node example_emitted"
    unfolding example_emitted_def by (intro session_step.step_emit) (simp only: url v)
  then show "session_run example_node_env example_node example_emitted" by simp
  have ok: "session_ok (sqlite_good (\<lambda>_. True)) sqlite_view example_node"
    using first_session_ok [OF example_node_start] unfolding url .
  obtain s' where s': "emitEvent example_node_env ''verification.done'' [] None None 0 example_node = (Inr ?e, s')"
    "session_ok (sqlite_good (\<lambda>_. True)) sqlite_view s'"
    "sqlite_view (sn_store s') = bounded_journal (se_maxBufferedEvents example_node_env) (appended ?e (sqlite_view (sn_store example_node)))"
    "s' = example_node\<lparr>sn_store := sn_store s', sn_nodeCursor := sn_nodeCursor example_node + 1, sn_uuids := sn_uuids example_node + 1\<rparr>"
    by (rule sqlite.emit_run [OF example_node_start(1) [unfolded url] ok v])
  have e: "protected ?e" "ne_cursor ?e = 1"
    by (simp_all add: protected_def PROTECTED_KIND_PREFIXES_def new_event_def starts_with_def example_node_def)
  have "j_events (sqlite_view (sn_store example_node)) = []" by (simp add: example_node_def sqlite_view_def)
  then have "?e \<in> set (j_events (sqlite_view (sn_store s')))"
    unfolding s'(3) by (intro bounded_protected) (simp_all add: appended_def e)
  with e s'(1) show "\<exists>e \<in> set (j_events (sqlite_view (sn_store example_emitted))). protected e \<and> ne_cursor e = 1"
    unfolding example_emitted_def by auto
  show "sn_nodeCursor example_emitted = 1"
    unfolding example_emitted_def by (simp only: s'(1) snd_conv) (subst s'(4), simp add: example_node_def)
qed


lemma protected_until_acked_witness:
  "\<exists>e. protected e \<and> ne_cursor e = 1 \<and> (e \<in> set (j_events (sqlite_view (sn_store (snd (startHandshake example_node_env 0 example_emitted)))))
     \<or> ne_cursor e \<le> sn_ackedCursor (snd (startHandshake example_node_env 0 example_emitted)))"
proof -
  obtain e where e: "e \<in> set (j_events (sqlite_view (sn_store example_emitted)))" "protected e" "ne_cursor e = 1"
    using example_emitted_run(3) by blast
  have "session_run example_node_env example_emitted (snd (startHandshake example_node_env 0 example_emitted))"
    by (intro r_into_rtranclp session_step.step_handshake)
  from protected_until_acked [OF example_node_start example_emitted_run(1) this e(1,2)] e(2,3) show ?thesis by blast
qed

lemma example_answered:
  obtains e t where "dispatch example_node_env (offer_envelope ''m1'') 0 example_node = (Inr [e], t)"
proof -
  let ?a = "answer_payload example_node_env example_offer OfferAccept 0"
  have k: "se_decideOffer example_node_env example_offer (sn_kernel example_node) = (Inr OfferAccept, ())" by (simp add: example_env_def ok_def)
  have new: "unanswered example_node ''offer-1''" by (simp add: unanswered_def example_node_def)
  obtain st where st: "receive_offer example_node_env example_offer ''offer-1'' ''m1'' 0 example_node
      = send_answer example_node_env 0 ''offer-1'' ''m1'' ?a
          (example_node\<lparr>sn_kernel := (), sn_offerAnswers := (sn_offerAnswers example_node)(''offer-1'' \<mapsto> ?a), sn_store := st\<rparr>)"
    by (rule sqlite.receive_offer_new [OF example_node_start(1) first_session_ok [OF example_node_start] new k])
  have "se_url example_node_env = (\<lambda>_. True)" by (simp add: example_env_def)
  then have "dispatch example_node_env (offer_envelope ''m1'') 0 example_node
      = receive_offer example_node_env example_offer ''offer-1'' ''m1'' 0 example_node"
    by (simp add: dispatch_offer offer_envelope_fields andThen_def orThrow_def example_offer_ok)
  with st send_answer_run [of example_node_env 0 "''offer-1''" "''m1''" ?a] that show thesis by metis
qed

text \<open>The node answers the offer, its process restarts, and the offer comes again.\<close>

lemma offer_answered_once_witness:
  "\<exists>t u a e e'. dispatch example_node_env (offer_envelope ''m1'') 0 example_node = (Inr [e], t)
     \<and> newSession example_node_env (sn_store t) () = Inr u
     \<and> fst (dispatch example_node_env (offer_envelope ''m2'') 1 u) = Inr [e']
     \<and> answers_with a ''offer-1'' ''m1'' (sn_outSeq t) e \<and> answers_with a ''offer-1'' ''m2'' (sn_outSeq u + 1) e'"
proof -
  obtain e t where first: "dispatch example_node_env (offer_envelope ''m1'') 0 example_node = (Inr [e], t)" by (rule example_answered)
  have "node_ok example_node_env t"
    using keepsD [OF sqlite.advances_dispatch [OF example_node_start(1)] first] first_session_ok [OF example_node_start]
    by (simp add: advances_def)
  then obtain u where u: "newSession example_node_env (sn_store t) () = Inr u"
    using sqlite.restart_run [OF example_node_start(1)] by blast
  then have run: "session_run example_node_env t u" by (intro r_into_rtranclp session_step.step_restart)
  have payload: "Option.bind (json_field ''payload'' (offer_envelope ''m2'')) (parsePayload (se_url example_node_env) ''work.offer'') = Some example_offer"
    by (simp add: offer_envelope_fields example_offer_ok example_env_def)
  from offer_answered_once [OF example_node_start rtranclp.rtrancl_refl offer_envelope_fields(1) first run offer_envelope_fields(1) _ payload,
      of 1] first u
  show ?thesis by (fastforce simp: offer_envelope_fields)
qed

lemma receive_fails_closed_witness:
  "\<exists>t. receive example_node_env JNull 0 example_node = (Inr [], t)
     \<and> t = example_node\<lparr>sn_outSeq := sn_outSeq t, sn_uuids := sn_uuids t\<rparr>"
proof -
  have v: "verifySealedEnvelope (se_url example_node_env) (se_why example_node_env) (se_sha example_node_env) (se_verify example_node_env)
      (se_parseDate example_node_env) JNull (se_cloudPublicKeyPem example_node_env) 0 = VerifyFail SchemaViolation (Some ''envelope shape'')"
    by (simp add: verifySealedEnvelope_def EnvelopeSchema_def example_env_def)
  then have "receive example_node_env JNull 0 example_node = (Inr [], example_node)"
    by (simp add: receive_def raw_messageId_def ok_def)
  with receive_fails_closed [OF this, unfolded v] show ?thesis by auto
qed

end
