(* ===== verification/DbState.thy ===== *)
theory DbState
  imports Protocol "HOL-Library.Sublist"
begin

text \<open>
  \<open>src/db.ts\<close>, the state: the rows of the eight tables, the database, the constraints of the
  schema (\<open>init\<close>) as the checks of the INSERT statements, the errors the operations throw, and
  the invariant \<open>db_wf\<close> with its preservation by the statements.

  Columns that hold an enumeration hold its value (the record types the API returns are these
  rows under camel-case names, so one record serves both), and JSON columns hold the JSON value.
  \<open>rowid\<close> order is list order: no statement of the program deletes from the seven task tables.
\<close>

subsection \<open>Rows\<close>

datatype step_status = SPending | SRunning | SSucceeded | SFailed | SSkipped

datatype event_level = LDebug | LInfo | LWarn | LError

datatype review_status = RevPending | RevApproved | RevReworkRequested | RevRejected

datatype msg_direction = UserToAgent | AgentToUser | System

datatype delivery_status = DQueued | DDelivered | DUnsupported | DFailed

datatype idem_state = IPending | ICompleted

record task_row =
  t_id :: string
  t_goal :: string
  t_repo :: string
  t_base_ref :: string
  t_requested_agent :: agent_selection
  t_priority :: priority
  t_context :: "string option"
  t_success_criteria :: "string list"
  t_verification_command :: "string option"
  t_handoff_required :: bool
  t_status :: task_status
  t_route_mode :: route_mode
  t_route_risk :: risk_level
  t_route_reasons :: "string list"
  t_latest_update :: string
  t_claimed_by :: "string option"
  t_claimed_at :: "string option"
  t_created_at :: string
  t_updated_at :: string

record step_row =
  s_id :: string
  s_task_id :: string
  s_sequence_no :: int
  s_agent :: agent_kind
  s_role :: route_role
  s_required :: bool
  s_reason :: string
  s_status :: step_status
  s_run_id :: "string option"
  s_created_at :: string
  s_updated_at :: string

record run_row =
  r_id :: string
  r_task_id :: string
  r_route_step_id :: string
  r_adapter_run_id :: "string option"
  r_agent :: agent_kind
  r_role :: route_role
  r_attempt :: nat
  r_status :: run_status
  r_pid :: "int option"
  r_worktree_path :: "string option"
  r_branch :: "string option"
  r_base_commit :: "string option"
  r_stdout_path :: "string option"
  r_stderr_path :: "string option"
  r_result_path :: "string option"
  r_exit_code :: "int option"
  r_signal :: "string option"
  r_summary :: "string option"
  r_error :: "string option"
  r_usage_json :: "string option"
  r_started_at :: "string option"
  r_finished_at :: "string option"
  r_created_at :: string
  r_updated_at :: string

record event_row =
  e_id :: nat
  e_task_id :: string
  e_run_id :: "string option"
  e_type :: string
  e_level :: event_level
  e_message :: string
  e_data :: "json option"
  e_created_at :: string

record artifact_row =
  a_id :: string
  a_task_id :: string
  a_run_id :: "string option"
  a_kind :: artifact_kind
  a_path :: string
  a_relative_path :: "string option"
  a_sha256 :: string
  a_size_bytes :: int
  a_metadata :: "json option"
  a_created_at :: string

record message_row =
  m_id :: string
  m_task_id :: string
  m_run_id :: "string option"
  m_direction :: msg_direction
  m_role :: string
  m_body :: string
  m_delivery_status :: delivery_status
  m_created_at :: string

record review_row =
  v_id :: string
  v_task_id :: string
  v_run_id :: "string option"
  v_reviewer :: "string option"
  v_status :: review_status
  v_note :: "string option"
  v_created_at :: string
  v_updated_at :: string

record idem_row =
  k_key :: string
  k_request_hash :: string
  k_state :: idem_state
  k_response_status :: "int option"
  k_response_body :: "json option"
  k_created_at :: string
  k_updated_at :: string

text \<open>\<open>event_seq\<close> is the last id AUTOINCREMENT gave out for the table of events.\<close>

record db =
  tasks :: "task_row list"
  route_steps :: "step_row list"
  runs :: "run_row list"
  events :: "event_row list"
  event_seq :: nat
  artifacts :: "artifact_row list"
  messages :: "message_row list"
  reviews :: "review_row list"
  idempotency_keys :: "idem_row list"

definition empty_db :: db where
  "empty_db = \<lparr>tasks = [], route_steps = [], runs = [], events = [], event_seq = 0,
     artifacts = [], messages = [], reviews = [], idempotency_keys = []\<rparr>"

subsection \<open>Errors\<close>

datatype db_error =
    SqliteConstraint string
  | ValidationFailed
  | BadTransition transition_error
  | TaskNotFound string
  | TaskDisappeared string
  | RunDisappeared string
  | EventDisappeared
  | ArtifactDisappeared
  | ReviewDisappeared string
  | StepNotFound string
  | RunNotFound string
  | MessageNotFound string
  | WorkerRequired string
  | NotClaimedBy string string
  | InvalidCutoff string
  | ChangedInRecovery string
  | TaskChangedConcurrently string
  | StepChangedConcurrently string
  | RunChangedConcurrently string
  | LimitOutOfRange int
  | CursorOutOfRange int
  | BadSha256
  | BadArtifactSize
  | MetadataNotObject
  | ArtifactConflict string
  | ReviewDecided string
  | CannotFinalize string task_status
  | NotWaitingForReview string
  | NoPendingReview string
  | ReviewChangedConcurrently string
  | ReworkNoteRequired
  | NotBlocked string
  | UnconfirmedRemote string string
  | IdemValueRequired string
  | IdemValueTooLong string
  | BadResponseStatus
  | IdemNoReplay string
  | IdemDisappeared string
  | IdemNotClaimed string
  | IdemHashConflict string
  | IdemUnverified string
  | IdemDifferentResponse string

type_synonym 'a dbop = "(db_error, db, 'a) eff"

subsection \<open>Statements\<close>

text \<open>
  INSERT checks the constraints of the schema: primary keys, UNIQUE, NOT NULL and CHECK by the
  row type, and the foreign keys (\<open>PRAGMA foreign_keys = ON\<close>).
\<close>

definition sql_insert ::
  "(('r list \<Rightarrow> 'r list) \<Rightarrow> db \<Rightarrow> db) \<Rightarrow> ('r \<Rightarrow> db \<Rightarrow> bool) \<Rightarrow> string \<Rightarrow> 'r \<Rightarrow> unit dbop" where
  [eff_simps]: "sql_insert upd constraints name r s =
     (if constraints r s then (Inr (), upd (\<lambda>rows. rows @ [r]) s) else (Inl (SqliteConstraint name), s))"

definition has_task :: "string \<Rightarrow> db \<Rightarrow> bool" where
  "has_task i s \<longleftrightarrow> i \<in> t_id ` set (tasks s)"

definition has_run :: "string option \<Rightarrow> db \<Rightarrow> bool" where
  "has_run i s \<longleftrightarrow> (case i of None \<Rightarrow> True | Some j \<Rightarrow> j \<in> r_id ` set (runs s))"

definition task_constraints :: "task_row \<Rightarrow> db \<Rightarrow> bool" where
  "task_constraints r s \<longleftrightarrow> t_id r \<notin> t_id ` set (tasks s)"

definition step_constraints :: "step_row \<Rightarrow> db \<Rightarrow> bool" where
  "step_constraints r s \<longleftrightarrow> s_id r \<notin> s_id ` set (route_steps s) \<and> has_task (s_task_id r) s"

definition run_constraints :: "run_row \<Rightarrow> db \<Rightarrow> bool" where
  "run_constraints r s \<longleftrightarrow> r_id r \<notin> r_id ` set (runs s)
     \<and> (r_route_step_id r, r_attempt r) \<notin> (\<lambda>q. (r_route_step_id q, r_attempt q)) ` set (runs s)
     \<and> has_task (r_task_id r) s \<and> r_route_step_id r \<in> s_id ` set (route_steps s)"

definition event_constraints :: "event_row \<Rightarrow> db \<Rightarrow> bool" where
  "event_constraints r s \<longleftrightarrow> has_task (e_task_id r) s \<and> has_run (e_run_id r) s"

definition artifact_constraints :: "artifact_row \<Rightarrow> db \<Rightarrow> bool" where
  "artifact_constraints r s \<longleftrightarrow> a_id r \<notin> a_id ` set (artifacts s)
     \<and> has_task (a_task_id r) s \<and> has_run (a_run_id r) s"

definition message_constraints :: "message_row \<Rightarrow> db \<Rightarrow> bool" where
  "message_constraints r s \<longleftrightarrow> m_id r \<notin> m_id ` set (messages s)
     \<and> has_task (m_task_id r) s \<and> has_run (m_run_id r) s"

definition review_constraints :: "review_row \<Rightarrow> db \<Rightarrow> bool" where
  "review_constraints r s \<longleftrightarrow> v_id r \<notin> v_id ` set (reviews s)
     \<and> has_task (v_task_id r) s \<and> has_run (v_run_id r) s"

definition insert_task :: "task_row \<Rightarrow> unit dbop" where
  "insert_task = sql_insert tasks_update task_constraints ''tasks''"

definition insert_step :: "step_row \<Rightarrow> unit dbop" where
  "insert_step = sql_insert route_steps_update step_constraints ''route_steps''"

definition insert_run :: "run_row \<Rightarrow> unit dbop" where
  "insert_run = sql_insert runs_update run_constraints ''runs''"

definition insert_artifact :: "artifact_row \<Rightarrow> unit dbop" where
  "insert_artifact = sql_insert artifacts_update artifact_constraints ''artifacts''"

definition insert_message :: "message_row \<Rightarrow> unit dbop" where
  "insert_message = sql_insert messages_update message_constraints ''messages''"

definition insert_review :: "review_row \<Rightarrow> unit dbop" where
  "insert_review = sql_insert reviews_update review_constraints ''reviews''"

text \<open>An event gets the next id of the sequence, which \<open>lastID\<close> returns.\<close>

definition insert_event ::
  "string \<Rightarrow> string option \<Rightarrow> string \<Rightarrow> event_level \<Rightarrow> string \<Rightarrow> json option \<Rightarrow> string \<Rightarrow> nat dbop" where
  "insert_event task run ty level msg data ts s =
     (let r = \<lparr>e_id = event_seq s + 1, e_task_id = task, e_run_id = run, e_type = ty,
               e_level = level, e_message = msg, e_data = data, e_created_at = ts\<rparr>
      in if event_constraints r s
         then (Inr (e_id r), s\<lparr>events := events s @ [r], event_seq := event_seq s + 1\<rparr>)
         else (Inl (SqliteConstraint ''events''), s))"

subsection \<open>The tables as instances of the table contract\<close>

interpretation task_tbl: table tasks tasks_update t_id by unfold_locales (auto intro!: db.equality)
interpretation step_tbl: table route_steps route_steps_update s_id by unfold_locales (auto intro!: db.equality)
interpretation run_tbl: table runs runs_update r_id by unfold_locales (auto intro!: db.equality)
interpretation event_tbl: table events events_update e_id by unfold_locales (auto intro!: db.equality)
interpretation artifact_tbl: table artifacts artifacts_update a_id by unfold_locales (auto intro!: db.equality)
interpretation message_tbl: table messages messages_update m_id by unfold_locales (auto intro!: db.equality)
interpretation review_tbl: table reviews reviews_update v_id by unfold_locales (auto intro!: db.equality)
interpretation idem_tbl: table idempotency_keys idempotency_keys_update k_key by unfold_locales (auto intro!: db.equality)

subsection \<open>The invariant\<close>

definition task_claim_ok :: "task_row \<Rightarrow> bool" where
  "task_claim_ok r \<longleftrightarrow> (t_status r \<noteq> TRunning \<longrightarrow> t_claimed_by r = None \<and> t_claimed_at r = None)"

definition idem_check :: "idem_row \<Rightarrow> bool" where
  "idem_check r \<longleftrightarrow> (case k_state r of
     IPending \<Rightarrow> k_response_status r = None \<and> k_response_body r = None
   | ICompleted \<Rightarrow> (case k_response_status r of None \<Rightarrow> False | Some c \<Rightarrow> 100 \<le> c \<and> c \<le> 599)
       \<and> k_response_body r \<noteq> None)"

definition evidence_key :: "artifact_row \<Rightarrow> string option \<times> string" where
  "evidence_key a = (a_run_id a, a_path a)"

definition attempt_key :: "run_row \<Rightarrow> string \<times> nat" where
  "attempt_key r = (r_route_step_id r, r_attempt r)"

definition keys_ok :: "db \<Rightarrow> bool" where
  "keys_ok s \<longleftrightarrow> unique_key t_id (tasks s) \<and> unique_key s_id (route_steps s) \<and> unique_key r_id (runs s)
     \<and> unique_key attempt_key (runs s) \<and> unique_key a_id (artifacts s)
     \<and> unique_key m_id (messages s) \<and> unique_key v_id (reviews s)
     \<and> unique_key k_key (idempotency_keys s)"

definition evidence_ok :: "db \<Rightarrow> bool" where
  "evidence_ok s \<longleftrightarrow> unique_key evidence_key (artifacts s)"

definition events_ok :: "db \<Rightarrow> bool" where
  "events_ok s \<longleftrightarrow> sorted_wrt (<) (map e_id (events s)) \<and> (\<forall>e \<in> set (events s). e_id e \<le> event_seq s)"

definition refs_ok :: "db \<Rightarrow> bool" where
  "refs_ok s \<longleftrightarrow> (\<forall>r \<in> set (route_steps s). has_task (s_task_id r) s)
     \<and> (\<forall>r \<in> set (runs s). has_task (r_task_id r) s \<and> r_route_step_id r \<in> s_id ` set (route_steps s))
     \<and> (\<forall>r \<in> set (events s). has_task (e_task_id r) s \<and> has_run (e_run_id r) s)
     \<and> (\<forall>r \<in> set (artifacts s). has_task (a_task_id r) s \<and> has_run (a_run_id r) s)
     \<and> (\<forall>r \<in> set (messages s). has_task (m_task_id r) s \<and> has_run (m_run_id r) s)
     \<and> (\<forall>r \<in> set (reviews s). has_task (v_task_id r) s \<and> has_run (v_run_id r) s)"

definition rows_ok :: "db \<Rightarrow> bool" where
  "rows_ok s \<longleftrightarrow> (\<forall>r \<in> set (tasks s). task_claim_ok r) \<and> (\<forall>r \<in> set (idempotency_keys s). idem_check r)"

definition db_wf :: "db \<Rightarrow> bool" where
  "db_wf s \<longleftrightarrow> keys_ok s \<and> evidence_ok s \<and> events_ok s \<and> refs_ok s \<and> rows_ok s"

lemma db_wfD:
  assumes "db_wf s"
  shows "unique_key t_id (tasks s)" "unique_key s_id (route_steps s)" "unique_key r_id (runs s)"
    "unique_key attempt_key (runs s)" "unique_key a_id (artifacts s)" "unique_key m_id (messages s)"
    "unique_key v_id (reviews s)" "unique_key k_key (idempotency_keys s)"
    "unique_key evidence_key (artifacts s)"
  using assms by (auto simp: db_wf_def keys_ok_def evidence_ok_def)

lemma unique_key_snoc [simp]:
  "unique_key key (rows @ [r]) \<longleftrightarrow> unique_key key rows \<and> key r \<notin> key ` set rows"
  by (auto simp: unique_key_def)

lemma has_task_simps [simp]:
  "has_task i (tasks_update f s) = (i \<in> t_id ` set (f (tasks s)))"
  "has_task i (route_steps_update g2 s) = has_task i s" "has_task i (runs_update g3 s) = has_task i s"
  "has_task i (events_update g4 s) = has_task i s" "has_task i (event_seq_update g9 s) = has_task i s"
  "has_task i (artifacts_update g5 s) = has_task i s" "has_task i (messages_update g6 s) = has_task i s"
  "has_task i (reviews_update g7 s) = has_task i s" "has_task i (idempotency_keys_update g8 s) = has_task i s"
  by (simp_all add: has_task_def)

lemma has_run_simps [simp]:
  "has_run i (tasks_update g1 s) = has_run i s" "has_run i (route_steps_update g2 s) = has_run i s"
  "has_run i (events_update g4 s) = has_run i s" "has_run i (event_seq_update g9 s) = has_run i s"
  "has_run i (artifacts_update g5 s) = has_run i s" "has_run i (messages_update g6 s) = has_run i s"
  "has_run i (reviews_update g7 s) = has_run i s" "has_run i (idempotency_keys_update g8 s) = has_run i s"
  by (simp_all add: has_run_def split: option.splits)

lemmas insert_defs = insert_task_def insert_step_def insert_run_def insert_artifact_def
  insert_message_def insert_review_def sql_insert_def

lemmas constraint_defs = task_constraints_def step_constraints_def run_constraints_def
  artifact_constraints_def message_constraints_def review_constraints_def event_constraints_def

lemma db_wf_insert_task: "task_claim_ok r \<Longrightarrow> preserves db_wf (insert_task r)"
  unfolding preserves_def
  by (auto simp: insert_defs constraint_defs db_wf_def keys_ok_def evidence_ok_def events_ok_def
      refs_ok_def rows_ok_def has_task_def)

lemma db_wf_insert_step: "preserves db_wf (insert_step r)"
  unfolding preserves_def
  by (auto simp: insert_defs constraint_defs db_wf_def keys_ok_def evidence_ok_def events_ok_def
      refs_ok_def rows_ok_def)

lemma db_wf_insert_run: "preserves db_wf (insert_run r)"
  unfolding preserves_def
  by (auto simp: insert_defs constraint_defs db_wf_def keys_ok_def evidence_ok_def events_ok_def
      refs_ok_def rows_ok_def has_run_def attempt_key_def split: option.splits)

lemma db_wf_insert_message: "preserves db_wf (insert_message r)"
  unfolding preserves_def
  by (auto simp: insert_defs constraint_defs db_wf_def keys_ok_def evidence_ok_def events_ok_def
      refs_ok_def rows_ok_def)

lemma db_wf_insert_review: "preserves db_wf (insert_review r)"
  unfolding preserves_def
  by (auto simp: insert_defs constraint_defs db_wf_def keys_ok_def evidence_ok_def events_ok_def
      refs_ok_def rows_ok_def)

lemma db_wf_insert_event: "preserves db_wf (insert_event task run ty level msg data ts)"
  unfolding preserves_def
  by (auto simp: insert_event_def Let_def constraint_defs db_wf_def keys_ok_def evidence_ok_def
      events_ok_def refs_ok_def rows_ok_def sorted_wrt_append le_imp_less_Suc)

lemmas db_wf_insert [preserves_rules] = db_wf_insert_task db_wf_insert_step db_wf_insert_run
  db_wf_insert_message db_wf_insert_review db_wf_insert_event

lemma has_run_update_runs:
  assumes "\<And>r. P r \<Longrightarrow> r_id (f r) = r_id r"
  shows "has_run i (runs_update (update_rows P f) s) = has_run i s"
  using key_image_update_rows [of P r_id f "runs s"] assms
  by (simp add: has_run_def split: option.splits)

lemmas wf_parts = db_wf_def keys_ok_def evidence_ok_def events_ok_def refs_ok_def rows_ok_def

lemma db_wf_update_tasks:
  assumes "\<And>r. P r \<Longrightarrow> t_id (f r) = t_id r" and "\<And>r. P r \<Longrightarrow> task_claim_ok r \<Longrightarrow> task_claim_ok (f r)"
  shows "preserves db_wf (sql_update tasks tasks_update P f)"
  unfolding preserves_def
proof (intro allI impI)
  fix s assume "db_wf s"
  then show "db_wf (snd (sql_update tasks tasks_update P f s))"
    using unique_key_update_rows [of P t_id f] key_image_update_rows [of P t_id f]
      ball_update_rows [of "tasks s" task_claim_ok P f] assms
    by (simp add: sql_update_def wf_parts has_task_def)
qed

lemma db_wf_update_steps:
  assumes "\<And>r. P r \<Longrightarrow> s_id (f r) = s_id r \<and> s_task_id (f r) = s_task_id r"
  shows "preserves db_wf (sql_update route_steps route_steps_update P f)"
  unfolding preserves_def
proof (intro allI impI)
  fix s assume "db_wf s"
  then show "db_wf (snd (sql_update route_steps route_steps_update P f s))"
    using unique_key_update_rows [of P s_id f] key_image_update_rows [of P s_id f]
      ball_update_rows [of "route_steps s" "\<lambda>r. has_task (s_task_id r) s" P f] assms
    by (simp add: sql_update_def wf_parts)
qed

lemma db_wf_update_runs:
  assumes "\<And>r. P r \<Longrightarrow> r_id (f r) = r_id r \<and> r_task_id (f r) = r_task_id r
      \<and> r_route_step_id (f r) = r_route_step_id r \<and> r_attempt (f r) = r_attempt r"
  shows "preserves db_wf (sql_update runs runs_update P f)"
  unfolding preserves_def
proof (intro allI impI)
  fix s assume "db_wf s"
  then show "db_wf (snd (sql_update runs runs_update P f s))"
    using unique_key_update_rows [of P r_id f] unique_key_update_rows [of P attempt_key f]
      ball_update_rows [of "runs s" "\<lambda>r. has_task (r_task_id r) s
         \<and> r_route_step_id r \<in> s_id ` set (route_steps s)" P f] assms
    by (simp add: sql_update_def wf_parts has_run_update_runs attempt_key_def has_task_def)
qed

lemma db_wf_update_messages:
  assumes "\<And>r. P r \<Longrightarrow> m_id (f r) = m_id r \<and> m_task_id (f r) = m_task_id r \<and> m_run_id (f r) = m_run_id r"
  shows "preserves db_wf (sql_update messages messages_update P f)"
  unfolding preserves_def
proof (intro allI impI)
  fix s assume "db_wf s"
  then show "db_wf (snd (sql_update messages messages_update P f s))"
    using unique_key_update_rows [of P m_id f]
      ball_update_rows [of "messages s" "\<lambda>r. has_task (m_task_id r) s \<and> has_run (m_run_id r) s" P f] assms
    by (simp add: sql_update_def wf_parts)
qed

lemma db_wf_update_reviews:
  assumes "\<And>r. P r \<Longrightarrow> v_id (f r) = v_id r \<and> v_task_id (f r) = v_task_id r \<and> v_run_id (f r) = v_run_id r"
  shows "preserves db_wf (sql_update reviews reviews_update P f)"
  unfolding preserves_def
proof (intro allI impI)
  fix s assume "db_wf s"
  then show "db_wf (snd (sql_update reviews reviews_update P f s))"
    using unique_key_update_rows [of P v_id f]
      ball_update_rows [of "reviews s" "\<lambda>r. has_task (v_task_id r) s \<and> has_run (v_run_id r) s" P f] assms
    by (simp add: sql_update_def wf_parts)
qed

lemma db_wf_update_idem:
  assumes "\<And>r. P r \<Longrightarrow> k_key (f r) = k_key r" and "\<And>r. P r \<Longrightarrow> idem_check r \<Longrightarrow> idem_check (f r)"
  shows "preserves db_wf (sql_update idempotency_keys idempotency_keys_update P f)"
  unfolding preserves_def
proof (intro allI impI)
  fix s assume "db_wf s"
  then show "db_wf (snd (sql_update idempotency_keys idempotency_keys_update P f s))"
    using unique_key_update_rows [of P k_key f]
      ball_update_rows [of "idempotency_keys s" idem_check P f] assms
    by (simp add: sql_update_def wf_parts)
qed

lemmas db_wf_update [preserves_rules] = db_wf_update_tasks db_wf_update_steps db_wf_update_runs
  db_wf_update_messages db_wf_update_reviews db_wf_update_idem

lemma preserves_queries [preserves_rules]:
  "preserves I (sql_all get P)" "preserves I (sql_get get P)"
  by (simp_all add: preserves_def eff_simps)

subsection \<open>How a database operation may change the rows\<close>

text \<open>
  \<open>moved_by M key status xs ys\<close>: the rows of \<open>xs\<close> are still in \<open>ys\<close>, in the same order and
  before any new row, under the same key, and the status of each is unchanged or moved by a pair of
  \<open>M\<close>.
\<close>

definition moved_by :: "('st \<times> 'st) set \<Rightarrow> ('r \<Rightarrow> 'k) \<Rightarrow> ('r \<Rightarrow> 'st) \<Rightarrow> 'r list \<Rightarrow> 'r list \<Rightarrow> bool" where
  "moved_by M key st xs ys \<longleftrightarrow> length xs \<le> length ys \<and>
     (\<forall>i < length xs. key (ys ! i) = key (xs ! i) \<and>
        (st (ys ! i) = st (xs ! i) \<or> (st (xs ! i), st (ys ! i)) \<in> M))"

lemma moved_by_refl [simp]: "moved_by M key st xs xs"
  by (simp add: moved_by_def)

lemma moved_by_trans:
  assumes "moved_by M key st xs ys" and "moved_by M key st ys zs" and "Relation.trans M"
  shows "moved_by M key st xs zs"
  unfolding moved_by_def
proof (intro conjI allI impI)
  show "length xs \<le> length zs" using assms(1,2) by (simp add: moved_by_def)
  fix i assume i: "i < length xs"
  with assms(1) have "i < length ys" by (simp add: moved_by_def)
  with i assms(1,2) show "key (zs ! i) = key (xs ! i)" by (simp add: moved_by_def)
  from \<open>i < length ys\<close> i assms(1,2)
  have "st (ys ! i) = st (xs ! i) \<or> (st (xs ! i), st (ys ! i)) \<in> M"
    and "st (zs ! i) = st (ys ! i) \<or> (st (ys ! i), st (zs ! i)) \<in> M"
    by (simp_all add: moved_by_def)
  with assms(3) show "st (zs ! i) = st (xs ! i) \<or> (st (xs ! i), st (zs ! i)) \<in> M"
    by (metis transD)
qed

lemma moved_by_append [simp]: "moved_by M key st xs (xs @ ys)"
  by (simp add: moved_by_def nth_append)

lemma moved_by_update_rows:
  assumes "\<And>r. P r \<Longrightarrow> key (f r) = key r \<and> (st (f r) = st r \<or> (st r, st (f r)) \<in> M)"
  shows "moved_by M key st xs (update_rows P f xs)"
  using assms by (auto simp: moved_by_def update_rows_def)

lemma moved_by_mono: "moved_by M key st xs ys \<Longrightarrow> M \<subseteq> N \<Longrightarrow> moved_by N key st xs ys"
  by (auto simp: moved_by_def)

lemma moved_by_find:
  assumes "moved_by M key st xs ys" and "unique_key key ys" and "r \<in> set xs" and "q \<in> set ys"
    and "key q = key r"
  shows "st q = st r \<or> (st r, st q) \<in> M"
proof -
  from assms(3) obtain i where i: "i < length xs" "xs ! i = r" by (auto simp: in_set_conv_nth)
  with assms(1) have k: "key (ys ! i) = key r" and s: "st (ys ! i) = st r \<or> (st r, st (ys ! i)) \<in> M"
    and "i < length ys" by (auto simp: moved_by_def)
  then have "ys ! i = q" using assms(2,4,5) by (metis nth_mem unique_key_inj)
  with s show ?thesis by simp
qed

text \<open>What no operation changes in a row: the identity of a task, a run, a message and a review.\<close>

definition task_fixed :: "task_row \<Rightarrow> string \<times> string \<times> string \<times> string \<times> string list \<times> bool \<times> risk_level" where
  "task_fixed r = (t_id r, t_goal r, t_repo r, t_base_ref r, t_success_criteria r, t_handoff_required r, t_route_risk r)"

definition step_fixed :: "step_row \<Rightarrow> string \<times> string \<times> int \<times> agent_kind \<times> route_role \<times> bool" where
  "step_fixed r = (s_id r, s_task_id r, s_sequence_no r, s_agent r, s_role r, s_required r)"

definition run_fixed :: "run_row \<Rightarrow> string \<times> string \<times> string \<times> agent_kind \<times> route_role \<times> nat" where
  "run_fixed r = (r_id r, r_task_id r, r_route_step_id r, r_agent r, r_role r, r_attempt r)"

definition message_fixed :: "message_row \<Rightarrow> string \<times> string \<times> string option \<times> string" where
  "message_fixed r = (m_id r, m_task_id r, m_run_id r, m_body r)"

definition review_fixed :: "review_row \<Rightarrow> string \<times> string \<times> string option" where
  "review_fixed r = (v_id r, v_task_id r, v_run_id r)"

definition review_moves :: "(review_status \<times> review_status) set" where
  "review_moves = {(a, b). a = RevPending \<and> b \<noteq> RevPending}"

definition db_evolves :: "(task_status \<times> task_status) set \<Rightarrow> (run_status \<times> run_status) set \<Rightarrow> db \<Rightarrow> db \<Rightarrow> bool" where
  "db_evolves M N s t \<longleftrightarrow>
     moved_by M task_fixed t_status (tasks s) (tasks t) \<and>
     moved_by UNIV step_fixed s_status (route_steps s) (route_steps t) \<and>
     moved_by N run_fixed r_status (runs s) (runs t) \<and>
     prefix (events s) (events t) \<and> event_seq s \<le> event_seq t \<and>
     prefix (artifacts s) (artifacts t) \<and>
     moved_by UNIV message_fixed m_delivery_status (messages s) (messages t) \<and>
     moved_by review_moves review_fixed v_status (reviews s) (reviews t)"

end
