(* ===== verification/DbMoves.thy ===== *)
theory DbMoves
  imports DbState
begin

text \<open>
  The relation \<open>db_evolves M N\<close> between two database states (\<open>DbState\<close>) as an evolution:
  \<open>M\<close> and \<open>N\<close> are the moves of a task's and of a run's status the operation may make, transitive
  so that the relation composes. Inside the locale, each statement keeps it; each operation is
  then an instance with the moves of its own UPDATE statements.
\<close>

lemma trans_review_moves: "Relation.trans review_moves"
  by (auto simp: review_moves_def intro: transI)

lemma moved_by_UNIV_trans:
  "moved_by UNIV key st xs ys \<Longrightarrow> moved_by UNIV key st ys zs \<Longrightarrow> moved_by UNIV key st xs zs"
  by (rule moved_by_trans) (auto intro: transI)

lemma db_evolves_mono: "db_evolves M N s t \<Longrightarrow> M \<subseteq> M' \<Longrightarrow> N \<subseteq> N' \<Longrightarrow> db_evolves M' N' s t"
  by (auto simp: db_evolves_def intro: moved_by_mono)

lemma keeps_mono: "keeps (db_evolves M N) m \<Longrightarrow> M \<subseteq> M' \<Longrightarrow> N \<subseteq> N' \<Longrightarrow> keeps (db_evolves M' N') m"
  by (auto simp: keeps_def intro: db_evolves_mono)

locale db_moves =
  fixes M :: "(task_status \<times> task_status) set" and N :: "(run_status \<times> run_status) set"
  assumes trans_M: "Relation.trans M" and trans_N: "Relation.trans N"
begin

lemma db_evolves_refl: "db_evolves M N s s"
  by (simp add: db_evolves_def)

lemma db_evolves_trans: "db_evolves M N s t \<Longrightarrow> db_evolves M N t u \<Longrightarrow> db_evolves M N s u"
  unfolding db_evolves_def
  by (elim conjE, intro conjI)
    (assumption | erule (1) moved_by_UNIV_trans | erule (1) prefix_order.trans | erule (1) le_trans
     | erule (1) moved_by_trans [OF _ _ trans_M] | erule (1) moved_by_trans [OF _ _ trans_N]
     | erule (1) moved_by_trans [OF _ _ trans_review_moves])+

sublocale evolution "db_evolves M N"
  by unfold_locales (rule db_evolves_refl, rule db_evolves_trans)

text \<open>The statements.\<close>

lemma keeps_queries: "keeps (db_evolves M N) (sql_all get P)" "keeps (db_evolves M N) (sql_get get' P')"
  by (simp_all add: keeps_def eff_simps db_evolves_refl)

lemma keeps_inserts:
  "keeps (db_evolves M N) (insert_task a)" "keeps (db_evolves M N) (insert_step b)"
  "keeps (db_evolves M N) (insert_run c)" "keeps (db_evolves M N) (insert_artifact d)"
  "keeps (db_evolves M N) (insert_message e)" "keeps (db_evolves M N) (insert_review f)"
  "keeps (db_evolves M N) (insert_event task run ty level msg data ts)"
  by (auto simp: keeps_def insert_defs insert_event_def Let_def db_evolves_def)

lemma keeps_update_tasks:
  "(\<And>r. P r \<Longrightarrow> task_fixed (f r) = task_fixed r \<and> (t_status (f r) = t_status r \<or> (t_status r, t_status (f r)) \<in> M))
   \<Longrightarrow> keeps (db_evolves M N) (sql_update tasks tasks_update P f)"
  by (auto simp: keeps_def sql_update_def db_evolves_def intro: moved_by_update_rows)

lemma keeps_update_steps:
  "(\<And>r. P r \<Longrightarrow> step_fixed (f r) = step_fixed r)
   \<Longrightarrow> keeps (db_evolves M N) (sql_update route_steps route_steps_update P f)"
  by (auto simp: keeps_def sql_update_def db_evolves_def intro: moved_by_update_rows)

lemma keeps_update_runs:
  "(\<And>r. P r \<Longrightarrow> run_fixed (f r) = run_fixed r \<and> (r_status (f r) = r_status r \<or> (r_status r, r_status (f r)) \<in> N))
   \<Longrightarrow> keeps (db_evolves M N) (sql_update runs runs_update P f)"
  by (auto simp: keeps_def sql_update_def db_evolves_def intro: moved_by_update_rows)

lemma keeps_update_messages:
  "(\<And>r. P r \<Longrightarrow> message_fixed (f r) = message_fixed r)
   \<Longrightarrow> keeps (db_evolves M N) (sql_update messages messages_update P f)"
  by (auto simp: keeps_def sql_update_def db_evolves_def intro: moved_by_update_rows)

lemma keeps_update_reviews:
  "(\<And>r. P r \<Longrightarrow> review_fixed (f r) = review_fixed r \<and>
      (v_status (f r) = v_status r \<or> v_status r = RevPending \<and> v_status (f r) \<noteq> RevPending))
   \<Longrightarrow> keeps (db_evolves M N) (sql_update reviews reviews_update P f)"
  by (auto simp: keeps_def sql_update_def db_evolves_def review_moves_def intro: moved_by_update_rows)

lemma keeps_idem:
  "keeps (db_evolves M N) (sql_update idempotency_keys idempotency_keys_update P f)"
  "keeps (db_evolves M N) (sql_delete idempotency_keys idempotency_keys_update P')"
  by (auto simp: keeps_def eff_simps db_evolves_def)

lemmas keeps_statements = keeps_rules keeps_queries keeps_inserts keeps_update_tasks
  keeps_update_steps keeps_update_runs keeps_update_messages keeps_update_reviews keeps_idem

end

text \<open>
  The instances: operations that move no status, and those with one move each. An operation that
  reads the current status and then writes another one is an instance for each pair of statuses.
\<close>

interpretation no_move: db_moves "{}" "{}"
  by unfold_locales auto

interpretation claim_move: db_moves "{(TQueued, TRunning)}" "{}"
  by unfold_locales (auto simp: trans_def)

interpretation finish_move: db_moves "{(TRunning, TDone), (TRunning, TNeedsReview)}" "{}"
  by unfold_locales (auto simp: trans_def)

interpretation approve_move: db_moves "{(TNeedsReview, TDone)}" "{}"
  by unfold_locales (auto simp: trans_def)

interpretation rework_move: db_moves "{(TNeedsReview, TQueued)}" "{}"
  by unfold_locales (auto simp: trans_def)

interpretation retry_move: db_moves "{(TBlocked, TQueued)}" "{}"
  by unfold_locales (auto simp: trans_def)

interpretation recovery_move: db_moves "{(TRunning, TBlocked)}" "{(RRunning, RStale), (RStarting, RFailed)}"
  by unfold_locales (auto simp: trans_def)

lemma db_moves_single: "db_moves {(a, b)} {}" "a \<noteq> b \<Longrightarrow> db_moves {} {(c, d)}"
  by unfold_locales (auto simp: trans_def)

end
