(* ===== verification/DbReads.thy ===== *)
theory DbReads
  imports DbMoves
begin

text \<open>
  \<open>src/db.ts\<close>, the read side: the records the operations return and the list, get and replay
  queries. Apart from a task, a record is its row (\<open>routeStepFromRow\<close>, \<open>runFromRow\<close>,
  \<open>eventFromRow\<close>, \<open>#artifactFromRow\<close>, \<open>#reviewFromRow\<close> rename the columns and parse values the
  row types already hold). The queries of \<open>getTask\<close> and \<open>listTasks\<close> read one state.
\<close>

subsection \<open>Tasks\<close>

record task_record =
  tr_id :: string
  tr_goal :: string
  tr_repo :: string
  tr_baseRef :: string
  tr_agent :: agent_selection
  tr_priority :: priority
  tr_context :: "string option"
  tr_successCriteria :: "string list"
  tr_verificationCommand :: "string option"
  tr_handoffRequired :: bool
  tr_status :: task_status
  tr_routePlan :: route_plan
  tr_latestUpdate :: string
  tr_claimedBy :: "string option"
  tr_claimedAt :: "string option"
  tr_createdAt :: string
  tr_updatedAt :: string

record task_aggregate =
  ag_task :: task_record
  ag_routeSteps :: "step_row list"
  ag_runs :: "run_row list"
  ag_events :: "event_row list"
  ag_artifacts :: "artifact_row list"
  ag_messages :: "message_row list"
  ag_reviews :: "review_row list"

text \<open>\<open>row.context ? {...} : {}\<close>: NULL and the empty string are both left out.\<close>

definition truthy :: "string option \<Rightarrow> string option" where
  "truthy v = (case v of Some [] \<Rightarrow> None | _ \<Rightarrow> v)"

definition placeholder_step :: route_step where
  "placeholder_step = \<lparr>st_id = ''placeholder'', st_sequence = 0, st_agent = Codex, st_role = Execute,
     st_required = True, st_reason = ''Loaded separately''\<rparr>"

definition taskFromRow :: "task_row \<Rightarrow> task_record option" where
  "taskFromRow row =
     Option.bind (TaskPayloadSchema \<lparr>p_id = Some (t_id row), p_goal = t_goal row, p_repo = t_repo row,
        p_baseRef = t_base_ref row, p_agent = t_requested_agent row, p_priority = t_priority row,
        p_context = truthy (t_context row), p_successCriteria = t_success_criteria row,
        p_verificationCommand = truthy (t_verification_command row),
        p_handoffRequired = t_handoff_required row\<rparr>) (\<lambda>payload.
     Option.bind (RoutePlanSchema \<lparr>rp_mode = t_route_mode row, rp_risk = t_route_risk row,
        rp_reasons = t_route_reasons row, rp_steps = [placeholder_step]\<rparr>) (\<lambda>routePlan.
     Some \<lparr>tr_id = t_id row, tr_goal = p_goal payload, tr_repo = p_repo payload,
        tr_baseRef = p_baseRef payload, tr_agent = p_agent payload, tr_priority = p_priority payload,
        tr_context = truthy (p_context payload), tr_successCriteria = p_successCriteria payload,
        tr_verificationCommand = truthy (p_verificationCommand payload),
        tr_handoffRequired = p_handoffRequired payload, tr_status = t_status row,
        tr_routePlan = routePlan, tr_latestUpdate = t_latest_update row,
        tr_claimedBy = t_claimed_by row, tr_claimedAt = t_claimed_at row,
        tr_createdAt = t_created_at row, tr_updatedAt = t_updated_at row\<rparr>))"

text \<open>The plan of a record with its steps read back from the step rows.\<close>

definition route_step_of :: "step_row \<Rightarrow> route_step" where
  "route_step_of r = \<lparr>st_id = s_id r, st_sequence = s_sequence_no r, st_agent = s_agent r,
     st_role = s_role r, st_required = s_required r, st_reason = s_reason r\<rparr>"

definition with_steps :: "task_record \<Rightarrow> step_row list \<Rightarrow> task_record option" where
  "with_steps t steps = map_option (\<lambda>p. t\<lparr>tr_routePlan := p\<rparr>)
     (RoutePlanSchema ((tr_routePlan t)\<lparr>rp_steps := map route_step_of steps\<rparr>))"

subsection \<open>Lists\<close>

definition assertLimit :: "int \<Rightarrow> db_error + nat" where
  "assertLimit limit = (if \<not> is_safe_int limit \<or> limit < 1 \<or> limit > 1000
     then Inl (LimitOutOfRange limit) else Inr (nat limit))"

definition listRouteSteps :: "string \<Rightarrow> db \<Rightarrow> step_row list" where
  "listRouteSteps taskId s = order_by (\<lambda>r. (s_sequence_no r, s_created_at r))
     (filter (\<lambda>r. s_task_id r = taskId) (route_steps s))"

definition getRun :: "string \<Rightarrow> db \<Rightarrow> run_row option" where
  "getRun runId s = find (\<lambda>r. r_id r = runId) (runs s)"

record run_filter =
  rf_status :: "run_status option"
  rf_agent :: "agent_kind option"
  rf_limit :: "int option"

definition matches :: "'a option \<Rightarrow> 'a \<Rightarrow> bool" where
  "matches f v = (case f of None \<Rightarrow> True | Some w \<Rightarrow> v = w)"

definition limited :: "int option \<Rightarrow> 'r list \<Rightarrow> db_error + 'r list" where
  "limited limit rows = (case limit of None \<Rightarrow> Inr rows
     | Some n \<Rightarrow> (case assertLimit n of Inl e \<Rightarrow> Inl e | Inr k \<Rightarrow> Inr (take k rows)))"

definition listRuns :: "string option \<Rightarrow> run_filter \<Rightarrow> db \<Rightarrow> db_error + run_row list" where
  "listRuns taskId filt s =
     (let rows = filter (\<lambda>r. matches (truthy taskId) (r_task_id r) \<and> matches (rf_status filt) (r_status r)
                   \<and> matches (rf_agent filt) (r_agent r)) (runs s)
      in limited (rf_limit filt)
           (if truthy taskId = None then order_by_desc (\<lambda>r. (r_created_at r, r_id r)) rows
            else order_by (\<lambda>r. (r_created_at r, r_id r)) rows))"

definition listEvents :: "string \<Rightarrow> db \<Rightarrow> event_row list" where
  "listEvents taskId s = order_by e_id (filter (\<lambda>r. e_task_id r = taskId) (events s))"

definition listEventsAfter :: "int \<Rightarrow> string option \<Rightarrow> int \<Rightarrow> db \<Rightarrow> db_error + event_row list" where
  "listEventsAfter afterId taskId limit s =
     (if \<not> is_safe_int afterId \<or> afterId < 0 then Inl (CursorOutOfRange afterId)
      else case assertLimit limit of Inl e \<Rightarrow> Inl e
        | Inr boundedLimit \<Rightarrow> Inr (take boundedLimit (order_by e_id
            (filter (\<lambda>r. matches (truthy taskId) (e_task_id r) \<and> afterId < int (e_id r)) (events s)))))"

definition getArtifact :: "string \<Rightarrow> db \<Rightarrow> artifact_row option" where
  "getArtifact artifactId s = find (\<lambda>r. a_id r = artifactId) (artifacts s)"

definition listArtifacts :: "string \<Rightarrow> db \<Rightarrow> artifact_row list" where
  "listArtifacts taskId s = order_by a_created_at (filter (\<lambda>r. a_task_id r = taskId) (artifacts s))"

definition listMessages :: "string \<Rightarrow> db \<Rightarrow> message_row list" where
  "listMessages taskId s = order_by m_created_at (filter (\<lambda>r. m_task_id r = taskId) (messages s))"

record review_filter =
  vf_status :: "review_status option"
  vf_limit :: "int option"

definition listReviews :: "string option \<Rightarrow> review_filter \<Rightarrow> db \<Rightarrow> db_error + review_row list" where
  "listReviews taskId filt s =
     (let rows = filter (\<lambda>r. matches (truthy taskId) (v_task_id r) \<and> matches (vf_status filt) (v_status r)) (reviews s)
      in limited (vf_limit filt)
           (if truthy taskId = None then order_by_desc (\<lambda>r. (v_created_at r, v_id r)) rows
            else order_by (\<lambda>r. (v_created_at r, v_id r)) rows))"

definition getReview :: "string \<Rightarrow> db \<Rightarrow> review_row option" where
  "getReview reviewId s = find (\<lambda>r. v_id r = reviewId) (reviews s)"

text \<open>The runs and reviews of one task: \<open>listRuns(id)\<close> and \<open>listReviews(id)\<close> without a filter.\<close>

definition taskRuns :: "string \<Rightarrow> db \<Rightarrow> run_row list" where
  "taskRuns i s = (case listRuns (Some i) \<lparr>rf_status = None, rf_agent = None, rf_limit = None\<rparr> s of
     Inl _ \<Rightarrow> [] | Inr rs \<Rightarrow> rs)"

definition taskReviews :: "string \<Rightarrow> db \<Rightarrow> review_row list" where
  "taskReviews i s = (case listReviews (Some i) \<lparr>vf_status = None, vf_limit = None\<rparr> s of
     Inl _ \<Rightarrow> [] | Inr rs \<Rightarrow> rs)"

definition getTask :: "string \<Rightarrow> task_aggregate option dbop" where
  "getTask i =
     andThen (sql_get tasks (\<lambda>r. t_id r = i)) (\<lambda>found. case found of
       None \<Rightarrow> ok None
     | Some row \<Rightarrow>
         andThen (query (listRouteSteps i)) (\<lambda>routeSteps.
         andThen (orThrow ValidationFailed (taskFromRow row)) (\<lambda>task.
         andThen (orThrow ValidationFailed (with_steps task routeSteps)) (\<lambda>task'.
         query (\<lambda>s. Some \<lparr>ag_task = task', ag_routeSteps = routeSteps, ag_runs = taskRuns i s,
           ag_events = listEvents i s, ag_artifacts = listArtifacts i s,
           ag_messages = listMessages i s, ag_reviews = taskReviews i s\<rparr>)))))"

fun priority_rank :: "priority \<Rightarrow> nat" where
  "priority_rank PUrgent = 0" | "priority_rank PHigh = 1" | "priority_rank PNormal = 2" | "priority_rank PLow = 3"

fun status_rank :: "task_status \<Rightarrow> nat" where
  "status_rank TRunning = 0" | "status_rank TBlocked = 1" | "status_rank TNeedsReview = 2"
| "status_rank TQueued = 3" | "status_rank TDone = 4"

definition task_order :: "task_status option \<Rightarrow> db \<Rightarrow> task_row list" where
  "task_order status s = (case status of
     Some st \<Rightarrow> order_by (\<lambda>r. (priority_rank (t_priority r), t_created_at r))
                  (filter (\<lambda>r. t_status r = st) (tasks s))
   | None \<Rightarrow> order_by (\<lambda>r. status_rank (t_status r)) (order_by_desc t_updated_at (tasks s)))"

definition listTasks :: "task_status option \<Rightarrow> task_record list dbop" where
  "listTasks status =
     andThen (query (task_order status)) (\<lambda>rows.
     andThen (query (\<lambda>s. all_fields (\<lambda>row. Option.bind (taskFromRow row)
                (\<lambda>t. with_steps t (listRouteSteps (t_id row) s))) rows)) (\<lambda>records.
     orThrow ValidationFailed records))"

subsection \<open>Facts\<close>

lemma reads_preserve [preserves_rules]: "preserves I (getTask i)" "preserves I (listTasks st)"
  unfolding getTask_def listTasks_def by (intro preserves_rules)+

lemma getTask_snd: "snd (getTask i s) = s"
  by (auto simp: getTask_def eff_simps split: option.splits)

lemma listTasks_snd: "snd (listTasks st s) = s"
  by (auto simp: listTasks_def eff_simps split: option.splits)

lemma taskFromRow_fields:
  assumes "taskFromRow row = Some r"
  shows "tr_id r = t_id row \<and> tr_status r = t_status row \<and> tr_claimedBy r = t_claimed_by row \<and> tr_claimedAt r = t_claimed_at row"
  using assms by (auto simp: taskFromRow_def bind_eq_Some_conv)

lemma getTask_fields:
  assumes "getTask i s = (Inr (Some agg), t)"
  shows "t = s \<and> (\<exists>row. row \<in> set (tasks s) \<and> t_id row = i \<and> tr_id (ag_task agg) = i \<and> tr_status (ag_task agg) = t_status row
     \<and> tr_claimedBy (ag_task agg) = t_claimed_by row \<and> tr_claimedAt (ag_task agg) = t_claimed_at row)"
proof -
  from assms obtain row task steps where r: "find (\<lambda>r. t_id r = i) (tasks s) = Some row"
      "taskFromRow row = Some task" "with_steps task steps = Some (ag_task agg)" "t = s"
    by (auto simp: getTask_def eff_simps split: option.splits)
  from r(3) have "tr_id (ag_task agg) = tr_id task \<and> tr_status (ag_task agg) = tr_status task
     \<and> tr_claimedBy (ag_task agg) = tr_claimedBy task \<and> tr_claimedAt (ag_task agg) = tr_claimedAt task"
    by (auto simp: with_steps_def dest!: sym [where t = "ag_task agg"])
  with taskFromRow_fields [OF r(2)] find_key_Some [OF r(1)] r(4) show ?thesis by auto
qed

text \<open>Ids increase along the event log, so ORDER BY id is the order of the log.\<close>

definition events_after :: "nat \<Rightarrow> string option \<Rightarrow> db \<Rightarrow> event_row list" where
  "events_after a t s = filter (\<lambda>r. matches (truthy t) (e_task_id r) \<and> a < e_id r) (events s)"

lemma order_events:
  assumes "db_wf s"
  shows "order_by e_id (filter P (events s)) = filter P (events s)"
proof (rule order_by_sorted)
  have "sorted_wrt (\<lambda>x y. e_id x < e_id y) (events s)"
    using assms by (simp add: db_wf_def events_ok_def sorted_wrt_map)
  then have "sorted_wrt (\<lambda>x y. e_id x \<le> e_id y) (filter P (events s))"
    by (intro sorted_wrt_filter) (erule sorted_wrt_mono_rel [rotated], simp)
  then show "sorted (map e_id (filter P (events s)))" by (simp add: sorted_wrt_map)
qed

lemma listEventsAfter_page:
  assumes "db_wf s" and "is_safe_int (int a)" and "1 \<le> n" and "n \<le> 1000"
  shows "listEventsAfter (int a) t (int n) s = Inr (take n (events_after a t s))"
  using assms
  by (simp add: listEventsAfter_def assertLimit_def order_events events_after_def is_safe_int_def max_safe_int_def)

lemma filter_after_take:
  assumes "sorted_wrt (\<lambda>x y. key x < (key y :: nat)) xs" and "take n xs \<noteq> []"
  shows "filter (\<lambda>x. key (last (take n xs)) < key x) xs = drop n xs"
  using assms
proof (induction xs arbitrary: n)
  case (Cons x xs)
  then obtain m where n: "n = Suc m" by (cases n) auto
  show ?case
  proof (cases "take m xs = []")
    case True
    with Cons.prems n show ?thesis by (auto intro: filter_True)
  next
    case False
    then have "last (take m xs) \<in> set xs" by (meson in_set_takeD last_in_set)
    with Cons.prems(1) have "key x < key (last (take m xs))" by simp
    with False n Cons show ?thesis by simp
  qed
qed simp

lemma events_after_sorted: "db_wf s \<Longrightarrow> sorted_wrt (\<lambda>x y. e_id x < e_id y) (events_after a t s)"
  unfolding events_after_def by (intro sorted_wrt_filter) (simp add: db_wf_def events_ok_def sorted_wrt_map)

lemma events_after_le: "e \<in> set (events_after a t s) \<Longrightarrow> db_wf s \<Longrightarrow> a < e_id e \<and> e_id e \<le> event_seq s"
  by (auto simp: events_after_def db_wf_def events_ok_def)

text \<open>
  Replay from a cursor loses and repeats nothing: a page is the first \<open>limit\<close> events after the
  cursor in the order they were appended, and the page after the last id of a page is exactly the
  events that follow it.
\<close>
theorem event_replay_pages:
  assumes "db_wf s" and "int (event_seq s) \<le> max_safe_int" and "a \<le> event_seq s"
    and "1 \<le> n" and "n \<le> 1000"
  shows "listEventsAfter (int a) t (int n) s = Inr (take n (events_after a t s))
    \<and> (\<forall>e page. take n (events_after a t s) = page @ [e] \<longrightarrow>
        listEventsAfter (int (e_id e)) t (int n) s = Inr (take n (drop n (events_after a t s))))"
proof (intro conjI allI impI)
  have safe: "is_safe_int (int k)" if "k \<le> event_seq s" for k
    using that assms(2) by (simp add: is_safe_int_def max_safe_int_def)
  show "listEventsAfter (int a) t (int n) s = Inr (take n (events_after a t s))"
    using assms(3) by (intro listEventsAfter_page assms safe)
  fix e page assume pg: "take n (events_after a t s) = page @ [e]"
  then have e: "e \<in> set (events_after a t s)" by (metis in_set_conv_decomp in_set_takeD)
  with assms(1) have b: "a < e_id e" "e_id e \<le> event_seq s" by (auto dest: events_after_le)
  then have "events_after (e_id e) t s = filter (\<lambda>x. e_id e < e_id x) (events_after a t s)"
    by (auto simp: events_after_def intro: filter_cong)
  also have "\<dots> = drop n (events_after a t s)"
    using filter_after_take [OF events_after_sorted [OF assms(1)], of n a t] pg by simp
  finally show "listEventsAfter (int (e_id e)) t (int n) s = Inr (take n (drop n (events_after a t s)))"
    using listEventsAfter_page [OF assms(1) safe [OF b(2)] assms(4,5), of t] by simp
qed

subsection \<open>A database to evaluate the operations on\<close>

text \<open>
  One task of each of four statuses, with the rows a coordinator leaves behind: a running task with
  an active run, a blocked one whose remote run went stale, one waiting for review with its pending
  review, and two queued ones.
\<close>

definition sample_task :: "string \<Rightarrow> task_status \<Rightarrow> priority \<Rightarrow> string option \<Rightarrow> string \<Rightarrow> task_row" where
  "sample_task i st p w ts = \<lparr>t_id = i, t_goal = ''Fix it'', t_repo = ''/repo'', t_base_ref = ''HEAD'',
     t_requested_agent = SelAuto, t_priority = p, t_context = None, t_success_criteria = [''tests pass''],
     t_verification_command = None, t_handoff_required = True, t_status = st, t_route_mode = Single,
     t_route_risk = RiskNormal, t_route_reasons = [''r''], t_latest_update = ''u'', t_claimed_by = w,
     t_claimed_at = w, t_created_at = ts, t_updated_at = ts\<rparr>"

definition sample_step :: "string \<Rightarrow> string \<Rightarrow> step_status \<Rightarrow> string option \<Rightarrow> step_row" where
  "sample_step i t st run = \<lparr>s_id = i, s_task_id = t, s_sequence_no = 0, s_agent = Codex, s_role = Execute,
     s_required = True, s_reason = ''r'', s_status = st, s_run_id = run, s_created_at = ''1'', s_updated_at = ''1''\<rparr>"

definition sample_run :: "string \<Rightarrow> string \<Rightarrow> string \<Rightarrow> agent_kind \<Rightarrow> run_status \<Rightarrow> run_row" where
  "sample_run i t step agent st = \<lparr>r_id = i, r_task_id = t, r_route_step_id = step, r_adapter_run_id = None,
     r_agent = agent, r_role = Execute, r_attempt = 1, r_status = st, r_pid = Some 42, r_worktree_path = None,
     r_branch = None, r_base_commit = None, r_stdout_path = None, r_stderr_path = None, r_result_path = None,
     r_exit_code = None, r_signal = None, r_summary = None, r_error = None, r_usage_json = None,
     r_started_at = None, r_finished_at = None, r_created_at = ''1'', r_updated_at = ''1''\<rparr>"

definition sample_event :: "nat \<Rightarrow> string \<Rightarrow> event_row" where
  "sample_event n t = \<lparr>e_id = n, e_task_id = t, e_run_id = None, e_type = ''task.note'', e_level = LInfo,
     e_message = ''m'', e_data = None, e_created_at = ''1''\<rparr>"

definition sample_review :: "string \<Rightarrow> string \<Rightarrow> review_row" where
  "sample_review i t = \<lparr>v_id = i, v_task_id = t, v_run_id = None, v_reviewer = None, v_status = RevPending,
     v_note = None, v_created_at = ''5'', v_updated_at = ''5''\<rparr>"

definition sample_db :: db where
  "sample_db = \<lparr>
     tasks = [sample_task ''a'' TRunning PNormal (Some ''w'') ''1'', sample_task ''b'' TBlocked PNormal None ''2'',
              sample_task ''c'' TNeedsReview PNormal None ''3'', sample_task ''d'' TQueued PLow None ''4'',
              sample_task ''e'' TQueued PHigh None ''5''],
     route_steps = [sample_step ''sa'' ''a'' SRunning (Some ''ra''), sample_step ''sb'' ''b'' SFailed (Some ''rb''),
              sample_step ''sc'' ''c'' SSucceeded None, sample_step ''sd'' ''d'' SPending None, sample_step ''se'' ''e'' SPending None],
     runs = [sample_run ''ra'' ''a'' ''sa'' Codex RRunning, sample_run ''rb'' ''b'' ''sb'' Openclaw RStale],
     events = [sample_event 1 ''a'', sample_event 2 ''b'', sample_event 4 ''a''], event_seq = 4,
     artifacts = [], messages = [], reviews = [sample_review ''v'' ''c''],
     idempotency_keys = []\<rparr>"

lemmas sample_defs = sample_db_def sample_task_def sample_step_def sample_run_def sample_event_def sample_review_def

lemma sample_db_wf: "db_wf sample_db"
  by (simp add: sample_defs wf_parts unique_key_def attempt_key_def has_task_def has_run_def task_claim_ok_def)

theorem event_replay_pages_witness:
  "listEventsAfter 0 None 2 sample_db = Inr [sample_event 1 ''a'', sample_event 2 ''b'']
   \<and> listEventsAfter 2 None 2 sample_db = Inr [sample_event 4 ''a'']"
proof -
  have *: "events_after 0 None sample_db = [sample_event 1 ''a'', sample_event 2 ''b'', sample_event 4 ''a'']"
    by (simp add: sample_defs events_after_def matches_def truthy_def)
  show ?thesis
    using event_replay_pages [of sample_db 0 2 None]
    by (simp add: sample_db_wf *) (simp add: sample_defs max_safe_int_def)
qed

end
