(* ===== verification/DbTasks.thy ===== *)
theory DbTasks
  imports DbReads
begin

text \<open>
  \<open>src/db.ts\<close>, the task operations: create, claim, heartbeat, the status compare-and-swap and the
  route steps. The results of \<open>now()\<close> and \<open>randomUUID()\<close> are the arguments \<open>ts\<close> and \<open>uid\<close>. The
  operations outside a transaction have the argument \<open>other\<close>: what other processes commit to the
  database file between the SELECT and the UPDATE.
\<close>

subsection \<open>Operations\<close>

definition plural :: "nat \<Rightarrow> string" where
  "plural n = (if n = 1 then [] else ''s'')"

definition new_task_row :: "string \<Rightarrow> string \<Rightarrow> task_payload \<Rightarrow> route_plan \<Rightarrow> task_row" where
  "new_task_row i ts task plan = \<lparr>t_id = i, t_goal = p_goal task, t_repo = p_repo task,
     t_base_ref = p_baseRef task, t_requested_agent = p_agent task, t_priority = p_priority task,
     t_context = p_context task, t_success_criteria = p_successCriteria task,
     t_verification_command = p_verificationCommand task, t_handoff_required = p_handoffRequired task,
     t_status = TQueued, t_route_mode = rp_mode plan, t_route_risk = rp_risk plan,
     t_route_reasons = rp_reasons plan,
     t_latest_update = ''Queued with '' @ show_nat (length (rp_steps plan)) @ '' route step''
       @ plural (length (rp_steps plan)) @ ''.'',
     t_claimed_by = None, t_claimed_at = None, t_created_at = ts, t_updated_at = ts\<rparr>"

definition new_step_row :: "string \<Rightarrow> string \<Rightarrow> route_step \<Rightarrow> step_row" where
  "new_step_row i ts st = \<lparr>s_id = st_id st, s_task_id = i, s_sequence_no = st_sequence st,
     s_agent = st_agent st, s_role = st_role st, s_required = st_required st, s_reason = st_reason st,
     s_status = SPending, s_run_id = None, s_created_at = ts, s_updated_at = ts\<rparr>"

definition mode_name :: "route_mode \<Rightarrow> string" where
  "mode_name m = (case m of Single \<Rightarrow> ''single'' | Sequential \<Rightarrow> ''sequential'' | Parallel \<Rightarrow> ''parallel'')"

definition risk_name :: "risk_level \<Rightarrow> string" where
  "risk_name r = (case r of RiskNormal \<Rightarrow> ''normal'' | RiskHigh \<Rightarrow> ''high'')"

definition createTask :: "string \<Rightarrow> string \<Rightarrow> task_payload \<Rightarrow> route_plan \<Rightarrow> task_aggregate dbop" where
  "createTask uid ts input planInput =
     andThen (orThrow ValidationFailed (TaskPayloadSchema input)) (\<lambda>task.
     andThen (orThrow ValidationFailed (RoutePlanSchema planInput)) (\<lambda>plan.
     let i = (case p_id task of None \<Rightarrow> ''task_'' @ uid | Some j \<Rightarrow> j) in
     andThen (atomically (
       andThen (insert_task (new_task_row i ts task plan)) (\<lambda>_.
       andThen (forEach (rp_steps plan) (\<lambda>st. insert_step (new_step_row i ts st))) (\<lambda>_.
       insert_event i None ''task.created'' LInfo
         (''Task queued via '' @ enum_name AgentSelectionSchema (p_agent task) @ ''.'')
         (Some (JObj [(''routeMode'', JStr (mode_name (rp_mode plan))),
                      (''risk'', JStr (risk_name (rp_risk plan)))])) ts)))) (\<lambda>_.
     andThen (getTask i) (\<lambda>aggregate.
     orThrow (TaskDisappeared i) aggregate))))"

definition claim_candidates :: "db \<Rightarrow> task_row list" where
  "claim_candidates s = order_by (\<lambda>r. (priority_rank (t_priority r), t_created_at r))
     (filter (\<lambda>r. t_status r = TQueued) (tasks s))"

definition claimNextTask :: "string \<Rightarrow> string \<Rightarrow> task_aggregate option dbop" where
  "claimNextTask ts workerId =
     andThen (atomically (
       andThen (query claim_candidates) (\<lambda>candidates. case candidates of
         [] \<Rightarrow> ok None
       | candidate # _ \<Rightarrow>
           andThen (sql_update tasks tasks_update (\<lambda>r. t_id r = t_id candidate \<and> t_status r = TQueued)
             (\<lambda>r. r\<lparr>t_status := TRunning, t_claimed_by := Some workerId, t_claimed_at := Some ts,
                    t_latest_update := ''Claimed by '' @ workerId @ ''.'', t_updated_at := ts\<rparr>)) (\<lambda>changes.
           if changes \<noteq> 1 then ok None
           else andThen (insert_event (t_id candidate) None ''task.claimed'' LInfo
                  (''Task claimed by '' @ workerId @ ''.'') (Some (JObj [(''workerId'', JStr workerId)])) ts) (\<lambda>_.
                ok (Some (t_id candidate))))))) (\<lambda>i. case truthy i of
     None \<Rightarrow> ok None
   | Some j \<Rightarrow> getTask j)"

definition heartbeatTask :: "string \<Rightarrow> string \<Rightarrow> string \<Rightarrow> string dbop" where
  "heartbeatTask ts taskId workerId =
     (let w = trim workerId in
      andThen (require (w \<noteq> []) (WorkerRequired ''a heartbeat'')) (\<lambda>_.
      andThen (sql_update tasks tasks_update
        (\<lambda>r. t_id r = taskId \<and> t_status r = TRunning \<and> t_claimed_by r = Some w)
        (\<lambda>r. r\<lparr>t_claimed_at := Some ts, t_updated_at := ts\<rparr>)) (\<lambda>changes.
      andThen (require (changes = 1) (NotClaimedBy taskId w)) (\<lambda>_. ok ts))))"

definition updateTaskStatus ::
  "(db \<Rightarrow> db) \<Rightarrow> string \<Rightarrow> string \<Rightarrow> task_status \<Rightarrow> string \<Rightarrow> unit dbop" where
  "updateTaskStatus other ts taskId status latestUpdate =
     andThen (sql_get tasks (\<lambda>r. t_id r = taskId)) (\<lambda>row.
     andThen (orThrow (TaskNotFound taskId) row) (\<lambda>row.
     andThen (case assertTaskTransition (t_status row) status of
         Inl e \<Rightarrow> fail (BadTransition e) | Inr _ \<Rightarrow> ok ()) (\<lambda>_.
     andThen (update other) (\<lambda>_.
     andThen (sql_update tasks tasks_update (\<lambda>r. t_id r = taskId \<and> t_status r = t_status row)
       (\<lambda>r. r\<lparr>t_status := status, t_latest_update := latestUpdate,
              t_claimed_by := (if status = TRunning then t_claimed_by r else None),
              t_claimed_at := (if status = TRunning then t_claimed_at r else None),
              t_updated_at := ts\<rparr>)) (\<lambda>changes.
     require (changes = 1) (TaskChangedConcurrently taskId))))))"

definition updateRouteStep ::
  "(db \<Rightarrow> db) \<Rightarrow> string \<Rightarrow> string \<Rightarrow> step_status option \<Rightarrow> string option option \<Rightarrow> unit dbop" where
  "updateRouteStep other ts stepId status runId =
     andThen (sql_get route_steps (\<lambda>r. s_id r = stepId)) (\<lambda>row.
     andThen (orThrow (StepNotFound stepId) row) (\<lambda>row.
     andThen (update other) (\<lambda>_.
     andThen (sql_update route_steps route_steps_update
       (\<lambda>r. s_id r = stepId \<and> s_status r = s_status row \<and> s_run_id r = s_run_id row)
       (\<lambda>r. r\<lparr>s_status := (case status of None \<Rightarrow> s_status row | Some st \<Rightarrow> st),
              s_run_id := (case runId of None \<Rightarrow> s_run_id row | Some i \<Rightarrow> i),
              s_updated_at := ts\<rparr>)) (\<lambda>changes.
     require (changes = 1) (StepChangedConcurrently stepId)))))"

definition resetRouteSteps :: "string \<Rightarrow> string \<Rightarrow> nat dbop" where
  "resetRouteSteps ts taskId = sql_update route_steps route_steps_update (\<lambda>r. s_task_id r = taskId)
     (\<lambda>r. r\<lparr>s_status := SPending, s_run_id := None, s_updated_at := ts\<rparr>)"

subsection \<open>The invariant and the moves\<close>

lemma db_wf_createTask [preserves_rules]: "preserves db_wf (createTask uid ts input plan)"
  unfolding createTask_def Let_def
  by (intro preserves_rules) (simp add: task_claim_ok_def new_task_row_def)

lemma db_wf_claimNextTask [preserves_rules]: "preserves db_wf (claimNextTask ts w)"
  unfolding claimNextTask_def
  by (intro preserves_rules) (simp_all add: task_claim_ok_def)

lemma db_wf_heartbeatTask [preserves_rules]: "preserves db_wf (heartbeatTask ts i w)"
  unfolding heartbeatTask_def Let_def
  by (intro preserves_rules) (simp_all add: task_claim_ok_def)

lemma db_wf_updateTaskStatus [preserves_rules]:
  "(\<And>s. db_wf s \<Longrightarrow> db_wf (other s)) \<Longrightarrow> preserves db_wf (updateTaskStatus other ts i st u)"
  unfolding updateTaskStatus_def
  by (intro preserves_rules) (auto simp: task_claim_ok_def)

lemma db_wf_updateRouteStep [preserves_rules]:
  "(\<And>s. db_wf s \<Longrightarrow> db_wf (other s)) \<Longrightarrow> preserves db_wf (updateRouteStep other ts i st r)"
  unfolding updateRouteStep_def
  by (intro preserves_rules) auto

lemma db_wf_resetRouteSteps [preserves_rules]: "preserves db_wf (resetRouteSteps ts i)"
  unfolding resetRouteSteps_def by (intro preserves_rules) simp

context db_moves begin

lemma keeps_getTask: "keeps (db_evolves M N) (getTask i)"
  by (simp add: keeps_def getTask_snd db_evolves_refl)

lemma keeps_createTask: "keeps (db_evolves M N) (createTask uid ts input plan)"
  unfolding createTask_def Let_def by (intro keeps_statements keeps_getTask)

lemma keeps_claimNextTask: "(TQueued, TRunning) \<in> M \<Longrightarrow> keeps (db_evolves M N) (claimNextTask ts w)"
  unfolding claimNextTask_def
  by (intro keeps_statements keeps_getTask) (simp_all add: task_fixed_def)

lemma keeps_heartbeatTask: "keeps (db_evolves M N) (heartbeatTask ts i w)"
  unfolding heartbeatTask_def Let_def
  by (intro keeps_statements) (simp_all add: task_fixed_def)

lemma keeps_updateRouteStep:
  "(\<And>s. db_evolves M N s (other s)) \<Longrightarrow> keeps (db_evolves M N) (updateRouteStep other ts i st r)"
  unfolding updateRouteStep_def
  by (intro keeps_statements) (auto simp: step_fixed_def)

lemma keeps_resetRouteSteps: "keeps (db_evolves M N) (resetRouteSteps ts i)"
  unfolding resetRouteSteps_def by (intro keeps_statements) (simp add: step_fixed_def)

lemma keeps_updateTaskStatus:
  assumes "\<And>s. db_evolves M N s (other s)" and "\<And>a. task_step_ok a st \<Longrightarrow> a \<noteq> st \<Longrightarrow> (a, st) \<in> M"
  shows "keeps (db_evolves M N) (updateTaskStatus other ts i st u)"
proof -
  have step: "keeps (db_evolves M N) (andThen (case assertTaskTransition a st of Inl e \<Rightarrow> fail (BadTransition e) | Inr _ \<Rightarrow> ok ())
      (\<lambda>_. andThen (update other) (\<lambda>_.
       andThen (sql_update tasks tasks_update (\<lambda>r. t_id r = i \<and> t_status r = a)
       (\<lambda>r. r\<lparr>t_status := st, t_latest_update := u,
              t_claimed_by := (if st = TRunning then t_claimed_by r else None),
              t_claimed_at := (if st = TRunning then t_claimed_at r else None),
              t_updated_at := ts\<rparr>)) (\<lambda>changes.
       require (changes = 1) (TaskChangedConcurrently i)))))" for a
  proof (cases "task_step_ok a st")
    case True
    with assms(2) have "a = st \<or> (a, st) \<in> M" by blast
    then show ?thesis by (intro keeps_statements assms(1)) (auto simp: task_fixed_def)
  next
    case False
    then show ?thesis
      by (simp add: assertTaskTransition_cases) (simp add: keeps_def eff_simps db_evolves_refl)
  qed
  show ?thesis unfolding updateTaskStatus_def by (intro keeps_statements step)
qed

end

subsection \<open>Create\<close>

lemma new_step_simps [simp]:
  "s_id (new_step_row i ts st) = st_id st" "s_task_id (new_step_row i ts st) = i"
  "s_sequence_no (new_step_row i ts st) = st_sequence st" "s_created_at (new_step_row i ts st) = ts"
  "route_step_of (new_step_row i ts st) = st"
  by (simp_all add: new_step_row_def route_step_of_def)

lemma insert_steps_run:
  assumes "distinct (map st_id sts)" and "\<forall>st \<in> set sts. st_id st \<notin> s_id ` set (route_steps s)" and "has_task i s"
  shows "forEach sts (\<lambda>st. insert_step (new_step_row i ts st)) s =
    (Inr (), s\<lparr>route_steps := route_steps s @ map (new_step_row i ts) sts\<rparr>)"
  using assms
proof (induction sts arbitrary: s)
  case (Cons st sts)
  let ?s = "s\<lparr>route_steps := route_steps s @ [new_step_row i ts st]\<rparr>"
  have "insert_step (new_step_row i ts st) s = (Inr (), ?s)"
    using Cons.prems by (auto simp: insert_defs step_constraints_def)
  moreover have "forEach sts (\<lambda>st. insert_step (new_step_row i ts st)) ?s =
      (Inr (), ?s\<lparr>route_steps := route_steps ?s @ map (new_step_row i ts) sts\<rparr>)"
    using Cons.prems by (intro Cons.IH) (auto simp: image_iff)
  ultimately show ?case by (simp add: andThen_def)
qed (simp add: ok_def)

text \<open>The rows a payload and a plan are stored as read back as that payload and plan.\<close>

lemma stored_payload_valid:
  assumes "TaskPayloadSchema input = Some task" and "TaskIdSchema i = Some i"
  shows "TaskPayloadSchema (task\<lparr>p_id := Some i, p_context := truthy (p_context task),
      p_verificationCommand := truthy (p_verificationCommand task)\<rparr>) =
    Some (task\<lparr>p_id := Some i, p_context := truthy (p_context task),
      p_verificationCommand := truthy (p_verificationCommand task)\<rparr>)"
proof -
  have opt: "optional_field f x = Some x \<Longrightarrow> optional_field f (truthy x) = Some (truthy x)" for f :: "string \<Rightarrow> string option" and x
    by (auto simp: optional_field_def truthy_def split: option.splits list.splits)
  have "TaskPayloadSchema task = Some task" by (rule TaskPayloadSchema_idem [OF assms(1)])
  with assms(2) show ?thesis unfolding TaskPayloadSchema_def
    by (cases task) (auto simp: bind_eq_Some_conv opt optional_field_def [of TaskIdSchema] split: if_splits)
qed

definition new_task_record :: "string \<Rightarrow> string \<Rightarrow> string \<Rightarrow> task_payload \<Rightarrow> route_plan \<Rightarrow> task_record" where
  "new_task_record i ts u task plan = \<lparr>tr_id = i, tr_goal = p_goal task, tr_repo = p_repo task,
     tr_baseRef = p_baseRef task, tr_agent = p_agent task, tr_priority = p_priority task,
     tr_context = truthy (p_context task), tr_successCriteria = p_successCriteria task,
     tr_verificationCommand = truthy (p_verificationCommand task),
     tr_handoffRequired = p_handoffRequired task, tr_status = TQueued, tr_routePlan = plan,
     tr_latestUpdate = u,
     tr_claimedBy = None, tr_claimedAt = None, tr_createdAt = ts, tr_updatedAt = ts\<rparr>"

lemma truthy_truthy [simp]: "truthy (truthy v) = truthy v"
  by (auto simp: truthy_def split: option.splits list.splits)

lemma taskFromRow_new:
  assumes "TaskPayloadSchema input = Some task" and "TaskIdSchema i = Some i"
  shows "taskFromRow (new_task_row i ts task plan) =
    Some (new_task_record i ts (t_latest_update (new_task_row i ts task plan)) task (plan\<lparr>rp_steps := [placeholder_step]\<rparr>))"
proof -
  let ?p = "task\<lparr>p_id := Some i, p_context := truthy (p_context task),
      p_verificationCommand := truthy (p_verificationCommand task)\<rparr>"
  have eq: "\<lparr>p_id = Some i, p_goal = p_goal task, p_repo = p_repo task, p_baseRef = p_baseRef task,
      p_agent = p_agent task, p_priority = p_priority task, p_context = truthy (p_context task),
      p_successCriteria = p_successCriteria task,
      p_verificationCommand = truthy (p_verificationCommand task),
      p_handoffRequired = p_handoffRequired task\<rparr> = ?p"
    by simp
  have plan: "RoutePlanSchema \<lparr>rp_mode = rp_mode plan, rp_risk = rp_risk plan, rp_reasons = rp_reasons plan,
      rp_steps = [placeholder_step]\<rparr> = Some (plan\<lparr>rp_steps := [placeholder_step]\<rparr>)"
    by (simp add: RoutePlanSchema_def placeholder_step_def RouteStepSchema_def is_safe_int_def max_safe_int_def)
  have "taskFromRow (new_task_row i ts task plan) =
    Option.bind (TaskPayloadSchema ?p) (\<lambda>p. Some (new_task_record i ts (t_latest_update (new_task_row i ts task plan)) p
      (plan\<lparr>rp_steps := [placeholder_step]\<rparr>)))"
    unfolding taskFromRow_def new_task_record_def by (simp add: new_task_row_def plan eq [symmetric])
  then show ?thesis
    by (simp add: stored_payload_valid [OF assms]) (simp add: new_task_record_def)
qed

lemma no_rows_of_new_task:
  assumes "db_wf s" and "\<not> has_task i s"
  shows "filter (\<lambda>r. s_task_id r = i) (route_steps s) = []" "filter (\<lambda>r. r_task_id r = i) (runs s) = []"
    "filter (\<lambda>r. e_task_id r = i) (events s) = []" "filter (\<lambda>r. a_task_id r = i) (artifacts s) = []"
    "filter (\<lambda>r. m_task_id r = i) (messages s) = []" "filter (\<lambda>r. v_task_id r = i) (reviews s) = []"
  using assms by (auto simp: db_wf_def refs_ok_def filter_empty_conv)

lemma taskRuns_eq: "i \<noteq> [] \<Longrightarrow> taskRuns i s = order_by (\<lambda>r. (r_created_at r, r_id r)) (filter (\<lambda>r. r_task_id r = i) (runs s))"
  by (cases i) (simp_all add: taskRuns_def listRuns_def limited_def truthy_def matches_def)

lemma taskReviews_eq: "i \<noteq> [] \<Longrightarrow> taskReviews i s = order_by (\<lambda>r. (v_created_at r, v_id r)) (filter (\<lambda>r. v_task_id r = i) (reviews s))"
  by (cases i) (simp_all add: taskReviews_def listReviews_def limited_def truthy_def matches_def)

definition created_event :: "string \<Rightarrow> string \<Rightarrow> task_payload \<Rightarrow> route_plan \<Rightarrow> nat \<Rightarrow> event_row" where
  "created_event i ts task plan n = \<lparr>e_id = n, e_task_id = i, e_run_id = None, e_type = ''task.created'',
     e_level = LInfo, e_message = ''Task queued via '' @ enum_name AgentSelectionSchema (p_agent task) @ ''.'',
     e_data = Some (JObj [(''routeMode'', JStr (mode_name (rp_mode plan))), (''risk'', JStr (risk_name (rp_risk plan)))]),
     e_created_at = ts\<rparr>"

definition after_create :: "string \<Rightarrow> string \<Rightarrow> task_payload \<Rightarrow> route_plan \<Rightarrow> db \<Rightarrow> db" where
  "after_create i ts task plan s = s\<lparr>tasks := tasks s @ [new_task_row i ts task plan],
     route_steps := route_steps s @ map (new_step_row i ts) (rp_steps plan),
     events := events s @ [created_event i ts task plan (event_seq s + 1)], event_seq := event_seq s + 1\<rparr>"

lemma with_steps_new:
  assumes "RoutePlanSchema planInput = Some plan"
  shows "with_steps (new_task_record i ts (t_latest_update (new_task_row i ts task plan)) task (plan\<lparr>rp_steps := [placeholder_step]\<rparr>))
      (order_by (\<lambda>r. (s_sequence_no r, s_created_at r)) (map (new_step_row i ts) (rp_steps plan))) =
    Some (new_task_record i ts (t_latest_update (new_task_row i ts task plan)) task (plan\<lparr>rp_steps := order_by st_sequence (rp_steps plan)\<rparr>))"
proof -
  have "list_all RouteStepSchema (rp_steps plan) \<and> rp_steps plan \<noteq> []"
    using assms by (auto simp: RoutePlanSchema_def split: if_splits)
  then have "RoutePlanSchema (plan\<lparr>rp_steps := order_by st_sequence (rp_steps plan)\<rparr>)
      = Some (plan\<lparr>rp_steps := order_by st_sequence (rp_steps plan)\<rparr>)"
    by (cases "rp_steps plan") (auto simp: RoutePlanSchema_def list_all_iff)
  moreover have "map route_step_of (order_by (\<lambda>r. (s_sequence_no r, s_created_at r))
      (map (new_step_row i ts) (rp_steps plan))) = order_by st_sequence (rp_steps plan)"
    by (simp add: order_by_map order_by_pair_const comp_def)
  ultimately show ?thesis by (simp add: with_steps_def new_task_record_def new_task_row_def)
qed

text \<open>
  Creating a task stores it: with a fresh id and fresh step ids, \<open>createTask\<close> succeeds and what it
  returns, and what \<open>getTask\<close> reads from then on, is the normalised payload as a queued, unclaimed
  task whose route steps are the plan's steps in sequence order, all pending, with the creation event
  and nothing else.
\<close>
theorem createTask_stores:
  assumes "db_wf s" and "TaskPayloadSchema input = Some task" and "RoutePlanSchema planInput = Some plan"
    and "i = (case p_id task of None \<Rightarrow> ''task_'' @ uid | Some j \<Rightarrow> j)" and "TaskIdSchema i = Some i"
    and "\<not> has_task i s" and "distinct (map st_id (rp_steps plan))"
    and "\<forall>st \<in> set (rp_steps plan). st_id st \<notin> s_id ` set (route_steps s)"
  shows "\<exists>agg t. createTask uid ts input planInput s = (Inr agg, t)
    \<and> getTask i t = (Inr (Some agg), t)
    \<and> ag_task agg = new_task_record i ts (t_latest_update (new_task_row i ts task plan)) task
        (plan\<lparr>rp_steps := order_by st_sequence (rp_steps plan)\<rparr>)
    \<and> map route_step_of (ag_routeSteps agg) = order_by st_sequence (rp_steps plan)
    \<and> (\<forall>r \<in> set (ag_routeSteps agg). s_status r = SPending \<and> s_run_id r = None)
    \<and> map e_type (ag_events agg) = [''task.created''] \<and> ag_runs agg = [] \<and> ag_artifacts agg = []
    \<and> ag_messages agg = [] \<and> ag_reviews agg = []"
proof -
  let ?row = "new_task_row i ts task plan" and ?T = "after_create i ts task plan s"
  let ?rec = "new_task_record i ts (t_latest_update ?row) task (plan\<lparr>rp_steps := order_by st_sequence (rp_steps plan)\<rparr>)"
  let ?steps = "order_by (\<lambda>r. (s_sequence_no r, s_created_at r)) (map (new_step_row i ts) (rp_steps plan))"
  have i: "i \<noteq> []" using TaskIdSchema_shape [OF assms(5)] by simp
  note empty = no_rows_of_new_task [OF assms(1,6)]
  have read: "getTask i ?T = (Inr (Some \<lparr>ag_task = ?rec, ag_routeSteps = ?steps, ag_runs = [],
      ag_events = [created_event i ts task plan (event_seq s + 1)], ag_artifacts = [], ag_messages = [], ag_reviews = []\<rparr>), ?T)"
  proof -
    have "find (\<lambda>r. t_id r = i) (tasks ?T) = Some ?row"
      using assms(6) by (auto simp: after_create_def find_snoc new_task_row_def has_task_def find_None_iff split: option.splits dest: find_key_Some)
    moreover have "listRouteSteps i ?T = ?steps"
      by (simp add: listRouteSteps_def after_create_def empty filter_map comp_def)
    moreover have "listEvents i ?T = [created_event i ts task plan (event_seq s + 1)]"
      by (simp add: listEvents_def after_create_def empty created_event_def order_by_def)
    moreover have "taskRuns i ?T = []" "taskReviews i ?T = []" "listArtifacts i ?T = []" "listMessages i ?T = []"
      using i by (simp_all add: taskRuns_eq taskReviews_eq listArtifacts_def listMessages_def after_create_def empty)
    ultimately show ?thesis
      by (simp add: getTask_def sql_get_def andThen_def query_def orThrow_def
          taskFromRow_new [OF assms(2,5)] with_steps_new [OF assms(3)])
  qed
  let ?s1 = "s\<lparr>tasks := tasks s @ [?row]\<rparr>"
  have "insert_task ?row s = (Inr (), ?s1)"
    using assms(6) by (simp add: insert_defs task_constraints_def has_task_def new_task_row_def)
  moreover have "forEach (rp_steps plan) (\<lambda>st. insert_step (new_step_row i ts st)) ?s1 =
      (Inr (), ?s1\<lparr>route_steps := route_steps ?s1 @ map (new_step_row i ts) (rp_steps plan)\<rparr>)"
    using assms(7,8) by (intro insert_steps_run) (auto simp: new_task_row_def)
  ultimately have "createTask uid ts input planInput s = andThen (getTask i) (orThrow (TaskDisappeared i)) ?T"
    using assms(2,3) by (simp add: createTask_def andThen_def orThrow_def atomically_def insert_event_def
        event_constraints_def has_run_def assms(4) [symmetric] Let_def new_task_row_def)
      (simp add: after_create_def created_event_def new_task_row_def)
  also have "\<dots> = (Inr \<lparr>ag_task = ?rec, ag_routeSteps = ?steps, ag_runs = [],
      ag_events = [created_event i ts task plan (event_seq s + 1)], ag_artifacts = [], ag_messages = [], ag_reviews = []\<rparr>, ?T)"
    by (simp add: read andThen_def orThrow_def)
  finally have run: "createTask uid ts input planInput s = \<dots>" .
  have "map route_step_of ?steps = order_by st_sequence (rp_steps plan)"
    by (simp add: order_by_map order_by_pair_const comp_def)
  moreover have "\<forall>r \<in> set ?steps. s_status r = SPending \<and> s_run_id r = None"
    by (auto simp: new_step_row_def)
  ultimately show ?thesis using run read by (simp add: created_event_def)
qed

definition sample_payload :: task_payload where
  "sample_payload = \<lparr>p_id = Some '' new '', p_goal = '' Fix the bug '', p_repo = ''/repo'', p_baseRef = ''HEAD'',
     p_agent = SelCodex, p_priority = PHigh, p_context = Some ''  '', p_successCriteria = [''tests pass''],
     p_verificationCommand = None, p_handoffRequired = True\<rparr>"

definition step_of :: "string \<Rightarrow> int \<Rightarrow> agent_kind \<Rightarrow> route_role \<Rightarrow> route_step" where
  "step_of i n agent role = \<lparr>st_id = i, st_sequence = n, st_agent = agent, st_role = role, st_required = True, st_reason = ''r''\<rparr>"

definition sample_plan :: route_plan where
  "sample_plan = \<lparr>rp_mode = Sequential, rp_risk = RiskNormal, rp_reasons = [''r''],
     rp_steps = [step_of ''s2'' 1 Claude Review, step_of ''s1'' 0 Codex Execute]\<rparr>"

theorem createTask_stores_witness:
  "\<exists>agg t. createTask ''u'' ''9'' sample_payload sample_plan sample_db = (Inr agg, t)
    \<and> getTask ''new'' t = (Inr (Some agg), t) \<and> tr_goal (ag_task agg) = ''Fix the bug'' \<and> tr_context (ag_task agg) = None
    \<and> map s_id (ag_routeSteps agg) = [''s1'', ''s2'']"
proof -
  let ?task = "sample_payload\<lparr>p_id := Some ''new'', p_goal := ''Fix the bug'', p_context := Some []\<rparr>"
  have h: "TaskPayloadSchema sample_payload = Some ?task" "RoutePlanSchema sample_plan = Some sample_plan"
    "TaskIdSchema ''new'' = Some ''new''"
    by (simp_all add: sample_payload_def sample_plan_def step_of_def TaskPayloadSchema_def RoutePlanSchema_def
        RouteStepSchema_def is_safe_int_def max_safe_int_def TaskIdSchema_def optional_field_def text_field_def
        trim_def js_space_def task_id_shape_def alnum_def id_char_def Let_def)
  have i: "''new'' = (case p_id ?task of None \<Rightarrow> ''task_'' @ ''u'' | Some j \<Rightarrow> j)" by simp
  have f: "\<not> has_task ''new'' sample_db" "distinct (map st_id (rp_steps sample_plan))"
    "\<forall>st \<in> set (rp_steps sample_plan). st_id st \<notin> s_id ` set (route_steps sample_db)"
    by (simp_all add: has_task_def sample_defs sample_plan_def step_of_def)
  from createTask_stores [OF sample_db_wf h(1,2) i h(3) f, of "''9''"]
  obtain agg t where *: "createTask ''u'' ''9'' sample_payload sample_plan sample_db = (Inr agg, t)"
    "getTask ''new'' t = (Inr (Some agg), t)"
    "ag_task agg = new_task_record ''new'' ''9'' (t_latest_update (new_task_row ''new'' ''9'' ?task sample_plan)) ?task
        (sample_plan\<lparr>rp_steps := order_by st_sequence (rp_steps sample_plan)\<rparr>)"
    "map route_step_of (ag_routeSteps agg) = order_by st_sequence (rp_steps sample_plan)"
    by blast
  have "map s_id (ag_routeSteps agg) = map st_id (order_by st_sequence (rp_steps sample_plan))"
    unfolding *(4) [symmetric] by (simp add: route_step_of_def comp_def)
  also have "\<dots> = [''s1'', ''s2'']" by (simp add: sample_plan_def step_of_def order_by_def)
  finally have "map s_id (ag_routeSteps agg) = [''s1'', ''s2'']" .
  moreover have "tr_goal (ag_task agg) = ''Fix the bug''" "tr_context (ag_task agg) = None"
    by (simp_all add: *(3) new_task_record_def truthy_def)
  ultimately show ?thesis using *(1,2) by (intro exI [of _ agg] exI [of _ t]) simp
qed

subsection \<open>Claim\<close>

lemma claim_candidates_iff: "claim_candidates s = [] \<longleftrightarrow> (\<forall>r \<in> set (tasks s). t_status r \<noteq> TQueued)"
proof -
  have "claim_candidates s = [] \<longleftrightarrow> set (claim_candidates s) = {}" by simp
  then show ?thesis by (auto simp: claim_candidates_def)
qed

lemma claim_candidates_hd:
  assumes "claim_candidates s = c # cs"
  shows "c \<in> set (tasks s) \<and> t_status c = TQueued \<and> (\<forall>q \<in> set (tasks s). t_status q = TQueued \<longrightarrow>
    (priority_rank (t_priority c), t_created_at c) \<le> (priority_rank (t_priority q), t_created_at q))"
proof -
  have "c \<in> set (claim_candidates s)" by (simp add: assms)
  moreover have "(priority_rank (t_priority c), t_created_at c) \<le> (priority_rank (t_priority q), t_created_at q)"
    if "q \<in> set (tasks s)" "t_status q = TQueued" for q
    using order_by_hd [OF assms [unfolded claim_candidates_def], of q] that by simp
  ultimately show ?thesis by (auto simp: claim_candidates_def)
qed

definition claimed_row :: "string \<Rightarrow> string \<Rightarrow> task_row \<Rightarrow> task_row" where
  "claimed_row ts w r = r\<lparr>t_status := TRunning, t_claimed_by := Some w, t_claimed_at := Some ts,
     t_latest_update := ''Claimed by '' @ w @ ''.'', t_updated_at := ts\<rparr>"

lemma tasks_update_at: "tasks_update (update_rows P f) s = s\<lparr>tasks := update_rows P f (tasks s)\<rparr>"
  by (cases s) simp

definition after_claim :: "string \<Rightarrow> string \<Rightarrow> task_row \<Rightarrow> db \<Rightarrow> db" where
  "after_claim ts w c s = s\<lparr>tasks := update_rows (\<lambda>r. t_id r = t_id c) (claimed_row ts w) (tasks s),
      events := events s @ [\<lparr>e_id = event_seq s + 1, e_task_id = t_id c, e_run_id = None, e_type = ''task.claimed'',
        e_level = LInfo, e_message = ''Task claimed by '' @ w @ ''.'', e_data = Some (JObj [(''workerId'', JStr w)]),
        e_created_at = ts\<rparr>], event_seq := event_seq s + 1\<rparr>"

lemma claimNextTask_run:
  assumes "db_wf s" and "claim_candidates s = c # cs"
  shows "claimNextTask ts w s = (if t_id c = [] then ok None else getTask (t_id c)) (after_claim ts w c s)"
proof -
  note c = claim_candidates_hd [OF assms(2)]
  from assms(1) have u: "unique_key t_id (tasks s)" by (rule db_wfD)
  have "find (\<lambda>r. t_id r = t_id c) (tasks s) = Some c" using u c by (simp add: find_key_unique)
  moreover have rows: "update_rows (\<lambda>r. t_id r = t_id c \<and> t_status r = TQueued) f (tasks s) = update_rows (\<lambda>r. t_id r = t_id c) f (tasks s)" for f
    using u c by (auto simp: update_rows_def dest: unique_key_inj)
  ultimately
  have upd: "sql_update tasks tasks_update (\<lambda>r. t_id r = t_id c \<and> t_status r = TQueued) f s =
      (Inr 1, tasks_update (update_rows (\<lambda>r. t_id r = t_id c \<and> t_status r = TQueued) f) s)" for f
    using task_tbl.update_key_count [OF u, of "t_id c" "\<lambda>r. t_status r = TQueued" f] c by simp
  have "t_id c \<in> t_id ` set (update_rows (\<lambda>r. t_id r = t_id c) (claimed_row ts w) (tasks s))"
    using c by (subst key_image_update_rows) (auto simp: claimed_row_def)
  then show ?thesis using assms(2)
    by (simp add: claimNextTask_def andThen_def query_def atomically_def upd tasks_update_at rows insert_event_def Let_def
        event_constraints_def has_run_def has_task_def ok_def claimed_row_def [abs_def] after_claim_def truthy_def
        split: list.splits)
qed

lemma after_claim_row:
  assumes "db_wf s" and "c \<in> set (tasks s)" and "r \<in> set (tasks (after_claim ts w c s))" and "t_id r = t_id c"
  shows "r = claimed_row ts w c"
proof -
  from assms(3) obtain q where q: "q \<in> set (tasks s)" "r = (if t_id q = t_id c then claimed_row ts w q else q)"
    by (auto simp: after_claim_def set_update_rows)
  then have "t_id q = t_id c" using assms(4) by (auto simp: claimed_row_def split: if_splits)
  then show ?thesis using q assms(1,2) unique_key_inj [OF db_wfD(1)] by auto
qed

lemma claimNextTask_picks_aux:
  assumes "db_wf s" and "claimNextTask ts w s = (Inr (Some agg), t)"
  obtains c where "c \<in> set (tasks s)" "t_status c = TQueued"
    "\<forall>q \<in> set (tasks s). t_status q = TQueued \<longrightarrow>
         (priority_rank (t_priority c), t_created_at c) \<le> (priority_rank (t_priority q), t_created_at q)"
    "t = after_claim ts w c s"
    "tr_id (ag_task agg) = t_id c" "tr_status (ag_task agg) = TRunning" "tr_claimedBy (ag_task agg) = Some w"
proof (cases "claim_candidates s")
  case Nil
  with assms(2) show ?thesis by (simp add: claimNextTask_def andThen_def query_def atomically_def ok_def truthy_def)
next
  case (Cons c cs)
  note c = claim_candidates_hd [OF Cons]
  from assms(2) have get: "getTask (t_id c) (after_claim ts w c s) = (Inr (Some agg), t)"
    using claimNextTask_run [OF assms(1) Cons] by (auto simp: ok_def split: if_splits)
  then obtain row where row: "t = after_claim ts w c s" "row \<in> set (tasks (after_claim ts w c s))" "t_id row = t_id c"
      "tr_id (ag_task agg) = t_id c" "tr_status (ag_task agg) = t_status row" "tr_claimedBy (ag_task agg) = t_claimed_by row"
    using getTask_fields by blast
  have "row = claimed_row ts w c" using after_claim_row [OF assms(1)] c row(2,3) by blast
  with c row show ?thesis by (intro that [of c]) (simp_all add: claimed_row_def)
qed

text \<open>
  A claim takes the most urgent queued task, the oldest one among equals, for this worker: that
  row alone becomes running under the worker's name, a claim event is logged, and nothing else changes.
\<close>
theorem claimNextTask_picks:
  assumes "db_wf s" and "claimNextTask ts w s = (Inr (Some agg), t)"
  shows "\<exists>c \<in> set (tasks s). t_status c = TQueued
    \<and> (\<forall>q \<in> set (tasks s). t_status q = TQueued \<longrightarrow>
         (priority_rank (t_priority c), t_created_at c) \<le> (priority_rank (t_priority q), t_created_at q))
    \<and> t = after_claim ts w c s
    \<and> tr_id (ag_task agg) = t_id c \<and> tr_status (ag_task agg) = TRunning \<and> tr_claimedBy (ag_task agg) = Some w"
  using claimNextTask_picks_aux [OF assms] by metis

text \<open>
  C4 Two claims never hand out the same task: what the first worker got is still running under its
  name after any second claim, which gets another task or none.
\<close>
theorem claimNextTask_exclusive:
  assumes "db_wf s" and "claimNextTask ts w s = (Inr (Some a), t)" and "claimNextTask ts' w' t = (Inr (Some b), u)"
  shows "tr_id (ag_task b) \<noteq> tr_id (ag_task a)
    \<and> (\<exists>r \<in> set (tasks u). t_id r = tr_id (ag_task a) \<and> t_status r = TRunning \<and> t_claimed_by r = Some w)"
proof -
  have wf: "db_wf t" using preservesD [OF db_wf_claimNextTask assms(1,2)] .
  obtain c where c: "c \<in> set (tasks s)" "t = after_claim ts w c s" "tr_id (ag_task a) = t_id c"
    using claimNextTask_picks_aux [OF assms(1,2)] by blast
  obtain d where d: "d \<in> set (tasks t)" "t_status d = TQueued" "u = after_claim ts' w' d t" "tr_id (ag_task b) = t_id d"
    using claimNextTask_picks_aux [OF wf assms(3)] by blast
  have r: "claimed_row ts w c \<in> set (tasks t)"
    using c(1) by (force simp: c(2) after_claim_def set_update_rows)
  have ne: "t_id d \<noteq> t_id c"
  proof
    assume "t_id d = t_id c"
    with after_claim_row [OF assms(1) c(1), of d ts w] d(1) c(2) have "d = claimed_row ts w c" by simp
    with d(2) show False by (simp add: claimed_row_def)
  qed
  then have "claimed_row ts w c \<in> set (tasks u)"
    using r by (force simp: d(3) after_claim_def set_update_rows claimed_row_def)
  with ne c(3) d(4) show ?thesis by (intro conjI bexI [of _ "claimed_row ts w c"]) (simp_all add: claimed_row_def)
qed

text \<open>A claimed task reads back: the claim changes no field the schemas look at.\<close>

lemma taskFromRow_claimed: "taskFromRow r = Some x \<Longrightarrow> taskFromRow (claimed_row ts w r) = Some (x\<lparr>tr_status := TRunning,
    tr_claimedBy := Some w, tr_claimedAt := Some ts, tr_latestUpdate := ''Claimed by '' @ w @ ''.'', tr_updatedAt := ts\<rparr>)"
  by (auto simp: taskFromRow_def claimed_row_def bind_eq_Some_conv)

definition readable :: "string \<Rightarrow> db \<Rightarrow> bool" where
  "readable i s \<longleftrightarrow> i \<noteq> [] \<and> (case fst (getTask i s) of Inr (Some _) \<Rightarrow> True | _ \<Rightarrow> False)"

lemma readable_iff: "readable i s \<longleftrightarrow> i \<noteq> [] \<and> (\<exists>row x y. find (\<lambda>r. t_id r = i) (tasks s) = Some row
    \<and> taskFromRow row = Some x \<and> with_steps x (listRouteSteps i s) = Some y)"
  by (auto simp: readable_def getTask_def eff_simps split: option.splits)

lemma readable_after_claim:
  assumes "db_wf s" and "c \<in> set (tasks s)" and "readable (t_id c) s"
  shows "\<exists>agg. getTask (t_id c) (after_claim ts w c s) = (Inr (Some agg), after_claim ts w c s)"
proof -
  have f: "find (\<lambda>r. t_id r = t_id c) (tasks s) = Some c" by (rule find_key_unique [OF db_wfD(1) [OF assms(1)] assms(2)])
  with assms(3) obtain x y where x: "taskFromRow c = Some x" "with_steps x (listRouteSteps (t_id c) s) = Some y"
    by (auto simp: readable_iff)
  have "find (\<lambda>r. t_id r = t_id c) (tasks (after_claim ts w c s)) = Some (claimed_row ts w c)"
    by (simp add: after_claim_def find_update_rows [of _ t_id] claimed_row_def f)
  moreover have "listRouteSteps (t_id c) (after_claim ts w c s) = listRouteSteps (t_id c) s"
    by (simp add: listRouteSteps_def after_claim_def)
  moreover note taskFromRow_claimed [OF x(1), of ts w] x(2)
  ultimately show ?thesis
    by (auto simp: getTask_def eff_simps with_steps_def)
qed

text \<open>
  The claim is live: as long as some task is queued and the queued tasks can be read, a claim
  returns one of them; with nothing queued it returns null and leaves the database as it was.
\<close>
theorem claimNextTask_live:
  assumes "db_wf s" and "\<forall>r \<in> set (tasks s). t_status r = TQueued \<longrightarrow> readable (t_id r) s"
  shows "(\<exists>r \<in> set (tasks s). t_status r = TQueued) \<and> (\<exists>agg t. claimNextTask ts w s = (Inr (Some agg), t))
    \<or> (\<forall>r \<in> set (tasks s). t_status r \<noteq> TQueued) \<and> claimNextTask ts w s = (Inr None, s)"
proof (cases "claim_candidates s")
  case Nil
  then have "claimNextTask ts w s = (Inr None, s)"
    by (simp add: claimNextTask_def andThen_def query_def atomically_def ok_def truthy_def)
  with Nil claim_candidates_iff show ?thesis by blast
next
  case (Cons c cs)
  note c = claim_candidates_hd [OF Cons]
  with assms(2) have "readable (t_id c) s" by blast
  moreover from this have "t_id c \<noteq> []" by (simp add: readable_iff)
  ultimately show ?thesis
    using readable_after_claim [OF assms(1), of c ts w] claimNextTask_run [OF assms(1) Cons, of ts w] c by auto
qed

lemma sample_readable: "\<forall>r \<in> set (tasks sample_db). t_status r = TQueued \<longrightarrow> readable (t_id r) sample_db"
  by (simp add: sample_db_def sample_task_def sample_step_def readable_iff listRouteSteps_def taskFromRow_def
      with_steps_def route_step_of_def TaskPayloadSchema_def RoutePlanSchema_def RouteStepSchema_def
      is_safe_int_def max_safe_int_def TaskIdSchema_def optional_field_def text_field_def truthy_def
      trim_def js_space_def task_id_shape_def alnum_def id_char_def Let_def placeholder_step_def order_by_def)

lemma sample_claim: "\<exists>agg t. claimNextTask ts w sample_db = (Inr (Some agg), t)"
proof -
  have c: "claim_candidates sample_db = [sample_task ''e'' TQueued PHigh None ''5'', sample_task ''d'' TQueued PLow None ''4'']"
    by (simp add: claim_candidates_def sample_db_def sample_task_def order_by_def)
  have "readable ''e'' sample_db" using sample_readable by (simp add: sample_db_def sample_task_def)
  then show ?thesis
    using readable_after_claim [OF sample_db_wf, of "sample_task ''e'' TQueued PHigh None ''5''" ts w]
      claimNextTask_run [OF sample_db_wf c, of ts w] by (auto simp: sample_db_def sample_task_def)
qed

theorem claimNextTask_live_witness: "\<exists>agg t. claimNextTask ''9'' ''w2'' sample_db = (Inr (Some agg), t)"
proof -
  have "sample_task ''d'' TQueued PLow None ''4'' \<in> set (tasks sample_db)" by (simp add: sample_db_def)
  then have "\<not> (\<forall>r \<in> set (tasks sample_db). t_status r \<noteq> TQueued)" by (force simp: sample_task_def)
  then show ?thesis using claimNextTask_live [OF sample_db_wf sample_readable, of "''9''" "''w2''"] by blast
qed

theorem claimNextTask_picks_witness:
  "\<exists>agg t. claimNextTask ''9'' ''w2'' sample_db = (Inr (Some agg), t) \<and> tr_id (ag_task agg) = ''e''"
proof -
  obtain agg t where r: "claimNextTask ''9'' ''w2'' sample_db = (Inr (Some agg), t)" using sample_claim by blast
  from claimNextTask_picks [OF sample_db_wf r] have "tr_id (ag_task agg) = ''e''"
    by (auto simp: sample_db_def sample_task_def)
  with r show ?thesis by blast
qed

lemma sample_claim_again:
  "\<exists>b u. claimNextTask ts w (after_claim ''9'' ''w2'' (sample_task ''e'' TQueued PHigh None ''5'') sample_db) = (Inr (Some b), u)"
proof -
  let ?s = "after_claim ''9'' ''w2'' (sample_task ''e'' TQueued PHigh None ''5'') sample_db"
  let ?d = "sample_task ''d'' TQueued PLow None ''4''"
  have wf: "db_wf ?s"
    by (simp add: after_claim_def sample_defs wf_parts unique_key_def attempt_key_def has_task_def has_run_def
        task_claim_ok_def update_rows_def claimed_row_def)
  have c: "claim_candidates ?s = [?d]"
    by (simp add: claim_candidates_def after_claim_def sample_db_def sample_task_def order_by_def update_rows_def claimed_row_def)
  have "readable ''d'' sample_db" using sample_readable by (simp add: sample_db_def sample_task_def)
  then have "readable (t_id ?d) ?s"
    by (simp add: readable_iff listRouteSteps_def after_claim_def update_rows_def sample_db_def sample_task_def)
  then show ?thesis
    using readable_after_claim [OF wf, of ?d ts w] claimNextTask_run [OF wf c, of ts w]
    by (auto simp: after_claim_def update_rows_def sample_db_def sample_task_def)
qed

theorem claimNextTask_exclusive_witness:
  "\<exists>a b t u. claimNextTask ''9'' ''w2'' sample_db = (Inr (Some a), t) \<and> claimNextTask ''9'' ''w3'' t = (Inr (Some b), u)
     \<and> tr_id (ag_task b) \<noteq> tr_id (ag_task a)"
proof -
  obtain a t where r: "claimNextTask ''9'' ''w2'' sample_db = (Inr (Some a), t)" using sample_claim by blast
  then have "t = after_claim ''9'' ''w2'' (sample_task ''e'' TQueued PHigh None ''5'') sample_db"
    by (elim claimNextTask_picks_aux [OF sample_db_wf]) (auto simp: sample_db_def sample_task_def)
  then obtain b u where "claimNextTask ''9'' ''w3'' t = (Inr (Some b), u)" using sample_claim_again by blast
  with claimNextTask_exclusive [OF sample_db_wf r] r show ?thesis by blast
qed

subsection \<open>Heartbeat and the status compare-and-swap\<close>

text \<open>
  A heartbeat returns exactly for the worker that holds the running task, and then only moves that
  claim's timestamps; for anybody else, a finished task or an unknown one, it throws and changes nothing.
\<close>
theorem heartbeatTask_owner:
  assumes "db_wf s" and "heartbeatTask ts i w s = (r, t)"
  shows "(case r of
      Inr h \<Rightarrow> h = ts \<and> t = s\<lparr>tasks := update_rows (\<lambda>r. t_id r = i) (\<lambda>r. r\<lparr>t_claimed_at := Some ts, t_updated_at := ts\<rparr>) (tasks s)\<rparr>
        \<and> (\<exists>q \<in> set (tasks s). t_id q = i \<and> t_status q = TRunning \<and> t_claimed_by q = Some (trim w))
    | Inl e \<Rightarrow> t = s \<and> (trim w = [] \<or> (\<forall>q \<in> set (tasks s). \<not> (t_id q = i \<and> t_status q = TRunning \<and> t_claimed_by q = Some (trim w)))))"
proof -
  from assms(1) have u: "unique_key t_id (tasks s)" by (rule db_wfD)
  let ?Q = "\<lambda>r. t_status r = TRunning \<and> t_claimed_by r = Some (trim w)"
  have "\<exists>q \<in> set (tasks s). t_id q = i \<and> ?Q q" if "find (\<lambda>r. t_id r = i) (tasks s) = Some q" "?Q q" for q
    using that by (auto dest: find_key_Some)
  moreover have "\<not> (t_id q = i \<and> ?Q q)" if "find (\<lambda>r. t_id r = i) (tasks s) = None" "q \<in> set (tasks s)" for q
    using that by (auto simp: find_None_iff)
  moreover have "\<not> (t_id q' = i \<and> ?Q q')" if "find (\<lambda>r. t_id r = i) (tasks s) = Some q" "\<not> ?Q q" "q' \<in> set (tasks s)" for q q'
    using that unique_key_inj [OF u] by (metis find_key_Some)
  ultimately show ?thesis
    using assms(2)
    by (auto simp: heartbeatTask_def andThen_def require_def ok_def Let_def tasks_update_at task_tbl.cas_update [OF u]
        split: if_splits option.splits)
qed

text \<open>
  The status change is a compare-and-swap: whatever other processes commit between its SELECT and its
  UPDATE (\<open>other\<close>), it either throws and leaves their state untouched, or the task still had the
  status it read, the transition table allows the move from it, and exactly that task's row is
  rewritten, keeping the claim only if the task goes on running.
\<close>
theorem updateTaskStatus_cas:
  assumes "db_wf s" and "db_wf (other s)" and "updateTaskStatus other ts i st u s = (r, t)"
  shows "(case r of
      Inl e \<Rightarrow> t = s \<or> t = other s
    | Inr _ \<Rightarrow> \<exists>q \<in> set (tasks (other s)). t_id q = i
        \<and> (\<exists>q0 \<in> set (tasks s). t_id q0 = i \<and> t_status q0 = t_status q) \<and> task_step_ok (t_status q) st
        \<and> t = (other s)\<lparr>tasks := update_rows (\<lambda>r. t_id r = i) (\<lambda>r. r\<lparr>t_status := st, t_latest_update := u,
              t_claimed_by := (if st = TRunning then t_claimed_by r else None),
              t_claimed_at := (if st = TRunning then t_claimed_at r else None), t_updated_at := ts\<rparr>) (tasks (other s))\<rparr>)"
proof -
  from assms(2) have u: "unique_key t_id (tasks (other s))" by (rule db_wfD)
  show ?thesis
  proof (cases "find (\<lambda>r. t_id r = i) (tasks s)")
    case None
    with assms(3) show ?thesis by (auto simp: updateTaskStatus_def eff_simps)
  next
    case (Some q0)
    then have q0: "q0 \<in> set (tasks s)" "t_id q0 = i" by (auto dest: find_key_Some)
    have run: "updateTaskStatus other ts i st u s =
      (if task_step_ok (t_status q0) st then
         andThen (sql_update tasks tasks_update (\<lambda>r. t_id r = i \<and> t_status r = t_status q0) (\<lambda>r. r\<lparr>t_status := st,
           t_latest_update := u, t_claimed_by := (if st = TRunning then t_claimed_by r else None),
           t_claimed_at := (if st = TRunning then t_claimed_at r else None), t_updated_at := ts\<rparr>))
           (\<lambda>changes. require (changes = 1) (TaskChangedConcurrently i)) (other s)
       else (Inl (BadTransition (InvalidTaskTransition (t_status q0) st)), s))"
      using Some by (simp add: updateTaskStatus_def sql_get_def andThen_def ok_def fail_def orThrow_def update_def
          assertTaskTransition_cases)
    show ?thesis
    proof (cases "task_step_ok (t_status q0) st")
      case True
      then show ?thesis using assms(3) q0 unfolding run
        by (auto simp: andThen_def require_def task_tbl.cas_update [OF u] tasks_update_at dest!: find_key_Some split: if_splits option.splits) metis
    next
      case False
      with run assms(3) show ?thesis by auto
    qed
  qed
qed

theorem heartbeatTask_owner_witness:
  "fst (heartbeatTask ''9'' ''a'' '' w '' sample_db) = Inr ''9'' \<and> snd (heartbeatTask ''9'' ''a'' ''x'' sample_db) = sample_db"
proof -
  have t: "trim '' w '' = ''w''" "trim ''x'' = ''x''" by (simp_all add: trim_def js_space_def)
  have h: "\<exists>q \<in> set (tasks sample_db). t_id q = ''a'' \<and> t_status q = TRunning \<and> t_claimed_by q = Some ''w''"
    "\<forall>q \<in> set (tasks sample_db). t_claimed_by q \<noteq> Some ''x''"
    by (simp_all add: sample_db_def sample_task_def)
  obtain r s' where 1: "heartbeatTask ''9'' ''a'' '' w '' sample_db = (r, s')" by (cases "heartbeatTask ''9'' ''a'' '' w '' sample_db")
  obtain q s2 where 2: "heartbeatTask ''9'' ''a'' ''x'' sample_db = (q, s2)" by (cases "heartbeatTask ''9'' ''a'' ''x'' sample_db")
  have "r = Inr ''9''" using heartbeatTask_owner [OF sample_db_wf 1] h(1) unfolding t by (auto split: sum.splits)
  moreover have "s2 = sample_db" using heartbeatTask_owner [OF sample_db_wf 2] h(2) unfolding t by (auto split: sum.splits)
  ultimately show ?thesis by (simp add: 1 2)
qed

text \<open>Between the read and the write of the witness another process finishes the task.\<close>

definition sample_interference :: "db \<Rightarrow> db" where
  "sample_interference s = s\<lparr>tasks := update_rows (\<lambda>r. t_id r = ''a'')
     (\<lambda>r. r\<lparr>t_status := TDone, t_claimed_by := None, t_claimed_at := None\<rparr>) (tasks s)\<rparr>"

lemma sample_interference_wf: "db_wf (sample_interference sample_db)"
  by (simp add: sample_interference_def sample_defs wf_parts unique_key_def attempt_key_def has_task_def has_run_def
      task_claim_ok_def update_rows_def)

theorem updateTaskStatus_cas_witness:
  "\<exists>e. fst (updateTaskStatus sample_interference ''9'' ''a'' TBlocked ''u'' sample_db) = Inl e
    \<and> snd (updateTaskStatus sample_interference ''9'' ''a'' TBlocked ''u'' sample_db) \<in> {sample_db, sample_interference sample_db}"
proof -
  have h: "\<forall>q \<in> set (tasks (sample_interference sample_db)). t_id q = ''a'' \<longrightarrow> t_status q = TDone"
    "\<forall>q \<in> set (tasks sample_db). t_id q = ''a'' \<longrightarrow> t_status q = TRunning"
    by (simp_all add: sample_interference_def sample_db_def sample_task_def update_rows_def)
  obtain r t where 1: "updateTaskStatus sample_interference ''9'' ''a'' TBlocked ''u'' sample_db = (r, t)"
    by (cases "updateTaskStatus sample_interference ''9'' ''a'' TBlocked ''u'' sample_db")
  show ?thesis using updateTaskStatus_cas [where other = sample_interference, OF sample_db_wf sample_interference_wf 1] h
    by (cases r) (auto simp: 1)
qed

end
