(* ===== verification/DbRuns.thy ===== *)
theory DbRuns
  imports DbTasks
begin

text \<open>
  \<open>src/db.ts\<close>, runs, events and messages. Where an operation runs several statements outside a
  transaction, one argument per gap (\<open>other\<close>, \<open>other'\<close>) is what other processes commit in it.
\<close>

subsection \<open>Operations\<close>

text \<open>\<open>COALESCE(MAX(attempt), 0) + 1\<close> over the runs of a route step.\<close>

definition next_attempt :: "string \<Rightarrow> db \<Rightarrow> nat" where
  "next_attempt step s = fold max (map r_attempt (filter (\<lambda>r. r_route_step_id r = step) (runs s))) 0 + 1"

record create_run_input =
  ci_taskId :: string
  ci_routeStepId :: string
  ci_agent :: agent_kind
  ci_role :: route_role
  ci_worktreePath :: "string option"
  ci_branch :: "string option"
  ci_baseCommit :: "string option"

definition new_run_row :: "string \<Rightarrow> string \<Rightarrow> nat \<Rightarrow> create_run_input \<Rightarrow> run_row" where
  "new_run_row uid ts attempt input = \<lparr>r_id = ''run_'' @ uid, r_task_id = ci_taskId input,
     r_route_step_id = ci_routeStepId input, r_adapter_run_id = None, r_agent = ci_agent input,
     r_role = ci_role input, r_attempt = attempt, r_status = RQueued, r_pid = None,
     r_worktree_path = ci_worktreePath input, r_branch = ci_branch input,
     r_base_commit = ci_baseCommit input, r_stdout_path = None, r_stderr_path = None,
     r_result_path = None, r_exit_code = None, r_signal = None, r_summary = None, r_error = None,
     r_usage_json = None, r_started_at = None, r_finished_at = None, r_created_at = ts, r_updated_at = ts\<rparr>"

definition createRun :: "(db \<Rightarrow> db) \<Rightarrow> (db \<Rightarrow> db) \<Rightarrow> string \<Rightarrow> string \<Rightarrow> create_run_input \<Rightarrow> run_row dbop" where
  "createRun other other' uid ts input =
     andThen (query (next_attempt (ci_routeStepId input))) (\<lambda>attempt.
     andThen (update other) (\<lambda>_.
     andThen (insert_run (new_run_row uid ts attempt input)) (\<lambda>_.
     andThen (update other') (\<lambda>_.
     andThen (query (getRun (''run_'' @ uid))) (\<lambda>row.
     orThrow (RunDisappeared (''run_'' @ uid)) row)))))"

text \<open>A patch: an absent field keeps the current value, \<open>Some None\<close> writes NULL.\<close>

record run_patch =
  up_status :: "run_status option"
  up_adapterRunId :: "string option option"
  up_pid :: "int option option"
  up_worktreePath :: "string option option"
  up_branch :: "string option option"
  up_baseCommit :: "string option option"
  up_stdoutPath :: "string option option"
  up_stderrPath :: "string option option"
  up_resultPath :: "string option option"
  up_exitCode :: "int option option"
  up_signal :: "string option option"
  up_summary :: "string option option"
  up_error :: "string option option"
  up_usageJson :: "string option option"
  up_startedAt :: "string option option"
  up_finishedAt :: "string option option"

definition patched :: "'a \<Rightarrow> 'a option \<Rightarrow> 'a" where
  "patched current p = (case p of None \<Rightarrow> current | Some v \<Rightarrow> v)"

definition apply_patch :: "run_patch \<Rightarrow> string \<Rightarrow> run_row \<Rightarrow> run_row \<Rightarrow> run_row" where
  "apply_patch p ts current r = r\<lparr>
     r_adapter_run_id := patched (r_adapter_run_id current) (up_adapterRunId p),
     r_status := patched (r_status current) (up_status p),
     r_pid := patched (r_pid current) (up_pid p),
     r_worktree_path := patched (r_worktree_path current) (up_worktreePath p),
     r_branch := patched (r_branch current) (up_branch p),
     r_base_commit := patched (r_base_commit current) (up_baseCommit p),
     r_stdout_path := patched (r_stdout_path current) (up_stdoutPath p),
     r_stderr_path := patched (r_stderr_path current) (up_stderrPath p),
     r_result_path := patched (r_result_path current) (up_resultPath p),
     r_exit_code := patched (r_exit_code current) (up_exitCode p),
     r_signal := patched (r_signal current) (up_signal p),
     r_summary := patched (r_summary current) (up_summary p),
     r_error := patched (r_error current) (up_error p),
     r_usage_json := patched (r_usage_json current) (up_usageJson p),
     r_started_at := patched (r_started_at current) (up_startedAt p),
     r_finished_at := patched (r_finished_at current) (up_finishedAt p),
     r_updated_at := ts\<rparr>"

definition check_patch :: "run_row \<Rightarrow> run_patch \<Rightarrow> unit dbop" where
  "check_patch current patch = (case up_status patch of None \<Rightarrow> ok ()
     | Some st \<Rightarrow> (case assertRunTransition (r_status current) st of
         Inl e \<Rightarrow> fail (BadTransition e) | Inr _ \<Rightarrow> ok ()))"

definition updateRun :: "(db \<Rightarrow> db) \<Rightarrow> (db \<Rightarrow> db) \<Rightarrow> string \<Rightarrow> string \<Rightarrow> run_patch \<Rightarrow> run_row dbop" where
  "updateRun other other' ts runId patch =
     andThen (sql_get runs (\<lambda>r. r_id r = runId)) (\<lambda>currentRow.
     andThen (orThrow (RunNotFound runId) currentRow) (\<lambda>current.
     andThen (check_patch current patch) (\<lambda>_.
     andThen (update other) (\<lambda>_.
     andThen (sql_update runs runs_update (\<lambda>r. r_id r = runId \<and> r_status r = r_status current)
       (apply_patch patch ts current)) (\<lambda>changes.
     andThen (require (changes = 1) (RunChangedConcurrently runId)) (\<lambda>_.
     andThen (update other') (\<lambda>_.
     andThen (sql_get runs (\<lambda>r. r_id r = runId)) (\<lambda>updatedRow.
     orThrow (RunDisappeared runId) updatedRow))))))))"

definition appendEvent ::
  "(db \<Rightarrow> db) \<Rightarrow> string \<Rightarrow> string \<Rightarrow> string option \<Rightarrow> string \<Rightarrow> event_level option \<Rightarrow> string \<Rightarrow> json option \<Rightarrow> event_row dbop" where
  "appendEvent other ts taskId runId ty level message data =
     andThen (insert_event taskId runId ty (case level of None \<Rightarrow> LInfo | Some l \<Rightarrow> l) message data ts) (\<lambda>lastID.
     andThen (update other) (\<lambda>_.
     andThen (sql_get events (\<lambda>r. e_id r = lastID)) (\<lambda>row.
     orThrow EventDisappeared row)))"

definition addMessage ::
  "string \<Rightarrow> string \<Rightarrow> string \<Rightarrow> string option \<Rightarrow> msg_direction \<Rightarrow> string \<Rightarrow> string \<Rightarrow> delivery_status option \<Rightarrow> message_row dbop" where
  "addMessage uid ts taskId runId direction role body deliveryStatus =
     (let record = \<lparr>m_id = ''message_'' @ uid, m_task_id = taskId, m_run_id = runId, m_direction = direction,
        m_role = role, m_body = body,
        m_delivery_status = (case deliveryStatus of None \<Rightarrow> DQueued | Some d \<Rightarrow> d), m_created_at = ts\<rparr>
      in andThen (insert_message record) (\<lambda>_. ok record))"

definition updateMessageDelivery :: "string \<Rightarrow> delivery_status \<Rightarrow> unit dbop" where
  "updateMessageDelivery messageId deliveryStatus =
     andThen (sql_update messages messages_update (\<lambda>r. m_id r = messageId)
       (\<lambda>r. r\<lparr>m_delivery_status := deliveryStatus\<rparr>)) (\<lambda>changes.
     require (changes = 1) (MessageNotFound messageId))"

subsection \<open>The invariant and the moves\<close>

lemma apply_patch_fixed [simp]:
  "r_id (apply_patch p ts c r) = r_id r" "r_task_id (apply_patch p ts c r) = r_task_id r"
  "r_route_step_id (apply_patch p ts c r) = r_route_step_id r" "r_attempt (apply_patch p ts c r) = r_attempt r"
  "run_fixed (apply_patch p ts c r) = run_fixed r" "r_agent (apply_patch p ts c r) = r_agent r"
  "r_status (apply_patch p ts c r) = patched (r_status c) (up_status p)"
  by (simp_all add: apply_patch_def run_fixed_def)

lemma db_wf_check_patch [preserves_rules]: "preserves I (check_patch c p)"
  unfolding check_patch_def by (intro preserves_rules)

lemma db_wf_createRun [preserves_rules]:
  "(\<And>s. db_wf s \<Longrightarrow> db_wf (other s)) \<Longrightarrow> (\<And>s. db_wf s \<Longrightarrow> db_wf (other' s)) \<Longrightarrow>
   preserves db_wf (createRun other other' uid ts input)"
  unfolding createRun_def by (intro preserves_rules) auto

lemma db_wf_updateRun [preserves_rules]:
  "(\<And>s. db_wf s \<Longrightarrow> db_wf (other s)) \<Longrightarrow> (\<And>s. db_wf s \<Longrightarrow> db_wf (other' s)) \<Longrightarrow>
   preserves db_wf (updateRun other other' ts runId patch)"
  unfolding updateRun_def by (intro preserves_rules) auto

lemma db_wf_appendEvent [preserves_rules]:
  "(\<And>s. db_wf s \<Longrightarrow> db_wf (other s)) \<Longrightarrow> preserves db_wf (appendEvent other ts i r ty l m d)"
  unfolding appendEvent_def by (intro preserves_rules) auto

lemma db_wf_messages [preserves_rules]:
  "preserves db_wf (addMessage uid ts i r d role body ds)" "preserves db_wf (updateMessageDelivery m ds')"
  unfolding addMessage_def updateMessageDelivery_def Let_def by (intro preserves_rules; simp)+

context db_moves begin

lemma keeps_createRun:
  "(\<And>s. db_evolves M N s (other s)) \<Longrightarrow> (\<And>s. db_evolves M N s (other' s)) \<Longrightarrow>
   keeps (db_evolves M N) (createRun other other' uid ts input)"
  unfolding createRun_def by (intro keeps_statements)

lemma keeps_appendEvent:
  "(\<And>s. db_evolves M N s (other s)) \<Longrightarrow> keeps (db_evolves M N) (appendEvent other ts i r ty l m d)"
  unfolding appendEvent_def by (intro keeps_statements)

lemma keeps_messages:
  "keeps (db_evolves M N) (addMessage uid ts i r d role body ds)"
  "keeps (db_evolves M N) (updateMessageDelivery m ds')"
  unfolding addMessage_def updateMessageDelivery_def Let_def
  by (intro keeps_statements; simp add: message_fixed_def)+

lemma keeps_updateRun:
  assumes "\<And>s. db_evolves M N s (other s)" and "\<And>s. db_evolves M N s (other' s)"
    and "\<And>a st. up_status patch = Some st \<Longrightarrow> run_step_ok a st \<Longrightarrow> a \<noteq> st \<Longrightarrow> (a, st) \<in> N"
  shows "keeps (db_evolves M N) (updateRun other other' ts runId patch)"
proof -
  have step: "keeps (db_evolves M N) (andThen (check_patch c patch) (\<lambda>_. andThen (update other) (\<lambda>_.
      andThen (sql_update runs runs_update (\<lambda>r. r_id r = runId \<and> r_status r = r_status c) (apply_patch patch ts c)) (\<lambda>changes.
      andThen (require (changes = 1) (RunChangedConcurrently runId)) (\<lambda>_.
      andThen (update other') (\<lambda>_. andThen (sql_get runs (\<lambda>r. r_id r = runId)) (\<lambda>updatedRow.
      orThrow (RunDisappeared runId) updatedRow)))))))" for c
  proof (cases "case up_status patch of None \<Rightarrow> True | Some st \<Rightarrow> run_step_ok (r_status c) st")
    case True
    then have "patched (r_status c) (up_status patch) = r_status c \<or> (r_status c, patched (r_status c) (up_status patch)) \<in> N"
      using assms(3) by (auto simp: patched_def split: option.splits)
    moreover have "keeps (db_evolves M N) (check_patch c patch)"
      unfolding check_patch_def by (intro keeps_statements)
    ultimately show ?thesis by (intro keeps_statements assms(1,2)) auto
  next
    case False
    then have "check_patch c patch s = (Inl (BadTransition (InvalidRunTransition (r_status c) (the (up_status patch)))), s)" for s
      by (auto simp: check_patch_def assertRunTransition_def run_step_ok_def fail_def split: option.splits if_splits)
    then show ?thesis by (simp add: keeps_def andThen_def db_evolves_refl)
  qed
  show ?thesis unfolding updateRun_def by (intro keeps_statements step)
qed

end

subsection \<open>Attempts\<close>

lemma fold_max_bound: "x \<in> set xs \<or> x = a \<Longrightarrow> x \<le> fold max xs (a :: nat)"
proof (induction xs arbitrary: a x)
  case (Cons y xs)
  have "max y a \<le> fold max xs (max y a)" by (rule Cons.IH) simp
  with Cons.IH [of x "max y a"] Cons.prems show ?case by auto
qed simp

lemma next_attempt_fresh: "q \<in> set (runs s) \<Longrightarrow> r_route_step_id q = step \<Longrightarrow> r_attempt q < next_attempt step s"
  by (auto simp: next_attempt_def less_Suc_eq_le intro!: fold_max_bound)

lemma getRun_new:
  assumes "r_id r \<notin> r_id ` set (runs s)"
  shows "getRun (r_id r) (s\<lparr>runs := runs s @ [r]\<rparr>) = Some r"
proof -
  have "find (\<lambda>q. r_id q = r_id r) (runs s) = None" using assms by (simp add: find_key_None)
  then show ?thesis by (simp add: getRun_def find_snoc)
qed

lemma runs_append: "runs_update (\<lambda>rows. rows @ [r]) s = s\<lparr>runs := runs s @ [r]\<rparr>"
  by (cases s) simp

text \<open>
  Attempts of a route step are numbered one after the other: a run is created queued with an attempt
  above every run of its step it saw. If another process took that number in between, the insert fails
  and leaves that process's state alone: no two runs of a step ever share an attempt.
\<close>
theorem createRun_attempts:
  assumes "createRun other id uid ts input s = (r, t)"
  shows "(case r of
      Inl _ \<Rightarrow> t = other s
    | Inr row \<Rightarrow> row = new_run_row uid ts (next_attempt (ci_routeStepId input) s) input
        \<and> t = (other s)\<lparr>runs := runs (other s) @ [row]\<rparr> \<and> r_status row = RQueued
        \<and> list_all (\<lambda>q. r_route_step_id q \<noteq> ci_routeStepId input \<or> r_attempt q < r_attempt row) (runs s)
        \<and> list_all (\<lambda>q. r_route_step_id q \<noteq> ci_routeStepId input \<or> r_attempt q \<noteq> r_attempt row) (runs (other s)))"
proof (cases "run_constraints (new_run_row uid ts (next_attempt (ci_routeStepId input) s) input) (other s)")
  case True
  let ?row = "new_run_row uid ts (next_attempt (ci_routeStepId input) s) input"
  have f: "r_id ?row = ''run_'' @ uid" "r_route_step_id ?row = ci_routeStepId input"
    "r_attempt ?row = next_attempt (ci_routeStepId input) s" "r_status ?row = RQueued"
    by (simp_all add: new_run_row_def)
  have "getRun (r_id ?row) ((other s)\<lparr>runs := runs (other s) @ [?row]\<rparr>) = Some ?row"
    using True by (intro getRun_new) (simp add: run_constraints_def)
  with True assms have "r = Inr ?row" "t = (other s)\<lparr>runs := runs (other s) @ [?row]\<rparr>"
    unfolding f by (auto simp: createRun_def eff_simps insert_defs runs_append)
  moreover have "list_all (\<lambda>q. r_route_step_id q \<noteq> ci_routeStepId input \<or> r_attempt q < r_attempt ?row) (runs s)"
    using next_attempt_fresh by (fastforce simp: list_all_iff f)
  moreover have "list_all (\<lambda>q. r_route_step_id q \<noteq> ci_routeStepId input \<or> r_attempt q \<noteq> r_attempt ?row) (runs (other s))"
    using True by (force simp: list_all_iff run_constraints_def f)
  ultimately show ?thesis using f by simp
next
  case False
  with assms show ?thesis by (auto simp: createRun_def eff_simps insert_defs)
qed

definition sample_run_input :: create_run_input where
  "sample_run_input = \<lparr>ci_taskId = ''a'', ci_routeStepId = ''sa'', ci_agent = Codex, ci_role = Execute,
     ci_worktreePath = None, ci_branch = None, ci_baseCommit = None\<rparr>"

theorem createRun_attempts_witness:
  "\<exists>row. fst (createRun id id ''u'' ''9'' sample_run_input sample_db) = Inr row \<and> r_attempt row = 2"
proof -
  have "fst (createRun id id ''u'' ''9'' sample_run_input sample_db) = Inr (new_run_row ''u'' ''9'' 2 sample_run_input)"
    by (simp add: createRun_def eff_simps insert_defs run_constraints_def sample_defs sample_run_input_def
        new_run_row_def has_task_def getRun_def next_attempt_def)
  then obtain row t where r: "createRun id id ''u'' ''9'' sample_run_input sample_db = (Inr row, t)"
    by (metis prod.collapse)
  from createRun_attempts [OF r] have "r_attempt row = 2"
    by (simp add: new_run_row_def next_attempt_def sample_defs sample_run_input_def)
  with r show ?thesis by simp
qed

subsection \<open>The run's compare-and-swap\<close>

text \<open>
  A run update is a compare-and-swap on the run's status: it throws and leaves what other processes
  committed as it is, or the run still had the status it was read with, the run transition table allows
  the patched status from it, and exactly that run's row is rewritten and returned.
\<close>
theorem updateRun_cas:
  assumes "db_wf (other s)" and "updateRun other id ts i patch s = (r, t)"
  shows "(case r of
      Inl e \<Rightarrow> t = s \<or> t = other s
    | Inr row \<Rightarrow> \<exists>q0 q. find (\<lambda>r. r_id r = i) (runs s) = Some q0 \<and> find (\<lambda>r. r_id r = i) (runs (other s)) = Some q
        \<and> r_status q = r_status q0 \<and> run_step_ok (r_status q) (r_status row)
        \<and> row = apply_patch patch ts q0 q
        \<and> t = (other s)\<lparr>runs := update_rows (\<lambda>r. r_id r = i) (apply_patch patch ts q0) (runs (other s))\<rparr>)"
proof (cases "find (\<lambda>r. r_id r = i) (runs s)")
  case None
  with assms(2) show ?thesis by (auto simp: updateRun_def eff_simps)
next
  case (Some q0)
  from assms(1) have u: "unique_key r_id (runs (other s))" by (rule db_wfD)
  show ?thesis
  proof (cases "case up_status patch of None \<Rightarrow> True | Some st \<Rightarrow> run_step_ok (r_status q0) st")
    case False
    then have "check_patch q0 patch s = (Inl (BadTransition (InvalidRunTransition (r_status q0) (the (up_status patch)))), s)"
      by (auto simp: check_patch_def assertRunTransition_def run_step_ok_def fail_def split: option.splits if_splits)
    with Some assms(2) show ?thesis by (auto simp: updateRun_def sql_get_def andThen_def orThrow_def)
  next
    case True
    then have ok: "check_patch q0 patch s = (Inr (), s)" "run_step_ok (r_status q0) (patched (r_status q0) (up_status patch))"
      by (auto simp: check_patch_def patched_def run_step_ok_iff assertRunTransition_def ok_def split: option.splits if_splits)
    have upd: "runs_update (update_rows P f) s = s\<lparr>runs := update_rows P f (runs s)\<rparr>" for P f and s :: db
      by (cases s) simp
    have get: "find (\<lambda>r. r_id r = i) (update_rows (\<lambda>r. r_id r = i) (apply_patch patch ts q0) (runs (other s)))
        = map_option (apply_patch patch ts q0) (find (\<lambda>r. r_id r = i) (runs (other s)))"
      by (subst find_update_rows) (auto dest: find_key_Some split: option.splits simp: map_option_case)
    from assms(2) Some ok(1) have "andThen (sql_update runs runs_update (\<lambda>r. r_id r = i \<and> r_status r = r_status q0) (apply_patch patch ts q0))
        (\<lambda>changes. andThen (require (changes = 1) (RunChangedConcurrently i)) (\<lambda>_.
         andThen (update id) (\<lambda>_. andThen (sql_get runs (\<lambda>r. r_id r = i)) (orThrow (RunDisappeared i))))) (other s) = (r, t)"
      by (simp add: updateRun_def sql_get_def andThen_def orThrow_def update_def)
    then show ?thesis using Some ok(2)
      by (auto simp: andThen_def require_def update_def sql_get_def orThrow_def run_tbl.cas_update [OF u] upd get
          split: if_splits option.splits)
  qed
qed

definition no_patch :: run_patch where
  "no_patch = \<lparr>up_status = None, up_adapterRunId = None, up_pid = None, up_worktreePath = None, up_branch = None,
     up_baseCommit = None, up_stdoutPath = None, up_stderrPath = None, up_resultPath = None, up_exitCode = None,
     up_signal = None, up_summary = None, up_error = None, up_usageJson = None, up_startedAt = None, up_finishedAt = None\<rparr>"

theorem updateRun_cas_witness:
  "\<exists>row t. updateRun id id ''9'' ''ra'' (no_patch\<lparr>up_status := Some RSucceeded, up_exitCode := Some (Some 0)\<rparr>) sample_db = (Inr row, t)
     \<and> r_status row = RSucceeded \<and> run_step_ok RRunning (r_status row)"
proof -
  let ?p = "no_patch\<lparr>up_status := Some RSucceeded, up_exitCode := Some (Some 0)\<rparr>"
  have "fst (updateRun id id ''9'' ''ra'' ?p sample_db) = Inr (apply_patch ?p ''9'' (sample_run ''ra'' ''a'' ''sa'' Codex RRunning)
      (sample_run ''ra'' ''a'' ''sa'' Codex RRunning))"
    by (simp add: updateRun_def eff_simps sample_db_def sample_run_def check_patch_def assertRunTransition_def no_patch_def
        update_rows_def)
  then obtain row t where r: "updateRun id id ''9'' ''ra'' ?p sample_db = (Inr row, t)" by (metis prod.collapse)
  have wf: "db_wf (id sample_db)" using sample_db_wf by simp
  from updateRun_cas [OF wf r] have "run_step_ok RRunning (r_status row)" "r_status row = RSucceeded"
    by (auto simp: sample_db_def sample_run_def no_patch_def patched_def)
  with r show ?thesis by blast
qed

end
