(* ===== verification/DbEvidence.thy ===== *)
theory DbEvidence
  imports DbRuns
begin

text \<open>
  \<open>src/db.ts\<close>, artifact evidence: \<open>addArtifact\<close>, whose insert is \<open>ON CONFLICT(run_id, path) DO NOTHING\<close>
  and which then insists that the row under that run and path is the evidence it was given.
\<close>

subsection \<open>Operation\<close>

record artifact_input =
  ai_taskId :: string
  ai_runId :: string
  ai_kind :: artifact_kind
  ai_path :: string
  ai_relativePath :: string
  ai_sha256 :: string
  ai_sizeBytes :: int
  ai_metadata :: "json option"
  ai_createdAt :: string

definition hex_lower :: "char \<Rightarrow> bool" where
  "hex_lower c \<longleftrightarrow> (let n = (of_char c :: nat) in 48 \<le> n \<and> n \<le> 57 \<or> 97 \<le> n \<and> n \<le> 102)"

definition is_sha256 :: "string \<Rightarrow> bool" where
  "is_sha256 s \<longleftrightarrow> length s = 64 \<and> list_all hex_lower s"

definition is_json_object :: "json \<Rightarrow> bool" where
  "is_json_object v = (case v of JObj _ \<Rightarrow> True | _ \<Rightarrow> False)"

definition insert_artifact_once :: "artifact_row \<Rightarrow> unit dbop" where
  "insert_artifact_once r s = (if evidence_key r \<in> evidence_key ` set (artifacts s) then (Inr (), s)
     else insert_artifact r s)"

definition new_artifact_row :: "string \<Rightarrow> artifact_input \<Rightarrow> artifact_row" where
  "new_artifact_row uid input = \<lparr>a_id = ''artifact_'' @ uid, a_task_id = ai_taskId input,
     a_run_id = Some (ai_runId input), a_kind = ai_kind input, a_path = ai_path input,
     a_relative_path = Some (ai_relativePath input), a_sha256 = ai_sha256 input,
     a_size_bytes = ai_sizeBytes input, a_metadata = ai_metadata input, a_created_at = ai_createdAt input\<rparr>"

text \<open>A NULL column and a stored \<open>null\<close> are both read back as \<open>null\<close>.\<close>

definition read_metadata :: "json option \<Rightarrow> json option" where
  "read_metadata m = (if m = Some JNull then None else m)"

definition same_evidence :: "artifact_input \<Rightarrow> artifact_row \<Rightarrow> bool" where
  "same_evidence input p \<longleftrightarrow> a_task_id p = ai_taskId input \<and> a_run_id p = Some (ai_runId input)
     \<and> a_kind p = ai_kind input \<and> a_path p = ai_path input
     \<and> a_relative_path p = Some (ai_relativePath input) \<and> a_sha256 p = ai_sha256 input
     \<and> a_size_bytes p = ai_sizeBytes input \<and> isDeepStrictEqual (read_metadata (a_metadata p)) (read_metadata (ai_metadata input))"

definition addArtifact :: "(db \<Rightarrow> db) \<Rightarrow> string \<Rightarrow> artifact_input \<Rightarrow> artifact_row dbop" where
  "addArtifact other uid input =
     andThen (require (is_sha256 (ai_sha256 input)) BadSha256) (\<lambda>_.
     andThen (require (is_safe_int (ai_sizeBytes input) \<and> 0 \<le> ai_sizeBytes input) BadArtifactSize) (\<lambda>_.
     andThen (require (case ai_metadata input of None \<Rightarrow> True | Some JNull \<Rightarrow> True
       | Some v \<Rightarrow> is_json_object v) MetadataNotObject) (\<lambda>_.
     andThen (insert_artifact_once (new_artifact_row uid input)) (\<lambda>_.
     andThen (update other) (\<lambda>_.
     andThen (sql_get artifacts (\<lambda>r. a_run_id r = Some (ai_runId input) \<and> a_path r = ai_path input)) (\<lambda>row.
     andThen (orThrow ArtifactDisappeared row) (\<lambda>persisted.
     andThen (require (same_evidence input persisted) (ArtifactConflict (ai_path input))) (\<lambda>_.
     ok persisted))))))))"

subsection \<open>The invariant and the moves\<close>

lemma db_wf_insert_artifact_once [preserves_rules]: "preserves db_wf (insert_artifact_once r)"
  unfolding preserves_def
  by (auto simp: insert_artifact_once_def insert_defs artifact_constraints_def wf_parts)

lemma db_wf_addArtifact [preserves_rules]:
  "(\<And>s. db_wf s \<Longrightarrow> db_wf (other s)) \<Longrightarrow> preserves db_wf (addArtifact other uid input)"
  unfolding addArtifact_def by (intro preserves_rules) auto

context db_moves begin

lemma keeps_insert_artifact_once: "keeps (db_evolves M N) (insert_artifact_once r)"
  using keeps_inserts(4) [of r] by (auto simp: keeps_def insert_artifact_once_def db_evolves_refl)

lemma keeps_addArtifact:
  "(\<And>s. db_evolves M N s (other s)) \<Longrightarrow> keeps (db_evolves M N) (addArtifact other uid input)"
  unfolding addArtifact_def by (intro keeps_statements keeps_insert_artifact_once)

end

subsection \<open>Evidence is immutable\<close>

lemma same_evidence_new: "same_evidence input (new_artifact_row uid input)"
  by (simp add: same_evidence_def new_artifact_row_def isDeepStrictEqual_def)

lemma find_evidence: "find (\<lambda>r. a_run_id r = i \<and> a_path r = p) rows = find (\<lambda>r. evidence_key r = (i, p)) rows"
  by (simp add: evidence_key_def)

definition valid_evidence :: "artifact_input \<Rightarrow> bool" where
  "valid_evidence input \<longleftrightarrow> is_sha256 (ai_sha256 input) \<and> is_safe_int (ai_sizeBytes input) \<and> 0 \<le> ai_sizeBytes input
     \<and> (case ai_metadata input of None \<Rightarrow> True | Some JNull \<Rightarrow> True | Some v \<Rightarrow> is_json_object v)"

lemma addArtifact_known:
  assumes "db_wf s" and "p \<in> set (artifacts s)" and "evidence_key p = (Some (ai_runId input), ai_path input)"
    and "valid_evidence input"
  shows "addArtifact id uid input s =
    (if same_evidence input p then (Inr p, s) else (Inl (ArtifactConflict (ai_path input)), s))"
proof -
  have k: "evidence_key (new_artifact_row uid input) = evidence_key p"
    using assms(3) by (simp add: evidence_key_def new_artifact_row_def)
  then have "evidence_key (new_artifact_row uid input) \<in> evidence_key ` set (artifacts s)" using assms(2) by auto
  moreover have "find (\<lambda>r. evidence_key r = (Some (ai_runId input), ai_path input)) (artifacts s) = Some p"
    using find_key_unique [OF db_wfD(9) [OF assms(1)] assms(2)] assms(3) by simp
  ultimately show ?thesis using assms(4)
    by (simp add: addArtifact_def andThen_def require_def insert_artifact_once_def update_def sql_get_def find_evidence
        orThrow_def ok_def valid_evidence_def)
qed

lemma addArtifact_unknown:
  assumes "(Some (ai_runId input), ai_path input) \<notin> evidence_key ` set (artifacts s)" and "valid_evidence input"
  shows "addArtifact id uid input s =
    (if artifact_constraints (new_artifact_row uid input) s
     then (Inr (new_artifact_row uid input), s\<lparr>artifacts := artifacts s @ [new_artifact_row uid input]\<rparr>)
     else (Inl (SqliteConstraint ''artifacts''), s))"
proof -
  have k: "evidence_key (new_artifact_row uid input) = (Some (ai_runId input), ai_path input)"
    by (simp add: evidence_key_def new_artifact_row_def)
  have "find (\<lambda>r. evidence_key r = (Some (ai_runId input), ai_path input)) (artifacts s) = None"
    using assms(1) by (simp add: find_key_None)
  moreover have "artifacts_update (\<lambda>rows. rows @ [r]) s = s\<lparr>artifacts := artifacts s @ [r]\<rparr>" for r
    by (cases s) simp
  ultimately show ?thesis using assms k
    by (simp add: addArtifact_def andThen_def require_def insert_artifact_once_def insert_defs update_def sql_get_def
        find_evidence find_snoc same_evidence_new orThrow_def ok_def valid_evidence_def)
qed

lemma addArtifact_invalid: "\<not> valid_evidence input \<Longrightarrow> \<exists>e. addArtifact id uid input s = (Inl e, s)"
  by (auto simp: addArtifact_def andThen_def require_def valid_evidence_def)

text \<open>
  Evidence is written once: what \<open>addArtifact\<close> returns is the row stored under that run and path and
  carries the evidence given. A path that was free gets exactly that row; a path that was taken leaves
  the database as it is, and so does every failure.
\<close>
theorem addArtifact_once:
  assumes "db_wf s" and "addArtifact id uid input s = (r, t)"
  shows "(case r of
      Inl _ \<Rightarrow> t = s
    | Inr p \<Rightarrow> p \<in> set (artifacts t) \<and> same_evidence input p \<and>
        t = (if (Some (ai_runId input), ai_path input) \<in> evidence_key ` set (artifacts s) then s
             else s\<lparr>artifacts := artifacts s @ [p]\<rparr>))"
proof (cases "valid_evidence input")
  case False
  with addArtifact_invalid [of input uid s] assms(2) show ?thesis by auto
next
  case True
  show ?thesis
  proof (cases "(Some (ai_runId input), ai_path input) \<in> evidence_key ` set (artifacts s)")
    case known: True
    then obtain p where "p \<in> set (artifacts s)" "evidence_key p = (Some (ai_runId input), ai_path input)" by force
    with addArtifact_known [OF assms(1) this True, of uid] assms(2) known show ?thesis by (auto split: if_splits)
  next
    case False
    with addArtifact_unknown [OF False True, of uid] assms(2) show ?thesis
      by (auto simp: same_evidence_new split: if_splits)
  qed
qed

text \<open>
  Accepted evidence stays: however the database evolves afterwards, adding the same evidence again
  returns the first row and changes nothing, and adding evidence that differs in task, kind, relative path,
  digest, size or metadata (the order of keys aside) for that run and path is refused as a conflict and changes nothing.
\<close>
theorem addArtifact_immutable:
  assumes "db_wf s" and "addArtifact id uid input s = (Inr p, t)" and "db_evolves M N t u" and "db_wf u"
    and "ai_runId input' = ai_runId input" and "ai_path input' = ai_path input" and "valid_evidence input'"
  shows "addArtifact id uid' input' u =
    (if ai_taskId input' = ai_taskId input \<and> ai_kind input' = ai_kind input \<and> ai_relativePath input' = ai_relativePath input
        \<and> ai_sha256 input' = ai_sha256 input \<and> ai_sizeBytes input' = ai_sizeBytes input
        \<and> isDeepStrictEqual (read_metadata (ai_metadata input')) (read_metadata (ai_metadata input))
     then (Inr p, u) else (Inl (ArtifactConflict (ai_path input)), u))"
proof -
  have "valid_evidence input" using addArtifact_invalid [of input uid s] assms(2) by fastforce
  then have p: "p \<in> set (artifacts t) \<and> same_evidence input p"
  proof (cases "(Some (ai_runId input), ai_path input) \<in> evidence_key ` set (artifacts s)")
    case True
    then obtain q where "q \<in> set (artifacts s)" "evidence_key q = (Some (ai_runId input), ai_path input)" by force
    with addArtifact_known [OF assms(1) this \<open>valid_evidence input\<close>, of uid] assms(2) show ?thesis by (auto split: if_splits)
  next
    case False
    with addArtifact_unknown [OF False \<open>valid_evidence input\<close>, of uid] assms(2) show ?thesis
      by (auto simp: same_evidence_new split: if_splits)
  qed
  with assms(3) have "p \<in> set (artifacts u)" by (auto simp: db_evolves_def prefix_def)
  moreover have "evidence_key p = (Some (ai_runId input'), ai_path input')"
    using p assms(5,6) by (simp add: same_evidence_def evidence_key_def)
  moreover have "same_evidence input' p \<longleftrightarrow> ai_taskId input' = ai_taskId input \<and> ai_kind input' = ai_kind input
      \<and> ai_relativePath input' = ai_relativePath input \<and> ai_sha256 input' = ai_sha256 input
      \<and> ai_sizeBytes input' = ai_sizeBytes input
      \<and> isDeepStrictEqual (read_metadata (ai_metadata input')) (read_metadata (ai_metadata input))"
    using p assms(5,6) by (auto simp: same_evidence_def isDeepStrictEqual_def)
  ultimately show ?thesis using addArtifact_known [OF assms(4) _ _ assms(7)] assms(6) by simp
qed

definition sample_artifact :: artifact_input where
  "sample_artifact = \<lparr>ai_taskId = ''a'', ai_runId = ''ra'', ai_kind = KDiff, ai_path = ''/acc/d'', ai_relativePath = ''d'',
     ai_sha256 = replicate 64 (CHR ''0''), ai_sizeBytes = 3,
     ai_metadata = Some (JObj [(''x'', JNum 1), (''b'', JNull)]), ai_createdAt = ''9''\<rparr>"

lemma sample_artifact_valid: "valid_evidence sample_artifact"
  by (simp add: valid_evidence_def sample_artifact_def is_sha256_def hex_lower_def is_safe_int_def max_safe_int_def
      is_json_object_def list_all_iff)

lemma sample_artifact_added:
  "addArtifact id ''u'' sample_artifact sample_db = (Inr (new_artifact_row ''u'' sample_artifact),
     sample_db\<lparr>artifacts := [new_artifact_row ''u'' sample_artifact]\<rparr>)"
  using addArtifact_unknown [of sample_artifact sample_db "''u''", OF _ sample_artifact_valid]
  by (simp add: sample_defs artifact_constraints_def has_task_def has_run_def new_artifact_row_def sample_artifact_def)

theorem addArtifact_once_witness:
  "\<exists>p t. addArtifact id ''u'' sample_artifact sample_db = (Inr p, t) \<and> p \<in> set (artifacts t)"
proof -
  have "new_artifact_row ''u'' sample_artifact \<in> set (artifacts (sample_db\<lparr>artifacts := [new_artifact_row ''u'' sample_artifact]\<rparr>))"
    using addArtifact_once [OF sample_db_wf sample_artifact_added] unfolding sum.case by (rule conjunct1)
  with sample_artifact_added show ?thesis by blast
qed

theorem addArtifact_immutable_witness:
  "fst (addArtifact id ''w'' (sample_artifact\<lparr>ai_metadata := Some (JObj [(''b'', JNull), (''x'', JNum 1)])\<rparr>)
      (snd (addArtifact id ''u'' sample_artifact sample_db))) = Inr (new_artifact_row ''u'' sample_artifact)
   \<and> fst (addArtifact id ''w'' (sample_artifact\<lparr>ai_sizeBytes := 4\<rparr>) (snd (addArtifact id ''u'' sample_artifact sample_db)))
      = Inl (ArtifactConflict ''/acc/d'')"
proof -
  let ?t = "snd (addArtifact id ''u'' sample_artifact sample_db)"
  have wf: "db_wf ?t" using preservesD [OF db_wf_addArtifact sample_db_wf] by (metis id_apply prod.collapse)
  have run: "addArtifact id ''u'' sample_artifact sample_db = (Inr (new_artifact_row ''u'' sample_artifact), ?t)"
    by (simp add: sample_artifact_added)
  have k: "ai_runId (sample_artifact\<lparr>ai_metadata := m, ai_sizeBytes := n\<rparr>) = ai_runId sample_artifact"
    "ai_path (sample_artifact\<lparr>ai_metadata := m, ai_sizeBytes := n\<rparr>) = ai_path sample_artifact" for m n
    by simp_all
  have v: "valid_evidence (sample_artifact\<lparr>ai_sizeBytes := 4\<rparr>)"
    "valid_evidence (sample_artifact\<lparr>ai_metadata := Some (JObj [(''b'', JNull), (''x'', JNum 1)])\<rparr>)"
    using sample_artifact_valid by (simp_all add: valid_evidence_def sample_artifact_def is_safe_int_def max_safe_int_def is_json_object_def)
  note imm = addArtifact_immutable [OF sample_db_wf run no_move.db_evolves_refl wf]
  show ?thesis using imm [OF _ _ v(1), of "''w''"] imm [OF _ _ v(2), of "''w''"]
    by (simp add: sample_artifact_def isDeepStrictEqual_def read_metadata_def)
qed

end
