(* ===== verification/DbReviews.thy ===== *)
theory DbReviews
  imports DbEvidence
begin

text \<open>
  \<open>src/db.ts\<close>, reviews and the transactions that end, approve, rework or retry a task. Each
  transaction is \<open>atomically\<close>: an exception inside it rolls every statement back.
\<close>

subsection \<open>Operations\<close>

text \<open>\<open>note?.trim() || null\<close>\<close>

definition clean_note :: "string option \<Rightarrow> string option" where
  "clean_note note = truthy (map_option trim note)"

definition new_review_row :: "string \<Rightarrow> string \<Rightarrow> string \<Rightarrow> string option \<Rightarrow> string option \<Rightarrow> review_row" where
  "new_review_row uid ts taskId runId reviewer = \<lparr>v_id = ''review_'' @ uid, v_task_id = taskId, v_run_id = runId,
     v_reviewer = reviewer, v_status = RevPending, v_note = None, v_created_at = ts, v_updated_at = ts\<rparr>"

definition createReview :: "string \<Rightarrow> string \<Rightarrow> string \<Rightarrow> string option \<Rightarrow> string option \<Rightarrow> review_row dbop" where
  "createReview uid ts taskId runId reviewer =
     (let record = new_review_row uid ts taskId runId reviewer
      in andThen (insert_review record) (\<lambda>_. ok record))"

definition decideReview ::
  "(db \<Rightarrow> db) \<Rightarrow> string \<Rightarrow> string \<Rightarrow> review_status \<Rightarrow> string option \<Rightarrow> review_row dbop" where
  "decideReview other ts reviewId status note =
     andThen (sql_update reviews reviews_update (\<lambda>r. v_id r = reviewId \<and> v_status r = RevPending)
       (\<lambda>r. r\<lparr>v_status := status, v_note := clean_note note, v_updated_at := ts\<rparr>)) (\<lambda>changes.
     andThen (require (changes = 1) (ReviewDecided reviewId)) (\<lambda>_.
     andThen (update other) (\<lambda>_.
     andThen (query (getReview reviewId)) (\<lambda>row.
     orThrow (ReviewDisappeared reviewId) row))))"

definition finalizeTaskExecution ::
  "string \<Rightarrow> string \<Rightarrow> string \<Rightarrow> task_status \<Rightarrow> string \<Rightarrow> string option \<Rightarrow> review_row option dbop" where
  "finalizeTaskExecution uid ts taskId status latestUpdate runId = atomically (
     andThen (sql_get tasks (\<lambda>r. t_id r = taskId)) (\<lambda>task.
     andThen (orThrow (TaskNotFound taskId) task) (\<lambda>task.
     andThen (require (t_status task = TRunning) (CannotFinalize taskId (t_status task))) (\<lambda>_.
     andThen (if status = TNeedsReview
              then (let review = new_review_row uid ts taskId runId None
                    in andThen (insert_review review) (\<lambda>_. ok (Some review)))
              else ok None) (\<lambda>review.
     andThen (sql_update tasks tasks_update (\<lambda>r. t_id r = taskId \<and> t_status r = TRunning)
       (\<lambda>r. r\<lparr>t_status := status, t_latest_update := latestUpdate, t_claimed_by := None,
              t_claimed_at := None, t_updated_at := ts\<rparr>)) (\<lambda>changes.
     andThen (require (changes = 1) (TaskChangedConcurrently taskId)) (\<lambda>_.
     ok review)))))))"

text \<open>
  The first half \<open>approveTaskReview\<close> and \<open>requestTaskRework\<close> share: the task must wait for review, the
  review is the expected one or the latest pending one, and it must still be pending, at the expected
  revision. \<open>expected\<close> is the review id and its \<open>updatedAt\<close>.
\<close>

definition latest_pending_review :: "string \<Rightarrow> db \<Rightarrow> review_row option" where
  "latest_pending_review taskId s =
     (case rev (order_by v_created_at (filter (\<lambda>r. v_task_id r = taskId \<and> v_status r = RevPending) (reviews s))) of
        [] \<Rightarrow> None | r # _ \<Rightarrow> Some r)"

definition select_review :: "string \<Rightarrow> (string \<times> string) option \<Rightarrow> review_row dbop" where
  "select_review taskId expected =
     andThen (sql_get tasks (\<lambda>r. t_id r = taskId)) (\<lambda>task.
     andThen (orThrow (TaskNotFound taskId) task) (\<lambda>task.
     andThen (require (t_status task = TNeedsReview) (NotWaitingForReview taskId)) (\<lambda>_.
     andThen (case expected of
         Some (reviewId, _) \<Rightarrow> sql_get reviews (\<lambda>r. v_id r = reviewId \<and> v_task_id r = taskId)
       | None \<Rightarrow> query (latest_pending_review taskId)) (\<lambda>review.
     andThen (orThrow (NoPendingReview taskId) review) (\<lambda>review.
     andThen (require (v_status review = RevPending \<and>
         (case expected of None \<Rightarrow> True | Some (_, updatedAt) \<Rightarrow> v_updated_at review = updatedAt))
       (ReviewChangedConcurrently (v_id review))) (\<lambda>_.
     ok review))))))"

definition decide_pending ::
  "string \<Rightarrow> string \<Rightarrow> (string \<times> string) option \<Rightarrow> review_status \<Rightarrow> string option \<Rightarrow> string \<Rightarrow> unit dbop" where
  "decide_pending taskId reviewId expected status note ts =
     andThen (sql_update reviews reviews_update
       (\<lambda>r. v_id r = reviewId \<and> v_task_id r = taskId \<and> v_status r = RevPending \<and>
          (case expected of None \<Rightarrow> True | Some (_, updatedAt) \<Rightarrow> v_updated_at r = updatedAt))
       (\<lambda>r. r\<lparr>v_status := status, v_note := note, v_updated_at := ts\<rparr>)) (\<lambda>changes.
     require (changes = 1) (ReviewChangedConcurrently reviewId))"

text \<open>The move of a task out of \<open>frm\<close> that gives up its claim.\<close>

definition move_task :: "string \<Rightarrow> task_status \<Rightarrow> task_status \<Rightarrow> string \<Rightarrow> string \<Rightarrow> unit dbop" where
  "move_task taskId frm to latestUpdate ts =
     andThen (sql_update tasks tasks_update (\<lambda>r. t_id r = taskId \<and> t_status r = frm)
       (\<lambda>r. r\<lparr>t_status := to, t_latest_update := latestUpdate, t_claimed_by := None,
              t_claimed_at := None, t_updated_at := ts\<rparr>)) (\<lambda>changes.
     require (changes = 1) (TaskChangedConcurrently taskId))"

definition approveTaskReview ::
  "string \<Rightarrow> string \<Rightarrow> string option \<Rightarrow> (string \<times> string) option \<Rightarrow> review_row dbop" where
  "approveTaskReview ts taskId note expected = atomically (
     andThen (select_review taskId expected) (\<lambda>review.
     let cleanNote = clean_note note in
     andThen (decide_pending taskId (v_id review) expected RevApproved cleanNote ts) (\<lambda>_.
     andThen (move_task taskId TNeedsReview TDone
       (case cleanNote of None \<Rightarrow> ''Approved by human reviewer.'' | Some n \<Rightarrow> n) ts) (\<lambda>_.
     andThen (query (getReview (v_id review))) (\<lambda>decided.
     orThrow (ReviewDisappeared (v_id review)) decided)))))"

definition reset_steps :: "string \<Rightarrow> (step_row \<Rightarrow> bool) \<Rightarrow> string \<Rightarrow> nat dbop" where
  "reset_steps taskId which ts = sql_update route_steps route_steps_update
     (\<lambda>r. s_task_id r = taskId \<and> which r)
     (\<lambda>r. r\<lparr>s_status := SPending, s_run_id := None, s_updated_at := ts\<rparr>)"

definition requestTaskRework ::
  "string \<Rightarrow> string \<Rightarrow> string \<Rightarrow> string \<Rightarrow> (string \<times> string) option \<Rightarrow> (review_row \<times> message_row) dbop" where
  "requestTaskRework uid ts taskId note expected =
     (let cleanNote = trim note in
      andThen (require (cleanNote \<noteq> []) ReworkNoteRequired) (\<lambda>_. atomically (
      andThen (select_review taskId expected) (\<lambda>review.
      andThen (decide_pending taskId (v_id review) expected RevReworkRequested (Some cleanNote) ts) (\<lambda>_.
      let message = \<lparr>m_id = ''message_'' @ uid, m_task_id = taskId, m_run_id = v_run_id review,
            m_direction = System, m_role = ''reviewer'', m_body = cleanNote,
            m_delivery_status = DQueued, m_created_at = ts\<rparr> in
      andThen (insert_message message) (\<lambda>_.
      andThen (reset_steps taskId (\<lambda>_. True) ts) (\<lambda>_.
      andThen (move_task taskId TNeedsReview TQueued cleanNote ts) (\<lambda>_.
      andThen (query (getReview (v_id review))) (\<lambda>decided.
      andThen (orThrow (ReviewDisappeared (v_id review)) decided) (\<lambda>decided.
      ok (decided, message)))))))))))"

definition unresolved_remote :: "string \<Rightarrow> db \<Rightarrow> run_row option" where
  "unresolved_remote taskId s = find (\<lambda>r. r_task_id r = taskId \<and> r_agent r = Openclaw
     \<and> (r_status r = RStale \<or> (case r_error r of None \<Rightarrow> False | Some e \<Rightarrow> like_contains ''Worker heartbeat expired'' e))
     \<and> \<not> list_ex (\<lambda>e. e_run_id e = Some (r_id r) \<and> e_type e = ''run.remote_cancellation_confirmed'') (events s)) (runs s)"

definition retryBlockedTask :: "string \<Rightarrow> string \<Rightarrow> string \<Rightarrow> string option \<Rightarrow> bool \<Rightarrow> message_row dbop" where
  "retryBlockedTask uid ts taskId note allowUnconfirmedRemote =
     (let body = (case clean_note note of None \<Rightarrow> ''Operator requested another execution attempt.'' | Some n \<Rightarrow> n) in
      atomically (
      andThen (sql_get tasks (\<lambda>r. t_id r = taskId)) (\<lambda>task.
      andThen (orThrow (TaskNotFound taskId) task) (\<lambda>task.
      andThen (require (t_status task = TBlocked) (NotBlocked taskId)) (\<lambda>_.
      andThen (if allowUnconfirmedRemote then ok () else
        andThen (query (unresolved_remote taskId)) (\<lambda>unresolved. case unresolved of
          None \<Rightarrow> ok () | Some run \<Rightarrow> fail (UnconfirmedRemote taskId (r_id run)))) (\<lambda>_.
      let message = \<lparr>m_id = ''message_'' @ uid, m_task_id = taskId, m_run_id = None, m_direction = System,
            m_role = ''operator'', m_body = body, m_delivery_status = DQueued, m_created_at = ts\<rparr> in
      andThen (insert_message message) (\<lambda>_.
      andThen (reset_steps taskId (\<lambda>r. s_status r = SFailed) ts) (\<lambda>_.
      andThen (move_task taskId TBlocked TQueued body ts) (\<lambda>_.
      ok message)))))))))"

subsection \<open>The invariant and the moves\<close>

lemma db_wf_review_parts [preserves_rules]:
  "preserves db_wf (select_review i ex)" "preserves db_wf (decide_pending i v ex st n ts)"
  "to \<noteq> TRunning \<Longrightarrow> preserves db_wf (move_task i frm to u ts)" "preserves db_wf (reset_steps i which ts)"
  unfolding select_review_def decide_pending_def move_task_def reset_steps_def
  by (intro preserves_rules; simp add: task_claim_ok_def)+

lemma db_wf_reviews [preserves_rules]:
  "preserves db_wf (createReview uid ts i r rv)"
  "(\<And>s. db_wf s \<Longrightarrow> db_wf (other s)) \<Longrightarrow> preserves db_wf (decideReview other ts v st n)"
  "to \<noteq> TRunning \<Longrightarrow> preserves db_wf (finalizeTaskExecution uid ts i to u r)"
  "preserves db_wf (approveTaskReview ts i n ex)"
  "preserves db_wf (requestTaskRework uid ts i n' ex)"
  "preserves db_wf (retryBlockedTask uid ts i n allow)"
  unfolding createReview_def decideReview_def finalizeTaskExecution_def approveTaskReview_def
    requestTaskRework_def retryBlockedTask_def Let_def
  by (intro preserves_rules; simp add: task_claim_ok_def)+

context db_moves begin

lemma keeps_review_parts:
  "keeps (db_evolves M N) (select_review i ex)"
  "rst \<noteq> RevPending \<Longrightarrow> keeps (db_evolves M N) (decide_pending i v ex rst n ts)"
  "frm = to \<or> (frm, to) \<in> M \<Longrightarrow> keeps (db_evolves M N) (move_task i frm to u ts)"
  "keeps (db_evolves M N) (reset_steps i which ts)"
  unfolding select_review_def decide_pending_def move_task_def reset_steps_def
  by (intro keeps_statements; auto simp: task_fixed_def step_fixed_def review_fixed_def)+

lemma keeps_reviews:
  "keeps (db_evolves M N) (createReview uid ts i r rv)"
  "rst \<noteq> RevPending \<Longrightarrow> (\<And>s. db_evolves M N s (other s)) \<Longrightarrow> keeps (db_evolves M N) (decideReview other ts v rst n)"
  "(TRunning, to) \<in> M \<Longrightarrow> keeps (db_evolves M N) (finalizeTaskExecution uid ts i to u r)"
  "(TNeedsReview, TDone) \<in> M \<Longrightarrow> keeps (db_evolves M N) (approveTaskReview ts i n ex)"
  "(TNeedsReview, TQueued) \<in> M \<Longrightarrow> keeps (db_evolves M N) (requestTaskRework uid ts i n' ex)"
  "(TBlocked, TQueued) \<in> M \<Longrightarrow> keeps (db_evolves M N) (retryBlockedTask uid ts i n allow)"
  unfolding createReview_def decideReview_def finalizeTaskExecution_def approveTaskReview_def
    requestTaskRework_def retryBlockedTask_def Let_def
  by (intro keeps_statements keeps_review_parts; simp add: task_fixed_def review_fixed_def)+

end

subsection \<open>What the parts do\<close>

lemma record_updates:
  "tasks_update (update_rows P f) s = s\<lparr>tasks := update_rows P f (tasks s)\<rparr>"
  "reviews_update (update_rows P' f') s = s\<lparr>reviews := update_rows P' f' (reviews s)\<rparr>"
  "route_steps_update (update_rows P'' f'') s = s\<lparr>route_steps := update_rows P'' f'' (route_steps s)\<rparr>"
  "messages_update (\<lambda>rows. rows @ [m]) s = s\<lparr>messages := messages s @ [m]\<rparr>"
  "reviews_update (\<lambda>rows. rows @ [v]) s = s\<lparr>reviews := reviews s @ [v]\<rparr>"
  by (cases s; simp)+

definition moved_task :: "task_status \<Rightarrow> string \<Rightarrow> string \<Rightarrow> task_row \<Rightarrow> task_row" where
  "moved_task to u ts r = r\<lparr>t_status := to, t_latest_update := u, t_claimed_by := None, t_claimed_at := None, t_updated_at := ts\<rparr>"

definition decided_review :: "review_status \<Rightarrow> string option \<Rightarrow> string \<Rightarrow> review_row \<Rightarrow> review_row" where
  "decided_review st n ts r = r\<lparr>v_status := st, v_note := n, v_updated_at := ts\<rparr>"

definition reset_step :: "string \<Rightarrow> step_row \<Rightarrow> step_row" where
  "reset_step ts r = r\<lparr>s_status := SPending, s_run_id := None, s_updated_at := ts\<rparr>"

lemma latest_pending_review_Some:
  assumes "latest_pending_review i s = Some r"
  shows "r \<in> set (reviews s) \<and> v_task_id r = i \<and> v_status r = RevPending"
proof -
  let ?rows = "filter (\<lambda>r. v_task_id r = i \<and> v_status r = RevPending) (reviews s)"
  obtain rs where "rev (order_by v_created_at ?rows) = r # rs"
    using assms by (auto simp: latest_pending_review_def split: list.splits)
  then have "r \<in> set (rev (order_by v_created_at ?rows))" by simp
  then show ?thesis by simp
qed

lemma select_review_Inr:
  assumes "select_review i ex s = (Inr q, t)"
  shows "t = s \<and> q \<in> set (reviews s) \<and> v_task_id q = i \<and> v_status q = RevPending
    \<and> (case ex of None \<Rightarrow> True | Some (v, upd) \<Rightarrow> v_id q = v \<and> v_updated_at q = upd)
    \<and> (\<exists>task \<in> set (tasks s). t_id task = i \<and> t_status task = TNeedsReview)"
proof (cases ex)
  case None
  with assms show ?thesis
    by (auto simp: select_review_def eff_simps dest!: find_key_Some latest_pending_review_Some split: option.splits if_splits)
next
  case (Some e)
  obtain v u where e: "e = (v, u)" by (cases e)
  have "find (\<lambda>r. v_id r = v \<and> v_task_id r = i) (reviews s) = Some q \<Longrightarrow> q \<in> set (reviews s) \<and> v_id q = v \<and> v_task_id q = i"
    by (auto simp: find_Some_iff in_set_conv_nth)
  with assms Some e show ?thesis
    by (auto simp: select_review_def eff_simps dest!: find_key_Some split: option.splits if_splits)
qed

lemma decide_pending_Inr:
  assumes "unique_key v_id (reviews s)" and "decide_pending i v ex st n ts s = (Inr u, t)"
  shows "t = s\<lparr>reviews := update_rows (\<lambda>r. v_id r = v) (decided_review st n ts) (reviews s)\<rparr>"
  using assms(2)
  by (auto simp: decide_pending_def andThen_def require_def review_tbl.cas_update [OF assms(1)] record_updates
      decided_review_def [abs_def] split: option.splits if_splits)

lemma move_task_Inr:
  assumes "unique_key t_id (tasks s)" and "move_task i frm to u ts s = (Inr x, t)"
  shows "t = s\<lparr>tasks := update_rows (\<lambda>r. t_id r = i) (moved_task to u ts) (tasks s)\<rparr>
    \<and> (\<exists>r \<in> set (tasks s). t_id r = i \<and> t_status r = frm)"
proof (cases "find (\<lambda>r. t_id r = i) (tasks s)")
  case None
  with assms(2) show ?thesis by (simp add: move_task_def andThen_def require_def task_tbl.cas_update [OF assms(1)])
next
  case (Some r)
  then have "r \<in> set (tasks s)" "t_id r = i" by (auto dest: find_key_Some)
  with assms(2) Some show ?thesis
    by (auto simp: move_task_def andThen_def require_def task_tbl.cas_update [OF assms(1)] record_updates
        moved_task_def [abs_def] split: if_splits)
qed

lemma reset_steps_run:
  "reset_steps i which ts s = (Inr (length (filter (\<lambda>r. s_task_id r = i \<and> which r) (route_steps s))),
     s\<lparr>route_steps := update_rows (\<lambda>r. s_task_id r = i \<and> which r) (reset_step ts) (route_steps s)\<rparr>)"
  by (simp add: reset_steps_def sql_update_def record_updates reset_step_def [abs_def])

lemma getReview_updated:
  assumes "unique_key v_id (reviews s)" and "q \<in> set (reviews s)"
  shows "find (\<lambda>r. v_id r = v_id q) (update_rows (\<lambda>r. v_id r = v_id q) (decided_review st n ts) (reviews s))
    = Some (decided_review st n ts q)"
  by (simp add: find_update_rows [of _ v_id] decided_review_def find_key_unique [OF assms])

subsection \<open>Properties\<close>

lemma approveTaskReview_cas_aux:
  assumes "db_wf s" and "approveTaskReview ts i note ex s = (Inr row, t)"
  shows "\<exists>q \<in> set (reviews s). v_task_id q = i \<and> v_status q = RevPending
        \<and> (case ex of None \<Rightarrow> True | Some (v, upd) \<Rightarrow> v_id q = v \<and> v_updated_at q = upd)
        \<and> (\<exists>task \<in> set (tasks s). t_id task = i \<and> t_status task = TNeedsReview)
        \<and> row = decided_review RevApproved (clean_note note) ts q
        \<and> t = s\<lparr>reviews := update_rows (\<lambda>r. v_id r = v_id q) (decided_review RevApproved (clean_note note) ts) (reviews s),
              tasks := update_rows (\<lambda>r. t_id r = i) (moved_task TDone
                (case clean_note note of None \<Rightarrow> ''Approved by human reviewer.'' | Some n \<Rightarrow> n) ts) (tasks s)\<rparr>"
proof -
  let ?u = "case clean_note note of None \<Rightarrow> ''Approved by human reviewer.'' | Some n \<Rightarrow> n"
  from assms(2) obtain q s1 s2 s3 x y where
    sel: "select_review i ex s = (Inr q, s1)" and
    dec: "decide_pending i (v_id q) ex RevApproved (clean_note note) ts s1 = (Inr x, s2)" and
    mov: "move_task i TNeedsReview TDone ?u ts s2 = (Inr y, s3)" and
    get: "getReview (v_id q) s3 = Some row" "t = s3"
    by (auto simp: approveTaskReview_def atomically_Inr andThen_Inr Let_def query_def orThrow_def split: option.splits)
  from sel have q: "s1 = s" "q \<in> set (reviews s)" "v_task_id q = i" "v_status q = RevPending"
    "case ex of None \<Rightarrow> True | Some (v, upd) \<Rightarrow> v_id q = v \<and> v_updated_at q = upd"
    "\<exists>task \<in> set (tasks s). t_id task = i \<and> t_status task = TNeedsReview"
    by (auto dest: select_review_Inr)
  note u = db_wfD [OF assms(1)]
  have s2: "s2 = s\<lparr>reviews := update_rows (\<lambda>r. v_id r = v_id q) (decided_review RevApproved (clean_note note) ts) (reviews s)\<rparr>"
    using decide_pending_Inr [OF u(7)] dec q(1) by blast
  have s3: "s3 = s2\<lparr>tasks := update_rows (\<lambda>r. t_id r = i) (moved_task TDone ?u ts) (tasks s2)\<rparr>"
    using move_task_Inr [OF _ mov] u(1) by (simp add: s2)
  have "row = decided_review RevApproved (clean_note note) ts q"
    using get(1) getReview_updated [OF u(7) q(2)] by (simp add: s3 s2 getReview_def)
  with q get(2) show ?thesis by (intro bexI [of _ q]) (simp_all add: s3 s2)
qed

text \<open>
  Approval is atomic and compare-and-swap: it either throws and leaves the database untouched, or the
  task was waiting for review and the review approved was a pending review of it, the expected one at the
  expected revision when the caller gave one, and exactly that review and that task are rewritten: the
  review approved with the trimmed note, the task done and unclaimed.
\<close>
theorem approveTaskReview_cas:
  assumes "db_wf s" and "approveTaskReview ts i note ex s = (r, t)"
  shows "(case r of
      Inl _ \<Rightarrow> t = s
    | Inr row \<Rightarrow> \<exists>q \<in> set (reviews s). v_task_id q = i \<and> v_status q = RevPending
        \<and> (case ex of None \<Rightarrow> True | Some (v, upd) \<Rightarrow> v_id q = v \<and> v_updated_at q = upd)
        \<and> (\<exists>task \<in> set (tasks s). t_id task = i \<and> t_status task = TNeedsReview)
        \<and> row = decided_review RevApproved (clean_note note) ts q
        \<and> t = s\<lparr>reviews := update_rows (\<lambda>r. v_id r = v_id q) (decided_review RevApproved (clean_note note) ts) (reviews s),
              tasks := update_rows (\<lambda>r. t_id r = i) (moved_task TDone
                (case clean_note note of None \<Rightarrow> ''Approved by human reviewer.'' | Some n \<Rightarrow> n) ts) (tasks s)\<rparr>)"
proof (cases r)
  case (Inl e)
  with assms(2) show ?thesis by (auto simp: approveTaskReview_def dest: atomically_Inl)
next
  case (Inr row)
  with assms(2) have "approveTaskReview ts i note ex s = (Inr row, t)" by simp
  from approveTaskReview_cas_aux [OF assms(1) this] show ?thesis unfolding Inr sum.case .
qed

lemma insert_message_Inr:
  "insert_message m s = (Inr x, t) \<Longrightarrow> t = s\<lparr>messages := messages s @ [m]\<rparr>"
  by (auto simp: insert_defs record_updates split: if_splits)

definition rework_message :: "string \<Rightarrow> string \<Rightarrow> string \<Rightarrow> string option \<Rightarrow> string \<Rightarrow> message_row" where
  "rework_message uid ts i run body = \<lparr>m_id = ''message_'' @ uid, m_task_id = i, m_run_id = run,
     m_direction = System, m_role = ''reviewer'', m_body = body, m_delivery_status = DQueued, m_created_at = ts\<rparr>"

text \<open>
  A rework request is one transaction: it either throws and changes nothing, or it decides a pending
  review of a task that waits for review, queues the note as a message to the agents, puts every route
  step back to pending without its run, and queues the task, all with the same note and time.
\<close>
theorem requestTaskRework_atomic:
  assumes "db_wf s" and "requestTaskRework uid ts i note ex s = (r, t)"
  shows "(case r of
      Inl _ \<Rightarrow> t = s
    | Inr (row, msg) \<Rightarrow> trim note \<noteq> [] \<and> (\<exists>q \<in> set (reviews s). v_task_id q = i \<and> v_status q = RevPending
        \<and> (case ex of None \<Rightarrow> True | Some (v, upd) \<Rightarrow> v_id q = v \<and> v_updated_at q = upd)
        \<and> (\<exists>task \<in> set (tasks s). t_id task = i \<and> t_status task = TNeedsReview)
        \<and> row = decided_review RevReworkRequested (Some (trim note)) ts q
        \<and> msg = rework_message uid ts i (v_run_id q) (trim note)
        \<and> t = s\<lparr>reviews := update_rows (\<lambda>r. v_id r = v_id q) (decided_review RevReworkRequested (Some (trim note)) ts) (reviews s),
              messages := messages s @ [msg],
              route_steps := update_rows (\<lambda>r. s_task_id r = i) (reset_step ts) (route_steps s),
              tasks := update_rows (\<lambda>r. t_id r = i) (moved_task TQueued (trim note) ts) (tasks s)\<rparr>))"
proof (cases r)
  case (Inl e)
  with assms(2) show ?thesis
    by (auto simp: requestTaskRework_def Let_def andThen_Inl require_def dest: atomically_Inl split: if_splits)
next
  case (Inr rm)
  obtain row msg where rm: "rm = (row, msg)" by (cases rm)
  let ?note = "trim note"
  from assms(2) Inr rm obtain q s1 s2 s3 s4 s5 x y z where
    sel: "select_review i ex s = (Inr q, s1)" and
    dec: "decide_pending i (v_id q) ex RevReworkRequested (Some ?note) ts s1 = (Inr x, s2)" and
    msg: "insert_message msg s2 = (Inr y, s3)" "msg = rework_message uid ts i (v_run_id q) ?note" and
    steps: "s4 = snd (reset_steps i (\<lambda>_. True) ts s3)" and
    mov: "move_task i TNeedsReview TQueued ?note ts s4 = (Inr z, s5)" and
    get: "getReview (v_id q) s5 = Some row" "t = s5" and nonempty: "?note \<noteq> []"
    by (auto simp: requestTaskRework_def atomically_Inr andThen_Inr Let_def query_def orThrow_def require_def ok_def
        rework_message_def reset_steps_run split: option.splits if_splits)
  from sel have q: "s1 = s" "q \<in> set (reviews s)" "v_task_id q = i" "v_status q = RevPending"
    "case ex of None \<Rightarrow> True | Some (v, upd) \<Rightarrow> v_id q = v \<and> v_updated_at q = upd"
    "\<exists>task \<in> set (tasks s). t_id task = i \<and> t_status task = TNeedsReview"
    by (auto dest: select_review_Inr)
  note u = db_wfD [OF assms(1)]
  have s2: "s2 = s\<lparr>reviews := update_rows (\<lambda>r. v_id r = v_id q) (decided_review RevReworkRequested (Some ?note) ts) (reviews s)\<rparr>"
    using decide_pending_Inr [OF u(7)] dec q(1) by blast
  have s4: "s4 = s2\<lparr>messages := messages s @ [msg],
      route_steps := update_rows (\<lambda>r. s_task_id r = i) (reset_step ts) (route_steps s)\<rparr>"
    using insert_message_Inr [OF msg(1)] by (simp add: steps reset_steps_run s2)
  have s5: "s5 = s4\<lparr>tasks := update_rows (\<lambda>r. t_id r = i) (moved_task TQueued ?note ts) (tasks s4)\<rparr>"
    using move_task_Inr [OF _ mov] u(1) by (simp add: s4 s2)
  have "row = decided_review RevReworkRequested (Some ?note) ts q"
    using get(1) getReview_updated [OF u(7) q(2)] by (simp add: s5 s4 s2 getReview_def)
  with q get(2) nonempty msg(2) show ?thesis unfolding Inr rm sum.case prod.case
    by (intro conjI bexI [of _ q]) (simp_all add: s5 s4 s2)
qed

text \<open>
  The end of an execution: only a running task can be finalized, its claim is given up, a review is
  opened exactly when the outcome is needs-review, and every failure, also a failing review insert, leaves
  the task running as it was.
\<close>
theorem finalizeTaskExecution_atomic:
  assumes "db_wf s" and "finalizeTaskExecution uid ts i st u run s = (r, t)"
  shows "(case r of
      Inl _ \<Rightarrow> t = s
    | Inr v \<Rightarrow> v = (if st = TNeedsReview then Some (new_review_row uid ts i run None) else None)
        \<and> (\<exists>task \<in> set (tasks s). t_id task = i \<and> t_status task = TRunning)
        \<and> t = s\<lparr>reviews := reviews s @ (case v of None \<Rightarrow> [] | Some w \<Rightarrow> [w]),
              tasks := update_rows (\<lambda>r. t_id r = i) (moved_task st u ts) (tasks s)\<rparr>)"
proof (cases r)
  case (Inl e)
  with assms(2) show ?thesis by (auto simp: finalizeTaskExecution_def dest: atomically_Inl)
next
  case (Inr v)
  from assms(2) Inr obtain task s1 x where
    task: "find (\<lambda>r. t_id r = i) (tasks s) = Some task" "t_status task = TRunning" and
    s1: "s1 = s\<lparr>reviews := reviews s @ (case v of None \<Rightarrow> [] | Some w \<Rightarrow> [w])\<rparr>"
      "v = (if st = TNeedsReview then Some (new_review_row uid ts i run None) else None)" and
    mov: "move_task i TRunning st u ts s1 = (Inr x, t)"
    by (auto simp: finalizeTaskExecution_def atomically_Inr andThen_Inr Let_def sql_get_def orThrow_def require_def ok_def
        insert_defs record_updates move_task_def split: option.splits if_splits)
  have "t = s1\<lparr>tasks := update_rows (\<lambda>r. t_id r = i) (moved_task st u ts) (tasks s1)\<rparr>"
    using move_task_Inr [OF _ mov] db_wfD(1) [OF assms(1)] by (simp add: s1(1))
  moreover have "task \<in> set (tasks s)" "t_id task = i" using task(1) by (auto dest: find_key_Some)
  ultimately show ?thesis unfolding Inr sum.case using task(2) s1(2) by (intro conjI bexI [of _ task]) (simp_all add: s1(1))
qed

text \<open>
  A blocked task is requeued only when no remote work of it may still be running: retry throws and
  changes nothing unless the task is blocked and, without the explicit override, every OpenClaw run of it
  that went stale or lost its worker has a confirmed remote cancellation. Otherwise it queues the operator's
  note, resets the failed steps alone and queues the task.
\<close>
theorem retryBlockedTask_guarded:
  assumes "db_wf s" and "retryBlockedTask uid ts i note allow s = (r, t)"
  shows "(case r of
      Inl _ \<Rightarrow> t = s
    | Inr msg \<Rightarrow> (\<exists>task \<in> set (tasks s). t_id task = i \<and> t_status task = TBlocked)
        \<and> (allow \<or> list_all (\<lambda>run. r_task_id run \<noteq> i \<or> r_agent run \<noteq> Openclaw
              \<or> r_status run \<noteq> RStale \<and> (case r_error run of None \<Rightarrow> True | Some e \<Rightarrow> \<not> like_contains ''Worker heartbeat expired'' e)
              \<or> list_ex (\<lambda>e. e_run_id e = Some (r_id run) \<and> e_type e = ''run.remote_cancellation_confirmed'') (events s)) (runs s))
        \<and> t = s\<lparr>messages := messages s @ [msg],
              route_steps := update_rows (\<lambda>r. s_task_id r = i \<and> s_status r = SFailed) (reset_step ts) (route_steps s),
              tasks := update_rows (\<lambda>r. t_id r = i) (moved_task TQueued (m_body msg) ts) (tasks s)\<rparr>)"
proof (cases r)
  case (Inl e)
  with assms(2) show ?thesis by (auto simp: retryBlockedTask_def Let_def dest: atomically_Inl)
next
  case (Inr msg)
  from assms(2) Inr obtain task s1 s2 x y where
    task: "find (\<lambda>r. t_id r = i) (tasks s) = Some task" "t_status task = TBlocked" and
    allow: "allow \<or> unresolved_remote i s = None" and
    msg: "insert_message msg s = (Inr y, s1)" and
    steps: "s2 = snd (reset_steps i (\<lambda>r. s_status r = SFailed) ts s1)" and
    mov: "move_task i TBlocked TQueued (m_body msg) ts s2 = (Inr x, t)"
    by (auto simp: retryBlockedTask_def atomically_Inr andThen_Inr Let_def query_def sql_get_def orThrow_def require_def
        ok_def fail_def reset_steps_run split: option.splits if_splits)
  have s2: "s2 = s\<lparr>messages := messages s @ [msg],
      route_steps := update_rows (\<lambda>r. s_task_id r = i \<and> s_status r = SFailed) (reset_step ts) (route_steps s)\<rparr>"
    using insert_message_Inr [OF msg] by (simp add: steps reset_steps_run)
  have "t = s2\<lparr>tasks := update_rows (\<lambda>r. t_id r = i) (moved_task TQueued (m_body msg) ts) (tasks s2)\<rparr>"
    using move_task_Inr [OF _ mov] db_wfD(1) [OF assms(1)] by (simp add: s2)
  moreover have "task \<in> set (tasks s)" "t_id task = i" using task(1) by (auto dest: find_key_Some)
  moreover have "list_all (\<lambda>run. r_task_id run \<noteq> i \<or> r_agent run \<noteq> Openclaw
              \<or> r_status run \<noteq> RStale \<and> (case r_error run of None \<Rightarrow> True | Some e \<Rightarrow> \<not> like_contains ''Worker heartbeat expired'' e)
              \<or> list_ex (\<lambda>e. e_run_id e = Some (r_id run) \<and> e_type e = ''run.remote_cancellation_confirmed'') (events s)) (runs s)"
    if "unresolved_remote i s = None"
    using that by (auto simp: unresolved_remote_def find_None_iff list_all_iff split: option.splits)
  ultimately show ?thesis unfolding Inr sum.case using task(2) allow
    by (intro conjI bexI [of _ task]) (auto simp: s2)
qed

lemma decided_stays:
  assumes "db_evolves M N t u" and "db_wf u" and "row \<in> set (reviews t)" and "v_status row \<noteq> RevPending"
    and "q \<in> set (reviews u)" and "v_id q = v_id row"
  shows "v_status q = v_status row"
proof -
  from assms(3) obtain k where k: "k < length (reviews t)" "reviews t ! k = row" by (auto simp: in_set_conv_nth)
  with assms(1) have m: "k < length (reviews u)" "review_fixed (reviews u ! k) = review_fixed row"
      "v_status (reviews u ! k) = v_status row \<or> (v_status row, v_status (reviews u ! k)) \<in> review_moves"
    by (auto simp: db_evolves_def moved_by_def)
  then have "v_id (reviews u ! k) = v_id q" using assms(6) by (simp add: review_fixed_def)
  then have "reviews u ! k = q" using unique_key_inj [OF db_wfD(7) [OF assms(2)]] m(1) assms(5) nth_mem by blast
  with m(3) assms(4) show ?thesis by (auto simp: review_moves_def)
qed

lemma select_review_decided:
  assumes "\<And>q. q \<in> set (reviews u) \<Longrightarrow> v_id q = v \<Longrightarrow> v_status q \<noteq> RevPending"
  shows "\<exists>e. select_review i (Some (v, rev')) u = (Inl e, u)"
proof -
  obtain x u' where r: "select_review i (Some (v, rev')) u = (x, u')" by (cases "select_review i (Some (v, rev')) u")
  show ?thesis
  proof (cases x)
    case (Inr q)
    with select_review_Inr [of i "Some (v, rev')" u q u'] r assms show ?thesis by auto
  next
    case (Inl e)
    with r have "u' = u" by (auto simp: select_review_def eff_simps split: option.splits if_splits)
    with r Inl show ?thesis by simp
  qed
qed

text \<open>
  A review is decided once: after an approval, however the database goes on evolving, no approval and
  no rework request that names this review can succeed again, whatever revision it expects.
\<close>
theorem review_decided_once:
  assumes "db_wf s" and "approveTaskReview ts i note ex s = (Inr row, t)" and "db_evolves M N t u" and "db_wf u"
  shows "(\<exists>e. approveTaskReview ts' i' note' (Some (v_id row, rev')) u = (Inl e, u))
    \<and> (\<exists>e. requestTaskRework uid ts' i' note2 (Some (v_id row, rev')) u = (Inl e, u))"
proof -
  note u = db_wfD [OF assms(1)]
  from approveTaskReview_cas_aux [OF assms(1,2)] obtain q where q: "q \<in> set (reviews s)"
      "row = decided_review RevApproved (clean_note note) ts q"
      "reviews t = (update_rows (\<lambda>r. v_id r = v_id q) (decided_review RevApproved (clean_note note) ts) (reviews s))"
    by auto
  then have row: "row \<in> set (reviews t)" "v_status row \<noteq> RevPending"
    by (auto simp: set_update_rows decided_review_def)
  have "v_status q \<noteq> RevPending" if "q \<in> set (reviews u)" "v_id q = v_id row" for q
    using decided_stays [OF assms(3,4) row that] row(2) by simp
  then have sel: "\<exists>e. select_review j (Some (v_id row, rev')) u = (Inl e, u)" for j
    by (rule select_review_decided)
  from sel [of i'] have "\<exists>e. approveTaskReview ts' i' note' (Some (v_id row, rev')) u = (Inl e, u)"
    by (auto simp: approveTaskReview_def atomically_def andThen_def)
  moreover from sel [of i'] have "\<exists>e. requestTaskRework uid ts' i' note2 (Some (v_id row, rev')) u = (Inl e, u)"
    by (auto simp: requestTaskRework_def atomically_def andThen_def require_def Let_def)
  ultimately show ?thesis by blast
qed

subsection \<open>On the sample database\<close>

lemmas run_defs = eff_simps atomically_def select_review_def decide_pending_def move_task_def reset_steps_def
  clean_note_def truthy_def getReview_def update_rows_def insert_defs constraint_defs sample_defs has_task_def has_run_def
  latest_pending_review_def order_by_def trim_def js_space_def Let_def

lemma sample_approve: "\<exists>t. approveTaskReview ''9'' ''c'' None (Some (''v'', ''5'')) sample_db =
    (Inr (decided_review RevApproved None ''9'' (sample_review ''v'' ''c'')), t)"
  by (simp add: approveTaskReview_def run_defs decided_review_def)

theorem approveTaskReview_cas_witness:
  "\<exists>row t. approveTaskReview ''9'' ''c'' None (Some (''v'', ''5'')) sample_db = (Inr row, t) \<and> v_id row = ''v''
     \<and> snd (approveTaskReview ''9'' ''c'' None (Some (''v'', ''4'')) sample_db) = sample_db"
proof -
  obtain row t where r: "approveTaskReview ''9'' ''c'' None (Some (''v'', ''5'')) sample_db = (Inr row, t)"
    using sample_approve by blast
  obtain x u where s: "approveTaskReview ''9'' ''c'' None (Some (''v'', ''4'')) sample_db = (x, u)"
    by (cases "approveTaskReview ''9'' ''c'' None (Some (''v'', ''4'')) sample_db")
  have "\<forall>q \<in> set (reviews sample_db). v_updated_at q \<noteq> ''4''" by (simp add: sample_defs)
  with approveTaskReview_cas [OF sample_db_wf s] have "u = sample_db" by (auto split: sum.splits)
  moreover have "v_id row = ''v''" using approveTaskReview_cas [OF sample_db_wf r] by (auto simp: decided_review_def)
  ultimately show ?thesis using r s by simp
qed

theorem requestTaskRework_atomic_witness:
  "\<exists>row msg t. requestTaskRework ''u'' ''9'' ''c'' '' redo '' None sample_db = (Inr (row, msg), t)
     \<and> m_body msg = ''redo'' \<and> (\<forall>r \<in> set (route_steps t). s_task_id r = ''c'' \<longrightarrow> s_status r = SPending)"
proof -
  have "\<exists>row msg t. requestTaskRework ''u'' ''9'' ''c'' '' redo '' None sample_db = (Inr (row, msg), t)"
    by (simp add: requestTaskRework_def run_defs)
  then obtain row msg t where r: "requestTaskRework ''u'' ''9'' ''c'' '' redo '' None sample_db = (Inr (row, msg), t)" by blast
  have n: "trim '' redo '' = ''redo''" by (simp add: trim_def js_space_def)
  have "m_body msg = ''redo''" "route_steps t = update_rows (\<lambda>r. s_task_id r = ''c'') (reset_step ''9'') (route_steps sample_db)"
    using requestTaskRework_atomic [OF sample_db_wf r] unfolding n by (auto simp: rework_message_def)
  with r show ?thesis by (auto simp: set_update_rows reset_step_def)
qed

theorem finalizeTaskExecution_atomic_witness:
  "\<exists>v t. finalizeTaskExecution ''u'' ''9'' ''a'' TNeedsReview ''x'' None sample_db = (Inr (Some v), t) \<and> v \<in> set (reviews t)
     \<and> snd (finalizeTaskExecution ''u'' ''9'' ''d'' TDone ''x'' None sample_db) = sample_db"
proof -
  have "\<exists>v t. finalizeTaskExecution ''u'' ''9'' ''a'' TNeedsReview ''x'' None sample_db = (Inr (Some v), t)"
    by (simp add: finalizeTaskExecution_def run_defs new_review_row_def)
  then obtain v t where r: "finalizeTaskExecution ''u'' ''9'' ''a'' TNeedsReview ''x'' None sample_db = (Inr (Some v), t)" by blast
  have "v \<in> set (reviews t)" using finalizeTaskExecution_atomic [OF sample_db_wf r] by auto
  moreover obtain x u where s: "finalizeTaskExecution ''u'' ''9'' ''d'' TDone ''x'' None sample_db = (x, u)"
    by (cases "finalizeTaskExecution ''u'' ''9'' ''d'' TDone ''x'' None sample_db")
  have "\<forall>q \<in> set (tasks sample_db). t_id q = ''d'' \<longrightarrow> t_status q = TQueued" by (simp add: sample_defs)
  with finalizeTaskExecution_atomic [OF sample_db_wf s] have "u = sample_db" by (auto split: sum.splits)
  ultimately show ?thesis using r s by simp
qed

theorem retryBlockedTask_guarded_witness:
  "snd (retryBlockedTask ''u'' ''9'' ''b'' None False sample_db) = sample_db
   \<and> (\<exists>msg t. retryBlockedTask ''u'' ''9'' ''b'' None True sample_db = (Inr msg, t) \<and> messages t = [msg])"
proof -
  obtain x u where s: "retryBlockedTask ''u'' ''9'' ''b'' None False sample_db = (x, u)"
    by (cases "retryBlockedTask ''u'' ''9'' ''b'' None False sample_db")
  have "\<exists>run \<in> set (runs sample_db). r_task_id run = ''b'' \<and> r_agent run = Openclaw \<and> r_status run = RStale
      \<and> \<not> list_ex (\<lambda>e. e_run_id e = Some (r_id run)) (events sample_db)"
    by (simp add: sample_defs)
  with retryBlockedTask_guarded [OF sample_db_wf s] have "u = sample_db"
    by (fastforce simp: list_all_iff list_ex_iff split: sum.splits)
  moreover have "\<exists>msg t. retryBlockedTask ''u'' ''9'' ''b'' None True sample_db = (Inr msg, t)"
    by (simp add: retryBlockedTask_def run_defs)
  then obtain msg t where r: "retryBlockedTask ''u'' ''9'' ''b'' None True sample_db = (Inr msg, t)" by blast
  have "messages t = [msg]" using retryBlockedTask_guarded [OF sample_db_wf r] by (simp add: sample_db_def)
  ultimately show ?thesis using r s by auto
qed

theorem review_decided_once_witness:
  "\<exists>e. requestTaskRework ''u'' ''10'' ''c'' ''redo'' (Some (''v'', ''9''))
      (snd (approveTaskReview ''9'' ''c'' None (Some (''v'', ''5'')) sample_db))
    = (Inl e, snd (approveTaskReview ''9'' ''c'' None (Some (''v'', ''5'')) sample_db))"
proof -
  obtain row t where r: "approveTaskReview ''9'' ''c'' None (Some (''v'', ''5'')) sample_db = (Inr row, t)" "v_id row = ''v''"
    using sample_approve by (auto simp: decided_review_def sample_review_def)
  have "db_wf t" using preservesD [OF db_wf_reviews(4) sample_db_wf r(1)] .
  from review_decided_once [OF sample_db_wf r(1) no_move.db_evolves_refl this, of "''10''" "''c''" None "''9''" "''u''" "''redo''"]
  show ?thesis using r by simp
qed

end
