(* ===== verification/DbRecovery.thy ===== *)
theory DbRecovery
  imports DbReviews
begin

text \<open>
  \<open>src/db.ts\<close>, recovery of tasks whose worker is gone: \<open>recoverStaleTasks\<close>, \<open>recoverTasksOwnedBy\<close> and the
  transaction \<open>#recoverRunningTasks\<close> both run. \<open>isoDate\<close> is \<open>Date.parse\<close> followed by \<open>toISOString\<close>, with
  \<open>None\<close> where \<open>Date.parse\<close> gives NaN.
\<close>

subsection \<open>Operations\<close>

datatype process_agent = PaCodex | PaClaude | PaVerifier

record stale_recovery_result =
  sr_taskIds :: "string list"
  sr_staleRunIds :: "string list"
  sr_failedRunIds :: "string list"
  sr_processCandidates :: "(string \<times> string \<times> int \<times> process_agent) list"
  sr_remoteCandidates :: "(string \<times> string \<times> string) list"

definition empty_recovery :: stale_recovery_result where
  "empty_recovery = \<lparr>sr_taskIds = [], sr_staleRunIds = [], sr_failedRunIds = [],
     sr_processCandidates = [], sr_remoteCandidates = []\<rparr>"

record recovery_input =
  ri_cutoff :: "string option"
  ri_claimedBy :: "string option"
  ri_recoveredBy :: string

definition nullable :: "string option \<Rightarrow> string" where
  "nullable v = (case v of None \<Rightarrow> ''null'' | Some w \<Rightarrow> w)"

definition recovery_description :: "recovery_input \<Rightarrow> string" where
  "recovery_description inp = (case truthy (ri_claimedBy inp) of
     Some w \<Rightarrow> ''Previous worker '' @ w @ '' is no longer alive.''
   | None \<Rightarrow> ''Worker heartbeat expired before '' @ nullable (ri_cutoff inp) @ ''.'')"

definition stale_task :: "recovery_input \<Rightarrow> task_row \<Rightarrow> bool" where
  "stale_task inp r \<longleftrightarrow> t_status r = TRunning \<and> (case truthy (ri_claimedBy inp) of
     Some w \<Rightarrow> t_claimed_by r = Some w
   | None \<Rightarrow> (case (t_claimed_at r, ri_cutoff inp) of (Some at, Some cutoff) \<Rightarrow> at < cutoff | _ \<Rightarrow> False))"

definition active_run :: "run_row \<Rightarrow> bool" where
  "active_run r \<longleftrightarrow> r_status r = RStarting \<or> r_status r = RRunning"

text \<open>The last verifier process a run started that no later verdict closed, and its pid.\<close>

definition open_verifier :: "string \<Rightarrow> db \<Rightarrow> event_row option" where
  "open_verifier runId s =
     (case rev (order_by e_id (filter (\<lambda>started. e_run_id started = Some runId
              \<and> e_type started = ''verification.process_started''
              \<and> \<not> list_ex (\<lambda>terminal. e_run_id terminal = e_run_id started \<and> e_id started < e_id terminal
                    \<and> e_type terminal \<in> {''verification.succeeded'', ''verification.failed''}) (events s)) (events s))) of
        [] \<Rightarrow> None | e # _ \<Rightarrow> Some e)"

definition verifier_pid :: "event_row option \<Rightarrow> int option" where
  "verifier_pid ev = (case ev of None \<Rightarrow> None | Some e \<Rightarrow>
     (case Option.bind (e_data e) (json_field ''pid'') of
        Some (JNum n) \<Rightarrow> if is_safe_int n \<and> 1 < n then Some n else None
      | _ \<Rightarrow> None))"

definition note_candidates ::
  "string \<Rightarrow> run_row \<Rightarrow> int option \<Rightarrow> stale_recovery_result \<Rightarrow> stale_recovery_result" where
  "note_candidates taskId run verifierPid acc =
     (let acc1 = (case verifierPid of
          Some pid \<Rightarrow> acc\<lparr>sr_processCandidates := sr_processCandidates acc @ [(taskId, r_id run, pid, PaVerifier)]\<rparr>
        | None \<Rightarrow> (case (r_pid run, r_agent run) of
            (Some pid, Codex) \<Rightarrow> acc\<lparr>sr_processCandidates := sr_processCandidates acc @ [(taskId, r_id run, pid, PaCodex)]\<rparr>
          | (Some pid, Claude) \<Rightarrow> acc\<lparr>sr_processCandidates := sr_processCandidates acc @ [(taskId, r_id run, pid, PaClaude)]\<rparr>
          | _ \<Rightarrow> acc))
      in if r_agent run = Openclaw
         then acc1\<lparr>sr_remoteCandidates := sr_remoteCandidates acc1 @
           [(taskId, r_id run, case r_adapter_run_id run of None \<Rightarrow> r_id run | Some a \<Rightarrow> a)]\<rparr>
         else acc1)"

definition recovery_data :: "recovery_input \<Rightarrow> (string \<times> json) list" where
  "recovery_data inp = [(''recoveredBy'', JStr (trim (ri_recoveredBy inp)))]
     @ (case truthy (ri_cutoff inp) of None \<Rightarrow> [] | Some c \<Rightarrow> [(''cutoff'', JStr c)])
     @ (case truthy (ri_claimedBy inp) of None \<Rightarrow> [] | Some w \<Rightarrow> [(''deadOwner'', JStr w)])"

definition run_error :: "recovery_input \<Rightarrow> run_row \<Rightarrow> string" where
  "run_error inp run = recovery_description inp
     @ (if r_status run = RRunning then '' The run was active.'' else '' The run had not become active.'')"

definition closed_status :: "run_row \<Rightarrow> run_status" where
  "closed_status run = (if r_status run = RRunning then RStale else RFailed)"

definition close_run :: "string \<Rightarrow> run_status \<Rightarrow> string \<Rightarrow> run_row \<Rightarrow> run_row" where
  "close_run ts st err r = r\<lparr>r_status := st,
     r_error := (case truthy (r_error r) of None \<Rightarrow> Some err | Some e \<Rightarrow> Some (e @ newline @ err)),
     r_finished_at := (case r_finished_at r of None \<Rightarrow> Some ts | Some f \<Rightarrow> Some f), r_updated_at := ts\<rparr>"

definition recover_run ::
  "string \<Rightarrow> recovery_input \<Rightarrow> string \<Rightarrow> run_row \<Rightarrow> stale_recovery_result \<Rightarrow> stale_recovery_result dbop" where
  "recover_run ts inp taskId run acc =
     andThen (query (open_verifier (r_id run))) (\<lambda>verifierEvent.
     let acc1 = note_candidates taskId run (verifier_pid verifierEvent) acc;
         nextStatus = closed_status run; err = run_error inp run in
     andThen (sql_update runs runs_update (\<lambda>r. r_id r = r_id run \<and> r_task_id r = taskId \<and> r_status r = r_status run)
       (close_run ts nextStatus err)) (\<lambda>changes.
     andThen (require (changes = 1) (ChangedInRecovery (r_id run))) (\<lambda>_.
     andThen (insert_event taskId (Some (r_id run)) (if nextStatus = RStale then ''run.stale'' else ''run.failed'')
       LWarn err (Some (JObj ((''previousStatus'', JStr (enum_name RunStatusSchema (r_status run))) # recovery_data inp))) ts) (\<lambda>_.
     ok (if nextStatus = RStale then acc1\<lparr>sr_staleRunIds := sr_staleRunIds acc1 @ [r_id run]\<rparr>
         else acc1\<lparr>sr_failedRunIds := sr_failedRunIds acc1 @ [r_id run]\<rparr>)))))"

definition json_nullable :: "string option \<Rightarrow> json" where
  "json_nullable v = (case v of None \<Rightarrow> JNull | Some w \<Rightarrow> JStr w)"

definition blocked_task :: "string \<Rightarrow> recovery_input \<Rightarrow> task_row \<Rightarrow> task_row" where
  "blocked_task ts inp r = r\<lparr>t_status := TBlocked, t_claimed_by := None, t_claimed_at := None,
     t_latest_update := recovery_description inp @ '' Task requires recovery.'', t_updated_at := ts\<rparr>"

definition recover_task ::
  "string \<Rightarrow> recovery_input \<Rightarrow> task_row \<Rightarrow> stale_recovery_result \<Rightarrow> stale_recovery_result dbop" where
  "recover_task ts inp task acc =
     andThen (query (\<lambda>s. order_by (\<lambda>r. (r_created_at r, r_id r))
       (filter (\<lambda>r. r_task_id r = t_id task \<and> active_run r) (runs s)))) (\<lambda>activeRuns.
     andThen (foldEach activeRuns (recover_run ts inp (t_id task)) acc) (\<lambda>acc1.
     andThen (sql_update route_steps route_steps_update (\<lambda>r. s_task_id r = t_id task \<and> s_status r = SRunning)
       (\<lambda>r. r\<lparr>s_status := SFailed, s_updated_at := ts\<rparr>)) (\<lambda>_.
     andThen (sql_update tasks tasks_update (\<lambda>r. t_id r = t_id task \<and> t_status r = TRunning
         \<and> t_claimed_at r = t_claimed_at task \<and> t_claimed_by r = t_claimed_by task)
       (blocked_task ts inp)) (\<lambda>changes.
     andThen (require (changes = 1) (ChangedInRecovery (t_id task))) (\<lambda>_.
     andThen (insert_event (t_id task) None
       (if truthy (ri_claimedBy inp) \<noteq> None then ''task.dead_owner_recovered'' else ''task.stale_recovered'') LWarn
       (if truthy (ri_claimedBy inp) \<noteq> None
        then ''Task owned by a dead daemon was blocked and its active execution state was closed.''
        else ''Stale task was blocked and its active execution state was closed.'')
       (Some (JObj ((''claimedAt'', json_nullable (t_claimed_at task)) # (''claimedBy'', json_nullable (t_claimed_by task))
          # recovery_data inp))) ts) (\<lambda>_.
     ok (acc1\<lparr>sr_taskIds := sr_taskIds acc1 @ [t_id task]\<rparr>)))))))"

definition recoverRunningTasks :: "string \<Rightarrow> recovery_input \<Rightarrow> stale_recovery_result dbop" where
  "recoverRunningTasks ts inp =
     andThen (require (trim (ri_recoveredBy inp) \<noteq> []) (WorkerRequired ''task recovery'')) (\<lambda>_. atomically (
     andThen (query (\<lambda>s. order_by (\<lambda>r. (t_claimed_at r, t_id r)) (filter (stale_task inp) (tasks s)))) (\<lambda>staleTasks.
     foldEach staleTasks (recover_task ts inp) empty_recovery)))"

definition recoverStaleTasks ::
  "(string \<Rightarrow> string option) \<Rightarrow> string \<Rightarrow> string \<Rightarrow> string \<Rightarrow> stale_recovery_result dbop" where
  "recoverStaleTasks isoDate ts cutoffIso recoveredBy =
     andThen (orThrow (InvalidCutoff cutoffIso) (isoDate cutoffIso)) (\<lambda>cutoff.
     recoverRunningTasks ts \<lparr>ri_cutoff = Some cutoff, ri_claimedBy = None, ri_recoveredBy = recoveredBy\<rparr>)"

definition recoverTasksOwnedBy :: "string \<Rightarrow> string \<Rightarrow> string \<Rightarrow> stale_recovery_result dbop" where
  "recoverTasksOwnedBy ts claimedByInput recoveredBy =
     (let claimedBy = trim claimedByInput in
      andThen (require (claimedBy \<noteq> []) (WorkerRequired ''owner recovery'')) (\<lambda>_.
      recoverRunningTasks ts \<lparr>ri_cutoff = None, ri_claimedBy = Some claimedBy, ri_recoveredBy = recoveredBy\<rparr>))"

subsection \<open>The invariant and the moves\<close>

lemma close_run_fixed [simp]:
  "r_id (close_run ts st e r) = r_id r" "r_task_id (close_run ts st e r) = r_task_id r"
  "r_route_step_id (close_run ts st e r) = r_route_step_id r" "r_attempt (close_run ts st e r) = r_attempt r"
  "r_status (close_run ts st e r) = st" "run_fixed (close_run ts st e r) = run_fixed r"
  by (simp_all add: close_run_def run_fixed_def)

lemma blocked_task_fixed [simp]:
  "t_id (blocked_task ts inp r) = t_id r" "t_status (blocked_task ts inp r) = TBlocked"
  "task_fixed (blocked_task ts inp r) = task_fixed r" "task_claim_ok (blocked_task ts inp r)"
  by (simp_all add: blocked_task_def task_fixed_def task_claim_ok_def)

lemma db_wf_recovery [preserves_rules]:
  "preserves db_wf (recover_run ts inp i run acc)" "preserves db_wf (recover_task ts inp task acc)"
  "preserves db_wf (recoverRunningTasks ts inp)" "preserves db_wf (recoverStaleTasks isoDate ts c w)"
  "preserves db_wf (recoverTasksOwnedBy ts o' w)"
  unfolding recoverStaleTasks_def recoverTasksOwnedBy_def recoverRunningTasks_def recover_task_def recover_run_def Let_def
  by (intro preserves_rules; simp)+

context db_moves begin

lemma keeps_recover_run:
  assumes "(RStarting, RFailed) \<in> N" and "(RRunning, RStale) \<in> N" and "active_run run"
  shows "keeps (db_evolves M N) (recover_run ts inp i run acc)"
  unfolding recover_run_def Let_def
  by (intro keeps_statements) (use assms in \<open>auto simp: active_run_def closed_status_def\<close>)

lemma keeps_recover_task:
  assumes "(RStarting, RFailed) \<in> N" and "(RRunning, RStale) \<in> N" and "(TRunning, TBlocked) \<in> M"
  shows "keeps (db_evolves M N) (recover_task ts inp task acc)"
  unfolding recover_task_def
proof (rule keeps_query_andThen)
  fix s
  let ?runs = "order_by (\<lambda>r. (r_created_at r, r_id r)) (filter (\<lambda>r. r_task_id r = t_id task \<and> active_run r) (runs s))"
  have "keeps (db_evolves M N) (foldEach ?runs (recover_run ts inp (t_id task)) acc)"
    by (rule keeps_foldEach) (simp add: keeps_recover_run [OF assms(1,2)])
  moreover have "keeps (db_evolves M N) (sql_update tasks tasks_update (\<lambda>r. t_id r = t_id task \<and> t_status r = TRunning
         \<and> t_claimed_at r = t_claimed_at task \<and> t_claimed_by r = t_claimed_by task) (blocked_task ts inp))"
    using assms(3) by (intro keeps_update_tasks) simp
  ultimately show "keeps (db_evolves M N) (andThen (foldEach ?runs (recover_run ts inp (t_id task)) acc) (\<lambda>acc1.
     andThen (sql_update route_steps route_steps_update (\<lambda>r. s_task_id r = t_id task \<and> s_status r = SRunning)
       (\<lambda>r. r\<lparr>s_status := SFailed, s_updated_at := ts\<rparr>)) (\<lambda>_.
     andThen (sql_update tasks tasks_update (\<lambda>r. t_id r = t_id task \<and> t_status r = TRunning
         \<and> t_claimed_at r = t_claimed_at task \<and> t_claimed_by r = t_claimed_by task)
       (blocked_task ts inp)) (\<lambda>changes.
     andThen (require (changes = 1) (ChangedInRecovery (t_id task))) (\<lambda>_.
     andThen (insert_event (t_id task) None
       (if truthy (ri_claimedBy inp) \<noteq> None then ''task.dead_owner_recovered'' else ''task.stale_recovered'') LWarn
       (if truthy (ri_claimedBy inp) \<noteq> None
        then ''Task owned by a dead daemon was blocked and its active execution state was closed.''
        else ''Stale task was blocked and its active execution state was closed.'')
       (Some (JObj ((''claimedAt'', json_nullable (t_claimed_at task)) # (''claimedBy'', json_nullable (t_claimed_by task))
          # recovery_data inp))) ts) (\<lambda>_.
     ok (acc1\<lparr>sr_taskIds := sr_taskIds acc1 @ [t_id task]\<rparr>)))))))"
    by (intro keeps_andThen keeps_basic keeps_inserts keeps_update_steps) (simp_all add: step_fixed_def)
qed

lemma keeps_recovery:
  assumes "(RStarting, RFailed) \<in> N" and "(RRunning, RStale) \<in> N" and "(TRunning, TBlocked) \<in> M"
  shows "keeps (db_evolves M N) (recoverRunningTasks ts inp)"
    "keeps (db_evolves M N) (recoverStaleTasks isoDate ts c w)" "keeps (db_evolves M N) (recoverTasksOwnedBy ts o' w)"
  unfolding recoverStaleTasks_def recoverTasksOwnedBy_def recoverRunningTasks_def Let_def
  by (intro keeps_statements keeps_recover_task assms)+

end

subsection \<open>What recovery does\<close>

text \<open>
  The compare-and-swaps inside the transaction cannot fail: the rows are those the SELECT of the same
  transaction returned. So the loops amount to one bulk update of each table.
\<close>

definition closed_run :: "string \<Rightarrow> recovery_input \<Rightarrow> run_row \<Rightarrow> run_row" where
  "closed_run ts inp r = close_run ts (closed_status r) (run_error inp r) r"

lemma recover_run_run:
  assumes "db_wf s" and "r \<in> set (runs s)" and "r_task_id r = i"
  shows "\<exists>acc' evs n. recover_run ts inp i r acc s = (Inr acc', s\<lparr>runs := update_rows (\<lambda>q. r_id q = r_id r) (closed_run ts inp) (runs s),
      events := events s @ evs, event_seq := n\<rparr>) \<and> sr_taskIds acc' = sr_taskIds acc"
proof -
  note u = db_wfD [OF assms(1)]
  have f: "find (\<lambda>q. r_id q = r_id r) (runs s) = Some r" by (rule find_key_unique [OF u(3) assms(2)])
  have "has_task i s" "has_run (Some (r_id r)) s" using assms by (auto simp: db_wf_def refs_ok_def has_run_def)
  have rows: "update_rows (\<lambda>q. r_id q = r_id r) (close_run ts (closed_status r) (run_error inp r)) (runs s)
      = update_rows (\<lambda>q. r_id q = r_id r) (closed_run ts inp) (runs s)"
    using unique_key_inj [OF u(3) _ assms(2)] by (auto simp: update_rows_def closed_run_def)
  have upd: "runs_update (update_rows P f) s = s\<lparr>runs := update_rows P f (runs s)\<rparr>" for P f
    by (cases s) simp
  have ids: "has_run (Some (r_id r)) (s\<lparr>runs := update_rows (\<lambda>q. r_id q = r_id r) (closed_run ts inp) (runs s)\<rparr>)"
    using assms(2) by (auto simp: has_run_def closed_run_def key_image_update_rows)
  have tid: "sr_taskIds (note_candidates i r v acc) = sr_taskIds acc" for v
    by (auto simp: note_candidates_def Let_def split: option.splits agent_kind.splits)
  show ?thesis
    using f assms(3) \<open>has_task i s\<close> ids tid
    by (simp add: recover_run_def andThen_def query_def Let_def run_tbl.cas_update [OF u(3)] upd rows require_def
        insert_event_def event_constraints_def ok_def) ((intro conjI impI exI)?; rule refl)
qed

text \<open>The runs of one task: the rows still to close are untouched by the closings before them.\<close>

lemma recover_runs_run:
  assumes "db_wf s" and "set rs \<subseteq> set (runs s)" and "distinct (map r_id rs)" and "\<forall>r \<in> set rs. r_task_id r = i"
  shows "\<exists>acc' evs n. foldEach rs (recover_run ts inp i) acc s =
      (Inr acc', s\<lparr>runs := update_rows (\<lambda>q. r_id q \<in> r_id ` set rs) (closed_run ts inp) (runs s),
         events := events s @ evs, event_seq := n\<rparr>) \<and> sr_taskIds acc' = sr_taskIds acc"
  using assms
proof (induction rs arbitrary: s acc)
  case Nil
  have "update_rows (\<lambda>_. False) (closed_run ts inp) (runs s) = runs s" by (simp add: update_rows_def)
  then show ?case by (intro exI [of _ acc] exI [of _ "[]"] exI [of _ "event_seq s"]) (simp add: ok_def)
next
  case (Cons r rs)
  from Cons.prems have "r \<in> set (runs s)" "r_task_id r = i" by auto
  then obtain acc1 evs n where one: "recover_run ts inp i r acc s = (Inr acc1, s\<lparr>runs := update_rows (\<lambda>q. r_id q = r_id r) (closed_run ts inp) (runs s),
      events := events s @ evs, event_seq := n\<rparr>)" "sr_taskIds acc1 = sr_taskIds acc"
    using recover_run_run [OF Cons.prems(1)] by metis
  let ?s1 = "s\<lparr>runs := update_rows (\<lambda>q. r_id q = r_id r) (closed_run ts inp) (runs s), events := events s @ evs, event_seq := n\<rparr>"
  have wf: "db_wf ?s1" using preservesD [OF db_wf_recovery(1) Cons.prems(1) one(1)] .
  have "set rs \<subseteq> set (runs ?s1)"
  proof
    fix q assume "q \<in> set rs"
    with Cons.prems(2,3) have "q \<in> set (runs s)" "r_id q \<noteq> r_id r" by (auto simp: image_iff)
    then show "q \<in> set (runs ?s1)" by (auto simp: set_update_rows)
  qed
  with Cons.IH [OF wf, of acc1] Cons.prems obtain acc' evs' n' where rest: "foldEach rs (recover_run ts inp i) acc1 ?s1 =
      (Inr acc', ?s1\<lparr>runs := update_rows (\<lambda>q. r_id q \<in> r_id ` set rs) (closed_run ts inp) (runs ?s1),
         events := events ?s1 @ evs', event_seq := n'\<rparr>)" "sr_taskIds acc' = sr_taskIds acc1"
    by auto
  have "update_rows (\<lambda>q. r_id q \<in> r_id ` set rs) (closed_run ts inp) (update_rows (\<lambda>q. r_id q = r_id r) (closed_run ts inp) (runs s))
      = update_rows (\<lambda>q. r_id q \<in> r_id ` set (r # rs)) (closed_run ts inp) (runs s)"
    using Cons.prems(3) by (auto simp: update_rows_def closed_run_def)
  with one rest show ?case
    by (intro exI [of _ acc'] exI [of _ "evs @ evs'"] exI [of _ n']) (simp add: andThen_def)
qed

definition failed_step :: "string \<Rightarrow> step_row \<Rightarrow> step_row" where
  "failed_step ts r = r\<lparr>s_status := SFailed, s_updated_at := ts\<rparr>"

definition recovered :: "string \<Rightarrow> recovery_input \<Rightarrow> string set \<Rightarrow> event_row list \<Rightarrow> nat \<Rightarrow> db \<Rightarrow> db" where
  "recovered ts inp ids evs n s = s\<lparr>
     tasks := update_rows (\<lambda>r. t_id r \<in> ids) (blocked_task ts inp) (tasks s),
     route_steps := update_rows (\<lambda>r. s_task_id r \<in> ids \<and> s_status r = SRunning) (failed_step ts) (route_steps s),
     runs := update_rows (\<lambda>r. r_task_id r \<in> ids \<and> active_run r) (closed_run ts inp) (runs s),
     events := events s @ evs, event_seq := n\<rparr>"

lemma recover_task_run:
  assumes "db_wf s" and "task \<in> set (tasks s)" and "t_status task = TRunning"
  shows "\<exists>acc' evs n. recover_task ts inp task acc s = (Inr acc', recovered ts inp {t_id task} evs n s)
    \<and> sr_taskIds acc' = sr_taskIds acc @ [t_id task]"
proof -
  note u = db_wfD [OF assms(1)]
  let ?P = "\<lambda>r. r_task_id r = t_id task \<and> active_run r"
  let ?rs = "order_by (\<lambda>r. (r_created_at r, r_id r)) (filter ?P (runs s))"
  have "distinct (map r_id (filter ?P (runs s)))"
    using u(3) by (simp add: unique_key_def distinct_map_filter)
  then have dist: "distinct (map r_id ?rs)" by (simp add: order_by_def distinct_map)
  have sub: "set ?rs \<subseteq> set (runs s)" and own: "\<forall>r \<in> set ?rs. r_task_id r = t_id task" by auto
  from recover_runs_run [OF assms(1) sub dist own, of ts inp acc] obtain acc1 evs n where fold: "foldEach ?rs (recover_run ts inp (t_id task)) acc s =
      (Inr acc1, s\<lparr>runs := update_rows (\<lambda>q. r_id q \<in> r_id ` set ?rs) (closed_run ts inp) (runs s),
         events := events s @ evs, event_seq := n\<rparr>)" and tids: "sr_taskIds acc1 = sr_taskIds acc"
    by blast
  have rows: "update_rows (\<lambda>q. r_id q \<in> r_id ` set ?rs) f (runs s) = update_rows ?P f (runs s)" for f
    using unique_key_inj [OF u(3)] by (auto simp: update_rows_def)
  let ?s1 = "s\<lparr>runs := update_rows ?P (closed_run ts inp) (runs s), events := events s @ evs, event_seq := n\<rparr>"
  let ?s2 = "?s1\<lparr>route_steps := update_rows (\<lambda>r. s_task_id r = t_id task \<and> s_status r = SRunning) (failed_step ts) (route_steps s)\<rparr>"
  let ?s3 = "?s2\<lparr>tasks := update_rows (\<lambda>r. t_id r = t_id task) (blocked_task ts inp) (tasks s)\<rparr>"
  have steps: "sql_update route_steps route_steps_update (\<lambda>r. s_task_id r = t_id task \<and> s_status r = SRunning)
      (\<lambda>r. r\<lparr>s_status := SFailed, s_updated_at := ts\<rparr>) ?s1 =
      (Inr (length (filter (\<lambda>r. s_task_id r = t_id task \<and> s_status r = SRunning) (route_steps s))), ?s2)"
    by (simp add: sql_update_def record_updates failed_step_def [abs_def])
  have f: "find (\<lambda>r. t_id r = t_id task) (tasks ?s2) = Some task"
    using find_key_unique [OF u(1) assms(2)] by simp
  have u2: "unique_key t_id (tasks ?s2)" using u(1) by simp
  have cas: "sql_update tasks tasks_update (\<lambda>r. t_id r = t_id task \<and> t_status r = TRunning
         \<and> t_claimed_at r = t_claimed_at task \<and> t_claimed_by r = t_claimed_by task) (blocked_task ts inp) ?s2 = (Inr 1, ?s3)"
    unfolding task_tbl.cas_update [OF u2] f using assms(3) by (simp add: record_updates)
  have "has_task (t_id task) ?s3"
    using assms(2) key_image_update_rows [of "\<lambda>r. t_id r = t_id task" t_id "blocked_task ts inp" "tasks s"] by simp
  then have ev: "\<exists>m e k. insert_event (t_id task) None ty LWarn msg d ts ?s3 = (Inr m, ?s3\<lparr>events := events s @ evs @ [e], event_seq := k\<rparr>)" for ty msg d
    by (simp add: insert_event_def event_constraints_def has_run_def Let_def) ((rule exI)+, rule refl)
  have fin: "?s3\<lparr>events := events s @ evs @ [e], event_seq := k\<rparr> = recovered ts inp {t_id task} (evs @ [e]) k s" for e k
    by (simp add: recovered_def)
  from ev [of "if truthy (ri_claimedBy inp) \<noteq> None then ''task.dead_owner_recovered'' else ''task.stale_recovered''"
        "if truthy (ri_claimedBy inp) \<noteq> None
        then ''Task owned by a dead daemon was blocked and its active execution state was closed.''
        else ''Stale task was blocked and its active execution state was closed.''"
        "Some (JObj ((''claimedAt'', json_nullable (t_claimed_at task)) # (''claimedBy'', json_nullable (t_claimed_by task))
          # recovery_data inp))"]
  obtain m e k where c: "insert_event (t_id task) None
      (if truthy (ri_claimedBy inp) \<noteq> None then ''task.dead_owner_recovered'' else ''task.stale_recovered'') LWarn
      (if truthy (ri_claimedBy inp) \<noteq> None
       then ''Task owned by a dead daemon was blocked and its active execution state was closed.''
       else ''Stale task was blocked and its active execution state was closed.'')
      (Some (JObj ((''claimedAt'', json_nullable (t_claimed_at task)) # (''claimedBy'', json_nullable (t_claimed_by task))
          # recovery_data inp))) ts ?s3 = (Inr m, ?s3\<lparr>events := events s @ evs @ [e], event_seq := k\<rparr>)"
    by blast
  have go: "andThen (foldEach ?rs (recover_run ts inp (t_id task)) acc) f s = f acc1 ?s1"
    "andThen (sql_update route_steps route_steps_update (\<lambda>r. s_task_id r = t_id task \<and> s_status r = SRunning)
      (\<lambda>r. r\<lparr>s_status := SFailed, s_updated_at := ts\<rparr>)) g ?s1 =
      g (length (filter (\<lambda>r. s_task_id r = t_id task \<and> s_status r = SRunning) (route_steps s))) ?s2"
    "andThen (sql_update tasks tasks_update (\<lambda>r. t_id r = t_id task \<and> t_status r = TRunning
         \<and> t_claimed_at r = t_claimed_at task \<and> t_claimed_by r = t_claimed_by task) (blocked_task ts inp)) g ?s2 = g 1 ?s3"
    for f :: "stale_recovery_result \<Rightarrow> 'b dbop" and g :: "nat \<Rightarrow> 'b dbop"
    by (rule andThen_step, rule fold [unfolded rows]) (rule andThen_step, rule steps, rule andThen_step, rule cas)
  have go4: "andThen (insert_event (t_id task) None
      (if truthy (ri_claimedBy inp) \<noteq> None then ''task.dead_owner_recovered'' else ''task.stale_recovered'') LWarn
      (if truthy (ri_claimedBy inp) \<noteq> None
       then ''Task owned by a dead daemon was blocked and its active execution state was closed.''
       else ''Stale task was blocked and its active execution state was closed.'')
      (Some (JObj ((''claimedAt'', json_nullable (t_claimed_at task)) # (''claimedBy'', json_nullable (t_claimed_by task))
          # recovery_data inp))) ts) h ?s3 = h m (?s3\<lparr>events := events s @ evs @ [e], event_seq := k\<rparr>)"
    for h :: "nat \<Rightarrow> 'b dbop"
    by (rule andThen_step, rule c)
  have "recover_task ts inp task acc s = (Inr (acc1\<lparr>sr_taskIds := sr_taskIds acc1 @ [t_id task]\<rparr>),
      ?s3\<lparr>events := events s @ evs @ [e], event_seq := k\<rparr>)"
    unfolding recover_task_def andThen_query go(1) go(2) go(3) andThen_require [OF refl] go4 ok_def ..
  then show ?thesis unfolding fin using tids
    by (intro exI [of _ "acc1\<lparr>sr_taskIds := sr_taskIds acc1 @ [t_id task]\<rparr>"] exI [of _ "evs @ [e]"] exI [of _ k]) simp
qed

lemma recovered_trans:
  "recovered ts inp A evs n (recovered ts inp B evs' n' s) =
   (if A \<inter> B = {} then recovered ts inp (A \<union> B) (evs' @ evs) n s else recovered ts inp A evs n (recovered ts inp B evs' n' s))"
proof (cases "A \<inter> B = {}")
  case True
  have steps: "update_rows (\<lambda>r. s_task_id r \<in> A \<and> s_status r = SRunning) (failed_step ts)
      (update_rows (\<lambda>r. s_task_id r \<in> B \<and> s_status r = SRunning) (failed_step ts) (route_steps s))
    = update_rows (\<lambda>r. s_task_id r \<in> A \<union> B \<and> s_status r = SRunning) (failed_step ts) (route_steps s)"
    by (auto simp: update_rows_def failed_step_def)
  have tasks: "update_rows (\<lambda>r. t_id r \<in> A) (blocked_task ts inp) (update_rows (\<lambda>r. t_id r \<in> B) (blocked_task ts inp) (tasks s))
    = update_rows (\<lambda>r. t_id r \<in> A \<union> B) (blocked_task ts inp) (tasks s)"
    using True by (auto simp: update_rows_def)
  have runs: "update_rows (\<lambda>r. r_task_id r \<in> A \<and> active_run r) (closed_run ts inp)
      (update_rows (\<lambda>r. r_task_id r \<in> B \<and> active_run r) (closed_run ts inp) (runs s))
    = update_rows (\<lambda>r. r_task_id r \<in> A \<union> B \<and> active_run r) (closed_run ts inp) (runs s)"
    using True by (auto simp: update_rows_def closed_run_def)
  show ?thesis using True by (simp add: recovered_def steps tasks runs)
qed simp

lemma recover_tasks_run:
  assumes "db_wf s" and "set rs \<subseteq> set (tasks s)" and "distinct (map t_id rs)" and "\<forall>r \<in> set rs. t_status r = TRunning"
  shows "\<exists>acc' evs n. foldEach rs (recover_task ts inp) acc s = (Inr acc', recovered ts inp (t_id ` set rs) evs n s)
    \<and> sr_taskIds acc' = sr_taskIds acc @ map t_id rs"
  using assms
proof (induction rs arbitrary: s acc)
  case Nil
  have "recovered ts inp {} [] (event_seq s) s = s" by (simp add: recovered_def update_rows_def)
  then show ?case by (intro exI [of _ acc] exI [of _ "[]"] exI [of _ "event_seq s"]) (simp add: ok_def)
next
  case (Cons r rs)
  from Cons.prems have "r \<in> set (tasks s)" "t_status r = TRunning" by auto
  then obtain acc1 evs n where one: "recover_task ts inp r acc s = (Inr acc1, recovered ts inp {t_id r} evs n s)"
      "sr_taskIds acc1 = sr_taskIds acc @ [t_id r]"
    using recover_task_run [OF Cons.prems(1)] by metis
  let ?s1 = "recovered ts inp {t_id r} evs n s"
  have wf: "db_wf ?s1" using preservesD [OF db_wf_recovery(2) Cons.prems(1) one(1)] .
  have sub: "set rs \<subseteq> set (tasks ?s1)"
  proof
    fix q assume "q \<in> set rs"
    with Cons.prems(2,3) have "q \<in> set (tasks s)" "t_id q \<noteq> t_id r" by (auto simp: image_iff)
    then show "q \<in> set (tasks ?s1)" by (auto simp: recovered_def set_update_rows)
  qed
  from Cons.prems have "distinct (map t_id rs)" "\<forall>r \<in> set rs. t_status r = TRunning" by auto
  from Cons.IH [OF wf sub this, of acc1] obtain acc' evs' n' where rest:
      "foldEach rs (recover_task ts inp) acc1 ?s1 = (Inr acc', recovered ts inp (t_id ` set rs) evs' n' ?s1)"
      "sr_taskIds acc' = sr_taskIds acc1 @ map t_id rs"
    by blast
  have "t_id ` set rs \<inter> {t_id r} = {}" using Cons.prems(3) by auto
  then have "recovered ts inp (t_id ` set rs) evs' n' ?s1 = recovered ts inp (t_id ` set (r # rs)) (evs @ evs') n' s"
    by (simp add: recovered_trans)
  with one rest show ?case by (simp add: andThen_def) blast
qed

text \<open>
  C5 Recovery is complete, precise and cannot fail: with a named recoverer it succeeds on every
  well-formed database, returns the ids of exactly the running tasks that match (the dead owner's, or
  those whose heartbeat is older than the cutoff), blocks and unclaims those tasks, closes every starting
  or running run of theirs (a running one as stale, a starting one as failed), fails their running steps,
  appends events, and touches no other row.
\<close>
theorem recovery_closes_all:
  assumes "db_wf s" and "trim (ri_recoveredBy inp) \<noteq> []"
  shows "\<exists>res evs n. recoverRunningTasks ts inp s =
      (Inr res, recovered ts inp (t_id ` {r \<in> set (tasks s). stale_task inp r}) evs n s)
    \<and> set (sr_taskIds res) = t_id ` {r \<in> set (tasks s). stale_task inp r} \<and> distinct (sr_taskIds res)"
proof -
  let ?rs = "order_by (\<lambda>r. (t_claimed_at r, t_id r)) (filter (stale_task inp) (tasks s))"
  have "distinct (map t_id (filter (stale_task inp) (tasks s)))"
    using db_wfD(1) [OF assms(1)] by (simp add: unique_key_def distinct_map_filter)
  then have dist: "distinct (map t_id ?rs)" by (simp add: order_by_def distinct_map)
  have sub: "set ?rs \<subseteq> set (tasks s)" and run: "\<forall>r \<in> set ?rs. t_status r = TRunning" by (auto simp: stale_task_def)
  have ids: "t_id ` set ?rs = t_id ` {r \<in> set (tasks s). stale_task inp r}" by simp
  from recover_tasks_run [OF assms(1) sub dist run, of ts inp empty_recovery] obtain acc' evs n where
    r: "foldEach ?rs (recover_task ts inp) empty_recovery s = (Inr acc', recovered ts inp (t_id ` set ?rs) evs n s)"
      "sr_taskIds acc' = map t_id ?rs"
    by (auto simp: empty_recovery_def)
  then have "recoverRunningTasks ts inp s = (Inr acc', recovered ts inp (t_id ` set ?rs) evs n s)"
    using assms(2) by (simp add: recoverRunningTasks_def andThen_def require_def atomically_def query_def)
  with r(2) dist show ?thesis unfolding ids [symmetric] by (intro exI [of _ acc'] exI [of _ evs] exI [of _ n]) simp
qed

lemma distinct_single:
  assumes "set xs = {x}" and "distinct xs"
  shows "xs = [x]"
proof (cases xs)
  case (Cons y ys)
  with assms have "y = x" "set ys \<subseteq> {x}" "x \<notin> set ys" by auto
  then have "ys = []" by (cases ys) auto
  with Cons \<open>y = x\<close> show ?thesis by simp
qed (use assms in simp)

theorem recovery_closes_all_witness:
  "\<exists>res t. recoverTasksOwnedBy ''9'' ''w'' ''me'' sample_db = (Inr res, t) \<and> sr_taskIds res = [''a'']
    \<and> list_all (\<lambda>r. \<not> active_run r) (runs t) \<and> list_all (\<lambda>r. t_status r \<noteq> TRunning) (tasks t)"
proof -
  let ?i = "\<lparr>ri_cutoff = None, ri_claimedBy = Some ''w'', ri_recoveredBy = ''me''\<rparr>"
  have n: "trim (ri_recoveredBy ?i) \<noteq> []" "trim ''w'' = ''w''" by (simp_all add: trim_def js_space_def)
  have "t_id ` {r \<in> set (tasks sample_db). stale_task ?i r} = set (map t_id (filter (stale_task ?i) (tasks sample_db)))"
    by simp
  also have "\<dots> = {''a''}" by (simp add: sample_defs stale_task_def truthy_def)
  finally have ids: "t_id ` {r \<in> set (tasks sample_db). stale_task ?i r} = {''a''}" .
  from recovery_closes_all [OF sample_db_wf n(1), of "''9''"] obtain res evs k where
    r: "recoverRunningTasks ''9'' ?i sample_db = (Inr res, recovered ''9'' ?i {''a''} evs k sample_db)"
      "set (sr_taskIds res) = {''a''}" "distinct (sr_taskIds res)"
    unfolding ids by (elim exE conjE) (rule that)
  have "sr_taskIds res = [''a'']" using distinct_single [OF r(2,3)] .
  moreover have "\<forall>q \<in> set (runs sample_db). active_run q \<longrightarrow> r_task_id q = ''a''"
    "\<forall>q \<in> set (tasks sample_db). t_status q = TRunning \<longrightarrow> t_id q = ''a''"
    by (simp_all add: sample_defs active_run_def)
  then have "list_all (\<lambda>r. \<not> active_run r) (runs (recovered ''9'' ?i {''a''} evs k sample_db))"
    "list_all (\<lambda>r. t_status r \<noteq> TRunning) (tasks (recovered ''9'' ?i {''a''} evs k sample_db))"
    by (auto simp: list_all_iff recovered_def update_rows_def closed_run_def active_run_def closed_status_def)
  moreover
  have "recoverTasksOwnedBy ''9'' ''w'' ''me'' sample_db = recoverRunningTasks ''9'' ?i sample_db"
    by (simp add: recoverTasksOwnedBy_def n(2) andThen_require)
  ultimately show ?thesis unfolding r(1)
    by (intro exI [of _ res] exI [of _ "recovered ''9'' ?i {''a''} evs k sample_db"] conjI) assumption+
qed

end
