(* ===== verification/DbIdempotency.thy ===== *)
theory DbIdempotency
  imports DbRecovery
begin

text \<open>
  \<open>src/db.ts\<close>, idempotency keys: claim, complete and release of a key, the abstract state of a key (absent,
  claimed, completed) and the refinement of the three operations to moves of that state.
\<close>

subsection \<open>Operations\<close>

definition normalizeIdempotencyValue :: "string \<Rightarrow> string \<Rightarrow> db_error + string" where
  "normalizeIdempotencyValue value label =
     (let normalized = trim value in
      if normalized = [] then Inl (IdemValueRequired label)
      else if 512 < length normalized then Inl (IdemValueTooLong label) else Inr normalized)"

datatype idempotency_claim =
    ClaimNew string
  | ClaimPending string string
  | ClaimConflict
  | ClaimReplay int json string

text \<open>The INSERT with \<open>ON CONFLICT(key) DO NOTHING\<close>, and the changes it reports.\<close>

definition insert_idem_once :: "idem_row \<Rightarrow> nat dbop" where
  "insert_idem_once r s = (if k_key r \<in> k_key ` set (idempotency_keys s) then (Inr 0, s)
     else (Inr 1, s\<lparr>idempotency_keys := idempotency_keys s @ [r]\<rparr>))"

definition pending_row :: "string \<Rightarrow> string \<Rightarrow> string \<Rightarrow> idem_row" where
  "pending_row key requestHash ts = \<lparr>k_key = key, k_request_hash = requestHash, k_state = IPending,
     k_response_status = None, k_response_body = None, k_created_at = ts, k_updated_at = ts\<rparr>"

definition read_claim :: "string \<Rightarrow> string \<Rightarrow> idem_row \<Rightarrow> idempotency_claim dbop" where
  "read_claim key requestHash row =
     (if k_request_hash row \<noteq> requestHash then ok ClaimConflict
      else case k_state row of
        IPending \<Rightarrow> ok (ClaimPending (k_created_at row) (k_updated_at row))
      | ICompleted \<Rightarrow> (case (k_response_status row, k_response_body row) of
          (Some status, Some body) \<Rightarrow> ok (ClaimReplay status body (k_updated_at row))
        | _ \<Rightarrow> fail (IdemNoReplay key)))"

text \<open>
  The loop of two attempts. \<open>ts n\<close> is \<open>now()\<close> and \<open>other n\<close> what other processes commit between the
  INSERT and the SELECT of the attempt with \<open>n\<close> attempts left after it.
\<close>

primrec claim_attempts ::
  "nat \<Rightarrow> (nat \<Rightarrow> db \<Rightarrow> db) \<Rightarrow> (nat \<Rightarrow> string) \<Rightarrow> string \<Rightarrow> string \<Rightarrow> idempotency_claim dbop" where
  "claim_attempts 0 other ts key requestHash = fail (IdemDisappeared key)"
| "claim_attempts (Suc n) other ts key requestHash =
     andThen (insert_idem_once (pending_row key requestHash (ts n))) (\<lambda>changes.
     if changes = 1 then ok (ClaimNew (ts n))
     else
       andThen (update (other n)) (\<lambda>_.
       andThen (sql_get idempotency_keys (\<lambda>r. k_key r = key)) (\<lambda>row. case row of
         None \<Rightarrow> claim_attempts n other ts key requestHash
       | Some row \<Rightarrow> read_claim key requestHash row)))"

definition claimIdempotencyKey ::
  "(nat \<Rightarrow> db \<Rightarrow> db) \<Rightarrow> (nat \<Rightarrow> string) \<Rightarrow> string \<Rightarrow> string \<Rightarrow> idempotency_claim dbop" where
  "claimIdempotencyKey other ts keyInput requestHashInput =
     andThen (lift_res (normalizeIdempotencyValue keyInput ''Idempotency key'')) (\<lambda>key.
     andThen (lift_res (normalizeIdempotencyValue requestHashInput ''Request hash'')) (\<lambda>requestHash.
     claim_attempts 2 other ts key requestHash))"

definition completeIdempotencyKey ::
  "(db \<Rightarrow> db) \<Rightarrow> string \<Rightarrow> string \<Rightarrow> string \<Rightarrow> int \<Rightarrow> json option \<Rightarrow> idem_row dbop" where
  "completeIdempotencyKey other ts keyInput requestHashInput statusCode body =
     andThen (lift_res (normalizeIdempotencyValue keyInput ''Idempotency key'')) (\<lambda>key.
     andThen (lift_res (normalizeIdempotencyValue requestHashInput ''Request hash'')) (\<lambda>requestHash.
     andThen (require (is_safe_int statusCode \<and> 100 \<le> statusCode \<and> statusCode \<le> 599) BadResponseStatus) (\<lambda>_.
     let responseJson = (case body of None \<Rightarrow> JNull | Some v \<Rightarrow> v) in
     andThen (sql_update idempotency_keys idempotency_keys_update
       (\<lambda>r. k_key r = key \<and> k_request_hash r = requestHash \<and> k_state r = IPending)
       (\<lambda>r. r\<lparr>k_state := ICompleted, k_response_status := Some statusCode,
              k_response_body := Some responseJson, k_updated_at := ts\<rparr>)) (\<lambda>changes.
     andThen (update other) (\<lambda>_.
     andThen (sql_get idempotency_keys (\<lambda>r. k_key r = key)) (\<lambda>current.
     andThen (orThrow (IdemNotClaimed key) current) (\<lambda>current.
     andThen (require (k_request_hash current = requestHash) (IdemHashConflict key)) (\<lambda>_.
     andThen (require (k_state current = ICompleted \<and> k_response_status current = Some statusCode
         \<and> k_response_body current = Some responseJson)
       (if changes = 1 then IdemUnverified key else IdemDifferentResponse key)) (\<lambda>_.
     ok current)))))))))"

definition releaseIdempotencyKey :: "string \<Rightarrow> string \<Rightarrow> bool dbop" where
  "releaseIdempotencyKey keyInput requestHashInput =
     andThen (lift_res (normalizeIdempotencyValue keyInput ''Idempotency key'')) (\<lambda>key.
     andThen (lift_res (normalizeIdempotencyValue requestHashInput ''Request hash'')) (\<lambda>requestHash.
     andThen (sql_delete idempotency_keys idempotency_keys_update
       (\<lambda>r. k_key r = key \<and> k_request_hash r = requestHash \<and> k_state r = IPending)) (\<lambda>changes.
     ok (changes = 1))))"

subsection \<open>The invariant and the moves\<close>

lemma db_wf_insert_idem_once: "idem_check r \<Longrightarrow> preserves db_wf (insert_idem_once r)"
  unfolding preserves_def by (auto simp: insert_idem_once_def wf_parts)

lemma db_wf_delete_idem: "preserves db_wf (sql_delete idempotency_keys idempotency_keys_update P)"
  unfolding preserves_def by (auto simp: sql_delete_def wf_parts unique_key_def distinct_map_filter)

lemma db_wf_claim_attempts:
  assumes "\<And>n s. db_wf s \<Longrightarrow> db_wf (other n s)"
  shows "preserves db_wf (claim_attempts n other ts key h)"
proof (induction n)
  case (Suc n)
  have "preserves db_wf (read_claim key h row)" for row
    unfolding read_claim_def by (auto intro!: preserves_rules split: idem_state.splits option.splits)
  with Suc assms show ?case
    by (auto intro!: preserves_rules db_wf_insert_idem_once simp: pending_row_def idem_check_def)
qed (simp add: preserves_rules)

lemma preserves_require_andThen:
  "(b \<Longrightarrow> preserves I (f ())) \<Longrightarrow> preserves I (andThen (require b e) f)"
  by (simp add: preserves_def andThen_def require_def)

lemma db_wf_claim [preserves_rules]:
  "(\<And>n s. db_wf s \<Longrightarrow> db_wf (other n s)) \<Longrightarrow> preserves db_wf (claimIdempotencyKey other ts key h)"
  unfolding claimIdempotencyKey_def by (intro preserves_rules db_wf_claim_attempts)

lemma db_wf_complete [preserves_rules]:
  assumes "\<And>s. db_wf s \<Longrightarrow> db_wf (other s)"
  shows "preserves db_wf (completeIdempotencyKey other ts key h c b)"
proof -
  have upd: "preserves db_wf (sql_update idempotency_keys idempotency_keys_update
       (\<lambda>r. k_key r = key' \<and> k_request_hash r = h' \<and> k_state r = IPending)
       (\<lambda>r. r\<lparr>k_state := ICompleted, k_response_status := Some c, k_response_body := Some body, k_updated_at := ts\<rparr>))"
    if "is_safe_int c \<and> 100 \<le> c \<and> c \<le> 599" for key' h' body
    using that by (intro db_wf_update_idem) (auto simp: idem_check_def)
  show ?thesis
    unfolding completeIdempotencyKey_def Let_def
    by (intro preserves_andThen [OF preserves_basic(5)] preserves_require_andThen preserves_andThen [OF upd])
      (assumption, (intro preserves_rules assms, assumption?))
qed

lemma db_wf_release [preserves_rules]: "preserves db_wf (releaseIdempotencyKey key h)"
  unfolding releaseIdempotencyKey_def by (intro preserves_rules db_wf_delete_idem)

context db_moves begin

lemma keeps_claim_attempts:
  assumes "\<And>n s. db_evolves M N s (other n s)"
  shows "keeps (db_evolves M N) (claim_attempts n other ts key h)"
proof (induction n)
  case (Suc n)
  have "keeps (db_evolves M N) (read_claim key h row)" for row
    unfolding read_claim_def by (auto intro!: keeps_basic split: idem_state.splits option.splits)
  moreover have "keeps (db_evolves M N) (insert_idem_once r)" for r
    by (auto simp: keeps_def insert_idem_once_def db_evolves_def)
  ultimately show ?case using Suc assms by (auto intro!: keeps_statements)
qed (simp add: keeps_basic)

lemma keeps_idempotency:
  "(\<And>n s. db_evolves M N s (other' n s)) \<Longrightarrow> keeps (db_evolves M N) (claimIdempotencyKey other' ts' key h)"
  "(\<And>s. db_evolves M N s (other s)) \<Longrightarrow> keeps (db_evolves M N) (completeIdempotencyKey other ts key h c b)"
  "keeps (db_evolves M N) (releaseIdempotencyKey key h)"
  unfolding claimIdempotencyKey_def completeIdempotencyKey_def releaseIdempotencyKey_def Let_def
  by (intro keeps_statements keeps_claim_attempts; assumption)+

end

subsection \<open>The abstract state of a key\<close>

text \<open>
  What a key promises its callers: it is free, claimed for one request, or completed with the response
  every repetition of that request gets. The refinement lemmas say that on a well-formed database, with
  no other process in between, each operation makes exactly the specified move of its own key and leaves
  every other key's state alone.
\<close>

datatype key_state = Free | Claimed string | Completed string int json

fun row_state :: "idem_row option \<Rightarrow> key_state" where
  "row_state None = Free"
| "row_state (Some r) = (case (k_state r, k_response_status r, k_response_body r) of
     (ICompleted, Some c, Some b) \<Rightarrow> Completed (k_request_hash r) c b
   | _ \<Rightarrow> Claimed (k_request_hash r))"

definition key_state_of :: "db \<Rightarrow> string \<Rightarrow> key_state" where
  "key_state_of s key = row_state (find (\<lambda>r. k_key r = key) (idempotency_keys s))"

fun claim_spec :: "string \<Rightarrow> key_state \<Rightarrow> key_state" where
  "claim_spec h Free = Claimed h" | "claim_spec h st = st"

definition complete_spec :: "string \<Rightarrow> int \<Rightarrow> json \<Rightarrow> key_state \<Rightarrow> key_state" where
  "complete_spec h c b st = (if st = Claimed h then Completed h c b else st)"

definition release_spec :: "string \<Rightarrow> key_state \<Rightarrow> key_state" where
  "release_spec h st = (if st = Claimed h then Free else st)"

text \<open>Which answer a claim gives in which state; the times are those of the row.\<close>

fun claim_answers :: "string \<Rightarrow> key_state \<Rightarrow> idempotency_claim \<Rightarrow> bool" where
  "claim_answers h Free a = (\<exists>ts. a = ClaimNew ts)"
| "claim_answers h (Claimed h') a = (if h' = h then \<exists>c u. a = ClaimPending c u else a = ClaimConflict)"
| "claim_answers h (Completed h' st b) a = (if h' = h then \<exists>u. a = ClaimReplay st b u else a = ClaimConflict)"

lemma wf_idem_check: "db_wf s \<Longrightarrow> find (\<lambda>r. k_key r = key) (idempotency_keys s) = Some r \<Longrightarrow> idem_check r"
  by (auto simp: db_wf_def rows_ok_def dest: find_key_Some)

lemma key_state_cases:
  assumes "db_wf s"
  obtains (free) "key_state_of s key = Free" "find (\<lambda>r. k_key r = key) (idempotency_keys s) = None"
    "key \<notin> k_key ` set (idempotency_keys s)"
  | (claimed) r where "key_state_of s key = Claimed (k_request_hash r)" "k_state r = IPending"
    "find (\<lambda>r. k_key r = key) (idempotency_keys s) = Some r" "key \<in> k_key ` set (idempotency_keys s)"
  | (completed) r c b where "key_state_of s key = Completed (k_request_hash r) c b" "k_state r = ICompleted"
    "k_response_status r = Some c" "k_response_body r = Some b"
    "find (\<lambda>r. k_key r = key) (idempotency_keys s) = Some r" "key \<in> k_key ` set (idempotency_keys s)"
proof (cases "find (\<lambda>r. k_key r = key) (idempotency_keys s)")
  case None
  then show ?thesis using find_key_None [of k_key key "idempotency_keys s"] by (intro free) (simp_all add: key_state_of_def)
next
  case (Some r)
  then have "idem_check r" and "key \<in> k_key ` set (idempotency_keys s)"
    using wf_idem_check [OF assms] by (auto dest: find_key_Some)
  with Some show ?thesis
    by (cases "k_state r") (auto simp: key_state_of_def idem_check_def split: option.splits intro: claimed completed)
qed

subsection \<open>Refinement\<close>

lemma claim_attempt_run:
  assumes "db_wf s"
  shows "\<exists>a t. claim_attempts (Suc n) (\<lambda>_. id) ts key h s = (Inr a, t) \<and> claim_answers h (key_state_of s key) a
    \<and> (key_state_of s key \<noteq> Free \<longrightarrow> t = s)
    \<and> (\<forall>k. key_state_of t k = (if k = key then claim_spec h (key_state_of s k) else key_state_of s k))"
  using assms
proof (cases rule: key_state_cases [of s key])
  case free
  then show ?thesis
    by (auto simp: andThen_def insert_idem_once_def pending_row_def ok_def key_state_of_def find_snoc split: option.splits)
next
  case (claimed r)
  then show ?thesis
    by (auto simp: andThen_def insert_idem_once_def pending_row_def ok_def update_def sql_get_def read_claim_def)
next
  case (completed r c b)
  then show ?thesis
    by (auto simp: andThen_def insert_idem_once_def pending_row_def ok_def update_def sql_get_def read_claim_def)
qed

text \<open>
  C6 A claim elects one owner: on a valid key it always answers, \<open>new\<close> exactly when the key was free,
  and it then holds the key; a claimed key answers pending to the same request and conflict to another
  one, a completed key replays the very response it was completed with, and neither is changed. No other
  key moves.
\<close>
theorem claim_refines:
  assumes "db_wf s" and "normalizeIdempotencyValue keyInput ''Idempotency key'' = Inr key"
    and "normalizeIdempotencyValue hashInput ''Request hash'' = Inr h"
  shows "\<exists>a t. claimIdempotencyKey (\<lambda>_. id) ts keyInput hashInput s = (Inr a, t)
    \<and> claim_answers h (key_state_of s key) a \<and> (key_state_of s key \<noteq> Free \<longrightarrow> t = s)
    \<and> (\<forall>k. key_state_of t k = (if k = key then claim_spec h (key_state_of s k) else key_state_of s k))"
proof -
  have "claimIdempotencyKey (\<lambda>_. id) ts keyInput hashInput s = claim_attempts (Suc 1) (\<lambda>_. id) ts key h s"
    using assms(2,3) by (simp add: claimIdempotencyKey_def andThen_def lift_res_def numeral_2_eq_2)
  with claim_attempt_run [OF assms(1), of 1 ts key h] show ?thesis by simp
qed

lemma key_state_update:
  assumes "\<And>r. k_key (f r) = k_key r"
  shows "key_state_of (idempotency_keys_update (update_rows (\<lambda>r. k_key r = key) f) s) k =
    (if k = key then row_state (map_option f (find (\<lambda>r. k_key r = key) (idempotency_keys s))) else key_state_of s k)"
proof -
  have "find (\<lambda>r. k_key r = k) (update_rows (\<lambda>r. k_key r = key) f (idempotency_keys s)) =
      map_option (\<lambda>r. if k_key r = key then f r else r) (find (\<lambda>r. k_key r = k) (idempotency_keys s))"
    using assms by (simp add: find_update_rows)
  moreover have "map_option (\<lambda>r. if k_key r = key then f r else r) (find (\<lambda>r. k_key r = k) (idempotency_keys s)) =
      (if k = key then map_option f (find (\<lambda>r. k_key r = k) (idempotency_keys s)) else find (\<lambda>r. k_key r = k) (idempotency_keys s))"
    by (cases "find (\<lambda>r. k_key r = k) (idempotency_keys s)") (auto dest: find_key_Some)
  ultimately show ?thesis by (simp add: key_state_of_def)
qed

lemma find_delete:
  assumes "unique_key key rows"
  shows "find (\<lambda>r. key r = k) (filter (\<lambda>r. \<not> (key r = k0 \<and> Q r)) rows) =
    (case find (\<lambda>r. key r = k) rows of None \<Rightarrow> None | Some r \<Rightarrow> if k = k0 \<and> Q r then None else Some r)"
  using assms
proof (induction rows)
  case (Cons r rows)
  then have IH: "find (\<lambda>r. key r = k) (filter (\<lambda>r. \<not> (key r = k0 \<and> Q r)) rows) =
    (case find (\<lambda>r. key r = k) rows of None \<Rightarrow> None | Some r \<Rightarrow> if k = k0 \<and> Q r then None else Some r)"
    and new: "key r \<notin> key ` set rows" by (auto simp: unique_key_def)
  have "find (\<lambda>q. key q = key r) rows = None" using new by (simp add: find_key_None)
  with IH show ?case by auto
qed simp

lemma andThen_no_other: "andThen (update id) f = f ()"
  by (rule ext) (simp add: andThen_def update_def)

lemma complete_run:
  assumes "db_wf s" and "normalizeIdempotencyValue keyInput ''Idempotency key'' = Inr key"
    and "normalizeIdempotencyValue hashInput ''Request hash'' = Inr h"
    and "100 \<le> c" and "c \<le> 599" and "b = (case body of None \<Rightarrow> JNull | Some v \<Rightarrow> v)"
  shows "\<exists>r t. completeIdempotencyKey id ts keyInput hashInput c body s = (r, t)
      \<and> ((\<exists>row. r = Inr row) \<longleftrightarrow> key_state_of s key \<in> {Claimed h, Completed h c b})
      \<and> (\<forall>k. key_state_of t k = (if k = key then complete_spec h c b (key_state_of s k) else key_state_of s k))"
proof -
  note u = db_wfD(8) [OF assms(1)]
  let ?f = "\<lambda>r. r\<lparr>k_state := ICompleted, k_response_status := Some c, k_response_body := Some b, k_updated_at := ts\<rparr>"
  have safe: "is_safe_int c \<and> 100 \<le> c \<and> c \<le> 599" using assms(4,5) by (simp add: is_safe_int_def max_safe_int_def)
  let ?tail = "\<lambda>changes. andThen (sql_get idempotency_keys (\<lambda>r. k_key r = key)) (\<lambda>current.
     andThen (orThrow (IdemNotClaimed key) current) (\<lambda>current.
     andThen (require (k_request_hash current = h) (IdemHashConflict key)) (\<lambda>_.
     andThen (require (k_state current = ICompleted \<and> k_response_status current = Some c
         \<and> k_response_body current = Some b)
       (if changes = 1 then IdemUnverified key else IdemDifferentResponse key)) (\<lambda>_.
     ok current))))"
  have run: "completeIdempotencyKey id ts keyInput hashInput c body s =
    andThen (sql_update idempotency_keys idempotency_keys_update
       (\<lambda>r. k_key r = key \<and> k_request_hash r = h \<and> k_state r = IPending) ?f) ?tail s"
    using assms(2,3,6) safe by (simp add: completeIdempotencyKey_def andThen_no_other Let_def) (simp add: andThen_def lift_res_def require_def)
  from assms(1) show ?thesis
  proof (cases rule: key_state_cases [of s key])
    case free
    then show ?thesis unfolding run
      by (auto simp: andThen_def idem_tbl.cas_update [OF u] sql_get_def orThrow_def complete_spec_def)
  next
    case (claimed r)
    let ?t = "idempotency_keys_update (update_rows (\<lambda>r. k_key r = key) ?f) s"
    have st: "key_state_of ?t k = (if k = key then Completed (k_request_hash r) c b else key_state_of s k)" for k
      using claimed by (subst key_state_update) simp_all
    have "find (\<lambda>q. k_key q = key) (idempotency_keys ?t) = Some (?f r)"
      using claimed(3) find_update_rows [of "\<lambda>q. k_key q = key" k_key ?f key "idempotency_keys s"] by (auto dest: find_key_Some)
    with claimed st show ?thesis unfolding run
      by (cases "k_request_hash r = h")
        (auto simp: andThen_def idem_tbl.cas_update [OF u] sql_get_def orThrow_def require_def ok_def complete_spec_def)
  next
    case (completed r c' b')
    then show ?thesis unfolding run
      by (auto simp: andThen_def idem_tbl.cas_update [OF u] sql_get_def orThrow_def require_def ok_def complete_spec_def)
  qed
qed

text \<open>
  Completion stores the response exactly on the key's claim for this request; a repeated completion
  with the same response succeeds without a change, and any other is refused. No other key moves.
\<close>
theorem complete_refines:
  assumes "db_wf s" and "normalizeIdempotencyValue keyInput ''Idempotency key'' = Inr key"
    and "normalizeIdempotencyValue hashInput ''Request hash'' = Inr h"
    and "100 \<le> c" and "c \<le> 599" and "b = (case body of None \<Rightarrow> JNull | Some v \<Rightarrow> v)"
  shows "\<exists>r t. completeIdempotencyKey id ts keyInput hashInput c body s = (r, t)
      \<and> ((\<exists>row. r = Inr row) \<longleftrightarrow> key_state_of s key \<in> {Claimed h, Completed h c b})
      \<and> (\<forall>k. key_state_of t k = (if k = key then complete_spec h c b (key_state_of s k) else key_state_of s k))"
  using complete_run [OF assms] .

text \<open>
  A release frees exactly a claim for this request and says whether it did: a completed key, a claim
  of another request and every other key stay as they are.
\<close>
theorem release_refines:
  assumes "db_wf s" and "normalizeIdempotencyValue keyInput ''Idempotency key'' = Inr key"
    and "normalizeIdempotencyValue hashInput ''Request hash'' = Inr h"
  shows "\<exists>t. releaseIdempotencyKey keyInput hashInput s = (Inr (key_state_of s key = Claimed h), t)
      \<and> (\<forall>k. key_state_of t k = (if k = key then release_spec h (key_state_of s k) else key_state_of s k))"
proof -
  note u = db_wfD(8) [OF assms(1)]
  let ?Q = "\<lambda>r. k_request_hash r = h \<and> k_state r = IPending"
  let ?t = "idempotency_keys_update (filter (\<lambda>r. \<not> (k_key r = key \<and> ?Q r))) s"
  have n: "length (filter (\<lambda>r. k_key r = key \<and> ?Q r) (idempotency_keys s)) =
      (case find (\<lambda>r. k_key r = key) (idempotency_keys s) of None \<Rightarrow> 0 | Some r \<Rightarrow> if ?Q r then 1 else 0)"
    by (rule filter_key_length [OF u])
  have st: "key_state_of ?t k = row_state (case find (\<lambda>r. k_key r = k) (idempotency_keys s) of None \<Rightarrow> None
      | Some r \<Rightarrow> if k = key \<and> ?Q r then None else Some r)" for k
    using find_delete [OF u, of k key ?Q] by (simp add: key_state_of_def)
  have other: "key_state_of ?t k = key_state_of s k" if "k \<noteq> key" for k
    using that unfolding st by (simp add: key_state_of_def split: option.splits)
  have run: "releaseIdempotencyKey keyInput hashInput s =
      (Inr (length (filter (\<lambda>r. k_key r = key \<and> ?Q r) (idempotency_keys s)) = 1), ?t)"
    using assms(2,3) by (simp add: releaseIdempotencyKey_def andThen_def lift_res_def sql_delete_def ok_def)
  from assms(1) show ?thesis
  proof (cases rule: key_state_cases [of s key])
    case free
    then show ?thesis using other st [of key] by (auto simp: run n release_spec_def)
  next
    case (claimed r)
    then show ?thesis using other st [of key] by (auto simp: run n release_spec_def)
  next
    case (completed r c b)
    then show ?thesis using other st [of key] by (auto simp: run n release_spec_def)
  qed
qed

subsection \<open>Under interference\<close>

lemma claim_attempt_new:
  assumes "claim_attempts (Suc n) other ts key h s = (Inr (ClaimNew at), t)"
  shows "key_state_of s key = Free \<and> key_state_of t key = Claimed h
      \<and> t = s\<lparr>idempotency_keys := idempotency_keys s @ [pending_row key h at]\<rparr>
    \<or> claim_attempts n other ts key h (other n s) = (Inr (ClaimNew at), t)"
proof (cases "key \<in> k_key ` set (idempotency_keys s)")
  case True
  have read: "read_claim key h row u \<noteq> (Inr (ClaimNew at), t)" for row u
    by (auto simp: read_claim_def ok_def fail_def split: if_splits idem_state.splits option.splits)
  from True assms show ?thesis
    by (auto simp: andThen_def insert_idem_once_def pending_row_def update_def sql_get_def read split: option.splits)
next
  case False
  then have f: "find (\<lambda>r. k_key r = key) (idempotency_keys s) = None" by (simp add: find_key_None)
  from False assms have "at = ts n" "t = s\<lparr>idempotency_keys := idempotency_keys s @ [pending_row key h (ts n)]\<rparr>"
    by (auto simp: andThen_def insert_idem_once_def pending_row_def ok_def)
  with f show ?thesis by (simp add: key_state_of_def find_snoc pending_row_def)
qed

text \<open>
  Whatever other processes do between the INSERT and the SELECT of each attempt, a claim ends after at
  most two attempts, and \<open>new\<close> means ownership: the key was free right before this process's own INSERT
  put the pending row there.
\<close>
theorem claim_new_owns:
  assumes "normalizeIdempotencyValue keyInput ''Idempotency key'' = Inr key"
    and "normalizeIdempotencyValue hashInput ''Request hash'' = Inr h"
    and "claimIdempotencyKey other ts keyInput hashInput s = (Inr (ClaimNew at), t)"
  shows "\<exists>u \<in> {s, other 1 s}. key_state_of u key = Free \<and> key_state_of t key = Claimed h
    \<and> t = u\<lparr>idempotency_keys := idempotency_keys u @ [pending_row key h at]\<rparr>"
proof -
  have "claim_attempts (Suc (Suc 0)) other ts key h s = (Inr (ClaimNew at), t)"
    using assms by (simp add: claimIdempotencyKey_def andThen_def lift_res_def numeral_2_eq_2)
  from claim_attempt_new [OF this] show ?thesis
    using claim_attempt_new [of 0 other ts key h "other (Suc 0) s" at t] by (auto simp: fail_def)
qed

subsection \<open>On a sample key\<close>

lemma sample_key:
  "normalizeIdempotencyValue '' k '' ''Idempotency key'' = Inr ''k''"
  "normalizeIdempotencyValue ''h'' ''Request hash'' = Inr ''h''"
  by (simp_all add: normalizeIdempotencyValue_def trim_def js_space_def)

definition claimed_db :: db where
  "claimed_db = sample_db\<lparr>idempotency_keys := [pending_row ''k'' ''h'' ''1'']\<rparr>"

lemma claimed_db_wf: "db_wf claimed_db"
  using sample_db_wf by (simp add: claimed_db_def wf_parts pending_row_def idem_check_def unique_key_def)

lemma claimed_db_state: "key_state_of claimed_db ''k'' = Claimed ''h''" "key_state_of sample_db k = Free"
  by (simp_all add: key_state_of_def claimed_db_def pending_row_def sample_db_def)

theorem claim_refines_witness:
  "\<exists>a t. claimIdempotencyKey (\<lambda>_. id) (\<lambda>_. ''1'') '' k '' ''h'' sample_db = (Inr a, t) \<and> (\<exists>ts. a = ClaimNew ts)
     \<and> key_state_of t ''k'' = Claimed ''h''"
  using claim_refines [OF sample_db_wf sample_key, of "\<lambda>_. ''1''"] by (auto simp: claimed_db_state)

theorem complete_refines_witness:
  "\<exists>r t. completeIdempotencyKey id ''2'' '' k '' ''h'' 201 (Some (JNum 7)) claimed_db = (r, t) \<and> (\<exists>row. r = Inr row)
     \<and> key_state_of t ''k'' = Completed ''h'' 201 (JNum 7)"
  using complete_refines [OF claimed_db_wf sample_key, of 201 "JNum 7" "Some (JNum 7)" "''2''"]
  by (auto simp: claimed_db_state complete_spec_def)

theorem release_refines_witness:
  "\<exists>t. releaseIdempotencyKey '' k '' ''h'' claimed_db = (Inr True, t) \<and> key_state_of t ''k'' = Free"
  using release_refines [OF claimed_db_wf sample_key] by (auto simp: claimed_db_state release_spec_def)

text \<open>The witness: another process releases the key after the first attempt's INSERT found it taken.\<close>

theorem claim_new_owns_witness:
  "\<exists>t. claimIdempotencyKey (\<lambda>_ s. s\<lparr>idempotency_keys := []\<rparr>) (\<lambda>_. ''2'') '' k '' ''h'' claimed_db = (Inr (ClaimNew ''2''), t)
     \<and> key_state_of t ''k'' = Claimed ''h''"
proof -
  obtain t where r: "claimIdempotencyKey (\<lambda>_ s. s\<lparr>idempotency_keys := []\<rparr>) (\<lambda>_. ''2'') '' k '' ''h'' claimed_db = (Inr (ClaimNew ''2''), t)"
    using sample_key by (simp add: claimIdempotencyKey_def andThen_def lift_res_def numeral_2_eq_2 insert_idem_once_def
        update_def sql_get_def ok_def claimed_db_def pending_row_def)
  from claim_new_owns [OF sample_key r] r show ?thesis by blast
qed

end
