(* ===== verification/DbLifecycle.thy ===== *)
theory DbLifecycle
  imports DbIdempotency
begin

text \<open>
  \<open>src/db.ts\<close> as one state machine: every mutating method of \<open>ControlCenterDb\<close> is an operation, a run is
  any sequence of operations by any number of processes, where the operations outside a transaction may be
  interleaved with whole runs of the others at each gap between two of their statements.
\<close>

subsection \<open>The machine\<close>

text \<open>\<open>db_op other f\<close>: \<open>f\<close> is the effect of one call, \<open>other k\<close> what the others commit in its gap \<open>k\<close>.\<close>

inductive db_op :: "(nat \<Rightarrow> db \<Rightarrow> db) \<Rightarrow> (db \<Rightarrow> db) \<Rightarrow> bool" for other :: "nat \<Rightarrow> db \<Rightarrow> db" where
  op_createTask: "db_op other (\<lambda>s. snd (createTask uid ts input plan s))"
| op_claimNextTask: "db_op other (\<lambda>s. snd (claimNextTask ts w s))"
| op_heartbeatTask: "db_op other (\<lambda>s. snd (heartbeatTask ts i w s))"
| op_updateTaskStatus: "db_op other (\<lambda>s. snd (updateTaskStatus (other 0) ts i st u s))"
| op_updateRouteStep: "db_op other (\<lambda>s. snd (updateRouteStep (other 0) ts i sst run s))"
| op_resetRouteSteps: "db_op other (\<lambda>s. snd (resetRouteSteps ts i s))"
| op_createRun: "db_op other (\<lambda>s. snd (createRun (other 0) (other 1) uid ts cinput s))"
| op_updateRun: "db_op other (\<lambda>s. snd (updateRun (other 0) (other 1) ts i patch s))"
| op_appendEvent: "db_op other (\<lambda>s. snd (appendEvent (other 0) ts i run ty lvl msg data s))"
| op_addArtifact: "db_op other (\<lambda>s. snd (addArtifact (other 0) uid ainput s))"
| op_addMessage: "db_op other (\<lambda>s. snd (addMessage uid ts i run dir role body ds s))"
| op_updateMessageDelivery: "db_op other (\<lambda>s. snd (updateMessageDelivery i dst s))"
| op_createReview: "db_op other (\<lambda>s. snd (createReview uid ts i run rv s))"
| op_decideReview: "rst \<noteq> RevPending \<Longrightarrow> db_op other (\<lambda>s. snd (decideReview (other 0) ts i rst note s))"
| op_finalizeTaskExecution: "st \<in> {TDone, TNeedsReview} \<Longrightarrow>
    db_op other (\<lambda>s. snd (finalizeTaskExecution uid ts i st u run s))"
| op_approveTaskReview: "db_op other (\<lambda>s. snd (approveTaskReview ts i note ex s))"
| op_requestTaskRework: "db_op other (\<lambda>s. snd (requestTaskRework uid ts i note' ex s))"
| op_retryBlockedTask: "db_op other (\<lambda>s. snd (retryBlockedTask uid ts i note allow s))"
| op_recoverStaleTasks: "db_op other (\<lambda>s. snd (recoverStaleTasks isoDate ts cutoff w s))"
| op_recoverTasksOwnedBy: "db_op other (\<lambda>s. snd (recoverTasksOwnedBy ts owner w s))"
| op_claimIdempotencyKey: "db_op other (\<lambda>s. snd (claimIdempotencyKey other tss key h s))"
| op_completeIdempotencyKey: "db_op other (\<lambda>s. snd (completeIdempotencyKey (other 0) ts key h c b s))"
| op_releaseIdempotencyKey: "db_op other (\<lambda>s. snd (releaseIdempotencyKey key h s))"

text \<open>One operation alone, and the runs of any number of processes.\<close>

inductive db_step :: "db \<Rightarrow> db \<Rightarrow> bool" where
  step: "db_op (\<lambda>_. id) f \<Longrightarrow> db_step s (f s)"

inductive db_run :: "db \<Rightarrow> db \<Rightarrow> bool" where
  run_start: "db_run s s"
| run_op: "db_run s t \<Longrightarrow> (\<And>k u. db_run u (other k u)) \<Longrightarrow> db_op other f \<Longrightarrow> db_run s (f t)"

inductive_cases db_stepE: "db_step s t"

subsection \<open>The invariant\<close>

lemma preserves_snd: "preserves I m \<Longrightarrow> I s \<Longrightarrow> I (snd (m s))"
  by (simp add: preserves_def)

lemma db_op_wf:
  assumes "db_op other f" and "\<And>k u. db_wf u \<Longrightarrow> db_wf (other k u)"
  shows "db_wf s \<Longrightarrow> db_wf (f s)"
  using assms(1)
  by cases (auto intro!: preserves_snd [of db_wf] preserves_rules assms(2))

lemma db_run_wf: "db_run s t \<Longrightarrow> db_wf s \<Longrightarrow> db_wf t"
proof (induction rule: db_run.induct)
  case (run_op s t other f)
  then show ?case using db_op_wf by blast
qed

lemma empty_db_wf: "db_wf empty_db"
  by (simp add: wf_parts empty_db_def unique_key_def)

text \<open>
  C1 Every database the program can produce is well-formed: from the empty database, any interleaved run
  of operations keeps keys unique (a step's attempts and a run's evidence paths included), event ids
  increasing, every row's task, run and step present, no claim on a task that is not running, and every
  idempotency row either pending without a response or completed with a valid one.
\<close>
theorem reachable_db_wf:
  assumes "db_run empty_db s"
  shows "db_wf s"
  using assms empty_db_wf by (rule db_run_wf)

subsection \<open>Legal moves\<close>

definition task_edges :: "(task_status \<times> task_status) set" where
  "task_edges = {(a, b). b \<in> set (TASK_TRANSITIONS a)}"

definition run_edges :: "(run_status \<times> run_status) set" where
  "run_edges = {(a, b). b \<in> set (RUN_TRANSITIONS a)}"

lemma task_move_instance: "db_moves {(a, b). b = st \<and> a \<noteq> st \<and> task_step_ok a st} {}"
  by unfold_locales (auto simp: trans_def)

lemma run_move_instance: "db_moves {} {(a, b). Some b = p \<and> a \<noteq> b \<and> run_step_ok a b}"
  by unfold_locales (auto simp: trans_def)

lemma keeps_snd: "keeps R m \<Longrightarrow> R s (snd (m s))"
  by (simp add: keeps_def)

lemma single_moves:
  "keeps (db_evolves {} {}) m \<Longrightarrow> keeps (db_evolves task_edges run_edges) m"
  "keeps (db_evolves {(TQueued, TRunning)} {}) m \<Longrightarrow> keeps (db_evolves task_edges run_edges) m"
  "keeps (db_evolves {(TRunning, TDone), (TRunning, TNeedsReview)} {}) m \<Longrightarrow> keeps (db_evolves task_edges run_edges) m"
  "keeps (db_evolves {(TNeedsReview, TDone)} {}) m \<Longrightarrow> keeps (db_evolves task_edges run_edges) m"
  "keeps (db_evolves {(TNeedsReview, TQueued)} {}) m \<Longrightarrow> keeps (db_evolves task_edges run_edges) m"
  "keeps (db_evolves {(TBlocked, TQueued)} {}) m \<Longrightarrow> keeps (db_evolves task_edges run_edges) m"
  "keeps (db_evolves {(TRunning, TBlocked)} {(RRunning, RStale), (RStarting, RFailed)}) m \<Longrightarrow>
     keeps (db_evolves task_edges run_edges) m"
  "keeps (db_evolves {(a, b). b = st \<and> a \<noteq> st \<and> task_step_ok a st} {}) m \<Longrightarrow> keeps (db_evolves task_edges run_edges) m"
  "keeps (db_evolves {} {(a, b). Some b = p \<and> a \<noteq> b \<and> run_step_ok a b}) m \<Longrightarrow> keeps (db_evolves task_edges run_edges) m"
  by (erule keeps_mono; auto simp: task_edges_def run_edges_def task_step_ok_iff run_step_ok_iff)+

lemma db_op_single:
  assumes "db_op (\<lambda>_. id) f"
  shows "db_evolves task_edges run_edges s (f s)"
  using assms
proof cases
  case (op_createTask uid ts input plan)
  then show ?thesis using keeps_snd [OF single_moves(1) [OF no_move.keeps_createTask]] by simp
next
  case (op_claimNextTask ts w)
  then show ?thesis using keeps_snd [OF single_moves(2) [OF claim_move.keeps_claimNextTask]] by simp
next
  case (op_heartbeatTask ts i w)
  then show ?thesis using keeps_snd [OF single_moves(1) [OF no_move.keeps_heartbeatTask]] by simp
next
  case (op_updateTaskStatus ts i st u)
  then show ?thesis
    using keeps_snd [OF single_moves(8) [OF db_moves.keeps_updateTaskStatus [where other = id and st = st, OF task_move_instance]]]
      db_moves.db_evolves_refl [OF task_move_instance] by auto
next
  case (op_updateRouteStep ts i sst run)
  then show ?thesis
    using keeps_snd [OF single_moves(1) [OF no_move.keeps_updateRouteStep [where other = id]]] no_move.db_evolves_refl by simp
next
  case (op_resetRouteSteps ts i)
  then show ?thesis using keeps_snd [OF single_moves(1) [OF no_move.keeps_resetRouteSteps]] by simp
next
  case (op_createRun uid ts cinput)
  then show ?thesis
    using keeps_snd [OF single_moves(1) [OF no_move.keeps_createRun [where other = id and other' = id]]] no_move.db_evolves_refl by simp
next
  case (op_updateRun ts i patch)
  then show ?thesis
    using keeps_snd [OF single_moves(9) [OF db_moves.keeps_updateRun [where other = id and other' = id and patch = patch, OF run_move_instance [where p = "up_status patch"]]]]
      db_moves.db_evolves_refl [OF run_move_instance] by auto
next
  case (op_appendEvent ts i run ty lvl msg data)
  then show ?thesis
    using keeps_snd [OF single_moves(1) [OF no_move.keeps_appendEvent [where other = id]]] no_move.db_evolves_refl by simp
next
  case (op_addArtifact uid ainput)
  then show ?thesis
    using keeps_snd [OF single_moves(1) [OF no_move.keeps_addArtifact [where other = id]]] no_move.db_evolves_refl by simp
next
  case (op_addMessage uid ts i run dir role body ds)
  then show ?thesis using keeps_snd [OF single_moves(1) [OF no_move.keeps_messages(1)]] by simp
next
  case (op_updateMessageDelivery i dst)
  then show ?thesis using keeps_snd [OF single_moves(1) [OF no_move.keeps_messages(2)]] by simp
next
  case (op_createReview uid ts i run rv)
  then show ?thesis using keeps_snd [OF single_moves(1) [OF no_move.keeps_reviews(1)]] by simp
next
  case (op_decideReview rst ts i nt)
  then show ?thesis
    using keeps_snd [OF single_moves(1) [OF no_move.keeps_reviews(2) [where rst = rst and other = id]]] no_move.db_evolves_refl by simp
next
  case (op_finalizeTaskExecution st uid ts i u run)
  then show ?thesis using keeps_snd [OF single_moves(3) [OF finish_move.keeps_reviews(3) [of st]]] by auto
next
  case (op_approveTaskReview ts i nt ex)
  then show ?thesis using keeps_snd [OF single_moves(4) [OF approve_move.keeps_reviews(4)]] by simp
next
  case (op_requestTaskRework uid ts i nt' ex)
  then show ?thesis using keeps_snd [OF single_moves(5) [OF rework_move.keeps_reviews(5)]] by simp
next
  case (op_retryBlockedTask uid ts i nt allow)
  then show ?thesis using keeps_snd [OF single_moves(6) [OF retry_move.keeps_reviews(6)]] by simp
next
  case (op_recoverStaleTasks isoDate ts cutoff w)
  then show ?thesis using keeps_snd [OF single_moves(7) [OF recovery_move.keeps_recovery(2)]] by simp
next
  case (op_recoverTasksOwnedBy ts owner w)
  then show ?thesis using keeps_snd [OF single_moves(7) [OF recovery_move.keeps_recovery(3)]] by simp
next
  case (op_claimIdempotencyKey tss key h)
  then show ?thesis
    using keeps_snd [OF single_moves(1) [OF no_move.keeps_idempotency(1) [where other' = "\<lambda>_. id"]]] no_move.db_evolves_refl by simp
next
  case (op_completeIdempotencyKey ts key h c b)
  then show ?thesis
    using keeps_snd [OF single_moves(1) [OF no_move.keeps_idempotency(2) [where other = id]]] no_move.db_evolves_refl by simp
next
  case (op_releaseIdempotencyKey key h)
  then show ?thesis using keeps_snd [OF single_moves(1) [OF no_move.keeps_idempotency(3)]] by simp
qed

text \<open>
  C2 One operation, one edge: whatever operation runs and whether it returns or throws, every task and
  every run keeps its status or moves along one edge of the protocol's transition tables, the identity of
  every row (a task's goal and route steps, a run's step and attempt, a review's task) stays, rows are only
  appended, and a decided review stays decided.
\<close>
theorem db_step_legal:
  assumes "db_step s t"
  shows "db_evolves task_edges run_edges s t"
  using assms by (elim db_stepE) (simp add: db_op_single)

subsection \<open>Histories\<close>

interpretation any_moves: db_moves "task_edges\<^sup>+" "run_edges\<^sup>+"
  by unfold_locales (simp_all add: trans_trancl)

lemma edge_in_trancl:
  "task_step_ok a b \<Longrightarrow> a \<noteq> b \<Longrightarrow> (a, b) \<in> task_edges\<^sup>+" "run_step_ok c d \<Longrightarrow> c \<noteq> d \<Longrightarrow> (c, d) \<in> run_edges\<^sup>+"
  by (auto simp: task_step_ok_iff run_step_ok_iff task_edges_def run_edges_def)

lemma protocol_edges:
  "(TQueued, TRunning) \<in> task_edges\<^sup>+" "(TRunning, TDone) \<in> task_edges\<^sup>+" "(TRunning, TNeedsReview) \<in> task_edges\<^sup>+"
  "(TNeedsReview, TDone) \<in> task_edges\<^sup>+" "(TNeedsReview, TQueued) \<in> task_edges\<^sup>+" "(TBlocked, TQueued) \<in> task_edges\<^sup>+"
  "(TRunning, TBlocked) \<in> task_edges\<^sup>+" "(RStarting, RFailed) \<in> run_edges\<^sup>+" "(RRunning, RStale) \<in> run_edges\<^sup>+"
  by (rule r_into_trancl, simp add: task_edges_def run_edges_def)+

lemmas any_moves_keep = any_moves.keeps_createTask any_moves.keeps_claimNextTask any_moves.keeps_heartbeatTask
  any_moves.keeps_updateTaskStatus any_moves.keeps_updateRouteStep any_moves.keeps_resetRouteSteps
  any_moves.keeps_createRun any_moves.keeps_updateRun any_moves.keeps_appendEvent any_moves.keeps_addArtifact
  any_moves.keeps_messages any_moves.keeps_reviews any_moves.keeps_recovery any_moves.keeps_idempotency

lemma db_op_evolves:
  assumes "db_op other f" and "\<And>k u. db_evolves (task_edges\<^sup>+) (run_edges\<^sup>+) u (other k u)"
  shows "db_evolves (task_edges\<^sup>+) (run_edges\<^sup>+) s (f s)"
  using assms(1)
  by cases (auto intro!: keeps_snd [of "db_evolves (task_edges\<^sup>+) (run_edges\<^sup>+)"] any_moves_keep assms(2)
      protocol_edges edge_in_trancl simp: task_step_ok_iff)

lemma db_run_evolves: "db_run s t \<Longrightarrow> db_evolves (task_edges\<^sup>+) (run_edges\<^sup>+) s t"
proof (induction rule: db_run.induct)
  case (run_start s)
  show ?case by (rule any_moves.db_evolves_refl)
next
  case (run_op s t other f)
  then show ?case using db_op_evolves any_moves.db_evolves_trans by blast
qed

lemma no_edge_from_succeeded: "(RSucceeded, b) \<notin> run_edges\<^sup>+"
  by (auto dest!: tranclD simp: run_edges_def)

lemma moved_by_there:
  assumes "moved_by M key st xs ys" and "x \<in> set xs"
  shows "\<exists>y \<in> set ys. key y = key x"
proof -
  from assms(2) obtain i where i: "i < length xs" "xs ! i = x" by (auto simp: in_set_conv_nth)
  with assms(1) have "i < length ys" "key (ys ! i) = key x" by (auto simp: moved_by_def)
  then show ?thesis using nth_mem by blast
qed

lemma moved_by_stays:
  assumes "moved_by M key st xs ys" and "x \<in> set xs" and "\<And>b. (st x, b) \<notin> M"
  shows "\<exists>y \<in> set ys. key y = key x \<and> st y = st x"
proof -
  from assms(2) obtain i where i: "i < length xs" "xs ! i = x" by (auto simp: in_set_conv_nth)
  with assms(1,3) have "i < length ys" "key (ys ! i) = key x" "st (ys ! i) = st x" by (auto simp: moved_by_def)
  then show ?thesis using nth_mem by blast
qed


subsection \<open>A run of the machine\<close>

lemma sample_run: "db_run sample_db (snd (claimNextTask ''9'' ''w2'' sample_db))"
  using run_op [OF run_start _ op_claimNextTask [where other = "\<lambda>_. id"]] by (simp add: run_start)

theorem reachable_db_wf_witness:
  "db_wf (snd (createTask ''u'' ''1'' sample_payload sample_plan empty_db))"
proof -
  have "db_run empty_db (snd (createTask ''u'' ''1'' sample_payload sample_plan empty_db))"
    using run_op [OF run_start _ op_createTask [where other = "\<lambda>_. id"]] by (simp add: run_start)
  then show ?thesis by (rule reachable_db_wf)
qed

theorem db_step_legal_witness:
  "db_evolves task_edges run_edges sample_db (snd (claimNextTask ''9'' ''w2'' sample_db))"
  by (intro db_step_legal db_step.step op_claimNextTask)


end
