(* ===== verification/Router.thy ===== *)
theory Router
  imports Protocol
begin

text \<open>
  \<open>src/router.ts\<close>: the keyword patterns and \<open>routeTask\<close>.

  The patterns are regular expressions without repetition, so a small syntax with a matcher that
  returns every way to match a prefix is enough: \<open>rx_ends r (p, s)\<close> are the positions at which a
  match of \<open>r\<close> that starts before \<open>s\<close>, after the character \<open>p\<close>, can end. Matching ignores the
  case of ASCII letters (flag \<open>i\<close>); \<open>WB\<close> is \<open>\b\<close>.
\<close>

subsection \<open>Patterns\<close>

datatype rx = Lit string | Cls string | WB | Cat rx rx | Alt rx rx | Opt rx

type_synonym rx_pos = "char option \<times> string"

definition fold_case :: "char \<Rightarrow> char" where
  "fold_case c = (let n = (of_char c :: nat) in if 65 \<le> n \<and> n \<le> 90 then char_of (n + 32) else c)"

definition word_char :: "char option \<Rightarrow> bool" where
  "word_char c = (case c of None \<Rightarrow> False | Some x \<Rightarrow> alnum x \<or> x = CHR ''_'')"

fun next_char :: "string \<Rightarrow> char option" where
  "next_char [] = None" | "next_char (c # cs) = Some c"

fun lit_ends :: "string \<Rightarrow> rx_pos \<Rightarrow> rx_pos list" where
  "lit_ends [] pos = [pos]"
| "lit_ends (c # cs) (p, []) = []"
| "lit_ends (c # cs) (p, x # xs) = (if fold_case x = fold_case c then lit_ends cs (Some x, xs) else [])"

fun rx_ends :: "rx \<Rightarrow> rx_pos \<Rightarrow> rx_pos list" where
  "rx_ends (Lit w) pos = lit_ends w pos"
| "rx_ends (Cls cs) (p, s) = (case s of [] \<Rightarrow> []
     | x # xs \<Rightarrow> if fold_case x \<in> fold_case ` set cs then [(Some x, xs)] else [])"
| "rx_ends WB (p, s) = (if word_char p \<noteq> word_char (next_char s) then [(p, s)] else [])"
| "rx_ends (Cat a b) pos = concat (map (rx_ends b) (rx_ends a pos))"
| "rx_ends (Alt a b) pos = rx_ends a pos @ rx_ends b pos"
| "rx_ends (Opt a) pos = rx_ends a pos @ [pos]"

text \<open>\<open>RegExp.test\<close>: some position of the text starts a match.\<close>

fun rx_test_from :: "rx \<Rightarrow> char option \<Rightarrow> string \<Rightarrow> bool" where
  "rx_test_from r p s = (rx_ends r (p, s) \<noteq> [] \<or> (case s of [] \<Rightarrow> False | x # xs \<Rightarrow> rx_test_from r (Some x) xs))"

declare rx_test_from.simps [simp del]

definition rx_test :: "rx \<Rightarrow> string \<Rightarrow> bool" where
  "rx_test r s = rx_test_from r None s"

fun alts :: "rx list \<Rightarrow> rx" where
  "alts [] = Cls []"
| "alts [r] = r"
| "alts (r # q # rs) = Alt r (alts (q # rs))"

definition bounded :: "rx list \<Rightarrow> rx" where
  "bounded rs = Cat WB (Cat (alts rs) WB)"

definition RISKY :: rx where
  "RISKY = bounded [Cat (Lit ''prod'') (Opt (Lit ''uction'')), Lit ''deploy'', Lit ''migration'',
     Lit ''database'', Lit ''schema'', Lit ''auth'', Lit ''security'', Lit ''permission'', Lit ''payment'',
     Lit ''billing'', Lit ''delete'', Lit ''destructive'', Lit ''secret'', Lit ''credential'',
     Lit ''infrastructure'']"

definition ARCHITECTURE :: rx where
  "ARCHITECTURE = bounded [Cat (Lit ''architect'') (Opt (Lit ''ure'')), Lit ''design'', Lit ''review'',
     Lit ''audit'', Cat (Lit ''analy'') (Cat (Cls ''sz'') (Lit ''e'')), Lit ''plan'',
     Cat (Lit ''trade'') (Cat (Opt (Lit ''-'')) (Lit ''off'')), Lit ''spec'', Lit ''proposal'']"

definition EXTERNAL :: rx where
  "EXTERNAL = bounded [Lit ''discord'', Lit ''telegram'', Lit ''slack'', Lit ''email'', Lit ''calendar'',
     Lit ''cron'', Lit ''macos'', Lit ''desktop'', Lit ''browser automation'', Lit ''external system'',
     Lit ''openclaw'']"

definition CODING :: rx where
  "CODING = bounded [Lit ''code'', Lit ''implement'', Lit ''fix'', Lit ''bug'', Lit ''refactor'', Lit ''test'',
     Lit ''build'', Lit ''typescript'', Lit ''javascript'', Lit ''python'', Lit ''api'', Lit ''cli'',
     Lit ''repo'', Lit ''commit'', Lit ''pull request'', Lit ''pr'', Lit ''schema'', Lit ''migration'',
     Lit ''migrate'', Lit ''deploy'']"

definition CHANGE_INTENT :: rx where
  "CHANGE_INTENT = bounded [Lit ''implement'', Lit ''fix'', Lit ''refactor'', Lit ''write'', Lit ''add'',
     Lit ''build'', Lit ''change'', Lit ''modify'', Lit ''migrate'', Lit ''deploy'', Lit ''remove'', Lit ''delete'']"

definition PLANNER_FIRST :: rx where
  "PLANNER_FIRST = bounded [Cat (Lit ''planner'') (Cat (Opt (Cls ''- '')) (Lit ''first'')),
     Cat (Lit ''claude '') (Cat (Opt (Lit ''as '')) (alts [Lit ''planner'', Lit ''brain'', Lit ''assigner''])),
     Cat (Lit ''assign '') (alts [Lit ''work'', Cat (Lit ''task'') (Opt (Lit ''s''))]),
     Cat (Lit ''delegate'') (Cat (Opt (alts [Lit ''s'', Lit ''d'']))
       (Cat (Lit '' '') (alts [Lit ''work'', Cat (Lit ''task'') (Opt (Lit ''s''))]))),
     Lit ''codex and openclaw execute'']"

subsection \<open>Routing\<close>

text \<open>\<open>uid\<close> is the supply of \<open>randomUUID()\<close> values, one per step made.\<close>

definition step_at :: "string \<Rightarrow> int \<Rightarrow> agent_kind \<Rightarrow> route_role \<Rightarrow> string \<Rightarrow> bool \<Rightarrow> route_step" where
  "step_at u sequence agent role reason req =
     \<lparr>st_id = ''step_'' @ u, st_sequence = sequence, st_agent = agent, st_role = role,
      st_required = req, st_reason = reason\<rparr>"

definition task_text :: "task_payload \<Rightarrow> string" where
  "task_text t = p_goal t @ newline @ (case p_context t of None \<Rightarrow> [] | Some c \<Rightarrow> c) @ newline
     @ join newline (p_successCriteria t)"

definition task_risky :: "task_payload \<Rightarrow> bool" where
  "task_risky t \<longleftrightarrow> rx_test RISKY (task_text t) \<or> p_priority t = PUrgent"

definition risk_of :: "bool \<Rightarrow> risk_level" where
  "risk_of risky = (if risky then RiskHigh else RiskNormal)"

definition routeTask :: "(nat \<Rightarrow> string) \<Rightarrow> task_payload \<Rightarrow> route_plan" where
  "routeTask uid task = (let text = task_text task; risky = task_risky task in
     if p_agent task = SelParallel then
       \<lparr>rp_mode = Parallel, rp_risk = risk_of risky,
        rp_reasons = [''The requester explicitly selected a parallel Codex + Claude run.''],
        rp_steps =
          [step_at (uid 0) 0 Codex Execute ''Codex produces an implementation candidate.'' True,
           step_at (uid 1) 0 Claude Execute ''Claude produces an independent candidate.'' True]\<rparr>
     else if p_agent task = SelAuto \<and> rx_test PLANNER_FIRST text then
       \<lparr>rp_mode = Sequential, rp_risk = risk_of risky,
        rp_reasons = [''The requester asked for a planner-first delegation flow: Claude plans first, then Codex and OpenClaw execute from that plan.''],
        rp_steps =
          [step_at (uid 0) 0 Claude Review ''Claude acts as the planner: decompose the goal, assign responsibilities, and define success checks.'' True,
           step_at (uid 1) 1 Codex Execute ''Codex implements the repository-scoped work from Claude's plan in an isolated worktree.'' True,
           step_at (uid 2) 2 Openclaw Execute ''OpenClaw executes the external coordination, workflow explanation, and handoff work from Claude's plan.'' True]\<rparr>
     else if risky \<and> rx_test CODING text \<and> rx_test CHANGE_INTENT text
             \<and> (p_agent task = SelAuto \<or> p_agent task = SelCodex) then
       \<lparr>rp_mode = Sequential, rp_risk = RiskHigh,
        rp_reasons = ''Risk-sensitive coding work requires implementation, independent review, and a human-facing approval handoff.''
          # (if p_agent task = SelCodex
             then [''The explicit Codex assignment is preserved as the implementation step.''] else []),
        rp_steps =
          [step_at (uid 0) 0 Codex Execute ''Codex implements the change in an isolated worktree.'' True,
           step_at (uid 1) 1 Claude Review ''Claude independently reviews the implementation and evidence.'' True,
           step_at (uid 2) 2 Openclaw Approval ''OpenClaw summarizes the evidence and requests approve/rework.'' False]\<rparr>
     else
       (let single = (\<lambda>reason agent role why. \<lparr>rp_mode = Single, rp_risk = risk_of risky,
              rp_reasons = [reason], rp_steps = [step_at (uid 0) 0 agent role why True]\<rparr>)
        in case p_agent task of
          SelCodex \<Rightarrow> single ''The requester explicitly selected codex.'' Codex Execute ''Explicit agent assignment.''
        | SelClaude \<Rightarrow> single ''The requester explicitly selected claude.'' Claude Execute ''Explicit agent assignment.''
        | SelOpenclaw \<Rightarrow> single ''The requester explicitly selected openclaw.'' Openclaw Execute ''Explicit agent assignment.''
        | _ \<Rightarrow>
          if rx_test EXTERNAL text then
            single ''The task targets chat, automation, desktop, or another external system.''
              Openclaw Execute ''OpenClaw owns external-system work.''
          else if rx_test ARCHITECTURE text \<and> \<not> rx_test CHANGE_INTENT text then
            single ''The task is primarily architecture, analysis, or review.''
              Claude Review ''Claude owns non-destructive analysis and review work.''
          else
            single ''The task is repository-scoped implementation work.''
              Codex Execute ''Codex owns coding implementation.''))"

subsection \<open>Properties\<close>

text \<open>The shapes a plan can have, the case analysis the properties below share.\<close>

lemma step_at_simps [simp]:
  "st_id (step_at u n a r w b) = ''step_'' @ u" "st_sequence (step_at u n a r w b) = n"
  "st_agent (step_at u n a r w b) = a" "st_role (step_at u n a r w b) = r"
  "st_required (step_at u n a r w b) = b" "st_reason (step_at u n a r w b) = w"
  by (simp_all add: step_at_def)

lemma routeTask_risk: "rp_risk (routeTask uid t) = risk_of (task_risky t)"
  by (simp add: routeTask_def Let_def risk_of_def split: agent_selection.splits)

lemma routeTask_step_schema: "list_all RouteStepSchema (rp_steps (routeTask uid t)) \<and> rp_steps (routeTask uid t) \<noteq> []"
  by (simp add: routeTask_def Let_def RouteStepSchema_def is_safe_int_def max_safe_int_def
      split: agent_selection.splits)


text \<open>Who executes a plan.\<close>

definition executors :: "route_plan \<Rightarrow> agent_kind list" where
  "executors p = map st_agent (filter (\<lambda>st. st_role st = Execute) (rp_steps p))"

text \<open>
  The agent the requester named is the one that executes: an explicit choice of one agent makes it the
  only executor, a parallel task is executed by Codex and Claude in the same group, and automatic routing
  never lets Claude execute.
\<close>
theorem routed_executors:
  "(case p_agent t of
      SelCodex \<Rightarrow> executors (routeTask uid t) = [Codex]
    | SelClaude \<Rightarrow> executors (routeTask uid t) = [Claude]
    | SelOpenclaw \<Rightarrow> executors (routeTask uid t) = [Openclaw]
    | SelParallel \<Rightarrow> executors (routeTask uid t) = [Codex, Claude]
        \<and> map st_sequence (rp_steps (routeTask uid t)) = [0, 0]
    | SelAuto \<Rightarrow> list_all (\<lambda>a. a \<noteq> Claude) (executors (routeTask uid t)))"
  by (simp add: routeTask_def Let_def executors_def split: agent_selection.splits)


definition risky_task :: task_payload where
  "risky_task = \<lparr>p_id = None, p_goal = ''Fix auth'', p_repo = ''/r'', p_baseRef = ''HEAD'', p_agent = SelAuto,
     p_priority = PNormal, p_context = None, p_successCriteria = [], p_verificationCommand = None,
     p_handoffRequired = True\<rparr>"

lemma risky_task_text: "task_text risky_task = ''Fix auth'' @ newline @ newline"
  by (simp add: risky_task_def task_text_def)


end
