(* ===== verification/CoordState.thy ===== *)
theory CoordState
  imports DbLifecycle Router
begin

text \<open>
  The state and the environment of the coordinator (\<open>src/coordinator.ts\<close>).

  The coordinator is one object on an event loop: its maps and the database change under it while it awaits.
  Every \<open>await\<close> of the source is an \<open>await\<close> here, with a pause before and after the awaited operation in
  which the environment acts (\<open>ce_other\<close>): the other steps of a parallel group, stop and shutdown requests,
  heartbeats, other processes. The interference inside one database operation is \<open>ce_otherDb\<close>.

  The adapters, the git worktrees, the artifact files, the verifier and the message bus are interfaces over
  processes and files; the coordinator sees them as the operations of the environment on a world \<open>'w\<close>.
\<close>

subsection \<open>Exceptions and locals\<close>

text \<open>\<open>attempt m\<close> never throws: \<open>try { ... } catch (e) { ... }\<close> is a case distinction on its result.\<close>

definition attempt :: "('e, 's, 'a) eff \<Rightarrow> ('f, 's, 'e + 'a) eff" where
  "attempt m s = (case m s of (r, t) \<Rightarrow> (Inr r, t))"

definition with_cleanup :: "('e, 's, 'a) eff \<Rightarrow> ('e, 's, unit) eff \<Rightarrow> ('e, 's, 'a) eff" where
  "with_cleanup m cleanup = andThen (attempt m) (\<lambda>r. andThen cleanup (\<lambda>_. lift_res r))"

text \<open>
  A call that is given a callback: it asks for any number of callback runs, learns from each whether it
  threw, and ends with an error or a value.
\<close>

datatype ('r, 'a) talk = Ends "string + 'a" | Calls 'r "bool \<Rightarrow> ('r, 'a) talk"

primrec converse :: "('r \<Rightarrow> ('e, 's, unit) eff) \<Rightarrow> (string \<Rightarrow> 'e) \<Rightarrow> ('r, 'a) talk \<Rightarrow> ('e, 's, 'a) eff" where
  "converse callback err (Ends r) = (case r of Inl e \<Rightarrow> fail (err e) | Inr x \<Rightarrow> ok x)"
| "converse callback err (Calls r k) =
     andThen (attempt (callback r)) (\<lambda>res. converse callback err (k (case res of Inl _ \<Rightarrow> False | Inr _ \<Rightarrow> True)))"

subsection \<open>What adapters, worktrees, files and the verifier return\<close>

datatype adapter_status = ASucceeded | AFailed | AStopped | AStale

record adapter_run =
  ar_id :: string
  ar_pid :: "int option"
  ar_stdoutPath :: string
  ar_stderrPath :: string
  ar_resultPath :: string

record adapter_result =
  rs_id :: string
  rs_taskId :: string
  rs_agent :: agent_kind
  rs_role :: route_role
  rs_status :: adapter_status
  rs_startedAt :: string
  rs_finishedAt :: string
  rs_pid :: "int option"
  rs_workingDirectory :: string
  rs_stdoutPath :: string
  rs_stderrPath :: string
  rs_resultPath :: string
  rs_exitCode :: "int option"
  rs_signal :: "string option"
  rs_summary :: string
  rs_error :: "string option"
  rs_usage :: "string option"

record adapter_task_request =
  rq_task :: task_payload
  rq_role :: route_role
  rq_prompt :: string
  rq_workingDirectory :: string
  rq_artifactDir :: string
  rq_env :: "(string \<times> string) list"

record availability =
  av_available :: bool
  av_target :: string
  av_reason :: "string option"

datatype post_error = CapabilityMissing string | PostFailed string

record 'w adapter =
  ad_availability :: "(string, 'w, availability) eff"
  ad_startTask :: "adapter_task_request \<Rightarrow> 'w \<Rightarrow> (adapter_run, adapter_run) talk \<times> 'w"
  ad_postMessage :: "string \<Rightarrow> string \<Rightarrow> (post_error, 'w, unit) eff"
  ad_collectResult :: "string \<Rightarrow> (string, 'w, adapter_result) eff"
  ad_stop :: "string \<Rightarrow> (string, 'w, unit) eff"

record worktree_info =
  wi_taskId :: string
  wi_runId :: string
  wi_sourceRepo :: string
  wi_worktreePath :: string
  wi_branch :: string
  wi_baseRef :: string
  wi_baseCommit :: string
  wi_createdAt :: string

record source_snapshot =
  sp_repo :: string
  sp_head :: string
  sp_status :: string

record git_snapshot =
  gs_head :: string
  gs_status :: string
  gs_diff :: string

record file_info =
  fi_isFile :: bool
  fi_isSymbolicLink :: bool
  fi_size :: int

record artifact_write =
  aw_taskId :: string
  aw_runId :: string
  aw_kind :: artifact_kind
  aw_name :: string
  aw_data :: string

datatype verification_status = VSucceeded | VFailed | VStopped

record verification_result =
  vr_status :: verification_status
  vr_command :: string
  vr_args :: "string list"
  vr_startedAt :: string
  vr_finishedAt :: string
  vr_exitCode :: "int option"
  vr_signal :: "string option"
  vr_error :: "string option"
  vr_artifact :: artifact_input

text \<open>The worktree manager, the artifact store, the file system and the verifier.\<close>

record 'w services =
  sv_createWorktree :: "string \<Rightarrow> string \<Rightarrow> string \<Rightarrow> string \<Rightarrow> (string, 'w, worktree_info) eff"
  sv_captureSource :: "string \<Rightarrow> (string, 'w, source_snapshot) eff"
  sv_assertSourceUnchanged :: "source_snapshot \<Rightarrow> (string, 'w, unit) eff"
  sv_capture :: "string \<Rightarrow> string \<Rightarrow> (string, 'w, git_snapshot) eff"
  sv_captureReview :: "string \<Rightarrow> string \<Rightarrow> string \<Rightarrow> string \<Rightarrow> (string, 'w, artifact_input list) eff"
  sv_prepareRunDirectory :: "string \<Rightarrow> string \<Rightarrow> (string, 'w, string) eff"
  sv_writeArtifact :: "artifact_write \<Rightarrow> (string, 'w, artifact_input) eff"
  sv_lstat :: "string \<Rightarrow> (string, 'w, file_info) eff"
  sv_readFile :: "string \<Rightarrow> (string, 'w, string) eff"
  sv_verify :: "string \<Rightarrow> string \<Rightarrow> string \<Rightarrow> string \<Rightarrow> 'w \<Rightarrow> (int option \<times> string, verification_result) talk \<times> 'w"
  sv_stopVerifier :: "string \<Rightarrow> (string, 'w, unit) eff"
  sv_publish :: "event_row \<Rightarrow> (string, 'w, unit) eff"

subsection \<open>State\<close>

datatype run_phase = PhStarting | PhActive | PhVerifying | PhFinalizing

text \<open>\<open>co_tick\<close> numbers the pauses, the clock readings and the identifiers drawn.\<close>

record 'w coord =
  co_db :: db
  co_world :: 'w
  co_activeRuns :: "(string \<times> string \<times> agent_kind \<times> string) list"
  co_activeVerifications :: "(string \<times> string) list"
  co_runPhases :: "(string \<times> string \<times> run_phase) list"
  co_stopRequested :: "string list"
  co_shutdown :: bool
  co_tick :: nat

text \<open>A \<open>Map\<close> keeps its keys in insertion order; setting a key that is there keeps its place.\<close>

fun map_set :: "'k \<Rightarrow> 'v \<Rightarrow> ('k \<times> 'v) list \<Rightarrow> ('k \<times> 'v) list" where
  "map_set k v [] = [(k, v)]"
| "map_set k v ((k', v') # m) = (if k' = k then (k, v) # m else (k', v') # map_set k v m)"

definition map_delete :: "'k \<Rightarrow> ('k \<times> 'v) list \<Rightarrow> ('k \<times> 'v) list" where
  "map_delete k m = filter (\<lambda>kv. fst kv \<noteq> k) m"

datatype control_code = RunNotFoundCode | RunNotOwned | RunStarting | RunFinalizing | RunTerminal

datatype coord_error = DbFailed db_error | Thrown string | PostThrew post_error | RunControl control_code string

type_synonym ('w, 'a) op = "(coord_error, 'w coord, 'a) eff"

record 'w coord_env =
  ce_workerId :: string
  ce_maxAdapterArtifactBytes :: int
  ce_cwd :: string
  ce_adapter :: "agent_kind \<Rightarrow> 'w adapter option"
  ce_services :: "'w services"
  ce_now :: "nat \<Rightarrow> string"
  ce_uuid :: "nat \<Rightarrow> string"
  ce_message :: "db_error \<Rightarrow> string"
  ce_other :: "nat \<Rightarrow> 'w coord \<Rightarrow> 'w coord"
  ce_otherDb :: "nat \<Rightarrow> db \<Rightarrow> db"

text \<open>\<open>error.message\<close>\<close>

fun error_message :: "'w coord_env \<Rightarrow> coord_error \<Rightarrow> string" where
  "error_message env (DbFailed e) = ce_message env e"
| "error_message env (Thrown m) = m"
| "error_message env (PostThrew (CapabilityMissing m)) = m"
| "error_message env (PostThrew (PostFailed m)) = m"
| "error_message env (RunControl _ m) = m"

subsection \<open>Awaiting\<close>

definition pause :: "'w coord_env \<Rightarrow> ('w, unit) op" where
  "pause env = update (\<lambda>s. (ce_other env (co_tick s) s)\<lparr>co_tick := Suc (co_tick s)\<rparr>)"

definition await :: "'w coord_env \<Rightarrow> ('w, 'a) op \<Rightarrow> ('w, 'a) op" where
  "await env m = andThen (pause env) (\<lambda>_. with_cleanup m (pause env))"

text \<open>A database operation: it gets two gaps of interference, an identifier and the time.\<close>

type_synonym 'a db_call = "(db \<Rightarrow> db) \<Rightarrow> (db \<Rightarrow> db) \<Rightarrow> string \<Rightarrow> string \<Rightarrow> 'a dbop"

definition db_call_op :: "'w coord_env \<Rightarrow> 'a db_call \<Rightarrow> ('w, 'a) op" where
  "db_call_op env f s = (case f (ce_otherDb env (co_tick s)) (ce_otherDb env (Suc (co_tick s))) (ce_uuid env (co_tick s)) (ce_now env (co_tick s)) (co_db s) of
     (r, d) \<Rightarrow> (map_sum DbFailed id r, s\<lparr>co_db := d, co_tick := co_tick s + 2\<rparr>))"

definition call_db :: "'w coord_env \<Rightarrow> 'a db_call \<Rightarrow> ('w, 'a) op" where
  "call_db env f = await env (db_call_op env f)"

definition world_op :: "('x \<Rightarrow> coord_error) \<Rightarrow> ('x, 'w, 'a) eff \<Rightarrow> ('w, 'a) op" where
  "world_op err m s = (case m (co_world s) of (r, w) \<Rightarrow> (map_sum err id r, s\<lparr>co_world := w\<rparr>))"

definition call_world :: "'w coord_env \<Rightarrow> (string, 'w, 'a) eff \<Rightarrow> ('w, 'a) op" where
  "call_world env m = await env (world_op Thrown m)"

definition clock :: "'w coord_env \<Rightarrow> ('w, string) op" where
  "clock env s = (Inr (ce_now env (co_tick s)), s\<lparr>co_tick := Suc (co_tick s)\<rparr>)"

text \<open>\<open>#publish\<close>: the event is in the database before the bus sees it.\<close>

definition publish ::
  "'w coord_env \<Rightarrow> string \<Rightarrow> string option \<Rightarrow> string \<Rightarrow> event_level option \<Rightarrow> string \<Rightarrow> json option \<Rightarrow> ('w, unit) op" where
  "publish env taskId runId ty level message data =
     andThen (call_db env (\<lambda>other _ _ ts. appendEvent other ts taskId runId ty level message data)) (\<lambda>event.
     call_world env (sv_publish (ce_services env) event))"

subsection \<open>Paths\<close>

text \<open>\<open>basename\<close>, \<open>dirname\<close>, \<open>resolve\<close> and \<open>extname\<close> of \<open>node:path\<close> on POSIX.\<close>

definition strip_slashes :: "string \<Rightarrow> string" where
  "strip_slashes p = rev (dropWhile (\<lambda>c. c = CHR ''/'') (rev p))"

definition basename :: "string \<Rightarrow> string" where
  "basename p = rev (takeWhile (\<lambda>c. c \<noteq> CHR ''/'') (rev (strip_slashes p)))"

definition dirname :: "string \<Rightarrow> string" where
  "dirname p = (let d = rev (dropWhile (\<lambda>c. c \<noteq> CHR ''/'') (rev (strip_slashes p))) in
     if p = [] then ''.''
     else if strip_slashes p = [] then ''/''
     else if d = [] then ''.''
     else if strip_slashes d = [] then ''/'' else strip_slashes d)"

fun split_path :: "string \<Rightarrow> string list" where
  "split_path [] = [[]]"
| "split_path (c # cs) = (if c = CHR ''/'' then [] # split_path cs
     else case split_path cs of [] \<Rightarrow> [[c]] | w # ws \<Rightarrow> (c # w) # ws)"

text \<open>The segments of an absolute path, innermost first, with \<open>.\<close> and \<open>..\<close> resolved.\<close>

definition normal_segments :: "string \<Rightarrow> string list" where
  "normal_segments p = fold (\<lambda>w acc. if w = [] \<or> w = ''.'' then acc else if w = ''..'' then tl acc else w # acc) (split_path p) []"

definition resolve :: "string \<Rightarrow> string \<Rightarrow> string" where
  "resolve cwd p = ''/'' @ join ''/'' (rev (normal_segments (if starts_with ''/'' p then p else cwd @ ''/'' @ p)))"

definition extname :: "string \<Rightarrow> string" where
  "extname p = (let b = basename p; e = rev (takeWhile (\<lambda>c. c \<noteq> CHR ''.'') (rev b)) in
     if length e = length b \<or> length e + 1 = length b \<or> b = ''..'' then [] else CHR ''.'' # e)"

end
