(* ===== verification/CoordText.thy ===== *)
theory CoordText
  imports CoordState
begin

text \<open>
  The pure parts of the coordinator: the agent's prompt (\<open>src/prompt.ts\<close>), the handoff document, the results
  and feedback of earlier attempts, the worktree a retry inherits, and the check of a screenshot's bytes.
\<close>

subsection \<open>buildAgentPrompt\<close>

definition lines_of :: "string list \<Rightarrow> string" where
  "lines_of = join newline"

definition indexed :: "'a list \<Rightarrow> (nat \<times> 'a) list" where
  "indexed xs = zip [1..<Suc (length xs)] xs"

definition exit_text :: "int option \<Rightarrow> string" where
  "exit_text code = (case code of None \<Rightarrow> ''n/a'' | Some n \<Rightarrow> show_int n)"

definition or_else :: "string \<Rightarrow> string \<Rightarrow> string" where
  "or_else s d = (if s = [] then d else s)"

fun adapter_status_name :: "adapter_status \<Rightarrow> string" where
  "adapter_status_name ASucceeded = ''succeeded''"
| "adapter_status_name AFailed = ''failed''"
| "adapter_status_name AStopped = ''stopped''"
| "adapter_status_name AStale = ''stale''"

fun role_instruction :: "route_role \<Rightarrow> string" where
  "role_instruction Execute = join '' '' [
     ''Implement the task directly in the provided isolated worktree.'',
     ''The Repository path below is the only checkout you may modify; never follow another checkout path from prior output.'',
     ''Inspect the repository before editing, keep changes scoped, and run relevant verification.'',
     ''Do not claim success without concrete evidence. End with a concise handoff: files changed, verification, remaining risks.'']"
| "role_instruction Review = join '' '' [
     ''Review the existing implementation and evidence independently.'',
     ''Do not edit files. Check the diff, correctness, regressions, tests, security, and success criteria.'',
     ''Start the final answer with PASS or REWORK, then list actionable findings and evidence.'']"
| "role_instruction Approval = join '' '' [
     ''Create a human-facing approval handoff from the implementation and review evidence.'',
     ''Do not auto-approve risky work. Summarize what changed, verification, risks, and ask for APPROVE or REWORK.'']"

definition buildAgentPrompt :: "task_payload \<Rightarrow> route_role \<Rightarrow> adapter_result list \<Rightarrow> string" where
  "buildAgentPrompt task role priorResults =
     (let criteria = (if p_successCriteria task = [] then ''1. Produce a concrete, reviewable result without regressions.''
            else lines_of (map (\<lambda>(i, c). show_nat i @ ''. '' @ c) (indexed (p_successCriteria task))));
          prior = (if priorResults = [] then ''No prior agent results.''
            else join (newline @ newline) (map (\<lambda>(i, r).
              ''Prior run '' @ show_nat i @ '' ('' @ adapter_status_name (rs_status r) @ '', exit '' @ exit_text (rs_exitCode r) @ ''):''
              @ newline @ or_else (rs_summary r) ''No summary.'') (indexed priorResults)))
      in lines_of [''# Agent Control Center task'', [],
        ''Role: '' @ enum_name RouteRoleSchema role,
        ''Goal: '' @ p_goal task,
        ''Repository: '' @ p_repo task,
        ''Base ref: '' @ p_baseRef task,
        ''Priority: '' @ enum_name PrioritySchema (p_priority task), [],
        ''## Instructions'', role_instruction role, [],
        ''## Context'', or_else (case p_context task of None \<Rightarrow> [] | Some c \<Rightarrow> c) ''No extra context supplied.'', [],
        ''## Success criteria'', criteria, [],
        ''## Verification command'',
        or_else (case p_verificationCommand task of None \<Rightarrow> [] | Some c \<Rightarrow> c)
          ''Infer and run the smallest relevant verification from the repository.'', [],
        ''## Prior results'', prior])"

subsection \<open>Earlier attempts\<close>

fun terminalRunStatus :: "adapter_status \<Rightarrow> run_status" where
  "terminalRunStatus ASucceeded = RSucceeded"
| "terminalRunStatus AStopped = RStopped"
| "terminalRunStatus AStale = RStale"
| "terminalRunStatus AFailed = RFailed"

definition or_empty :: "string option \<Rightarrow> string" where
  "or_empty v = (case v of None \<Rightarrow> [] | Some s \<Rightarrow> s)"

definition historicalAdapterResult :: "run_row \<Rightarrow> adapter_result option" where
  "historicalAdapterResult run = (case truthy (r_finished_at run) of
     None \<Rightarrow> None
   | Some finishedAt \<Rightarrow>
       (let status = (if r_status run = RSucceeded then Some ASucceeded
            else if r_status run = RStopped then Some AStopped
            else if r_status run = RFailed \<or> r_status run = RStale then Some AFailed
            else None)
        in map_option (\<lambda>status. \<lparr>
          rs_id = (case r_adapter_run_id run of None \<Rightarrow> r_id run | Some i \<Rightarrow> i),
          rs_taskId = r_task_id run, rs_agent = r_agent run, rs_role = r_role run, rs_status = status,
          rs_startedAt = (case r_started_at run of None \<Rightarrow> r_created_at run | Some t \<Rightarrow> t),
          rs_finishedAt = finishedAt, rs_pid = r_pid run,
          rs_workingDirectory = or_empty (r_worktree_path run), rs_stdoutPath = or_empty (r_stdout_path run),
          rs_stderrPath = or_empty (r_stderr_path run), rs_resultPath = or_empty (r_result_path run),
          rs_exitCode = r_exit_code run, rs_signal = r_signal run, rs_summary = or_empty (r_summary run),
          rs_error = r_error run, rs_usage = None\<rparr>) status))"

definition attempt_feedback :: "task_aggregate \<Rightarrow> string list" where
  "attempt_feedback aggregate =
     concat (map (\<lambda>v. case truthy (v_note v) of None \<Rightarrow> []
       | Some n \<Rightarrow> [''Review '' @ enum_name [(''pending'', RevPending), (''approved'', RevApproved),
            (''rework_requested'', RevReworkRequested), (''rejected'', RevRejected)] (v_status v) @ '': '' @ n]) (ag_reviews aggregate))
     @ map (\<lambda>m. m_role m @ '': '' @ m_body m) (ag_messages aggregate)"

text \<open>The context the agents get: the task's own, with the feedback of earlier attempts.\<close>

definition execution_context :: "task_aggregate \<Rightarrow> string option" where
  "execution_context aggregate = (let feedback = attempt_feedback aggregate in
     if feedback = [] then tr_context (ag_task aggregate)
     else Some (join (newline @ newline)
       (filter (\<lambda>s. s \<noteq> []) ([or_empty (tr_context (ag_task aggregate)), ''Prior attempt feedback and run-scoped messages:''] @ feedback))))"

definition heartbeat_expired :: "run_row \<Rightarrow> bool" where
  "heartbeat_expired run = (case r_error run of None \<Rightarrow> False | Some e \<Rightarrow> starts_with ''Worker heartbeat expired'' e)"

text \<open>A run whose worker died may still be writing: its worktree is not used again.\<close>

definition quarantinedWorktrees :: "run_row list \<Rightarrow> string list" where
  "quarantinedWorktrees rows = concat (map (\<lambda>run. case truthy (r_worktree_path run) of None \<Rightarrow> []
     | Some p \<Rightarrow> if r_status run = RStale \<or> heartbeat_expired run then [p] else []) rows)"

definition latestWorktreeRun :: "task_aggregate \<Rightarrow> run_row option" where
  "latestWorktreeRun aggregate =
     (if rp_mode (tr_routePlan (ag_task aggregate)) = Parallel then None
      else find (\<lambda>run. truthy (r_worktree_path run) \<noteq> None \<and> truthy (r_branch run) \<noteq> None \<and> truthy (r_base_commit run) \<noteq> None
          \<and> r_status run \<noteq> RStale \<and> \<not> heartbeat_expired run
          \<and> or_empty (r_worktree_path run) \<notin> set (quarantinedWorktrees (ag_runs aggregate)))
        (rev (ag_runs aggregate)))"

definition inherited_worktree :: "task_aggregate \<Rightarrow> worktree_info option" where
  "inherited_worktree aggregate = map_option (\<lambda>run. \<lparr>wi_taskId = tr_id (ag_task aggregate), wi_runId = r_id run,
     wi_sourceRepo = tr_repo (ag_task aggregate), wi_worktreePath = or_empty (r_worktree_path run),
     wi_branch = or_empty (r_branch run), wi_baseRef = tr_baseRef (ag_task aggregate),
     wi_baseCommit = or_empty (r_base_commit run), wi_createdAt = r_created_at run\<rparr>) (latestWorktreeRun aggregate)"

subsection \<open>The handoff document\<close>

datatype task_result_status = ResDone | ResNeedsReview | ResBlocked

fun result_status_name :: "task_result_status \<Rightarrow> string" where
  "result_status_name ResDone = ''done''"
| "result_status_name ResNeedsReview = ''needs-review''"
| "result_status_name ResBlocked = ''blocked''"

text \<open>An em dash, in UTF-8.\<close>

definition em_dash :: string where
  "em_dash = map char_of [0xE2 :: nat, 0x80, 0x94]"

definition run_lines :: "run_row \<Rightarrow> string list" where
  "run_lines run = [
     ''### '' @ enum_name AgentKindSchema (r_agent run) @ '' '' @ enum_name RouteRoleSchema (r_role run) @ '' '' @ em_dash
       @ '' '' @ enum_name RunStatusSchema (r_status run),
     ''- Run: '' @ r_id run,
     ''- Worktree: '' @ (case r_worktree_path run of None \<Rightarrow> ''n/a'' | Some p \<Rightarrow> p),
     ''- Branch: '' @ (case r_branch run of None \<Rightarrow> ''n/a'' | Some b \<Rightarrow> b),
     ''- Exit: '' @ exit_text (r_exit_code run),
     ''- Summary: '' @ or_else (or_else (trim (or_empty (r_summary run))) (trim (or_empty (r_error run)))) ''No summary.'',
     []]"

definition handoff_body :: "task_aggregate \<Rightarrow> task_result_status \<Rightarrow> string option \<Rightarrow> string" where
  "handoff_body aggregate status blockedReason = (let task = ag_task aggregate in lines_of (
     [''# Handoff: '' @ tr_goal task, [],
      ''Task: '' @ tr_id task,
      ''Status: '' @ result_status_name status,
      ''Repository: '' @ tr_repo task,
      ''Route: '' @ join '' -> '' (map (\<lambda>st. enum_name AgentKindSchema (st_agent st) @ '':'' @ enum_name RouteRoleSchema (st_role st))
        (rp_steps (tr_routePlan task))), [],
      ''## Success criteria'']
     @ (if tr_successCriteria task = [] then [''- No explicit criteria supplied.''] else map (\<lambda>c. ''- '' @ c) (tr_successCriteria task))
     @ [[], ''## Runs'']
     @ concat (map run_lines (ag_runs aggregate))
     @ [''## Artifacts'']
     @ map (\<lambda>a. ''- '' @ enum_name ArtifactKindSchema (a_kind a) @ '': '' @ a_path a @ '' ('' @ show_int (a_size_bytes a) @ '' bytes)'')
         (ag_artifacts aggregate)
     @ [[],
        (case status of ResNeedsReview \<Rightarrow> ''Decision required: APPROVE or REWORK.''
         | ResBlocked \<Rightarrow> ''Blocked: '' @ (case blockedReason of None \<Rightarrow> tr_latestUpdate task | Some r \<Rightarrow> r)
         | ResDone \<Rightarrow> ''All required steps completed; no handoff approval was requested.''),
        []]))"

subsection \<open>Screenshots\<close>

datatype screenshot_type = Png | Jpeg | Webp | Gif

fun screenshot_type_name :: "screenshot_type \<Rightarrow> string" where
  "screenshot_type_name Png = ''image/png''"
| "screenshot_type_name Jpeg = ''image/jpeg''"
| "screenshot_type_name Webp = ''image/webp''"
| "screenshot_type_name Gif = ''image/gif''"

definition bytes :: "nat list \<Rightarrow> string" where
  "bytes ns = map char_of ns"

text \<open>\<open>buffer.toString('ascii')\<close> clears the highest bit of each byte.\<close>

definition to_ascii :: "string \<Rightarrow> string" where
  "to_ascii d = map (\<lambda>c. char_of ((of_char c :: nat) mod 128)) d"

definition screenshot_matches :: "string \<Rightarrow> screenshot_type \<Rightarrow> string \<Rightarrow> bool" where
  "screenshot_matches name contentType data = (let extension = map ascii_lower (extname name) in
     case contentType of
       Png \<Rightarrow> extension = ''.png'' \<and> 8 \<le> length data \<and> take 8 data = bytes [0x89, 0x50, 0x4e, 0x47, 0x0d, 0x0a, 0x1a, 0x0a]
     | Jpeg \<Rightarrow> (extension = ''.jpg'' \<or> extension = ''.jpeg'') \<and> 3 \<le> length data \<and> take 3 data = bytes [0xff, 0xd8, 0xff]
     | Webp \<Rightarrow> extension = ''.webp'' \<and> 12 \<le> length data \<and> to_ascii (take 4 data) = ''RIFF'' \<and> to_ascii (take 4 (drop 8 data)) = ''WEBP''
     | Gif \<Rightarrow> extension = ''.gif'' \<and> 6 \<le> length data \<and> to_ascii (take 6 data) \<in> {''GIF87a'', ''GIF89a''})"

definition assertScreenshotBytes :: "string \<Rightarrow> screenshot_type \<Rightarrow> string \<Rightarrow> ('w, unit) op" where
  "assertScreenshotBytes name contentType data =
     require (screenshot_matches name contentType data)
       (Thrown (''Screenshot bytes do not match '' @ screenshot_type_name contentType @ '' and ''
         @ or_else (map ascii_lower (extname name)) ''no extension''))"

end
