(* ===== verification/CoordStep.thy ===== *)
theory CoordStep
  imports CoordText
begin

text \<open>
  One route step (\<open>Coordinator.#executeStep\<close>): the run, its worktree and prompt, the adapter, the evidence,
  the independent verification, and every way it can fail.
\<close>

record step_outcome =
  so_step :: step_row
  so_run :: "run_row option"
  so_result :: "adapter_result option"
  so_worktree :: "worktree_info option"
  so_succeeded :: bool
  so_skipped :: bool
  so_error :: "string option"

subsection \<open>The coordinator's maps\<close>

definition set_phase :: "string \<Rightarrow> string \<Rightarrow> run_phase \<Rightarrow> ('w, unit) op" where
  "set_phase runId taskId phase = update (co_runPhases_update (map_set runId (taskId, phase)))"

definition set_active :: "string \<Rightarrow> string \<Rightarrow> agent_kind \<Rightarrow> string \<Rightarrow> ('w, unit) op" where
  "set_active runId taskId agent adapterRunId = update (co_activeRuns_update (map_set runId (taskId, agent, adapterRunId)))"

definition delete_active :: "string \<Rightarrow> ('w, unit) op" where
  "delete_active runId = update (co_activeRuns_update (map_delete runId))"

definition forget_run :: "string \<Rightarrow> ('w, unit) op" where
  "forget_run runId = update (\<lambda>s. s\<lparr>co_runPhases := map_delete runId (co_runPhases s),
     co_stopRequested := filter (\<lambda>i. i \<noteq> runId) (co_stopRequested s)\<rparr>)"

text \<open>\<open>this.#stopRequestedRuns.delete(run.id)\<close> tells whether a stop was requested.\<close>

definition take_stop :: "string \<Rightarrow> ('w, bool) op" where
  "take_stop runId s = (Inr (runId \<in> set (co_stopRequested s)), s\<lparr>co_stopRequested := filter (\<lambda>i. i \<noteq> runId) (co_stopRequested s)\<rparr>)"

definition fail_if :: "bool \<Rightarrow> string \<Rightarrow> ('w, unit) op" where
  "fail_if b message = require (\<not> b) (Thrown message)"

subsection \<open>Steps that cannot run\<close>

definition step_info :: "step_row \<Rightarrow> json" where
  "step_info step = JObj [(''agent'', JStr (enum_name AgentKindSchema (s_agent step))), (''role'', JStr (enum_name RouteRoleSchema (s_role step)))]"

definition unavailableStep :: "'w coord_env \<Rightarrow> step_row \<Rightarrow> string \<Rightarrow> ('w, step_outcome) op" where
  "unavailableStep env step message =
     (if \<not> s_required step then
        andThen (call_db env (\<lambda>other _ _ ts. updateRouteStep other ts (s_id step) (Some SSkipped) None)) (\<lambda>_.
        andThen (publish env (s_task_id step) None ''route.step_skipped'' (Some LWarn) message (Some (step_info step))) (\<lambda>_.
        ok \<lparr>so_step = step\<lparr>s_status := SSkipped\<rparr>, so_run = None, so_result = None, so_worktree = None,
             so_succeeded = True, so_skipped = True, so_error = None\<rparr>))
      else
        andThen (call_db env (\<lambda>other _ _ ts. updateRouteStep other ts (s_id step) (Some SFailed) None)) (\<lambda>_.
        andThen (publish env (s_task_id step) None ''route.step_failed'' (Some LError) message (Some (step_info step))) (\<lambda>_.
        ok \<lparr>so_step = step\<lparr>s_status := SFailed\<rparr>, so_run = None, so_result = None, so_worktree = None,
             so_succeeded = False, so_skipped = False, so_error = Some message\<rparr>)))"

subsection \<open>Evidence\<close>

definition add_artifact :: "'w coord_env \<Rightarrow> artifact_input \<Rightarrow> ('w, artifact_row) op" where
  "add_artifact env artifact = call_db env (\<lambda>other _ uid _. addArtifact other uid artifact)"

text \<open>One of the three files every adapter promises: it must be a regular file of the run's own directory.\<close>

definition ingest_file :: "'w coord_env \<Rightarrow> string \<Rightarrow> string \<Rightarrow> string \<Rightarrow> string \<times> artifact_kind \<Rightarrow> ('w, unit) op" where
  "ingest_file env taskId runId runDirectory file = (case file of (path, kind) \<Rightarrow>
     let resolvedPath = resolve (ce_cwd env) path in
     andThen (fail_if (dirname resolvedPath \<noteq> runDirectory) (''Adapter artifact escaped its run directory: '' @ path)) (\<lambda>_.
     andThen (call_world env (sv_lstat (ce_services env) resolvedPath)) (\<lambda>info.
     andThen (fail_if (\<not> fi_isFile info \<or> fi_isSymbolicLink info) (''Adapter artifact is not a regular file: '' @ path)) (\<lambda>_.
     andThen (fail_if (ce_maxAdapterArtifactBytes env < fi_size info)
       (''Adapter artifact '' @ basename path @ '' exceeded '' @ show_int (ce_maxAdapterArtifactBytes env) @ '' bytes'')) (\<lambda>_.
     andThen (call_world env (sv_readFile (ce_services env) path)) (\<lambda>data.
     andThen (call_world env (sv_writeArtifact (ce_services env)
       \<lparr>aw_taskId = taskId, aw_runId = runId, aw_kind = kind, aw_name = basename path, aw_data = data\<rparr>)) (\<lambda>artifact.
     andThen (add_artifact env artifact) (\<lambda>_. ok ()))))))))"

definition ingestAdapterArtifacts :: "'w coord_env \<Rightarrow> string \<Rightarrow> string \<Rightarrow> string \<Rightarrow> string \<Rightarrow> string \<Rightarrow> ('w, unit) op" where
  "ingestAdapterArtifacts env taskId runId stdoutPath stderrPath resultPath =
     andThen (call_world env (sv_prepareRunDirectory (ce_services env) taskId runId)) (\<lambda>runDirectory.
     forEach [(stdoutPath, KStdout), (stderrPath, KStderr), (resultPath, KResult)] (ingest_file env taskId runId runDirectory))"

subsection \<open>Independent verification\<close>

fun verification_status_name :: "verification_status \<Rightarrow> string" where
  "verification_status_name VSucceeded = ''succeeded''"
| "verification_status_name VFailed = ''failed''"
| "verification_status_name VStopped = ''stopped''"

definition json_opt_int :: "int option \<Rightarrow> json" where
  "json_opt_int v = (case v of None \<Rightarrow> JNull | Some n \<Rightarrow> JNum n)"

definition json_opt_str :: "string option \<Rightarrow> json" where
  "json_opt_str v = (case v of None \<Rightarrow> JNull | Some t \<Rightarrow> JStr t)"

definition verification_metadata :: "verification_result \<Rightarrow> json" where
  "verification_metadata r = JObj [(''command'', JStr (vr_command r)), (''args'', JArr (map JStr (vr_args r))),
     (''status'', JStr (verification_status_name (vr_status r))), (''exitCode'', json_opt_int (vr_exitCode r)),
     (''signal'', json_opt_str (vr_signal r)), (''error'', json_opt_str (vr_error r)),
     (''startedAt'', JStr (vr_startedAt r)), (''finishedAt'', JStr (vr_finishedAt r))]"

text \<open>The verifier's \<open>onStarted\<close>, and the call of the verifier, which ends the active verification in any case.\<close>

definition verifier_started :: "'w coord_env \<Rightarrow> string \<Rightarrow> string \<Rightarrow> int option \<times> string \<Rightarrow> ('w, unit) op" where
  "verifier_started env taskId runId = (\<lambda>(pid, startedAt).
     publish env taskId (Some runId) ''verification.process_started'' None ''Independent verifier process started.''
       (Some (JObj [(''pid'', json_opt_int pid), (''startedAt'', JStr startedAt)])))"

definition verifier_run :: "'w coord_env \<Rightarrow> string \<Rightarrow> string \<Rightarrow> string \<Rightarrow> string \<Rightarrow> ('w, verification_result) op" where
  "verifier_run env taskId runId commandLine workingDirectory =
     await env (andThen (\<lambda>s. case sv_verify (ce_services env) taskId runId commandLine workingDirectory (co_world s) of
         (t, w) \<Rightarrow> (Inr t, s\<lparr>co_world := w\<rparr>))
       (converse (verifier_started env taskId runId) Thrown))"

definition runVerification :: "'w coord_env \<Rightarrow> string \<Rightarrow> string \<Rightarrow> string \<Rightarrow> worktree_info \<Rightarrow> ('w, verification_result) op" where
  "runVerification env taskId runId commandLine worktree =
     (let snapshot = call_world env (sv_capture (ce_services env) (wi_worktreePath worktree) (wi_baseCommit worktree)) in
      andThen snapshot (\<lambda>initial.
      andThen (update (co_activeVerifications_update (map_set runId taskId))) (\<lambda>_.
      andThen (publish env taskId (Some runId) ''verification.started'' None
        ''Independent verification started in the isolated worktree.'' (Some (JObj [(''commandLine'', JStr commandLine)]))) (\<lambda>_.
      andThen (with_cleanup (verifier_run env taskId runId commandLine (wi_worktreePath worktree))
        (update (co_activeVerifications_update (map_delete runId)))) (\<lambda>result.
      andThen (add_artifact env ((vr_artifact result)\<lparr>ai_metadata := Some (verification_metadata result)\<rparr>)) (\<lambda>_.
      andThen snapshot (\<lambda>final.
      if gs_head initial \<noteq> gs_head final \<or> gs_status initial \<noteq> gs_status final \<or> gs_diff initial \<noteq> gs_diff final
      then andThen (publish env taskId (Some runId) ''verification.failed'' (Some LError)
             ''Verification modified tracked or untracked repository state.'' None)
             (\<lambda>_. fail (Thrown ''Independent verification modified repository state''))
      else
        let succeeded = (vr_status result = VSucceeded) in
        andThen (publish env taskId (Some runId) (if succeeded then ''verification.succeeded'' else ''verification.failed'')
          (Some (if succeeded then LInfo else LError))
          (if succeeded then ''Verification passed: '' @ vr_command result @ ''.''
           else case vr_error result of Some e \<Rightarrow> e
             | None \<Rightarrow> ''Verification ended with '' @ verification_status_name (vr_status result) @ ''.'')
          (Some (JObj [(''exitCode'', json_opt_int (vr_exitCode result)), (''signal'', json_opt_str (vr_signal result))]))) (\<lambda>_.
        andThen (fail_if (\<not> succeeded) (case vr_error result of Some e \<Rightarrow> e
          | None \<Rightarrow> ''Independent verification '' @ verification_status_name (vr_status result) @ '' with exit '' @ exit_text (vr_exitCode result)))
          (\<lambda>_. ok result)))))))))"

end
