(* ===== verification/CoordRun.thy ===== *)
theory CoordRun
  imports CoordStep
begin

text \<open>
  \<open>Coordinator.#executeStep\<close>. The variables the \<open>try\<close> block assigns and the \<open>catch\<close> block reads are the
  record \<open>step_locals\<close>, threaded with the coordinator's state.
\<close>

subsection \<open>Local variables\<close>

text \<open>
  \<open>lo_persisted\<close> and \<open>lo_startRejected\<close> are \<open>persistedAdapterRun\<close> and the outcome of \<open>startPersistence\<close>: a
  second report awaits the same promise, so it throws what the first threw.
\<close>

record step_locals =
  lo_run :: run_row
  lo_worktree :: "worktree_info option"
  lo_adapterRun :: "adapter_run option"
  lo_snapshot :: "source_snapshot option"
  lo_persisted :: "adapter_run option"
  lo_startRejected :: "coord_error option"

type_synonym ('w, 'a) sop = "(coord_error, step_locals \<times> 'w coord, 'a) eff"

definition lift :: "('w, 'a) op \<Rightarrow> ('w, 'a) sop" where
  "lift m ls = (case ls of (l, s) \<Rightarrow> (case m s of (r, t) \<Rightarrow> (r, (l, t))))"

definition assign :: "(step_locals \<Rightarrow> step_locals) \<Rightarrow> ('w, unit) sop" where
  "assign f = update (\<lambda>(l, s). (f l, s))"

definition local_of :: "(step_locals \<Rightarrow> 'a) \<Rightarrow> ('w, 'a) sop" where
  "local_of f = query (\<lambda>(l, s). f l)"

definition with_locals :: "step_locals \<Rightarrow> ('w, 'a) sop \<Rightarrow> ('w, 'a) op" where
  "with_locals l m s = (case m (l, s) of (r, (l', t)) \<Rightarrow> (r, t))"

subsection \<open>Patches\<close>

definition no_patch :: run_patch where
  "no_patch = \<lparr>up_status = None, up_adapterRunId = None, up_pid = None, up_worktreePath = None, up_branch = None,
     up_baseCommit = None, up_stdoutPath = None, up_stderrPath = None, up_resultPath = None, up_exitCode = None,
     up_signal = None, up_summary = None, up_error = None, up_usageJson = None, up_startedAt = None, up_finishedAt = None\<rparr>"

definition patch_run :: "'w coord_env \<Rightarrow> run_patch \<Rightarrow> ('w, unit) sop" where
  "patch_run env patch =
     andThen (local_of lo_run) (\<lambda>run.
     andThen (lift (call_db env (\<lambda>other other' _ ts. updateRun other other' ts (r_id run) patch))) (\<lambda>run'.
     assign (\<lambda>l. l\<lparr>lo_run := run'\<rparr>)))"

definition worktree_patch :: "worktree_info \<Rightarrow> run_patch" where
  "worktree_patch w = no_patch\<lparr>up_worktreePath := Some (Some (wi_worktreePath w)), up_branch := Some (Some (wi_branch w)),
     up_baseCommit := Some (Some (wi_baseCommit w))\<rparr>"

definition started_patch :: "adapter_run \<Rightarrow> run_patch" where
  "started_patch a = no_patch\<lparr>up_status := Some RRunning, up_adapterRunId := Some (Some (ar_id a)), up_pid := Some (ar_pid a),
     up_stdoutPath := Some (Some (ar_stdoutPath a)), up_stderrPath := Some (Some (ar_stderrPath a)),
     up_resultPath := Some (Some (ar_resultPath a))\<rparr>"

definition result_patch :: "adapter_result \<Rightarrow> run_patch" where
  "result_patch r = no_patch\<lparr>up_status := Some (terminalRunStatus (rs_status r)), up_exitCode := Some (rs_exitCode r),
     up_signal := Some (rs_signal r), up_summary := Some (Some (rs_summary r)), up_error := Some (rs_error r),
     up_usageJson := (case rs_usage r of None \<Rightarrow> None | Some u \<Rightarrow> Some (Some u)), up_finishedAt := Some (Some (rs_finishedAt r))\<rparr>"

subsection \<open>Before the agent starts\<close>

definition prompt_task :: "task_record \<Rightarrow> string \<Rightarrow> task_payload" where
  "prompt_task task workingDirectory = \<lparr>p_id = Some (tr_id task), p_goal = tr_goal task, p_repo = workingDirectory,
     p_baseRef = tr_baseRef task, p_agent = tr_agent task, p_priority = tr_priority task, p_context = truthy (tr_context task),
     p_successCriteria = tr_successCriteria task, p_verificationCommand = truthy (tr_verificationCommand task),
     p_handoffRequired = tr_handoffRequired task\<rparr>"

definition prepare_run ::
  "'w coord_env \<Rightarrow> task_record \<Rightarrow> step_row \<Rightarrow> adapter_result list \<Rightarrow> ('w, worktree_info \<times> adapter_task_request) sop" where
  "prepare_run env task step priorResults =
     andThen (local_of lo_run) (\<lambda>run.
     andThen (local_of lo_worktree) (\<lambda>inherited.
     andThen (case inherited of Some w \<Rightarrow> ok w
       | None \<Rightarrow> lift (call_world env (sv_createWorktree (ce_services env) (tr_id task) (r_id run) (tr_repo task) (tr_baseRef task)))) (\<lambda>worktree.
     andThen (assign (\<lambda>l. l\<lparr>lo_worktree := Some worktree\<rparr>)) (\<lambda>_.
     andThen (lift (query co_shutdown)) (\<lambda>shutdown.
     andThen (lift (fail_if shutdown ''Worker shutdown requested before agent start.'')) (\<lambda>_.
     andThen (lift (call_world env (sv_captureSource (ce_services env) (wi_sourceRepo worktree)))) (\<lambda>snapshot.
     andThen (assign (\<lambda>l. l\<lparr>lo_snapshot := Some snapshot\<rparr>)) (\<lambda>_.
     andThen (patch_run env (worktree_patch worktree)) (\<lambda>_.
     let promptTask = prompt_task task (wi_worktreePath worktree);
         prompt = buildAgentPrompt promptTask (s_role step) priorResults in
     andThen (lift (call_world env (sv_prepareRunDirectory (ce_services env) (tr_id task) (r_id run)))) (\<lambda>artifactDir.
     andThen (lift (call_world env (sv_writeArtifact (ce_services env) \<lparr>aw_taskId = tr_id task, aw_runId = r_id run, aw_kind = KPrompt,
       aw_name = ''prompt.md'', aw_data = prompt\<rparr>))) (\<lambda>promptArtifact.
     andThen (lift (add_artifact env (promptArtifact\<lparr>ai_metadata := Some (step_info step)\<rparr>))) (\<lambda>_.
     andThen (lift (take_stop (r_id run))) (\<lambda>stopped.
     andThen (lift (fail_if stopped ''Operator requested cancellation before agent start.'')) (\<lambda>_.
     ok (worktree, \<lparr>rq_task = promptTask, rq_role = s_role step, rq_prompt = prompt, rq_workingDirectory = wi_worktreePath worktree,
       rq_artifactDir = artifactDir, rq_env = [(''ACC_CONTROL_RUN_ID'', r_id run)]\<rparr>)))))))))))))))"

subsection \<open>Starting the agent\<close>

definition persist_start :: "'w coord_env \<Rightarrow> task_record \<Rightarrow> step_row \<Rightarrow> worktree_info \<Rightarrow> adapter_run \<Rightarrow> ('w, unit) sop" where
  "persist_start env task step worktree started =
     andThen (patch_run env (started_patch started)) (\<lambda>_.
     andThen (local_of lo_run) (\<lambda>run.
     andThen (lift (publish env (tr_id task) (Some (r_id run)) ''run.started'' None
       (enum_name AgentKindSchema (s_agent step) @ '' started '' @ enum_name RouteRoleSchema (s_role step) @ ''.'')
       (Some (JObj [(''pid'', json_opt_int (ar_pid started)), (''worktreePath'', JStr (wi_worktreePath worktree))])))) (\<lambda>_.
     assign (\<lambda>l. l\<lparr>lo_persisted := Some started\<rparr>))))"

definition persistAdapterStart :: "'w coord_env \<Rightarrow> task_record \<Rightarrow> step_row \<Rightarrow> worktree_info \<Rightarrow> adapter_run \<Rightarrow> ('w, unit) sop" where
  "persistAdapterStart env task step worktree started =
     andThen (local_of (\<lambda>l. (lo_persisted l, lo_startRejected l))) (\<lambda>(persisted, rejected).
     case persisted of
       Some p \<Rightarrow> require (ar_id p = ar_id started \<and> ar_pid p = ar_pid started)
         (Thrown ''Adapter reported conflicting process-start evidence'')
     | None \<Rightarrow>
         (case rejected of
            Some e \<Rightarrow> fail e
          | None \<Rightarrow>
              andThen (attempt (persist_start env task step worktree started)) (\<lambda>r.
              case r of
                Inr _ \<Rightarrow> ok ()
              | Inl e \<Rightarrow> andThen (assign (\<lambda>l. l\<lparr>lo_startRejected := Some e\<rparr>)) (\<lambda>_. fail e))))"

text \<open>The adapter's \<open>startTask\<close>, which may call \<open>onStarted\<close>; its end is awaited.\<close>

definition call_startTask ::
  "'w coord_env \<Rightarrow> 'w adapter \<Rightarrow> adapter_task_request \<Rightarrow> (adapter_run \<Rightarrow> ('w, unit) sop) \<Rightarrow> ('w, adapter_run) sop" where
  "call_startTask env adapter request onStarted =
     andThen (lift (pause env)) (\<lambda>_.
     andThen (lift (\<lambda>s. case ad_startTask adapter request (co_world s) of (t, w) \<Rightarrow> (Inr t, s\<lparr>co_world := w\<rparr>))) (\<lambda>t.
     with_cleanup (converse onStarted Thrown t) (lift (pause env))))"

definition start_agent ::
  "'w coord_env \<Rightarrow> task_record \<Rightarrow> step_row \<Rightarrow> 'w adapter \<Rightarrow> worktree_info \<Rightarrow> adapter_task_request \<Rightarrow> ('w, adapter_run) sop" where
  "start_agent env task step adapter worktree request =
     andThen (call_startTask env adapter request (persistAdapterStart env task step worktree)) (\<lambda>adapterRun.
     andThen (assign (\<lambda>l. l\<lparr>lo_adapterRun := Some adapterRun\<rparr>)) (\<lambda>_.
     andThen (persistAdapterStart env task step worktree adapterRun) (\<lambda>_.
     andThen (local_of (\<lambda>l. r_id (lo_run l))) (\<lambda>runId.
     andThen (lift (set_active runId (tr_id task) (s_agent step) (ar_id adapterRun))) (\<lambda>_.
     andThen (lift (set_phase runId (tr_id task) PhActive)) (\<lambda>_.
     andThen (lift (take_stop runId)) (\<lambda>stopped.
     andThen (if stopped then andThen (lift (call_world env (ad_stop adapter (ar_id adapterRun)))) (\<lambda>_. lift (delete_active runId))
              else ok ()) (\<lambda>_.
     andThen (lift (query co_shutdown)) (\<lambda>shutdown.
     andThen (lift (fail_if shutdown ''Worker shutdown requested while agent was starting.'')) (\<lambda>_.
     ok adapterRun))))))))))"

subsection \<open>After the agent ends\<close>

definition capture_review :: "'w coord_env \<Rightarrow> task_record \<Rightarrow> string \<Rightarrow> worktree_info \<Rightarrow> ('w, unit) op" where
  "capture_review env task runId worktree =
     andThen (call_world env (sv_captureReview (ce_services env) (tr_id task) runId (wi_worktreePath worktree) (wi_baseCommit worktree))) (\<lambda>captured.
     forEach captured (\<lambda>artifact. andThen (add_artifact env artifact) (\<lambda>_. ok ())))"

text \<open>The evidence that must be durable before the run may be recorded as ended.\<close>

definition secure_evidence ::
  "'w coord_env \<Rightarrow> task_record \<Rightarrow> step_row \<Rightarrow> worktree_info \<Rightarrow> source_snapshot option \<Rightarrow> string \<Rightarrow> adapter_result \<Rightarrow> ('w, unit) op" where
  "secure_evidence env task step worktree snapshot runId result =
     andThen (case snapshot of None \<Rightarrow> ok () | Some sn \<Rightarrow> call_world env (sv_assertSourceUnchanged (ce_services env) sn)) (\<lambda>_.
     andThen (ingestAdapterArtifacts env (tr_id task) runId (rs_stdoutPath result) (rs_stderrPath result) (rs_resultPath result)) (\<lambda>_.
     andThen (case truthy (tr_verificationCommand task) of
         Some commandLine \<Rightarrow>
           if rs_status result = ASucceeded \<and> s_role step = Execute
           then andThen (set_phase runId (tr_id task) PhVerifying) (\<lambda>_.
                andThen (runVerification env (tr_id task) runId commandLine worktree) (\<lambda>_.
                set_phase runId (tr_id task) PhFinalizing))
           else ok ()
       | None \<Rightarrow> ok ()) (\<lambda>_.
     capture_review env task runId worktree)))"

definition record_result :: "'w coord_env \<Rightarrow> task_record \<Rightarrow> step_row \<Rightarrow> adapter_result \<Rightarrow> ('w, step_outcome) sop" where
  "record_result env task step result =
     andThen (patch_run env (result_patch result)) (\<lambda>_.
     let succeeded = (rs_status result = ASucceeded); status = (if succeeded then SSucceeded else SFailed) in
     andThen (lift (call_db env (\<lambda>other _ _ ts. updateRouteStep other ts (s_id step) (Some status) None))) (\<lambda>_.
     andThen (local_of lo_run) (\<lambda>run.
     andThen (lift (publish env (tr_id task) (Some (r_id run)) (if succeeded then ''run.succeeded'' else ''run.failed'')
       (Some (if succeeded then LInfo else LError))
       (if succeeded then enum_name AgentKindSchema (s_agent step) @ '' completed '' @ enum_name RouteRoleSchema (s_role step) @ ''.''
        else or_else (or_empty (rs_error result))
          (enum_name AgentKindSchema (s_agent step) @ '' failed '' @ enum_name RouteRoleSchema (s_role step) @ ''.'')) None)) (\<lambda>_.
     andThen (lift (forget_run (r_id run))) (\<lambda>_.
     andThen (local_of lo_worktree) (\<lambda>worktree.
     ok \<lparr>so_step = step\<lparr>s_status := status, s_run_id := Some (r_id run)\<rparr>, so_run = Some run, so_result = Some result,
       so_worktree = worktree, so_succeeded = succeeded, so_skipped = False, so_error = rs_error result\<rparr>))))))"

definition run_step :: "'w coord_env \<Rightarrow> task_record \<Rightarrow> step_row \<Rightarrow> 'w adapter \<Rightarrow> adapter_result list \<Rightarrow> ('w, step_outcome) sop" where
  "run_step env task step adapter priorResults =
     andThen (prepare_run env task step priorResults) (\<lambda>(worktree, request).
     andThen (start_agent env task step adapter worktree request) (\<lambda>adapterRun.
     andThen (lift (call_world env (ad_collectResult adapter (ar_id adapterRun)))) (\<lambda>result.
     andThen (local_of (\<lambda>l. (r_id (lo_run l), lo_snapshot l))) (\<lambda>(runId, snapshot).
     andThen (lift (delete_active runId)) (\<lambda>_.
     andThen (lift (set_phase runId (tr_id task) PhFinalizing)) (\<lambda>_.
     andThen (lift (secure_evidence env task step worktree snapshot runId result)) (\<lambda>_.
     record_result env task step result)))))))"

subsection \<open>Failure\<close>

definition stop_active :: "'w coord_env \<Rightarrow> string \<Rightarrow> ('w, unit) op" where
  "stop_active env runId =
     andThen (query (\<lambda>s. map_of (co_activeRuns s) runId)) (\<lambda>active. case active of
       None \<Rightarrow> ok ()
     | Some (_, agent, adapterRunId) \<Rightarrow>
         andThen (case ce_adapter env agent of None \<Rightarrow> ok ()
           | Some adapter \<Rightarrow> andThen (attempt (call_world env (ad_stop adapter adapterRunId))) (\<lambda>_. ok ())) (\<lambda>_.
         delete_active runId))"

text \<open>The failure's message, with the isolation failure of the source repository when there is one.\<close>

definition failure_message :: "'w coord_env \<Rightarrow> source_snapshot option \<Rightarrow> coord_error \<Rightarrow> ('w, string) op" where
  "failure_message env snapshot error = (let message = error_message env error in
     case snapshot of None \<Rightarrow> ok message
     | Some sn \<Rightarrow>
         andThen (attempt (call_world env (sv_assertSourceUnchanged (ce_services env) sn))) (\<lambda>r. case r of
           Inr _ \<Rightarrow> ok message
         | Inl e \<Rightarrow> (let isolationMessage = error_message env e in
             ok (if contains isolationMessage message then message else message @ newline @ isolationMessage))))"

definition fail_run :: "'w coord_env \<Rightarrow> string \<Rightarrow> ('w, unit) sop" where
  "fail_run env message =
     andThen (local_of (\<lambda>l. r_id (lo_run l))) (\<lambda>runId.
     andThen (lift (call_db env (\<lambda>_ _ _ _. query (getRun runId)))) (\<lambda>current.
     case current of None \<Rightarrow> ok ()
     | Some c \<Rightarrow>
         if r_status c = RStarting \<or> r_status c = RRunning
         then andThen (lift (clock env)) (\<lambda>now.
              patch_run env (no_patch\<lparr>up_status := Some RFailed, up_error := Some (Some message), up_finishedAt := Some (Some now)\<rparr>))
         else ok ()))"

definition step_failed :: "'w coord_env \<Rightarrow> task_record \<Rightarrow> step_row \<Rightarrow> coord_error \<Rightarrow> ('w, step_outcome) sop" where
  "step_failed env task step error =
     andThen (local_of (\<lambda>l. (r_id (lo_run l), lo_snapshot l, lo_adapterRun l, lo_worktree l))) (\<lambda>(runId, snapshot, adapterRun, worktree).
     andThen (lift (stop_active env runId)) (\<lambda>_.
     andThen (lift (set_phase runId (tr_id task) PhFinalizing)) (\<lambda>_.
     andThen (lift (failure_message env snapshot error)) (\<lambda>message.
     andThen (case adapterRun of None \<Rightarrow> ok None
       | Some a \<Rightarrow> andThen (attempt (lift (ingestAdapterArtifacts env (tr_id task) runId (ar_stdoutPath a) (ar_stderrPath a) (ar_resultPath a))))
           (\<lambda>r. ok (case r of Inl e \<Rightarrow> Some (error_message env e) | Inr _ \<Rightarrow> None))) (\<lambda>evidenceError.
     andThen (fail_run env message) (\<lambda>_.
     andThen (lift (call_db env (\<lambda>other _ _ ts. updateRouteStep other ts (s_id step) (Some SFailed) None))) (\<lambda>_.
     andThen (case worktree of None \<Rightarrow> ok ()
       | Some w \<Rightarrow> andThen (attempt (lift (capture_review env task runId w))) (\<lambda>_. ok ())) (\<lambda>_.
     andThen (lift (publish env (tr_id task) (Some runId) ''run.failed'' (Some LError) message None)) (\<lambda>_.
     andThen (case truthy evidenceError of None \<Rightarrow> ok ()
       | Some e \<Rightarrow> lift (publish env (tr_id task) (Some runId) ''artifact.capture_failed'' (Some LError) e None)) (\<lambda>_.
     andThen (lift (forget_run runId)) (\<lambda>_.
     andThen (local_of lo_run) (\<lambda>run.
     ok \<lparr>so_step = step\<lparr>s_status := SFailed, s_run_id := Some runId\<rparr>, so_run = Some run, so_result = None,
       so_worktree = worktree, so_succeeded = False, so_skipped = False, so_error = Some message\<rparr>))))))))))))"

subsection \<open>The step\<close>

definition initial_locals :: "run_row \<Rightarrow> worktree_info option \<Rightarrow> step_locals" where
  "initial_locals run inherited = \<lparr>lo_run = run, lo_worktree = inherited, lo_adapterRun = None, lo_snapshot = None,
     lo_persisted = None, lo_startRejected = None\<rparr>"

definition open_run :: "'w coord_env \<Rightarrow> task_record \<Rightarrow> step_row \<Rightarrow> ('w, run_row) op" where
  "open_run env task step =
     andThen (call_db env (\<lambda>other other' uid ts. createRun other other' uid ts \<lparr>ci_taskId = tr_id task, ci_routeStepId = s_id step,
       ci_agent = s_agent step, ci_role = s_role step, ci_worktreePath = None, ci_branch = None, ci_baseCommit = None\<rparr>)) (\<lambda>run.
     andThen (set_phase (r_id run) (tr_id task) PhStarting) (\<lambda>_.
     andThen (call_db env (\<lambda>other _ _ ts. updateRouteStep other ts (s_id step) (Some SRunning) (Some (Some (r_id run))))) (\<lambda>_.
     andThen (clock env) (\<lambda>now.
     andThen (call_db env (\<lambda>other other' _ ts. updateRun other other' ts (r_id run)
       (no_patch\<lparr>up_status := Some RStarting, up_startedAt := Some (Some now)\<rparr>))) (\<lambda>run'.
     andThen (publish env (tr_id task) (Some (r_id run')) ''run.starting'' None
       (enum_name AgentKindSchema (s_agent step) @ '' is starting the '' @ enum_name RouteRoleSchema (s_role step) @ '' step.'') None) (\<lambda>_.
     ok run'))))))"

definition executeStep ::
  "'w coord_env \<Rightarrow> task_record \<Rightarrow> step_row \<Rightarrow> adapter_result list \<Rightarrow> worktree_info option \<Rightarrow> ('w, step_outcome) op" where
  "executeStep env task step priorResults inheritedWorktree =
     andThen (query co_shutdown) (\<lambda>shutdown.
     if shutdown then unavailableStep env step ''Worker shutdown requested before execution.''
     else case ce_adapter env (s_agent step) of
       None \<Rightarrow> unavailableStep env step (''Adapter is not registered: '' @ enum_name AgentKindSchema (s_agent step))
     | Some adapter \<Rightarrow>
         andThen (call_world env (ad_availability adapter)) (\<lambda>availability.
         if \<not> av_available availability
         then unavailableStep env step (enum_name AgentKindSchema (s_agent step) @ '' unavailable: ''
                @ (case av_reason availability of Some r \<Rightarrow> r | None \<Rightarrow> av_target availability))
         else
           andThen (query co_shutdown) (\<lambda>shutdown'.
           if shutdown' then unavailableStep env step ''Worker shutdown requested before execution.''
           else
             andThen (open_run env task step) (\<lambda>run.
             with_locals (initial_locals run inheritedWorktree)
               (andThen (attempt (run_step env task step adapter priorResults)) (\<lambda>r. case r of
                  Inr outcome \<Rightarrow> ok outcome
                | Inl error \<Rightarrow> step_failed env task step error))))))"

end
