(* ===== verification/CoordTask.thy ===== *)
theory CoordTask
  imports CoordRun
begin

text \<open>
  \<open>Coordinator.createTask\<close>, \<open>runNext\<close>, \<open>executeTask\<close> and \<open>#executeClaimedTask\<close>: the route steps of a claimed
  task in the groups of their sequence numbers, and the ways a task ends.

  The steps of a group run concurrently in the source; here they run one after the other, each with the
  interference of the others at its pauses, and all of them run even if one throws.
\<close>

record run_task_result =
  rt_taskId :: string
  rt_status :: task_result_status
  rt_handoffPath :: "string option"
  rt_outcomes :: "step_outcome list"

subsection \<open>Handoff and blocking\<close>

definition writeHandoff :: "'w coord_env \<Rightarrow> string \<Rightarrow> task_result_status \<Rightarrow> string option \<Rightarrow> ('w, string option) op" where
  "writeHandoff env taskId status blockedReason =
     andThen (call_db env (\<lambda>_ _ _ _. getTask taskId)) (\<lambda>found. case found of
       None \<Rightarrow> ok None
     | Some aggregate \<Rightarrow>
         if ag_runs aggregate = [] then ok None
         else
           andThen (call_world env (sv_writeArtifact (ce_services env) \<lparr>aw_taskId = taskId, aw_runId = r_id (last (ag_runs aggregate)),
             aw_kind = KHandoff, aw_name = ''handoff.md'', aw_data = handoff_body aggregate status blockedReason\<rparr>)) (\<lambda>artifact.
           andThen (add_artifact env artifact) (\<lambda>_. ok (Some (ai_path artifact)))))"

definition block_task :: "'w coord_env \<Rightarrow> string \<Rightarrow> string \<Rightarrow> ('w, unit) op" where
  "block_task env taskId detail = call_db env (\<lambda>other _ _ ts. updateTaskStatus other ts taskId TBlocked detail)"

definition blockForShutdown :: "'w coord_env \<Rightarrow> string \<Rightarrow> step_outcome list \<Rightarrow> ('w, run_task_result) op" where
  "blockForShutdown env taskId outcomes =
     (let message = ''Worker shutdown interrupted task execution; retry is explicit.'' in
      andThen (attempt (writeHandoff env taskId ResBlocked (Some message))) (\<lambda>r.
      let handoffPath = (case r of Inr p \<Rightarrow> p | Inl _ \<Rightarrow> None);
          detail = (case r of Inr _ \<Rightarrow> message | Inl e \<Rightarrow> message @ '' Could not persist handoff evidence: '' @ error_message env e) in
      andThen (call_db env (\<lambda>_ _ _ _. getTask taskId)) (\<lambda>found.
      andThen (case found of None \<Rightarrow> ok ()
        | Some aggregate \<Rightarrow> if tr_status (ag_task aggregate) = TRunning then block_task env taskId detail else ok ()) (\<lambda>_.
      andThen (publish env taskId None ''task.blocked'' (Some LWarn) detail None) (\<lambda>_.
      ok \<lparr>rt_taskId = taskId, rt_status = ResBlocked, rt_handoffPath = handoffPath, rt_outcomes = outcomes\<rparr>)))))"

definition blockForFailure :: "'w coord_env \<Rightarrow> string \<Rightarrow> step_outcome \<Rightarrow> step_outcome list \<Rightarrow> ('w, run_task_result) op" where
  "blockForFailure env taskId failure outcomes =
     (let detail = (case so_error failure of Some e \<Rightarrow> e
        | None \<Rightarrow> enum_name AgentKindSchema (s_agent (so_step failure)) @ '' '' @ enum_name RouteRoleSchema (s_role (so_step failure)) @ '' failed'') in
      andThen (attempt (writeHandoff env taskId ResBlocked (Some detail))) (\<lambda>r.
      let handoffPath = (case r of Inr p \<Rightarrow> p | Inl _ \<Rightarrow> None);
          detail' = (case r of Inr _ \<Rightarrow> detail | Inl e \<Rightarrow> detail @ ''; could not persist handoff evidence: '' @ error_message env e) in
      andThen (block_task env taskId detail') (\<lambda>_.
      andThen (publish env taskId (map_option r_id (so_run failure)) ''task.blocked'' (Some LError) detail' None) (\<lambda>_.
      ok \<lparr>rt_taskId = taskId, rt_status = ResBlocked, rt_handoffPath = handoffPath, rt_outcomes = outcomes\<rparr>))))"

subsection \<open>The groups\<close>

primrec run_each :: "('x \<Rightarrow> ('w, 'a) op) \<Rightarrow> 'x list \<Rightarrow> ('w, (coord_error + 'a) list) op" where
  "run_each f [] = ok []"
| "run_each f (x # xs) = andThen (attempt (f x)) (\<lambda>r. andThen (run_each f xs) (\<lambda>rs. ok (r # rs)))"

fun all_right :: "('e + 'a) list \<Rightarrow> 'e + 'a list" where
  "all_right [] = Inr []"
| "all_right (Inl e # rs) = Inl e"
| "all_right (Inr x # rs) = (case all_right rs of Inl e \<Rightarrow> Inl e | Inr xs \<Rightarrow> Inr (x # xs))"

definition promise_all :: "('x \<Rightarrow> ('w, 'a) op) \<Rightarrow> 'x list \<Rightarrow> ('w, 'a list) op" where
  "promise_all f xs = andThen (run_each f xs) (\<lambda>rs. lift_res (all_right rs))"

definition succeeded_results :: "step_outcome list \<Rightarrow> adapter_result list" where
  "succeeded_results outcomes = concat (map (\<lambda>o'. case so_result o' of None \<Rightarrow> []
     | Some r \<Rightarrow> if rs_status r = ASucceeded then [r] else []) outcomes)"

definition first_worktree :: "step_outcome list \<Rightarrow> worktree_info option" where
  "first_worktree outcomes = (case find (\<lambda>o'. so_worktree o' \<noteq> None) outcomes of None \<Rightarrow> None | Some o' \<Rightarrow> so_worktree o')"

text \<open>\<open>Inl\<close>: the task ended blocked; \<open>Inr\<close>: every group ran without a required failure.\<close>

primrec run_groups ::
  "'w coord_env \<Rightarrow> task_record \<Rightarrow> step_row list \<Rightarrow> int list \<Rightarrow> adapter_result list \<Rightarrow> worktree_info option \<Rightarrow> step_outcome list \<Rightarrow>
   ('w, run_task_result + step_outcome list) op" where
  "run_groups env task pending [] prior inherited outcomes = ok (Inr outcomes)"
| "run_groups env task pending (sequence # sequences) prior inherited outcomes =
     andThen (query co_shutdown) (\<lambda>shutdown.
     if shutdown then andThen (blockForShutdown env (tr_id task) outcomes) (\<lambda>r. ok (Inl r))
     else
       andThen (promise_all (\<lambda>step. executeStep env task step prior inherited) (filter (\<lambda>st. s_sequence_no st = sequence) pending)) (\<lambda>groupOutcomes.
       andThen (query co_shutdown) (\<lambda>shutdown'.
       if shutdown' then andThen (blockForShutdown env (tr_id task) (outcomes @ groupOutcomes)) (\<lambda>r. ok (Inl r))
       else case find (\<lambda>o'. s_required (so_step o') \<and> \<not> so_succeeded o') groupOutcomes of
         Some failure \<Rightarrow> andThen (blockForFailure env (tr_id task) failure (outcomes @ groupOutcomes)) (\<lambda>r. ok (Inl r))
       | None \<Rightarrow> run_groups env task pending sequences (prior @ succeeded_results groupOutcomes)
           (case inherited of Some w \<Rightarrow> Some w | None \<Rightarrow> first_worktree groupOutcomes) (outcomes @ groupOutcomes))))"

subsection \<open>The end of a task\<close>

definition latest_succeeded :: "run_row list \<Rightarrow> string option" where
  "latest_succeeded rows = map_option r_id (find (\<lambda>run. r_status run = RSucceeded) (rev rows))"

definition complete_task :: "'w coord_env \<Rightarrow> string \<Rightarrow> step_outcome list \<Rightarrow> ('w, run_task_result) op" where
  "complete_task env taskId outcomes =
     andThen (call_db env (\<lambda>_ _ _ _. getTask taskId)) (\<lambda>found.
     andThen (orThrow (Thrown (''Task disappeared during execution: '' @ taskId)) found) (\<lambda>refreshed.
     let needsReview = (tr_handoffRequired (ag_task refreshed) \<or> rp_risk (tr_routePlan (ag_task refreshed)) = RiskHigh);
         status = (if needsReview then ResNeedsReview else ResDone);
         message = (if needsReview then ''Execution evidence is ready for human review.''
           else ''All required route steps completed successfully.'');
         latestRun = latest_succeeded (ag_runs refreshed) in
     andThen (attempt (writeHandoff env taskId status None)) (\<lambda>r. case r of
       Inl e \<Rightarrow>
         (let detail = ''Could not persist completion evidence: '' @ error_message env e in
          andThen (block_task env taskId detail) (\<lambda>_.
          andThen (publish env taskId latestRun ''task.blocked'' (Some LError) detail None) (\<lambda>_.
          ok \<lparr>rt_taskId = taskId, rt_status = ResBlocked, rt_handoffPath = None, rt_outcomes = outcomes\<rparr>)))
     | Inr handoffPath \<Rightarrow>
         andThen (call_db env (\<lambda>_ _ uid ts. finalizeTaskExecution uid ts taskId (if needsReview then TNeedsReview else TDone) message latestRun)) (\<lambda>_.
         andThen (publish env taskId latestRun (if needsReview then ''review.requested'' else ''task.completed'') None message
           (case truthy handoffPath of None \<Rightarrow> None | Some p \<Rightarrow> Some (JObj [(''handoffPath'', JStr p)]))) (\<lambda>_.
         ok \<lparr>rt_taskId = taskId, rt_status = status, rt_handoffPath = handoffPath, rt_outcomes = outcomes\<rparr>)))))"

definition pending_steps :: "task_aggregate \<Rightarrow> step_row list" where
  "pending_steps aggregate = filter (\<lambda>st. s_status st = SPending) (ag_routeSteps aggregate)"

definition prior_results :: "task_aggregate \<Rightarrow> adapter_result list" where
  "prior_results aggregate = List.map_filter historicalAdapterResult (ag_runs aggregate)"

definition executeClaimedTask :: "'w coord_env \<Rightarrow> task_aggregate \<Rightarrow> ('w, run_task_result) op" where
  "executeClaimedTask env aggregate =
     (let task = (ag_task aggregate)\<lparr>tr_context := execution_context aggregate\<rparr>; pending = pending_steps aggregate in
      andThen (run_groups env task pending (sort (remdups (map s_sequence_no pending))) (prior_results aggregate)
        (inherited_worktree aggregate) []) (\<lambda>r. case r of
        Inl result \<Rightarrow> ok result
      | Inr outcomes \<Rightarrow>
          andThen (query co_shutdown) (\<lambda>shutdown.
          if shutdown then blockForShutdown env (tr_id task) outcomes else complete_task env (tr_id task) outcomes)))"

subsection \<open>Public operations\<close>

definition executeTask :: "'w coord_env \<Rightarrow> string \<Rightarrow> ('w, run_task_result) op" where
  "executeTask env taskId =
     andThen (call_db env (\<lambda>_ _ _ _. getTask taskId)) (\<lambda>found.
     andThen (orThrow (Thrown (''Task not found: '' @ taskId)) found) (\<lambda>aggregate.
     andThen (fail_if (tr_status (ag_task aggregate) \<noteq> TRunning) (''Task '' @ taskId @ '' must be claimed before execution'')) (\<lambda>_.
     andThen (fail_if (tr_claimedBy (ag_task aggregate) \<noteq> Some (ce_workerId env))
       (''Task '' @ taskId @ '' is claimed by '' @ (case tr_claimedBy (ag_task aggregate) of None \<Rightarrow> ''nobody'' | Some w \<Rightarrow> w) @ '', not '' @ ce_workerId env)) (\<lambda>_.
     andThen (query co_shutdown) (\<lambda>shutdown.
     if shutdown then blockForShutdown env taskId []
     else
       andThen (call_db env (\<lambda>_ _ _ ts. heartbeatTask ts taskId (ce_workerId env))) (\<lambda>_.
       executeClaimedTask env aggregate))))))"

definition runNext :: "'w coord_env \<Rightarrow> ('w, run_task_result option) op" where
  "runNext env =
     andThen (query co_shutdown) (\<lambda>shutdown.
     if shutdown then ok None
     else
       andThen (call_db env (\<lambda>_ _ _ ts. claimNextTask ts (ce_workerId env))) (\<lambda>claimed. case claimed of
         None \<Rightarrow> ok None
       | Some aggregate \<Rightarrow> andThen (executeTask env (tr_id (ag_task aggregate))) (\<lambda>r. ok (Some r))))"

text \<open>\<open>createTask\<close> takes the unparsed request; the router draws its step identifiers from \<open>ids\<close>.\<close>

definition coord_createTask :: "'w coord_env \<Rightarrow> (nat \<Rightarrow> string) \<Rightarrow> json \<Rightarrow> ('w, task_aggregate) op" where
  "coord_createTask env ids input =
     andThen (orThrow (DbFailed ValidationFailed) (parseTaskPayload input)) (\<lambda>parsed.
     let task = parsed\<lparr>p_repo := resolve (ce_cwd env) (p_repo parsed)\<rparr>; plan = routeTask ids task in
     andThen (call_db env (\<lambda>_ _ uid ts. createTask uid ts task plan)) (\<lambda>created.
     andThen (publish env (tr_id (ag_task created)) None ''route.decided'' None (join '' '' (rp_reasons plan)) (Some (JObj [
       (''mode'', JStr (enum_name [(''single'', Single), (''sequential'', Sequential), (''parallel'', Parallel)] (rp_mode plan))),
       (''risk'', JStr (enum_name [(''normal'', RiskNormal), (''high'', RiskHigh)] (rp_risk plan))),
       (''agents'', JArr (map (\<lambda>st. JStr (enum_name AgentKindSchema (st_agent st))) (rp_steps plan)))]))) (\<lambda>_.
     ok created)))"

end
