(* ===== verification/CoordFacts.thy ===== *)
theory CoordFacts
  imports CoordTask
begin

text \<open>
  What every operation of the coordinator keeps, whatever the environment does at its pauses within the rely
  \<open>well_behaved\<close>: the database evolves as \<open>DbLifecycle\<close> shows every database operation does.
\<close>

subsection \<open>The relation\<close>

definition coord_evolves :: "'w coord \<Rightarrow> 'w coord \<Rightarrow> bool" where
  "coord_evolves s t \<longleftrightarrow> db_evolves (task_edges\<^sup>+) (run_edges\<^sup>+) (co_db s) (co_db t)"

text \<open>The others change the database only by database operations.\<close>

definition well_behaved :: "'w coord_env \<Rightarrow> bool" where
  "well_behaved env \<longleftrightarrow> (\<forall>n s. coord_evolves s (ce_other env n s)) \<and> (\<forall>n d. db_evolves (task_edges\<^sup>+) (run_edges\<^sup>+) d (ce_otherDb env n d))"

interpretation coord: evolution "coord_evolves :: 'w coord \<Rightarrow> 'w coord \<Rightarrow> bool"
  by unfold_locales (auto simp: coord_evolves_def intro: any_moves.db_evolves_refl any_moves.db_evolves_trans)

definition locals_evolve :: "step_locals \<times> 'w coord \<Rightarrow> step_locals \<times> 'w coord \<Rightarrow> bool" where
  "locals_evolve x y \<longleftrightarrow> coord_evolves (snd x) (snd y)"

interpretation locals: evolution "locals_evolve :: step_locals \<times> 'w coord \<Rightarrow> step_locals \<times> 'w coord \<Rightarrow> bool"
  by unfold_locales (auto simp: locals_evolve_def intro: coord.refl coord.trans)

context evolution
begin

lemma keeps_attempt: "keeps R m \<Longrightarrow> keeps R (attempt m)"
  by (simp add: keeps_def attempt_def split_def)

lemma keeps_with_cleanup: "keeps R m \<Longrightarrow> keeps R c \<Longrightarrow> keeps R (with_cleanup m c)"
  unfolding with_cleanup_def by (intro keeps_andThen keeps_attempt keeps_basic)

lemma keeps_converse: "(\<And>r. keeps R (callback r)) \<Longrightarrow> keeps R (converse callback err t)"
proof (induction t)
  case (Ends r)
  then show ?case by (simp split: sum.split) (intro conjI allI impI keeps_basic)
next
  case (Calls r k)
  have "keeps R (converse callback err (k b))" for b by (rule Calls.IH) (auto intro: Calls.prems)
  then show ?case by (simp, intro keeps_andThen keeps_attempt Calls.prems) (simp add: split: sum.split)
qed

lemmas keeps_control = keeps_rules keeps_attempt keeps_with_cleanup keeps_converse

end

subsection \<open>The building blocks\<close>

lemma coord_same: "co_db t = co_db s \<Longrightarrow> coord_evolves s t"
  by (simp add: coord_evolves_def any_moves.db_evolves_refl)

lemma keeps_same: "(\<And>s. co_db (snd (m s)) = co_db s) \<Longrightarrow> keeps coord_evolves m"
  by (simp add: keeps_def coord_same)

lemma keeps_pause: "well_behaved env \<Longrightarrow> keeps coord_evolves (pause env)"
  by (auto simp: keeps_def pause_def update_def well_behaved_def coord_evolves_def)

lemma keeps_await: "well_behaved env \<Longrightarrow> keeps coord_evolves m \<Longrightarrow> keeps coord_evolves (await env m)"
  unfolding await_def by (intro coord.keeps_control keeps_pause)

lemma keeps_call_db:
  assumes "well_behaved env"
    and "\<And>other other' uid ts. (\<And>d. db_evolves (task_edges\<^sup>+) (run_edges\<^sup>+) d (other d)) \<Longrightarrow>
      (\<And>d. db_evolves (task_edges\<^sup>+) (run_edges\<^sup>+) d (other' d)) \<Longrightarrow> keeps (db_evolves (task_edges\<^sup>+) (run_edges\<^sup>+)) (f other other' uid ts)"
  shows "keeps coord_evolves (call_db env f)"
proof -
  have "keeps (db_evolves (task_edges\<^sup>+) (run_edges\<^sup>+)) (f (ce_otherDb env n) (ce_otherDb env m) uid ts)" for n m uid ts
    using assms(1) by (intro assms(2)) (simp_all add: well_behaved_def)
  then have "keeps coord_evolves (db_call_op env f)"
    by (auto simp: keeps_def db_call_op_def coord_evolves_def split: prod.splits) (metis snd_conv)
  then show ?thesis unfolding call_db_def by (intro keeps_await assms(1))
qed

lemma keeps_call_world: "well_behaved env \<Longrightarrow> keeps coord_evolves (call_world env m)"
  unfolding call_world_def by (intro keeps_await keeps_same) (auto simp: world_op_def split: prod.splits)

lemma keeps_clock: "keeps coord_evolves (clock env)"
  by (rule keeps_same) (simp add: clock_def)

lemma keeps_maps:
  "keeps coord_evolves (set_phase i t p)" "keeps coord_evolves (set_active i t a r)" "keeps coord_evolves (delete_active i)"
  "keeps coord_evolves (forget_run i)" "keeps coord_evolves (take_stop i)" "keeps coord_evolves (fail_if b m)"
  by (rule keeps_same, simp add: set_phase_def set_active_def delete_active_def forget_run_def take_stop_def fail_if_def update_def require_def)+

lemma keeps_get: "keeps (db_evolves M N) (getTask i) \<longleftrightarrow> (\<forall>s. db_evolves M N s s)"
  by (simp add: keeps_def getTask_snd)

lemma keeps_publish: "well_behaved env \<Longrightarrow> keeps coord_evolves (publish env t r ty l m d)"
  unfolding publish_def by (intro coord.keeps_control keeps_call_db keeps_call_world any_moves.keeps_appendEvent)

lemma keeps_add_artifact: "well_behaved env \<Longrightarrow> keeps coord_evolves (add_artifact env a)"
  unfolding add_artifact_def by (intro keeps_call_db any_moves.keeps_addArtifact)

lemma keeps_lift: "keeps coord_evolves m \<Longrightarrow> keeps locals_evolve (lift m)"
  by (auto simp: keeps_def lift_def locals_evolve_def split: prod.splits) (metis snd_conv)

lemma keeps_locals: "keeps locals_evolve (assign f)" "keeps locals_evolve (local_of g)"
  by (auto simp: keeps_def assign_def local_of_def update_def query_def locals_evolve_def coord_same split: prod.splits)

lemma keeps_with_locals: "keeps locals_evolve m \<Longrightarrow> keeps coord_evolves (with_locals l m)"
  by (auto simp: keeps_def with_locals_def locals_evolve_def split: prod.splits) (metis snd_conv)

lemmas keeps_blocks = coord.keeps_control keeps_call_world keeps_clock keeps_maps keeps_publish keeps_add_artifact

subsection \<open>Steps\<close>

lemma keeps_unavailableStep: "well_behaved env \<Longrightarrow> keeps coord_evolves (unavailableStep env step m)"
  unfolding unavailableStep_def by (intro keeps_blocks keeps_call_db any_moves.keeps_updateRouteStep)

lemma keeps_ingest: "well_behaved env \<Longrightarrow> keeps coord_evolves (ingestAdapterArtifacts env t r a b c)"
  unfolding ingestAdapterArtifacts_def ingest_file_def Let_def by (intro keeps_blocks)

lemma keeps_runVerification: "well_behaved env \<Longrightarrow> keeps coord_evolves (runVerification env t r c w)"
  unfolding runVerification_def verifier_run_def verifier_started_def Let_def
  by (intro keeps_blocks keeps_await) (auto intro: coord_same split: prod.splits simp: keeps_def)

lemma keeps_capture_review: "well_behaved env \<Longrightarrow> keeps coord_evolves (capture_review env t r w)"
  unfolding capture_review_def by (intro keeps_blocks)

lemma keeps_secure_evidence: "well_behaved env \<Longrightarrow> keeps coord_evolves (secure_evidence env t st w sn r res)"
  unfolding secure_evidence_def by (intro keeps_blocks keeps_ingest keeps_runVerification keeps_capture_review)

lemma keeps_patch_run: "well_behaved env \<Longrightarrow> keeps locals_evolve (patch_run env p)"
  unfolding patch_run_def
  by (intro locals.keeps_control keeps_locals keeps_lift keeps_call_db any_moves.keeps_updateRun) (auto intro: edge_in_trancl)

lemmas keeps_locals_blocks = locals.keeps_control keeps_locals keeps_patch_run keeps_lift

lemma keeps_prepare_run: "well_behaved env \<Longrightarrow> keeps locals_evolve (prepare_run env t st prior)"
  unfolding prepare_run_def Let_def by (intro keeps_locals_blocks keeps_blocks)

lemma keeps_persistAdapterStart: "well_behaved env \<Longrightarrow> keeps locals_evolve (persistAdapterStart env t st w a)"
  unfolding persistAdapterStart_def persist_start_def by (intro keeps_locals_blocks keeps_blocks)

lemma keeps_start_agent: "well_behaved env \<Longrightarrow> keeps locals_evolve (start_agent env t st ad w rq)"
  unfolding start_agent_def call_startTask_def
  by (intro keeps_locals_blocks keeps_persistAdapterStart keeps_pause keeps_blocks)
    (auto intro: keeps_same split: prod.splits)

lemma keeps_record_result: "well_behaved env \<Longrightarrow> keeps locals_evolve (record_result env t st res)"
  unfolding record_result_def Let_def
  by (intro keeps_locals_blocks keeps_blocks keeps_call_db any_moves.keeps_updateRouteStep)

lemma keeps_run_step: "well_behaved env \<Longrightarrow> keeps locals_evolve (run_step env t st ad prior)"
  unfolding run_step_def
  by (intro keeps_locals_blocks keeps_prepare_run keeps_start_agent keeps_blocks keeps_secure_evidence keeps_record_result)

lemma keeps_stop_active: "well_behaved env \<Longrightarrow> keeps coord_evolves (stop_active env i)"
  unfolding stop_active_def by (intro keeps_blocks)

lemma keeps_failure_message: "well_behaved env \<Longrightarrow> keeps coord_evolves (failure_message env sn e)"
  unfolding failure_message_def Let_def by (intro keeps_blocks)

lemma keeps_fail_run: "well_behaved env \<Longrightarrow> keeps locals_evolve (fail_run env m)"
  unfolding fail_run_def by (intro keeps_locals_blocks keeps_blocks keeps_call_db any_moves.keeps_basic)

lemma keeps_step_failed: "well_behaved env \<Longrightarrow> keeps locals_evolve (step_failed env t st e)"
  unfolding step_failed_def
  by (intro keeps_locals_blocks keeps_stop_active keeps_failure_message keeps_ingest keeps_fail_run keeps_capture_review
      keeps_blocks keeps_call_db any_moves.keeps_updateRouteStep)

lemma keeps_open_run: "well_behaved env \<Longrightarrow> keeps coord_evolves (open_run env t st)"
  unfolding open_run_def
  by (intro keeps_blocks keeps_call_db any_moves.keeps_createRun any_moves.keeps_updateRouteStep any_moves.keeps_updateRun)
    (auto intro: edge_in_trancl)

lemma keeps_executeStep: "well_behaved env \<Longrightarrow> keeps coord_evolves (executeStep env t st prior inh)"
  unfolding executeStep_def
  by (intro keeps_blocks keeps_unavailableStep keeps_open_run keeps_with_locals locals.keeps_control keeps_run_step keeps_step_failed)

subsection \<open>Tasks\<close>

lemma keeps_task_read: "keeps (db_evolves (task_edges\<^sup>+) (run_edges\<^sup>+)) (getTask i)"
  by (simp add: keeps_get any_moves.db_evolves_refl)

lemma keeps_writeHandoff: "well_behaved env \<Longrightarrow> keeps coord_evolves (writeHandoff env i st r)"
  unfolding writeHandoff_def by (intro keeps_blocks keeps_call_db keeps_task_read)

lemma keeps_block_task: "well_behaved env \<Longrightarrow> keeps coord_evolves (block_task env i d)"
  unfolding block_task_def by (intro keeps_call_db any_moves.keeps_updateTaskStatus) (auto intro: edge_in_trancl)

lemma keeps_blockForShutdown: "well_behaved env \<Longrightarrow> keeps coord_evolves (blockForShutdown env i os)"
  unfolding blockForShutdown_def Let_def by (intro keeps_blocks keeps_writeHandoff keeps_block_task keeps_call_db keeps_task_read)

lemma keeps_blockForFailure: "well_behaved env \<Longrightarrow> keeps coord_evolves (blockForFailure env i o' os)"
  unfolding blockForFailure_def Let_def by (intro keeps_blocks keeps_writeHandoff keeps_block_task)

lemma keeps_promise_all: "(\<And>x. keeps coord_evolves (f x)) \<Longrightarrow> keeps coord_evolves (promise_all f xs)"
proof -
  assume f: "\<And>x. keeps coord_evolves (f x)"
  have "keeps coord_evolves (run_each f xs)" by (induction xs) (auto intro!: coord.keeps_control f)
  then show ?thesis unfolding promise_all_def by (intro coord.keeps_control)
qed

lemma keeps_run_groups: "well_behaved env \<Longrightarrow> keeps coord_evolves (run_groups env t pending sqs prior inh os)"
proof (induction sqs arbitrary: prior inh os)
  case (Cons sequence sqs)
  show ?case unfolding run_groups.simps
    by (intro keeps_blocks keeps_blockForShutdown keeps_blockForFailure keeps_promise_all keeps_executeStep Cons)
qed (simp, rule coord.keeps_control)

lemma keeps_complete_task: "well_behaved env \<Longrightarrow> keeps coord_evolves (complete_task env i os)"
  unfolding complete_task_def Let_def
  by (intro keeps_blocks keeps_call_db keeps_task_read keeps_writeHandoff keeps_block_task any_moves.keeps_reviews)
    (auto simp: protocol_edges)

lemma keeps_executeClaimedTask: "well_behaved env \<Longrightarrow> keeps coord_evolves (executeClaimedTask env a)"
  unfolding executeClaimedTask_def Let_def
  by (intro keeps_blocks keeps_run_groups keeps_blockForShutdown keeps_complete_task)

lemma keeps_executeTask: "well_behaved env \<Longrightarrow> keeps coord_evolves (executeTask env i)"
  unfolding executeTask_def
  by (intro keeps_blocks keeps_call_db keeps_task_read keeps_blockForShutdown keeps_executeClaimedTask any_moves.keeps_heartbeatTask)

subsection \<open>What an operation returns\<close>

text \<open>\<open>yields m Q\<close>: whenever \<open>m\<close> returns from \<open>s\<close> with \<open>x\<close> in \<open>t\<close>, \<open>Q s x t\<close> holds.\<close>

definition yields :: "('e, 's, 'a) eff \<Rightarrow> ('s \<Rightarrow> 'a \<Rightarrow> 's \<Rightarrow> bool) \<Rightarrow> bool" where
  "yields m Q \<longleftrightarrow> (\<forall>s x t. m s = (Inr x, t) \<longrightarrow> Q s x t)"

lemma yieldsD: "yields m Q \<Longrightarrow> m s = (Inr x, t) \<Longrightarrow> Q s x t"
  by (simp add: yields_def)

lemma yields_ok: "(\<And>s. Q s x s) \<Longrightarrow> yields (ok x) Q"
  by (simp add: yields_def ok_def)

lemma yields_fail: "yields (fail e) Q"
  by (simp add: yields_def fail_def)

lemma yields_andThen: "yields m P \<Longrightarrow> (\<And>x. yields (f x) (\<lambda>t y u. \<forall>s. P s x t \<longrightarrow> Q s y u)) \<Longrightarrow> yields (andThen m f) Q"
  by (fastforce simp: yields_def andThen_Inr)

lemma yields_any: "yields m (\<lambda>s x t. True)"
  by (simp add: yields_def)

lemma yields_skip: "(\<And>x. yields (f x) (\<lambda>t y u. \<forall>s. Q s y u)) \<Longrightarrow> yields (andThen m f) Q"
  by (fastforce simp: yields_def andThen_Inr)

lemma yields_drop: "(\<And>x. yields (f x) (\<lambda>s y t. Q y t)) \<Longrightarrow> yields (andThen m f) (\<lambda>s y t. Q y t)"
  by (fastforce simp: yields_def andThen_Inr)

lemma yields_value: "yields m (\<lambda>s x t. P x) \<Longrightarrow> (\<And>x. P x \<Longrightarrow> yields (f x) (\<lambda>s y t. Q y t)) \<Longrightarrow> yields (andThen m f) (\<lambda>s y t. Q y t)"
  by (fastforce simp: yields_def andThen_Inr)

lemma yields_attempt: "yields m Q \<Longrightarrow> yields (attempt m) (\<lambda>s r t. case r of Inl _ \<Rightarrow> True | Inr x \<Rightarrow> Q s x t)"
  by (auto simp: yields_def attempt_def split: prod.splits sum.splits)

lemma yields_split:
  "(b \<Longrightarrow> yields m Q) \<Longrightarrow> (\<not> b \<Longrightarrow> yields n Q) \<Longrightarrow> yields (if b then m else n) Q"
  "(y = None \<Longrightarrow> yields k Q) \<Longrightarrow> (\<And>x. y = Some x \<Longrightarrow> yields (g x) Q) \<Longrightarrow> yields (case y of None \<Rightarrow> k | Some x \<Rightarrow> g x) Q"
  "(\<And>e. r = Inl e \<Longrightarrow> yields (h e) Q) \<Longrightarrow> (\<And>x. r = Inr x \<Longrightarrow> yields (g' x) Q) \<Longrightarrow> yields (case r of Inl e \<Rightarrow> h e | Inr x \<Rightarrow> g' x) Q"
  by (auto split: option.splits sum.splits)

end
