(* ===== verification/CoordDemo.thy ===== *)
theory CoordDemo
  imports CoordTask
begin

text \<open>
  A small deployment: one claimed task with an execution step, one adapter that starts a process, reports it
  and succeeds, an artifact store and a verifier that passes. The witnesses of the coordinator's properties run it.
\<close>

definition demo_sha :: string where
  "demo_sha = replicate 64 (CHR ''0'')"

definition demo_artifact :: "string \<Rightarrow> string \<Rightarrow> artifact_kind \<Rightarrow> string \<Rightarrow> artifact_input" where
  "demo_artifact taskId runId kind name = \<lparr>ai_taskId = taskId, ai_runId = runId, ai_kind = kind, ai_path = ''/a/r/'' @ name,
     ai_relativePath = name, ai_sha256 = demo_sha, ai_sizeBytes = 1, ai_metadata = None, ai_createdAt = ''1''\<rparr>"

definition demo_verification :: "string \<Rightarrow> string \<Rightarrow> verification_result" where
  "demo_verification taskId runId = \<lparr>vr_status = VSucceeded, vr_command = ''npm'', vr_args = [''test''], vr_startedAt = ''1'', vr_finishedAt = ''2'',
     vr_exitCode = Some 0, vr_signal = None, vr_error = None, vr_artifact = demo_artifact taskId runId KTestLog ''verification.json''\<rparr>"

definition demo_worktree :: "string \<Rightarrow> string \<Rightarrow> worktree_info" where
  "demo_worktree taskId runId = \<lparr>wi_taskId = taskId, wi_runId = runId, wi_sourceRepo = ''/repo'', wi_worktreePath = ''/w/r'',
     wi_branch = ''acc/r'', wi_baseRef = ''HEAD'', wi_baseCommit = ''c0'', wi_createdAt = ''1''\<rparr>"

definition demo_services :: "unit services" where
  "demo_services = \<lparr>
     sv_createWorktree = (\<lambda>taskId runId _ _. ok (demo_worktree taskId runId)),
     sv_captureSource = (\<lambda>repo. ok \<lparr>sp_repo = repo, sp_head = ''c0'', sp_status = ''''\<rparr>),
     sv_assertSourceUnchanged = (\<lambda>_. ok ()),
     sv_capture = (\<lambda>_ _. ok \<lparr>gs_head = ''c0'', gs_status = '''', gs_diff = ''''\<rparr>),
     sv_captureReview = (\<lambda>taskId runId _ _. ok [demo_artifact taskId runId KDiff ''changes.diff'']),
     sv_prepareRunDirectory = (\<lambda>_ _. ok ''/a/r''),
     sv_writeArtifact = (\<lambda>w. ok (demo_artifact (aw_taskId w) (aw_runId w) (aw_kind w) (aw_name w))),
     sv_lstat = (\<lambda>_. ok \<lparr>fi_isFile = True, fi_isSymbolicLink = False, fi_size = 1\<rparr>),
     sv_readFile = (\<lambda>_. ok ''x''),
     sv_verify = (\<lambda>taskId runId _ _ w. (Calls (Some 7, ''1'') (\<lambda>_. Ends (Inr (demo_verification taskId runId))), w)),
     sv_stopVerifier = (\<lambda>_. ok ()),
     sv_publish = (\<lambda>_. ok ())\<rparr>"

definition demo_result :: "string \<Rightarrow> adapter_result" where
  "demo_result i = \<lparr>rs_id = i, rs_taskId = ''a'', rs_agent = Codex, rs_role = Execute, rs_status = ASucceeded, rs_startedAt = ''1'',
     rs_finishedAt = ''2'', rs_pid = Some 6, rs_workingDirectory = ''/w/r'', rs_stdoutPath = ''/a/r/stdout.log'', rs_stderrPath = ''/a/r/stderr.log'',
     rs_resultPath = ''/a/r/result.json'', rs_exitCode = Some 0, rs_signal = None, rs_summary = ''done'', rs_error = None, rs_usage = None\<rparr>"

definition demo_start :: adapter_run where
  "demo_start = \<lparr>ar_id = ''p'', ar_pid = Some 6, ar_stdoutPath = ''/a/r/stdout.log'', ar_stderrPath = ''/a/r/stderr.log'', ar_resultPath = ''/a/r/result.json''\<rparr>"

definition demo_adapter :: "unit adapter" where
  "demo_adapter = \<lparr>ad_availability = ok \<lparr>av_available = True, av_target = ''codex'', av_reason = None\<rparr>,
     ad_startTask = (\<lambda>_ w. (Calls demo_start (\<lambda>_. Ends (Inr demo_start)), w)),
     ad_postMessage = (\<lambda>_ _. ok ()), ad_collectResult = (\<lambda>i. ok (demo_result i)), ad_stop = (\<lambda>_. ok ())\<rparr>"

definition demo_env :: "unit coord_env" where
  "demo_env = \<lparr>ce_workerId = ''w'', ce_maxAdapterArtifactBytes = 100, ce_cwd = ''/'', ce_adapter = (\<lambda>k. if k = Codex then Some demo_adapter else None),
     ce_services = demo_services, ce_now = (\<lambda>_. ''9''), ce_uuid = (\<lambda>n. replicate n (CHR ''u'')), ce_message = (\<lambda>_. ''database error''),
     ce_other = (\<lambda>_ s. s), ce_otherDb = (\<lambda>_ d. d)\<rparr>"

definition demo_step :: "string \<Rightarrow> agent_kind \<Rightarrow> route_role \<Rightarrow> int \<Rightarrow> step_row" where
  "demo_step i agent role n = (sample_step i ''a'' SPending None)\<lparr>s_agent := agent, s_role := role, s_sequence_no := n\<rparr>"

definition demo_db :: db where
  "demo_db = empty_db\<lparr>tasks := [(sample_task ''a'' TRunning PNormal (Some ''w'') ''1'')\<lparr>t_verification_command := Some ''npm test''\<rparr>],
     route_steps := [demo_step ''s1'' Codex Execute 0]\<rparr>"

definition demo_state :: "unit coord" where
  "demo_state = \<lparr>co_db = demo_db, co_world = (), co_activeRuns = [], co_activeVerifications = [], co_runPhases = [],
     co_stopRequested = [], co_shutdown = False, co_tick = 0\<rparr>"

definition demo_task :: task_record where
  "demo_task = \<lparr>tr_id = ''a'', tr_goal = ''Fix it'', tr_repo = ''/repo'', tr_baseRef = ''HEAD'', tr_agent = SelAuto, tr_priority = PNormal,
     tr_context = None, tr_successCriteria = [''tests pass''], tr_verificationCommand = Some ''npm test'', tr_handoffRequired = True,
     tr_status = TRunning, tr_routePlan = \<lparr>rp_mode = Single, rp_risk = RiskNormal, rp_reasons = [''r''],
     rp_steps = [route_step_of (demo_step ''s1'' Codex Execute 0)]\<rparr>, tr_latestUpdate = ''u'', tr_claimedBy = Some ''w'',
     tr_claimedAt = Some ''w'', tr_createdAt = ''1'', tr_updatedAt = ''1''\<rparr>"

definition demo_aggregate :: task_aggregate where
  "demo_aggregate = \<lparr>ag_task = demo_task, ag_routeSteps = [demo_step ''s1'' Codex Execute 0], ag_runs = [], ag_events = [],
     ag_artifacts = [], ag_messages = [], ag_reviews = []\<rparr>"

text \<open>The same deployment without the adapter.\<close>

definition bare_env :: "unit coord_env" where
  "bare_env = demo_env\<lparr>ce_adapter := \<lambda>_. None\<rparr>"

subsection \<open>Running it\<close>

text \<open>The simplifier runs a composite operation from the left: what follows waits for the state it is applied to.\<close>

lemma weak_eff:
  "s = s' \<Longrightarrow> andThen m f s = andThen m f s'"
  "s = s' \<Longrightarrow> attempt m s = attempt m s'"
  "s = s' \<Longrightarrow> with_cleanup m c s = with_cleanup m c s'"
  "s = s' \<Longrightarrow> call_db env g s = call_db env g s'"
  "s = s' \<Longrightarrow> call_world env w s = call_world env w s'"
  "x = y \<Longrightarrow> lift m' x = lift m' y"
  "s = s' \<Longrightarrow> with_locals l m'' s = with_locals l m'' s'"
  by simp_all

lemma demo_call_db:
  "env \<in> {demo_env, bare_env} \<Longrightarrow> call_db env f s = (case f (\<lambda>d. d) (\<lambda>d. d) (replicate (Suc (co_tick s)) (CHR ''u'')) ''9'' (co_db s) of
     (r, d) \<Rightarrow> (map_sum DbFailed id r, s\<lparr>co_db := d, co_tick := co_tick s + 4\<rparr>))"
  by (auto simp: call_db_def await_def pause_def db_call_op_def demo_env_def bare_env_def with_cleanup_def attempt_def eff_simps split: prod.splits sum.splits)

lemma demo_call_world:
  "env \<in> {demo_env, bare_env} \<Longrightarrow> call_world env m s = (case m (co_world s) of (r, w) \<Rightarrow> (map_sum Thrown id r, s\<lparr>co_world := w, co_tick := co_tick s + 2\<rparr>))"
  by (auto simp: call_world_def await_def pause_def world_op_def demo_env_def bare_env_def with_cleanup_def attempt_def eff_simps split: prod.splits sum.splits)

lemma demo_pause: "pause demo_env s = (Inr (), s\<lparr>co_tick := co_tick s + 1\<rparr>)"
  by (simp add: pause_def demo_env_def eff_simps)

lemma demo_sel:
  "ce_services demo_env = demo_services" "ce_workerId demo_env = ''w''" "ce_maxAdapterArtifactBytes demo_env = 100" "ce_cwd demo_env = ''/''"
  "ce_adapter demo_env a = (if a = Codex then Some demo_adapter else None)" "ce_now demo_env n = ''9''"
  by (simp_all add: demo_env_def)

lemmas demo_consts = demo_sel demo_services_def demo_adapter_def demo_result_def demo_start_def demo_worktree_def demo_artifact_def demo_verification_def

lemmas db_ops = updateRun_def createRun_def updateRouteStep_def appendEvent_def addArtifact_def insert_event_def insert_run_def insert_artifact_def insert_artifact_once_def
   check_patch_def assertRunTransition_def apply_patch_def patched_def new_run_row_def next_attempt_def new_artifact_row_def update_rows_def getRun_def
   event_constraints_def artifact_constraints_def run_constraints_def has_task_def has_run_def evidence_key_def read_metadata_def same_evidence_def isDeepStrictEqual_def
   is_json_object_def is_safe_int_def max_safe_int_def no_patch_def worktree_patch_def started_patch_def result_patch_def

lemmas coord_ops = executeStep_def open_run_def run_step_def prepare_run_def start_agent_def secure_evidence_def record_result_def patch_run_def publish_def
   clock_def set_phase_def set_active_def delete_active_def forget_run_def take_stop_def fail_if_def add_artifact_def local_of_def assign_def attempt_def with_cleanup_def
   initial_locals_def with_locals_def lift_def persistAdapterStart_def persist_start_def call_startTask_def ingestAdapterArtifacts_def ingest_file_def
   runVerification_def verifier_run_def verification_metadata_def verifier_started_def capture_review_def await_def demo_pause demo_call_db demo_call_world step_info_def prompt_task_def map_delete_def
   fun_upd_def Let_def eff_simps

lemma demo_sha_ok: "is_sha256 demo_sha"
  by (simp add: demo_sha_def is_sha256_def hex_lower_def list_all_iff)

lemma demo_paths:
  "resolve ''/'' ''/a/r/stdout.log'' = ''/a/r/stdout.log''" "resolve ''/'' ''/a/r/stderr.log'' = ''/a/r/stderr.log''" "resolve ''/'' ''/a/r/result.json'' = ''/a/r/result.json''"
  "dirname ''/a/r/stdout.log'' = ''/a/r''" "dirname ''/a/r/stderr.log'' = ''/a/r''" "dirname ''/a/r/result.json'' = ''/a/r''"
  "basename ''/a/r/stdout.log'' = ''stdout.log''" "basename ''/a/r/stderr.log'' = ''stderr.log''" "basename ''/a/r/result.json'' = ''result.json''"
  by code_simp+

lemmas demo_data = demo_task_def demo_db_def demo_state_def demo_step_def sample_task_def sample_step_def empty_db_def

lemma demo_runs:
  "case executeStep demo_env demo_task (demo_step ''s1'' Codex Execute 0) [] None demo_state of
     (Inl _, _) \<Rightarrow> False | (Inr o', t) \<Rightarrow> so_succeeded o' \<and> \<not> so_skipped o' \<and> so_result o' = Some (demo_result ''p'')"
  by (simp add: demo_data demo_consts db_ops coord_ops demo_sha_ok demo_paths truthy_def cong: weak_eff)

lemmas read_ops = getTask_def taskFromRow_def with_steps_def TaskPayloadSchema_def RoutePlanSchema_def RouteStepSchema_def text_field_def
  optional_field_def trim_def js_space_def TaskIdSchema_def task_id_shape_def alnum_def id_char_def listRouteSteps_def route_step_of_def
  placeholder_step_def taskRuns_def taskReviews_def listRuns_def listReviews_def limited_def matches_def listEvents_def listArtifacts_def
  listMessages_def order_by_def

lemmas task_ops = executeClaimedTask_def executeTask_def run_groups.simps promise_all_def run_each.simps all_right.simps unavailableStep_def
  blockForFailure_def block_task_def writeHandoff_def pending_steps_def updateTaskStatus_def assertTaskTransition_def heartbeatTask_def

lemma bare_sel: "ce_services bare_env = demo_services" "ce_workerId bare_env = ''w''" "ce_adapter bare_env a = None"
  by (simp_all add: bare_env_def demo_env_def)

lemma bare_runs:
  "case executeClaimedTask bare_env demo_aggregate demo_state of
     (Inl _, _) \<Rightarrow> False | (Inr r, t) \<Rightarrow> rt_status r = ResBlocked \<and> length (rt_outcomes r) = 1"
  "case executeTask bare_env ''a'' demo_state of (Inl _, _) \<Rightarrow> False | (Inr r, t) \<Rightarrow> rt_status r = ResBlocked \<and> length (rt_outcomes r) = 1"
  by (simp_all add: demo_data demo_consts bare_sel demo_aggregate_def db_ops coord_ops read_ops task_ops truthy_def cong: weak_eff)

end
