(* ===== verification/CoordResults.thy ===== *)
theory CoordResults
  imports CoordFacts CoordDemo "HOL-Library.Multiset"
begin

text \<open>
  What the coordinator's results mean: the outcomes of the steps, the evidence behind a success, and how a
  task may end.
\<close>

subsection \<open>Outcomes\<close>

definition outcome_ok :: "step_row \<Rightarrow> step_outcome \<Rightarrow> bool" where
  "outcome_ok step o' \<longleftrightarrow> s_id (so_step o') = s_id step \<and> s_sequence_no (so_step o') = s_sequence_no step
     \<and> s_required (so_step o') = s_required step \<and> (so_skipped o' \<longrightarrow> \<not> s_required step \<and> so_succeeded o')
     \<and> (so_succeeded o' \<and> \<not> so_skipped o' \<longrightarrow> (\<exists>run r. so_run o' = Some run \<and> so_result o' = Some r \<and> rs_status r = ASucceeded))"

lemma unavailable_outcome: "yields (unavailableStep env step m) (\<lambda>s o' t. outcome_ok step o')"
  unfolding unavailableStep_def
  by (rule yields_split; (rule yields_skip)+; rule yields_ok; simp add: outcome_ok_def)

lemma record_outcome: "yields (record_result env task step result) (\<lambda>s o' t. outcome_ok step o')"
  unfolding record_result_def Let_def
  by ((rule yields_skip)+; rule yields_ok; simp add: outcome_ok_def)

lemma failed_outcome: "yields (step_failed env task step e) (\<lambda>s o' t. outcome_ok step o')"
  unfolding step_failed_def split_def
  by ((rule yields_skip)+; rule yields_ok; simp add: outcome_ok_def)

lemma run_step_outcome: "yields (run_step env task step adapter prior) (\<lambda>s o' t. outcome_ok step o')"
  unfolding run_step_def split_def
  by ((rule yields_skip)+; use record_outcome in \<open>simp add: yields_def\<close>)

lemma with_locals_yields: "yields m (\<lambda>s x t. P x) \<Longrightarrow> yields (with_locals l m) (\<lambda>s x t. P x)"
  by (fastforce simp: yields_def with_locals_def split: prod.splits)

lemma attempted_step: "yields (andThen (attempt (run_step env task step adapter prior)) (\<lambda>r. case r of
    Inr outcome \<Rightarrow> ok outcome | Inl error \<Rightarrow> step_failed env task step error)) (\<lambda>s o' t. outcome_ok step o')"
proof (rule yields_andThen [OF yields_attempt [OF run_step_outcome]])
  fix r show "yields (case r of Inl error \<Rightarrow> step_failed env task step error | Inr outcome \<Rightarrow> ok outcome)
      (\<lambda>t y u. \<forall>s. (case r of Inl _ \<Rightarrow> True | Inr x \<Rightarrow> outcome_ok step x) \<longrightarrow> outcome_ok step y)"
    using failed_outcome [of env task step] by (cases r) (auto simp: yields_def ok_def)
qed

lemma step_outcome: "yields (executeStep env task step prior inherited) (\<lambda>s o' t. outcome_ok step o')"
  unfolding executeStep_def
  by (intro yields_skip yields_split) (use unavailable_outcome with_locals_yields [OF attempted_step] in \<open>simp_all add: yields_def\<close>)

lemma run_each_yields:
  "(\<And>x. yields (f x) (\<lambda>s y t. P x y)) \<Longrightarrow> yields (run_each f xs) (\<lambda>s rs t. list_all2 (\<lambda>x r. case r of Inl _ \<Rightarrow> True | Inr y \<Rightarrow> P x y) xs rs)"
proof (induction xs)
  case (Cons x xs)
  note IH = Cons.IH [OF Cons.prems]
  show ?case unfolding run_each.simps
  proof (rule yields_andThen [OF yields_attempt [OF Cons.prems]], rule yields_andThen [OF IH], rule yields_ok)
  qed auto
qed (simp add: yields_ok)

lemma all_right_list_all2:
  "all_right rs = Inr ys \<Longrightarrow> list_all2 (\<lambda>x r. case r of Inl _ \<Rightarrow> True | Inr y \<Rightarrow> P x y) xs rs \<Longrightarrow> list_all2 P xs ys"
proof (induction rs arbitrary: xs ys rule: all_right.induct)
  case (3 x rs)
  then show ?case by (auto simp: list_all2_Cons2 split: sum.splits)
qed auto

lemma promise_all_yields:
  assumes "\<And>x. yields (f x) (\<lambda>s y t. P x y)"
  shows "yields (promise_all f xs) (\<lambda>s ys t. list_all2 P xs ys)"
  unfolding promise_all_def
  by (rule yields_andThen [OF run_each_yields [OF assms]]) (auto simp: yields_def lift_res_def intro: all_right_list_all2)

subsection \<open>How a task ends\<close>

definition required_failure :: "step_outcome \<Rightarrow> bool" where
  "required_failure o' \<longleftrightarrow> s_required (so_step o') \<and> \<not> so_succeeded o'"

abbreviation group_of :: "step_row list \<Rightarrow> int \<Rightarrow> step_row list" where
  "group_of pending sequence \<equiv> filter (\<lambda>st. s_sequence_no st = sequence) pending"

lemma blocked_results:
  "yields (blockForShutdown env i os) (\<lambda>s r t. rt_taskId r = i \<and> rt_status r = ResBlocked \<and> rt_outcomes r = os)"
  "yields (blockForFailure env i o' os) (\<lambda>s r t. rt_taskId r = i \<and> rt_status r = ResBlocked \<and> rt_outcomes r = os)"
  unfolding blockForShutdown_def blockForFailure_def Let_def by ((rule yields_skip)+; rule yields_ok; simp)+

text \<open>
  The groups that ran: all of them without a required failure, or some of them, of which only the last can
  have one, and then the task is blocked.
\<close>

definition groups_ran :: "step_row list \<Rightarrow> int list \<Rightarrow> step_outcome list \<Rightarrow> run_task_result + step_outcome list \<Rightarrow> bool" where
  "groups_ran pending sequences before r \<longleftrightarrow> (case r of
     Inr outcomes \<Rightarrow> (\<exists>new. outcomes = before @ new \<and> list_all2 outcome_ok (concat (map (group_of pending) sequences)) new
       \<and> (\<forall>o' \<in> set new. \<not> required_failure o'))
   | Inl result \<Rightarrow> rt_status result = ResBlocked
       \<and> (\<exists>ran rest new final. sequences = ran @ rest \<and> rt_outcomes result = before @ new @ final
            \<and> (\<forall>o' \<in> set new. \<not> required_failure o')
            \<and> (final = [] \<and> list_all2 outcome_ok (concat (map (group_of pending) ran)) new
               \<or> ran \<noteq> [] \<and> list_all2 outcome_ok (concat (map (group_of pending) (butlast ran))) new
                   \<and> list_all2 outcome_ok (group_of pending (last ran)) final)))"

lemma groups_ran_step:
  assumes "groups_ran pending sequences (before @ gs) r" and "list_all2 outcome_ok (group_of pending sequence) gs"
    and "\<forall>o' \<in> set gs. \<not> required_failure o'"
  shows "groups_ran pending (sequence # sequences) before r"
proof (cases r)
  case (Inr outcomes)
  with assms(1) obtain new where new: "outcomes = before @ gs @ new" "list_all2 outcome_ok (concat (map (group_of pending) sequences)) new"
    "\<forall>o' \<in> set new. \<not> required_failure o'" by (auto simp: groups_ran_def)
  with assms(2,3) Inr show ?thesis
    unfolding groups_ran_def by (auto intro!: exI [of _ "gs @ new"] list_all2_appendI)
next
  case (Inl result)
  with assms(1) obtain ran rest new final where g: "rt_status result = ResBlocked" "sequences = ran @ rest" "rt_outcomes result = before @ gs @ new @ final"
    "\<forall>o' \<in> set new. \<not> required_failure o'"
    "final = [] \<and> list_all2 outcome_ok (concat (map (group_of pending) ran)) new
      \<or> ran \<noteq> [] \<and> list_all2 outcome_ok (concat (map (group_of pending) (butlast ran))) new \<and> list_all2 outcome_ok (group_of pending (last ran)) final"
    by (auto simp: groups_ran_def)
  then show ?thesis unfolding groups_ran_def Inl sum.case using assms(2,3)
    by (intro conjI exI [of _ "sequence # ran"] exI [of _ rest] exI [of _ "gs @ new"] exI [of _ final])
      (auto intro: list_all2_appendI)
qed

lemma run_groups_results: "yields (run_groups env task pending sequences prior inherited before) (\<lambda>s r t. groups_ran pending sequences before r)"
proof (induction sequences arbitrary: prior inherited before)
  case Nil
  show ?case by (simp, rule yields_ok) (simp add: groups_ran_def)
next
  case (Cons sequence sequences)
  have ends: "yields (andThen m (\<lambda>r. ok (Inl r))) (\<lambda>s r t. groups_ran pending (sequence # sequences) before r)"
    if "yields m (\<lambda>s r t. rt_taskId r = i \<and> rt_status r = ResBlocked \<and> rt_outcomes r = before @ final)"
      "final = [] \<or> list_all2 outcome_ok (group_of pending sequence) final"
    for m :: "('a, run_task_result) op" and i final
  proof (rule yields_andThen [OF that(1)], rule yields_ok, intro allI impI)
    fix r :: run_task_result assume r: "rt_taskId r = i \<and> rt_status r = ResBlocked \<and> rt_outcomes r = before @ final"
    show "groups_ran pending (sequence # sequences) before (Inl r)"
    proof (cases "final = []")
      case True
      show ?thesis unfolding groups_ran_def sum.case
        by (rule conjI, use r in simp, rule exI [of _ "[]"], rule exI [of _ "sequence # sequences"], rule exI [of _ "[]"], rule exI [of _ "[]"])
          (use r True in simp)
    next
      case False
      show ?thesis unfolding groups_ran_def sum.case
        by (rule conjI, use r in simp, rule exI [of _ "[sequence]"], rule exI [of _ sequences], rule exI [of _ "[]"], rule exI [of _ final])
          (use that(2) r False in simp)
    qed
  qed
  show ?case unfolding run_groups.simps
  proof (rule yields_skip, rule yields_split)
    have "yields (blockForShutdown env (tr_id task) before) (\<lambda>s r t. rt_taskId r = tr_id task \<and> rt_status r = ResBlocked \<and> rt_outcomes r = before @ [])"
      using blocked_results(1) [of env "tr_id task" before] by simp
    from ends [OF this]
    show "yields (andThen (blockForShutdown env (tr_id task) before) (\<lambda>r. ok (Inl r)))
      (\<lambda>t y u. \<forall>s. groups_ran pending (sequence # sequences) before y)"
      by simp
  next
    show "yields (andThen (promise_all (\<lambda>step. executeStep env task step prior inherited) (group_of pending sequence)) (\<lambda>groupOutcomes.
       andThen (query co_shutdown) (\<lambda>shutdown'.
       if shutdown' then andThen (blockForShutdown env (tr_id task) (before @ groupOutcomes)) (\<lambda>r. ok (Inl r))
       else case find (\<lambda>o'. s_required (so_step o') \<and> \<not> so_succeeded o') groupOutcomes of
         Some failure \<Rightarrow> andThen (blockForFailure env (tr_id task) failure (before @ groupOutcomes)) (\<lambda>r. ok (Inl r))
       | None \<Rightarrow> run_groups env task pending sequences (prior @ succeeded_results groupOutcomes)
           (case inherited of Some w \<Rightarrow> Some w | None \<Rightarrow> first_worktree groupOutcomes) (before @ groupOutcomes))))
      (\<lambda>t y u. \<forall>s. groups_ran pending (sequence # sequences) before y)"
    proof (rule yields_andThen [OF promise_all_yields [OF step_outcome]])
      fix gs
      let ?body = "andThen (query co_shutdown) (\<lambda>shutdown'.
       if shutdown' then andThen (blockForShutdown env (tr_id task) (before @ gs)) (\<lambda>r. ok (Inl r))
       else case find (\<lambda>o'. s_required (so_step o') \<and> \<not> so_succeeded o') gs of
         Some failure \<Rightarrow> andThen (blockForFailure env (tr_id task) failure (before @ gs)) (\<lambda>r. ok (Inl r))
       | None \<Rightarrow> run_groups env task pending sequences (prior @ succeeded_results gs)
           (case inherited of Some w \<Rightarrow> Some w | None \<Rightarrow> first_worktree gs) (before @ gs))"
      have "yields ?body (\<lambda>s r t. groups_ran pending (sequence # sequences) before r)"
        if gs: "list_all2 outcome_ok (group_of pending sequence) gs"
      proof (rule yields_skip, intro yields_split)
        show "yields (andThen (blockForShutdown env (tr_id task) (before @ gs)) (\<lambda>r. ok (Inl r)))
          (\<lambda>t y u. \<forall>s. groups_ran pending (sequence # sequences) before y)"
          using ends [OF blocked_results(1)] gs by simp
      next
        show "yields (run_groups env task pending sequences (prior @ succeeded_results gs)
            (case inherited of Some w \<Rightarrow> Some w | None \<Rightarrow> first_worktree gs) (before @ gs))
          (\<lambda>t y u. \<forall>s. groups_ran pending (sequence # sequences) before y)"
          if "find (\<lambda>o'. s_required (so_step o') \<and> \<not> so_succeeded o') gs = None"
        proof -
          from that have "\<forall>o' \<in> set gs. \<not> required_failure o'" by (auto simp: find_None_iff required_failure_def)
          with groups_ran_step [OF _ gs] Cons.IH show ?thesis by (auto simp: yields_def)
        qed
      next
        fix failure
        show "yields (andThen (blockForFailure env (tr_id task) failure (before @ gs)) (\<lambda>r. ok (Inl r)))
          (\<lambda>t y u. \<forall>s. groups_ran pending (sequence # sequences) before y)"
          using ends [OF blocked_results(2)] gs by simp
      qed
      then show "yields ?body (\<lambda>t y u. \<forall>s. list_all2 outcome_ok (group_of pending sequence) gs
          \<longrightarrow> (\<forall>s. groups_ran pending (sequence # sequences) before y))"
        by (cases "list_all2 outcome_ok (group_of pending sequence) gs") (simp_all add: yields_def)
    qed
  qed
qed

text \<open>The groups in ascending order are the pending steps sorted by sequence number, equals in their order.\<close>

lemma filter_groups: "distinct qs \<Longrightarrow> filter (\<lambda>st. f st = k) (concat (map (\<lambda>q. filter (\<lambda>st. f st = q) xs) qs)) = (if k \<in> set qs then filter (\<lambda>st. f st = k) xs else [])"
  by (induction qs) (auto simp: filter_empty_conv conj_commute cong: conj_cong)

lemma sorted_groups: "sorted qs \<Longrightarrow> sorted (map f (concat (map (\<lambda>q. filter (\<lambda>st. f st = q) xs) qs)))"
  by (induction qs) (auto simp: sorted_append sorted_map sorted_wrt_filter intro: sorted_wrt_mono_rel [of _ "\<lambda>_ _. True"])

lemma groups_sort:
  fixes f :: "'r \<Rightarrow> 'k :: linorder"
  shows "concat (map (\<lambda>q. filter (\<lambda>st. f st = q) xs) (sort (remdups (map f xs)))) = sort_key f xs" (is "?ys = _")
proof (rule properties_for_sort_key [symmetric])
  let ?qs = "sort (remdups (map f xs))"
  have eq: "filter (\<lambda>st. f st = f x) ?ys = filter (\<lambda>st. f st = f x) xs" for x
  proof (cases "f x \<in> set ?qs")
    case False
    then have "filter (\<lambda>st. f st = f x) xs = []" by (auto simp: filter_empty_conv) (metis image_eqI)
    with False show ?thesis using filter_groups [of ?qs f "f x" xs] by simp
  qed (use filter_groups [of ?qs f "f x" xs] in simp)
  show "filter (\<lambda>x. f k = f x) ?ys = filter (\<lambda>x. f k = f x) xs" for k
    using eq [of k] by (simp add: eq_commute)
  show "mset ?ys = mset xs"
  proof (rule multiset_eqI)
    fix x
    have c: "count (mset zs) x = count (mset (filter (\<lambda>st. f st = f x) zs)) x" for zs by simp
    show "count (mset ?ys) x = count (mset xs) x" unfolding c [of ?ys] c [of xs] eq ..
  qed
  show "sorted (map f ?ys)" by (rule sorted_groups) simp
qed

definition step_order :: "task_aggregate \<Rightarrow> step_row list" where
  "step_order aggregate = sort_key s_sequence_no (pending_steps aggregate)"

lemma complete_task_result: "yields (complete_task env i os) (\<lambda>s r t. rt_taskId r = i \<and> rt_outcomes r = os)"
  unfolding complete_task_def Let_def
  by (intro yields_skip yields_split yields_ok) simp_all

lemma outcomes_sequences: "list_all2 outcome_ok steps os \<Longrightarrow> o' \<in> set os \<Longrightarrow> s_sequence_no (so_step o') \<in> s_sequence_no ` set steps"
  by (induction steps os rule: list_all2_induct) (auto simp: outcome_ok_def)

definition fail_fast :: "step_row list \<Rightarrow> run_task_result \<Rightarrow> bool" where
  "fail_fast plan result \<longleftrightarrow> (\<exists>ran rest. plan = ran @ rest \<and> list_all2 outcome_ok ran (rt_outcomes result)
       \<and> (rt_status result \<noteq> ResBlocked \<longrightarrow> rest = []))
     \<and> (\<forall>o' \<in> set (rt_outcomes result). required_failure o' \<longrightarrow> rt_status result = ResBlocked
          \<and> (\<forall>o'' \<in> set (rt_outcomes result). s_sequence_no (so_step o'') \<le> s_sequence_no (so_step o')))"

lemma groups_fail_fast:
  assumes "groups_ran pending (sort (remdups (map s_sequence_no pending))) [] (Inl result)"
  shows "fail_fast (sort_key s_sequence_no pending) result"
proof -
  let ?qs = "sort (remdups (map s_sequence_no pending))"
  from assms obtain ran rest new final where g: "rt_status result = ResBlocked" "?qs = ran @ rest" "rt_outcomes result = new @ final"
    "\<forall>o' \<in> set new. \<not> required_failure o'"
    and d: "final = [] \<and> list_all2 outcome_ok (concat (map (group_of pending) ran)) new
      \<or> ran \<noteq> [] \<and> list_all2 outcome_ok (concat (map (group_of pending) (butlast ran))) new \<and> list_all2 outcome_ok (group_of pending (last ran)) final"
    by (auto simp: groups_ran_def)
  have plan: "sort_key s_sequence_no pending = concat (map (group_of pending) ran) @ concat (map (group_of pending) rest)"
    using groups_sort [of s_sequence_no pending] unfolding g(2) by simp
  have last: "concat (map (group_of pending) ran) = concat (map (group_of pending) (butlast ran)) @ group_of pending (last ran)" if "ran \<noteq> []"
    using that by (cases ran rule: rev_cases) simp_all
  have "list_all2 outcome_ok (concat (map (group_of pending) ran)) (rt_outcomes result)"
    using d last by (auto simp: g(3) intro: list_all2_appendI)
  moreover have "s_sequence_no (so_step o'') \<le> s_sequence_no (so_step o')"
    if "o' \<in> set (rt_outcomes result)" "required_failure o'" "o'' \<in> set (rt_outcomes result)" for o' o''
  proof -
    have o': "o' \<in> set final" and ran: "ran \<noteq> []" using that g(3,4) d by auto
    with d have f: "list_all2 outcome_ok (group_of pending (last ran)) final" "list_all2 outcome_ok (concat (map (group_of pending) (butlast ran))) new" by auto
    have "s_sequence_no (so_step o') = last ran" using outcomes_sequences [OF f(1) o'] by auto
    moreover have "s_sequence_no (so_step o'') \<in> set ran"
    proof (cases "o'' \<in> set final")
      case True
      with outcomes_sequences [OF f(1) True] ran show ?thesis by auto
    next
      case False
      with that(3) g(3) have "o'' \<in> set new" by simp
      from outcomes_sequences [OF f(2) this] have "s_sequence_no (so_step o'') \<in> set (butlast ran)" by auto
      then show ?thesis by (rule in_set_butlastD)
    qed
    moreover have "sorted ran" using sorted_sort [of "remdups (map s_sequence_no pending)"] unfolding g(2) by (simp add: sorted_append)
    then have "q \<le> last ran" if "q \<in> set ran" for q
      using that ran by (cases ran rule: rev_cases) (auto simp: sorted_append)
    ultimately show ?thesis by simp
  qed
  ultimately show ?thesis unfolding fail_fast_def using plan g(1) by blast
qed

text \<open>
  C20 A task's steps run in the order of the route and stop at the first failure: the outcomes are those of a
  prefix of the pending steps sorted by sequence number; if a required step failed, the task is blocked and no
  step of a later sequence ran; and a task that ends done or in review ran every pending step, each required
  one returning from its agent as succeeded.
\<close>
theorem task_fails_fast:
  assumes "executeClaimedTask env aggregate s = (Inr result, t)"
  shows "fail_fast (step_order aggregate) result
    \<and> (rt_status result \<noteq> ResBlocked \<longrightarrow> list_all2 outcome_ok (step_order aggregate) (rt_outcomes result)
        \<and> (\<forall>o' \<in> set (rt_outcomes result). s_required (so_step o') \<longrightarrow>
             (\<exists>run r. so_run o' = Some run \<and> so_result o' = Some r \<and> rs_status r = ASucceeded)))"
proof -
  let ?pending = "pending_steps aggregate" and ?task = "(ag_task aggregate)\<lparr>tr_context := execution_context aggregate\<rparr>"
  let ?qs = "sort (remdups (map s_sequence_no ?pending))"
  from assms obtain r u where r: "run_groups env ?task ?pending ?qs (prior_results aggregate) (inherited_worktree aggregate) [] s = (Inr r, u)"
    and rest: "(case r of Inl result \<Rightarrow> ok result | Inr outcomes \<Rightarrow> andThen (query co_shutdown) (\<lambda>shutdown.
          if shutdown then blockForShutdown env (tr_id ?task) outcomes else complete_task env (tr_id ?task) outcomes)) u = (Inr result, t)"
    by (auto simp: executeClaimedTask_def Let_def andThen_Inr)
  note ran = yieldsD [OF run_groups_results r]
  have "fail_fast (step_order aggregate) result \<and> (rt_status result \<noteq> ResBlocked \<longrightarrow>
      list_all2 outcome_ok (step_order aggregate) (rt_outcomes result) \<and> (\<forall>o' \<in> set (rt_outcomes result). \<not> required_failure o'))"
  proof (cases r)
    case (Inl result')
    with rest have "result' = result" by (simp add: ok_def)
    with groups_fail_fast [of ?pending result] ran Inl show ?thesis
      by (auto simp: step_order_def groups_ran_def)
  next
    case (Inr outcomes)
    with ran have all: "list_all2 outcome_ok (step_order aggregate) outcomes" "\<forall>o' \<in> set outcomes. \<not> required_failure o'"
      using groups_sort [of s_sequence_no ?pending] by (auto simp: groups_ran_def step_order_def)
    have "rt_outcomes result = outcomes"
      using rest Inr yieldsD [OF blocked_results(1), of env "tr_id ?task" outcomes] yieldsD [OF complete_task_result, of env "tr_id ?task" outcomes]
      by (auto simp: andThen_query split: if_splits)
    with all show ?thesis unfolding fail_fast_def by auto
  qed
  moreover have "\<exists>run r. so_run o' = Some run \<and> so_result o' = Some r \<and> rs_status r = ASucceeded"
    if "list_all2 outcome_ok (step_order aggregate) (rt_outcomes result)" "o' \<in> set (rt_outcomes result)" "\<not> required_failure o'" "s_required (so_step o')" for o'
  proof -
    from that(1,2) obtain st where "outcome_ok st o'" by (auto simp: list_all2_conv_all_nth in_set_conv_nth)
    with that(3,4) show ?thesis by (auto simp: outcome_ok_def required_failure_def)
  qed
  ultimately show ?thesis by blast
qed

theorem task_fails_fast_witness:
  "\<exists>result t. executeClaimedTask bare_env demo_aggregate demo_state = (Inr result, t) \<and> rt_status result = ResBlocked
    \<and> length (rt_outcomes result) = 1 \<and> fail_fast (step_order demo_aggregate) result"
proof -
  obtain result t where run: "executeClaimedTask bare_env demo_aggregate demo_state = (Inr result, t)" "rt_status result = ResBlocked" "length (rt_outcomes result) = 1"
    using bare_runs(1) by (auto split: prod.splits sum.splits)
  with task_fails_fast [OF run(1)] show ?thesis by blast
qed

end
