(* ===== verification/CoordEvidence.thy ===== *)
theory CoordEvidence
  imports CoordResults
begin

text \<open>
  The evidence behind a successful step: what is in the database when \<open>executeStep\<close> reports success, whatever
  other steps, requests and processes did in between.
\<close>

subsection \<open>Stored evidence\<close>

definition has_evidence :: "artifact_kind \<Rightarrow> string \<Rightarrow> db \<Rightarrow> bool" where
  "has_evidence kind runId d \<longleftrightarrow> (\<exists>p \<in> set (artifacts d). a_run_id p = Some runId \<and> a_kind p = kind)"

definition verified_run :: "string \<Rightarrow> db \<Rightarrow> bool" where
  "verified_run runId d \<longleftrightarrow> (\<exists>p \<in> set (artifacts d). \<exists>r. a_run_id p = Some runId \<and> vr_status r = VSucceeded
     \<and> isDeepStrictEqual (read_metadata (a_metadata p)) (Some (verification_metadata r)))"

definition recorded_succeeded :: "string \<Rightarrow> db \<Rightarrow> bool" where
  "recorded_succeeded runId d \<longleftrightarrow> (\<exists>row \<in> set (runs d). r_id row = runId \<and> r_status row = RSucceeded)"

lemma artifacts_stay: "coord_evolves s t \<Longrightarrow> p \<in> set (artifacts (co_db s)) \<Longrightarrow> p \<in> set (artifacts (co_db t))"
  using set_mono_prefix by (fastforce simp: coord_evolves_def db_evolves_def)

lemma evidence_stays:
  "coord_evolves s t \<Longrightarrow> has_evidence kind i (co_db s) \<Longrightarrow> has_evidence kind i (co_db t)"
  "coord_evolves s t \<Longrightarrow> verified_run i (co_db s) \<Longrightarrow> verified_run i (co_db t)"
  using artifacts_stay unfolding has_evidence_def verified_run_def by blast+

lemma succeeded_stays:
  assumes "db_evolves (task_edges\<^sup>+) (run_edges\<^sup>+) d d'" and "recorded_succeeded i d"
  shows "recorded_succeeded i d'"
proof -
  from assms(2) obtain row where row: "row \<in> set (runs d)" "r_id row = i" "r_status row = RSucceeded" by (auto simp: recorded_succeeded_def)
  have "moved_by (run_edges\<^sup>+) run_fixed r_status (runs d) (runs d')" using assms(1) by (simp add: db_evolves_def)
  from moved_by_stays [OF this row(1)] row(3) no_edge_from_succeeded obtain q where
    "q \<in> set (runs d')" "run_fixed q = run_fixed row" "r_status q = RSucceeded" by auto
  with row(2) show ?thesis by (auto simp: recorded_succeeded_def run_fixed_def)
qed

text \<open>The contract of the artifact store and of the verifier: what they return describes what they were asked for.\<close>

primrec ends_with :: "('a \<Rightarrow> bool) \<Rightarrow> ('r, 'a) talk \<Rightarrow> bool" where
  "ends_with P (Ends r) = (case r of Inl _ \<Rightarrow> True | Inr x \<Rightarrow> P x)"
| "ends_with P (Calls q k) = (\<forall>b. ends_with P (k b))"

definition stores_faithfully :: "'w services \<Rightarrow> bool" where
  "stores_faithfully sv \<longleftrightarrow>
     (\<forall>input w m w'. sv_writeArtifact sv input w = (Inr m, w') \<longrightarrow> ai_runId m = aw_runId input \<and> ai_kind m = aw_kind input)
     \<and> (\<forall>taskId runId c d w. ends_with (\<lambda>r. ai_runId (vr_artifact r) = runId) (fst (sv_verify sv taskId runId c d w)))"

subsection \<open>Returning through an await\<close>

lemma await_yields:
  assumes "well_behaved env" and "yields m Q" and "\<And>s x t u. Q s x t \<Longrightarrow> coord_evolves t u \<Longrightarrow> Q' x u"
  shows "yields (await env m) (\<lambda>s x t. Q' x t)"
  unfolding yields_def
proof (intro allI impI)
  fix s x t assume "await env m s = (Inr x, t)"
  then obtain u v w where u: "m v = (Inr x, u)" "pause env u = (w, t)"
    by (auto simp: await_def andThen_def with_cleanup_def attempt_def lift_res_def split: prod.splits sum.splits)
  have "coord_evolves u t" by (rule keepsD [OF keeps_pause [OF assms(1)] u(2)])
  with assms(2,3) u(1) show "Q' x t" unfolding yields_def by blast
qed

lemma call_db_yields:
  assumes "well_behaved env" and "\<And>other other' uid ts. (\<And>d. db_evolves (task_edges\<^sup>+) (run_edges\<^sup>+) d (other d)) \<Longrightarrow>
      (\<And>d. db_evolves (task_edges\<^sup>+) (run_edges\<^sup>+) d (other' d)) \<Longrightarrow> yields (f other other' uid ts) (\<lambda>d x d'. Q x d')"
    and "\<And>x d d'. Q x d \<Longrightarrow> db_evolves (task_edges\<^sup>+) (run_edges\<^sup>+) d d' \<Longrightarrow> Q x d'"
  shows "yields (call_db env f) (\<lambda>s x t. Q x (co_db t))"
  unfolding call_db_def
proof (rule await_yields [OF assms(1)])
  show "yields (db_call_op env f) (\<lambda>s x t. Q x (co_db t))"
    unfolding yields_def
  proof (intro allI impI)
    fix s x t assume "db_call_op env f s = (Inr x, t)"
    then have "f (ce_otherDb env (co_tick s)) (ce_otherDb env (Suc (co_tick s))) (ce_uuid env (co_tick s)) (ce_now env (co_tick s)) (co_db s) = (Inr x, co_db t)"
      by (auto simp: db_call_op_def split: prod.splits) (auto simp: map_sum_def split: sum.splits)
    moreover have "yields (f (ce_otherDb env (co_tick s)) (ce_otherDb env (Suc (co_tick s))) (ce_uuid env (co_tick s)) (ce_now env (co_tick s))) (\<lambda>d x d'. Q x d')"
      using assms(1) by (intro assms(2)) (simp_all add: well_behaved_def)
    ultimately show "Q x (co_db t)" by (simp add: yields_def)
  qed
qed (use assms(3) in \<open>simp add: coord_evolves_def\<close>)

lemma with_cleanup_value: "yields m (\<lambda>s x t. P x) \<Longrightarrow> yields (with_cleanup m c) (\<lambda>s x t. P x)"
  unfolding yields_def with_cleanup_def
  by (auto simp: andThen_Inr attempt_def lift_res_def split: prod.splits)

lemma await_value: "yields m (\<lambda>s x t. P x) \<Longrightarrow> yields (await env m) (\<lambda>s x t. P x)"
  unfolding await_def by (rule yields_skip) (use with_cleanup_value in \<open>simp add: yields_def\<close>)

lemma call_world_yields:
  assumes "\<And>w x w'. m w = (Inr x, w') \<Longrightarrow> P x"
  shows "yields (call_world env m) (\<lambda>s x t. P x)"
  unfolding call_world_def
proof (rule await_value)
  show "yields (world_op Thrown m) (\<lambda>s x t. P x)"
    using assms by (auto simp: yields_def world_op_def split: prod.splits) (auto simp: map_sum_def split: sum.splits)
qed

subsection \<open>Writing evidence\<close>

lemma addArtifact_stored:
  "yields (addArtifact other uid input) (\<lambda>d p d'. p \<in> set (artifacts d') \<and> same_evidence input p)"
  unfolding addArtifact_def
proof (rule yields_skip, rule yields_skip, rule yields_skip, rule yields_skip, rule yields_skip)
  show "yields (andThen (sql_get artifacts (\<lambda>r. a_run_id r = Some (ai_runId input) \<and> a_path r = ai_path input)) (\<lambda>row.
     andThen (orThrow ArtifactDisappeared row) (\<lambda>persisted.
     andThen (require (same_evidence input persisted) (ArtifactConflict (ai_path input))) (\<lambda>_. ok persisted))))
    (\<lambda>t y u. \<forall>s a b c d. y \<in> set (artifacts u) \<and> same_evidence input y)"
    by (auto simp: yields_def andThen_Inr sql_get_def orThrow_def require_def ok_def find_Some_iff split: option.splits if_splits)
qed

lemma add_artifact_yields:
  assumes "well_behaved env"
  shows "yields (add_artifact env input) (\<lambda>s p t. p \<in> set (artifacts (co_db t)) \<and> same_evidence input p)"
  unfolding add_artifact_def
proof (rule call_db_yields [OF assms])
  show "yields (addArtifact other uid input) (\<lambda>d p d'. p \<in> set (artifacts d') \<and> same_evidence input p)" for other uid
    by (rule addArtifact_stored)
qed (use set_mono_prefix in \<open>fastforce simp: db_evolves_def\<close>)

lemma ingest_file_yields:
  assumes "well_behaved env" and "stores_faithfully (ce_services env)"
  shows "yields (ingest_file env taskId runId dir (path, kind)) (\<lambda>s x t. has_evidence kind runId (co_db t))"
proof -
  have w: "yields (call_world env (sv_writeArtifact (ce_services env)
      \<lparr>aw_taskId = taskId, aw_runId = runId, aw_kind = kind, aw_name = basename path, aw_data = data\<rparr>))
      (\<lambda>s m t. ai_runId m = runId \<and> ai_kind m = kind)" for data
    using assms(2) by (intro call_world_yields) (fastforce simp: stores_faithfully_def)
  show ?thesis unfolding ingest_file_def Let_def prod.case
  proof (rule yields_skip, rule yields_skip, rule yields_skip, rule yields_skip, rule yields_skip, rule yields_andThen [OF w], rule yields_andThen [OF add_artifact_yields [OF assms(1)]], rule yields_ok)
  qed (auto simp: has_evidence_def same_evidence_def)
qed

text \<open>A fact that once established stays.\<close>

definition settled :: "('w coord \<Rightarrow> bool) \<Rightarrow> bool" where
  "settled P \<longleftrightarrow> (\<forall>s t. P s \<longrightarrow> coord_evolves s t \<longrightarrow> P t)"

lemma settled_evidence: "settled (\<lambda>s. has_evidence kind i (co_db s))" "settled (\<lambda>s. verified_run i (co_db s))"
  using evidence_stays unfolding settled_def by blast+

lemma yields_then:
  assumes "settled P" and "yields m (\<lambda>s x t. P t)" and "\<And>x. keeps coord_evolves (f x)"
  shows "yields (andThen m f) (\<lambda>s y t. P t)"
  using assms unfolding yields_def settled_def by (auto simp: andThen_Inr) (metis keepsD)

lemma yields_conj: "yields m P \<Longrightarrow> yields m Q \<Longrightarrow> yields m (\<lambda>s x t. P s x t \<and> Q s x t)"
  by (simp add: yields_def)

lemma forEach_yields:
  assumes "\<And>x. x \<in> set xs \<Longrightarrow> yields (f x) (\<lambda>s y t. P x t)" and "\<And>x. settled (P x)" and "\<And>x. keeps coord_evolves (f x)"
  shows "yields (forEach xs f) (\<lambda>s y t. \<forall>x \<in> set xs. P x t)"
  using assms(1)
proof (induction xs)
  case (Cons x xs)
  have "yields (forEach xs f) (\<lambda>s y t. \<forall>x \<in> set xs. P x t)" by (rule Cons.IH) (simp add: Cons.prems)
  then have "yields (andThen (f x) (\<lambda>_. forEach xs f)) (\<lambda>s y t. \<forall>x \<in> set xs. P x t)" by (intro yields_skip) (simp add: yields_def)
  moreover have "yields (andThen (f x) (\<lambda>_. forEach xs f)) (\<lambda>s y t. P x t)"
    by (rule yields_then [OF assms(2) Cons.prems]) (simp, intro coord.keeps_control assms(3))
  ultimately show ?case by (simp add: yields_def)
qed (simp add: yields_ok)

lemma ingest_yields:
  assumes "well_behaved env" and "stores_faithfully (ce_services env)"
  shows "yields (ingestAdapterArtifacts env taskId runId a b c)
    (\<lambda>s x t. \<forall>kind \<in> {KStdout, KStderr, KResult}. has_evidence kind runId (co_db t))"
proof -
  have k: "keeps coord_evolves (ingest_file env taskId runId dir x)" for dir x
    unfolding ingest_file_def Let_def by (intro keeps_blocks assms(1))
  have "yields (ingest_file env taskId runId dir x) (\<lambda>s y t. has_evidence (snd x) runId (co_db t))" for dir x
    using ingest_file_yields [OF assms] by (cases x) simp
  from forEach_yields [OF this settled_evidence(1) k]
  have "yields (forEach [(a, KStdout), (b, KStderr), (c, KResult)] (ingest_file env taskId runId dir))
      (\<lambda>s x t. \<forall>x \<in> set [(a, KStdout), (b, KStderr), (c, KResult)]. has_evidence (snd x) runId (co_db t))" for dir .
  then show ?thesis unfolding ingestAdapterArtifacts_def by (intro yields_skip) (simp add: yields_def)
qed

lemma converse_ends:
  "ends_with P tk \<Longrightarrow> yields (converse callback err tk) (\<lambda>s x t. P x)"
proof (induction tk)
  case (Ends r)
  then show ?case by (cases r) (simp_all add: yields_def ok_def fail_def)
next
  case (Calls r k)
  have "yields (converse callback err (k b)) (\<lambda>s x t. P x)" for b using Calls by (cases b) auto
  then have "yields (converse callback err (k b)) (\<lambda>t y u. \<forall>s. P y)" for b by (simp add: yields_def)
  then show ?case unfolding converse.simps by (intro yields_skip) (simp split: sum.split)
qed

lemma verifier_run_yields:
  assumes "stores_faithfully (ce_services env)"
  shows "yields (verifier_run env taskId runId c d) (\<lambda>s r t. ai_runId (vr_artifact r) = runId)"
proof -
  let ?m = "andThen (\<lambda>s. case sv_verify (ce_services env) taskId runId c d (co_world s) of (t, w) \<Rightarrow> (Inr t, s\<lparr>co_world := w\<rparr>))
       (converse (verifier_started env taskId runId) Thrown)"
  have "yields ?m (\<lambda>s r t. ai_runId (vr_artifact r) = runId)"
    unfolding yields_def
  proof (intro allI impI)
    fix s r t assume "?m s = (Inr r, t)"
    then have eq: "converse (verifier_started env taskId runId) Thrown (fst (sv_verify (ce_services env) taskId runId c d (co_world s)))
        (s\<lparr>co_world := snd (sv_verify (ce_services env) taskId runId c d (co_world s))\<rparr>) = (Inr r, t)"
      by (simp add: andThen_def split_def)
    have e: "ends_with (\<lambda>r. ai_runId (vr_artifact r) = runId) (fst (sv_verify (ce_services env) taskId runId c d (co_world s)))"
      using assms by (simp add: stores_faithfully_def)
    show "ai_runId (vr_artifact r) = runId" by (rule yieldsD [OF converse_ends [OF e] eq])
  qed
  then show ?thesis unfolding verifier_run_def by (rule await_value)
qed

lemma runVerification_yields:
  assumes "well_behaved env" and "stores_faithfully (ce_services env)"
  shows "yields (runVerification env taskId runId c w) (\<lambda>s r t. verified_run runId (co_db t))"
proof -
  let ?snapshot = "call_world env (sv_capture (ce_services env) (wi_worktreePath w) (wi_baseCommit w))"
  define after_run where "after_run before result = andThen ?snapshot (\<lambda>after.
      if gs_head before \<noteq> gs_head after \<or> gs_status before \<noteq> gs_status after \<or> gs_diff before \<noteq> gs_diff after
      then andThen (publish env taskId (Some runId) ''verification.failed'' (Some LError)
             ''Verification modified tracked or untracked repository state.'' None)
             (\<lambda>_. fail (Thrown ''Independent verification modified repository state''))
      else
        let succeeded = (vr_status result = VSucceeded) in
        andThen (publish env taskId (Some runId) (if succeeded then ''verification.succeeded'' else ''verification.failed'')
          (Some (if succeeded then LInfo else LError))
          (if succeeded then ''Verification passed: '' @ vr_command result @ ''.''
           else case vr_error result of Some e \<Rightarrow> e
             | None \<Rightarrow> ''Verification ended with '' @ verification_status_name (vr_status result) @ ''.'')
          (Some (JObj [(''exitCode'', json_opt_int (vr_exitCode result)), (''signal'', json_opt_str (vr_signal result))]))) (\<lambda>_.
        andThen (fail_if (\<not> succeeded) (case vr_error result of Some e \<Rightarrow> e
          | None \<Rightarrow> ''Independent verification '' @ verification_status_name (vr_status result) @ '' with exit '' @ exit_text (vr_exitCode result)))
          (\<lambda>_. ok result)))" for before :: git_snapshot and result :: verification_result
  have keeps: "keeps coord_evolves (after_run before result)" for before result
    unfolding after_run_def Let_def by (intro keeps_blocks assms(1))
  have ends: "yields (after_run before result) (\<lambda>s y t. vr_status result = VSucceeded)" for before result
    unfolding after_run_def Let_def
    by (rule yields_skip, rule yields_split; rule yields_skip)
      (simp_all add: yields_fail, auto simp: yields_def andThen_def fail_if_def require_def ok_def)
  have main: "yields (andThen (add_artifact env ((vr_artifact result)\<lparr>ai_metadata := Some (verification_metadata result)\<rparr>)) (\<lambda>_. after_run before result))
      (\<lambda>s y t. verified_run runId (co_db t))" if r: "ai_runId (vr_artifact result) = runId" for before result
  proof (cases "vr_status result = VSucceeded")
    case True
    have "yields (add_artifact env ((vr_artifact result)\<lparr>ai_metadata := Some (verification_metadata result)\<rparr>)) (\<lambda>s y t. verified_run runId (co_db t))"
      using add_artifact_yields [OF assms(1)] r True
      by (fastforce simp: yields_def verified_run_def same_evidence_def read_metadata_def verification_metadata_def)
    then show ?thesis by (rule yields_then [OF settled_evidence(2)]) (rule keeps)
  next
    case False
    with ends [of before result] show ?thesis by (intro yields_skip) (simp add: yields_def)
  qed
  have inner: "yields (andThen (with_cleanup (verifier_run env taskId runId c (wi_worktreePath w)) (update (co_activeVerifications_update (map_delete runId))))
       (\<lambda>result. andThen (add_artifact env ((vr_artifact result)\<lparr>ai_metadata := Some (verification_metadata result)\<rparr>)) (\<lambda>_. after_run before result)))
      (\<lambda>s y t. verified_run runId (co_db t))" for before
    by (rule yields_value [OF with_cleanup_value [OF verifier_run_yields [OF assms(2)]] main])
  have eq: "runVerification env taskId runId c w = andThen ?snapshot (\<lambda>before.
      andThen (update (co_activeVerifications_update (map_set runId taskId))) (\<lambda>_.
      andThen (publish env taskId (Some runId) ''verification.started'' None
        ''Independent verification started in the isolated worktree.'' (Some (JObj [(''commandLine'', JStr c)]))) (\<lambda>_.
      andThen (with_cleanup (verifier_run env taskId runId c (wi_worktreePath w)) (update (co_activeVerifications_update (map_delete runId))))
       (\<lambda>result. andThen (add_artifact env ((vr_artifact result)\<lparr>ai_metadata := Some (verification_metadata result)\<rparr>)) (\<lambda>_. after_run before result)))))"
    unfolding runVerification_def after_run_def Let_def by (rule refl)
  show ?thesis unfolding eq by (rule yields_drop, rule yields_drop, rule yields_drop) (rule inner)
qed

subsection \<open>The run record\<close>

lemma updateRun_succeeded:
  assumes "\<And>d. db_evolves (task_edges\<^sup>+) (run_edges\<^sup>+) d (other' d)" and "up_status patch = Some RSucceeded"
  shows "yields (updateRun other other' ts i patch) (\<lambda>d r d'. r_id r = i \<and> recorded_succeeded i d')"
  unfolding updateRun_def
proof (rule yields_drop, rule yields_drop, rule yields_drop, rule yields_drop)
  fix current :: run_row
  let ?set = "sql_update runs runs_update (\<lambda>r. r_id r = i \<and> r_status r = r_status current) (apply_patch patch ts current) :: nat dbop"
  have upd: "recorded_succeeded i (snd (?set d))" if one: "fst (?set d) = Inr 1" for d
  proof -
    from one have "filter (\<lambda>r. r_id r = i \<and> r_status r = r_status current) (runs d) \<noteq> []" by (auto simp: sql_update_def)
    then obtain r where r: "r \<in> set (runs d)" "r_id r = i \<and> r_status r = r_status current" by (auto simp: filter_empty_conv)
    then have "apply_patch patch ts current r \<in> set (runs (snd (?set d)))" by (auto simp: sql_update_def set_update_rows intro!: bexI [of _ r])
    moreover have "r_status (apply_patch patch ts current r) = RSucceeded" using assms(2) by (simp add: apply_patch_def patched_def)
    ultimately show ?thesis using r unfolding recorded_succeeded_def by (intro bexI) simp_all
  qed
  have set: "recorded_succeeded i (other' d')" if "?set d = (Inr 1, d')" for d d'
  proof -
    have "recorded_succeeded i d'" using upd [of d] that by (simp only: fst_conv snd_conv)
    then show ?thesis by (rule succeeded_stays [OF assms(1)])
  qed
  let ?rest = "\<lambda>changes. andThen (require (changes = 1) (RunChangedConcurrently i)) (\<lambda>_.
      andThen (update other') (\<lambda>_. andThen (sql_get runs (\<lambda>r. r_id r = i)) (\<lambda>updatedRow. orThrow (RunDisappeared i) updatedRow)))"
  have rest: "?rest changes d = (Inr y, u) \<Longrightarrow> changes = 1 \<and> u = other' d \<and> find (\<lambda>r. r_id r = i) (runs u) = Some y" for changes d y u
    by (auto simp: andThen_def require_def update_def sql_get_def orThrow_def split: if_splits option.splits)
  show "yields (andThen ?set ?rest) (\<lambda>s y u. r_id y = i \<and> recorded_succeeded i u)"
    unfolding yields_def
  proof (intro allI impI)
    fix s y u assume "andThen ?set ?rest s = (Inr y, u)"
    then obtain changes d where set_step: "?set s = (Inr changes, d)" and "?rest changes d = (Inr y, u)" unfolding andThen_Inr [of ?set ?rest] by blast
    note r = rest [OF this(2)]
    from set_step r have "?set s = (Inr 1, d)" by simp
    from set [OF this] have "recorded_succeeded i u" unfolding conjunct1 [OF conjunct2 [OF r]] .
    moreover have "find (\<lambda>r. r_id r = i) (runs u) = Some y" by (rule conjunct2 [OF conjunct2 [OF r]])
    ultimately show "r_id y = i \<and> recorded_succeeded i u" by (auto simp: find_Some_iff)
  qed
qed

lemma patch_run_succeeded:
  assumes "well_behaved env" and "up_status patch = Some RSucceeded"
  shows "yields (patch_run env patch) (\<lambda>x y z. r_id (lo_run (fst z)) = r_id (lo_run (fst x)) \<and> recorded_succeeded (r_id (lo_run (fst z))) (co_db (snd z)))"
proof -
  have "yields (call_db env (\<lambda>other other' _ ts. updateRun other other' ts i patch)) (\<lambda>s r t. r_id r = i \<and> recorded_succeeded i (co_db t))" for i
    by (rule call_db_yields [OF assms(1)]) (use updateRun_succeeded assms(2) succeeded_stays in blast)+
  then show ?thesis
    by (auto simp: yields_def patch_run_def local_of_def andThen_query andThen_Inr lift_def assign_def update_def query_def split: prod.splits)
qed

subsection \<open>The step\<close>

text \<open>What a successful step leaves behind for its run.\<close>

definition backed_up :: "task_record \<Rightarrow> step_row \<Rightarrow> string \<Rightarrow> db \<Rightarrow> bool" where
  "backed_up task step i d \<longleftrightarrow> has_evidence KStdout i d \<and> has_evidence KStderr i d \<and> has_evidence KResult i d
     \<and> (s_role step = Execute \<and> truthy (tr_verificationCommand task) \<noteq> None \<longrightarrow> verified_run i d)"

lemma settled_backed_up: "settled (\<lambda>s. backed_up task step i (co_db s))"
  using evidence_stays unfolding settled_def backed_up_def by blast

lemma yields_imp: "(P \<Longrightarrow> yields m Q) \<Longrightarrow> yields m (\<lambda>s x t. P \<longrightarrow> Q s x t)"
  by (auto simp: yields_def)

lemma yields_mono: "yields m P \<Longrightarrow> (\<And>s x t. P s x t \<Longrightarrow> Q s x t) \<Longrightarrow> yields m Q"
  by (simp add: yields_def)

lemma verification_yields:
  assumes "well_behaved env" and "stores_faithfully (ce_services env)" and "rs_status result = ASucceeded"
  shows "yields (case truthy (tr_verificationCommand task) of
         Some commandLine \<Rightarrow>
           if rs_status result = ASucceeded \<and> s_role step = Execute
           then andThen (set_phase runId (tr_id task) PhVerifying) (\<lambda>_.
                andThen (runVerification env (tr_id task) runId commandLine worktree) (\<lambda>_.
                set_phase runId (tr_id task) PhFinalizing))
           else ok ()
       | None \<Rightarrow> ok ()) (\<lambda>s x t. s_role step = Execute \<and> truthy (tr_verificationCommand task) \<noteq> None \<longrightarrow> verified_run runId (co_db t))"
proof (cases "truthy (tr_verificationCommand task)")
  case (Some commandLine)
  have "yields (andThen (set_phase runId (tr_id task) PhVerifying) (\<lambda>_.
      andThen (runVerification env (tr_id task) runId commandLine worktree) (\<lambda>_. set_phase runId (tr_id task) PhFinalizing)))
      (\<lambda>s x t. verified_run runId (co_db t))"
    by (rule yields_drop, rule yields_then [OF settled_evidence(2) runVerification_yields [OF assms(1,2)]], rule keeps_blocks)
  with Some assms(3) show ?thesis by (auto simp: yields_def)
qed (simp add: yields_def)

lemma secure_evidence_yields:
  assumes "well_behaved env" and "stores_faithfully (ce_services env)" and "rs_status result = ASucceeded"
  shows "yields (secure_evidence env task step worktree snapshot runId result) (\<lambda>s x t. backed_up task step runId (co_db t))"
proof -
  let ?verify = "case truthy (tr_verificationCommand task) of
         Some commandLine \<Rightarrow>
           if rs_status result = ASucceeded \<and> s_role step = Execute
           then andThen (set_phase runId (tr_id task) PhVerifying) (\<lambda>_.
                andThen (runVerification env (tr_id task) runId commandLine worktree) (\<lambda>_.
                set_phase runId (tr_id task) PhFinalizing))
           else ok ()
       | None \<Rightarrow> ok ()"
  let ?review = "\<lambda>_ :: unit. capture_review env task runId worktree"
  have kv: "keeps coord_evolves ?verify" by (intro keeps_blocks keeps_runVerification assms(1))
  have kr: "keeps coord_evolves (?review x)" for x by (rule keeps_capture_review [OF assms(1)])
  have tail: "keeps coord_evolves (andThen ?verify ?review)" by (intro coord.keeps_control kv kr)
  have files: "yields (andThen (ingestAdapterArtifacts env (tr_id task) runId (rs_stdoutPath result) (rs_stderrPath result) (rs_resultPath result)) (\<lambda>_. andThen ?verify ?review))
      (\<lambda>s x t. \<forall>kind \<in> {KStdout, KStderr, KResult}. has_evidence kind runId (co_db t))"
  proof (rule yields_then)
    show "settled (\<lambda>s. \<forall>kind \<in> {KStdout, KStderr, KResult}. has_evidence kind runId (co_db s))"
      using evidence_stays(1) unfolding settled_def by blast
  qed (rule ingest_yields [OF assms(1,2)], rule tail)
  have "settled (\<lambda>s. s_role step = Execute \<and> truthy (tr_verificationCommand task) \<noteq> None \<longrightarrow> verified_run runId (co_db s))"
    using evidence_stays(2) unfolding settled_def by blast
  from yields_then [OF this verification_yields [OF assms] kr]
  have "yields (andThen ?verify ?review) (\<lambda>s x t. s_role step = Execute \<and> truthy (tr_verificationCommand task) \<noteq> None \<longrightarrow> verified_run runId (co_db t))" .
  then have "yields (andThen (ingestAdapterArtifacts env (tr_id task) runId (rs_stdoutPath result) (rs_stderrPath result) (rs_resultPath result)) (\<lambda>_. andThen ?verify ?review))
      (\<lambda>s x t. s_role step = Execute \<and> truthy (tr_verificationCommand task) \<noteq> None \<longrightarrow> verified_run runId (co_db t))"
    by (rule yields_drop)
  from yields_conj [OF files this]
  have "yields (andThen (ingestAdapterArtifacts env (tr_id task) runId (rs_stdoutPath result) (rs_stderrPath result) (rs_resultPath result)) (\<lambda>_. andThen ?verify ?review))
      (\<lambda>s x t. backed_up task step runId (co_db t))"
    by (rule yields_mono) (simp add: backed_up_def)
  then show ?thesis unfolding secure_evidence_def by (rule yields_drop)
qed

lemma lift_Inr: "lift m (l, s) = (Inr x, z) \<longleftrightarrow> (\<exists>t. m s = (Inr x, t) \<and> z = (l, t))"
  by (auto simp: lift_def split: prod.splits)

lemma record_result_yields:
  assumes "well_behaved env"
  shows "yields (record_result env task step result) (\<lambda>x o' y. so_succeeded o' = (rs_status result = ASucceeded)
    \<and> (rs_status result = ASucceeded \<longrightarrow> (\<exists>run. so_run o' = Some run \<and> r_id run = r_id (lo_run (fst x)) \<and> recorded_succeeded (r_id run) (co_db (snd y)))))"
  unfolding yields_def
proof (intro allI impI)
  fix x o' y assume run: "record_result env task step result x = (Inr o', y)"
  have "\<exists>rest. record_result env task step result = andThen (patch_run env (result_patch result)) rest \<and> (\<forall>u. keeps locals_evolve (rest u))"
    unfolding record_result_def Let_def
    by (rule exI, rule conjI, rule refl, rule allI, intro keeps_locals_blocks keeps_blocks keeps_call_db any_moves.keeps_updateRouteStep assms)
  then obtain rest where eq: "record_result env task step result = andThen (patch_run env (result_patch result)) rest"
    and keeps: "\<And>u. keeps locals_evolve (rest u)" by blast
  with run obtain l1 s1 where p: "patch_run env (result_patch result) x = (Inr (), (l1, s1))" and r: "rest () (l1, s1) = (Inr o', y)"
    by (auto simp: andThen_Inr)
  have succeeded: "so_succeeded o' = (rs_status result = ASucceeded)" "so_run o' = Some (lo_run l1)"
    using run p by (auto simp: record_result_def Let_def andThen_Inr lift_Inr local_of_def query_def ok_def split: if_splits)
  have "recorded_succeeded (r_id (lo_run l1)) (co_db (snd y)) \<and> r_id (lo_run l1) = r_id (lo_run (fst x))" if "rs_status result = ASucceeded"
  proof -
    have "up_status (result_patch result) = Some RSucceeded" using that by (simp add: result_patch_def no_patch_def)
    note rec = yieldsD [OF patch_run_succeeded [OF assms this] p, unfolded fst_conv snd_conv]
    have "locals_evolve (l1, s1) y" by (rule keepsD [OF keeps r])
    then have "db_evolves (task_edges\<^sup>+) (run_edges\<^sup>+) (co_db s1) (co_db (snd y))" by (simp add: locals_evolve_def coord_evolves_def)
    from succeeded_stays [OF this] rec show ?thesis by blast
  qed
  with succeeded show "so_succeeded o' = (rs_status result = ASucceeded)
    \<and> (rs_status result = ASucceeded \<longrightarrow> (\<exists>run. so_run o' = Some run \<and> r_id run = r_id (lo_run (fst x)) \<and> recorded_succeeded (r_id run) (co_db (snd y))))"
    by blast
qed

definition well_supported :: "task_record \<Rightarrow> step_row \<Rightarrow> step_outcome \<Rightarrow> db \<Rightarrow> bool" where
  "well_supported task step o' d \<longleftrightarrow> (\<exists>run. so_run o' = Some run \<and> recorded_succeeded (r_id run) d \<and> backed_up task step (r_id run) d)"

lemma run_step_yields:
  assumes "well_behaved env" and "stores_faithfully (ce_services env)"
  shows "yields (run_step env task step adapter prior) (\<lambda>x o' y. so_succeeded o' \<longrightarrow> well_supported task step o' (co_db (snd y)))"
  unfolding run_step_def split_def
proof (rule yields_drop, rule yields_drop, rule yields_drop, unfold yields_def, intro allI impI)
  fix w x result o' y
  assume "andThen (local_of (\<lambda>l. (r_id (lo_run l), lo_snapshot l))) (\<lambda>z.
     andThen (lift (delete_active (fst z))) (\<lambda>_.
     andThen (lift (set_phase (fst z) (tr_id task) PhFinalizing)) (\<lambda>_.
     andThen (lift (secure_evidence env task step (fst w) (snd z) (fst z) result)) (\<lambda>_.
     record_result env task step result)))) x = (Inr o', y)" and succeeded: "so_succeeded o'"
  then obtain l s u where x: "fst x = l" and secured: "secure_evidence env task step (fst w) (lo_snapshot l) (r_id (lo_run l)) result s = (Inr (), u)"
    and recorded: "record_result env task step result (l, u) = (Inr o', y)"
    by (cases x) (auto simp: andThen_Inr lift_Inr local_of_def query_def)
  note rec = yieldsD [OF record_result_yields [OF assms(1)] recorded, unfolded fst_conv]
  with succeeded have status: "rs_status result = ASucceeded" by simp
  with rec obtain run where run: "so_run o' = Some run" "r_id run = r_id (lo_run l)" "recorded_succeeded (r_id run) (co_db (snd y))" by blast
  have "backed_up task step (r_id (lo_run l)) (co_db u)"
    by (rule yieldsD [OF secure_evidence_yields [OF assms status] secured])
  moreover have "coord_evolves u (snd y)"
    using keepsD [OF keeps_record_result [OF assms(1)] recorded] by (simp add: locals_evolve_def)
  ultimately have "backed_up task step (r_id run) (co_db (snd y))"
    using settled_backed_up [of task step "r_id run"] unfolding settled_def run(2) by blast
  with run show "well_supported task step o' (co_db (snd y))" unfolding well_supported_def by blast
qed

lemma step_failed_yields: "yields (step_failed env task step e) (\<lambda>s o' t. \<not> so_succeeded o')"
  unfolding step_failed_def split_def by ((rule yields_drop)+; rule yields_ok; simp)

lemma unavailable_yields: "yields (unavailableStep env step m) (\<lambda>s o' t. so_succeeded o' \<longrightarrow> so_skipped o')"
  unfolding unavailableStep_def by (rule yields_split; (rule yields_drop)+; rule yields_ok; simp)

lemma with_locals_state: "yields m (\<lambda>x r y. P r (snd y)) \<Longrightarrow> yields (with_locals l m) (\<lambda>s r t. P r t)"
  by (fastforce simp: yields_def with_locals_def split: prod.splits)

lemma attempt_yields: "yields m Q \<Longrightarrow> (\<And>e. yields (h e) (\<lambda>s x t. Q' x t)) \<Longrightarrow> (\<And>s x t. Q s x t \<Longrightarrow> Q' x t) \<Longrightarrow>
    yields (andThen (attempt m) (\<lambda>r. case r of Inr x \<Rightarrow> ok x | Inl e \<Rightarrow> h e)) (\<lambda>s x t. Q' x t)"
  by (fastforce simp: yields_def andThen_Inr attempt_def ok_def split: prod.splits sum.splits)

lemma executeStep_yields:
  assumes "well_behaved env" and "stores_faithfully (ce_services env)"
  shows "yields (executeStep env task step prior inherited) (\<lambda>s o' t. so_succeeded o' \<longrightarrow> so_skipped o' \<or> well_supported task step o' (co_db t))"
proof -
  have "yields (andThen (attempt (run_step env task step adapter prior)) (\<lambda>r. case r of Inr outcome \<Rightarrow> ok outcome | Inl error \<Rightarrow> step_failed env task step error))
      (\<lambda>x o' y. so_succeeded o' \<longrightarrow> well_supported task step o' (co_db (snd y)))" for adapter
    by (rule attempt_yields [OF run_step_yields [OF assms]], rule yields_mono [OF step_failed_yields]) simp_all
  from with_locals_state [OF this]
  have attempted: "yields (with_locals l (andThen (attempt (run_step env task step adapter prior)) (\<lambda>r. case r of Inr outcome \<Rightarrow> ok outcome | Inl error \<Rightarrow> step_failed env task step error)))
      (\<lambda>s o' t. so_succeeded o' \<longrightarrow> so_skipped o' \<or> well_supported task step o' (co_db t))" for adapter l
    by (rule yields_mono) blast
  have skipped: "yields (unavailableStep env step m) (\<lambda>s o' t. so_succeeded o' \<longrightarrow> so_skipped o' \<or> well_supported task step o' (co_db t))" for m
    by (rule yields_mono [OF unavailable_yields]) blast
  show ?thesis unfolding executeStep_def
    by (intro yields_drop yields_split skipped attempted)
qed

text \<open>
  C18 A step that succeeded is backed up: whatever other steps, requests and processes did meanwhile, the database
  holds its run as succeeded, the output, the errors and the result of its agent as artifacts of that run, and,
  for an execution step of a task with a verification command, the artifact of a verification that succeeded.
\<close>
theorem success_has_evidence:
  assumes "executeStep env task step prior inherited s = (Inr o', t)" and "well_behaved env"
    and "stores_faithfully (ce_services env)" and "so_succeeded o'" and "\<not> so_skipped o'"
  shows "\<exists>run. so_run o' = Some run \<and> recorded_succeeded (r_id run) (co_db t) \<and> backed_up task step (r_id run) (co_db t)"
  using yieldsD [OF executeStep_yields [OF assms(2,3)] assms(1)] assms(4,5) unfolding well_supported_def by blast

lemma demo_env_ok: "well_behaved demo_env" "stores_faithfully (ce_services demo_env)"
  by (simp_all add: well_behaved_def coord.refl any_moves.db_evolves_refl demo_env_def stores_faithfully_def demo_services_def demo_artifact_def
      demo_verification_def eff_simps)

theorem success_has_evidence_witness:
  "\<exists>o' t run. executeStep demo_env demo_task (demo_step ''s1'' Codex Execute 0) [] None demo_state = (Inr o', t)
     \<and> so_run o' = Some run \<and> recorded_succeeded (r_id run) (co_db t) \<and> has_evidence KStdout (r_id run) (co_db t) \<and> verified_run (r_id run) (co_db t)"
proof -
  obtain o' t where run: "executeStep demo_env demo_task (demo_step ''s1'' Codex Execute 0) [] None demo_state = (Inr o', t)"
    "so_succeeded o'" "\<not> so_skipped o'"
    using demo_runs by (auto split: prod.splits sum.splits)
  from success_has_evidence [OF run(1) demo_env_ok run(2,3)] obtain r where
    "so_run o' = Some r" "recorded_succeeded (r_id r) (co_db t)" "backed_up demo_task (demo_step ''s1'' Codex Execute 0) (r_id r) (co_db t)" by blast
  with run(1) show ?thesis by (auto simp: backed_up_def demo_task_def demo_step_def sample_step_def truthy_def)
qed

end
