(* ===== verification/CoordGate.thy ===== *)
theory CoordGate
  imports CoordEvidence
begin

text \<open>
  The review gate: how a task that asks for a handoff, or that was routed as risky, may end, whatever happens
  in the database while it runs.
\<close>

subsection \<open>A database operation among others\<close>

lemma andThen_InrE:
  assumes "andThen m f s = (Inr y, t)"
  obtains x u where "m s = (Inr x, u)" and "f x u = (Inr y, t)"
  using assms by (auto simp: andThen_Inr)

abbreviation evolves :: "db \<Rightarrow> db \<Rightarrow> bool" where
  "evolves \<equiv> db_evolves (task_edges\<^sup>+) (run_edges\<^sup>+)"

lemma call_db_Inr:
  assumes "well_behaved env" and "call_db env f s = (Inr x, t)"
  obtains n d d' where "evolves (co_db s) d"
    and "f (ce_otherDb env n) (ce_otherDb env (Suc n)) (ce_uuid env n) (ce_now env n) d = (Inr x, d')" and "evolves d' (co_db t)"
proof -
  from assms(2) obtain u v where run: "pause env s = (Inr (), u)" "db_call_op env f u = (Inr x, v)" "pause env v = (Inr (), t)"
    by (auto simp: call_db_def await_def andThen_def with_cleanup_def attempt_def lift_res_def split: prod.splits sum.splits)
  have "evolves (co_db s) (co_db u)" "evolves (co_db v) (co_db t)"
    using keepsD [OF keeps_pause [OF assms(1)] run(1)] keepsD [OF keeps_pause [OF assms(1)] run(3)] by (simp_all add: coord_evolves_def)
  moreover have "f (ce_otherDb env (co_tick u)) (ce_otherDb env (Suc (co_tick u))) (ce_uuid env (co_tick u)) (ce_now env (co_tick u)) (co_db u) = (Inr x, co_db v)"
    using run(2) by (auto simp: db_call_op_def split: prod.splits) (auto simp: map_sum_def split: sum.splits)
  ultimately show ?thesis by (intro that)
qed

lemma evolves_trans: "evolves a b \<Longrightarrow> evolves b c \<Longrightarrow> evolves a c"
  by (rule any_moves.db_evolves_trans)

text \<open>The first row of an id keeps its place and its fixed columns.\<close>

lemma find_moved:
  assumes "moved_by M key st xs ys" and "find (\<lambda>r. ident (key r) = i) xs = Some x"
  shows "\<exists>y. find (\<lambda>r. ident (key r) = i) ys = Some y \<and> key y = key x"
proof -
  from assms(2) obtain n where n: "n < length xs" "ident (key (xs ! n)) = i" "x = xs ! n" "\<forall>j < n. ident (key (xs ! j)) \<noteq> i"
    by (auto simp: find_Some_iff)
  with assms(1) have "n < length ys \<and> key (ys ! n) = key (xs ! n)" "\<forall>j < n. key (ys ! j) = key (xs ! j)"
    by (auto simp: moved_by_def)
  with n show ?thesis by (intro exI [of _ "ys ! n"]) (auto simp: find_Some_iff intro!: exI [of _ n])
qed

lemma find_task_evolves:
  assumes "evolves d d'" and "find (\<lambda>r. t_id r = i) (tasks d) = Some row"
  obtains row' where "find (\<lambda>r. t_id r = i) (tasks d') = Some row'" and "task_fixed row' = task_fixed row"
proof -
  have "moved_by (task_edges\<^sup>+) task_fixed t_status (tasks d) (tasks d')" using assms(1) by (simp add: db_evolves_def)
  from find_moved [OF this, of fst i row] assms(2) that show ?thesis by (auto simp: task_fixed_def)
qed

subsection \<open>What the coordinator reads\<close>

definition gated :: "task_row \<Rightarrow> bool" where
  "gated row \<longleftrightarrow> t_handoff_required row \<or> t_route_risk row = RiskHigh"

definition needs_review :: "task_aggregate \<Rightarrow> bool" where
  "needs_review agg \<longleftrightarrow> tr_handoffRequired (ag_task agg) \<or> rp_risk (tr_routePlan (ag_task agg)) = RiskHigh"

lemma payload_handoff: "TaskPayloadSchema p = Some q \<Longrightarrow> p_handoffRequired q = p_handoffRequired p"
  by (auto simp: TaskPayloadSchema_def Let_def split: option.splits if_splits bind_splits)

lemma plan_risk: "RoutePlanSchema p = Some q \<Longrightarrow> rp_risk q = rp_risk p"
  by (auto simp: RoutePlanSchema_def Let_def split: option.splits if_splits bind_splits)

lemma getTask_reads:
  assumes "getTask i d = (Inr (Some agg), d')"
  obtains row where "find (\<lambda>r. t_id r = i) (tasks d) = Some row" and "tr_id (ag_task agg) = i" and "needs_review agg = gated row"
    and "tr_status (ag_task agg) = t_status row" and "tr_claimedBy (ag_task agg) = t_claimed_by row"
proof -
  from assms obtain row task task' where row: "find (\<lambda>r. t_id r = i) (tasks d) = Some row" and
    task: "taskFromRow row = Some task" "with_steps task (listRouteSteps i d) = Some task'" "ag_task agg = task'"
    by (auto simp: getTask_def eff_simps split: option.splits)
  from row have "t_id row = i" by (auto simp: find_Some_iff)
  from task(1,2) have "tr_id task' = t_id row" "tr_handoffRequired task' = t_handoff_required row" "rp_risk (tr_routePlan task') = t_route_risk row"
    "tr_status task' = t_status row" "tr_claimedBy task' = t_claimed_by row"
    by (auto simp: taskFromRow_def with_steps_def bind_eq_Some_conv dest!: payload_handoff plan_risk)
  with row task(3) \<open>t_id row = i\<close> show ?thesis by (intro that) (auto simp: needs_review_def gated_def)
qed

subsection \<open>The end of an execution\<close>

definition new_reviews :: "string \<Rightarrow> db \<Rightarrow> db \<Rightarrow> review_row list" where
  "new_reviews i d d' = filter (\<lambda>v. v_task_id v = i) (drop (length (reviews d)) (reviews d'))"

lemma new_reviews_evolve:
  assumes "evolves d d1" and "evolves d2 d3" and "reviews d2 = reviews d1 @ v # vs" and "v_task_id v = i"
  shows "new_reviews i d d3 \<noteq> []"
proof -
  let ?n = "length (reviews d1)"
  have le: "length (reviews d) \<le> ?n" using assms(1) by (simp add: db_evolves_def moved_by_def)
  have "moved_by review_moves review_fixed v_status (reviews d2) (reviews d3)" using assms(2) by (simp add: db_evolves_def)
  then have n: "?n < length (reviews d3)" "review_fixed (reviews d3 ! ?n) = review_fixed v"
    using assms(3) by (auto simp: moved_by_def nth_append)
  then have "v_task_id (reviews d3 ! ?n) = i" using assms(4) by (simp add: review_fixed_def)
  moreover have "reviews d3 ! ?n \<in> set (drop (length (reviews d)) (reviews d3))"
    using n(1) le by (auto simp: in_set_conv_nth intro!: exI [of _ "?n - length (reviews d)"])
  ultimately show ?thesis by (auto simp: new_reviews_def filter_empty_conv)
qed

lemma finalize_opens_review:
  assumes "finalizeTaskExecution uid ts i TNeedsReview u run d = (Inr v, d')"
  obtains w where "reviews d' = reviews d @ [w]" and "v_task_id w = i"
proof -
  from assms have "reviews d' = reviews d @ [new_review_row uid ts i run None]"
    by (auto simp: finalizeTaskExecution_def atomically_Inr andThen_Inr Let_def sql_get_def orThrow_def require_def ok_def
        insert_defs record_updates sql_update_def split: option.splits if_splits)
  moreover have "v_task_id (new_review_row uid ts i run None) = i" by (simp add: new_review_row_def)
  ultimately show ?thesis by (rule that)
qed

definition held_back :: "string \<Rightarrow> db \<Rightarrow> run_task_result \<Rightarrow> db \<Rightarrow> bool" where
  "held_back i d result d' \<longleftrightarrow> rt_status result = ResBlocked \<or> rt_status result = ResNeedsReview \<and> new_reviews i d d' \<noteq> []"

lemma held_back_before: "evolves d0 d \<Longrightarrow> held_back i d result d' \<Longrightarrow> held_back i d0 result d'"
proof -
  assume "evolves d0 d" and h: "held_back i d result d'"
  then have "length (reviews d0) \<le> length (reviews d)" by (simp add: db_evolves_def moved_by_def)
  then have "set (drop (length (reviews d)) (reviews d')) \<subseteq> set (drop (length (reviews d0)) (reviews d'))"
    by (rule set_drop_subset_set_drop)
  with h show ?thesis by (fastforce simp: held_back_def new_reviews_def filter_empty_conv)
qed

lemma complete_gated:
  assumes run: "complete_task env i os s = (Inr result, t)" and env: "well_behaved env"
    and row: "find (\<lambda>r. t_id r = i) (tasks (co_db s)) = Some row" "gated row"
  shows "held_back i (co_db s) result (co_db t)"
proof -
  from run obtain found u where found: "call_db env (\<lambda>_ _ _ _. getTask i) s = (Inr found, u)" and
    rest: "andThen (orThrow (Thrown (''Task disappeared during execution: '' @ i)) found) (\<lambda>refreshed.
     let needsReview = (tr_handoffRequired (ag_task refreshed) \<or> rp_risk (tr_routePlan (ag_task refreshed)) = RiskHigh);
         status = (if needsReview then ResNeedsReview else ResDone);
         message = (if needsReview then ''Execution evidence is ready for human review.''
           else ''All required route steps completed successfully.'');
         latestRun = latest_succeeded (ag_runs refreshed) in
     andThen (attempt (writeHandoff env i status None)) (\<lambda>r. case r of
       Inl e \<Rightarrow>
         (let detail = ''Could not persist completion evidence: '' @ error_message env e in
          andThen (block_task env i detail) (\<lambda>_.
          andThen (publish env i latestRun ''task.blocked'' (Some LError) detail None) (\<lambda>_.
          ok \<lparr>rt_taskId = i, rt_status = ResBlocked, rt_handoffPath = None, rt_outcomes = os\<rparr>)))
     | Inr handoffPath \<Rightarrow>
         andThen (call_db env (\<lambda>_ _ uid ts. finalizeTaskExecution uid ts i (if needsReview then TNeedsReview else TDone) message latestRun)) (\<lambda>_.
         andThen (publish env i latestRun (if needsReview then ''review.requested'' else ''task.completed'') None message
           (case truthy handoffPath of None \<Rightarrow> None | Some p \<Rightarrow> Some (JObj [(''handoffPath'', JStr p)]))) (\<lambda>_.
         ok \<lparr>rt_taskId = i, rt_status = status, rt_handoffPath = handoffPath, rt_outcomes = os\<rparr>)))) u = (Inr result, t)"
    by (auto simp: complete_task_def andThen_Inr)
  then obtain agg where agg: "found = Some agg" by (cases found) (auto simp: orThrow_def andThen_def)
  from found [unfolded agg] obtain d d' where d: "evolves (co_db s) d" "getTask i d = (Inr (Some agg), d')"
    by (rule call_db_Inr [OF env])
  obtain row' where "find (\<lambda>r. t_id r = i) (tasks d) = Some row'" "task_fixed row' = task_fixed row"
    by (rule find_task_evolves [OF d(1) row(1)])
  with row(2) d(2) have needs: "needs_review agg" by (auto elim!: getTask_reads simp: gated_def task_fixed_def)
  have su: "evolves (co_db s) (co_db u)"
    using keepsD [OF keeps_call_db [OF env keeps_task_read] found] by (simp add: coord_evolves_def)
  have n: "(tr_handoffRequired (ag_task agg) \<or> rp_risk (tr_routePlan (ag_task agg)) = RiskHigh) = True" using needs by (simp add: needs_review_def)
  let ?run = "latest_succeeded (ag_runs agg)" and ?m = "''Execution evidence is ready for human review.''"
  let ?ends = "\<lambda>r. case r of
       Inl e \<Rightarrow> andThen (block_task env i (''Could not persist completion evidence: '' @ error_message env e)) (\<lambda>_.
          andThen (publish env i ?run ''task.blocked'' (Some LError) (''Could not persist completion evidence: '' @ error_message env e) None) (\<lambda>_.
          ok \<lparr>rt_taskId = i, rt_status = ResBlocked, rt_handoffPath = None, rt_outcomes = os\<rparr>))
     | Inr handoffPath \<Rightarrow>
         andThen (call_db env (\<lambda>_ _ uid ts. finalizeTaskExecution uid ts i TNeedsReview ?m ?run)) (\<lambda>_.
         andThen (publish env i ?run ''review.requested'' None ?m
           (case truthy handoffPath of None \<Rightarrow> None | Some p \<Rightarrow> Some (JObj [(''handoffPath'', JStr p)]))) (\<lambda>_.
         ok \<lparr>rt_taskId = i, rt_status = ResNeedsReview, rt_handoffPath = handoffPath, rt_outcomes = os\<rparr>))"
  have "andThen (orThrow (Thrown x) (Some agg)) f = f agg" for x :: string and f :: "task_aggregate \<Rightarrow> ('a, run_task_result) op"
    by (simp add: fun_eq_iff andThen_def orThrow_def)
  from rest [unfolded agg this Let_def n if_True]
  have "andThen (attempt (writeHandoff env i ResNeedsReview None)) ?ends u = (Inr result, t)" .
  then obtain r v where written: "(attempt (writeHandoff env i ResNeedsReview None) :: ('a, coord_error + string option) op) u = (Inr r, v)" and tail: "?ends r v = (Inr result, t)"
    by (rule andThen_InrE)
  show ?thesis
  proof (cases r)
    case (Inl e)
    with tail show ?thesis by (auto simp: held_back_def andThen_Inr ok_def)
  next
    case (Inr p)
    with tail obtain x y m run ev where status: "rt_status result = ResNeedsReview" and
      fin: "call_db env (\<lambda>_ _ uid ts. finalizeTaskExecution uid ts i TNeedsReview m run) v = (Inr x, y)"
      and pub: "publish env i run ''review.requested'' None m ev y = (Inr (), t)"
      by (auto simp: andThen_Inr ok_def)
    have uv: "evolves (co_db u) (co_db v)"
      using keepsD [OF coord.keeps_attempt [OF keeps_writeHandoff [OF env]] written] by (simp add: coord_evolves_def)
    have yt: "evolves (co_db y) (co_db t)"
      using keepsD [OF keeps_publish [OF env] pub] by (simp add: coord_evolves_def)
    from fin obtain n d1 d2 where d1: "evolves (co_db v) d1" "finalizeTaskExecution (ce_uuid env n) (ce_now env n) i TNeedsReview m run d1 = (Inr x, d2)" "evolves d2 (co_db y)"
      by (rule call_db_Inr [OF env])
    from d1(2) obtain w where w: "reviews d2 = reviews d1 @ [w]" "v_task_id w = i" by (rule finalize_opens_review)
    have "new_reviews i (co_db s) (co_db t) \<noteq> []"
      by (rule new_reviews_evolve [OF _ _ w]) (blast intro: evolves_trans su uv d1 yt)+
    with status show ?thesis by (simp add: held_back_def)
  qed
qed

lemma claimed_gated:
  assumes run: "executeClaimedTask env agg s = (Inr result, t)" and env: "well_behaved env" and i: "tr_id (ag_task agg) = i"
    and row: "find (\<lambda>r. t_id r = i) (tasks (co_db s)) = Some row" "gated row"
  shows "held_back i (co_db s) result (co_db t)"
proof -
  let ?task = "(ag_task agg)\<lparr>tr_context := execution_context agg\<rparr>"
  let ?groups = "run_groups env ?task (pending_steps agg) (sort (remdups (map s_sequence_no (pending_steps agg)))) (prior_results agg) (inherited_worktree agg) []"
  from run obtain r u where r: "?groups s = (Inr r, u)" and rest: "(case r of Inl result \<Rightarrow> ok result
      | Inr outcomes \<Rightarrow> andThen (query co_shutdown) (\<lambda>shutdown.
          if shutdown then blockForShutdown env (tr_id ?task) outcomes else complete_task env (tr_id ?task) outcomes)) u = (Inr result, t)"
    by (auto simp: executeClaimedTask_def Let_def andThen_Inr)
  have i': "tr_id ?task = i" using i by simp
  have su: "evolves (co_db s) (co_db u)" using keepsD [OF keeps_run_groups [OF env] r] by (simp add: coord_evolves_def)
  show ?thesis
  proof (cases r)
    case (Inl result')
    with rest yieldsD [OF run_groups_results r] show ?thesis by (auto simp: ok_def groups_ran_def held_back_def)
  next
    case (Inr outcomes)
    obtain row' where "find (\<lambda>r. t_id r = i) (tasks (co_db u)) = Some row'" "task_fixed row' = task_fixed row"
      by (rule find_task_evolves [OF su row(1)])
    moreover from this row(2) have "gated row'" by (simp add: gated_def task_fixed_def)
    ultimately have "complete_task env i outcomes u = (Inr result, t) \<Longrightarrow> held_back i (co_db u) result (co_db t)"
      by (intro complete_gated [OF _ env])
    moreover have "blockForShutdown env i outcomes u = (Inr result, t) \<Longrightarrow> held_back i (co_db u) result (co_db t)"
      using yieldsD [OF blocked_results(1), of env i outcomes u result t] by (simp add: held_back_def)
    ultimately have "held_back i (co_db u) result (co_db t)" using rest Inr unfolding i' by (auto simp: andThen_query split: if_splits)
    then show ?thesis by (rule held_back_before [OF su])
  qed
qed

text \<open>
  C19 The review gate: a task that asks for a handoff, or that was routed as risky, never ends an execution as
  done, whatever its agents, the other requests and the other processes do. The execution ends blocked, or it
  ends in review and has opened a review of the task.
\<close>
theorem review_gate:
  assumes "executeTask env i s = (Inr result, t)" and "well_behaved env"
    and "find (\<lambda>r. t_id r = i) (tasks (co_db s)) = Some row" and "t_handoff_required row \<or> t_route_risk row = RiskHigh"
  shows "rt_status result = ResBlocked \<or> rt_status result = ResNeedsReview \<and> new_reviews i (co_db s) (co_db t) \<noteq> []"
proof -
  have g: "gated row" using assms(4) by (simp add: gated_def)
  from assms(1) obtain found u where found: "call_db env (\<lambda>_ _ _ _. getTask i) s = (Inr found, u)" and
    rest: "andThen (orThrow (Thrown (''Task not found: '' @ i)) found) (\<lambda>aggregate.
     andThen (fail_if (tr_status (ag_task aggregate) \<noteq> TRunning) (''Task '' @ i @ '' must be claimed before execution'')) (\<lambda>_.
     andThen (fail_if (tr_claimedBy (ag_task aggregate) \<noteq> Some (ce_workerId env))
       (''Task '' @ i @ '' is claimed by '' @ (case tr_claimedBy (ag_task aggregate) of None \<Rightarrow> ''nobody'' | Some w \<Rightarrow> w) @ '', not '' @ ce_workerId env)) (\<lambda>_.
     andThen (query co_shutdown) (\<lambda>shutdown.
     if shutdown then blockForShutdown env i []
     else
       andThen (call_db env (\<lambda>_ _ _ ts. heartbeatTask ts i (ce_workerId env))) (\<lambda>_.
       executeClaimedTask env aggregate))))) u = (Inr result, t)"
    by (auto simp: executeTask_def andThen_Inr)
  then obtain agg where agg: "found = Some agg" by (cases found) (auto simp: orThrow_def andThen_def)
  from rest [unfolded agg] consider (shutdown) "blockForShutdown env i [] u = (Inr result, t)"
    | (runs) w v where "call_db env (\<lambda>_ _ _ ts. heartbeatTask ts i (ce_workerId env)) u = (Inr w, v)" "executeClaimedTask env agg v = (Inr result, t)"
    by (auto simp: orThrow_def andThen_Inr fail_if_def require_def query_def split: if_splits)
  then have "held_back i (co_db s) result (co_db t)"
  proof cases
    case shutdown
    then show ?thesis using yieldsD [OF blocked_results(1), of env i "[]" u result t] by (simp add: held_back_def)
  next
    case runs
    from found [unfolded agg] obtain d d' where "getTask i d = (Inr (Some agg), d')" by (rule call_db_Inr [OF assms(2)])
    then have i: "tr_id (ag_task agg) = i" by (rule getTask_reads)
    have su: "evolves (co_db s) (co_db u)"
      using keepsD [OF keeps_call_db [OF assms(2) keeps_task_read] found] by (simp add: coord_evolves_def)
    have uv: "evolves (co_db u) (co_db v)"
      using keepsD [OF keeps_call_db [OF assms(2) any_moves.keeps_heartbeatTask] runs(1)] by (simp add: coord_evolves_def)
    note sv = evolves_trans [OF su uv]
    obtain row' where "find (\<lambda>r. t_id r = i) (tasks (co_db v)) = Some row'" "task_fixed row' = task_fixed row"
      by (rule find_task_evolves [OF sv assms(3)])
    moreover from this g have "gated row'" by (simp add: gated_def task_fixed_def)
    ultimately have "held_back i (co_db v) result (co_db t)" by (intro claimed_gated [OF runs(2) assms(2) i])
    then show ?thesis by (rule held_back_before [OF sv])
  qed
  then show ?thesis by (simp add: held_back_def)
qed

theorem review_gate_witness:
  "\<exists>result t. executeTask bare_env ''a'' demo_state = (Inr result, t)
    \<and> (rt_status result = ResBlocked \<or> rt_status result = ResNeedsReview \<and> new_reviews ''a'' (co_db demo_state) (co_db t) \<noteq> [])"
proof -
  have env: "well_behaved bare_env"
    by (simp add: well_behaved_def coord.refl any_moves.db_evolves_refl bare_env_def demo_env_def)
  obtain row where row: "find (\<lambda>r. t_id r = ''a'') (tasks (co_db demo_state)) = Some row" "t_handoff_required row \<or> t_route_risk row = RiskHigh"
    by (simp add: demo_data)
  obtain result t where "executeTask bare_env ''a'' demo_state = (Inr result, t)"
    using bare_runs(2) by (auto split: prod.splits sum.splits)
  from this review_gate [OF this env row] show ?thesis by blast
qed

end
