(* ===== verification/CoordControl.thy ===== *)
theory CoordControl
  imports CoordGate
begin

text \<open>
  What operators and the daemon do to a coordinator that is executing tasks: decide reviews, ask for rework and
  retries, post messages to live runs, stop runs, attach screenshots and shut the worker down.
\<close>

subsection \<open>Reviews and retries\<close>

definition approval_message :: "string option \<Rightarrow> string" where
  "approval_message approval = (case clean_note approval of None \<Rightarrow> ''Task approved by human reviewer.'' | Some n \<Rightarrow> n)"

definition approveTask :: "'w coord_env \<Rightarrow> string \<Rightarrow> string option \<Rightarrow> ('w, unit) op" where
  "approveTask env taskId approval =
     andThen (call_db env (\<lambda>_ _ _ ts. approveTaskReview ts taskId approval None)) (\<lambda>review.
     publish env taskId (truthy (v_run_id review)) ''review.approved'' None (approval_message approval) None)"

definition find_review :: "'w coord_env \<Rightarrow> string \<Rightarrow> ('w, review_row) op" where
  "find_review env reviewId =
     andThen (call_db env (\<lambda>_ _ _ _. query (getReview reviewId))) (\<lambda>pending.
     orThrow (Thrown (''Review not found: '' @ reviewId)) pending)"

definition approveReview :: "'w coord_env \<Rightarrow> string \<Rightarrow> string \<Rightarrow> string option \<Rightarrow> ('w, string) op" where
  "approveReview env reviewId expectedUpdatedAt approval =
     andThen (find_review env reviewId) (\<lambda>pending.
     andThen (call_db env (\<lambda>_ _ _ ts. approveTaskReview ts (v_task_id pending) approval (Some (reviewId, expectedUpdatedAt)))) (\<lambda>review.
     andThen (publish env (v_task_id review) (truthy (v_run_id review)) ''review.approved'' None (approval_message approval)
       (Some (JObj [(''reviewId'', JStr reviewId)]))) (\<lambda>_.
     ok (v_task_id review))))"

definition requestRework :: "'w coord_env \<Rightarrow> string \<Rightarrow> string \<Rightarrow> ('w, unit) op" where
  "requestRework env taskId reason =
     andThen (call_db env (\<lambda>_ _ uid ts. requestTaskRework uid ts taskId reason None)) (\<lambda>(review, _).
     publish env taskId (truthy (v_run_id review)) ''review.rework_requested'' (Some LWarn) reason None)"

definition requestReviewRework :: "'w coord_env \<Rightarrow> string \<Rightarrow> string \<Rightarrow> string \<Rightarrow> ('w, string) op" where
  "requestReviewRework env reviewId expectedUpdatedAt reason =
     andThen (find_review env reviewId) (\<lambda>pending.
     andThen (call_db env (\<lambda>_ _ uid ts. requestTaskRework uid ts (v_task_id pending) reason (Some (reviewId, expectedUpdatedAt)))) (\<lambda>(review, _).
     andThen (publish env (v_task_id review) (truthy (v_run_id review)) ''review.rework_requested'' (Some LWarn) reason
       (Some (JObj [(''reviewId'', JStr reviewId)]))) (\<lambda>_.
     ok (v_task_id review))))"

definition coord_retryBlockedTask :: "'w coord_env \<Rightarrow> string \<Rightarrow> string option \<Rightarrow> bool \<Rightarrow> ('w, unit) op" where
  "coord_retryBlockedTask env taskId reason allowUnconfirmedRemote =
     andThen (call_db env (\<lambda>_ _ uid ts. retryBlockedTask uid ts taskId reason allowUnconfirmedRemote)) (\<lambda>message.
     publish env taskId None ''task.retry_requested'' (Some LWarn) (m_body message) None)"

subsection \<open>Messages to live runs\<close>

text \<open>The adapter of an active run is the registered one of its agent.\<close>

definition with_adapter :: "'w coord_env \<Rightarrow> agent_kind \<Rightarrow> ('w adapter \<Rightarrow> ('w, unit) op) \<Rightarrow> ('w, unit) op" where
  "with_adapter env agent f = (case ce_adapter env agent of None \<Rightarrow> ok () | Some adapter \<Rightarrow> f adapter)"

definition add_user_message :: "'w coord_env \<Rightarrow> string \<Rightarrow> string \<Rightarrow> string \<Rightarrow> ('w, message_row) op" where
  "add_user_message env taskId runId body =
     call_db env (\<lambda>_ _ uid ts. addMessage uid ts taskId (Some runId) UserToAgent ''user'' body None)"

definition set_delivery :: "'w coord_env \<Rightarrow> message_row \<Rightarrow> delivery_status \<Rightarrow> ('w, unit) op" where
  "set_delivery env message status = call_db env (\<lambda>_ _ _ _. updateMessageDelivery (m_id message) status)"

definition failed_delivery :: "coord_error \<Rightarrow> delivery_status" where
  "failed_delivery e = (case e of PostThrew (CapabilityMissing _) \<Rightarrow> DUnsupported | _ \<Rightarrow> DFailed)"

definition deliver :: "'w coord_env \<Rightarrow> message_row \<Rightarrow> agent_kind \<Rightarrow> string \<Rightarrow> string \<Rightarrow> ('w, unit) op" where
  "deliver env message agent adapterRunId body =
     andThen (attempt (andThen (with_adapter env agent (\<lambda>adapter. await env (world_op PostThrew (ad_postMessage adapter adapterRunId body)))) (\<lambda>_.
       set_delivery env message DDelivered))) (\<lambda>r. case r of
       Inr _ \<Rightarrow> ok ()
     | Inl e \<Rightarrow> andThen (set_delivery env message (failed_delivery e)) (\<lambda>_. fail e))"

definition runs_of_task :: "string \<Rightarrow> (string \<times> string \<times> 'x) list \<Rightarrow> (string \<times> string \<times> 'x) list" where
  "runs_of_task taskId m = filter (\<lambda>(_, t, _). t = taskId) m"

definition postMessage :: "'w coord_env \<Rightarrow> string \<Rightarrow> string \<Rightarrow> ('w, unit) op" where
  "postMessage env taskId body =
     andThen (query (\<lambda>s. runs_of_task taskId (co_activeRuns s))) (\<lambda>controls. case controls of
       [] \<Rightarrow> fail (Thrown (''This supervisor does not own a live run for task '' @ taskId))
     | [(runId, _, agent, adapterRunId)] \<Rightarrow>
         andThen (add_user_message env taskId runId body) (\<lambda>message. deliver env message agent adapterRunId body)
     | _ \<Rightarrow> fail (Thrown (''Task '' @ taskId @ '' has '' @ show_nat (length controls)
              @ '' parallel live runs; target a run through the daemon API'')))"

definition run_ended :: "run_status \<Rightarrow> bool" where
  "run_ended status \<longleftrightarrow> status \<in> {RSucceeded, RFailed, RStopped, RStale}"

definition control_error :: "run_phase option \<Rightarrow> string \<Rightarrow> run_status \<Rightarrow> coord_error" where
  "control_error phase runId status = (
     if phase = Some PhStarting then RunControl RunStarting (''Run '' @ runId @ '' is still starting'')
     else if phase = Some PhVerifying \<or> phase = Some PhFinalizing
     then RunControl RunFinalizing (''Run '' @ runId @ '' is finalizing evidence'')
     else if run_ended status then RunControl RunTerminal (''Run '' @ runId @ '' is already '' @ enum_name RunStatusSchema status)
     else RunControl RunNotOwned (''This supervisor does not own live run '' @ runId))"

definition phase_of :: "string \<Rightarrow> 'w coord \<Rightarrow> run_phase option" where
  "phase_of runId s = map_option snd (map_of (co_runPhases s) runId)"

definition throwControlPhase :: "string \<Rightarrow> run_status \<Rightarrow> ('w, 'a) op" where
  "throwControlPhase runId status = andThen (query (phase_of runId)) (\<lambda>phase. fail (control_error phase runId status))"

definition find_run :: "'w coord_env \<Rightarrow> string \<Rightarrow> ('w, run_row) op" where
  "find_run env runId =
     andThen (call_db env (\<lambda>_ _ _ _. query (getRun runId))) (\<lambda>run.
     orThrow (RunControl RunNotFoundCode (''Run not found: '' @ runId)) run)"

definition postMessageToRun :: "'w coord_env \<Rightarrow> string \<Rightarrow> string \<Rightarrow> ('w, message_row) op" where
  "postMessageToRun env runId body =
     andThen (find_run env runId) (\<lambda>run.
     andThen (query (\<lambda>s. map_of (co_activeRuns s) runId)) (\<lambda>control. case control of
       None \<Rightarrow> throwControlPhase runId (r_status run)
     | Some (_, agent, adapterRunId) \<Rightarrow>
         andThen (add_user_message env (r_task_id run) runId body) (\<lambda>message.
         andThen (deliver env message agent adapterRunId body) (\<lambda>_.
         ok (message\<lparr>m_delivery_status := DDelivered\<rparr>)))))"

subsection \<open>Stopping\<close>

datatype stop_result = StopAccepted | StopAlreadyTerminal | StopFinalizing

definition stopRun :: "'w coord_env \<Rightarrow> string \<Rightarrow> ('w, stop_result) op" where
  "stopRun env runId =
     andThen (find_run env runId) (\<lambda>run.
     if run_ended (r_status run) then ok StopAlreadyTerminal
     else
       andThen (query (phase_of runId)) (\<lambda>phase.
       if phase = Some PhFinalizing then ok StopFinalizing
       else
         andThen (publish env (r_task_id run) (Some runId) ''run.stop_requested'' (Some LWarn)
           ''Operator requested cancellation for this run.'' None) (\<lambda>_.
         andThen (query (\<lambda>s. truthy (map_of (co_activeVerifications s) runId))) (\<lambda>verification. case verification of
           Some _ \<Rightarrow> andThen (call_world env (sv_stopVerifier (ce_services env) runId)) (\<lambda>_. ok StopAccepted)
         | None \<Rightarrow>
             andThen (query (\<lambda>s. map_of (co_activeRuns s) runId)) (\<lambda>control. case control of
               Some (_, agent, adapterRunId) \<Rightarrow>
                 andThen (with_adapter env agent (\<lambda>adapter. call_world env (ad_stop adapter adapterRunId))) (\<lambda>_. ok StopAccepted)
             | None \<Rightarrow>
                 if phase = Some PhStarting
                 then andThen (update (co_stopRequested_update (List.insert runId))) (\<lambda>_. ok StopAccepted)
                 else fail (RunControl RunNotOwned (''This supervisor does not own live run '' @ runId)))))))"

definition stopTask :: "'w coord_env \<Rightarrow> string \<Rightarrow> ('w, unit) op" where
  "stopTask env taskId =
     andThen (query (\<lambda>s. map fst (runs_of_task taskId (co_runPhases s)))) (\<lambda>runIds.
     andThen (fail_if (runIds = []) (''This supervisor does not own a live run for task '' @ taskId)) (\<lambda>_.
     andThen (promise_all (stopRun env) runIds) (\<lambda>_. ok ())))"

text \<open>The task identifiers in the order of their first occurrence.\<close>

definition live_tasks :: "'w coord \<Rightarrow> string list" where
  "live_tasks s = rev (remdups (rev (map (\<lambda>(_, t, _). t) (co_activeRuns s) @ map snd (co_activeVerifications s)
     @ map (\<lambda>(_, t, _). t) (co_runPhases s))))"

definition stopAllActiveRuns :: "'w coord_env \<Rightarrow> ('w, unit) op" where
  "stopAllActiveRuns env =
     andThen (query live_tasks) (\<lambda>taskIds. andThen (run_each (stopTask env) taskIds) (\<lambda>_. ok ()))"

definition requestShutdown :: "'w coord_env \<Rightarrow> ('w, unit) op" where
  "requestShutdown env = andThen (update (co_shutdown_update (\<lambda>_. True))) (\<lambda>_. stopAllActiveRuns env)"

subsection \<open>Screenshots\<close>

record screenshot =
  sh_taskId :: string
  sh_runId :: string
  sh_name :: string
  sh_contentType :: screenshot_type
  sh_data :: string
  sh_metadata :: "(string \<times> json) list"

definition attachScreenshot :: "'w coord_env \<Rightarrow> screenshot \<Rightarrow> ('w, artifact_row) op" where
  "attachScreenshot env input =
     andThen (call_db env (\<lambda>_ _ _ _. query (getRun (sh_runId input)))) (\<lambda>run.
     andThen (fail_if (map_option r_task_id run \<noteq> Some (sh_taskId input))
       (''Run '' @ sh_runId input @ '' does not belong to task '' @ sh_taskId input)) (\<lambda>_.
     andThen (fail_if (ce_maxAdapterArtifactBytes env < int (length (sh_data input)))
       (''Screenshot exceeded '' @ show_int (ce_maxAdapterArtifactBytes env) @ '' bytes'')) (\<lambda>_.
     andThen (assertScreenshotBytes (sh_name input) (sh_contentType input) (sh_data input)) (\<lambda>_.
     andThen (call_world env (sv_writeArtifact (ce_services env) \<lparr>aw_taskId = sh_taskId input, aw_runId = sh_runId input,
       aw_kind = KScreenshot, aw_name = sh_name input, aw_data = sh_data input\<rparr>)) (\<lambda>artifact.
     andThen (add_artifact env (artifact\<lparr>ai_metadata :=
       Some (JObj (map_set ''contentType'' (JStr (screenshot_type_name (sh_contentType input))) (sh_metadata input)))\<rparr>)) (\<lambda>record.
     andThen (publish env (sh_taskId input) (Some (sh_runId input)) ''artifact.screenshot_attached'' None
       (''Attached screenshot '' @ sh_name input @ ''.'')
       (Some (JObj [(''artifactId'', JStr (a_id record)), (''sha256'', JStr (a_sha256 record)), (''sizeBytes'', JNum (a_size_bytes record))]))) (\<lambda>_.
     ok record)))))))"

end
