(* ===== verification/CoordControlFacts.thy ===== *)
theory CoordControlFacts
  imports CoordControl
begin

text \<open>
  What control operations achieve: a cancellation that arrives before the agent starts keeps it from starting,
  and a posted message is recorded with the fate it had.
\<close>

subsection \<open>Cancelling a run before its agent starts\<close>

text \<open>Nobody else takes a stop request back, or the shutdown.\<close>

definition cancels_kept :: "'w coord \<Rightarrow> 'w coord \<Rightarrow> bool" where
  "cancels_kept s t \<longleftrightarrow> set (co_stopRequested s) \<subseteq> set (co_stopRequested t) \<and> (co_shutdown s \<longrightarrow> co_shutdown t)"

interpretation cancels: evolution "cancels_kept :: 'w coord \<Rightarrow> 'w coord \<Rightarrow> bool"
  by unfold_locales (auto simp: cancels_kept_def)

definition run_cancels_kept :: "step_locals \<times> 'w coord \<Rightarrow> step_locals \<times> 'w coord \<Rightarrow> bool" where
  "run_cancels_kept x y \<longleftrightarrow> r_id (lo_run (fst y)) = r_id (lo_run (fst x)) \<and> cancels_kept (snd x) (snd y)"

interpretation run_cancels: evolution "run_cancels_kept :: step_locals \<times> 'w coord \<Rightarrow> step_locals \<times> 'w coord \<Rightarrow> bool"
  by unfold_locales (auto simp: run_cancels_kept_def cancels_kept_def)

definition keeps_cancels :: "'w coord_env \<Rightarrow> bool" where
  "keeps_cancels env \<longleftrightarrow> (\<forall>n s. cancels_kept s (ce_other env n s))"

lemma cancels_await:
  assumes "keeps_cancels env" and "keeps cancels_kept m"
  shows "keeps cancels_kept (await env m)"
proof -
  have "keeps cancels_kept (pause env)"
    using assms(1) by (auto simp: keeps_def pause_def update_def keeps_cancels_def cancels_kept_def)
  then show ?thesis unfolding await_def by (intro cancels.keeps_control assms(2))
qed

lemma cancels_calls:
  assumes "keeps_cancels env"
  shows "keeps cancels_kept (call_db env f)" and "keeps cancels_kept (call_world env m)"
  unfolding call_db_def call_world_def
  by (intro cancels_await assms; auto simp: keeps_def cancels_kept_def db_call_op_def world_op_def split: prod.splits)+

lemma cancels_blocks:
  "keeps cancels_kept m \<Longrightarrow> keeps run_cancels_kept (lift m)" "keeps run_cancels_kept (local_of g)"
  "(\<And>l. r_id (lo_run (f l)) = r_id (lo_run l)) \<Longrightarrow> keeps run_cancels_kept (assign f)"
  "keeps cancels_kept (fail_if b e)" "keeps_cancels env \<Longrightarrow> keeps cancels_kept (add_artifact env a)"
proof -
  show "keeps run_cancels_kept (lift m)" if "keeps cancels_kept m"
    using that by (auto simp: keeps_def lift_def run_cancels_kept_def split: prod.splits) (metis snd_conv)
  show "keeps cancels_kept (add_artifact env a)" if "keeps_cancels env"
    using that unfolding add_artifact_def by (rule cancels_calls)
qed (auto simp: keeps_def local_of_def assign_def fail_if_def require_def query_def update_def run_cancels_kept_def cancels_kept_def)

lemma updateRun_id: "yields (updateRun other other' ts i patch) (\<lambda>d r d'. r_id r = i)"
  unfolding updateRun_def
  by (rule yields_drop, rule yields_drop, rule yields_drop, rule yields_drop, rule yields_drop, rule yields_drop, rule yields_drop)
    (auto simp: yields_def orThrow_def andThen_Inr sql_get_def find_Some_iff split: option.splits)

lemma cancels_patch_run:
  assumes "keeps_cancels env"
  shows "keeps run_cancels_kept (patch_run env patch)"
  unfolding keeps_def
proof
  fix x :: "step_locals \<times> 'a coord"
  obtain l s where x: "x = (l, s)" by (cases x)
  let ?call = "call_db env (\<lambda>other other' _ ts. updateRun other other' ts (r_id (lo_run l)) patch)"
  have "yields ?call (\<lambda>s r t. r_id r = r_id (lo_run l))"
    unfolding call_db_def
  proof (rule await_value)
    show "yields (db_call_op env (\<lambda>other other' _ ts. updateRun other other' ts (r_id (lo_run l)) patch)) (\<lambda>s r t. r_id r = r_id (lo_run l))"
      using updateRun_id by (auto simp: yields_def db_call_op_def map_sum_def split: prod.splits sum.splits)
  qed
  moreover have "keeps cancels_kept ?call" by (rule cancels_calls [OF assms])
  ultimately have r: "?call s = (Inr run', t) \<Longrightarrow> r_id run' = r_id (lo_run l)" and k: "cancels_kept s (snd (?call s))" for run' t
    by (blast dest: yieldsD, simp add: keeps_def)
  show "run_cancels_kept x (snd (patch_run env patch x))"
  proof (cases "?call s")
    case (Pair res t)
    show ?thesis
    proof (cases res)
      case (Inl e)
      with Pair k show ?thesis by (simp add: x patch_run_def andThen_def local_of_def query_def lift_def run_cancels_kept_def)
    next
      case (Inr run')
      with Pair k r [of run' t] show ?thesis
        by (simp add: x patch_run_def andThen_def local_of_def query_def lift_def assign_def update_def run_cancels_kept_def)
    qed
  qed
qed

definition cancelled :: "step_locals \<times> 'w coord \<Rightarrow> bool" where
  "cancelled x \<longleftrightarrow> r_id (lo_run (fst x)) \<in> set (co_stopRequested (snd x)) \<or> co_shutdown (snd x)"

lemma cancelled_kept: "run_cancels_kept x y \<Longrightarrow> cancelled x \<Longrightarrow> cancelled y"
  by (auto simp: run_cancels_kept_def cancels_kept_def cancelled_def)

text \<open>What holds at the start and is kept refutes a result that it makes impossible further on.\<close>

lemma yields_refute:
  assumes "\<And>x y. run_cancels_kept x y \<Longrightarrow> P x \<Longrightarrow> P y" and "keeps run_cancels_kept m" and "\<And>x. yields (f x) (\<lambda>s y t. \<not> P s)"
  shows "yields (andThen m f) (\<lambda>s y t. \<not> P s)"
  using assms unfolding yields_def by (auto simp: andThen_Inr) (metis keepsD)

lemma shutdown_point: "yields (andThen (lift (query co_shutdown)) (\<lambda>b. andThen (lift (fail_if b e)) k)) (\<lambda>x y z. \<not> co_shutdown (snd x))"
  by (auto simp: yields_def andThen_def lift_def query_def fail_if_def require_def)

lemma stop_point:
  "yields (andThen (lift (take_stop i)) (\<lambda>b. andThen (lift (fail_if b e)) k)) (\<lambda>x y z. i \<notin> set (co_stopRequested (snd x)))"
  by (auto simp: yields_def andThen_def lift_def take_stop_def fail_if_def require_def)

lemma inherited_worktree_keeps:
  "keeps_cancels env \<Longrightarrow> keeps run_cancels_kept (case w of Some v \<Rightarrow> ok v | None \<Rightarrow> lift (call_world env m))"
  by (intro run_cancels.keeps_control cancels_blocks cancels_calls)

lemma cancels_assigns:
  "keeps run_cancels_kept (assign (\<lambda>l. l\<lparr>lo_worktree := w\<rparr>))" "keeps run_cancels_kept (assign (\<lambda>l. l\<lparr>lo_snapshot := sn\<rparr>))"
  by (simp_all add: cancels_blocks)

lemmas cancels_steps = cancels_assigns inherited_worktree_keeps cancels_blocks cancels_calls cancels_patch_run

lemma refute_shutdown:
  "keeps run_cancels_kept m \<Longrightarrow> (\<And>x. yields (f x) (\<lambda>s y t. \<not> co_shutdown (snd s))) \<Longrightarrow> yields (andThen m f) (\<lambda>s y t. \<not> co_shutdown (snd s))"
  by (rule yields_refute) (auto simp: run_cancels_kept_def cancels_kept_def)

lemma refute_stop:
  "keeps run_cancels_kept m \<Longrightarrow> (\<And>x. yields (f x) (\<lambda>s y t. i \<notin> set (co_stopRequested (snd s)))) \<Longrightarrow>
   yields (andThen m f) (\<lambda>s y t. i \<notin> set (co_stopRequested (snd s)))"
  by (rule yields_refute) (auto simp: run_cancels_kept_def cancels_kept_def)

lemma refute_run:
  "(\<And>v. yields (f v) (\<lambda>x y z. r_id v \<notin> set (co_stopRequested (snd x)))) \<Longrightarrow>
   yields (andThen (local_of lo_run) f) (\<lambda>x y z. r_id (lo_run (fst x)) \<notin> set (co_stopRequested (snd x)))"
  by (auto simp: yields_def andThen_def local_of_def query_def split_def)

lemma keeps_query: "keeps run_cancels_kept (lift (query g))"
  by (intro cancels_blocks) (simp add: keeps_def query_def cancels_kept_def)

lemma prepare_run_refutes:
  assumes "keeps_cancels env"
  shows "yields (prepare_run env task step prior) (\<lambda>x y z. \<not> cancelled x)"
proof -
  have "yields (prepare_run env task step prior) (\<lambda>x y z. \<not> co_shutdown (snd x))"
    unfolding prepare_run_def Let_def
    by (rule shutdown_point refute_shutdown cancels_steps assms)+
  moreover have "yields (prepare_run env task step prior) (\<lambda>x y z. r_id (lo_run (fst x)) \<notin> set (co_stopRequested (snd x)))"
    unfolding prepare_run_def Let_def
    by (rule refute_run stop_point refute_stop cancels_steps keeps_query assms)+
  ultimately show ?thesis by (auto simp: yields_def cancelled_def)
qed



subsection \<open>The fate of a message\<close>

text \<open>An environment in which nobody else acts.\<close>

definition quiet :: "'w coord_env \<Rightarrow> bool" where
  "quiet env \<longleftrightarrow> (\<forall>n s. ce_other env n s = s) \<and> (\<forall>n d. ce_otherDb env n d = d)"

lemma quiet_call_db:
  assumes "quiet env"
  shows "call_db env f s = (case f (\<lambda>d. d) (\<lambda>d. d) (ce_uuid env (Suc (co_tick s))) (ce_now env (Suc (co_tick s))) (co_db s) of
     (r, d) \<Rightarrow> (map_sum DbFailed id r, s\<lparr>co_db := d, co_tick := co_tick s + 4\<rparr>))"
proof -
  have "ce_otherDb env n = (\<lambda>d. d)" for n using assms by (simp add: quiet_def fun_eq_iff)
  with assms show ?thesis
    by (auto simp: quiet_def call_db_def await_def pause_def db_call_op_def with_cleanup_def attempt_def eff_simps split: prod.splits sum.splits)
qed

lemma quiet_await_world:
  "quiet env \<Longrightarrow> await env (world_op err m) s = (case m (co_world s) of (r, w) \<Rightarrow> (map_sum err id r, s\<lparr>co_world := w, co_tick := co_tick s + 2\<rparr>))"
  by (auto simp: quiet_def await_def pause_def world_op_def with_cleanup_def attempt_def eff_simps split: prod.splits sum.splits)

definition fate :: "post_error + unit \<Rightarrow> delivery_status" where
  "fate posted = (case posted of Inr _ \<Rightarrow> DDelivered | Inl (CapabilityMissing _) \<Rightarrow> DUnsupported | Inl (PostFailed _) \<Rightarrow> DFailed)"

lemma quiet_set_delivery:
  assumes "quiet env" and "messages (co_db s) = ms @ [m]" and "m_id m \<notin> m_id ` set ms" and "m_id m' = m_id m"
  shows "set_delivery env m' st s = (Inr (), s\<lparr>co_db := (co_db s)\<lparr>messages := ms @ [m\<lparr>m_delivery_status := st\<rparr>]\<rparr>, co_tick := co_tick s + 4\<rparr>)"
proof -
  have fresh: "m_id x \<noteq> m_id m" if "x \<in> set ms" for x using assms(3) that by (metis imageI)
  then have "filter (\<lambda>r. m_id r = m_id m) ms = []" by (simp add: filter_empty_conv)
  moreover have "update_rows (\<lambda>r. m_id r = m_id m) f ms = ms" for f
    by (auto simp: update_rows_def fresh intro!: map_idI)
  ultimately show ?thesis using assms(2,4)
    by (simp add: set_delivery_def quiet_call_db [OF assms(1)] updateMessageDelivery_def eff_simps update_rows_def)
qed

lemma quiet_add_user_message:
  assumes "quiet env" and "has_task i (co_db s)" and "has_run (Some run) (co_db s)"
    and "\<forall>n. ''message_'' @ ce_uuid env n \<notin> m_id ` set (messages (co_db s))"
  obtains m where "m_task_id m = i" and "m_run_id m = Some run" and "m_direction m = UserToAgent" and "m_body m = body"
    and "m_id m \<notin> m_id ` set (messages (co_db s))"
    and "add_user_message env i run body s = (Inr m, s\<lparr>co_db := (co_db s)\<lparr>messages := messages (co_db s) @ [m]\<rparr>, co_tick := co_tick s + 4\<rparr>)"
proof (rule that)
  let ?m = "\<lparr>m_id = ''message_'' @ ce_uuid env (Suc (co_tick s)), m_task_id = i, m_run_id = Some run, m_direction = UserToAgent,
     m_role = ''user'', m_body = body, m_delivery_status = DQueued, m_created_at = ce_now env (Suc (co_tick s))\<rparr>"
  show "m_id ?m \<notin> m_id ` set (messages (co_db s))" using assms(4) by simp
  then have "message_constraints ?m (co_db s)" using assms(2,3) by (simp add: message_constraints_def)
  then show "add_user_message env i run body s = (Inr ?m, s\<lparr>co_db := (co_db s)\<lparr>messages := messages (co_db s) @ [?m]\<rparr>, co_tick := co_tick s + 4\<rparr>)"
    by (simp add: add_user_message_def quiet_call_db [OF assms(1)] addMessage_def insert_message_def eff_simps Let_def)
qed simp_all

lemma quiet_deliver:
  assumes "quiet env" and "ce_adapter env agent = Some adapter" and "messages (co_db s) = ms @ [m]" and "m_id m \<notin> m_id ` set ms"
    and "fst (ad_postMessage adapter adapterRunId body (co_world s)) = posted"
  obtains t where "deliver env m agent adapterRunId body s = ((case posted of Inr _ \<Rightarrow> Inr () | Inl e \<Rightarrow> Inl (PostThrew e)), t)"
    and "co_db t = (co_db s)\<lparr>messages := ms @ [m\<lparr>m_delivery_status := fate posted\<rparr>]\<rparr>"
proof -
  obtain w where w: "ad_postMessage adapter adapterRunId body (co_world s) = (posted, w)" using assms(5) by (cases "ad_postMessage adapter adapterRunId body (co_world s)") simp
  define s1 where "s1 = s\<lparr>co_world := w, co_tick := co_tick s + 2\<rparr>"
  define final where "final st = s1\<lparr>co_db := (co_db s1)\<lparr>messages := ms @ [m\<lparr>m_delivery_status := st\<rparr>]\<rparr>, co_tick := co_tick s1 + 4\<rparr>" for st
  have post: "with_adapter env agent (\<lambda>adapter. await env (world_op PostThrew (ad_postMessage adapter adapterRunId body))) s = (map_sum PostThrew id posted, s1)"
    by (simp add: with_adapter_def assms(2) quiet_await_world [OF assms(1)] w s1_def)
  have set: "set_delivery env m st s1 = (Inr (), final st)" for st
    unfolding final_def by (rule quiet_set_delivery [OF assms(1)]) (simp_all add: assms(3,4) s1_def)
  show ?thesis
  proof (rule that)
    show "deliver env m agent adapterRunId body s = ((case posted of Inr _ \<Rightarrow> Inr () | Inl e \<Rightarrow> Inl (PostThrew e)), final (fate posted))"
      by (cases posted) (auto simp: deliver_def andThen_def attempt_def post set fail_def ok_def fate_def failed_delivery_def split: post_error.splits)
    show "co_db (final (fate posted)) = (co_db s)\<lparr>messages := ms @ [m\<lparr>m_delivery_status := fate posted\<rparr>]\<rparr>"
      by (simp add: final_def s1_def)
  qed
qed

lemma quiet_find_run:
  assumes "quiet env"
  obtains t where "find_run env i s = ((case getRun i (co_db s) of None \<Rightarrow> Inl (RunControl RunNotFoundCode (''Run not found: '' @ i)) | Some run \<Rightarrow> Inr run), t)"
    and "t = s\<lparr>co_tick := co_tick s + 4\<rparr>"
  by (rule that [OF _ refl]) (auto simp: find_run_def andThen_def quiet_call_db [OF assms] query_def orThrow_def split: option.splits)

text \<open>
  A message is never misreported: with nobody else acting, posting to a run that is unknown or has no live
  agent fails with the code of its phase and stores nothing; otherwise exactly one message of that run is stored,
  with the fate the adapter's answer gave it, delivered, unsupported or failed, and the caller gets the stored
  message exactly when it was delivered, and the adapter's error otherwise.
\<close>
theorem post_message_honest:
  assumes "quiet env" and "db_wf (co_db s)" and "\<forall>n. ''message_'' @ ce_uuid env n \<notin> m_id ` set (messages (co_db s))"
    and "postMessageToRun env i body s = (r, t)"
  shows "case getRun i (co_db s) of
      None \<Rightarrow> r = Inl (RunControl RunNotFoundCode (''Run not found: '' @ i)) \<and> co_db t = co_db s
    | Some run \<Rightarrow> (case map_of (co_activeRuns s) i of
        None \<Rightarrow> r = Inl (control_error (phase_of i s) i (r_status run)) \<and> co_db t = co_db s
      | Some (_, agent, adapterRunId) \<Rightarrow> (\<forall>adapter. ce_adapter env agent = Some adapter \<longrightarrow>
          (let posted = fst (ad_postMessage adapter adapterRunId body (co_world s)) in
           \<exists>m. m_run_id m = Some i \<and> m_task_id m = r_task_id run \<and> m_direction m = UserToAgent \<and> m_body m = body
             \<and> m_delivery_status m = fate posted \<and> co_db t = (co_db s)\<lparr>messages := messages (co_db s) @ [m]\<rparr>
             \<and> r = (case posted of Inr _ \<Rightarrow> Inr m | Inl e \<Rightarrow> Inl (PostThrew e)))))"
proof -
  obtain u where found: "find_run env i s = ((case getRun i (co_db s) of None \<Rightarrow> Inl (RunControl RunNotFoundCode (''Run not found: '' @ i)) | Some run \<Rightarrow> Inr run), u)"
    and u: "u = s\<lparr>co_tick := co_tick s + 4\<rparr>" by (rule quiet_find_run [OF assms(1)])
  show ?thesis
  proof (cases "getRun i (co_db s)")
    case None
    with assms(4) found u show ?thesis by (auto simp: postMessageToRun_def andThen_def)
  next
    case (Some run)
    then have row: "run \<in> set (runs (co_db s))" "r_id run = i" by (auto simp: getRun_def find_Some_iff)
    with assms(2) have refs: "has_task (r_task_id run) (co_db s)" "has_run (Some i) (co_db s)"
      by (auto simp: db_wf_def refs_ok_def has_run_def)
    show ?thesis
    proof (cases "map_of (co_activeRuns s) i")
      case None
      with assms(4) found u Some show ?thesis
        by (auto simp: postMessageToRun_def andThen_def query_def throwControlPhase_def fail_def phase_of_def)
    next
      case (Some control)
      obtain x agent adapterRunId where control: "control = (x, agent, adapterRunId)" by (cases control)
      show ?thesis
      proof (simp add: \<open>getRun i (co_db s) = Some run\<close> Some control, intro allI impI)
        fix adapter assume a: "ce_adapter env agent = Some adapter"
        let ?posted = "fst (ad_postMessage adapter adapterRunId body (co_world s))"
        obtain m where m: "m_task_id m = r_task_id run" "m_run_id m = Some i" "m_direction m = UserToAgent" "m_body m = body"
          "m_id m \<notin> m_id ` set (messages (co_db u))"
          and add: "add_user_message env (r_task_id run) i body u = (Inr m, u\<lparr>co_db := (co_db u)\<lparr>messages := messages (co_db u) @ [m]\<rparr>, co_tick := co_tick u + 4\<rparr>)"
          using quiet_add_user_message [OF assms(1), of "r_task_id run" u i body] refs assms(3) u by auto
        let ?v = "u\<lparr>co_db := (co_db u)\<lparr>messages := messages (co_db u) @ [m]\<rparr>, co_tick := co_tick u + 4\<rparr>"
        have ms: "messages (co_db ?v) = messages (co_db s) @ [m]" "m_id m \<notin> m_id ` set (messages (co_db s))"
          "fst (ad_postMessage adapter adapterRunId body (co_world ?v)) = ?posted" using m(5) by (simp_all add: u)
        obtain w where w: "deliver env m agent adapterRunId body ?v = ((case ?posted of Inr _ \<Rightarrow> Inr () | Inl e \<Rightarrow> Inl (PostThrew e)), w)"
          "co_db w = (co_db ?v)\<lparr>messages := messages (co_db s) @ [m\<lparr>m_delivery_status := fate ?posted\<rparr>]\<rparr>"
          by (rule quiet_deliver [OF assms(1) a ms])
        have "co_db t = (co_db s)\<lparr>messages := messages (co_db s) @ [m\<lparr>m_delivery_status := fate ?posted\<rparr>]\<rparr>
            \<and> r = (case ?posted of Inr _ \<Rightarrow> Inr (m\<lparr>m_delivery_status := fate ?posted\<rparr>) | Inl e \<Rightarrow> Inl (PostThrew e))"
          using assms(4) found add w Some control \<open>getRun i (co_db s) = Some run\<close>
          by (cases ?posted) (auto simp: postMessageToRun_def andThen_def query_def ok_def u fate_def)
        with m show "let posted = ?posted in
           \<exists>m. m_run_id m = Some i \<and> m_task_id m = r_task_id run \<and> m_direction m = UserToAgent \<and> m_body m = body
             \<and> m_delivery_status m = fate posted \<and> co_db t = (co_db s)\<lparr>messages := messages (co_db s) @ [m]\<rparr>
             \<and> r = (case posted of Inr _ \<Rightarrow> Inr m | Inl e \<Rightarrow> Inl (PostThrew e))"
          unfolding Let_def by (intro exI [of _ "m\<lparr>m_delivery_status := fate ?posted\<rparr>"]) simp
      qed
    qed
  qed
qed

theorem post_message_honest_witness:
  "\<exists>m t. postMessageToRun demo_env ''ra'' ''hi'' (demo_state\<lparr>co_db := sample_db, co_activeRuns := [(''ra'', ''a'', Codex, ''p'')]\<rparr>) = (Inr m, t)
     \<and> m_delivery_status m = DDelivered \<and> messages (co_db t) = messages sample_db @ [m]"
proof -
  let ?s = "demo_state\<lparr>co_db := sample_db, co_activeRuns := [(''ra'', ''a'', Codex, ''p'')]\<rparr>"
  obtain r t where run: "postMessageToRun demo_env ''ra'' ''hi'' ?s = (r, t)" by (cases "postMessageToRun demo_env ''ra'' ''hi'' ?s")
  have h: "quiet demo_env" "db_wf (co_db ?s)" "\<forall>n. ''message_'' @ ce_uuid demo_env n \<notin> m_id ` set (messages (co_db ?s))"
    by (simp_all add: quiet_def demo_env_def sample_db_wf) (simp add: sample_db_def)
  have "getRun ''ra'' sample_db \<noteq> None" by (simp add: getRun_def sample_defs)
  moreover have "ce_adapter demo_env Codex = Some demo_adapter" "fst (ad_postMessage demo_adapter ''p'' ''hi'' w) = Inr ()" for w
    by (simp_all add: demo_env_def demo_adapter_def ok_def)
  ultimately show ?thesis
    using post_message_honest [OF h run] run by (auto simp: fate_def)
qed

end
