(* ===== verification/Supervisor.thy ===== *)
theory Supervisor
  imports Prelude
begin

text \<open>
  The process supervisor (\<open>src/adapters/process-supervisor.ts\<close>): one supervised child process as a state
  machine driven by the events of its streams, its timers and the calls of its owner.

  The state is the source's \<open>InternalRun\<close> with the bytes handed to the two artifact streams, and a log of the
  signals sent. What the operating system answers to \<open>process.kill\<close> and whether the child still runs are
  functions of the number of probes made so far (\<open>se_kill\<close>, \<open>se_childRunning\<close>), so every theorem holds for
  every behaviour of the process tree. A handler of the source is one step: Node runs it to its end before the
  next event. A byte is a \<open>char\<close>.
\<close>

subsection \<open>Limits\<close>

definition validateNonnegativeInteger :: "int \<Rightarrow> string \<Rightarrow> string + int" where
  "validateNonnegativeInteger value name = (if \<not> is_safe_int value \<or> value < 0
     then Inl (name @ '' must be a nonnegative safe integer'') else Inr value)"

definition and_then :: "'e + 'a \<Rightarrow> ('a \<Rightarrow> 'e + 'b) \<Rightarrow> 'e + 'b" where
  "and_then r f = (case r of Inl e \<Rightarrow> Inl e | Inr x \<Rightarrow> f x)"

definition default_to :: "'a \<Rightarrow> 'a option \<Rightarrow> 'a" where
  "default_to d x = (case x of None \<Rightarrow> d | Some v \<Rightarrow> v)"

definition DEFAULT_PROCESS_TIMEOUT_MS :: int where
  "DEFAULT_PROCESS_TIMEOUT_MS = 30 * 60000"

definition DEFAULT_MAX_OUTPUT_BYTES :: int where
  "DEFAULT_MAX_OUTPUT_BYTES = 16 * 1024 * 1024"

record supervisor_options =
  so_killGraceMs :: "int option"
  so_timeoutMs :: "int option"
  so_maxOutputBytes :: "int option"
  so_maxStdoutBytes :: "int option"
  so_maxStderrBytes :: "int option"

record supervisor_config =
  sc_killGraceMs :: int
  sc_timeoutMs :: int
  sc_maxStdoutBytes :: int
  sc_maxStderrBytes :: int

definition new_supervisor :: "supervisor_options \<Rightarrow> string + supervisor_config" where
  "new_supervisor o1 =
     and_then (validateNonnegativeInteger (default_to 2000 (so_killGraceMs o1)) ''killGraceMs'') (\<lambda>grace.
     and_then (validateNonnegativeInteger (default_to DEFAULT_PROCESS_TIMEOUT_MS (so_timeoutMs o1)) ''timeoutMs'') (\<lambda>timeout.
     and_then (validateNonnegativeInteger (default_to DEFAULT_MAX_OUTPUT_BYTES (so_maxOutputBytes o1)) ''maxOutputBytes'') (\<lambda>shared.
     and_then (validateNonnegativeInteger (default_to shared (so_maxStdoutBytes o1)) ''maxStdoutBytes'') (\<lambda>maxOut.
     and_then (validateNonnegativeInteger (default_to shared (so_maxStderrBytes o1)) ''maxStderrBytes'') (\<lambda>maxErr.
     Inr \<lparr>sc_killGraceMs = grace, sc_timeoutMs = timeout, sc_maxStdoutBytes = maxOut, sc_maxStderrBytes = maxErr\<rparr>)))))"

subsection \<open>Runs\<close>

datatype signal = SIGTERM | SIGKILL

datatype target = TreeOf int | ChildOnly

datatype output_kind = Stdout | Stderr

datatype terminal_status = Succeeded | Failed | Stopped

record supervised_result =
  sr_id :: string
  sr_status :: terminal_status
  sr_pid :: "int option"
  sr_startedAt :: string
  sr_finishedAt :: string
  sr_stdoutPath :: string
  sr_stderrPath :: string
  sr_exitCode :: "int option"
  sr_signal :: "string option"
  sr_error :: "string option"

text \<open>
  Where the run is: its child is running; \<open>#finalize\<close> waits for the termination of the tree, then for the
  streams to close; or its result is there.
\<close>

datatype stage = Running | AwaitingTermination | AwaitingStreams | Finished

record internal_run =
  ir_id :: string
  ir_pid :: "int option"
  ir_startedAt :: string
  ir_stdoutPath :: string
  ir_stderrPath :: string
  ir_stdout :: string
  ir_stderr :: string
  ir_stdoutDestroyed :: bool
  ir_stderrDestroyed :: bool
  ir_stopRequested :: bool
  ir_stage :: stage
  ir_closed :: "int option \<times> string option"
  ir_result :: "supervised_result option"
  ir_killTimer :: bool
  ir_waiting :: bool
  ir_timeoutTimer :: bool
  ir_terminating :: bool
  ir_terminationResolved :: bool
  ir_processError :: "string option"
  ir_failureReason :: "string option"
  ir_timeoutMs :: int
  ir_maxStdoutBytes :: int
  ir_maxStderrBytes :: int
  ir_stdoutBytes :: int
  ir_stderrBytes :: int
  ir_signals :: "(target \<times> signal) list"
  ir_probes :: nat

datatype kill_answer = Delivered | NoSuchProcess | Denied

record os_env =
  se_win32 :: bool
  se_kill :: "nat \<Rightarrow> kill_answer"
  se_childRunning :: "nat \<Rightarrow> bool"

record process_spec =
  ps_id :: "string option"
  ps_stdoutPath :: string
  ps_stderrPath :: string
  ps_timeoutMs :: "int option"
  ps_maxOutputBytes :: "int option"
  ps_maxStdoutBytes :: "int option"
  ps_maxStderrBytes :: "int option"

definition new_run :: "string \<Rightarrow> int option \<Rightarrow> string \<Rightarrow> string \<Rightarrow> string \<Rightarrow> int \<Rightarrow> int \<Rightarrow> int \<Rightarrow> internal_run" where
  "new_run runId pid now stdoutPath stderrPath timeout maxOut maxErr =
     \<lparr>ir_id = runId, ir_pid = pid, ir_startedAt = now,
       ir_stdoutPath = stdoutPath, ir_stderrPath = stderrPath, ir_stdout = [], ir_stderr = [],
       ir_stdoutDestroyed = False, ir_stderrDestroyed = False, ir_stopRequested = False, ir_stage = Running,
       ir_closed = (None, None), ir_result = None, ir_killTimer = False, ir_waiting = False,
       ir_timeoutTimer = (timeout > 0), ir_terminating = False, ir_terminationResolved = False,
       ir_processError = None, ir_failureReason = None, ir_timeoutMs = timeout, ir_maxStdoutBytes = maxOut,
       ir_maxStderrBytes = maxErr, ir_stdoutBytes = 0, ir_stderrBytes = 0, ir_signals = [], ir_probes = 0\<rparr>"

text \<open>\<open>start\<close> up to the child's \<open>spawn\<close>: the checks of the specification and the new state.\<close>

definition coalesce :: "'a option \<Rightarrow> 'a option \<Rightarrow> 'a option" where
  "coalesce x y = (case x of None \<Rightarrow> y | Some _ \<Rightarrow> x)"

definition start_run :: "supervisor_config \<Rightarrow> process_spec \<Rightarrow> string \<Rightarrow> int option \<Rightarrow> string \<Rightarrow> string + internal_run" where
  "start_run cfg spec uuid pid now =
     and_then (case ps_maxOutputBytes spec of None \<Rightarrow> Inr None
       | Some b \<Rightarrow> map_sum id Some (validateNonnegativeInteger b ''maxOutputBytes'')) (\<lambda>shared.
     and_then (validateNonnegativeInteger (default_to (sc_timeoutMs cfg) (ps_timeoutMs spec)) ''timeoutMs'') (\<lambda>timeout.
     and_then (validateNonnegativeInteger (default_to (sc_maxStdoutBytes cfg) (coalesce (ps_maxStdoutBytes spec) shared)) ''maxStdoutBytes'') (\<lambda>maxOut.
     and_then (validateNonnegativeInteger (default_to (sc_maxStderrBytes cfg) (coalesce (ps_maxStderrBytes spec) shared)) ''maxStderrBytes'') (\<lambda>maxErr.
     Inr (new_run (default_to (''run_'' @ uuid) (ps_id spec)) pid now (ps_stdoutPath spec) (ps_stderrPath spec) timeout maxOut maxErr)))))"

subsection \<open>Signals and liveness\<close>

definition send :: "target \<Rightarrow> signal \<Rightarrow> internal_run \<Rightarrow> internal_run" where
  "send t g r = r\<lparr>ir_signals := ir_signals r @ [(t, g)]\<rparr>"

definition signalTree :: "os_env \<Rightarrow> signal \<Rightarrow> internal_run \<Rightarrow> internal_run" where
  "signalTree env g r = (case ir_pid r of
     Some pid \<Rightarrow> if se_win32 env then send ChildOnly g r
       else (let r' = (send (TreeOf pid) g r)\<lparr>ir_probes := Suc (ir_probes r)\<rparr> in
         (case se_kill env (ir_probes r) of Denied \<Rightarrow> send ChildOnly g r' | _ \<Rightarrow> r'))
   | None \<Rightarrow> send ChildOnly g r)"

definition treeIsAlive :: "os_env \<Rightarrow> internal_run \<Rightarrow> bool \<times> internal_run" where
  "treeIsAlive env r =
    (if \<not> se_win32 env \<and> ir_pid r \<noteq> None then se_kill env (ir_probes r) \<noteq> NoSuchProcess else se_childRunning env (ir_probes r),
     r\<lparr>ir_probes := Suc (ir_probes r)\<rparr>)"

definition set_reason :: "string \<Rightarrow> internal_run \<Rightarrow> internal_run" where
  "set_reason reason r = r\<lparr>ir_failureReason := coalesce (ir_failureReason r) (Some reason)\<rparr>"

definition beginTermination :: "os_env \<Rightarrow> internal_run \<Rightarrow> internal_run" where
  "beginTermination env r = (if ir_result r \<noteq> None \<or> ir_terminating r then r
     else (signalTree env SIGTERM (r\<lparr>ir_terminating := True\<rparr>))\<lparr>ir_killTimer := True\<rparr>)"

definition fail_supervised :: "os_env \<Rightarrow> string \<Rightarrow> internal_run \<Rightarrow> internal_run" where
  "fail_supervised env reason r = (if ir_result r \<noteq> None then r else beginTermination env (set_reason reason r))"

definition resolveTermination :: "internal_run \<Rightarrow> internal_run" where
  "resolveTermination r = (if ir_terminationResolved r then r
     else r\<lparr>ir_terminationResolved := True, ir_killTimer := False\<rparr>)"

subsection \<open>Output\<close>

fun kind_name :: "output_kind \<Rightarrow> string" where
  "kind_name Stdout = ''stdout''"
| "kind_name Stderr = ''stderr''"

fun maximum_of :: "output_kind \<Rightarrow> internal_run \<Rightarrow> int" where
  "maximum_of Stdout r = ir_maxStdoutBytes r"
| "maximum_of Stderr r = ir_maxStderrBytes r"

fun bytes_of :: "output_kind \<Rightarrow> internal_run \<Rightarrow> int" where
  "bytes_of Stdout r = ir_stdoutBytes r"
| "bytes_of Stderr r = ir_stderrBytes r"

fun destroyed :: "output_kind \<Rightarrow> internal_run \<Rightarrow> bool" where
  "destroyed Stdout r = ir_stdoutDestroyed r"
| "destroyed Stderr r = ir_stderrDestroyed r"

fun written :: "output_kind \<Rightarrow> internal_run \<Rightarrow> string" where
  "written Stdout r = ir_stdout r"
| "written Stderr r = ir_stderr r"

fun write_stream :: "output_kind \<Rightarrow> string \<Rightarrow> internal_run \<Rightarrow> internal_run" where
  "write_stream Stdout bs r = r\<lparr>ir_stdout := ir_stdout r @ bs\<rparr>"
| "write_stream Stderr bs r = r\<lparr>ir_stderr := ir_stderr r @ bs\<rparr>"

fun count_bytes :: "output_kind \<Rightarrow> int \<Rightarrow> internal_run \<Rightarrow> internal_run" where
  "count_bytes Stdout n r = r\<lparr>ir_stdoutBytes := ir_stdoutBytes r + n\<rparr>"
| "count_bytes Stderr n r = r\<lparr>ir_stderrBytes := ir_stderrBytes r + n\<rparr>"

text \<open>\<open>throws\<close> is the error of a \<open>stream.write\<close> that throws.\<close>

definition captureOutput :: "os_env \<Rightarrow> output_kind \<Rightarrow> string \<Rightarrow> string option \<Rightarrow> internal_run \<Rightarrow> internal_run" where
  "captureOutput env kind chunk throws r =
    (let maximum = maximum_of kind r;
         remaining = max 0 (maximum - bytes_of kind r);
         bytesToWrite = min remaining (int (length chunk));
         r1 = (if bytesToWrite > 0 \<and> \<not> destroyed kind r
               then case throws of
                   None \<Rightarrow> write_stream kind (take (nat bytesToWrite) chunk) r
                 | Some e \<Rightarrow> fail_supervised env (''Failed to write '' @ kind_name kind @ '' artifact: '' @ e) r
               else r);
         r2 = count_bytes kind bytesToWrite r1
     in if int (length chunk) > remaining
        then fail_supervised env (kind_name kind @ '' exceeded the maximum of '' @ show_int maximum @ '' bytes'') r2
        else r2)"

subsection \<open>Closing\<close>

text \<open>\<open>#finalize\<close> up to its first pause, and \<open>#awaitTermination\<close> with it.\<close>

definition awaitTermination :: "os_env \<Rightarrow> internal_run \<Rightarrow> internal_run" where
  "awaitTermination env r = (if \<not> ir_terminating r then r\<lparr>ir_stage := AwaitingStreams\<rparr>
     else (case treeIsAlive env r of (alive, r') \<Rightarrow>
       (if alive then r' else resolveTermination r')\<lparr>ir_stage := AwaitingTermination\<rparr>))"

definition finalize_begin :: "os_env \<Rightarrow> int option \<Rightarrow> string option \<Rightarrow> internal_run \<Rightarrow> internal_run" where
  "finalize_begin env exitCode sig r =
    (let r1 = r\<lparr>ir_closed := (exitCode, sig), ir_timeoutTimer := False\<rparr>;
         r2 = (if \<not> se_win32 env \<and> \<not> ir_terminating r1
               then (case treeIsAlive env r1 of (alive, r') \<Rightarrow>
                 if alive then beginTermination env (set_reason ''Agent process exited while descendant processes remained alive'' r')
                 else r')
               else r1)
     in awaitTermination env r2)"

definition result_status :: "internal_run \<Rightarrow> terminal_status" where
  "result_status r =
    (if (case ir_failureReason r of None \<Rightarrow> False | Some m \<Rightarrow> m \<noteq> []) \<or> ir_processError r \<noteq> None then Failed
     else if ir_stopRequested r then Stopped
     else if fst (ir_closed r) = Some 0 then Succeeded else Failed)"

definition result_error :: "internal_run \<Rightarrow> string option" where
  "result_error r = (if result_status r \<noteq> Failed then None
     else coalesce (ir_failureReason r) (coalesce (ir_processError r) (Some
       (case ir_closed r of (Some code, _) \<Rightarrow> ''Process exited with code '' @ show_int code
        | (None, sig) \<Rightarrow> (case sig of None \<Rightarrow> ''Process failed'' | Some s \<Rightarrow>
            if s = [] then ''Process failed'' else ''Process terminated by '' @ s)))))"

definition run_result :: "string \<Rightarrow> internal_run \<Rightarrow> supervised_result" where
  "run_result now r = \<lparr>sr_id = ir_id r, sr_status = result_status r, sr_pid = ir_pid r, sr_startedAt = ir_startedAt r,
     sr_finishedAt = now, sr_stdoutPath = ir_stdoutPath r, sr_stderrPath = ir_stderrPath r,
     sr_exitCode = fst (ir_closed r), sr_signal = snd (ir_closed r), sr_error = result_error r\<rparr>"

text \<open>A stream that has closed is destroyed: nothing is written to it any more.\<close>

definition finalize_end :: "string \<Rightarrow> internal_run \<Rightarrow> internal_run" where
  "finalize_end now r = r\<lparr>ir_stdoutDestroyed := True, ir_stderrDestroyed := True,
     ir_result := Some (run_result now r), ir_stage := Finished\<rparr>"

subsection \<open>Events\<close>

text \<open>
  What can happen to a run, and when: a timer fires only while it is set, the child closes once, \<open>#finalize\<close>
  resumes only after what it awaits. \<open>TreeWaited\<close> is the end of the loop of \<open>#waitForTreeExit\<close> started by
  the kill timer.
\<close>

datatype event =
    OutputChunk output_kind string "string option"
  | StreamError output_kind string
  | ChildError string
  | Spawned "int option"
  | TimeoutFired
  | StopCalled
  | KillTimerFired
  | TreeWaited
  | ChildClosed "int option" "string option"
  | TerminationSeen
  | StreamsClosed string

definition stream_error :: "os_env \<Rightarrow> output_kind \<Rightarrow> string \<Rightarrow> internal_run \<Rightarrow> internal_run" where
  "stream_error env kind m r =
    (let r' = (case kind of Stdout \<Rightarrow> r\<lparr>ir_stdoutDestroyed := True\<rparr> | Stderr \<Rightarrow> r\<lparr>ir_stderrDestroyed := True\<rparr>);
         path = (case kind of Stdout \<Rightarrow> ir_stdoutPath r | Stderr \<Rightarrow> ir_stderrPath r)
     in fail_supervised env (''Failed to write '' @ kind_name kind @ '' artifact '' @ path @ '': '' @ m) r')"

definition child_error :: "string \<Rightarrow> internal_run \<Rightarrow> internal_run" where
  "child_error m r =
    (let r' = set_reason m (r\<lparr>ir_processError := Some m\<rparr>)
     in if ir_stderrDestroyed r then r' else write_stream Stderr (''[process-supervisor] '' @ m @ newline) r')"

definition spawned :: "os_env \<Rightarrow> int option \<Rightarrow> internal_run \<Rightarrow> internal_run" where
  "spawned env pid r = (let r' = r\<lparr>ir_pid := pid\<rparr> in if ir_terminating r' then signalTree env SIGTERM r' else r')"

definition stop_run :: "os_env \<Rightarrow> internal_run \<Rightarrow> internal_run" where
  "stop_run env r = (if ir_result r \<noteq> None then r else beginTermination env (r\<lparr>ir_stopRequested := True\<rparr>))"

definition kill_timer :: "os_env \<Rightarrow> internal_run \<Rightarrow> internal_run" where
  "kill_timer env r = (case treeIsAlive env (r\<lparr>ir_killTimer := False\<rparr>) of (alive, r') \<Rightarrow>
     (if alive then signalTree env SIGKILL r' else r')\<lparr>ir_waiting := True\<rparr>)"

definition tree_waited :: "os_env \<Rightarrow> internal_run \<Rightarrow> internal_run" where
  "tree_waited env r = (case treeIsAlive env (r\<lparr>ir_waiting := False\<rparr>) of (alive, r') \<Rightarrow>
     resolveTermination (if alive then set_reason ''Process tree did not exit after SIGKILL'' r' else r'))"

fun enabled :: "event \<Rightarrow> internal_run \<Rightarrow> bool" where
  "enabled (OutputChunk _ _ _) r = (ir_stage r = Running)"
| "enabled (StreamError _ _) r = True"
| "enabled (ChildError _) r = True"
| "enabled (Spawned _) r = (ir_stage r = Running)"
| "enabled TimeoutFired r = ir_timeoutTimer r"
| "enabled StopCalled r = True"
| "enabled KillTimerFired r = ir_killTimer r"
| "enabled TreeWaited r = ir_waiting r"
| "enabled (ChildClosed _ _) r = (ir_stage r = Running)"
| "enabled TerminationSeen r = (ir_stage r = AwaitingTermination \<and> ir_terminationResolved r)"
| "enabled (StreamsClosed _) r = (ir_stage r = AwaitingStreams)"

fun handle :: "os_env \<Rightarrow> event \<Rightarrow> internal_run \<Rightarrow> internal_run" where
  "handle env (OutputChunk kind chunk throws) r = captureOutput env kind chunk throws r"
| "handle env (StreamError kind m) r = stream_error env kind m r"
| "handle env (ChildError m) r = child_error m r"
| "handle env (Spawned pid) r = spawned env pid r"
| "handle env TimeoutFired r =
     fail_supervised env (''Process timed out after '' @ show_int (ir_timeoutMs r) @ ''ms'') (r\<lparr>ir_timeoutTimer := False\<rparr>)"
| "handle env StopCalled r = stop_run env r"
| "handle env KillTimerFired r = kill_timer env r"
| "handle env TreeWaited r = tree_waited env r"
| "handle env (ChildClosed exitCode sig) r = finalize_begin env exitCode sig r"
| "handle env TerminationSeen r = r\<lparr>ir_stage := AwaitingStreams\<rparr>"
| "handle env (StreamsClosed now) r = finalize_end now r"

text \<open>The run after a sequence of events, and the steps as a relation.\<close>

fun after :: "os_env \<Rightarrow> event list \<Rightarrow> internal_run \<Rightarrow> internal_run option" where
  "after env [] r = Some r"
| "after env (e # es) r = (if enabled e r then after env es (handle env e r) else None)"

inductive reachable :: "os_env \<Rightarrow> internal_run \<Rightarrow> internal_run \<Rightarrow> bool" for env and r0 where
  start: "reachable env r0 r0"
| step: "reachable env r0 r \<Longrightarrow> enabled e r \<Longrightarrow> reachable env r0 (handle env e r)"


lemma and_then_Inr: "and_then r f = Inr y \<longleftrightarrow> (\<exists>x. r = Inr x \<and> f x = Inr y)"
  by (auto simp: and_then_def split: sum.splits)

lemma validate_Inr: "validateNonnegativeInteger v name = Inr n \<longleftrightarrow> n = v \<and> is_safe_int v \<and> 0 \<le> v"
  by (auto simp: validateNonnegativeInteger_def)

lemma start_runE:
  assumes "start_run cfg spec uuid pid now = Inr r0"
  obtains i timeout maxOut maxErr where
    "r0 = new_run i pid now (ps_stdoutPath spec) (ps_stderrPath spec) timeout maxOut maxErr"
    "0 \<le> timeout" "0 \<le> maxOut" "0 \<le> maxErr"
  using assms by (auto simp: start_run_def and_then_Inr validate_Inr)

lemma after_snoc:
  "after env (evs @ [e]) r0 = (case after env evs r0 of None \<Rightarrow> None
     | Some r \<Rightarrow> if enabled e r then Some (handle env e r) else None)"
  by (induction evs arbitrary: r0) auto

lemma reachable_after: "reachable env r0 r \<longleftrightarrow> (\<exists>evs. after env evs r0 = Some r)"
proof
  assume "reachable env r0 r"
  then show "\<exists>evs. after env evs r0 = Some r"
  proof induction
    case start
    show ?case by (rule exI [of _ "[]"]) simp
  next
    case (step r e)
    then obtain evs where "after env evs r0 = Some r" by blast
    with step show ?case by (intro exI [of _ "evs @ [e]"]) (simp add: after_snoc)
  qed
next
  have "reachable env r0 r" if "after env evs r0 = Some r" for evs
    using that
  proof (induction evs arbitrary: r rule: rev_induct)
    case (snoc e evs)
    then show ?case by (auto simp: after_snoc split: option.splits if_splits intro: reachable.step)
  qed (auto intro: reachable.start)
  then show "\<exists>evs. after env evs r0 = Some r \<Longrightarrow> reachable env r0 r" by blast
qed

subsection \<open>What every handler keeps\<close>

lemmas handler_defs = captureOutput_def stream_error_def child_error_def spawned_def stop_run_def kill_timer_def
  tree_waited_def finalize_begin_def finalize_end_def awaitTermination_def fail_supervised_def beginTermination_def
  signalTree_def treeIsAlive_def resolveTermination_def set_reason_def send_def coalesce_def

definition well_run :: "internal_run \<Rightarrow> bool" where
  "well_run r \<longleftrightarrow>
     (ir_result r \<noteq> None \<longleftrightarrow> ir_stage r = Finished) \<and>
     (ir_killTimer r \<or> ir_waiting r \<or> ir_terminationResolved r \<or> ir_stage r = AwaitingTermination \<longrightarrow> ir_terminating r) \<and>
     (ir_terminating r \<and> \<not> ir_terminationResolved r \<longrightarrow> ir_killTimer r \<or> ir_waiting r) \<and>
     (ir_terminating r \<longrightarrow> (\<exists>t rest. ir_signals r = (t, SIGTERM) # rest)) \<and>
     (ir_signals r \<noteq> [] \<longrightarrow> ir_terminating r \<and> (ir_stopRequested r \<or> ir_failureReason r \<noteq> None)) \<and>
     (ir_failureReason r = Some [] \<longrightarrow> ir_processError r \<noteq> None)"

lemma show_int_not_empty: "show_int n \<noteq> []"
  by (auto simp: show_int_def) (subst (asm) show_nat.simps, auto split: if_splits)+

lemma new_run_well_run: "well_run (new_run i pid now p q timeout maxOut maxErr)"
  by (simp add: well_run_def new_run_def)

lemma signalTree_fields [simp]:
  "ir_id (signalTree env g r) = ir_id r" "ir_pid (signalTree env g r) = ir_pid r"
  "ir_startedAt (signalTree env g r) = ir_startedAt r" "ir_stdoutPath (signalTree env g r) = ir_stdoutPath r"
  "ir_stderrPath (signalTree env g r) = ir_stderrPath r" "ir_stdout (signalTree env g r) = ir_stdout r"
  "ir_stderr (signalTree env g r) = ir_stderr r" "ir_stdoutDestroyed (signalTree env g r) = ir_stdoutDestroyed r"
  "ir_stderrDestroyed (signalTree env g r) = ir_stderrDestroyed r"
  "ir_stopRequested (signalTree env g r) = ir_stopRequested r" "ir_stage (signalTree env g r) = ir_stage r"
  "ir_closed (signalTree env g r) = ir_closed r" "ir_result (signalTree env g r) = ir_result r"
  "ir_killTimer (signalTree env g r) = ir_killTimer r" "ir_waiting (signalTree env g r) = ir_waiting r"
  "ir_timeoutTimer (signalTree env g r) = ir_timeoutTimer r"
  "ir_terminating (signalTree env g r) = ir_terminating r"
  "ir_terminationResolved (signalTree env g r) = ir_terminationResolved r"
  "ir_processError (signalTree env g r) = ir_processError r"
  "ir_failureReason (signalTree env g r) = ir_failureReason r" "ir_timeoutMs (signalTree env g r) = ir_timeoutMs r"
  "ir_maxStdoutBytes (signalTree env g r) = ir_maxStdoutBytes r"
  "ir_maxStderrBytes (signalTree env g r) = ir_maxStderrBytes r"
  "ir_stdoutBytes (signalTree env g r) = ir_stdoutBytes r" "ir_stderrBytes (signalTree env g r) = ir_stderrBytes r"
  by (simp_all add: signalTree_def send_def Let_def split: option.splits kill_answer.splits)

lemma signalTree_signals: "\<exists>t rest. ir_signals (signalTree env g r) = ir_signals r @ (t, g) # rest"
  by (auto simp: signalTree_def send_def Let_def split: option.splits kill_answer.splits)

lemma treeIsAlive_fields [simp]:
  "ir_id (snd (treeIsAlive env r)) = ir_id r" "ir_pid (snd (treeIsAlive env r)) = ir_pid r"
  "ir_startedAt (snd (treeIsAlive env r)) = ir_startedAt r"
  "ir_stdoutPath (snd (treeIsAlive env r)) = ir_stdoutPath r"
  "ir_stderrPath (snd (treeIsAlive env r)) = ir_stderrPath r" "ir_stdout (snd (treeIsAlive env r)) = ir_stdout r"
  "ir_stderr (snd (treeIsAlive env r)) = ir_stderr r"
  "ir_stdoutDestroyed (snd (treeIsAlive env r)) = ir_stdoutDestroyed r"
  "ir_stderrDestroyed (snd (treeIsAlive env r)) = ir_stderrDestroyed r"
  "ir_stopRequested (snd (treeIsAlive env r)) = ir_stopRequested r"
  "ir_stage (snd (treeIsAlive env r)) = ir_stage r" "ir_closed (snd (treeIsAlive env r)) = ir_closed r"
  "ir_result (snd (treeIsAlive env r)) = ir_result r" "ir_killTimer (snd (treeIsAlive env r)) = ir_killTimer r"
  "ir_waiting (snd (treeIsAlive env r)) = ir_waiting r"
  "ir_timeoutTimer (snd (treeIsAlive env r)) = ir_timeoutTimer r"
  "ir_terminating (snd (treeIsAlive env r)) = ir_terminating r"
  "ir_terminationResolved (snd (treeIsAlive env r)) = ir_terminationResolved r"
  "ir_processError (snd (treeIsAlive env r)) = ir_processError r"
  "ir_failureReason (snd (treeIsAlive env r)) = ir_failureReason r"
  "ir_timeoutMs (snd (treeIsAlive env r)) = ir_timeoutMs r"
  "ir_maxStdoutBytes (snd (treeIsAlive env r)) = ir_maxStdoutBytes r"
  "ir_maxStderrBytes (snd (treeIsAlive env r)) = ir_maxStderrBytes r"
  "ir_stdoutBytes (snd (treeIsAlive env r)) = ir_stdoutBytes r"
  "ir_stderrBytes (snd (treeIsAlive env r)) = ir_stderrBytes r"
  "ir_signals (snd (treeIsAlive env r)) = ir_signals r"
  by (simp_all add: treeIsAlive_def)

lemmas pair_cases = prod.case_eq_if

lemma well_set_reason: "well_run r \<Longrightarrow> m \<noteq> [] \<or> ir_processError r \<noteq> None \<Longrightarrow> well_run (set_reason m r)"
  by (auto simp: well_run_def set_reason_def coalesce_def split: option.splits)

lemma well_begin:
  assumes "well_run r" and "ir_stopRequested r \<or> ir_failureReason r \<noteq> None"
  shows "well_run (beginTermination env r)"
proof (cases "ir_result r \<noteq> None \<or> ir_terminating r")
  case True
  with assms(1) show ?thesis by (simp add: beginTermination_def)
next
  case False
  then have "ir_signals r = []" using assms(1) by (auto simp: well_run_def)
  then obtain t rest where "ir_signals (signalTree env SIGTERM (r\<lparr>ir_terminating := True\<rparr>)) = (t, SIGTERM) # rest"
    using signalTree_signals [of env SIGTERM "r\<lparr>ir_terminating := True\<rparr>"] by auto
  with False assms show ?thesis by (auto simp: beginTermination_def well_run_def)
qed

lemma set_reason_fields [simp]:
  "\<exists>m'. ir_failureReason (set_reason m r) = Some m'" "ir_failureReason (set_reason m r) \<noteq> None"
  "ir_id (set_reason m r) = ir_id r" "ir_pid (set_reason m r) = ir_pid r"
  "ir_startedAt (set_reason m r) = ir_startedAt r" "ir_stdoutPath (set_reason m r) = ir_stdoutPath r"
  "ir_stderrPath (set_reason m r) = ir_stderrPath r" "ir_stdout (set_reason m r) = ir_stdout r"
  "ir_stderr (set_reason m r) = ir_stderr r" "ir_stdoutDestroyed (set_reason m r) = ir_stdoutDestroyed r"
  "ir_stderrDestroyed (set_reason m r) = ir_stderrDestroyed r"
  "ir_stopRequested (set_reason m r) = ir_stopRequested r" "ir_stage (set_reason m r) = ir_stage r"
  "ir_closed (set_reason m r) = ir_closed r" "ir_result (set_reason m r) = ir_result r"
  "ir_killTimer (set_reason m r) = ir_killTimer r" "ir_waiting (set_reason m r) = ir_waiting r"
  "ir_timeoutTimer (set_reason m r) = ir_timeoutTimer r" "ir_terminating (set_reason m r) = ir_terminating r"
  "ir_terminationResolved (set_reason m r) = ir_terminationResolved r"
  "ir_processError (set_reason m r) = ir_processError r" "ir_timeoutMs (set_reason m r) = ir_timeoutMs r"
  "ir_maxStdoutBytes (set_reason m r) = ir_maxStdoutBytes r"
  "ir_maxStderrBytes (set_reason m r) = ir_maxStderrBytes r" "ir_stdoutBytes (set_reason m r) = ir_stdoutBytes r"
  "ir_stderrBytes (set_reason m r) = ir_stderrBytes r" "ir_signals (set_reason m r) = ir_signals r"
  "ir_probes (set_reason m r) = ir_probes r"
  by (auto simp: set_reason_def coalesce_def split: option.splits)

lemma begin_fields [simp]:
  "ir_id (beginTermination env r) = ir_id r" "ir_pid (beginTermination env r) = ir_pid r"
  "ir_startedAt (beginTermination env r) = ir_startedAt r"
  "ir_stdoutPath (beginTermination env r) = ir_stdoutPath r"
  "ir_stderrPath (beginTermination env r) = ir_stderrPath r" "ir_stdout (beginTermination env r) = ir_stdout r"
  "ir_stderr (beginTermination env r) = ir_stderr r"
  "ir_stdoutDestroyed (beginTermination env r) = ir_stdoutDestroyed r"
  "ir_stderrDestroyed (beginTermination env r) = ir_stderrDestroyed r"
  "ir_stopRequested (beginTermination env r) = ir_stopRequested r" "ir_stage (beginTermination env r) = ir_stage r"
  "ir_closed (beginTermination env r) = ir_closed r" "ir_result (beginTermination env r) = ir_result r"
  "ir_waiting (beginTermination env r) = ir_waiting r"
  "ir_timeoutTimer (beginTermination env r) = ir_timeoutTimer r"
  "ir_terminationResolved (beginTermination env r) = ir_terminationResolved r"
  "ir_processError (beginTermination env r) = ir_processError r"
  "ir_failureReason (beginTermination env r) = ir_failureReason r"
  "ir_timeoutMs (beginTermination env r) = ir_timeoutMs r"
  "ir_maxStdoutBytes (beginTermination env r) = ir_maxStdoutBytes r"
  "ir_maxStderrBytes (beginTermination env r) = ir_maxStderrBytes r"
  "ir_stdoutBytes (beginTermination env r) = ir_stdoutBytes r"
  "ir_stderrBytes (beginTermination env r) = ir_stderrBytes r"
  by (simp_all add: beginTermination_def)

lemma well_fail: "well_run r \<Longrightarrow> m \<noteq> [] \<Longrightarrow> well_run (fail_supervised env m r)"
  by (auto simp: fail_supervised_def intro!: well_begin well_set_reason)

lemma well_update:
  "well_run r \<Longrightarrow> well_run (write_stream k bs r)" "well_run r \<Longrightarrow> well_run (count_bytes k n r)"
  by (cases k; simp add: well_run_def)+

lemma well_capture: "well_run r \<Longrightarrow> well_run (captureOutput env k c th r)"
  by (auto simp: captureOutput_def Let_def split: option.splits intro!: well_fail well_update)

lemma well_alive: "well_run r \<Longrightarrow> well_run (snd (treeIsAlive env r))"
  by (simp add: well_run_def)

lemma well_await:
  assumes "well_run r" and "ir_stage r = Running"
  shows "well_run (awaitTermination env r)"
  using assms by (auto simp: awaitTermination_def resolveTermination_def pair_cases well_run_def)

lemma well_finalize_begin:
  assumes "well_run r" and "ir_stage r = Running"
  shows "well_run (finalize_begin env code sig r)"
proof -
  have w: "well_run (r\<lparr>ir_closed := (code, sig), ir_timeoutTimer := False\<rparr>)"
    using assms(1) by (simp add: well_run_def)
  then show ?thesis using assms(2)
    by (auto simp: finalize_begin_def Let_def pair_cases intro!: well_await well_begin well_set_reason well_alive)
qed

lemma well_signal:
  assumes "well_run r" and "ir_terminating r"
  shows "well_run (signalTree env g r)"
proof -
  obtain t rest where "ir_signals (signalTree env g r) = ir_signals r @ (t, g) # rest"
    using signalTree_signals by blast
  with assms show ?thesis by (auto simp: well_run_def)
qed

lemma well_kill_timer:
  assumes "well_run r" and "ir_killTimer r"
  shows "well_run (kill_timer env r)"
proof -
  define q where "q = snd (treeIsAlive env (r\<lparr>ir_killTimer := False\<rparr>))"
  obtain t rest where 1: "ir_signals (signalTree env SIGKILL q) = ir_signals q @ (t, SIGKILL) # rest"
    using signalTree_signals by blast
  obtain t' rest' where 2: "ir_signals r = (t', SIGTERM) # rest'" "ir_terminating r"
    using assms by (auto simp: well_run_def)
  have 3: "ir_signals q = ir_signals r" by (simp add: q_def)
  show ?thesis using assms 1 2 3
    by (simp add: kill_timer_def pair_cases q_def [symmetric] well_run_def) (simp add: q_def)
qed

lemma well_tree_waited: "well_run r \<Longrightarrow> ir_waiting r \<Longrightarrow> well_run (tree_waited env r)"
  by (auto simp: tree_waited_def resolveTermination_def pair_cases well_run_def set_reason_def coalesce_def
      split: option.splits)

lemma handle_well_run: "enabled e r \<Longrightarrow> well_run r \<Longrightarrow> well_run (handle env e r)"
proof (cases e)
  case (StreamError k m)
  have "well_run r \<Longrightarrow> well_run (r\<lparr>ir_stdoutDestroyed := True\<rparr>)" "well_run r \<Longrightarrow> well_run (r\<lparr>ir_stderrDestroyed := True\<rparr>)"
    by (simp_all add: well_run_def)
  then show "well_run r \<Longrightarrow> ?thesis"
    unfolding StreamError by (simp add: stream_error_def Let_def well_fail split: output_kind.split)
next
  case (ChildError m)
  have "well_run r \<Longrightarrow> well_run (set_reason m (r\<lparr>ir_processError := Some m\<rparr>))"
    by (rule well_set_reason) (simp_all add: well_run_def)
  then show "well_run r \<Longrightarrow> ?thesis"
    unfolding ChildError by (simp add: child_error_def Let_def well_update del: write_stream.simps)
next
  case (Spawned pid)
  then show "well_run r \<Longrightarrow> ?thesis"
    by (auto simp: spawned_def Let_def intro!: well_signal) (simp_all add: well_run_def)
next
  case TimeoutFired
  then show "well_run r \<Longrightarrow> ?thesis"
    by (auto intro!: well_fail) (simp add: well_run_def)
next
  case StopCalled
  then show "well_run r \<Longrightarrow> ?thesis"
    by (auto simp: stop_run_def intro!: well_begin) (simp add: well_run_def)
next
  case (StreamsClosed now)
  then show "enabled e r \<Longrightarrow> well_run r \<Longrightarrow> ?thesis"
    by (auto simp: finalize_end_def well_run_def)
next
  case TerminationSeen
  then show "enabled e r \<Longrightarrow> well_run r \<Longrightarrow> ?thesis"
    by (auto simp: well_run_def)
qed (auto intro: well_capture well_finalize_begin well_kill_timer well_tree_waited)

lemma reachable_well_run:
  "reachable env (new_run i pid now p q timeout maxOut maxErr) r \<Longrightarrow> well_run r"
  by (induction rule: reachable.induct) (auto intro: new_run_well_run handle_well_run)

end
