(* ===== verification/SupervisorFacts.thy ===== *)
theory SupervisorFacts
  imports Supervisor
begin

text \<open>
  What the supervisor promises of a run: a result of success means a zero exit code before the timeout and
  complete artifacts; an artifact never exceeds its bound and holds the output up to it; no signal without a
  reason; and once the child has closed, the run comes to a result by its own timers.
\<close>

subsection \<open>Success\<close>

fun chunk_of :: "output_kind \<Rightarrow> event \<Rightarrow> string" where
  "chunk_of k (OutputChunk k' c th) = (if k' = k then c else [])"
| "chunk_of k _ = []"

definition output_of :: "output_kind \<Rightarrow> event list \<Rightarrow> string" where
  "output_of k evs = concat (map (chunk_of k) evs)"

lemma output_of_simps [simp]: "output_of k [] = []" "output_of k (evs @ [e]) = output_of k evs @ chunk_of k e"
  "output_of k (e # evs) = chunk_of k e @ output_of k evs"
  by (simp_all add: output_of_def)

text \<open>A run that has not failed: nothing has gone wrong so far, or its result says so.\<close>

definition untroubled :: "internal_run \<Rightarrow> bool" where
  "untroubled r \<longleftrightarrow> (case ir_result r of
     None \<Rightarrow> ir_failureReason r = None \<and> ir_processError r = None
   | Some res \<Rightarrow> sr_status res \<noteq> Failed)"

definition complete :: "event list \<Rightarrow> internal_run \<Rightarrow> bool" where
  "complete evs r \<longleftrightarrow> TimeoutFired \<notin> set evs \<and>
     (\<forall>k. written k r = output_of k evs \<and> int (length (output_of k evs)) = bytes_of k r \<and>
          bytes_of k r \<le> maximum_of k r \<and> (destroyed k r \<longleftrightarrow> ir_result r \<noteq> None))"

lemma all_kinds: "(\<forall>k. P k) \<longleftrightarrow> P Stdout \<and> P Stderr"
  by (metis output_kind.exhaust)

lemma fail_troubles: "ir_result r = None \<Longrightarrow> \<not> untroubled (fail_supervised env m r)"
  by (auto simp: untroubled_def fail_supervised_def)

lemma fail_done: "ir_result r \<noteq> None \<Longrightarrow> fail_supervised env m r = r"
  by (simp add: fail_supervised_def)

lemma update_result [simp]: "ir_result (write_stream k bs r) = ir_result r" "ir_result (count_bytes k n r) = ir_result r"
  by (cases k; simp)+

lemma update_timer [simp]:
  "ir_timeoutTimer (write_stream k bs r) = ir_timeoutTimer r" "ir_timeoutTimer (count_bytes k n r) = ir_timeoutTimer r"
  "ir_stage (write_stream k bs r) = ir_stage r" "ir_stage (count_bytes k n r) = ir_stage r"
  by (cases k; simp)+

lemma fail_timer [simp]: "ir_timeoutTimer (fail_supervised env m r) = ir_timeoutTimer r" "ir_stage (fail_supervised env m r) = ir_stage r"
  by (simp_all add: fail_supervised_def)

lemma capture_timer [simp]:
  "ir_timeoutTimer (captureOutput env k c th r) = ir_timeoutTimer r" "ir_stage (captureOutput env k c th r) = ir_stage r"
  by (simp_all add: captureOutput_def Let_def split: option.split)

lemma fail_result [simp]: "ir_result (fail_supervised env m r) = ir_result r"
  by (simp add: fail_supervised_def)

lemma untroubled_update [simp]: "untroubled (write_stream k bs r) = untroubled r" "untroubled (count_bytes k n r) = untroubled r"
  by (cases k; simp add: untroubled_def split: option.split)+

text \<open>A chunk that leaves the run untroubled was within the bound and has been written.\<close>

lemma capture_untroubled:
  assumes "ir_result r = None" and "untroubled (captureOutput env k c th r)"
  shows "untroubled r" and "int (length c) \<le> max 0 (maximum_of k r - bytes_of k r)"
    and "\<not> destroyed k r \<Longrightarrow> captureOutput env k c th r = count_bytes k (int (length c)) (if c = [] then r else write_stream k c r)"
proof -
  have fit: "int (length c) \<le> max 0 (maximum_of k r - bytes_of k r)"
  proof (rule ccontr)
    assume "\<not> ?thesis"
    then have "\<not> untroubled (captureOutput env k c th r)"
      using assms(1) by (auto simp: captureOutput_def Let_def fail_troubles max_def split: option.splits if_splits)
    with assms(2) show False by simp
  qed
  then show "int (length c) \<le> max 0 (maximum_of k r - bytes_of k r)" .
  show "untroubled r"
    using assms fit fail_troubles by (auto simp: captureOutput_def Let_def split: if_splits option.splits)
  show "captureOutput env k c th r = count_bytes k (int (length c)) (if c = [] then r else write_stream k c r)"
    if "\<not> destroyed k r"
  proof (cases c)
    case (Cons x xs)
    with that assms fit fail_troubles show ?thesis
      by (auto simp: captureOutput_def Let_def min_def max_def split: if_splits option.splits)
  qed (simp add: captureOutput_def)
qed

lemma complete_chunk:
  assumes "complete evs r" and "ir_result r = None" and "untroubled (captureOutput env k c th r)"
  shows "complete (evs @ [OutputChunk k c th]) (captureOutput env k c th r)"
proof -
  note cap = capture_untroubled [OF assms(2,3)]
  have d: "\<not> destroyed k r" using assms(1,2) by (auto simp: complete_def)
  have "int (length c) + bytes_of k r \<le> maximum_of k r"
    using cap(2) assms(1) by (auto simp: complete_def max_def split: if_splits)
  with assms(1,2) show ?thesis unfolding cap(3) [OF d]
    by (cases k) (auto simp: complete_def all_kinds)
qed

lemma same_output:
  assumes "complete evs r" and "\<And>k. chunk_of k e = []" and "e \<noteq> TimeoutFired"
    and "\<forall>k. written k q = written k r \<and> bytes_of k q = bytes_of k r \<and> maximum_of k q = maximum_of k r \<and>
           (destroyed k q \<longleftrightarrow> ir_result q \<noteq> None)"
  shows "complete (evs @ [e]) q"
  using assms by (auto simp: complete_def)

lemma untroubled_begin [simp]: "untroubled (beginTermination env r) = untroubled r"
  by (simp add: untroubled_def split: option.split)

lemma untroubled_signal [simp]: "untroubled (signalTree env g r) = untroubled r"
  by (simp add: untroubled_def split: option.split)

lemma untroubled_alive [simp]: "untroubled (snd (treeIsAlive env r)) = untroubled r"
  by (simp add: untroubled_def split: option.split)

lemma reason_troubles: "ir_result r = None \<Longrightarrow> \<not> untroubled (set_reason m r)"
  by (auto simp: untroubled_def)

lemma stream_error_troubles: "ir_result r = None \<Longrightarrow> \<not> untroubled (stream_error env k m r)"
  by (cases k; unfold stream_error_def Let_def output_kind.case; rule fail_troubles; simp)

lemma stream_error_done:
  "ir_result r \<noteq> None \<Longrightarrow> stream_error env Stdout m r = r\<lparr>ir_stdoutDestroyed := True\<rparr>"
  "ir_result r \<noteq> None \<Longrightarrow> stream_error env Stderr m r = r\<lparr>ir_stderrDestroyed := True\<rparr>"
  by (simp_all add: stream_error_def Let_def fail_supervised_def)

lemma child_error_troubles: "ir_result r = None \<Longrightarrow> \<not> untroubled (child_error m r)"
  by (simp add: child_error_def Let_def reason_troubles del: write_stream.simps)

lemma timeout_running:
  assumes "after env evs (new_run i pid now p q timeout maxOut maxErr) = Some s" and "ir_timeoutTimer s"
  shows "ir_stage s = Running"
  using assms
proof (induction evs arbitrary: s rule: rev_induct)
  case (snoc e evs)
  then obtain r where r: "after env evs (new_run i pid now p q timeout maxOut maxErr) = Some r"
    "enabled e r" "s = handle env e r" by (auto simp: after_snoc split: option.splits if_splits)
  have "ir_timeoutTimer r \<and> (ir_stage r = Running \<longrightarrow> ir_stage s = Running)" if "ir_timeoutTimer s"
    using that r(2,3)
    by (cases e) (auto simp: stream_error_def child_error_def spawned_def stop_run_def kill_timer_def tree_waited_def
        resolveTermination_def finalize_begin_def awaitTermination_def finalize_end_def Let_def pair_cases
        split: if_splits output_kind.splits)
  with snoc r show ?case by auto
qed (simp add: new_run_def)

text \<open>Nothing that happens to a run makes up for a failure.\<close>

lemma untroubled_back:
  assumes "enabled e s" and "well_run s" and "untroubled (handle env e s)"
  shows "untroubled s"
proof (cases e)
  case (OutputChunk k c th)
  then have "ir_result s = None" using assms(1,2) by (auto simp: well_run_def)
  with OutputChunk assms(3) show ?thesis using capture_untroubled(1) by simp
next
  case (StreamError k m)
  show ?thesis
  proof (cases "ir_result s")
    case None
    with assms(3) StreamError stream_error_troubles show ?thesis by simp
  next
    case (Some res)
    then have "handle env e s = s\<lparr>ir_stdoutDestroyed := True\<rparr> \<or> handle env e s = s\<lparr>ir_stderrDestroyed := True\<rparr>"
      unfolding StreamError by (cases k) (simp_all add: stream_error_done)
    with assms(3) show ?thesis by (auto simp: untroubled_def split: option.splits)
  qed
next
  case (ChildError m)
  show ?thesis
  proof (cases "ir_result s")
    case None
    with assms(3) ChildError child_error_troubles show ?thesis by simp
  next
    case (Some res)
    with assms(3) ChildError show ?thesis by (auto simp: child_error_def Let_def untroubled_def split: if_splits)
  qed
next
  case (StreamsClosed t)
  then have "ir_result s = None" using assms(1,2) by (auto simp: well_run_def)
  with StreamsClosed assms(2,3) show ?thesis
    by (auto simp: finalize_end_def untroubled_def run_result_def result_status_def well_run_def split: if_splits option.splits)
qed (use assms(3) in \<open>auto simp: spawned_def stop_run_def kill_timer_def tree_waited_def fail_supervised_def
  resolveTermination_def finalize_begin_def awaitTermination_def Let_def pair_cases untroubled_def
  split: if_splits option.splits\<close>)

text \<open>The handlers other than the capture of output leave a quiet stream as it is.\<close>

fun quiet_event :: "output_kind \<Rightarrow> event \<Rightarrow> bool" where
  "quiet_event k (OutputChunk k' c th) = (k' \<noteq> k \<or> th = None)"
| "quiet_event k (StreamError k' m) = (k' \<noteq> k)"
| "quiet_event k (ChildError m) = (k = Stdout)"
| "quiet_event k _ = True"

lemma handle_stream:
  assumes "quiet_event k e" and "\<And>c th. e \<noteq> OutputChunk k c th"
  shows "written k (handle env e r) = written k r \<and> bytes_of k (handle env e r) = bytes_of k r \<and>
    (destroyed k (handle env e r) \<longleftrightarrow> destroyed k r \<or> (\<exists>now. e = StreamsClosed now))"
proof (cases e)
  case (OutputChunk k' c th)
  with assms show ?thesis
    by (cases k; cases k') (auto simp: captureOutput_def Let_def fail_supervised_def split: option.split)
next
  case (StreamError k' m)
  with assms(1) show ?thesis by (cases k; cases k') (auto simp: stream_error_def Let_def fail_supervised_def)
next
  case (ChildError m)
  with assms(1) show ?thesis by (auto simp: child_error_def Let_def)
qed (cases k; auto simp: spawned_def stop_run_def kill_timer_def tree_waited_def fail_supervised_def
  resolveTermination_def finalize_begin_def awaitTermination_def finalize_end_def Let_def pair_cases)+


lemma disturbance_troubles:
  assumes "\<not> quiet_event k e" and "ir_result s = None" and "untroubled (handle env e s)"
  shows "\<exists>c th. e = OutputChunk k c th"
  using assms stream_error_troubles child_error_troubles by (cases e) auto

lemma update_maximum [simp]: "maximum_of k' (write_stream k bs r) = maximum_of k' r"
  "maximum_of k' (count_bytes k n r) = maximum_of k' r"
  by (cases k; cases k'; simp)+

lemma fail_maximum [simp]: "maximum_of k (fail_supervised env m r) = maximum_of k r"
  by (cases k) (simp_all add: fail_supervised_def)

lemma capture_maximum [simp]: "maximum_of k' (captureOutput env k c th r) = maximum_of k' r"
  by (simp add: captureOutput_def Let_def split: option.split)

lemma handle_maximum [simp]: "maximum_of k (handle env e r) = maximum_of k r"
proof -
  have "maximum_of k (stream_error env k' m r) = maximum_of k r" for k' m
    by (cases k; cases k') (simp_all add: stream_error_def Let_def fail_supervised_def)
  moreover have "maximum_of k (child_error m r) = maximum_of k r" for m
    by (cases k) (simp_all add: child_error_def Let_def)
  ultimately show ?thesis
    by (cases e; cases k) (simp_all add: spawned_def stop_run_def kill_timer_def tree_waited_def fail_supervised_def
        resolveTermination_def finalize_begin_def awaitTermination_def finalize_end_def Let_def pair_cases)
qed

lemma handle_result:
  "ir_result (handle env e r) = (case e of StreamsClosed now \<Rightarrow> Some (run_result now r) | _ \<Rightarrow> ir_result r)"
proof -
  have "ir_result (stream_error env k m r) = ir_result r" for k m
    by (cases k) (simp_all add: stream_error_def Let_def)
  moreover have "ir_result (captureOutput env k c th r) = ir_result r" for k c th
    by (simp add: captureOutput_def Let_def split: option.split)
  ultimately show ?thesis
    by (cases e) (simp_all add: child_error_def spawned_def stop_run_def kill_timer_def tree_waited_def
        resolveTermination_def finalize_begin_def awaitTermination_def finalize_end_def Let_def pair_cases)
qed

lemma no_chunk: "\<forall>k c th. e \<noteq> OutputChunk k c th \<Longrightarrow> chunk_of k e = []"
  by (cases e) auto

lemma handle_done:
  assumes "enabled e s" and "well_run s" and "ir_result s = Some res" and "destroyed k s"
  shows "written k (handle env e s) = written k s \<and> bytes_of k (handle env e s) = bytes_of k s \<and>
    destroyed k (handle env e s) \<and> ir_result (handle env e s) = Some res"
proof (cases "quiet_event k e")
  case True
  moreover have "\<not> (\<exists>c th. e = OutputChunk k c th)" "\<not> (\<exists>now. e = StreamsClosed now)"
    using assms(1-3) by (auto simp: well_run_def)
  ultimately show ?thesis using handle_stream [of k e env s] assms(3,4)
    by (auto simp: handle_result split: event.splits)
next
  case False
  then show ?thesis using assms
    by (cases e; cases k) (auto simp: well_run_def stream_error_done child_error_def Let_def)
qed

lemma after_complete:
  assumes "after env evs (new_run i pid now p q timeout maxOut maxErr) = Some r"
    and "0 \<le> maxOut" "0 \<le> maxErr" and "untroubled r"
  shows "complete evs r"
  using assms(1,4)
proof (induction evs arbitrary: r rule: rev_induct)
  case Nil
  then show ?case using assms(2,3) by (auto simp: complete_def all_kinds new_run_def)
next
  case (snoc e evs)
  then obtain s where s: "after env evs (new_run i pid now p q timeout maxOut maxErr) = Some s"
    and e: "enabled e s" and r: "r = handle env e s"
    by (auto simp: after_snoc split: option.splits if_splits)
  have w: "well_run s" using s reachable_well_run reachable_after by metis
  have c: "complete evs s" using snoc.IH [OF s] untroubled_back [OF e w] snoc.prems(2) r by simp
  show ?case
  proof (cases "\<exists>k c th. e = OutputChunk k c th")
    case True
    then show ?thesis using complete_chunk [OF c] e w snoc.prems(2) unfolding r by (auto simp: well_run_def)
  next
    case False
    show ?thesis
    proof (cases "ir_result s")
      case None
      then have "e \<noteq> TimeoutFired" using snoc.prems(2) fail_troubles r by auto
      moreover have "\<forall>k. quiet_event k e" using disturbance_troubles None False snoc.prems(2) r by blast
      ultimately show ?thesis using c False None handle_stream [of _ e env s] unfolding r
        by (intro same_output [of evs s]) (auto simp: complete_def handle_result no_chunk split: event.splits)
    next
      case (Some res)
      then have d: "destroyed k s" for k using c by (auto simp: complete_def)
      have "e \<noteq> TimeoutFired" using e timeout_running [OF s] w Some by (auto simp: well_run_def)
      then show ?thesis using c False handle_done [OF e w _ d] Some unfolding r
        by (intro same_output [of evs s]) (auto simp: complete_def no_chunk)
    qed
  qed
qed

lemma after_maximum: "after env evs r0 = Some r \<Longrightarrow> maximum_of k r = maximum_of k r0"
  by (induction evs arbitrary: r0) (auto split: if_splits)

lemma result_of_run: "reachable env (new_run i pid now p q timeout maxOut maxErr) r \<Longrightarrow>
    ir_result r = Some res \<Longrightarrow> \<exists>now s. res = run_result now s"
proof (induction arbitrary: res rule: reachable.induct)
  case (step r e)
  then show ?case by (auto simp: handle_result split: event.splits)
qed (simp add: new_run_def)

text \<open>
  C24 A run that the supervisor reports as succeeded exited with code 0 and was never past its timeout, and both
  artifact files hold everything the process wrote: nothing was cut off and no write was lost.
\<close>

theorem supervised_success:
  assumes "start_run cfg spec uuid pid now = Inr r0" and "after env evs r0 = Some r"
    and "ir_result r = Some res" and "sr_status res = Succeeded"
  shows "sr_exitCode res = Some 0 \<and> sr_error res = None \<and> TimeoutFired \<notin> set evs \<and>
    (\<forall>k. written k r = output_of k evs \<and> int (length (output_of k evs)) \<le> maximum_of k r0)"
proof -
  from assms(1) obtain i timeout maxOut maxErr where
    r0: "r0 = new_run i pid now (ps_stdoutPath spec) (ps_stderrPath spec) timeout maxOut maxErr"
    and nn: "0 \<le> maxOut" "0 \<le> maxErr" by (rule start_runE)
  have c: "complete evs r"
    using after_complete [OF _ nn] assms r0 by (simp add: untroubled_def)
  obtain t s where "res = run_result t s"
    using result_of_run assms(2,3) reachable_after unfolding r0 by blast
  with assms(4) have "sr_exitCode res = Some 0 \<and> sr_error res = None"
    by (auto simp: run_result_def result_error_def result_status_def split: if_splits)
  with c after_maximum [OF assms(2)] show ?thesis by (metis complete_def)
qed

subsection \<open>Bounded artifacts\<close>

definition capped :: "output_kind \<Rightarrow> event list \<Rightarrow> internal_run \<Rightarrow> bool" where
  "capped k evs r \<longleftrightarrow> written k r = take (nat (maximum_of k r)) (output_of k evs) \<and>
     bytes_of k r = int (length (written k r)) \<and> (destroyed k r \<longrightarrow> ir_result r \<noteq> None) \<and>
     (maximum_of k r < int (length (output_of k evs)) \<longrightarrow> \<not> untroubled r)"

lemma untroubled_result_None: "ir_result r = None \<Longrightarrow> untroubled r \<longleftrightarrow> ir_failureReason r = None \<and> ir_processError r = None"
  by (simp add: untroubled_def)

text \<open>One chunk: the file grows to the bound and no further, and what does not fit fails the run.\<close>

lemma capture_capped:
  assumes c: "capped k evs r" and n: "ir_result r = None"
  shows "capped k (evs @ [OutputChunk k ch None]) (captureOutput env k ch None r)"
proof -
  let ?M = "maximum_of k r" and ?out = "output_of k evs" and ?q = "captureOutput env k ch None r"
  let ?n = "min (max 0 (?M - bytes_of k r)) (int (length ch))"
  have d: "\<not> destroyed k r" using c n by (auto simp: capped_def)
  have w: "written k ?q = written k r @ take (nat ?n) ch \<and> bytes_of k ?q = bytes_of k r + ?n \<and>
      destroyed k ?q = destroyed k r"
    using d by (cases k) (auto simp: captureOutput_def Let_def fail_supervised_def min_def max_def)
  have len: "bytes_of k r = min (int (nat ?M)) (int (length ?out))"
    using c by (auto simp: capped_def min_def)
  have f: "written k ?q = take (nat ?M) (?out @ ch)"
  proof (cases "nat ?M \<le> length ?out")
    case True
    then have "nat ?n = 0" using len by (auto simp: min_def max_def)
    with True w c show ?thesis by (simp add: capped_def)
  next
    case False
    then have "take (nat ?n) ch = take (nat ?M - length ?out) ch"
      using len by (auto simp: min_def max_def nat_diff_distrib)
    with False w c show ?thesis by (simp add: capped_def)
  qed
  have u: "\<not> untroubled ?q" if over: "?M < int (length (?out @ ch))"
  proof
    assume "untroubled ?q"
    note cap = capture_untroubled [OF n this]
    have le: "\<not> ?M < int (length ?out)" using cap(1) c by (auto simp: capped_def)
    then have "int (length ch) \<le> ?M - bytes_of k r" using cap(2) len by (auto simp: min_def max_def split: if_splits)
    with over len le show False by (auto simp: min_def split: if_splits)
  qed
  have b: "bytes_of k ?q = int (length (written k ?q))"
    using w c by (auto simp: capped_def min_def max_def)
  show ?thesis unfolding capped_def using w f u b c d n by auto
qed


subsection \<open>Coming to a result\<close>

text \<open>
  C26 Once the child has closed, the run comes to its result by the supervisor's own timers and loops, whatever the
  process tree does: at most four further events, none of them an event of the child. Nothing waits for ever.
\<close>

theorem run_comes_to_a_result:
  assumes "start_run cfg spec uuid pid now = Inr r0" and "reachable env r0 r" and "ir_stage r \<noteq> Running"
  shows "\<exists>evs r'. length evs \<le> 4 \<and> set evs \<subseteq> {KillTimerFired, TreeWaited, TerminationSeen, StreamsClosed t} \<and>
    after env evs r = Some r' \<and> ir_result r' \<noteq> None"
proof -
  have w: "well_run r" using assms(1,2) by (auto elim!: start_runE intro: reachable_well_run)
  have streams: "after env [StreamsClosed t] s = Some (finalize_end t s) \<and> ir_result (finalize_end t s) \<noteq> None"
    if "ir_stage s = AwaitingStreams" for s using that by (simp add: finalize_end_def)
  have resolved: "\<exists>r'. after env [TerminationSeen, StreamsClosed t] s = Some r' \<and> ir_result r' \<noteq> None"
    if "ir_stage s = AwaitingTermination" "ir_terminationResolved s" for s
    using that by (simp add: finalize_end_def)
  have wait: "ir_stage (tree_waited env s) = ir_stage s \<and> ir_terminationResolved (tree_waited env s)" for s
    by (simp add: tree_waited_def resolveTermination_def pair_cases)
  have kill: "ir_stage (kill_timer env s) = ir_stage s \<and> ir_waiting (kill_timer env s)" for s
    by (simp add: kill_timer_def pair_cases)
  consider "ir_stage r = Finished" | "ir_stage r = AwaitingStreams"
    | "ir_stage r = AwaitingTermination" "ir_terminationResolved r"
    | "ir_stage r = AwaitingTermination" "ir_waiting r"
    | "ir_stage r = AwaitingTermination" "ir_killTimer r"
    using assms(3) w by (cases "ir_stage r") (auto simp: well_run_def)
  then show ?thesis
  proof cases
    case 1
    with w show ?thesis by (intro exI [of _ "[]"]) (auto simp: well_run_def)
  next
    case 2
    then show ?thesis using streams by (intro exI [of _ "[StreamsClosed t]"]) auto
  next
    case 3
    then show ?thesis using resolved by (intro exI [of _ "[TerminationSeen, StreamsClosed t]"]) auto
  next
    case 4
    then show ?thesis using wait [of r] resolved [of "tree_waited env r"]
      by (intro exI [of _ "[TreeWaited, TerminationSeen, StreamsClosed t]"]) auto
  next
    case 5
    then show ?thesis using kill [of r] wait [of "kill_timer env r"] resolved [of "tree_waited env (kill_timer env r)"]
      by (intro exI [of _ "[KillTimerFired, TreeWaited, TerminationSeen, StreamsClosed t]"]) auto
  qed
qed

text \<open>
  The supervisor signals a process only with a reason (the owner asked it to stop, or the run has failed), and
  its first signal is always SIGTERM: a process is never killed before it was asked to end.
\<close>

theorem signals_with_reason:
  assumes "start_run cfg spec uuid pid now = Inr r0" and "reachable env r0 r" and "ir_signals r \<noteq> []"
  shows "(ir_stopRequested r \<or> ir_failureReason r \<noteq> None) \<and> snd (hd (ir_signals r)) = SIGTERM"
proof -
  have "well_run r" using assms(1,2) by (auto elim!: start_runE intro: reachable_well_run)
  with assms(3) show ?thesis by (auto simp: well_run_def)
qed

subsection \<open>A run of a program that prints a line\<close>

definition demo_config :: supervisor_config where
  "demo_config = \<lparr>sc_killGraceMs = 2000, sc_timeoutMs = 1000, sc_maxStdoutBytes = 8, sc_maxStderrBytes = 8\<rparr>"

definition demo_spec :: process_spec where
  "demo_spec = \<lparr>ps_id = Some ''r1'', ps_stdoutPath = ''out'', ps_stderrPath = ''err'', ps_timeoutMs = None,
     ps_maxOutputBytes = None, ps_maxStdoutBytes = None, ps_maxStderrBytes = None\<rparr>"

definition gone_env :: os_env where
  "gone_env = \<lparr>se_win32 = False, se_kill = (\<lambda>_. NoSuchProcess), se_childRunning = (\<lambda>_. False)\<rparr>"

definition demo_run :: internal_run where
  "demo_run = new_run ''r1'' (Some 42) ''t0'' ''out'' ''err'' 1000 8 8"

lemma demo_started: "start_run demo_config demo_spec ''u'' (Some 42) ''t0'' = Inr demo_run"
  by (simp add: start_run_def demo_config_def demo_spec_def demo_run_def and_then_def validateNonnegativeInteger_def
      default_to_def coalesce_def is_safe_int_def max_safe_int_def)

lemmas demo_defs = demo_run_def new_run_def gone_env_def captureOutput_def stream_error_def finalize_begin_def
  awaitTermination_def treeIsAlive_def finalize_end_def run_result_def result_status_def result_error_def
  stop_run_def beginTermination_def signalTree_def send_def fail_supervised_def set_reason_def coalesce_def

definition demo_events :: "event list" where
  "demo_events = [Spawned (Some 42), OutputChunk Stdout ''ok'' None, OutputChunk Stdout ''!'' None,
     ChildClosed (Some 0) None, StreamsClosed ''t1'']"

lemma demo_run_succeeds: "\<exists>r res. after gone_env demo_events demo_run = Some r \<and> ir_result r = Some res \<and>
    sr_status res = Succeeded \<and> ir_stdout r = ''ok!''"
  by (simp add: demo_events_def demo_defs spawned_def)

theorem supervised_success_witness:
  "\<exists>r res. after gone_env demo_events demo_run = Some r \<and> ir_result r = Some res \<and> sr_exitCode res = Some 0 \<and>
    written Stdout r = output_of Stdout demo_events"
  using demo_run_succeeds supervised_success [OF demo_started] by metis


theorem run_comes_to_a_result_witness:
  "\<exists>r evs r'. after gone_env [ChildClosed (Some 1) None] demo_run = Some r \<and> length evs \<le> 4 \<and>
     after gone_env evs r = Some r' \<and> ir_result r' \<noteq> None"
proof -
  have "\<exists>r. after gone_env [ChildClosed (Some 1) None] demo_run = Some r \<and> ir_stage r \<noteq> Running"
    by (simp add: demo_defs)
  then obtain r where "after gone_env [ChildClosed (Some 1) None] demo_run = Some r" "ir_stage r \<noteq> Running" by blast
  with run_comes_to_a_result [OF demo_started, of gone_env r "''t1''"] reachable_after show ?thesis by metis
qed

theorem signals_with_reason_witness:
  "\<exists>r. after gone_env [StopCalled] demo_run = Some r \<and> snd (hd (ir_signals r)) = SIGTERM"
proof -
  have "\<exists>r. after gone_env [StopCalled] demo_run = Some r \<and> ir_signals r \<noteq> []"
    by (simp add: demo_defs)
  with signals_with_reason [OF demo_started] reachable_after show ?thesis by metis
qed

end
