(* ===== verification/CommandLine.thy ===== *)
theory CommandLine
  imports Prelude
begin

text \<open>
  The command line of a verification, split into an argument vector without a shell
  (\<open>parseVerificationCommand\<close>, \<open>src/verifier.ts\<close>).

  The scanner keeps the finished arguments, the token being read, whether a token has started (an empty quoted
  argument is an argument) and the open quote. Two theorems fix what it accepts: every argument vector has a
  quoted form that is read back exactly, and a line without quotes and escapes is the list of its words.
\<close>

datatype quote_kind = SingleQuote | DoubleQuote

record scanner =
  sn_argv :: "string list"
  sn_token :: string
  sn_tokenStarted :: bool
  sn_quote :: "quote_kind option"

definition new_scanner :: scanner where
  "new_scanner = \<lparr>sn_argv = [], sn_token = [], sn_tokenStarted = False, sn_quote = None\<rparr>"

definition finishToken :: "scanner \<Rightarrow> scanner" where
  "finishToken s = (if sn_tokenStarted s
     then s\<lparr>sn_argv := sn_argv s @ [sn_token s], sn_token := [], sn_tokenStarted := False\<rparr> else s)"

definition add_char :: "char \<Rightarrow> scanner \<Rightarrow> scanner" where
  "add_char c s = s\<lparr>sn_token := sn_token s @ [c], sn_tokenStarted := True\<rparr>"

definition set_quote :: "quote_kind option \<Rightarrow> scanner \<Rightarrow> scanner" where
  "set_quote q s = s\<lparr>sn_quote := q, sn_tokenStarted := True\<rparr>"

abbreviation single_mark :: char where "single_mark \<equiv> CHR 0x27"
abbreviation double_mark :: char where "double_mark \<equiv> CHR 0x22"
abbreviation backslash :: char where "backslash \<equiv> CHR 0x5C"

definition incomplete_escape :: string where
  "incomplete_escape = ''Verification command ends with an incomplete escape''"

text \<open>The loop over the characters; an escape takes the next character with it.\<close>

fun scan :: "string \<Rightarrow> scanner \<Rightarrow> string + scanner" where
  "scan [] s = Inr s"
| "scan (c # cs) s = (case sn_quote s of
     Some SingleQuote \<Rightarrow> scan cs (if c = single_mark then set_quote None s else add_char c s)
   | Some DoubleQuote \<Rightarrow>
       (if c = double_mark then scan cs (set_quote None s)
        else if c = backslash then (case cs of [] \<Rightarrow> Inl incomplete_escape | d # ds \<Rightarrow> scan ds (add_char d s))
        else scan cs (add_char c s))
   | None \<Rightarrow>
       (if js_space c then scan cs (finishToken s)
        else if c = single_mark then scan cs (set_quote (Some SingleQuote) s)
        else if c = double_mark then scan cs (set_quote (Some DoubleQuote) s)
        else if c = backslash then (case cs of [] \<Rightarrow> Inl incomplete_escape | d # ds \<Rightarrow> scan ds (add_char d s))
        else scan cs (add_char c s)))"

fun quote_name :: "quote_kind \<Rightarrow> string" where
  "quote_name SingleQuote = ''single''"
| "quote_name DoubleQuote = ''double''"

definition parseVerificationCommand :: "string \<Rightarrow> string + string list" where
  "parseVerificationCommand commandLine =
    (let input = trim commandLine in
     if input = [] then Inl ''Verification command cannot be empty''
     else case scan input new_scanner of
       Inl e \<Rightarrow> Inl e
     | Inr s \<Rightarrow> (case sn_quote s of
         Some q \<Rightarrow> Inl (''Verification command has an unterminated '' @ quote_name q @ '' quote'')
       | None \<Rightarrow> (let argv = sn_argv (finishToken s) in
           if argv = [] \<or> hd argv = [] then Inl ''Verification command must contain an executable'' else Inr argv)))"

subsection \<open>The scanner\<close>

lemma js_space_marks [simp]: "\<not> js_space single_mark" "\<not> js_space double_mark" "\<not> js_space backslash"
  "js_space (CHR 0x20)"
  by (simp_all add: js_space_def)

lemmas scanner_defs = new_scanner_def finishToken_def add_char_def set_quote_def

text \<open>No error ever comes with an argument vector, and what is returned names an executable.\<close>

lemma parse_executable: "parseVerificationCommand l = Inr argv \<Longrightarrow> argv \<noteq> [] \<and> hd argv \<noteq> []"
  by (auto simp: parseVerificationCommand_def Let_def split: if_splits sum.splits option.splits)

subsection \<open>Quoting\<close>

definition quote_char :: "char \<Rightarrow> string" where
  "quote_char c = (if c = double_mark \<or> c = backslash then [backslash, c] else [c])"

definition quote_arg :: "string \<Rightarrow> string" where
  "quote_arg a = double_mark # concat (map quote_char a) @ [double_mark]"

definition quote_command :: "string list \<Rightarrow> string" where
  "quote_command argv = join '' '' (map quote_arg argv)"

lemma scan_quoted:
  "scan (concat (map quote_char a) @ rest) \<lparr>sn_argv = as, sn_token = w, sn_tokenStarted = True, sn_quote = Some DoubleQuote\<rparr> =
   scan rest \<lparr>sn_argv = as, sn_token = w @ a, sn_tokenStarted = True, sn_quote = Some DoubleQuote\<rparr>"
  by (induction a arbitrary: w) (auto simp: quote_char_def add_char_def)

lemma scan_quote_arg:
  assumes "sn_quote s = None" and "sn_token s = []"
  shows "scan (quote_arg a @ rest) s = scan rest (s\<lparr>sn_token := a, sn_tokenStarted := True\<rparr>)"
  using assms by (cases s) (simp add: quote_arg_def scan_quoted set_quote_def)

lemma scan_quote_command:
  assumes "sn_quote s = None" "sn_token s = []" "\<not> sn_tokenStarted s" and "argv \<noteq> []"
  shows "map_sum id finishToken (scan (quote_command argv) s) = Inr (s\<lparr>sn_argv := sn_argv s @ argv\<rparr>)"
  using assms
proof (induction argv arbitrary: s rule: induct_list012)
  case (2 a)
  then show ?case using scan_quote_arg [of s a "[]"] by (simp add: quote_command_def finishToken_def)
next
  case (3 a b argv)
  have cmd: "quote_command (a # b # argv) = quote_arg a @ CHR 0x20 # quote_command (b # argv)"
    by (simp add: quote_command_def)
  have "finishToken (s\<lparr>sn_token := a, sn_tokenStarted := True\<rparr>) = s\<lparr>sn_argv := sn_argv s @ [a]\<rparr>"
    using "3.prems" by (simp add: finishToken_def)
  with 3 show ?case by (simp add: cmd scan_quote_arg)
qed simp

lemma map_sum_InrD: "map_sum id f r = Inr t \<Longrightarrow> \<exists>s. r = Inr s \<and> f s = t"
  by (cases r) auto

lemma scan_quote: "scan cs s = Inr t \<Longrightarrow> sn_quote (finishToken t) = sn_quote t"
  by (simp add: finishToken_def)

lemma trim_bracketed:
  assumes "\<not> js_space c" and "\<not> js_space d"
  shows "trim (c # cs @ [d]) = c # cs @ [d]"
  using assms by (simp add: trim_def)

lemma trim_quote_command:
  assumes "argv \<noteq> []"
  shows "trim (quote_command argv) = quote_command argv"
proof -
  have "\<exists>cs. quote_command argv = double_mark # cs @ [double_mark]"
    using assms
  proof (induction argv rule: induct_list012)
    case (2 a)
    then show ?case by (simp add: quote_command_def quote_arg_def)
  next
    case (3 a b argv)
    then obtain cs where cs: "quote_command (b # argv) = double_mark # cs @ [double_mark]" by auto
    have "quote_command (a # b # argv) = quote_arg a @ CHR 0x20 # quote_command (b # argv)"
      by (simp add: quote_command_def)
    with cs show ?case by (auto simp: quote_arg_def)
  qed simp
  then show ?thesis using trim_bracketed by (metis js_space_marks(2))
qed

text \<open>
  C29 Every argument vector that names an executable has a command line that is split back into exactly that
  vector, whatever its arguments contain (quotes, spaces, backslashes, shell operators, nothing at all).
\<close>

theorem command_line_roundtrip:
  assumes "argv \<noteq> []" and "hd argv \<noteq> []"
  shows "parseVerificationCommand (quote_command argv) = Inr argv"
proof -
  obtain s where s: "scan (quote_command argv) new_scanner = Inr s"
    "finishToken s = new_scanner\<lparr>sn_argv := argv\<rparr>"
    using scan_quote_command [of new_scanner argv] assms(1)
    by (auto simp: new_scanner_def dest: map_sum_InrD)
  then have "sn_quote s = None" using scan_quote [OF s(1)] by (simp add: new_scanner_def)
  moreover have "quote_command argv \<noteq> []"
    using assms(1) by (cases argv; cases "tl argv") (auto simp: quote_command_def quote_arg_def)
  ultimately show ?thesis using s assms by (simp add: parseVerificationCommand_def trim_quote_command Let_def)
qed

theorem command_line_roundtrip_witness:
  "parseVerificationCommand (quote_command [''npm'', ''run test'', '''', ''&&'', ''say \"hi\"'']) =
     Inr [''npm'', ''run test'', '''', ''&&'', ''say \"hi\"'']"
  by (rule command_line_roundtrip) simp_all

subsection \<open>Lines without quotes\<close>

text \<open>The words of a line: its maximal runs of characters that are not spaces.\<close>

fun words_from :: "string \<Rightarrow> string \<Rightarrow> string list" where
  "words_from w [] = (if w = [] then [] else [w])"
| "words_from w (c # cs) = (if js_space c then (if w = [] then [] else [w]) @ words_from [] cs
                            else words_from (w @ [c]) cs)"

definition words :: "string \<Rightarrow> string list" where
  "words = words_from []"

definition plain_line :: "string \<Rightarrow> bool" where
  "plain_line l \<longleftrightarrow> set l \<inter> {single_mark, double_mark, backslash} = {}"

lemma scan_plain:
  assumes "plain_line l" and "sn_quote s = None" and "sn_tokenStarted s \<longleftrightarrow> sn_token s \<noteq> []"
  shows "map_sum id finishToken (scan l s) = Inr \<lparr>sn_argv = sn_argv s @ words_from (sn_token s) l,
     sn_token = [], sn_tokenStarted = False, sn_quote = None\<rparr>"
  using assms
proof (induction l arbitrary: s)
  case Nil
  then show ?case by (cases s) (auto simp: finishToken_def)
next
  case (Cons c l)
  then have "plain_line l" "c \<noteq> single_mark" "c \<noteq> double_mark" "c \<noteq> backslash" by (auto simp: plain_line_def)
  with Cons show ?case
    by (cases "js_space c") (auto simp: add_char_def finishToken_def)
qed

lemma plain_trim: "plain_line l \<Longrightarrow> plain_line (trim l)"
  by (auto simp: plain_line_def trim_def dest!: set_dropWhileD)

lemma words_from_dropWhile: "words_from [] (dropWhile js_space l) = words_from [] l"
  by (induction l) auto

lemma words_from_spaces: "\<forall>c \<in> set sp. js_space c \<Longrightarrow> words_from w (l @ sp) = words_from w l"
proof (induction l arbitrary: w)
  case Nil
  have "words_from [] sp = []" if "\<forall>c \<in> set sp. js_space c" for sp using that by (induction sp) auto
  with Nil show ?case by (cases sp) auto
qed auto

lemma words_trim: "words (trim l) = words l"
proof -
  define d where "d = dropWhile js_space l"
  have "d = trim l @ rev (takeWhile js_space (rev d))"
    unfolding trim_def d_def by (metis rev_append rev_rev_ident takeWhile_dropWhile_id)
  then have "words_from [] d = words_from [] (trim l)"
    using words_from_spaces [of "rev (takeWhile js_space (rev d))" "[]" "trim l"]
    by (metis set_rev set_takeWhileD)
  then show ?thesis unfolding words_def d_def by (simp add: words_from_dropWhile)
qed

lemma words_not_empty: "w \<in> set (words_from v l) \<Longrightarrow> w \<noteq> []"
  by (induction v l rule: words_from.induct) (auto split: if_splits)

text \<open>
  A command line without quotes and backslashes is split into its words, and nothing in it is ever
  interpreted: there is no operator, no expansion and no second command. It is refused exactly when it has no
  word at all.
\<close>

theorem plain_command_line:
  assumes "plain_line l"
  shows "parseVerificationCommand l = (if words l = [] then Inl ''Verification command cannot be empty'' else Inr (words l))"
proof -
  have ne: "words_from v cs \<noteq> []" if "v \<noteq> []" for v cs using that by (induction v cs rule: words_from.induct) auto
  obtain s where s: "scan (trim l) new_scanner = Inr s"
    "finishToken s = \<lparr>sn_argv = words (trim l), sn_token = [], sn_tokenStarted = False, sn_quote = None\<rparr>"
    using scan_plain [OF plain_trim [OF assms], of new_scanner]
    by (auto simp: new_scanner_def words_def dest: map_sum_InrD)
  then have q: "sn_quote s = None" using scan_quote [OF s(1)] by simp
  have "\<not> js_space (hd (trim l))" if "trim l \<noteq> []"
    using that hd_dropWhile_rev [of js_space l] unfolding trim_def [symmetric] by (metis hd_dropWhile)
  then have e: "trim l = [] \<longleftrightarrow> words (trim l) = []"
    using ne by (cases "trim l") (auto simp: words_def)
  have "hd (words l) \<noteq> []" if "words l \<noteq> []"
    using that words_not_empty [of "hd (words l)" "[]" l] by (simp add: words_def)
  with s q e show ?thesis by (simp add: parseVerificationCommand_def Let_def words_trim)
qed

theorem plain_command_line_witness:
  "parseVerificationCommand ''  npm test && rm -rf / '' = Inr [''npm'', ''test'', ''&&'', ''rm'', ''-rf'', ''/'']"
proof -
  have "plain_line ''  npm test && rm -rf / ''" by (simp add: plain_line_def)
  moreover have "words ''  npm test && rm -rf / '' = [''npm'', ''test'', ''&&'', ''rm'', ''-rf'', ''/'']"
    by (simp add: words_def js_space_def)
  ultimately show ?thesis using plain_command_line [of "''  npm test && rm -rf / ''"] by simp
qed

end
