(* ===== verification/ProcessRecovery.thy ===== *)
theory ProcessRecovery
  imports Supervisor CommandLine
begin

text \<open>
  Recovery of process groups left behind by a crashed worker, and probes of executables
  (\<open>src/adapters/process-supervisor.ts\<close>, second half).

  \<open>terminateVerifiedProcessGroup\<close> reads the process table, looks for the run's token in the environment of a
  member of the group, and only then signals the group. What \<open>ps\<close> prints, what the system answers and the clock
  are the environment. The loops that wait for a group or a tree to exit may in principle never end:
  \<open>wait_loop\<close> returns \<open>None\<close> then, and it is proved that it does end when the clock advances.
\<close>

subsection \<open>Waiting for an exit\<close>

text \<open>\<open>while (alive() && Date.now() < deadline) sleep\<close>: the k-th round sees \<open>alive k\<close> and \<open>clock k\<close>.\<close>

partial_function (option) wait_loop :: "(nat \<Rightarrow> bool) \<Rightarrow> (nat \<Rightarrow> int) \<Rightarrow> int \<Rightarrow> nat \<Rightarrow> nat option" where
  "wait_loop alive clock deadline k =
     (if alive k \<and> clock k < deadline then wait_loop alive clock deadline (Suc k) else Some k)"

lemmas wait_loop_unfold = wait_loop.simps

definition clock_advances :: "(nat \<Rightarrow> int) \<Rightarrow> bool" where
  "clock_advances clock \<longleftrightarrow> (\<forall>k. clock k < clock (Suc k))"

lemma wait_loop_returns:
  assumes "clock_advances clock"
  shows "\<exists>k'. wait_loop alive clock deadline k = Some k' \<and> k \<le> k' \<and> int k' \<le> int k + max 0 (deadline - clock k) \<and>
    (alive k' \<longrightarrow> deadline \<le> clock k')"
proof (induction "nat (deadline - clock k)" arbitrary: k rule: less_induct)
  case less
  show ?case
  proof (cases "alive k \<and> clock k < deadline")
    case False
    then show ?thesis by (subst wait_loop_unfold) auto
  next
    case True
    have adv: "clock k < clock (Suc k)" using assms by (simp add: clock_advances_def)
    with True have "nat (deadline - clock (Suc k)) < nat (deadline - clock k)" by simp
    from less [OF this] obtain k' where k': "wait_loop alive clock deadline (Suc k) = Some k'" "Suc k \<le> k'"
      "int k' \<le> int (Suc k) + max 0 (deadline - clock (Suc k))" "alive k' \<longrightarrow> deadline \<le> clock k'" by blast
    moreover have "wait_loop alive clock deadline k = Some k'" using True k'(1) by (subst wait_loop_unfold) simp
    ultimately show ?thesis using adv True by (intro exI [of _ k']) (auto simp: max_def split: if_splits)
  qed
qed

text \<open>\<open>#waitForTreeExit\<close> waits at most 250 ms; its caller then looks at the tree once more (\<open>tree_waited\<close>).\<close>

definition waitForTreeExit :: "(nat \<Rightarrow> bool) \<Rightarrow> (nat \<Rightarrow> int) \<Rightarrow> nat \<Rightarrow> nat option" where
  "waitForTreeExit alive clock k = wait_loop alive clock (clock k + 250) k"

definition waitForGroupExit :: "(nat \<Rightarrow> bool) \<Rightarrow> (nat \<Rightarrow> int) \<Rightarrow> int \<Rightarrow> nat \<Rightarrow> (bool \<times> nat) option" where
  "waitForGroupExit alive clock timeoutMs k = (case wait_loop alive clock (clock k + timeoutMs) k of
     None \<Rightarrow> None | Some k' \<Rightarrow> Some (\<not> alive (Suc k'), Suc (Suc k')))"

lemma waitForGroupExit_returns: "clock_advances clock \<Longrightarrow> \<exists>r. waitForGroupExit alive clock timeoutMs k = Some r"
  using wait_loop_returns [of clock alive "clock k + timeoutMs" k] by (auto simp: waitForGroupExit_def)

subsection \<open>Output of a command\<close>

definition CAPTURE_LIMIT :: nat where
  "CAPTURE_LIMIT = 2 * 1024 * 1024"

datatype command_event = CData string | CError string | CClose "int option"

fun captureCommand :: "string \<Rightarrow> command_event list \<Rightarrow> string \<Rightarrow> (string + string) option" where
  "captureCommand command [] out = None"
| "captureCommand command (CData chunk # es) out = captureCommand command es
     (if length out \<ge> CAPTURE_LIMIT then out else out @ take (CAPTURE_LIMIT - length out) chunk)"
| "captureCommand command (CError m # es) out = Some (Inl m)"
| "captureCommand command (CClose code # es) out = Some (if code = Some 0 then Inr out
     else Inl (command @ '' exited with code '' @ (case code of None \<Rightarrow> ''null'' | Some c \<Rightarrow> show_int c)))"

lemma captureCommand_data:
  "captureCommand command (map CData chunks @ CClose (Some 0) # es) (take CAPTURE_LIMIT out) =
     Some (Inr (take CAPTURE_LIMIT (out @ concat chunks)))"
proof (induction chunks arbitrary: out)
  case (Cons c chunks)
  have "(if length (take CAPTURE_LIMIT out) \<ge> CAPTURE_LIMIT then take CAPTURE_LIMIT out
      else take CAPTURE_LIMIT out @ take (CAPTURE_LIMIT - length (take CAPTURE_LIMIT out)) c) = take CAPTURE_LIMIT (out @ c)"
    by (auto simp: min_def)
  then show ?case using Cons.IH [of "out @ c"] by simp
qed simp

subsection \<open>The process table\<close>

text \<open>\<open>split(/\r?\n/)\<close>\<close>

fun split_lines :: "string \<Rightarrow> string \<Rightarrow> string list" where
  "split_lines w [] = [w]"
| "split_lines w (c # cs) = (if c = CHR 0x0A then w # split_lines [] cs
     else if c = CHR 0x0D \<and> cs \<noteq> [] \<and> hd cs = CHR 0x0A then w # split_lines [] (tl cs)
     else split_lines (w @ [c]) cs)"

text \<open>\<open>trim().split(/\s+/)\<close>\<close>

definition fields :: "string \<Rightarrow> string list" where
  "fields line = (if trim line = [] then [[]] else words (trim line))"

text \<open>
  \<open>Number\<close> on the columns \<open>ps\<close> prints: the empty text is 0, a decimal integer is its value. Other
  numerals (fractions, exponents, radix prefixes) do not occur there and are \<open>None\<close>, as is no number at all.
\<close>

definition is_decimal :: "char \<Rightarrow> bool" where
  "is_decimal c \<longleftrightarrow> (let n = (of_char c :: nat) in 48 \<le> n \<and> n \<le> 57)"

definition digits_value :: "string \<Rightarrow> int" where
  "digits_value ds = foldl (\<lambda>v c. 10 * v + (int (of_char c) - 48)) 0 ds"

definition number :: "string \<Rightarrow> int option" where
  "number s = (if s = [] then Some 0
     else if list_all is_decimal s then Some (digits_value s)
     else if hd s = CHR ''-'' \<and> tl s \<noteq> [] \<and> list_all is_decimal (tl s) then Some (- digits_value (tl s))
     else if hd s = CHR ''+'' \<and> tl s \<noteq> [] \<and> list_all is_decimal (tl s) then Some (digits_value (tl s))
     else None)"

definition group_members :: "string \<Rightarrow> int \<Rightarrow> int list" where
  "group_members listing pid =
    (let rows = map (\<lambda>line. map number (fields line)) (split_lines [] listing);
         mine = filter (\<lambda>parts. 2 \<le> length parts \<and> parts ! 1 = Some pid) rows
     in filter (\<lambda>m. is_safe_int m \<and> 1 < m) (List.map_filter (\<lambda>parts. parts ! 0) mine))"

subsection \<open>Verified termination\<close>

record group_env =
  ge_win32 :: bool
  ge_self :: int
  ge_listing :: "string + string"
  ge_environment :: "int \<Rightarrow> string + string"
  ge_term :: kill_answer
  ge_kill :: kill_answer
  ge_error :: string
  ge_alive :: "nat \<Rightarrow> bool"
  ge_clock :: "nat \<Rightarrow> int"

datatype recovery_status = Terminated | NotFound | Unverified | RecoveryFailed

record recovered =
  rv_runId :: string
  rv_pid :: int
  rv_status :: recovery_status
  rv_detail :: string

definition CONTROL_RUN_TOKEN_ENV :: string where
  "CONTROL_RUN_TOKEN_ENV = ''ACC_CONTROL_RUN_ID''"

text \<open>The members are asked in turn; one that cannot be inspected is skipped.\<close>

definition carries_token :: "group_env \<Rightarrow> string \<Rightarrow> int \<Rightarrow> bool" where
  "carries_token env token m = (case ge_environment env m of Inl _ \<Rightarrow> False | Inr e \<Rightarrow> contains token e)"

definition kill_failed :: "group_env \<Rightarrow> string \<Rightarrow> int \<Rightarrow> kill_answer \<Rightarrow> recovered" where
  "kill_failed env runId pid answer = (if answer = NoSuchProcess
     then \<lparr>rv_runId = runId, rv_pid = pid, rv_status = NotFound, rv_detail = ''Process group exited during recovery.''\<rparr>
     else \<lparr>rv_runId = runId, rv_pid = pid, rv_status = RecoveryFailed, rv_detail = ge_error env\<rparr>)"

text \<open>The signals, with the list of those sent.\<close>

definition signal_group :: "group_env \<Rightarrow> string \<Rightarrow> int \<Rightarrow> int \<Rightarrow> (recovered \<times> signal list) option" where
  "signal_group env runId pid graceMs =
    (let terminated = \<lparr>rv_runId = runId, rv_pid = pid, rv_status = Terminated, rv_detail = ''Verified process group terminated.''\<rparr> in
     if ge_term env \<noteq> Delivered then Some (kill_failed env runId pid (ge_term env), [SIGTERM])
     else (case waitForGroupExit (ge_alive env) (ge_clock env) graceMs 0 of
       None \<Rightarrow> None
     | Some (True, _) \<Rightarrow> Some (terminated, [SIGTERM])
     | Some (False, k) \<Rightarrow>
         if ge_kill env \<noteq> Delivered then Some (kill_failed env runId pid (ge_kill env), [SIGTERM, SIGKILL])
         else (case waitForGroupExit (ge_alive env) (ge_clock env) 500 k of
           None \<Rightarrow> None
         | Some (True, _) \<Rightarrow> Some (terminated, [SIGTERM, SIGKILL])
         | Some (False, _) \<Rightarrow> Some (\<lparr>rv_runId = runId, rv_pid = pid, rv_status = RecoveryFailed,
             rv_detail = ''Verified group remained live after SIGKILL.''\<rparr>, [SIGTERM, SIGKILL]))))"

definition terminateVerifiedProcessGroup ::
  "group_env \<Rightarrow> string \<Rightarrow> int \<Rightarrow> int option \<Rightarrow> (recovered \<times> signal list) option" where
  "terminateVerifiedProcessGroup env runId pid graceMs =
    (let unverified = (\<lambda>detail. Some (\<lparr>rv_runId = runId, rv_pid = pid, rv_status = Unverified, rv_detail = detail\<rparr>, [])) in
     if ge_win32 env then unverified ''Verified process-group recovery is not available on Windows.''
     else if \<not> is_safe_int pid \<or> pid \<le> 1 \<or> pid = ge_self env then unverified ''Persisted PID is unsafe.''
     else (case ge_listing env of
       Inl m \<Rightarrow> unverified (''Could not inspect process group: '' @ m)
     | Inr listing \<Rightarrow> (let members = group_members listing pid in
         if members = [] then Some (\<lparr>rv_runId = runId, rv_pid = pid, rv_status = NotFound,
             rv_detail = ''Process group is no longer live.''\<rparr>, [])
         else if ge_self env \<in> set members then unverified ''Process group contains the worker.''
         else if \<not> list_ex (carries_token env (CONTROL_RUN_TOKEN_ENV @ ''='' @ runId)) members
         then unverified ''No live group member carried the persisted run token.''
         else signal_group env runId pid (default_to 2000 graceMs))))"

text \<open>
  C27 Recovery never signals a process group it has not verified: when it sends a signal, the group is a safe one
  (not init, not the worker's own, not one with the worker in it) and a live member of it carries the token of
  exactly this run. The first signal is SIGTERM, and at most one SIGKILL follows.
\<close>

theorem signals_only_verified_groups:
  assumes "terminateVerifiedProcessGroup env runId pid graceMs = Some (r, sent)" and "sent \<noteq> []"
  shows "1 < pid \<and> pid \<noteq> ge_self env \<and> sent \<in> {[SIGTERM], [SIGTERM, SIGKILL]} \<and>
    (\<exists>listing m e. ge_listing env = Inr listing \<and> m \<in> set (group_members listing pid) \<and>
       ge_self env \<notin> set (group_members listing pid) \<and> ge_environment env m = Inr e \<and>
       contains (CONTROL_RUN_TOKEN_ENV @ ''='' @ runId) e)"
proof -
  let ?token = "CONTROL_RUN_TOKEN_ENV @ ''='' @ runId"
  obtain listing where l: "ge_listing env = Inr listing" "1 < pid" "pid \<noteq> ge_self env"
      "ge_self env \<notin> set (group_members listing pid)"
      "list_ex (carries_token env ?token) (group_members listing pid)"
      "signal_group env runId pid (default_to 2000 graceMs) = Some (r, sent)"
    using assms by (auto simp: terminateVerifiedProcessGroup_def Let_def split: if_splits sum.splits)
  then have "sent \<in> {[SIGTERM], [SIGTERM, SIGKILL]}"
    by (auto simp: signal_group_def Let_def split: if_splits option.splits bool.splits)
  moreover obtain m where "m \<in> set (group_members listing pid)" "carries_token env ?token m"
    using l(5) by (auto simp: list_ex_iff)
  moreover have "\<exists>e. ge_environment env m = Inr e \<and> contains ?token e" if "carries_token env ?token m" for m
    using that unfolding carries_token_def by (auto split: sum.splits)
  ultimately show ?thesis using l(1-4) by blast
qed

text \<open>
  C28 Recovery always comes to an end: with a clock that advances from one look at it to the next, both waits run
  out, whatever the processes of the group do.
\<close>

theorem recovery_terminates:
  assumes "clock_advances (ge_clock env)"
  shows "\<exists>r sent. terminateVerifiedProcessGroup env runId pid graceMs = Some (r, sent)"
proof -
  have "\<exists>r sent. signal_group env runId pid g = Some (r, sent)" for g
  proof -
    obtain b k where 1: "waitForGroupExit (ge_alive env) (ge_clock env) g 0 = Some (b, k)"
      using waitForGroupExit_returns [OF assms] by (metis surj_pair)
    obtain b' k' where 2: "waitForGroupExit (ge_alive env) (ge_clock env) 500 k = Some (b', k')"
      using waitForGroupExit_returns [OF assms] by (metis surj_pair)
    show ?thesis by (cases b; cases b') (simp_all add: signal_group_def Let_def 1 2)
  qed
  then show ?thesis by (simp add: terminateVerifiedProcessGroup_def Let_def split: sum.split)
qed

subsection \<open>A worker that crashed\<close>

text \<open>The process table shows a group of two members; one of them carries the token of the run.\<close>

definition crashed_env :: group_env where
  "crashed_env = \<lparr>ge_win32 = False, ge_self = 7,
     ge_listing = Inr (''   7     7'' @ newline @ '' 812   812'' @ newline @ '' 813   812'' @ newline),
     ge_environment = (\<lambda>m. if m = 813 then Inr ''node agent.js ACC_CONTROL_RUN_ID=run_1 CI=1'' else Inl ''gone''),
     ge_term = Delivered, ge_kill = Delivered, ge_error = [], ge_alive = (\<lambda>k. k < 2), ge_clock = (\<lambda>k. 25 * int k)\<rparr>"

lemma crashed_members: "group_members (''   7     7'' @ newline @ '' 812   812'' @ newline @ '' 813   812'' @ newline) 812 = [812, 813]"
  by code_simp

lemma crashed_clock: "clock_advances (ge_clock crashed_env)"
  by (simp add: clock_advances_def crashed_env_def)

lemma crashed_wait: "waitForGroupExit (ge_alive crashed_env) (ge_clock crashed_env) 2000 0 = Some (True, 4)"
  by (simp add: waitForGroupExit_def crashed_env_def wait_loop_unfold)

lemma crashed_recovery: "terminateVerifiedProcessGroup crashed_env ''run_1'' 812 None =
    Some (\<lparr>rv_runId = ''run_1'', rv_pid = 812, rv_status = Terminated, rv_detail = ''Verified process group terminated.''\<rparr>, [SIGTERM])"
proof -
  have "carries_token crashed_env (CONTROL_RUN_TOKEN_ENV @ ''='' @ ''run_1'') 813"
    by (simp add: carries_token_def crashed_env_def) code_simp
  then have "list_ex (carries_token crashed_env (CONTROL_RUN_TOKEN_ENV @ ''='' @ ''run_1'')) [812, 813]" by simp
  moreover have "ge_listing crashed_env = Inr (''   7     7'' @ newline @ '' 812   812'' @ newline @ '' 813   812'' @ newline)"
    "ge_self crashed_env = 7" "ge_term crashed_env = Delivered" "\<not> ge_win32 crashed_env"
    by (simp_all add: crashed_env_def)
  ultimately show ?thesis using crashed_members crashed_wait
    by (simp add: terminateVerifiedProcessGroup_def signal_group_def default_to_def is_safe_int_def max_safe_int_def Let_def)
qed

theorem signals_only_verified_groups_witness:
  "\<exists>r listing m. terminateVerifiedProcessGroup crashed_env ''run_1'' 812 None = Some (r, [SIGTERM]) \<and>
     ge_listing crashed_env = Inr listing \<and> m \<in> set (group_members listing 812)"
  using signals_only_verified_groups [OF crashed_recovery] crashed_recovery by fastforce

theorem recovery_terminates_witness:
  "\<exists>r sent. terminateVerifiedProcessGroup crashed_env ''run_2'' 812 (Some 50) = Some (r, sent)"
  by (rule recovery_terminates [OF crashed_clock])

subsection \<open>Probing an executable\<close>

text \<open>\<open>probeExecutable\<close>: the first outcome (exit, error or timeout) settles the probe; later ones are ignored.\<close>

record probe_result =
  pb_available :: bool
  pb_version :: "string option"
  pb_reason :: "string option"
  pb_stdout :: string
  pb_stderr :: string

record probe =
  pr_stdout :: string
  pr_stderr :: string
  pr_result :: "probe_result option"

datatype probe_event = ProbeOut string | ProbeErr string | ProbeError string | ProbeTimeout | ProbeClose "int option"

definition finish_probe :: "probe_result \<Rightarrow> probe \<Rightarrow> probe" where
  "finish_probe res p = p\<lparr>pr_result := coalesce (pr_result p) (Some res)\<rparr>"

definition unavailable :: "string \<Rightarrow> probe \<Rightarrow> probe_result" where
  "unavailable reason p = \<lparr>pb_available = False, pb_version = None, pb_reason = Some reason,
     pb_stdout = pr_stdout p, pb_stderr = pr_stderr p\<rparr>"

definition first_text :: "string list \<Rightarrow> string" where
  "first_text xs = (case filter (\<lambda>x. x \<noteq> []) xs of [] \<Rightarrow> last xs | x # _ \<Rightarrow> x)"

definition probe_closed :: "int option \<Rightarrow> probe \<Rightarrow> probe_result" where
  "probe_closed code p = \<lparr>pb_available = (code = Some 0),
     pb_version = (if code = Some 0 then Some (takeWhile (\<lambda>c. c \<noteq> CHR 0x0A) (first_text [trim (pr_stdout p), trim (pr_stderr p)])) else None),
     pb_reason = (if code = Some 0 then None else Some (first_text [trim (pr_stderr p), trim (pr_stdout p),
       ''Exited with code '' @ (case code of None \<Rightarrow> ''null'' | Some c \<Rightarrow> show_int c)])),
     pb_stdout = pr_stdout p, pb_stderr = pr_stderr p\<rparr>"

fun on_probe_event :: "int \<Rightarrow> probe_event \<Rightarrow> probe \<Rightarrow> probe" where
  "on_probe_event timeoutMs (ProbeOut c) p = (if length (pr_stdout p) < 64000 then p\<lparr>pr_stdout := pr_stdout p @ c\<rparr> else p)"
| "on_probe_event timeoutMs (ProbeErr c) p = (if length (pr_stderr p) < 64000 then p\<lparr>pr_stderr := pr_stderr p @ c\<rparr> else p)"
| "on_probe_event timeoutMs (ProbeError m) p = finish_probe (unavailable m p) p"
| "on_probe_event timeoutMs ProbeTimeout p =
     finish_probe (unavailable (''Timed out after '' @ show_int timeoutMs @ ''ms'') p) p"
| "on_probe_event timeoutMs (ProbeClose code) p = finish_probe (probe_closed code p) p"

definition probeExecutable :: "int \<Rightarrow> probe_event list \<Rightarrow> probe_result option" where
  "probeExecutable timeoutMs es = pr_result (fold (on_probe_event timeoutMs) es \<lparr>pr_stdout = [], pr_stderr = [], pr_result = None\<rparr>)"

definition settles :: "probe_event \<Rightarrow> bool" where
  "settles e = (case e of ProbeOut _ \<Rightarrow> False | ProbeErr _ \<Rightarrow> False | _ \<Rightarrow> True)"

lemma probe_settled: "pr_result p = Some r \<Longrightarrow> pr_result (fold (on_probe_event t) es p) = Some r"
proof (induction es arbitrary: p)
  case (Cons e es)
  then have "pr_result (on_probe_event t e p) = Some r" by (cases e) (auto simp: finish_probe_def coalesce_def)
  with Cons.IH show ?case by simp
qed simp

lemma probe_open: "\<not> list_ex settles es \<Longrightarrow> pr_result (fold (on_probe_event t) es p) = pr_result p"
proof (induction es arbitrary: p)
  case (Cons e es)
  then have "pr_result (on_probe_event t e p) = pr_result p" by (cases e) (auto simp: settles_def)
  with Cons show ?case by simp
qed simp

text \<open>The first outcome decides, and an executable is available exactly when that outcome is exit code 0.\<close>

lemma probe_first_outcome:
  assumes "\<not> list_ex settles earlier" and "settles e"
  shows "map_option pb_available (probeExecutable t (earlier @ e # later)) = Some (e = ProbeClose (Some 0))"
proof -
  define p where "p = fold (on_probe_event t) earlier \<lparr>pr_stdout = [], pr_stderr = [], pr_result = None\<rparr>"
  have "pr_result p = None" using probe_open [OF assms(1)] by (simp add: p_def)
  with assms(2) obtain r where "pr_result (on_probe_event t e p) = Some r" "pb_available r = (e = ProbeClose (Some 0))"
    by (cases e) (auto simp: finish_probe_def coalesce_def settles_def unavailable_def probe_closed_def)
  then show ?thesis by (simp add: probeExecutable_def p_def [symmetric] probe_settled)
qed

end
