(* ===== verification/Verifier.thy ===== *)
theory Verifier
  imports CoordState CanonicalJson CommandLine Supervisor
begin

text \<open>
  The process verifier (\<open>ProcessTaskVerifier\<close>, \<open>src/verifier.ts\<close>): it splits the command line, runs the
  command under the process supervisor in the worktree, writes one log and reports the outcome. Its own state
  is which run is being verified under which supervisor id, and the runs that were stopped before they started.

  The supervisor, the artifact store and the file system are operations on a world; \<open>ve_other\<close> is what else
  happens while the verifier awaits them (other verifications, \<open>stop\<close>).
\<close>

record 'w verifier =
  vf_world :: 'w
  vf_active :: "(string \<times> string) list"
  vf_stopBeforeStart :: "string list"
  vf_tick :: nat

type_synonym ('w, 'a) vop = "(string, 'w verifier, 'a) eff"

record verification_request =
  vq_taskId :: string
  vq_runId :: string
  vq_commandLine :: string
  vq_workingDirectory :: string
  vq_timeoutMs :: "int option"

record start_request =
  sq_id :: string
  sq_command :: string
  sq_args :: "string list"
  sq_cwd :: string
  sq_stdoutPath :: string
  sq_stderrPath :: string
  sq_env :: "(string \<times> string) list"
  sq_timeoutMs :: "int option"
  sq_maxOutputBytes :: "int option"

record 'w verifier_env =
  ve_timeoutMs :: "int option"
  ve_maxOutputBytes :: "int option"
  ve_ci :: "string option"
  ve_uuid :: "nat \<Rightarrow> string"
  ve_now :: "nat \<Rightarrow> string"
  ve_prepareRunDirectory :: "string \<Rightarrow> string \<Rightarrow> (string, 'w, string) eff"
  ve_start :: "start_request \<Rightarrow> (string, 'w, int option \<times> string) eff"
  ve_stop :: "string \<Rightarrow> (string, 'w, unit) eff"
  ve_collect :: "string \<Rightarrow> (string, 'w, supervised_result) eff"
  ve_readFile :: "string \<Rightarrow> (string, 'w, string) eff"
  ve_writeText :: "artifact_write \<Rightarrow> (string, 'w, artifact_input) eff"
  ve_rm :: "string \<Rightarrow> (string, 'w, unit) eff"
  ve_other :: "nat \<Rightarrow> 'w verifier \<Rightarrow> 'w verifier"

definition vpause :: "'w verifier_env \<Rightarrow> ('w, unit) vop" where
  "vpause env = update (\<lambda>s. (ve_other env (vf_tick s) s)\<lparr>vf_tick := Suc (vf_tick s)\<rparr>)"

definition in_world :: "(string, 'w, 'a) eff \<Rightarrow> ('w, 'a) vop" where
  "in_world m s = (case m (vf_world s) of (r, w) \<Rightarrow> (r, s\<lparr>vf_world := w\<rparr>))"

definition vawait :: "'w verifier_env \<Rightarrow> (string, 'w, 'a) eff \<Rightarrow> ('w, 'a) vop" where
  "vawait env m = andThen (vpause env) (\<lambda>_. with_cleanup (in_world m) (vpause env))"

definition draw :: "(nat \<Rightarrow> string) \<Rightarrow> ('w, string) vop" where
  "draw f s = (Inr (f (vf_tick s)), s\<lparr>vf_tick := Suc (vf_tick s)\<rparr>)"

text \<open>\<open>stopBeforeStart.delete(runId)\<close>\<close>

definition take_early_stop :: "string \<Rightarrow> ('w, bool) vop" where
  "take_early_stop runId s = (Inr (runId \<in> set (vf_stopBeforeStart s)),
     s\<lparr>vf_stopBeforeStart := filter (\<lambda>r. r \<noteq> runId) (vf_stopBeforeStart s)\<rparr>)"

definition no_process :: "terminal_status \<Rightarrow> string option \<Rightarrow> string \<Rightarrow> string \<Rightarrow> string \<Rightarrow> string \<Rightarrow> string \<Rightarrow> supervised_result" where
  "no_process status error supervisorId startedAt finishedAt stdoutPath stderrPath =
     \<lparr>sr_id = supervisorId, sr_status = status, sr_pid = None, sr_startedAt = startedAt, sr_finishedAt = finishedAt,
      sr_stdoutPath = stdoutPath, sr_stderrPath = stderrPath, sr_exitCode = None, sr_signal = None, sr_error = error\<rparr>"

definition start_spec :: "'w verifier_env \<Rightarrow> verification_request \<Rightarrow> string list \<Rightarrow> string \<Rightarrow> string \<Rightarrow> string \<Rightarrow> start_request" where
  "start_spec env req argv supervisorId stdoutPath stderrPath =
     \<lparr>sq_id = supervisorId, sq_command = hd argv, sq_args = tl argv, sq_cwd = vq_workingDirectory req,
      sq_stdoutPath = stdoutPath, sq_stderrPath = stderrPath,
      sq_env = [(''ACC_CONTROL_RUN_ID'', vq_runId req), (''CI'', default_to ''1'' (ve_ci env)), (''GIT_TERMINAL_PROMPT'', ''0'')],
      sq_timeoutMs = coalesce (vq_timeoutMs req) (ve_timeoutMs env), sq_maxOutputBytes = ve_maxOutputBytes env\<rparr>"

text \<open>The \<open>try\<close> around the process: start, tell the caller (and stop the process if that throws), collect.\<close>

definition supervise :: "'w verifier_env \<Rightarrow> start_request \<Rightarrow> (int option \<times> string \<Rightarrow> ('w, unit) vop) \<Rightarrow> ('w, supervised_result) vop" where
  "supervise env spec onStarted =
     andThen (vawait env (ve_start env spec)) (\<lambda>started.
     andThen (attempt (onStarted started) :: ('w, string + unit) vop) (\<lambda>told. case told of
       Inl e \<Rightarrow> andThen (attempt (vawait env (ve_stop env (sq_id spec))) :: ('w, string + unit) vop) (\<lambda>_. fail e)
     | Inr _ \<Rightarrow> vawait env (ve_collect env (sq_id spec))))"

definition run_process :: "'w verifier_env \<Rightarrow> string \<Rightarrow> start_request \<Rightarrow> (int option \<times> string \<Rightarrow> ('w, unit) vop) \<Rightarrow> string \<Rightarrow> ('w, supervised_result) vop" where
  "run_process env runId spec onStarted fallbackStartedAt =
     andThen (update (vf_active_update (map_set runId (sq_id spec)))) (\<lambda>_.
     with_cleanup
       (andThen (attempt (supervise env spec onStarted) :: ('w, string + supervised_result) vop) (\<lambda>r. case r of
          Inl e \<Rightarrow> andThen (draw (ve_now env)) (\<lambda>now.
            ok (no_process Failed (Some e) (sq_id spec) fallbackStartedAt now (sq_stdoutPath spec) (sq_stderrPath spec)))
        | Inr res \<Rightarrow> ok res))
       (update (vf_active_update (map_delete runId))))"

fun terminal_name :: "terminal_status \<Rightarrow> string" where
  "terminal_name Succeeded = ''succeeded''"
| "terminal_name Failed = ''failed''"
| "terminal_name Stopped = ''stopped''"

definition or_empty_marker :: "string \<Rightarrow> string" where
  "or_empty_marker s = (if s = [] then ''(empty)'' else s)"

definition log_body :: "verification_request \<Rightarrow> string list \<Rightarrow> supervised_result \<Rightarrow> string \<Rightarrow> string \<Rightarrow> string" where
  "log_body req argv res stdout stderr = join newline [
     ''# Independent verification'', [],
     ''Command argv: '' @ ser (JArr (map JStr argv)),
     ''Working directory: '' @ vq_workingDirectory req,
     ''Status: '' @ terminal_name (sr_status res),
     ''Started: '' @ sr_startedAt res,
     ''Finished: '' @ sr_finishedAt res,
     ''Exit code: '' @ (case sr_exitCode res of None \<Rightarrow> ''n/a'' | Some n \<Rightarrow> show_int n),
     ''Signal: '' @ default_to ''n/a'' (sr_signal res),
     ''Error: '' @ default_to ''n/a'' (sr_error res), [],
     ''## stdout'', or_empty_marker stdout, [], ''## stderr'', or_empty_marker stderr, []]"

definition verification_outcome :: "terminal_status \<Rightarrow> verification_status" where
  "verification_outcome status = (if status = Succeeded then VSucceeded else if status = Stopped then VStopped else VFailed)"

text \<open>A file that cannot be read is an empty one.\<close>

definition read_or_empty :: "'w verifier_env \<Rightarrow> string \<Rightarrow> ('w, string) vop" where
  "read_or_empty env path = andThen (attempt (vawait env (ve_readFile env path)) :: ('w, string + string) vop)
     (\<lambda>r. ok (case r of Inl _ \<Rightarrow> [] | Inr t \<Rightarrow> t))"

definition report :: "'w verifier_env \<Rightarrow> verification_request \<Rightarrow> string list \<Rightarrow> string \<Rightarrow> string \<Rightarrow> supervised_result \<Rightarrow> ('w, verification_result) vop" where
  "report env req argv stdoutPath stderrPath res =
     andThen (read_or_empty env stdoutPath) (\<lambda>stdout.
     andThen (read_or_empty env stderrPath) (\<lambda>stderr.
     andThen (vawait env (ve_writeText env \<lparr>aw_taskId = vq_taskId req, aw_runId = vq_runId req, aw_kind = KTestLog,
        aw_name = ''test-log.txt'', aw_data = log_body req argv res stdout stderr\<rparr>)) (\<lambda>artifact.
     andThen (vawait env (ve_rm env stdoutPath)) (\<lambda>_.
     andThen (vawait env (ve_rm env stderrPath)) (\<lambda>_.
     ok \<lparr>vr_status = verification_outcome (sr_status res), vr_command = hd argv, vr_args = tl argv,
        vr_startedAt = sr_startedAt res, vr_finishedAt = sr_finishedAt res, vr_exitCode = sr_exitCode res,
        vr_signal = sr_signal res, vr_error = sr_error res, vr_artifact = artifact\<rparr>)))))"

definition verify_in :: "'w verifier_env \<Rightarrow> verification_request \<Rightarrow> string list \<Rightarrow> string \<Rightarrow>
    (int option \<times> string \<Rightarrow> ('w, unit) vop) \<Rightarrow> ('w, verification_result) vop" where
  "verify_in env req argv artifactDir onStarted =
     andThen (draw (ve_uuid env)) (\<lambda>uuid.
     andThen (draw (ve_now env)) (\<lambda>fallbackStartedAt.
     let supervisorId = ''verification_'' @ uuid;
         stdoutPath = artifactDir @ ''/.verification.stdout.tmp'';
         stderrPath = artifactDir @ ''/.verification.stderr.tmp'' in
     andThen (take_early_stop (vq_runId req)) (\<lambda>stopped.
     andThen (if stopped
        then andThen (draw (ve_now env)) (\<lambda>now.
          ok (no_process Stopped None supervisorId fallbackStartedAt now stdoutPath stderrPath))
        else run_process env (vq_runId req) (start_spec env req argv supervisorId stdoutPath stderrPath) onStarted fallbackStartedAt)
     (report env req argv stdoutPath stderrPath))))"

definition verify :: "'w verifier_env \<Rightarrow> verification_request \<Rightarrow> (int option \<times> string \<Rightarrow> ('w, unit) vop) \<Rightarrow> ('w, verification_result) vop" where
  "verify env req onStarted =
     andThen (lift_res (parseVerificationCommand (vq_commandLine req))) (\<lambda>argv.
     andThen (vawait env (ve_prepareRunDirectory env (vq_taskId req) (vq_runId req))) (\<lambda>artifactDir.
     verify_in env req argv artifactDir onStarted))"

definition verifier_stop :: "'w verifier_env \<Rightarrow> string \<Rightarrow> ('w, unit) vop" where
  "verifier_stop env runId = andThen (query (\<lambda>s. map_of (vf_active s) runId)) (\<lambda>active. case active of
     None \<Rightarrow> update (vf_stopBeforeStart_update (List.insert runId))
   | Some supervisorId \<Rightarrow> (if supervisorId = [] then update (vf_stopBeforeStart_update (List.insert runId))
       else vawait env (ve_stop env supervisorId)))"

subsection \<open>What a verification reports\<close>

lemma attempt_Inr: "attempt m s = (Inr r, t) \<longleftrightarrow> m s = (r, t)"
  by (auto simp: attempt_def split: prod.splits)

lemma attempt_returns: "\<exists>r t. attempt m s = (Inr r, t)"
  by (auto simp: attempt_def split: prod.splits)

lemma cleanup_Inr: "with_cleanup m c s = (Inr x, t) \<Longrightarrow> \<exists>s'. m s = (Inr x, s')"
  by (auto simp: with_cleanup_def andThen_Inr attempt_Inr lift_res_def)

lemma vawait_Inr: "vawait env m s = (Inr x, t) \<Longrightarrow> \<exists>w w'. m w = (Inr x, w')"
  by (fastforce simp: vawait_def andThen_Inr in_world_def dest!: cleanup_Inr split: prod.splits)

lemma supervise_Inr:
  assumes "supervise env spec onStarted s = (Inr res, t)"
  shows "\<exists>w w'. ve_collect env (sq_id spec) w = (Inr res, w')"
  using assms by (auto simp: supervise_def andThen_Inr fail_def split_sum_ex dest: vawait_Inr)

lemma run_process_collected:
  assumes "run_process env runId spec onStarted now s = (Inr res, t)" and "sr_status res \<noteq> Failed"
  shows "\<exists>w w'. ve_collect env (sq_id spec) w = (Inr res, w')"
  using assms by (auto simp: run_process_def andThen_Inr attempt_Inr no_process_def ok_def split_sum_ex
      dest!: cleanup_Inr intro: supervise_Inr)

lemma update_Inr: "update f s = (Inr (), f s)"
  by (simp add: update_def)

text \<open>Whatever goes wrong with the process becomes a failed result; it is never an exception.\<close>

lemma cleanup_returns: "\<exists>x s'. m s = (Inr x, s') \<Longrightarrow> \<exists>x t. with_cleanup m (update f) s = (Inr x, t)"
  by (auto simp: with_cleanup_def andThen_def attempt_def update_def lift_res_def)

lemma run_process_returns: "\<exists>res t. run_process env runId spec onStarted now s = (Inr res, t)"
proof -
  have "\<exists>res t. andThen (attempt m) (\<lambda>r. case r of
      Inl e \<Rightarrow> andThen (draw (ve_now env)) (\<lambda>n. ok (f e n)) | Inr res \<Rightarrow> ok res) s = (Inr res, t)"
    for m :: "('a, supervised_result) vop" and f s
    by (cases "m s"; cases "fst (m s)") (auto simp: andThen_def attempt_def draw_def ok_def)
  then show ?thesis
    unfolding run_process_def andThen_step [OF update_Inr] by (intro cleanup_returns)
qed

lemma report_Inr:
  assumes "report env req argv p q res s = (Inr r, t)"
  shows "vr_status r = verification_outcome (sr_status res) \<and> vr_exitCode r = sr_exitCode res \<and>
    vr_command r = hd argv \<and> vr_args r = tl argv \<and>
    (\<exists>text w w'. ve_writeText env \<lparr>aw_taskId = vq_taskId req, aw_runId = vq_runId req, aw_kind = KTestLog,
        aw_name = ''test-log.txt'', aw_data = text\<rparr> w = (Inr (vr_artifact r), w'))"
  using assms by (fastforce simp: report_def andThen_Inr ok_def dest!: vawait_Inr)

text \<open>The two ways through the process: a pending stop, or a process.\<close>

lemma verify_in_cases:
  obtains sid n m p q u where "verify_in env req argv d onStarted s = report env req argv p q (no_process Stopped None sid n m p q) u"
    "vq_runId req \<in> set (vf_stopBeforeStart s)"
  | sid n p q u where "verify_in env req argv d onStarted s =
      andThen (run_process env (vq_runId req) (start_spec env req argv sid p q) onStarted n) (report env req argv p q) u"
    "vq_runId req \<notin> set (vf_stopBeforeStart s)"
  by (cases "vq_runId req \<in> set (vf_stopBeforeStart s)")
    (simp_all add: verify_in_def andThen_def draw_def take_early_stop_def Let_def ok_def)

lemma verify_Inr:
  "verify env req onStarted s = (Inr r, t) \<longleftrightarrow> (\<exists>argv d u. parseVerificationCommand (vq_commandLine req) = Inr argv \<and>
     vawait env (ve_prepareRunDirectory env (vq_taskId req) (vq_runId req)) s = (Inr d, u) \<and>
     verify_in env req argv d onStarted u = (Inr r, t))"
  by (auto simp: verify_def andThen_Inr lift_res_def)


text \<open>The active entry of a run is gone when its process is over, however it ended.\<close>

lemma run_process_releases: "vf_active (snd (run_process env runId spec onStarted now s)) = map_delete runId
    (vf_active (snd (run_process env runId spec onStarted now s)))"
  unfolding run_process_def
  by (auto simp: andThen_def update_def with_cleanup_def attempt_def lift_res_def map_delete_def split: prod.splits sum.splits)

text \<open>
  A stop that arrives before the process starts is not lost: the run is reported as stopped, and its process is
  never started, whatever the supervisor would have done with it.
\<close>

theorem stop_before_start:
  assumes "vq_runId req \<in> set (vf_stopBeforeStart s)"
    and "\<forall>n s. vq_runId req \<in> set (vf_stopBeforeStart s) \<longrightarrow> vq_runId req \<in> set (vf_stopBeforeStart (ve_other env n s))"
  shows "verify (env\<lparr>ve_start := start', ve_collect := collect'\<rparr>) req onStarted s = verify env req onStarted s \<and>
    (\<forall>r t. verify env req onStarted s = (Inr r, t) \<longrightarrow> vr_status r = VStopped)"
proof -
  let ?env = "env\<lparr>ve_start := start', ve_collect := collect'\<rparr>"
  let ?prep = "\<lambda>e. vawait e (ve_prepareRunDirectory e (vq_taskId req) (vq_runId req))"
  have same: "?prep ?env s = ?prep env s"
    by (simp add: vawait_def vpause_def)
  have rep: "report ?env = report env"
  proof -
    have "read_or_empty ?env p = read_or_empty env p" for p
      by (simp add: read_or_empty_def vawait_def vpause_def)
    then show ?thesis by (intro ext) (simp add: report_def vawait_def vpause_def)
  qed
  have kept: "vq_runId req \<in> set (vf_stopBeforeStart u)" if "?prep env s = (Inr d, u)" for d u
    using that assms by (auto simp: vawait_def vpause_def andThen_def update_def with_cleanup_def attempt_def
        lift_res_def in_world_def split: prod.splits sum.splits)
  have tail: "verify_in ?env req argv d onStarted u = verify_in env req argv d onStarted u"
    if "vq_runId req \<in> set (vf_stopBeforeStart u)" for argv d u
    using that rep by (simp add: verify_in_def andThen_def draw_def take_early_stop_def Let_def ok_def)
  have status: "vr_status r = VStopped"
    if "vq_runId req \<in> set (vf_stopBeforeStart u)" "verify_in env req argv d onStarted u = (Inr r, t)" for argv d u r t
  proof (cases rule: verify_in_cases [of env req argv d onStarted u])
    case (1 sid n m p q v)
    with that(2) have "report env req argv p q (no_process Stopped None sid n m p q) v = (Inr r, t)" by simp
    from report_Inr [OF this] show ?thesis by (simp add: no_process_def verification_outcome_def)
  qed (use that(1) in simp)
  have "verify ?env req onStarted s = verify env req onStarted s"
    using kept tail same [simplified] by (simp add: verify_def lift_res_def andThen_def split: sum.split prod.split)
  then show ?thesis using kept status by (auto simp: verify_Inr)
qed

subsection \<open>A verification that passes\<close>

definition passing_env :: "nat verifier_env" where
  "passing_env = \<lparr>ve_timeoutMs = None, ve_maxOutputBytes = None, ve_ci = None, ve_uuid = (\<lambda>_. ''u''), ve_now = (\<lambda>_. ''t''),
     ve_prepareRunDirectory = (\<lambda>_ _. ok ''/runs/r1''), ve_start = (\<lambda>_ w. (Inr (Some 42, ''t''), Suc w)), ve_stop = (\<lambda>_. ok ()),
     ve_collect = (\<lambda>sid. ok \<lparr>sr_id = sid, sr_status = Succeeded, sr_pid = Some 42, sr_startedAt = ''t'', sr_finishedAt = ''t'',
        sr_stdoutPath = [], sr_stderrPath = [], sr_exitCode = Some 0, sr_signal = None, sr_error = None\<rparr>),
     ve_readFile = (\<lambda>_. fail ''ENOENT''),
     ve_writeText = (\<lambda>a. ok \<lparr>ai_taskId = aw_taskId a, ai_runId = aw_runId a, ai_kind = aw_kind a, ai_path = ''/runs/r1/test-log.txt'',
        ai_relativePath = ''test-log.txt'', ai_sha256 = ''d'', ai_sizeBytes = 1, ai_metadata = None, ai_createdAt = ''t''\<rparr>),
     ve_rm = (\<lambda>_. ok ()), ve_other = (\<lambda>_ s. s)\<rparr>"

definition passing_request :: verification_request where
  "passing_request = \<lparr>vq_taskId = ''t1'', vq_runId = ''r1'', vq_commandLine = ''npm test'', vq_workingDirectory = ''/wt'', vq_timeoutMs = None\<rparr>"

definition new_verifier :: "string list \<Rightarrow> nat verifier" where
  "new_verifier pending = \<lparr>vf_world = 0, vf_active = [], vf_stopBeforeStart = pending, vf_tick = 0\<rparr>"

lemma npm_test: "parseVerificationCommand ''npm test'' = Inr [''npm'', ''test'']"
  by code_simp

lemmas verifier_run_defs = verify_def verify_in_def passing_env_def passing_request_def new_verifier_def npm_test run_process_def
  supervise_def report_def read_or_empty_def vawait_def vpause_def in_world_def with_cleanup_def attempt_def andThen_def
  update_def lift_res_def draw_def take_early_stop_def Let_def ok_def fail_def start_spec_def no_process_def verification_outcome_def

lemma verification_passes: "\<exists>r t. verify passing_env passing_request (\<lambda>_. ok ()) (new_verifier []) = (Inr r, t) \<and>
    vr_status r = VSucceeded \<and> vf_world t = 1"
  by (simp add: verifier_run_defs)


theorem stop_before_start_witness:
  "\<exists>r t. verify (passing_env\<lparr>ve_start := (\<lambda>_. fail ''spawned''), ve_collect := (\<lambda>_. fail ''collected'')\<rparr>) passing_request
      (\<lambda>_. ok ()) (new_verifier [''r1'']) = (Inr r, t) \<and> vr_status r = VStopped"
proof -
  have "vq_runId passing_request \<in> set (vf_stopBeforeStart (new_verifier [''r1'']))"
    by (simp add: passing_request_def new_verifier_def)
  moreover have "\<forall>n s. vq_runId passing_request \<in> set (vf_stopBeforeStart s) \<longrightarrow>
      vq_runId passing_request \<in> set (vf_stopBeforeStart (ve_other passing_env n s))"
    by (simp add: passing_env_def)
  moreover have "\<exists>r t. verify passing_env passing_request (\<lambda>_. ok ()) (new_verifier [''r1'']) = (Inr r, t)"
    by (simp add: verifier_run_defs)
  ultimately show ?thesis using stop_before_start by metis
qed

end
