(* ===== verification/Migrations.thy ===== *)
theory Migrations
  imports Prelude
begin

text \<open>
  The schema migrations of the node's database (\<open>src/migrations/\<close>): the forward-only runner, its row-loss check
  and backup decision, and the two migrations the program ships.

  A database is its contents \<open>'d\<close> (schema and rows) with its \<open>user_version\<close>. A statement outside a transaction
  is preceded by a pause in which other processes act (\<open>me_other\<close>); between \<open>BEGIN IMMEDIATE\<close> and \<open>COMMIT\<close> or
  \<open>ROLLBACK\<close> the write lock keeps them out. Which statements fail, and what the file system and the integrity
  check answer, is the environment's choice.
\<close>

subsection \<open>Migrations and databases\<close>

record 'd migration =
  mg_version :: int
  mg_name :: string
  mg_expectedRowDelta :: "(string \<times> int) list"
  mg_up :: "'d \<Rightarrow> string + 'd"

record 'd mdb =
  md_data :: 'd
  md_version :: int
  md_tick :: nat

datatype mig_error = VersionError int int | IntegrityError string | MigThrew string

type_synonym ('d, 'a) mop = "(mig_error, 'd mdb, 'a) eff"

record 'd mig_env =
  me_tables :: "'d \<Rightarrow> (string \<times> int) list"
  me_other :: "nat \<Rightarrow> 'd mdb \<Rightarrow> 'd mdb"
  me_begin :: "nat \<Rightarrow> string option"
  me_commit :: "nat \<Rightarrow> string option"
  me_integrity :: "nat \<Rightarrow> string option"
  me_fileSize :: "nat \<Rightarrow> int"
  me_mkdir :: "nat \<Rightarrow> string option"
  me_vacuum :: "nat \<Rightarrow> string option"
  me_now :: "nat \<Rightarrow> string"

record 'd mig_options =
  mo_accHome :: string
  mo_migrations :: "'d migration list"
  mo_databasePath :: "string option"

record mig_result =
  mr_fromVersion :: int
  mr_toVersion :: int
  mr_appliedVersions :: "int list"
  mr_backupPaths :: "string list"

subsection \<open>The checks\<close>

fun assert_from :: "int \<Rightarrow> 'd migration list \<Rightarrow> string + unit" where
  "assert_from previous [] = Inr ()"
| "assert_from previous (m # ms) =
    (if \<not> is_safe_int (mg_version m) \<or> mg_version m < 1
     then Inl (''Migration version must be a positive integer: '' @ show_int (mg_version m))
     else if mg_version m \<le> previous
     then Inl (''Migrations must be strictly ascending: '' @ show_int (mg_version m) @ '' after '' @ show_int previous)
     else if trim (mg_name m) = [] then Inl (''Migration '' @ show_int (mg_version m) @ '' requires a name'')
     else assert_from (mg_version m) ms)"

definition assertMigrationList :: "'d migration list \<Rightarrow> string + unit" where
  "assertMigrationList ms = assert_from 0 ms"

definition valid_version :: "int \<Rightarrow> bool" where
  "valid_version v \<longleftrightarrow> is_safe_int v \<and> 0 \<le> v"

text \<open>\<open>name NOT LIKE 'sqlite_%'\<close>, in which the underscore stands for any character.\<close>

definition internal_table :: "string \<Rightarrow> bool" where
  "internal_table name \<longleftrightarrow> map ascii_lower (take 6 name) = ''sqlite'' \<and> 7 \<le> length name"

definition countAllTables :: "'d mig_env \<Rightarrow> 'd \<Rightarrow> (string \<times> int) list" where
  "countAllTables env d = sort_key fst (filter (\<lambda>(name, n). \<not> internal_table name) (me_tables env d))"

fun assertNoRowsLost :: "(string \<times> int) list \<Rightarrow> (string \<times> int) list \<Rightarrow> 'd migration \<Rightarrow> string + unit" where
  "assertNoRowsLost [] after_counts m = Inr ()"
| "assertNoRowsLost ((name, previousCount) # rest) after_counts m =
    (let declared = map_of (mg_expectedRowDelta m) name;
         prefix = ''Migration '' @ show_int (mg_version m) @ '' ('' @ mg_name m @ '') '' in
     case map_of after_counts name of
       None \<Rightarrow> (if declared \<noteq> None then assertNoRowsLost rest after_counts m
                else Inl (prefix @ ''dropped table '' @ name @ '' without declaring expectedRowDelta''))
     | Some nextCount \<Rightarrow>
        (let minimum = previousCount + (case declared of None \<Rightarrow> 0 | Some n \<Rightarrow> n) in
         if nextCount < minimum
         then Inl (prefix @ ''lost rows in '' @ name @ '': '' @ show_int previousCount @ '' -> '' @ show_int nextCount @
                '' (minimum permitted '' @ show_int minimum @ '')'')
         else assertNoRowsLost rest after_counts m))"

subsection \<open>Statements\<close>

definition mpause :: "'d mig_env \<Rightarrow> ('d, unit) mop" where
  "mpause env = update (\<lambda>s. (me_other env (md_tick s) s)\<lparr>md_tick := Suc (md_tick s)\<rparr>)"

definition outcome :: "(nat \<Rightarrow> string option) \<Rightarrow> ('d, unit) mop" where
  "outcome f s = ((case f (md_tick s) of None \<Rightarrow> Inr () | Some e \<Rightarrow> Inl (MigThrew e)), s\<lparr>md_tick := Suc (md_tick s)\<rparr>)"

definition invalid_version :: "int \<Rightarrow> mig_error" where
  "invalid_version v = IntegrityError (''Invalid user_version: '' @ show_int v)"

definition readUserVersion :: "('d, int) mop" where
  "readUserVersion = andThen (query md_version) (\<lambda>v. andThen (require (valid_version v) (invalid_version v)) (\<lambda>_. ok v))"

definition now_of :: "'d mig_env \<Rightarrow> ('d, string) mop" where
  "now_of env s = (Inr (me_now env (md_tick s)), s\<lparr>md_tick := Suc (md_tick s)\<rparr>)"

definition stamp :: "string \<Rightarrow> string" where
  "stamp t = map (\<lambda>c. if c = CHR '':'' \<or> c = CHR ''.'' then CHR ''-'' else c) t"

definition backupDatabase :: "'d mig_env \<Rightarrow> int \<Rightarrow> (string \<times> int) list \<Rightarrow> 'd mig_options \<Rightarrow> ('d, string option) mop" where
  "backupDatabase env version preCounts options = (case mo_databasePath options of
     None \<Rightarrow> ok None
   | Some path \<Rightarrow> if path = [] then ok None else
       andThen (mpause env) (\<lambda>_.
       andThen (query (\<lambda>s. me_fileSize env (md_tick s))) (\<lambda>fileSize.
       if fileSize = 0 then ok None
       else if sum_list (map snd preCounts) = 0 then ok None
       else andThen (outcome (me_mkdir env)) (\<lambda>_.
         andThen (now_of env) (\<lambda>t.
         andThen (mpause env) (\<lambda>_.
         andThen (outcome (me_vacuum env)) (\<lambda>_.
         ok (Some (mo_accHome options @ ''/backups/pre-v'' @ show_int version @ ''-'' @ stamp t @ ''.sqlite'')))))))))"

subsection \<open>One migration under the write lock\<close>

text \<open>
  What the transaction does: it finds the migration applied already (\<open>Inl\<close> the current version), or applies it
  and returns the new counts. An exception rolls it back.
\<close>

definition migrate_locked :: "'d mig_env \<Rightarrow> int \<Rightarrow> (string \<times> int) list \<Rightarrow> 'd migration \<Rightarrow> ('d, int + (string \<times> int) list) mop" where
  "migrate_locked env newestKnown preCounts m =
     andThen readUserVersion (\<lambda>current.
     andThen (require (\<not> newestKnown < current) (VersionError current newestKnown)) (\<lambda>_.
     if mg_version m \<le> current then ok (Inl current)
     else andThen (\<lambda>s. case mg_up m (md_data s) of Inl e \<Rightarrow> (Inl (MigThrew e), s) | Inr d \<Rightarrow> (Inr (), s\<lparr>md_data := d\<rparr>)) (\<lambda>_.
       andThen (update (md_version_update (\<lambda>_. mg_version m))) (\<lambda>_.
       andThen (query (\<lambda>s. countAllTables env (md_data s))) (\<lambda>postCounts.
       andThen (lift_res (map_sum IntegrityError id (assertNoRowsLost preCounts postCounts m))) (\<lambda>_.
       andThen (outcome (me_commit env)) (\<lambda>_. ok (Inr postCounts))))))))"

definition begin_immediate :: "'d mig_env \<Rightarrow> ('d, unit) mop" where
  "begin_immediate env = andThen (mpause env) (\<lambda>_. outcome (me_begin env))"

definition integrity_check :: "'d mig_env \<Rightarrow> 'd migration \<Rightarrow> string option \<Rightarrow> ('d, unit) mop" where
  "integrity_check env m backup =
     andThen (mpause env) (\<lambda>_.
     andThen (query (\<lambda>s. me_integrity env (md_tick s))) (\<lambda>answer.
     require (answer = Some ''ok'') (IntegrityError (
       ''Database failed PRAGMA integrity_check after migration '' @ show_int (mg_version m) @ '' ('' @ mg_name m @ ''): '' @
       (case answer of None \<Rightarrow> ''no result'' | Some t \<Rightarrow> t) @ ''. '' @
       (case backup of Some p \<Rightarrow> ''Restore the pre-migration backup: '' @ p
        | None \<Rightarrow> ''No pre-migration backup exists (database had no rows).'')))))"

fun run_pending :: "'d mig_env \<Rightarrow> 'd mig_options \<Rightarrow> int \<Rightarrow> 'd migration list \<Rightarrow> (string \<times> int) list \<Rightarrow> mig_result \<Rightarrow> ('d, mig_result) mop" where
  "run_pending env options newestKnown [] preCounts result = ok result"
| "run_pending env options newestKnown (m # ms) preCounts result =
     andThen (backupDatabase env (mg_version m) preCounts options) (\<lambda>backup.
     let result1 = (case backup of None \<Rightarrow> result | Some p \<Rightarrow> result\<lparr>mr_backupPaths := mr_backupPaths result @ [p]\<rparr>) in
     andThen (begin_immediate env) (\<lambda>_.
     andThen (atomically (migrate_locked env newestKnown preCounts m)) (\<lambda>done'. case done' of
       Inl current \<Rightarrow>
         andThen (mpause env) (\<lambda>_.
         andThen (query (\<lambda>s. countAllTables env (md_data s))) (\<lambda>counts.
         run_pending env options newestKnown ms counts (result1\<lparr>mr_toVersion := current\<rparr>)))
     | Inr postCounts \<Rightarrow>
         andThen (integrity_check env m backup) (\<lambda>_.
         run_pending env options newestKnown ms postCounts
           (result1\<lparr>mr_appliedVersions := mr_appliedVersions result1 @ [mg_version m], mr_toVersion := mg_version m\<rparr>)))))"

definition newest_known :: "'d migration list \<Rightarrow> int" where
  "newest_known ms = (if ms = [] then 0 else mg_version (last ms))"

definition runMigrations :: "'d mig_env \<Rightarrow> 'd mig_options \<Rightarrow> ('d, mig_result) mop" where
  "runMigrations env options =
     andThen (lift_res (map_sum MigThrew id (assertMigrationList (mo_migrations options)))) (\<lambda>_.
     let newestKnown = newest_known (mo_migrations options) in
     andThen (mpause env) (\<lambda>_.
     andThen readUserVersion (\<lambda>fromVersion.
     andThen (require (\<not> newestKnown < fromVersion) (VersionError fromVersion newestKnown)) (\<lambda>_.
     let result = \<lparr>mr_fromVersion = fromVersion, mr_toVersion = fromVersion, mr_appliedVersions = [], mr_backupPaths = []\<rparr>;
         pending = filter (\<lambda>m. fromVersion < mg_version m) (mo_migrations options) in
     if pending = [] then ok result
     else andThen (mpause env) (\<lambda>_.
       andThen (query (\<lambda>s. countAllTables env (md_data s))) (\<lambda>preCounts.
       run_pending env options newestKnown pending preCounts result))))))"

subsection \<open>What each step does to the database\<close>

lemma assert_from_sorted: "assert_from p ms = Inr () \<Longrightarrow> sorted_wrt (<) (p # map mg_version ms)"
proof (induction p ms rule: assert_from.induct)
  case (2 p m ms)
  then have "p < mg_version m" "sorted_wrt (<) (mg_version m # map mg_version ms)" by (auto split: if_splits)
  then show ?case by auto
qed simp

text \<open>A property of the database that the other processes keep and that does not mention the clock.\<close>

definition others_keep :: "'d mig_env \<Rightarrow> ('d mdb \<Rightarrow> bool) \<Rightarrow> bool" where
  "others_keep env I \<longleftrightarrow> (\<forall>n s. I s \<longrightarrow> I (me_other env n s)) \<and> (\<forall>n s. I s \<longrightarrow> I (s\<lparr>md_tick := n\<rparr>))"

text \<open>What such properties cannot tell apart: a later state that is different only by what the others did.\<close>

definition drifts :: "'d mig_env \<Rightarrow> 'd mdb \<Rightarrow> 'd mdb \<Rightarrow> bool" where
  "drifts env s t \<longleftrightarrow> (\<forall>I. others_keep env I \<longrightarrow> I s \<longrightarrow> I t)"

interpretation drifting: evolution "drifts env" for env
  by unfold_locales (auto simp: drifts_def)

lemma drifts_steps:
  "keeps (drifts env) (mpause env)" "keeps (drifts env) (outcome f)" "keeps (drifts env) (now_of env)"
  by (auto simp: others_keep_def drifts_def keeps_def mpause_def update_def outcome_def now_of_def)

lemma drifts_backup: "keeps (drifts env) (backupDatabase env v counts options)"
  unfolding backupDatabase_def by (intro drifting.keeps_rules drifts_steps)

lemma drifts_begin: "keeps (drifts env) (begin_immediate env)"
  unfolding begin_immediate_def by (intro drifting.keeps_rules drifts_steps)

lemma drifts_integrity: "keeps (drifts env) (integrity_check env m backup)"
  unfolding integrity_check_def by (intro drifting.keeps_rules drifts_steps)

lemma driftsD: "drifts env s t \<Longrightarrow> others_keep env I \<Longrightarrow> I s \<Longrightarrow> I t"
  unfolding drifts_def by blast

text \<open>The transaction leaves everything as it was, or commits this migration on top of an older version.\<close>

lemma migrate_locked_eq:
  "migrate_locked env newest counts m s =
    (if \<not> valid_version (md_version s) then (Inl (invalid_version (md_version s)), s)
     else if newest < md_version s then (Inl (VersionError (md_version s) newest), s)
     else if mg_version m \<le> md_version s then (Inr (Inl (md_version s)), s)
     else case mg_up m (md_data s) of Inl e \<Rightarrow> (Inl (MigThrew e), s)
     | Inr d \<Rightarrow> (case assertNoRowsLost counts (countAllTables env d) m of
          Inl e \<Rightarrow> (Inl (IntegrityError e), s\<lparr>md_data := d, md_version := mg_version m\<rparr>)
        | Inr u \<Rightarrow> (case me_commit env (md_tick s) of
            None \<Rightarrow> (Inr (Inr (countAllTables env d)), s\<lparr>md_data := d, md_version := mg_version m, md_tick := Suc (md_tick s)\<rparr>)
          | Some e \<Rightarrow> (Inl (MigThrew e), s\<lparr>md_data := d, md_version := mg_version m, md_tick := Suc (md_tick s)\<rparr>))))"
proof -
  have version: "readUserVersion s = (if valid_version (md_version s) then Inr (md_version s) else Inl (invalid_version (md_version s)), s)"
    by (simp add: readUserVersion_def andThen_def query_def require_def ok_def)
  show ?thesis
  proof (cases "\<not> valid_version (md_version s) \<or> newest < md_version s \<or> mg_version m \<le> md_version s")
    case True
    then show ?thesis
      by (auto simp: migrate_locked_def version andThen_def require_def ok_def)
  next
    case False
    note c = this
    show ?thesis
    proof (cases "mg_up m (md_data s)")
      case (Inl e)
      with c show ?thesis by (simp add: migrate_locked_def version andThen_def require_def)
    next
      case (Inr d)
      note up = this
      show ?thesis
      proof (cases "assertNoRowsLost counts (countAllTables env d) m")
        case (Inl e)
        with c up show ?thesis
          by (simp add: migrate_locked_def version andThen_def require_def update_def query_def lift_res_def)
      next
        case (Inr u)
        then have rows: "assertNoRowsLost counts (countAllTables env d) m = Inr ()" by simp
        have commit: "outcome (me_commit env) (s\<lparr>md_data := d, md_version := mg_version m\<rparr>) =
            (case me_commit env (md_tick s) of None \<Rightarrow> Inr () | Some e \<Rightarrow> Inl (MigThrew e),
             s\<lparr>md_data := d, md_version := mg_version m, md_tick := Suc (md_tick s)\<rparr>)"
          by (simp add: outcome_def)
        have g: "valid_version (md_version s)" "\<not> newest < md_version s" "\<not> mg_version m \<le> md_version s"
          using c by simp_all
        have "migrate_locked env newest counts m s =
            andThen (outcome (me_commit env)) (\<lambda>_. ok (Inr (countAllTables env d))) (s\<lparr>md_data := d, md_version := mg_version m\<rparr>)"
          by (simp add: migrate_locked_def version andThen_def require_def update_def query_def lift_res_def g up rows)
        also have "\<dots> = (case me_commit env (md_tick s) of
              None \<Rightarrow> (Inr (Inr (countAllTables env d)), s\<lparr>md_data := d, md_version := mg_version m, md_tick := Suc (md_tick s)\<rparr>)
            | Some e \<Rightarrow> (Inl (MigThrew e), s\<lparr>md_data := d, md_version := mg_version m, md_tick := Suc (md_tick s)\<rparr>))"
          by (cases "me_commit env (md_tick s)") (simp_all add: andThen_def commit ok_def)
        finally show ?thesis by (simp only: g up rows sum.case if_False if_True not_True_eq_False)
      qed
    qed
  qed
qed

lemma migrate_locked_cases:
  assumes "atomically (migrate_locked env newest counts m) s = (r, t)"
  obtains e where "r = Inl e" "t = s"
  | "r = Inr (Inl (md_version s))" "t = s" "mg_version m \<le> md_version s" "md_version s \<le> newest"
  | post d where "r = Inr (Inr post)" "md_version s < mg_version m" "mg_up m (md_data s) = Inr d"
      "md_data t = d" "md_version t = mg_version m"
      "assertNoRowsLost counts (countAllTables env d) m = Inr ()"
proof (cases r)
  case (Inl e)
  have "t = s" using assms unfolding Inl by (rule atomically_Inl)
  with Inl that(1) show ?thesis by simp
next
  case (Inr x)
  with assms have "migrate_locked env newest counts m s = (Inr x, t)" by (simp add: atomically_Inr)
  then have "x = Inl (md_version s) \<and> t = s \<and> mg_version m \<le> md_version s \<and> md_version s \<le> newest \<or>
      (\<exists>post d. x = Inr post \<and> md_version s < mg_version m \<and> mg_up m (md_data s) = Inr d \<and> md_data t = d \<and>
         md_version t = mg_version m \<and> assertNoRowsLost counts (countAllTables env d) m = Inr ())"
    unfolding migrate_locked_eq by (auto split: if_splits sum.splits option.splits)
  then show ?thesis
  proof (elim disjE exE conjE)
    assume "x = Inl (md_version s)" "t = s" "mg_version m \<le> md_version s" "md_version s \<le> newest"
    with Inr show ?thesis by (intro that(2)) simp_all
  next
    fix post d
    assume "x = Inr post" "md_version s < mg_version m" "mg_up m (md_data s) = Inr d" "md_data t = d"
      "md_version t = mg_version m" "assertNoRowsLost counts (countAllTables env d) m = Inr ()"
    with Inr show ?thesis by (intro that(3)) simp_all
  qed
qed

subsection \<open>Forward only, whole migrations only\<close>

text \<open>The contents after a list of migrations, when none of them throws.\<close>

fun ups :: "'d migration list \<Rightarrow> 'd \<Rightarrow> 'd option" where
  "ups [] d = Some d"
| "ups (m # ms) d = (case mg_up m d of Inl _ \<Rightarrow> None | Inr d' \<Rightarrow> ups ms d')"

definition version_after :: "int \<Rightarrow> 'd migration list \<Rightarrow> int" where
  "version_after v ms = (if ms = [] then v else mg_version (last ms))"

definition is_db :: "'d \<Rightarrow> int \<Rightarrow> 'd mdb \<Rightarrow> bool" where
  "is_db d v s \<longleftrightarrow> md_data s = d \<and> md_version s = v"

definition alone :: "'d mig_env \<Rightarrow> bool" where
  "alone env \<longleftrightarrow> (\<forall>n s. md_data (me_other env n s) = md_data s \<and> md_version (me_other env n s) = md_version s)"

lemma alone_stable: "alone env \<Longrightarrow> others_keep env (is_db d v)"
  by (auto simp: others_keep_def alone_def is_db_def)

text \<open>
  One round of the loop: it throws with nothing committed, finds the migration applied already, or commits it; after
  the commit the integrity check may still throw.
\<close>

definition round_result :: "mig_result \<Rightarrow> mig_result \<Rightarrow> int list \<Rightarrow> int \<Rightarrow> bool" where
  "round_result result result' applied version \<longleftrightarrow> mr_fromVersion result' = mr_fromVersion result \<and>
     mr_appliedVersions result' = mr_appliedVersions result @ applied \<and> mr_toVersion result' = version"

lemma run_pending_round:
  assumes "run_pending env options newest (m # ms) counts result s = (r, t)"
  obtains (threw) e where "r = Inl e" "drifts env s t"
  | (skipped) u u' counts' result' where "drifts env s u" "drifts env u u'" "mg_version m \<le> md_version u" "md_version u \<le> newest"
      "round_result result result' [] (md_version u)" "run_pending env options newest ms counts' result' u' = (r, t)"
  | (applied) u u' d v counts' result' where "drifts env s u" "md_version u < mg_version m" "mg_up m (md_data u) = Inr d"
      "md_data u' = d" "md_version u' = mg_version m" "drifts env u' v"
      "(\<exists>e. r = Inl e \<and> t = v) \<or> round_result result result' [mg_version m] (mg_version m) \<and>
         run_pending env options newest ms counts' result' v = (r, t)"
proof -
  obtain rb s1 where b: "backupDatabase env (mg_version m) counts options s = (rb, s1)" by fastforce
  note d1 = keepsD [OF drifts_backup b]
  show thesis
  proof (cases rb)
    case (Inl e)
    with assms b have "t = s1" "r = Inl e" by (simp_all add: andThen_def)
    with d1 show thesis by (intro threw) simp_all
  next
    case (Inr backup)
    define res where "res = (case backup of None \<Rightarrow> result | Some p \<Rightarrow> result\<lparr>mr_backupPaths := mr_backupPaths result @ [p]\<rparr>)"
    have res: "mr_fromVersion res = mr_fromVersion result" "mr_appliedVersions res = mr_appliedVersions result"
      by (simp_all add: res_def split: option.split)
    obtain rg s2 where g: "begin_immediate env s1 = (rg, s2)" by fastforce
    have d2: "drifts env s s2" using d1 keepsD [OF drifts_begin g] by (rule drifting.trans)
    obtain ra s3 where a: "atomically (migrate_locked env newest counts m) s2 = (ra, s3)" by fastforce
    note run = assms [unfolded run_pending.simps andThen_step [where m = "backupDatabase env (mg_version m) counts options", OF b [unfolded Inr]] Let_def, folded res_def]
    show thesis
    proof (cases rg)
      case (Inl e)
      with run g have "t = s2" "r = Inl e" by (simp_all add: andThen_def)
      with d2 show thesis by (intro threw) simp_all
    next
      case (Inr u)
      note run = run [unfolded andThen_step [where m = "begin_immediate env", OF g [unfolded Inr]]]
      from a show thesis
      proof (cases rule: migrate_locked_cases)
        case (1 e)
        with run a have "t = s2" "r = Inl e" by (simp_all add: andThen_def)
        with d2 show thesis by (intro threw) simp_all
      next
        case 2
        have rest: "andThen (mpause env) (\<lambda>_. andThen (query (\<lambda>s. countAllTables env (md_data s))) (\<lambda>counts.
            run_pending env options newest ms counts (res\<lparr>mr_toVersion := md_version s2\<rparr>))) s3 = (r, t)"
          using run unfolding andThen_step [where m = "atomically (migrate_locked env newest counts m)", OF a [unfolded 2(1)]] sum.case .
        obtain s4 where p: "mpause env s3 = (Inr (), s4)" by (simp add: mpause_def update_def)
        show thesis
          by (rule skipped [OF d2 _ _ _ _ rest [unfolded andThen_step [where m = "mpause env", OF p] andThen_query]])
            (use 2 keepsD [OF drifts_steps(1) p] in \<open>simp_all add: round_result_def res\<close>)
      next
        case (3 post d)
        obtain ri s4 where ic: "integrity_check env m backup s3 = (ri, s4)" by fastforce
        have rest: "andThen (integrity_check env m backup) (\<lambda>_. run_pending env options newest ms post
            (res\<lparr>mr_appliedVersions := mr_appliedVersions res @ [mg_version m], mr_toVersion := mg_version m\<rparr>)) s3 = (r, t)"
          using run unfolding andThen_step [where m = "atomically (migrate_locked env newest counts m)", OF a [unfolded 3(1)]] sum.case .
        define res' where "res' = res\<lparr>mr_appliedVersions := mr_appliedVersions res @ [mg_version m], mr_toVersion := mg_version m\<rparr>"
        have "(\<exists>e. r = Inl e \<and> t = s4) \<or> run_pending env options newest ms post res' s4 = (r, t)"
          using rest [folded res'_def] ic by (cases ri) (auto simp: andThen_def)
        moreover have "round_result result res' [mg_version m] (mg_version m)" by (simp add: round_result_def res'_def res)
        ultimately show thesis
          by (intro applied [OF d2 3(2,3,4,5) keepsD [OF drifts_integrity ic], of res' post]) blast
      qed
    qed
  qed
qed

lemma run_pending_prefix:
  assumes "alone env" and "sorted_wrt (<) (v # map mg_version ms)" and "is_db d v s"
    and "run_pending env options newest ms counts result s = (r, t)"
  shows "\<exists>k \<le> length ms. ups (take k ms) d = Some (md_data t) \<and> md_version t = version_after v (take k ms) \<and>
    (\<forall>res. r = Inr res \<longrightarrow> k = length ms \<and> round_result result res (map mg_version ms) (version_after (mr_toVersion result) ms))"
  using assms(2-4)
proof (induction ms arbitrary: v d s counts result)
  case Nil
  then show ?case by (auto simp: ok_def is_db_def version_after_def round_result_def)
next
  case (Cons m ms)
  note st = alone_stable [OF assms(1)]
  from Cons.prems(3) show ?case
  proof (cases rule: run_pending_round)
    case (threw e)
    then have "is_db d v t" using st Cons.prems(2) by (blast intro: driftsD)
    with threw show ?thesis by (intro exI [of _ 0]) (simp add: is_db_def version_after_def)
  next
    case (skipped u u' counts' result')
    then have "is_db d v u" using st Cons.prems(2) by (blast intro: driftsD)
    with skipped(3) Cons.prems(1) show ?thesis by (simp add: is_db_def)
  next
    case (applied u u' d' w counts' result')
    have "is_db d v u" using applied(1) st Cons.prems(2) by (rule driftsD)
    then have up: "mg_up m d = Inr d'" using applied(3) by (simp add: is_db_def)
    have w: "is_db d' (mg_version m) w"
      using applied(6) st by (rule driftsD) (use applied(4,5) in \<open>simp add: is_db_def\<close>)
    from applied(7) show ?thesis
    proof (elim disjE exE conjE)
      fix e assume "r = Inl e" "t = w"
      with w up show ?thesis by (intro exI [of _ 1]) (simp add: is_db_def version_after_def)
    next
      assume rr: "round_result result result' [mg_version m] (mg_version m)"
        and rest: "run_pending env options newest ms counts' result' w = (r, t)"
      have "sorted_wrt (<) (mg_version m # map mg_version ms)" using Cons.prems(1) by simp
      from Cons.IH [OF this w rest] obtain k where k: "k \<le> length ms" "ups (take k ms) d' = Some (md_data t)"
        "md_version t = version_after (mg_version m) (take k ms)"
        "\<forall>res. r = Inr res \<longrightarrow> k = length ms \<and>
           round_result result' res (map mg_version ms) (version_after (mr_toVersion result') ms)" by blast
      have "\<forall>res. r = Inr res \<longrightarrow> Suc k = length (m # ms) \<and>
          round_result result res (map mg_version (m # ms)) (version_after (mr_toVersion result) (m # ms))"
      proof (intro allI impI)
        fix res assume "r = Inr res"
        with k(4) have "k = length ms" "round_result result' res (map mg_version ms) (version_after (mr_toVersion result') ms)"
          by blast+
        with rr show "Suc k = length (m # ms) \<and>
            round_result result res (map mg_version (m # ms)) (version_after (mr_toVersion result) (m # ms))"
          by (simp add: round_result_def version_after_def)
      qed
      with k(1-3) up show ?thesis by (intro exI [of _ "Suc k"] conjI) (simp_all add: version_after_def)
    qed
  qed
qed

lemma sorted_pending:
  "sorted_wrt (<) (p # map mg_version ms) \<Longrightarrow> sorted_wrt (<) (v # map mg_version (filter (\<lambda>m. v < mg_version m) ms))"
  by (induction ms arbitrary: p) auto

text \<open>The start of \<open>runMigrations\<close>, up to the loop.\<close>

lemma runMigrations_cases:
  assumes "runMigrations env options s = (r, t)"
  obtains (refused) e where "r = Inl e" "drifts env s t"
  | (current) u where "drifts env s u" "t = u" "filter (\<lambda>m. md_version u < mg_version m) (mo_migrations options) = []"
      "md_version u \<le> newest_known (mo_migrations options)" "assertMigrationList (mo_migrations options) = Inr ()"
      "r = Inr \<lparr>mr_fromVersion = md_version u, mr_toVersion = md_version u, mr_appliedVersions = [], mr_backupPaths = []\<rparr>"
  | (pending) u v where "drifts env s u" "drifts env u v" "md_version u \<le> newest_known (mo_migrations options)"
      "assertMigrationList (mo_migrations options) = Inr ()"
      "run_pending env options (newest_known (mo_migrations options))
         (filter (\<lambda>m. md_version u < mg_version m) (mo_migrations options)) (countAllTables env (md_data v))
         \<lparr>mr_fromVersion = md_version u, mr_toVersion = md_version u, mr_appliedVersions = [], mr_backupPaths = []\<rparr> v = (r, t)"
proof (cases "assertMigrationList (mo_migrations options)")
  case (Inl e)
  with assms have "r = Inl (MigThrew e)" "t = s" by (simp_all add: runMigrations_def andThen_def lift_res_def)
  with drifting.refl show thesis by (intro refused) simp_all
next
  case (Inr x)
  then have list: "assertMigrationList (mo_migrations options) = Inr ()" by simp
  obtain u where p: "mpause env s = (Inr (), u)" by (simp add: mpause_def update_def)
  obtain v where q: "mpause env u = (Inr (), v)" by (simp add: mpause_def update_def)
  note du = keepsD [OF drifts_steps(1) p] and dv = keepsD [OF drifts_steps(1) q]
  let ?new = "newest_known (mo_migrations options)"
  have run: "andThen readUserVersion (\<lambda>fromVersion. andThen (require (\<not> ?new < fromVersion) (VersionError fromVersion ?new)) (\<lambda>_.
     let result = \<lparr>mr_fromVersion = fromVersion, mr_toVersion = fromVersion, mr_appliedVersions = [], mr_backupPaths = []\<rparr>;
         pending = filter (\<lambda>m. fromVersion < mg_version m) (mo_migrations options) in
     if pending = [] then ok result
     else andThen (mpause env) (\<lambda>_. andThen (query (\<lambda>s. countAllTables env (md_data s))) (\<lambda>preCounts.
       run_pending env options ?new pending preCounts result)))) u = (r, t)"
    using assms p list by (simp add: runMigrations_def andThen_def [of "lift_res _"] andThen_def [of "mpause env"] lift_res_def Let_def)
  show thesis
  proof (cases "valid_version (md_version u) \<and> \<not> ?new < md_version u")
    case False
    with run have "t = u" "\<exists>e. r = Inl e"
      by (auto simp: andThen_def readUserVersion_def query_def require_def ok_def split: if_splits)
    with du show thesis by (auto intro: refused)
  next
    case True
    then have version: "readUserVersion u = (Inr (md_version u), u)"
      by (simp add: readUserVersion_def andThen_def query_def require_def ok_def)
    have rest: "(let result = \<lparr>mr_fromVersion = md_version u, mr_toVersion = md_version u, mr_appliedVersions = [], mr_backupPaths = []\<rparr>;
         pending = filter (\<lambda>m. md_version u < mg_version m) (mo_migrations options) in
       if pending = [] then ok result
       else andThen (mpause env) (\<lambda>_. andThen (query (\<lambda>s. countAllTables env (md_data s))) (\<lambda>preCounts.
         run_pending env options ?new pending preCounts result))) u = (r, t)"
      using run unfolding andThen_step [where m = readUserVersion, OF version] andThen_require [OF conjunct2 [OF True]] .
    show thesis
    proof (cases "filter (\<lambda>m. md_version u < mg_version m) (mo_migrations options) = []")
      case True
      then have "t = u" "r = Inr \<lparr>mr_fromVersion = md_version u, mr_toVersion = md_version u, mr_appliedVersions = [], mr_backupPaths = []\<rparr>"
        using rest by (auto simp: ok_def)
      then show thesis using du True \<open>valid_version _ \<and> _\<close> list by (intro current) auto
    next
      case False
      then have "run_pending env options ?new (filter (\<lambda>m. md_version u < mg_version m) (mo_migrations options))
          (countAllTables env (md_data v))
          \<lparr>mr_fromVersion = md_version u, mr_toVersion = md_version u, mr_appliedVersions = [], mr_backupPaths = []\<rparr> v = (r, t)"
        using rest by (simp add: Let_def andThen_step [where m = "mpause env", OF q] andThen_query)
      then show thesis using du dv \<open>valid_version _ \<and> _\<close> list by (intro pending) simp_all
    qed
  qed
qed

text \<open>
  C32 With no other process at work, a call of the runner leaves the database exactly as a prefix of the pending
  migrations makes it, each applied completely and in order, and records the version of the last one applied: a
  crash, a throwing migration, lost rows or a refused commit never leaves half a migration behind. If it returns,
  every pending migration has been applied, once.
\<close>

theorem migrations_all_or_prefix:
  assumes "alone env" and "runMigrations env options s = (r, t)"
  shows "\<exists>k \<le> length (filter (\<lambda>m. md_version s < mg_version m) (mo_migrations options)).
    ups (take k (filter (\<lambda>m. md_version s < mg_version m) (mo_migrations options))) (md_data s) = Some (md_data t) \<and>
    md_version t = version_after (md_version s) (take k (filter (\<lambda>m. md_version s < mg_version m) (mo_migrations options))) \<and>
    (\<forall>res. r = Inr res \<longrightarrow> k = length (filter (\<lambda>m. md_version s < mg_version m) (mo_migrations options)) \<and>
       mr_fromVersion res = md_version s \<and> mr_toVersion res = md_version t \<and>
       mr_appliedVersions res = map mg_version (filter (\<lambda>m. md_version s < mg_version m) (mo_migrations options)))"
proof -
  let ?d = "md_data s" and ?v = "md_version s"
  note keep = driftsD [OF _ alone_stable [OF assms(1)], of _ _ ?d ?v]
  have s: "is_db ?d ?v s" by (simp add: is_db_def)
  from assms(2) show ?thesis
  proof (cases rule: runMigrations_cases)
    case (refused e)
    with keep s have "is_db ?d ?v t" by blast
    with refused show ?thesis by (intro exI [of _ 0]) (simp add: is_db_def version_after_def)
  next
    case (current u)
    with keep s have "is_db ?d ?v u" by blast
    with current show ?thesis by (intro exI [of _ 0]) (simp add: is_db_def version_after_def)
  next
    case (pending u w)
    have u: "is_db ?d ?v u" using pending(1) s keep by blast
    then have w: "is_db ?d ?v w" using pending(2) keep by blast
    have v: "md_version u = ?v" using u by (simp add: is_db_def)
    let ?ms = "filter (\<lambda>m. ?v < mg_version m) (mo_migrations options)"
    have srt: "sorted_wrt (<) (?v # map mg_version ?ms)"
      using sorted_pending assert_from_sorted pending(4) unfolding assertMigrationList_def by blast
    from run_pending_prefix [OF assms(1) srt w pending(5) [unfolded v]] obtain k where k: "k \<le> length ?ms"
      "ups (take k ?ms) ?d = Some (md_data t)" "md_version t = version_after ?v (take k ?ms)"
      and fin: "\<forall>res. r = Inr res \<longrightarrow> k = length ?ms \<and> round_result
         \<lparr>mr_fromVersion = ?v, mr_toVersion = ?v, mr_appliedVersions = [], mr_backupPaths = []\<rparr> res (map mg_version ?ms)
         (version_after ?v ?ms)" by auto
    show ?thesis
    proof (intro exI [of _ k] conjI allI impI k)
      fix res assume "r = Inr res"
      with fin have f: "k = length ?ms" "round_result \<lparr>mr_fromVersion = ?v, mr_toVersion = ?v, mr_appliedVersions = [],
          mr_backupPaths = []\<rparr> res (map mg_version ?ms) (version_after ?v ?ms)" by blast+
      then show "k = length ?ms" "mr_fromVersion res = ?v" "mr_toVersion res = md_version t"
        "mr_appliedVersions res = map mg_version ?ms" using k(3) by (simp_all add: round_result_def)
    qed
  qed
qed

subsection \<open>Concurrent migrators\<close>

text \<open>
  \<open>fits v d\<close> says that contents \<open>d\<close> are those of a database at version \<open>v\<close>. A list of migrations is sound for it
  if every migration takes contents of its predecessor's version to contents of its own. The other processes are
  cooperative if they keep the contents fit for the version they record and never lower it: they write rows, or
  migrate with the same list or a longer one.
\<close>

fun sound_from :: "(int \<Rightarrow> 'd \<Rightarrow> bool) \<Rightarrow> int \<Rightarrow> 'd migration list \<Rightarrow> bool" where
  "sound_from fits v [] \<longleftrightarrow> True"
| "sound_from fits v (m # ms) \<longleftrightarrow> (\<forall>d d'. fits v d \<longrightarrow> mg_up m d = Inr d' \<longrightarrow> fits (mg_version m) d') \<and>
     sound_from fits (mg_version m) ms"

definition versions :: "'d migration list \<Rightarrow> int set" where
  "versions ms = insert 0 (mg_version ` set ms)"

definition fits_db :: "int set \<Rightarrow> (int \<Rightarrow> 'd \<Rightarrow> bool) \<Rightarrow> 'd mdb \<Rightarrow> bool" where
  "fits_db known fits s \<longleftrightarrow> fits (md_version s) (md_data s) \<and>
     (md_version s \<in> known \<or> (\<forall>v \<in> known. v < md_version s))"

definition cooperative :: "'d mig_env \<Rightarrow> int set \<Rightarrow> (int \<Rightarrow> 'd \<Rightarrow> bool) \<Rightarrow> bool" where
  "cooperative env known fits \<longleftrightarrow> (\<forall>n s. fits_db known fits s \<longrightarrow>
     fits_db known fits (me_other env n s) \<and> md_version s \<le> md_version (me_other env n s))"

definition at_least :: "int set \<Rightarrow> (int \<Rightarrow> 'd \<Rightarrow> bool) \<Rightarrow> int \<Rightarrow> 'd mdb \<Rightarrow> bool" where
  "at_least known fits b s \<longleftrightarrow> fits_db known fits s \<and> b \<le> md_version s"

lemma cooperative_keeps: "cooperative env known fits \<Longrightarrow> others_keep env (at_least known fits b)"
  by (auto simp: others_keep_def cooperative_def at_least_def fits_db_def) (meson order_trans)+

lemma run_pending_fits:
  assumes "cooperative env known fits" and "sorted_wrt (<) (v # map mg_version ms)" and "sound_from fits v ms"
    and "\<forall>k \<in> known. v \<le> k \<longrightarrow> k = v \<or> k \<in> mg_version ` set ms" and "mg_version ` set ms \<subseteq> known"
    and "at_least known fits v s" and "b \<le> md_version s"
    and "run_pending env options newest ms counts result s = (r, t)"
  shows "at_least known fits b t \<and> (\<forall>res. r = Inr res \<longrightarrow> version_after v ms \<le> md_version t)"
  using assms(2-8)
proof (induction ms arbitrary: v b s counts result)
  case Nil
  then show ?case by (auto simp: ok_def at_least_def version_after_def)
next
  case (Cons m ms)
  note keep = driftsD [OF _ cooperative_keeps [OF assms(1)]]
  have s: "at_least known fits (max b v) s" using Cons.prems(5,6) by (simp add: at_least_def)
  have next': "sorted_wrt (<) (mg_version m # map mg_version ms)" "sound_from fits (mg_version m) ms"
      "\<forall>k \<in> known. mg_version m \<le> k \<longrightarrow> k = mg_version m \<or> k \<in> mg_version ` set ms" "mg_version ` set ms \<subseteq> known"
    using Cons.prems(1-4) by auto
  have va: "version_after v (m # ms) = version_after (mg_version m) ms" by (simp add: version_after_def)
  from Cons.prems(7) show ?case
  proof (cases rule: run_pending_round)
    case (threw e)
    with keep s show ?thesis by (auto simp: at_least_def)
  next
    case (skipped u u' counts' result')
    have "at_least known fits (max b v) u" using keep skipped(1) s .
    then have "at_least known fits (max b (mg_version m)) u" using skipped(3) by (simp add: at_least_def)
    with keep skipped(2) have "at_least known fits (max b (mg_version m)) u'" by blast
    then have "at_least known fits (mg_version m) u'" "b \<le> md_version u'" by (simp_all add: at_least_def)
    from Cons.IH [OF next' this skipped(6)] show ?thesis by (simp add: va)
  next
    case (applied u u' d w counts' result')
    have u: "at_least known fits (max b v) u" using keep applied(1) s .
    have "mg_version m \<in> known" using Cons.prems(4) by simp
    then have "md_version u \<in> known" using u applied(2) by (auto simp: at_least_def fits_db_def)
    then have "md_version u = v" using Cons.prems(1,3) u applied(2) by (fastforce simp: at_least_def)
    then have "fits v (md_data u)" using u by (simp add: at_least_def fits_db_def)
    then have "fits (mg_version m) d" using Cons.prems(2) applied(3) by auto
    then have "at_least known fits (max b (mg_version m)) u'"
      using applied(2,4,5) u \<open>mg_version m \<in> known\<close> by (simp add: at_least_def fits_db_def)
    with keep applied(6) have "at_least known fits (max b (mg_version m)) w" by blast
    then have w: "at_least known fits (mg_version m) w" "b \<le> md_version w" by (simp_all add: at_least_def)
    from applied(7) show ?thesis
    proof (elim disjE exE conjE)
      fix e assume "r = Inl e" "t = w"
      with w show ?thesis by (simp add: at_least_def)
    next
      assume "run_pending env options newest ms counts' result' w = (r, t)"
      from Cons.IH [OF next' w this] show ?thesis by (simp add: va)
    qed
  qed
qed

lemma sound_pending:
  assumes "sorted_wrt (<) (p # map mg_version ms)" and "sound_from fits p ms" and "v \<in> insert p (mg_version ` set ms)"
  shows "sound_from fits v (filter (\<lambda>m. v < mg_version m) ms)"
  using assms
proof (induction ms arbitrary: p)
  case (Cons m ms)
  show ?case
  proof (cases "v = p")
    case True
    then have "filter (\<lambda>m. v < mg_version m) (m # ms) = m # ms" using Cons.prems(1) by (auto intro: filter_True)
    with Cons.prems(2) True show ?thesis by simp
  next
    case False
    then have "v \<in> insert (mg_version m) (mg_version ` set ms)" using Cons.prems(3) by auto
    moreover have "\<not> v < mg_version m" using calculation Cons.prems(1) by auto
    ultimately show ?thesis using Cons.IH [of "mg_version m"] Cons.prems(1,2) by auto
  qed
qed simp

lemma newest_is_known: "newest_known ms \<in> versions ms"
  by (auto simp: newest_known_def versions_def)

lemma last_filter_last: "xs \<noteq> [] \<Longrightarrow> P (last xs) \<Longrightarrow> filter P xs \<noteq> [] \<and> last (filter P xs) = last xs"
  by (induction xs rule: rev_induct) auto

lemma newest_after: "newest_known ms \<le> version_after v (filter (\<lambda>m. v < mg_version m) ms) \<or> ms = [] \<and> v < 0"
proof (cases "ms \<noteq> [] \<and> v < mg_version (last ms)")
  case True
  with last_filter_last [of ms "\<lambda>m. v < mg_version m"] show ?thesis by (simp add: newest_known_def version_after_def)
next
  case False
  have "v \<le> version_after v (filter (\<lambda>m. v < mg_version m) ms)"
  proof (cases "filter (\<lambda>m. v < mg_version m) ms = []")
    case False
    then have "last (filter (\<lambda>m. v < mg_version m) ms) \<in> set (filter (\<lambda>m. v < mg_version m) ms)" by (rule last_in_set)
    with False show ?thesis by (simp add: version_after_def)
  qed (simp add: version_after_def)
  with False show ?thesis by (auto simp: newest_known_def version_after_def)
qed

text \<open>
  Any number of processes may migrate the same database at once: whatever they do in between, as long as they are
  cooperative themselves, the contents always fit the version recorded, so no migration is ever applied twice, out
  of order or to the wrong contents; the version never goes back; and a call that returns leaves the database at
  the newest version it knows, or beyond.
\<close>

theorem concurrent_migrations:
  assumes "cooperative env (versions (mo_migrations options)) fits" and "sound_from fits 0 (mo_migrations options)"
    and "fits_db (versions (mo_migrations options)) fits s" and "runMigrations env options s = (r, t)"
  shows "fits_db (versions (mo_migrations options)) fits t \<and> md_version s \<le> md_version t \<and>
    (\<forall>res. r = Inr res \<longrightarrow> newest_known (mo_migrations options) \<le> md_version t)"
proof -
  let ?known = "versions (mo_migrations options)" and ?new = "newest_known (mo_migrations options)"
  note keep = driftsD [OF _ cooperative_keeps [OF assms(1)]]
  have s: "at_least ?known fits (md_version s) s" using assms(3) by (simp add: at_least_def)
  from assms(4) show ?thesis
  proof (cases rule: runMigrations_cases)
    case (refused e)
    with keep s show ?thesis by (auto simp: at_least_def)
  next
    case (current u)
    have u: "at_least ?known fits (md_version s) u" using keep current(1) s .
    have "?new \<le> md_version u"
    proof (cases "mo_migrations options = []")
      case True
      with u current(4) show ?thesis by (auto simp: newest_known_def at_least_def fits_db_def versions_def)
    next
      case False
      with current(3) show ?thesis by (auto simp: newest_known_def filter_empty_conv not_less)
    qed
    with u current show ?thesis by (simp add: at_least_def)
  next
    case (pending u w)
    have u: "at_least ?known fits (md_version s) u" using keep pending(1) s .
    then have known: "md_version u \<in> ?known"
      using pending(3) newest_is_known [of "mo_migrations options"] by (auto simp: at_least_def fits_db_def)
    let ?ms = "filter (\<lambda>m. md_version u < mg_version m) (mo_migrations options)"
    have srt: "sorted_wrt (<) (0 # map mg_version (mo_migrations options))"
      using assert_from_sorted pending(4) by (simp add: assertMigrationList_def)
    have w: "at_least ?known fits (md_version u) w"
      using keep pending(2) u by (metis at_least_def order_refl)
    have "md_version s \<le> md_version w" using u w by (simp add: at_least_def)
    have "at_least ?known fits (md_version s) t \<and> (\<forall>res. r = Inr res \<longrightarrow> version_after (md_version u) ?ms \<le> md_version t)"
    proof (rule run_pending_fits [OF assms(1) _ _ _ _ w \<open>md_version s \<le> md_version w\<close> pending(5)])
      show "sorted_wrt (<) (md_version u # map mg_version ?ms)" using srt by (rule sorted_pending)
      show "sound_from fits (md_version u) ?ms"
        using sound_pending [OF srt assms(2)] known by (simp add: versions_def)
      show "\<forall>k \<in> ?known. md_version u \<le> k \<longrightarrow> k = md_version u \<or> k \<in> mg_version ` set ?ms"
        using srt known by (auto simp: versions_def)
      show "mg_version ` set ?ms \<subseteq> ?known" by (auto simp: versions_def)
    qed
    moreover have "?new \<le> version_after (md_version u) ?ms"
      using newest_after [of "mo_migrations options" "md_version u"] known by (auto simp: versions_def)
    ultimately show ?thesis by (auto simp: at_least_def)
  qed
qed

end
