(* ===== verification/SchemaMigrations.thy ===== *)
theory SchemaMigrations
  imports Migrations
begin

text \<open>
  The two migrations of the node's database (\<open>src/migrations/001-baseline.ts\<close>, \<open>002-run-usage.ts\<close>) and the opening
  of the database that runs them (\<open>ControlCenterDb.init\<close>, \<open>src/db.ts\<close>), on the general runner of \<open>Migrations\<close>.
\<close>

subsection \<open>The migrations of the program\<close>

text \<open>
  The database file: its tables with their columns and the number of their rows. \<open>INIT_TABLES\<close> are the tables
  \<open>ControlCenterDb.init\<close> creates where they are missing, before the runner is called.
\<close>

record db_table =
  tb_name :: string
  tb_columns :: "string list"
  tb_rows :: int

type_synonym db_file = "db_table list"

definition INIT_TABLES :: "(string \<times> string list) list" where
  "INIT_TABLES = [
     (''tasks'', [''id'', ''goal'', ''repo'', ''base_ref'', ''requested_agent'', ''priority'', ''context'', ''success_criteria_json'', ''verification_command'', ''handoff_required'', ''status'', ''route_mode'', ''route_risk'', ''route_reasons_json'', ''latest_update'', ''claimed_by'', ''claimed_at'', ''created_at'', ''updated_at'']),
     (''route_steps'', [''id'', ''task_id'', ''sequence_no'', ''agent'', ''role'', ''required'', ''reason'', ''status'', ''run_id'', ''created_at'', ''updated_at'']),
     (''runs'', [''id'', ''task_id'', ''route_step_id'', ''adapter_run_id'', ''agent'', ''role'', ''attempt'', ''status'', ''pid'', ''worktree_path'', ''branch'', ''base_commit'', ''stdout_path'', ''stderr_path'', ''result_path'', ''exit_code'', ''signal'', ''summary'', ''error'', ''started_at'', ''finished_at'', ''created_at'', ''updated_at'']),
     (''events'', [''id'', ''task_id'', ''run_id'', ''type'', ''level'', ''message'', ''data_json'', ''created_at'']),
     (''artifacts'', [''id'', ''task_id'', ''run_id'', ''kind'', ''path'', ''relative_path'', ''sha256'', ''size_bytes'', ''metadata_json'', ''created_at'']),
     (''messages'', [''id'', ''task_id'', ''run_id'', ''direction'', ''role'', ''body'', ''delivery_status'', ''created_at'']),
     (''reviews'', [''id'', ''task_id'', ''run_id'', ''reviewer'', ''status'', ''note'', ''created_at'', ''updated_at'']),
     (''idempotency_keys'', [''key'', ''request_hash'', ''state'', ''response_status'', ''response_body_json'', ''created_at'', ''updated_at''])]"

definition table_of :: "string \<Rightarrow> db_file \<Rightarrow> db_table option" where
  "table_of name d = find (\<lambda>t. tb_name t = name) d"

definition create_if_missing :: "string \<times> string list \<Rightarrow> db_file \<Rightarrow> db_file" where
  "create_if_missing = (\<lambda>(name, columns) d. if table_of name d = None
     then d @ [\<lparr>tb_name = name, tb_columns = columns, tb_rows = 0\<rparr>] else d)"

definition init_tables :: "db_file \<Rightarrow> db_file" where
  "init_tables d = fold create_if_missing INIT_TABLES d"

definition BASELINE_TABLES :: "string list" where
  "BASELINE_TABLES = [''tasks'', ''route_steps'', ''runs'', ''events'', ''artifacts'', ''messages'', ''reviews'', ''idempotency_keys'']"

definition migration001Baseline :: "db_file migration" where
  "migration001Baseline = \<lparr>mg_version = 1, mg_name = ''baseline'', mg_expectedRowDelta = [],
     mg_up = (\<lambda>d. case find (\<lambda>name. table_of name d = None) BASELINE_TABLES of
       Some name \<Rightarrow> Inl (''Baseline migration expects table \"'' @ name @ ''\" to exist; this database was not initialized by ControlCenterDb.init()'')
     | None \<Rightarrow> Inr d)\<rparr>"

text \<open>\<open>ALTER TABLE ... ADD COLUMN\<close> fails on a missing table and on a column that is there.\<close>

definition add_column :: "string \<Rightarrow> string \<Rightarrow> db_file \<Rightarrow> string + db_file" where
  "add_column name column d = (case table_of name d of
     None \<Rightarrow> Inl (''no such table: '' @ name)
   | Some t \<Rightarrow> if column \<in> set (tb_columns t) then Inl (''duplicate column name: '' @ column)
       else Inr (map (\<lambda>t. if tb_name t = name then t\<lparr>tb_columns := tb_columns t @ [column]\<rparr> else t) d))"

definition migration002RunUsage :: "db_file migration" where
  "migration002RunUsage = \<lparr>mg_version = 2, mg_name = ''run-usage'', mg_expectedRowDelta = [],
     mg_up = add_column ''runs'' ''usage_json''\<rparr>"

definition CONTROL_CENTER_MIGRATIONS :: "db_file migration list" where
  "CONTROL_CENTER_MIGRATIONS = [migration001Baseline, migration002RunUsage]"

text \<open>A newer schema is refused before anything is written.\<close>

definition assertKnownSchemaVersion :: "db_file mig_env \<Rightarrow> (db_file, unit) mop" where
  "assertKnownSchemaVersion env =
     andThen (mpause env) (\<lambda>_.
     andThen (query md_version) (\<lambda>version.
     require (version \<le> newest_known CONTROL_CENTER_MIGRATIONS) (VersionError version (newest_known CONTROL_CENTER_MIGRATIONS))))"

definition open_database :: "db_file mig_env \<Rightarrow> string \<Rightarrow> string option \<Rightarrow> (db_file, mig_result) mop" where
  "open_database env accHome path =
     andThen (assertKnownSchemaVersion env) (\<lambda>_.
     andThen (mpause env) (\<lambda>_.
     andThen (update (md_data_update init_tables)) (\<lambda>_.
     runMigrations env \<lparr>mo_accHome = accHome, mo_migrations = CONTROL_CENTER_MIGRATIONS, mo_databasePath = path\<rparr>)))"

text \<open>The contents a version promises: the tables, and the usage column from version 2 on, exactly once.\<close>

definition runs_columns :: "db_file \<Rightarrow> string list" where
  "runs_columns d = (case table_of ''runs'' d of None \<Rightarrow> [] | Some t \<Rightarrow> tb_columns t)"

definition schema_fits :: "int \<Rightarrow> db_file \<Rightarrow> bool" where
  "schema_fits v d \<longleftrightarrow> (1 \<le> v \<longrightarrow> list_all (\<lambda>name. table_of name d \<noteq> None) BASELINE_TABLES) \<and>
     count_list (runs_columns d) ''usage_json'' = (if v < 2 then 0 else 1)"

lemma table_of_append: "table_of name (d @ [t]) = (case table_of name d of None \<Rightarrow> if tb_name t = name then Some t else None | Some u \<Rightarrow> Some u)"
  by (simp add: table_of_def find_snoc)

lemma create_keeps: "table_of n d = Some t \<Longrightarrow> table_of n (fold create_if_missing specs d) = Some t"
proof (induction specs arbitrary: d)
  case (Cons sp specs)
  then have "table_of n (create_if_missing sp d) = Some t"
    by (cases sp) (auto simp: create_if_missing_def table_of_append)
  with Cons.IH show ?case by simp
qed simp

lemma create_missing:
  "table_of n d = None \<Longrightarrow> table_of n (fold create_if_missing specs d) =
     map_option (\<lambda>columns. \<lparr>tb_name = n, tb_columns = columns, tb_rows = 0\<rparr>) (map_of specs n)"
proof (induction specs arbitrary: d)
  case (Cons sp specs)
  obtain m cols where sp: "sp = (m, cols)" by fastforce
  show ?case
  proof (cases "m = n")
    case True
    then have "table_of n (create_if_missing sp d) = Some \<lparr>tb_name = n, tb_columns = cols, tb_rows = 0\<rparr>"
      using Cons.prems sp by (simp add: create_if_missing_def table_of_append)
    from create_keeps [OF this] True sp show ?thesis by simp
  next
    case False
    then have "table_of n (create_if_missing sp d) = None"
      using Cons.prems sp by (simp add: create_if_missing_def table_of_append)
    with Cons.IH False sp show ?thesis by simp
  qed
qed simp

lemma init_runs: "map_option tb_columns (table_of ''runs'' (init_tables d)) =
    Some (case table_of ''runs'' d of None \<Rightarrow> the (map_of INIT_TABLES ''runs'') | Some t \<Rightarrow> tb_columns t)"
proof (cases "table_of ''runs'' d")
  case None
  moreover have "map_of INIT_TABLES ''runs'' \<noteq> None" by (simp add: INIT_TABLES_def)
  ultimately show ?thesis using create_missing [of "''runs''" d INIT_TABLES] by (auto simp: init_tables_def)
next
  case (Some t)
  with create_keeps [OF Some, of INIT_TABLES] show ?thesis by (simp add: init_tables_def)
qed

lemma new_runs_columns: "count_list (the (map_of INIT_TABLES ''runs'')) ''usage_json'' = 0"
  by (simp add: INIT_TABLES_def)

lemma init_fits:
  assumes "schema_fits v d"
  shows "schema_fits v (init_tables d)"
proof -
  have "table_of n d \<noteq> None \<Longrightarrow> table_of n (init_tables d) \<noteq> None" for n
    using create_keeps [of n d] by (auto simp: init_tables_def)
  moreover have "count_list (runs_columns (init_tables d)) ''usage_json'' = count_list (runs_columns d) ''usage_json''"
    using init_runs [of d] new_runs_columns by (auto simp: runs_columns_def split: option.splits)
  ultimately show ?thesis using assms by (auto simp: schema_fits_def list_all_iff)
qed

lemma table_of_map:
  "(\<And>t. tb_name (f t) = tb_name t) \<Longrightarrow> table_of n (map f d) = map_option f (table_of n d)"
  by (induction d) (auto simp: table_of_def)

lemma shipped_sound: "sound_from schema_fits 0 CONTROL_CENTER_MIGRATIONS"
proof -
  have 1: "schema_fits 1 d'" if "schema_fits 0 d" "mg_up migration001Baseline d = Inr d'" for d d'
    using that by (auto simp: migration001Baseline_def schema_fits_def list_all_iff find_None_iff split: option.splits)
  have 2: "schema_fits 2 d'" if "schema_fits 1 d" "mg_up migration002RunUsage d = Inr d'" for d d'
  proof -
    note up = that
    obtain t where t: "table_of ''runs'' d = Some t" "''usage_json'' \<notin> set (tb_columns t)"
      and d': "d' = map (\<lambda>t. if tb_name t = ''runs'' then t\<lparr>tb_columns := tb_columns t @ [''usage_json'']\<rparr> else t) d"
      using up(2) by (auto simp: migration002RunUsage_def add_column_def split: option.splits if_splits)
    have name: "tb_name t = ''runs''" using t(1) by (auto simp: table_of_def find_Some_iff)
    have tabs: "table_of n d' = map_option (\<lambda>t. if tb_name t = ''runs'' then t\<lparr>tb_columns := tb_columns t @ [''usage_json'']\<rparr> else t) (table_of n d)" for n
      unfolding d' by (rule table_of_map) simp
    have "count_list (runs_columns d') ''usage_json'' = 1"
      using t name by (simp add: runs_columns_def tabs count_list_0_iff [symmetric])
    then show ?thesis using up(1) by (simp add: schema_fits_def tabs list_all_iff)
  qed
  show ?thesis using 1 2 by (auto simp: CONTROL_CENTER_MIGRATIONS_def migration001Baseline_def migration002RunUsage_def)
qed

text \<open>
  C31 Opening the database brings every database of this program to the newest schema: whatever version it starts at
  (a fresh file, one from before migrations, a half-migrated one) and whatever other cooperative processes do at
  the same time, its tables are all there and the usage column exists exactly once when the call returns; and when
  it throws, the contents still fit the version on record.
\<close>

theorem database_opens_at_newest_schema:
  assumes "cooperative env {0, 1, 2} schema_fits" and "schema_fits (md_version s) (md_data s)" and "0 \<le> md_version s"
    and "open_database env accHome path s = (r, t)"
  shows "schema_fits (md_version t) (md_data t) \<and> md_version s \<le> md_version t \<and>
    (\<forall>res. r = Inr res \<longrightarrow> list_all (\<lambda>name. table_of name (md_data t) \<noteq> None) BASELINE_TABLES \<and>
       count_list (runs_columns (md_data t)) ''usage_json'' = 1)"
proof -
  let ?o = "\<lparr>mo_accHome = accHome, mo_migrations = CONTROL_CENTER_MIGRATIONS, mo_databasePath = path\<rparr>"
  have v: "versions CONTROL_CENTER_MIGRATIONS = {0, 1, 2}" "newest_known CONTROL_CENTER_MIGRATIONS = 2"
    by (auto simp: versions_def newest_known_def CONTROL_CENTER_MIGRATIONS_def migration001Baseline_def migration002RunUsage_def)
  let ?ok = "at_least {0, 1, 2} schema_fits (md_version s)"
  have "md_version s \<in> {0, 1, 2} \<or> (\<forall>v \<in> {0, 1, 2}. v < md_version s)" using assms(3) by auto
  with assms(2) have s: "?ok s" by (simp add: at_least_def fits_db_def)
  have pause: "?ok (snd (mpause env u))" if "?ok u" for u
    using driftsD [OF _ cooperative_keeps [OF assms(1)] that] drifts_steps(1) [of env] by (simp add: keeps_def)
  obtain u where u: "mpause env s = (Inr (), u)" by (simp add: mpause_def update_def)
  obtain w where w: "mpause env u = (Inr (), w)" by (simp add: mpause_def update_def)
  have ok: "?ok u" "?ok w" using pause [OF s] pause [of u] by (simp_all add: u w)
  have check: "assertKnownSchemaVersion env s = require (md_version u \<le> 2) (VersionError (md_version u) 2) u"
    by (simp add: assertKnownSchemaVersion_def andThen_step [where m = "mpause env", OF u] andThen_query v(2))
  show ?thesis
  proof (cases "md_version u \<le> 2")
    case False
    then have "open_database env accHome path s = (Inl (VersionError (md_version u) 2), u)"
      by (simp add: open_database_def andThen_def check require_def)
    with assms(4) ok(1) show ?thesis by (auto simp: at_least_def fits_db_def)
  next
    case True
    let ?x = "md_data_update init_tables w"
    have "assertKnownSchemaVersion env s = (Inr (), u)" using True by (simp add: check require_def)
    with assms(4) have run: "runMigrations env ?o ?x = (r, t)"
      by (simp add: open_database_def andThen_step [where m = "mpause env", OF w] andThen_def [of "assertKnownSchemaVersion env"])
        (simp add: andThen_def update_def)
    have fits: "fits_db {0, 1, 2} schema_fits ?x"
      using ok(2) init_fits [of "md_version w" "md_data w"] by (simp add: at_least_def fits_db_def)
    from concurrent_migrations [of env ?o schema_fits, OF _ _ _ run] v fits shipped_sound assms(1)
    have "fits_db {0, 1, 2} schema_fits t" "md_version w \<le> md_version t" "\<forall>res. r = Inr res \<longrightarrow> 2 \<le> md_version t" by simp_all
    with ok(2) show ?thesis by (auto simp: fits_db_def schema_fits_def at_least_def)
  qed
qed

definition quiet_env :: "db_file mig_env" where
  "quiet_env = \<lparr>me_tables = map (\<lambda>t. (tb_name t, tb_rows t)), me_other = (\<lambda>_ s. s), me_begin = (\<lambda>_. None), me_commit = (\<lambda>_. None),
     me_integrity = (\<lambda>_. Some ''ok''), me_fileSize = (\<lambda>_. 4096), me_mkdir = (\<lambda>_. None), me_vacuum = (\<lambda>_. None), me_now = (\<lambda>_. ''t'')\<rparr>"

text \<open>A database from before the migrations, with a task in it.\<close>

definition old_db :: "db_file mdb" where
  "old_db = \<lparr>md_data = [\<lparr>tb_name = ''tasks'', tb_columns = [''id''], tb_rows = 1\<rparr>], md_version = 0, md_tick = 0\<rparr>"

lemma old_db_opens: "map_sum id mr_appliedVersions (fst (open_database quiet_env ''/acc'' (Some ''/acc/db'') old_db)) = Inr [1, 2]"
  by code_simp

theorem database_opens_at_newest_schema_witness:
  "\<exists>res t. open_database quiet_env ''/acc'' (Some ''/acc/db'') old_db = (Inr res, t) \<and> mr_appliedVersions res = [1, 2] \<and>
     count_list (runs_columns (md_data t)) ''usage_json'' = 1"
proof -
  obtain r t where run: "open_database quiet_env ''/acc'' (Some ''/acc/db'') old_db = (r, t)" by fastforce
  with old_db_opens obtain res where res: "r = Inr res" "mr_appliedVersions res = [1, 2]" by (cases r) auto
  have "cooperative quiet_env {0, 1, 2} schema_fits" by (simp add: cooperative_def quiet_env_def)
  moreover have "schema_fits (md_version old_db) (md_data old_db)" "0 \<le> md_version old_db"
    by (simp_all add: schema_fits_def old_db_def runs_columns_def table_of_def)
  ultimately show ?thesis using database_opens_at_newest_schema [OF _ _ _ run] res run by auto
qed

theorem migrations_all_or_prefix_witness:
  "\<exists>k t r. runMigrations quiet_env \<lparr>mo_accHome = ''/acc'', mo_migrations = CONTROL_CENTER_MIGRATIONS, mo_databasePath = None\<rparr>
      old_db = (r, t) \<and> k \<le> 2 \<and> ups (take k CONTROL_CENTER_MIGRATIONS) (md_data old_db) = Some (md_data t)"
proof -
  let ?o = "\<lparr>mo_accHome = ''/acc'', mo_migrations = CONTROL_CENTER_MIGRATIONS, mo_databasePath = None\<rparr>"
  obtain r t where run: "runMigrations quiet_env ?o old_db = (r, t)" by fastforce
  have "alone quiet_env" by (simp add: alone_def quiet_env_def)
  moreover have pending: "filter (\<lambda>m. md_version old_db < mg_version m) (mo_migrations ?o) = CONTROL_CENTER_MIGRATIONS"
    by (simp add: CONTROL_CENTER_MIGRATIONS_def migration001Baseline_def migration002RunUsage_def old_db_def)
  moreover have "length CONTROL_CENTER_MIGRATIONS = 2" by (simp add: CONTROL_CENTER_MIGRATIONS_def)
  ultimately show ?thesis using migrations_all_or_prefix [OF _ run, unfolded pending] run by metis
qed

text \<open>
  The row-loss check compares with counts read before the write lock is taken: a row that another process deletes
  in between, as it may, is taken for a row the migration lost, and a migration that loses nothing is refused.
\<close>

definition deleting_env :: "db_file mig_env" where
  "deleting_env = quiet_env\<lparr>me_other := (\<lambda>n s. if n = 4
     then s\<lparr>md_data := map (\<lambda>t. if tb_name t = ''tasks'' then t\<lparr>tb_rows := 0\<rparr> else t) (md_data s)\<rparr> else s)\<rparr>"

lemma concurrent_delete_refused:
  "fst (open_database deleting_env ''/acc'' None old_db) =
     Inl (IntegrityError ''Migration 1 (baseline) lost rows in tasks: 1 -> 0 (minimum permitted 1)'')"
  by code_simp

end
