(* ===== verification/KernelBridge.thy ===== *)
theory KernelBridge
  imports CoordTask NodeSession
begin

text \<open>
  The execution kernel behind a federation session (\<open>src/kernel/bridge.ts\<close>, \<open>src/kernel/coordinator-bridge.ts\<close>):
  the decision on a work offer, and the execution of an accepted one, which drives the coordinator and reports
  what it observed through the node's session.

  The bridge's own state is the map of accepted offers. What it gets from outside: the bytes of a plan by digest,
  SHA-256, what \<open>JSON.parse\<close> makes of the bytes (\<open>None\<close> where it throws), and whether git finds a commit.
\<close>

subsection \<open>The simulated kernel\<close>

record simulated_kernel =
  sk_capacity :: int
  sk_decisions :: "json list"

definition new_simulated_kernel :: "int option \<Rightarrow> simulated_kernel" where
  "new_simulated_kernel availableRuns = \<lparr>sk_capacity = (case availableRuns of None \<Rightarrow> 1 | Some n \<Rightarrow> n), sk_decisions = []\<rparr>"

fun strings_of :: "json option \<Rightarrow> string list" where
  "strings_of (Some (JArr xs)) = List.map_filter (\<lambda>x. case x of JStr s \<Rightarrow> Some s | _ \<Rightarrow> None) xs"
| "strings_of _ = []"

definition requiredCapabilities :: "json \<Rightarrow> string list" where
  "requiredCapabilities offer = strings_of (json_field ''requiredCapabilities'' offer)"

definition requiredSecrets :: "json \<Rightarrow> string list" where
  "requiredSecrets offer = strings_of (json_field ''requiredSecrets'' offer)"

text \<open>The first capability, then the first secret, that the node does not have.\<close>

definition missing_precondition :: "string list \<Rightarrow> string list \<Rightarrow> json \<Rightarrow> offer_decision option" where
  "missing_precondition capabilities secrets offer =
    (case find (\<lambda>c. c \<notin> set capabilities) (requiredCapabilities offer) of
       Some c \<Rightarrow> Some (OfferDecline ''CAPABILITY_MISSING'' (Some c))
     | None \<Rightarrow> (case find (\<lambda>r. r \<notin> set secrets) (requiredSecrets offer) of
         Some r \<Rightarrow> Some (OfferDecline ''SECRET_MISSING'' (Some r))
       | None \<Rightarrow> None))"

definition simulated_decideOffer :: "string list \<Rightarrow> string list \<Rightarrow> json \<Rightarrow> (string, simulated_kernel, offer_decision) eff" where
  "simulated_decideOffer capabilities secrets offer =
     andThen (query sk_capacity) (\<lambda>capacity.
     if capacity \<le> 0 then ok (OfferDecline ''CAPACITY'' None)
     else case missing_precondition capabilities secrets offer of
       Some d \<Rightarrow> ok d
     | None \<Rightarrow> andThen (update (\<lambda>s. s\<lparr>sk_capacity := sk_capacity s - 1\<rparr>)) (\<lambda>_. ok OfferAccept))"

definition simulated_onReviewDecision :: "json \<Rightarrow> simulated_kernel \<Rightarrow> simulated_kernel" where
  "simulated_onReviewDecision decision s = s\<lparr>sk_decisions := sk_decisions s @ [decision]\<rparr>"

subsection \<open>The coordinator bridge\<close>

definition PlanDocumentSchema :: schema where
  "PlanDocumentSchema = SObj [
     (''goal'', Required, SStr 1 None),
     (''repo'', Required, SStr 1 None),
     (''agent'', Required, SEnum [''codex'', ''claude'', ''openclaw'', ''auto'']),
     (''context'', Optional, SStr 0 None),
     (''successCriteria'', Optional, SArr (SStr 0 None) 0 None),
     (''verificationCommand'', Optional, SStr 0 None)]"

text \<open>
  \<open>resolvePlan\<close> and \<open>onAccepted\<close> are callbacks of the bridge's host, whose state is \<open>'c\<close>. \<open>bo_commitExists n\<close> is
  the answer of the \<open>n\<close>-th \<open>git cat-file\<close>, counted by \<open>kb_checks\<close>.
\<close>

record 'c bridge_options =
  bo_capabilities :: "string list"
  bo_availableSecrets :: "string list"
  bo_resolvePlan :: "'c \<Rightarrow> string \<Rightarrow> string option"
  bo_onAccepted :: "string \<Rightarrow> json \<Rightarrow> 'c \<Rightarrow> 'c"
  bo_sha :: "string \<Rightarrow> string"
  bo_parseJson :: "string \<Rightarrow> json option"
  bo_commitExists :: "nat \<Rightarrow> string \<Rightarrow> string \<Rightarrow> bool"

record 'c kernel_bridge =
  kb_accepted :: "(string \<times> json \<times> json) list"
  kb_reviewDecisions :: "json list"
  kb_checks :: nat
  kb_host :: 'c

definition new_bridge :: "'c \<Rightarrow> 'c kernel_bridge" where
  "new_bridge host = \<lparr>kb_accepted = [], kb_reviewDecisions = [], kb_checks = 0, kb_host = host\<rparr>"

definition field_path :: "string list \<Rightarrow> json \<Rightarrow> json option" where
  "field_path ks v = fold (\<lambda>k r. Option.bind r (json_field k)) ks (Some v)"

definition str_at :: "string list \<Rightarrow> json \<Rightarrow> string" where
  "str_at ks v = (case field_path ks v of Some (JStr s) \<Rightarrow> s | _ \<Rightarrow> [])"

definition planDigest :: "'c bridge_options \<Rightarrow> string \<Rightarrow> string" where
  "planDigest o1 planBytes = bo_sha o1 planBytes"

definition offered_digest :: "json \<Rightarrow> string" where
  "offered_digest offer = str_at [''planRevision'', ''digest''] offer"

definition offered_commit :: "json \<Rightarrow> string" where
  "offered_commit offer = str_at [''planRevision'', ''baseCommit''] offer"

definition offered_lease :: "json \<Rightarrow> string" where
  "offered_lease offer = str_at [''lease'', ''leaseId''] offer"

text \<open>The plan of an offer: \<open>Inl\<close> is an early return, a throw is the operation's error.\<close>

definition offered_plan :: "'c bridge_options \<Rightarrow> json \<Rightarrow> (string, 'c kernel_bridge, offer_decision + json) eff" where
  "offered_plan o1 offer =
    andThen (query (\<lambda>s. bo_resolvePlan o1 (kb_host s) (offered_digest offer))) (\<lambda>resolved. case resolved of
      None \<Rightarrow> ok (Inl (OfferDecline ''CAPABILITY_MISSING'' (Some ''plan bytes unavailable for digest'')))
    | Some planBytes \<Rightarrow>
        if planDigest o1 planBytes \<noteq> offered_digest offer
        then fail ''plan bytes do not match the offered plan digest''
        else (case bo_parseJson o1 planBytes of
          None \<Rightarrow> ok (Inl (OfferDecline ''POLICY_BUNDLE_UNSUPPORTED'' (Some ''plan document is not valid JSON'')))
        | Some rawPlan \<Rightarrow> (case parse (\<lambda>_. True) PlanDocumentSchema rawPlan of
            None \<Rightarrow> ok (Inl (OfferDecline ''POLICY_BUNDLE_UNSUPPORTED'' (Some ''plan document schema unsupported by this node version'')))
          | Some plan \<Rightarrow> ok (Inr plan))))"

definition has_commit :: "'c bridge_options \<Rightarrow> string \<Rightarrow> string \<Rightarrow> (string, 'c kernel_bridge, bool) eff" where
  "has_commit o1 repo commit =
    andThen (query (\<lambda>s. bo_commitExists o1 (kb_checks s) repo commit)) (\<lambda>found.
    andThen (update (\<lambda>s. s\<lparr>kb_checks := Suc (kb_checks s)\<rparr>)) (\<lambda>_. ok found))"

definition decideOffer :: "'c bridge_options \<Rightarrow> json \<Rightarrow> (string, 'c kernel_bridge, offer_decision) eff" where
  "decideOffer o1 offer =
    (case missing_precondition (bo_capabilities o1) (bo_availableSecrets o1) offer of
       Some d \<Rightarrow> ok d
     | None \<Rightarrow> andThen (offered_plan o1 offer) (\<lambda>r. case r of
         Inl d \<Rightarrow> ok d
       | Inr plan \<Rightarrow> andThen (has_commit o1 (str_at [''repo''] plan) (offered_commit offer)) (\<lambda>found.
           if \<not> found
           then ok (OfferDecline ''REPO_BASE_UNAVAILABLE'' (Some (offered_commit offer @ '' not present in '' @ str_at [''repo''] plan)))
           else
             andThen (update (\<lambda>s. s\<lparr>kb_accepted := map_set (offered_lease offer) (offer, plan) (kb_accepted s)\<rparr>)) (\<lambda>_.
             andThen (update (\<lambda>s. s\<lparr>kb_host := bo_onAccepted o1 (offered_lease offer) offer (kb_host s)\<rparr>)) (\<lambda>_.
             ok OfferAccept)))))"

definition onReviewDecision :: "json \<Rightarrow> 'c kernel_bridge \<Rightarrow> 'c kernel_bridge" where
  "onReviewDecision decision s = s\<lparr>kb_reviewDecisions := kb_reviewDecisions s @ [decision]\<rparr>"

subsection \<open>Executing an accepted offer\<close>

text \<open>The node: the coordinator and the session, whose kernel is the bridge.\<close>

record ('w, 's, 'c) node =
  nd_coord :: "'w coord"
  nd_session :: "('s, 'c kernel_bridge) session"

datatype node_error = CoordinatorThrew coord_error | SessionThrew session_error | BridgeThrew string

type_synonym ('w, 's, 'c, 'a) node_op = "(node_error, ('w, 's, 'c) node, 'a) eff"

definition in_coord :: "('w, 'a) op \<Rightarrow> ('w, 's, 'c, 'a) node_op" where
  "in_coord m n = (case m (nd_coord n) of (r, c) \<Rightarrow> (map_sum CoordinatorThrew id r, n\<lparr>nd_coord := c\<rparr>))"

definition in_session :: "('s, 'c kernel_bridge, 'a) session_op \<Rightarrow> ('w, 's, 'c, 'a) node_op" where
  "in_session m n = (case m (nd_session n) of (r, s) \<Rightarrow> (map_sum SessionThrew id r, n\<lparr>nd_session := s\<rparr>))"

definition opt_json :: "string \<Rightarrow> json \<Rightarrow> (string \<times> json) list" where
  "opt_json k plan = (case json_field k plan of None \<Rightarrow> [] | Some v \<Rightarrow> [(k, v)])"

definition task_request :: "json \<Rightarrow> json \<Rightarrow> json" where
  "task_request offer plan = JObj ([(''goal'', JStr (str_at [''goal''] plan)), (''repo'', JStr (str_at [''repo''] plan)),
     (''agent'', JStr (str_at [''agent''] plan)), (''baseRef'', JStr (offered_commit offer))] @
     opt_json ''context'' plan @ opt_json ''successCriteria'' plan @ opt_json ''verificationCommand'' plan)"

definition json_or_null :: "string option \<Rightarrow> json" where
  "json_or_null v = (case v of None \<Rightarrow> JNull | Some s \<Rightarrow> JStr s)"

definition run_evidence :: "run_row \<Rightarrow> json" where
  "run_evidence r = JObj [(''localRunId'', JStr (r_id r)), (''status'', JStr (enum_name RunStatusSchema (r_status r))),
     (''exitCode'', (case r_exit_code r of None \<Rightarrow> JNull | Some n \<Rightarrow> JNum n)),
     (''resultPath'', json_or_null (r_result_path r)), (''usageJson'', json_or_null (r_usage_json r))]"

definition sha256Hex :: "'c bridge_options \<Rightarrow> json \<Rightarrow> string" where
  "sha256Hex o1 v = bo_sha o1 (canonicalJson v)"

record execution_outcome =
  eo_runResult :: run_task_result
  eo_localTaskId :: string
  eo_completionEnvelope :: json

text \<open>
  \<open>nv_received n\<close> is what the session receives while the \<open>n\<close>-th awaited call of the coordinator is running.
\<close>

record ('w, 's, 'c) node_env =
  nv_coord :: "'w coord_env"
  nv_session :: "('s, 'c kernel_bridge) session_env"
  nv_bridge :: "'c bridge_options"
  nv_stepIds :: "nat \<Rightarrow> string"
  nv_received :: "nat \<Rightarrow> ('s, 'c kernel_bridge) session \<Rightarrow> ('s, 'c kernel_bridge) session"

definition await_coord :: "('w, 's, 'c) node_env \<Rightarrow> ('w, 'a) op \<Rightarrow> ('w, 's, 'c, 'a) node_op" where
  "await_coord env m = with_cleanup (in_coord m) (update (\<lambda>n. n\<lparr>nd_session := nv_received env (co_tick (nd_coord n)) (nd_session n)\<rparr>))"

definition report_event :: "('w, 's, 'c) node_env \<Rightarrow> json \<Rightarrow> int \<Rightarrow> string \<Rightarrow> (string \<times> json) list \<Rightarrow> ('w, 's, 'c, unit) node_op" where
  "report_event env offer now kind data =
     andThen (in_session (emitEvent (nv_session env) kind data (Some (str_field ''runId'' offer)) (Some (str_field ''taskId'' offer)) now)) (\<lambda>_. ok ())"

definition execution_status :: "run_task_result \<Rightarrow> string" where
  "execution_status result = (if rt_status result = ResBlocked then ''failed'' else ''succeeded'')"

definition taskRevision :: "json \<Rightarrow> json" where
  "taskRevision offer = JNum (json_int (json_field ''taskRevision'' offer))"

definition completion_facts :: "'c bridge_options \<Rightarrow> json \<Rightarrow> run_task_result \<Rightarrow> string \<Rightarrow> json" where
  "completion_facts o1 offer result manifest = JObj [(''runId'', JStr (str_field ''runId'' offer)), (''taskRevision'', taskRevision offer),
     (''planRevisionDigest'', JStr (offered_digest offer)), (''outcome'', JStr (execution_status result)),
     (''evidenceManifestDigest'', JStr manifest)]"

definition completion_payload :: "'c bridge_options \<Rightarrow> json \<Rightarrow> run_task_result \<Rightarrow> run_row list \<Rightarrow> int \<Rightarrow> json" where
  "completion_payload o1 offer result rows finalCursor =
     (let manifest = sha256Hex o1 (JArr (map run_evidence rows)) in
      JObj [(''runId'', JStr (str_field ''runId'' offer)), (''taskId'', JStr (str_field ''taskId'' offer)),
        (''taskRevision'', taskRevision offer), (''planRevisionDigest'', JStr (offered_digest offer)),
        (''outcome'', JStr (execution_status result)),
        (''completionDigest'', JStr (sha256Hex o1 (completion_facts o1 offer result manifest))),
        (''evidenceManifestDigest'', JStr manifest), (''finalCursor'', JNum finalCursor)])"

definition accepted_entry :: "string \<Rightarrow> ('w, 's, 'c) node \<Rightarrow> (json \<times> json) option" where
  "accepted_entry leaseId n = map_of (kb_accepted (sn_kernel (nd_session n))) leaseId"

definition executeAccepted :: "('w, 's, 'c) node_env \<Rightarrow> string \<Rightarrow> int \<Rightarrow> ('w, 's, 'c, execution_outcome) node_op" where
  "executeAccepted env leaseId now =
     andThen (query (accepted_entry leaseId)) (\<lambda>entry.
     andThen (orThrow (BridgeThrew (''no accepted offer for lease '' @ leaseId)) entry) (\<lambda>(offer, plan).
     andThen (report_event env offer now ''run.started'' [(''leaseId'', JStr leaseId), (''planRevisionDigest'', JStr (offered_digest offer))]) (\<lambda>_.
     andThen (await_coord env (coord_createTask (nv_coord env) (nv_stepIds env) (task_request offer plan))) (\<lambda>created.
     let localTaskId = tr_id (ag_task created) in
     andThen (await_coord env (runNext (nv_coord env))) (\<lambda>ran.
     andThen (orThrow (BridgeThrew ''kernel did not execute the task created for this offer'')
       (case ran of None \<Rightarrow> None | Some result \<Rightarrow> if rt_taskId result = localTaskId then Some result else None)) (\<lambda>result.
     andThen (await_coord env (call_db (nv_coord env) (\<lambda>_ _ _ _. getTask localTaskId))) (\<lambda>found.
     andThen (orThrow (BridgeThrew ''executed task disappeared'') found) (\<lambda>aggregate.
     andThen (forEach (ag_events aggregate) (\<lambda>event. report_event env offer now (''kernel.'' @ e_type event)
       [(''localTaskId'', JStr localTaskId), (''localEventId'', JNum (int (e_id event)))])) (\<lambda>_.
     andThen (report_event env offer now ''run.completion_proposed''
       [(''localTaskId'', JStr localTaskId), (''status'', JStr (result_status_name (rt_status result)))]) (\<lambda>_.
     andThen (query (\<lambda>n. sn_nodeCursor (nd_session n))) (\<lambda>finalCursor.
     andThen (in_session (proposeCompletion (nv_session env)
       (completion_payload (nv_bridge env) offer result (ag_runs aggregate) finalCursor) now)) (\<lambda>envelope.
     ok \<lparr>eo_runResult = result, eo_localTaskId = localTaskId, eo_completionEnvelope = envelope\<rparr>))))))))))))"

subsection \<open>The decision\<close>

text \<open>The plan is the one the digest names: bytes that hash to it, and that parse to this document.\<close>

definition authentic_plan :: "'c bridge_options \<Rightarrow> string \<Rightarrow> string \<Rightarrow> json \<Rightarrow> bool" where
  "authentic_plan o1 digest planBytes plan \<longleftrightarrow> bo_sha o1 planBytes = digest
     \<and> (\<exists>raw. bo_parseJson o1 planBytes = Some raw \<and> parse (\<lambda>_. True) PlanDocumentSchema raw = Some plan)"

definition satisfiable :: "string list \<Rightarrow> string list \<Rightarrow> json \<Rightarrow> bool" where
  "satisfiable capabilities secrets offer \<longleftrightarrow>
     set (requiredCapabilities offer) \<subseteq> set capabilities \<and> set (requiredSecrets offer) \<subseteq> set secrets"

lemma found_in: "find P xs = Some x \<Longrightarrow> x \<in> set xs \<and> P x"
  by (auto simp: find_Some_iff)

lemma missing_precondition_None: "missing_precondition caps secrets offer = None \<longleftrightarrow> satisfiable caps secrets offer"
  by (auto simp: missing_precondition_def satisfiable_def find_None_iff subset_iff dest: found_in split: option.splits)

lemma missing_precondition_Some:
  assumes "missing_precondition caps secrets offer = Some d"
  shows "(\<exists>c \<in> set (requiredCapabilities offer). c \<notin> set caps \<and> d = OfferDecline ''CAPABILITY_MISSING'' (Some c))
    \<or> (\<exists>r \<in> set (requiredSecrets offer). r \<notin> set secrets \<and> d = OfferDecline ''SECRET_MISSING'' (Some r))"
  using assms by (auto simp: missing_precondition_def dest: found_in split: option.splits)

lemma offered_plan_state: "snd (offered_plan o1 offer s) = s"
  by (simp add: offered_plan_def andThen_query ok_def fail_def split: option.splits)

lemma offered_plan_Inr:
  "offered_plan o1 offer s = (Inr (Inr plan), t) \<longleftrightarrow> t = s
     \<and> (\<exists>b. bo_resolvePlan o1 (kb_host s) (offered_digest offer) = Some b \<and> authentic_plan o1 (offered_digest offer) b plan)"
  by (auto simp: offered_plan_def andThen_query ok_def fail_def authentic_plan_def planDigest_def split: option.splits if_splits)

lemma offered_plan_Inl:
  "offered_plan o1 offer s = (Inl e, t) \<Longrightarrow>
     (\<exists>b. bo_resolvePlan o1 (kb_host s) (offered_digest offer) = Some b \<and> bo_sha o1 b \<noteq> offered_digest offer)"
  by (auto simp: offered_plan_def andThen_query ok_def fail_def planDigest_def split: option.splits if_splits)

lemma offered_plan_declines:
  "offered_plan o1 offer s = (Inr (Inl d), t) \<Longrightarrow> \<exists>reason detail. d = OfferDecline reason detail
     \<and> (\<forall>b plan. bo_resolvePlan o1 (kb_host s) (offered_digest offer) = Some b \<longrightarrow> \<not> authentic_plan o1 (offered_digest offer) b plan)"
  by (auto simp: offered_plan_def andThen_query ok_def fail_def planDigest_def authentic_plan_def split: option.splits if_splits)

definition acceptable :: "'c bridge_options \<Rightarrow> 'c kernel_bridge \<Rightarrow> json \<Rightarrow> json \<Rightarrow> bool" where
  "acceptable o1 s offer plan \<longleftrightarrow> satisfiable (bo_capabilities o1) (bo_availableSecrets o1) offer
     \<and> (\<exists>b. bo_resolvePlan o1 (kb_host s) (offered_digest offer) = Some b \<and> authentic_plan o1 (offered_digest offer) b plan)
     \<and> bo_commitExists o1 (kb_checks s) (str_at [''repo''] plan) (offered_commit offer)"

definition recorded :: "'c bridge_options \<Rightarrow> json \<Rightarrow> json \<Rightarrow> 'c kernel_bridge \<Rightarrow> 'c kernel_bridge" where
  "recorded o1 offer plan s = s\<lparr>kb_accepted := map_set (offered_lease offer) (offer, plan) (kb_accepted s),
     kb_checks := Suc (kb_checks s), kb_host := bo_onAccepted o1 (offered_lease offer) offer (kb_host s)\<rparr>"

lemma acceptable_unique: "acceptable o1 s offer plan \<Longrightarrow> acceptable o1 s offer plan' \<Longrightarrow> plan' = plan"
  by (auto simp: acceptable_def authentic_plan_def)

lemma accepts: "acceptable o1 s offer plan \<Longrightarrow> decideOffer o1 offer s = (Inr OfferAccept, recorded o1 offer plan s)"
proof -
  assume a: "acceptable o1 s offer plan"
  then have "offered_plan o1 offer s = (Inr (Inr plan), s)" by (simp add: offered_plan_Inr acceptable_def)
  with a show ?thesis
    by (simp add: decideOffer_def acceptable_def missing_precondition_None [symmetric] has_commit_def recorded_def
        andThen_def query_def update_def ok_def)
qed

lemma not_accepted:
  assumes no: "\<nexists>plan. acceptable o1 s offer plan"
  shows "fst (decideOffer o1 offer s) \<noteq> Inr OfferAccept \<and> kb_accepted (snd (decideOffer o1 offer s)) = kb_accepted s
    \<and> kb_host (snd (decideOffer o1 offer s)) = kb_host s
    \<and> (\<forall>e. fst (decideOffer o1 offer s) = Inl e \<longrightarrow> snd (decideOffer o1 offer s) = s
         \<and> (\<exists>b. bo_resolvePlan o1 (kb_host s) (offered_digest offer) = Some b \<and> bo_sha o1 b \<noteq> offered_digest offer))"
proof (cases "missing_precondition (bo_capabilities o1) (bo_availableSecrets o1) offer")
  case (Some d)
  with no missing_precondition_Some [OF Some] show ?thesis by (auto simp: decideOffer_def ok_def)
next
  case None
  obtain r where r: "offered_plan o1 offer s = (r, s)" using offered_plan_state [of o1 offer s] by (metis prod.collapse)
  show ?thesis
  proof (cases r)
    case (Inl e)
    from offered_plan_Inl [OF r [unfolded Inl]] r None no Inl show ?thesis by (simp add: decideOffer_def andThen_def)
  next
    case (Inr x)
    show ?thesis
    proof (cases x)
      case (Inl d)
      from offered_plan_declines [OF r [unfolded Inr Inl]] r None no Inr Inl show ?thesis
        by (auto simp: decideOffer_def andThen_def ok_def)
    next
      case plan: (Inr plan)
      with r Inr have "\<exists>b. bo_resolvePlan o1 (kb_host s) (offered_digest offer) = Some b \<and> authentic_plan o1 (offered_digest offer) b plan"
        by (simp add: offered_plan_Inr)
      with no None have "\<not> bo_commitExists o1 (kb_checks s) (str_at [''repo''] plan) (offered_commit offer)"
        by (auto simp: acceptable_def missing_precondition_None)
      with r Inr plan None no show ?thesis
        by (simp add: decideOffer_def andThen_def has_commit_def query_def update_def ok_def)
    qed
  qed
qed

text \<open>
  C23 An offer is decided on its checks alone. The bridge accepts exactly when the node has every capability and
  secret the offer needs, the plan bytes it holds hash to the offered digest and parse as a plan document, and
  git has the base commit; it then records the offer with that plan under its lease and calls \<open>onAccepted\<close>.
  Bytes that do not match the digest throw and change nothing; any other decision is a decline that records and
  notifies nothing.
\<close>
theorem offer_decided_on_checks:
  shows "(fst (decideOffer o1 offer s) = Inr OfferAccept \<longleftrightarrow> (\<exists>plan. acceptable o1 s offer plan))
    \<and> (\<forall>plan. acceptable o1 s offer plan \<longrightarrow> snd (decideOffer o1 offer s) = recorded o1 offer plan s)
    \<and> (\<forall>e. fst (decideOffer o1 offer s) = Inl e \<longrightarrow> snd (decideOffer o1 offer s) = s
         \<and> (\<exists>b. bo_resolvePlan o1 (kb_host s) (offered_digest offer) = Some b \<and> bo_sha o1 b \<noteq> offered_digest offer))
    \<and> (\<forall>reason detail. fst (decideOffer o1 offer s) = Inr (OfferDecline reason detail) \<longrightarrow>
         kb_accepted (snd (decideOffer o1 offer s)) = kb_accepted s \<and> kb_host (snd (decideOffer o1 offer s)) = kb_host s)"
proof (cases "\<exists>plan. acceptable o1 s offer plan")
  case True
  then obtain plan where plan: "acceptable o1 s offer plan" ..
  have "acceptable o1 s offer plan' \<longleftrightarrow> plan' = plan" for plan' using acceptable_unique [OF plan] plan by blast
  then show ?thesis by (simp add: accepts [OF plan])
next
  case False
  with not_accepted [OF this] show ?thesis by blast
qed

text \<open>The simulated kernel accepts at most as many offers as the capacity it was built with.\<close>

lemma simulated_capacity:
  assumes "simulated_decideOffer caps secrets offer s = (r, t)" and "0 \<le> sk_capacity s"
  shows "0 \<le> sk_capacity t" and "sk_capacity t = sk_capacity s - (if r = Inr OfferAccept then 1 else 0)"
proof -
  have "d \<noteq> OfferAccept" if "missing_precondition caps secrets offer = Some d" for d
    using missing_precondition_Some [OF that] by auto
  with assms show "0 \<le> sk_capacity t" and "sk_capacity t = sk_capacity s - (if r = Inr OfferAccept then 1 else 0)"
    by (auto simp: simulated_decideOffer_def andThen_def query_def update_def ok_def split: if_splits option.splits)
qed

end
