(* ===== verification/NodeRuntime.thy ===== *)
theory NodeRuntime
  imports KernelBridge
begin

text \<open>
  The node runtime (\<open>src/node/node-runtime.ts\<close>, class \<open>NodeConnection\<close>, and the reconnect loop of
  \<open>src/node/ws-client.ts\<close>): the plan cache, the queue of accepted leases and the chain of promises that executes
  them one at a time, over the session, the bridge and the coordinator.

  The connection is the bridge's host: its callbacks read the plan cache and enqueue leases. A frame on the socket
  and the end of a plan fetch can come while a lease is executing; a step is a frame, a fetch, a change of the
  connection, or one round of the drain loop.
\<close>

subsection \<open>The host of the bridge\<close>

text \<open>\<open>ho_drains\<close> counts the calls of \<open>#drain\<close> chained to \<open>#executing\<close>; \<open>ho_enqueued\<close> records the calls of \<open>enqueue\<close>.\<close>

record host =
  ho_planCache :: "(string \<times> string) list"
  ho_pendingLeases :: "string list"
  ho_drains :: nat
  ho_enqueued :: "string list"

definition new_host :: host where
  "new_host = \<lparr>ho_planCache = [], ho_pendingLeases = [], ho_drains = 0, ho_enqueued = []\<rparr>"

definition planFromCache :: "host \<Rightarrow> string \<Rightarrow> string option" where
  "planFromCache host digest = map_of (ho_planCache host) digest"

definition enqueue :: "string \<Rightarrow> json \<Rightarrow> host \<Rightarrow> host" where
  "enqueue leaseId offer host = host\<lparr>ho_pendingLeases := ho_pendingLeases host @ [leaseId],
     ho_drains := Suc (ho_drains host), ho_enqueued := ho_enqueued host @ [leaseId]\<rparr>"

text \<open>The digest whose plan a frame needs; the answer of the fetch, if it came.\<close>

definition wanted_plan :: "json \<Rightarrow> string option" where
  "wanted_plan raw = (if json_field ''type'' raw \<noteq> Some (JStr ''work.offer'') then None
     else case field_path [''payload'', ''planRevision'', ''digest''] raw of Some (JStr d) \<Rightarrow> Some d | _ \<Rightarrow> None)"

datatype plan_reply = FetchThrew | FetchNotOk | FetchBody json

definition prefetchPlan :: "bool \<Rightarrow> plan_reply \<Rightarrow> string \<Rightarrow> host \<Rightarrow> host" where
  "prefetchPlan cached reply digest host =
     (if cached then host
      else case reply of
        FetchBody body \<Rightarrow> (case json_field ''planBytes'' body of
          Some (JStr planBytes) \<Rightarrow> host\<lparr>ho_planCache := map_set digest planBytes (ho_planCache host)\<rparr>
        | _ \<Rightarrow> host)
      | _ \<Rightarrow> host)"

definition host_options :: "host bridge_options \<Rightarrow> host bridge_options" where
  "host_options o1 = o1\<lparr>bo_resolvePlan := planFromCache, bo_onAccepted := enqueue\<rparr>"

subsection \<open>The connection\<close>

text \<open>
  \<open>cx_rejected\<close>: the chain \<open>#executing\<close> is a rejected promise, so no callback chained to it runs. \<open>cx_log\<close> records
  the calls of \<open>executeAccepted\<close> with what they gave; \<open>Inr (o, sent)\<close> is an outcome and whether the socket was open.
\<close>

record ('w, 's) connection =
  cx_node :: "('w, 's, host) node"
  cx_rejected :: bool
  cx_log :: "(string \<times> (node_error + execution_outcome \<times> bool)) list"

abbreviation cx_bridge :: "('w, 's) connection \<Rightarrow> host kernel_bridge" where
  "cx_bridge c \<equiv> sn_kernel (nd_session (cx_node c))"

abbreviation cx_host :: "('w, 's) connection \<Rightarrow> host" where
  "cx_host c \<equiv> kb_host (cx_bridge c)"

definition on_session :: "(('s, host kernel_bridge) session \<Rightarrow> ('s, host kernel_bridge) session) \<Rightarrow> ('w, 's) connection \<Rightarrow> ('w, 's) connection" where
  "on_session f c = c\<lparr>cx_node := (cx_node c)\<lparr>nd_session := f (nd_session (cx_node c))\<rparr>\<rparr>"

definition on_host :: "(host \<Rightarrow> host) \<Rightarrow> ('s, host kernel_bridge) session \<Rightarrow> ('s, host kernel_bridge) session" where
  "on_host f s = s\<lparr>sn_kernel := (sn_kernel s)\<lparr>kb_host := f (kb_host (sn_kernel s))\<rparr>\<rparr>"

text \<open>
  One round of the loop of \<open>#drain\<close>: it ends the drain when nothing is pending, and otherwise executes the first
  lease, flushes the events and sends the completion if the socket is open. A throw rejects the chain.
\<close>

definition shift_lease :: "host \<Rightarrow> host" where
  "shift_lease host = host\<lparr>ho_pendingLeases := tl (ho_pendingLeases host)\<rparr>"

definition end_drain :: "host \<Rightarrow> host" where
  "end_drain host = host\<lparr>ho_drains := ho_drains host - 1\<rparr>"

definition execute_lease :: "('w, 's, host) node_env \<Rightarrow> string \<Rightarrow> int \<Rightarrow> bool \<Rightarrow> ('w, 's, host, execution_outcome \<times> bool) node_op" where
  "execute_lease env leaseId now isOpen =
     andThen (executeAccepted env leaseId now) (\<lambda>outcome.
     andThen (in_session (flush (nv_session env) now None)) (\<lambda>_.
     ok (outcome, isOpen)))"

definition drain_round :: "('w, 's, host) node_env \<Rightarrow> int \<Rightarrow> bool \<Rightarrow> ('w, 's) connection \<Rightarrow> ('w, 's) connection" where
  "drain_round env now isOpen c = (case ho_pendingLeases (cx_host c) of
     [] \<Rightarrow> on_session (on_host end_drain) c
   | leaseId # rest \<Rightarrow>
       (case execute_lease env leaseId now isOpen (cx_node (on_session (on_host shift_lease) c)) of (r, n) \<Rightarrow>
          c\<lparr>cx_node := n, cx_rejected := (case r of Inl _ \<Rightarrow> True | Inr _ \<Rightarrow> False), cx_log := cx_log c @ [(leaseId, r)]\<rparr>))"

text \<open>What happens on the session beside the drain loop: frames, plan fetches, handshakes, flushes.\<close>

inductive traffic :: "('s, host kernel_bridge) session_env \<Rightarrow> ('s, host kernel_bridge) session \<Rightarrow> ('s, host kernel_bridge) session \<Rightarrow> bool" for env where
  traffic_frame: "traffic env s (snd (receive env raw now s))"
| traffic_plan: "wanted_plan raw = Some digest \<Longrightarrow> traffic env s (on_host (prefetchPlan cached reply digest) s)"
| traffic_handshake: "traffic env s (snd (startHandshake env now s))"
| traffic_disconnect: "traffic env s (snd (disconnect s))"
| traffic_flush: "traffic env s (snd (flush env now fromCursor s))"

inductive connection_step :: "('w, 's, host) node_env \<Rightarrow> ('w, 's) connection \<Rightarrow> ('w, 's) connection \<Rightarrow> bool" for env where
  connection_traffic: "traffic (nv_session env) (nd_session (cx_node c)) s \<Longrightarrow> connection_step env c (on_session (\<lambda>_. s) c)"
| connection_drain: "ho_drains (cx_host c) > 0 \<Longrightarrow> \<not> cx_rejected c \<Longrightarrow> connection_step env c (drain_round env now isOpen c)"

text \<open>\<open>NodeConnection.start\<close> builds the bridge and the session over the store; nothing of the host is stored.\<close>

definition start_connection :: "('w, 's, host) node_env \<Rightarrow> 'w coord \<Rightarrow> 's \<Rightarrow> session_error + ('w, 's) connection" where
  "start_connection env coord st = (case newSession (nv_session env) st (new_bridge new_host) of
     Inl e \<Rightarrow> Inl e
   | Inr s \<Rightarrow> Inr \<lparr>cx_node = \<lparr>nd_coord = coord, nd_session = s\<rparr>, cx_rejected = False, cx_log = []\<rparr>)"

text \<open>The wiring: the session's kernel is the bridge, and what the session receives during an execution is traffic.\<close>

definition wired :: "('w, 's, host) node_env \<Rightarrow> bool" where
  "wired env \<longleftrightarrow> se_decideOffer (nv_session env) = decideOffer (host_options (nv_bridge env))
     \<and> se_onReviewDecision (nv_session env) = Some onReviewDecision
     \<and> (\<forall>n s. (traffic (nv_session env))\<^sup>*\<^sup>* s (nv_received env n s))"

subsection \<open>Reconnecting\<close>

text \<open>
  \<open>reconnectWithBackoff\<close>: \<open>connects n\<close> is the result of the \<open>n\<close>-th call of \<open>connect\<close>, which resets the counter of
  attempts when it succeeds. The result is the error rethrown, if any, the counter, and the upper bounds of the
  jittered delays that were waited.
\<close>

function reconnect_from :: "int \<Rightarrow> int \<Rightarrow> int \<Rightarrow> (nat \<Rightarrow> string option) \<Rightarrow> nat \<Rightarrow> int \<Rightarrow> int list \<Rightarrow> string option \<times> int \<times> int list" where
  "reconnect_from base capMs maxAttempts connects n attempts waited = (case connects n of
     None \<Rightarrow> (None, 0, waited)
   | Some e \<Rightarrow>
       if maxAttempts \<le> attempts + 1 then (Some e, attempts + 1, waited)
       else reconnect_from base capMs maxAttempts connects (Suc n) (attempts + 1)
         (waited @ [min capMs (base * 2 ^ nat (attempts + 1))]))"
  by auto
termination by (relation "measure (\<lambda>(_, _, maxAttempts, _, _, attempts, _). nat (maxAttempts - attempts))") auto

declare reconnect_from.simps [simp del]

definition reconnectWithBackoff :: "int \<Rightarrow> int \<Rightarrow> int \<Rightarrow> (nat \<Rightarrow> string option) \<Rightarrow> int \<Rightarrow> string option \<times> int \<times> int list" where
  "reconnectWithBackoff base capMs maxAttempts connects attempts = reconnect_from base capMs maxAttempts connects 0 attempts []"

subsection \<open>What a session does to its kernel\<close>

text \<open>
  The contract between the session and the kernel behind it: a relation that the two callbacks keep is kept by
  every operation of the session, since it touches the kernel through them only.
\<close>

locale kernel_contract = evolution R for R :: "'k \<Rightarrow> 'k \<Rightarrow> bool" +
  fixes decide :: "json \<Rightarrow> (string, 'k, offer_decision) eff" and review :: "json \<Rightarrow> 'k \<Rightarrow> 'k"
  assumes decide_keeps: "keeps R (decide offer)" and review_keeps: "R k (review decision k)"
begin

lemma on_kernel: "evolution (\<lambda>(s :: ('s, 'k) session) t. R (sn_kernel s) (sn_kernel t))"
  by unfold_locales (auto intro: refl trans)

lemmas kernel_rules = evolution.keeps_rules [OF on_kernel]

lemma same_kernel: "(\<And>s. sn_kernel (snd (m s)) = sn_kernel s) \<Longrightarrow> keeps (\<lambda>(s :: ('s, 'k) session) t. R (sn_kernel s) (sn_kernel t)) m"
  by (simp add: keeps_def refl)

lemma basic_keeps:
  "keeps (\<lambda>(s :: ('s, 'k) session) t. R (sn_kernel s) (sn_kernel t)) (uuid env now)"
  "keeps (\<lambda>(s :: ('s, 'k) session) t. R (sn_kernel s) (sn_kernel t)) (store_op m)"
  "keeps (\<lambda>(s :: ('s, 'k) session) t. R (sn_kernel s) (sn_kernel t)) (check_duplicate i)"
  "keeps (\<lambda>(s :: ('s, 'k) session) t. R (sn_kernel s) (sn_kernel t)) disconnect"
  by (rule same_kernel; simp add: uuid_def store_op_def check_duplicate_def disconnect_def update_def split: prod.splits sum.splits)+

lemma seal_keeps: "keeps (\<lambda>(s :: ('s, 'k) session) t. R (sn_kernel s) (sn_kernel t)) (seal env ty payload now extra)"
  unfolding seal_def by (intro kernel_rules basic_keeps) (simp add: refl)

lemma handshake_keeps: "keeps (\<lambda>(s :: ('s, 'k) session) t. R (sn_kernel s) (sn_kernel t)) (startHandshake env now)"
  unfolding startHandshake_def by (intro kernel_rules basic_keeps seal_keeps) (simp add: refl)

lemma drop_keeps: "keeps (\<lambda>(s :: ('s, 'k) session) t. R (sn_kernel s) (sn_kernel t)) (drop_victims env n unacked dropped)"
proof (induction n arbitrary: unacked dropped)
  case (Suc n)
  show ?case unfolding drop_victims.simps by (intro kernel_rules basic_keeps Suc.IH)
qed (unfold drop_victims.simps, intro kernel_rules)

lemma emit_keeps: "keeps (\<lambda>(s :: ('s, 'k) session) t. R (sn_kernel s) (sn_kernel t)) (emitEvent env kind data runId taskId now)"
  unfolding emitEvent_def enforceBufferBounds_def Let_def
  by (intro kernel_rules basic_keeps drop_keeps) (simp add: refl)

lemma batches_keep: "keeps (\<lambda>(s :: ('s, 'k) session) t. R (sn_kernel s) (sn_kernel t)) (send_batches env now m batches out)"
proof (induction batches arbitrary: out)
  case (Cons evs batches)
  show ?case unfolding send_batches.simps by (intro kernel_rules basic_keeps seal_keeps Cons.IH)
qed (unfold send_batches.simps, intro kernel_rules)

lemma flush_keeps: "keeps (\<lambda>(s :: ('s, 'k) session) t. R (sn_kernel s) (sn_kernel t)) (flush env now fromCursor)"
  unfolding flush_def by (intro kernel_rules basic_keeps batches_keep)

lemma propose_keeps: "keeps (\<lambda>(s :: ('s, 'k) session) t. R (sn_kernel s) (sn_kernel t)) (proposeCompletion env payload now)"
  unfolding proposeCompletion_def by (intro kernel_rules seal_keeps)

lemma answer_keeps:
  "keeps (\<lambda>(s :: ('s, 'k) session) t. R (sn_kernel s) (sn_kernel t)) (nack env now i code retry detail)"
  "keeps (\<lambda>(s :: ('s, 'k) session) t. R (sn_kernel s) (sn_kernel t)) (ack env now i)"
  "keeps (\<lambda>(s :: ('s, 'k) session) t. R (sn_kernel s) (sn_kernel t)) (send_answer env now idem i a)"
  unfolding nack_def ack_def send_answer_def by (intro kernel_rules seal_keeps)+

lemma decide_offer_keeps:
  "se_decideOffer env = decide \<Longrightarrow> keeps (\<lambda>(s :: ('s, 'k) session) t. R (sn_kernel s) (sn_kernel t)) (decide_offer env offer)"
  using decide_keeps by (auto simp: keeps_def decide_offer_def split: prod.splits sum.splits; metis snd_conv)

lemma summary_keeps: "keeps (\<lambda>(s :: ('s, 'k) session) t. R (sn_kernel s) (sn_kernel t)) (reconcileSummary env now)"
  unfolding reconcileSummary_def by (intro kernel_rules basic_keeps seal_keeps)

lemma handler_keeps:
  assumes "se_decideOffer env = decide" and "se_onReviewDecision env = Some review"
  shows "keeps (\<lambda>(s :: ('s, 'k) session) t. R (sn_kernel s) (sn_kernel t)) (receive_welcome env welcome now)"
    and "keeps (\<lambda>(s :: ('s, 'k) session) t. R (sn_kernel s) (sn_kernel t)) (receive_ack env message)"
    and "keeps (\<lambda>(s :: ('s, 'k) session) t. R (sn_kernel s) (sn_kernel t)) (receive_offer env offer idem i now)"
    and "keeps (\<lambda>(s :: ('s, 'k) session) t. R (sn_kernel s) (sn_kernel t)) (receive_review env decision i now)"
  unfolding receive_welcome_def receive_ack_def receive_offer_def receive_review_def Let_def
  by (intro kernel_rules basic_keeps answer_keeps summary_keeps flush_keeps decide_offer_keeps assms;
      simp add: refl review_keeps assms)+

lemma receive_keeps:
  assumes "se_decideOffer env = decide" and "se_onReviewDecision env = Some review"
  shows "keeps (\<lambda>(s :: ('s, 'k) session) t. R (sn_kernel s) (sn_kernel t)) (receive env raw now)"
proof (cases "verifySealedEnvelope (se_url env) (se_why env) (se_sha env) (se_verify env) (se_parseDate env) raw (se_cloudPublicKeyPem env) now")
  case (VerifyOk envelope payload)
  then show ?thesis unfolding receive_def VerifyOk verify_result.case dispatch_def Let_def
    by (intro kernel_rules basic_keeps answer_keeps handler_keeps assms)
qed (unfold receive_def, simp_all only: verify_result.case, (intro kernel_rules answer_keeps)+)

end

end
