(* ===== verification/NodeRuntimeFacts.thy ===== *)
theory NodeRuntimeFacts
  imports NodeRuntime NodeReceive CoordFacts CoordDemo
begin

text \<open>
  What holds of a node in every reachable state of its connection: which offers its bridge holds, in which order
  their leases are executed, what an execution reports, and how often the client reconnects.
\<close>

subsection \<open>What the bridge accumulates\<close>

definition verified_offer :: "'c bridge_options \<Rightarrow> json \<Rightarrow> json \<Rightarrow> bool" where
  "verified_offer o1 offer plan \<longleftrightarrow> satisfiable (bo_capabilities o1) (bo_availableSecrets o1) offer
     \<and> (\<exists>b. authentic_plan o1 (offered_digest offer) b plan)
     \<and> (\<exists>n. bo_commitExists o1 n (str_at [''repo''] plan) (offered_commit offer))"

definition all_verified :: "'c bridge_options \<Rightarrow> 'c kernel_bridge \<Rightarrow> bool" where
  "all_verified o1 k \<longleftrightarrow> (\<forall>(l, offer, plan) \<in> set (kb_accepted k). l = offered_lease offer \<and> verified_offer o1 offer plan)"

text \<open>Leases are only added, at the end of the queue, each with its drain and its accepted offer.\<close>

definition bridge_grows :: "host bridge_options \<Rightarrow> host kernel_bridge \<Rightarrow> host kernel_bridge \<Rightarrow> bool" where
  "bridge_grows o1 k k' \<longleftrightarrow>
     (\<exists>new. ho_pendingLeases (kb_host k') = ho_pendingLeases (kb_host k) @ new
        \<and> ho_enqueued (kb_host k') = ho_enqueued (kb_host k) @ new
        \<and> ho_drains (kb_host k') = ho_drains (kb_host k) + length new
        \<and> set new \<subseteq> fst ` set (kb_accepted k'))
     \<and> fst ` set (kb_accepted k) \<subseteq> fst ` set (kb_accepted k')
     \<and> (all_verified o1 k \<longrightarrow> all_verified o1 k')"

lemma keys_map_set: "fst ` set (map_set k v m) = insert k (fst ` set m)"
  by (induction k v m rule: map_set.induct) auto

lemma set_map_set: "set (map_set k v m) \<subseteq> insert (k, v) (set m)"
  by (induction k v m rule: map_set.induct) auto

lemma bridge_grows_refl: "bridge_grows o1 k k"
  by (simp add: bridge_grows_def)

lemma bridge_grows_trans:
  assumes "bridge_grows o1 k k'" and "bridge_grows o1 k' k''"
  shows "bridge_grows o1 k k''"
proof -
  from assms(1) obtain new where n: "ho_pendingLeases (kb_host k') = ho_pendingLeases (kb_host k) @ new"
    "ho_enqueued (kb_host k') = ho_enqueued (kb_host k) @ new" "ho_drains (kb_host k') = ho_drains (kb_host k) + length new"
    "set new \<subseteq> fst ` set (kb_accepted k')" unfolding bridge_grows_def by blast
  from assms(2) obtain new' where n': "ho_pendingLeases (kb_host k'') = ho_pendingLeases (kb_host k') @ new'"
    "ho_enqueued (kb_host k'') = ho_enqueued (kb_host k') @ new'" "ho_drains (kb_host k'') = ho_drains (kb_host k') + length new'"
    "set new' \<subseteq> fst ` set (kb_accepted k'')" unfolding bridge_grows_def by blast
  have keys: "fst ` set (kb_accepted k) \<subseteq> fst ` set (kb_accepted k')" "fst ` set (kb_accepted k') \<subseteq> fst ` set (kb_accepted k'')"
    and ver: "all_verified o1 k \<Longrightarrow> all_verified o1 k''"
    using assms unfolding bridge_grows_def by blast+
  have "ho_pendingLeases (kb_host k'') = ho_pendingLeases (kb_host k) @ new @ new'"
    "ho_enqueued (kb_host k'') = ho_enqueued (kb_host k) @ new @ new'"
    "ho_drains (kb_host k'') = ho_drains (kb_host k) + length (new @ new')" by (simp_all add: n n')
  moreover have "set (new @ new') \<subseteq> fst ` set (kb_accepted k'')" using n(4) n'(4) keys(2) unfolding set_append by blast
  ultimately show ?thesis using keys ver unfolding bridge_grows_def by (intro conjI exI [of _ "new @ new'"]) blast+
qed

lemma bridge_grows_same:
  "kb_accepted k' = kb_accepted k \<Longrightarrow> ho_pendingLeases (kb_host k') = ho_pendingLeases (kb_host k) \<Longrightarrow>
   ho_enqueued (kb_host k') = ho_enqueued (kb_host k) \<Longrightarrow> ho_drains (kb_host k') = ho_drains (kb_host k) \<Longrightarrow> bridge_grows o1 k k'"
  by (simp add: bridge_grows_def all_verified_def)

lemma accepted_is_verified: "acceptable (host_options o1) k offer plan \<Longrightarrow> verified_offer o1 offer plan"
  by (auto simp: acceptable_def verified_offer_def host_options_def authentic_plan_def)

lemma recorded_grows:
  assumes "acceptable (host_options o1) k offer plan"
  shows "bridge_grows o1 k (recorded (host_options o1) offer plan k)"
proof -
  let ?k = "recorded (host_options o1) offer plan k" and ?l = "offered_lease offer"
  have k: "kb_accepted ?k = map_set ?l (offer, plan) (kb_accepted k)" "kb_host ?k = enqueue ?l offer (kb_host k)"
    by (simp_all add: recorded_def host_options_def)
  have "all_verified o1 ?k" if "all_verified o1 k"
    using that accepted_is_verified [OF assms] set_map_set [of ?l "(offer, plan)" "kb_accepted k"]
    unfolding all_verified_def k(1) by blast
  then show ?thesis unfolding bridge_grows_def k keys_map_set
    by (intro conjI exI [of _ "[?l]"]) (auto simp: enqueue_def)
qed

lemma decide_grows: "keeps (bridge_grows o1) (decideOffer (host_options o1) offer)"
  unfolding keeps_def
proof
  fix k
  show "bridge_grows o1 k (snd (decideOffer (host_options o1) offer k))"
  proof (cases "\<exists>plan. acceptable (host_options o1) k offer plan")
    case True
    then show ?thesis using accepts recorded_grows by fastforce
  next
    case False
    from not_accepted [OF this] show ?thesis by (simp add: bridge_grows_same)
  qed
qed

interpretation bridge: kernel_contract "bridge_grows o1" "decideOffer (host_options o1)" onReviewDecision for o1
  by unfold_locales (auto simp: bridge_grows_refl onReviewDecision_def decide_grows intro: bridge_grows_trans bridge_grows_same)

text \<open>The simulated kernel's capacity only falls, and never below zero.\<close>

definition capacity_spent :: "simulated_kernel \<Rightarrow> simulated_kernel \<Rightarrow> bool" where
  "capacity_spent s t \<longleftrightarrow> (0 \<le> sk_capacity s \<longrightarrow> 0 \<le> sk_capacity t \<and> sk_capacity t \<le> sk_capacity s)"

interpretation simulated: kernel_contract capacity_spent "simulated_decideOffer capabilities secrets" simulated_onReviewDecision
  for capabilities secrets
proof unfold_locales
  show "keeps capacity_spent (simulated_decideOffer capabilities secrets offer)" for offer
    unfolding keeps_def capacity_spent_def
  proof (intro allI impI)
    fix s :: simulated_kernel assume "0 \<le> sk_capacity s"
    from simulated_capacity [OF surjective_pairing this, of capabilities secrets offer]
    show "0 \<le> sk_capacity (snd (simulated_decideOffer capabilities secrets offer s))
      \<and> sk_capacity (snd (simulated_decideOffer capabilities secrets offer s)) \<le> sk_capacity s" by simp
  qed
qed (auto simp: capacity_spent_def simulated_onReviewDecision_def)

subsection \<open>Traffic and executions\<close>

lemma traffic_grows:
  assumes "wired env" and "traffic (nv_session env) s t"
  shows "bridge_grows (nv_bridge env) (sn_kernel s) (sn_kernel t)"
  using assms(2)
proof cases
  case (traffic_frame raw now)
  then show ?thesis
    using bridge.receive_keeps [of "nv_session env" "nv_bridge env"] assms(1) by (simp add: wired_def keeps_def)
next
  case (traffic_plan raw digest cached reply)
  then show ?thesis
    by (auto simp: on_host_def prefetchPlan_def intro!: bridge_grows_same split: plan_reply.split option.split json.split)
qed (simp_all add: bridge.handshake_keeps [unfolded keeps_def] bridge.basic_keeps(4) [unfolded keeps_def] bridge.flush_keeps [unfolded keeps_def])

lemma all_traffic_grows:
  assumes "wired env" and "(traffic (nv_session env))\<^sup>*\<^sup>* s t"
  shows "bridge_grows (nv_bridge env) (sn_kernel s) (sn_kernel t)"
  using assms(2)
  by (induction rule: rtranclp_induct) (auto intro: bridge_grows_refl bridge_grows_trans traffic_grows [OF assms(1)])

definition node_grows :: "host bridge_options \<Rightarrow> ('w, 's, host) node \<Rightarrow> ('w, 's, host) node \<Rightarrow> bool" where
  "node_grows o1 n n' \<longleftrightarrow> bridge_grows o1 (sn_kernel (nd_session n)) (sn_kernel (nd_session n'))"

interpretation node_moves: evolution "node_grows o1 :: ('w, 's, host) node \<Rightarrow> ('w, 's, host) node \<Rightarrow> bool" for o1
  by unfold_locales (auto simp: node_grows_def bridge_grows_refl intro: bridge_grows_trans)

lemma in_coord_grows: "keeps (node_grows o1) (in_coord m)"
  by (simp add: keeps_def in_coord_def node_grows_def bridge_grows_refl split: prod.split)

lemma in_session_grows:
  "keeps (\<lambda>s t. bridge_grows o1 (sn_kernel s) (sn_kernel t)) m \<Longrightarrow> keeps (node_grows o1) (in_session m)"
  by (auto simp: keeps_def in_session_def node_grows_def split: prod.split) (metis snd_conv)

lemma await_coord_grows: "wired env \<Longrightarrow> keeps (node_grows (nv_bridge env)) (await_coord env m)"
  unfolding await_coord_def
  by (intro node_moves.keeps_with_cleanup in_coord_grows node_moves.keeps_update)
    (auto simp: node_grows_def wired_def intro: all_traffic_grows)

lemma report_event_grows: "keeps (node_grows o1) (report_event env offer now kind data)"
  unfolding report_event_def by (intro node_moves.keeps_rules in_session_grows bridge.emit_keeps)

lemma executeAccepted_grows: "wired env \<Longrightarrow> keeps (node_grows (nv_bridge env)) (executeAccepted env leaseId now)"
  unfolding executeAccepted_def Let_def
  by (intro node_moves.keeps_control await_coord_grows report_event_grows in_session_grows bridge.propose_keeps)

lemma execute_lease_grows: "wired env \<Longrightarrow> keeps (node_grows (nv_bridge env)) (execute_lease env leaseId now isOpen)"
  unfolding execute_lease_def
  by (intro node_moves.keeps_control executeAccepted_grows in_session_grows bridge.flush_keeps)

subsection \<open>The queue of leases\<close>

definition connection_ok :: "host bridge_options \<Rightarrow> ('w, 's) connection \<Rightarrow> bool" where
  "connection_ok o1 c \<longleftrightarrow> map fst (cx_log c) @ ho_pendingLeases (cx_host c) = ho_enqueued (cx_host c)
     \<and> (\<not> cx_rejected c \<longrightarrow> ho_pendingLeases (cx_host c) \<noteq> [] \<longrightarrow> 0 < ho_drains (cx_host c))
     \<and> set (ho_enqueued (cx_host c)) \<subseteq> fst ` set (kb_accepted (cx_bridge c)) \<and> all_verified o1 (cx_bridge c)"

lemma connection_grows:
  assumes "connection_ok o1 c" and "bridge_grows o1 (cx_bridge c) (cx_bridge c')" and "cx_log c' = cx_log c" and "cx_rejected c' = cx_rejected c"
  shows "connection_ok o1 c'"
proof -
  from assms(2) obtain new where n: "ho_pendingLeases (cx_host c') = ho_pendingLeases (cx_host c) @ new"
    "ho_enqueued (cx_host c') = ho_enqueued (cx_host c) @ new" "ho_drains (cx_host c') = ho_drains (cx_host c) + length new"
    "set new \<subseteq> fst ` set (kb_accepted (cx_bridge c'))" and
    keys: "fst ` set (kb_accepted (cx_bridge c)) \<subseteq> fst ` set (kb_accepted (cx_bridge c'))" and
    ver: "all_verified o1 (cx_bridge c) \<Longrightarrow> all_verified o1 (cx_bridge c')" unfolding bridge_grows_def by blast
  from assms(1) have c: "map fst (cx_log c) @ ho_pendingLeases (cx_host c) = ho_enqueued (cx_host c)"
    "\<not> cx_rejected c \<Longrightarrow> ho_pendingLeases (cx_host c) \<noteq> [] \<Longrightarrow> 0 < ho_drains (cx_host c)"
    "set (ho_enqueued (cx_host c)) \<subseteq> fst ` set (kb_accepted (cx_bridge c))" "all_verified o1 (cx_bridge c)"
    by (simp_all add: connection_ok_def)
  have "set (ho_enqueued (cx_host c) @ new) \<subseteq> fst ` set (kb_accepted (cx_bridge c'))"
    using c(3) keys n(4) unfolding set_append by blast
  moreover have "map fst (cx_log c) @ ho_pendingLeases (cx_host c) @ new = ho_enqueued (cx_host c) @ new"
    by (simp add: c(1) [symmetric])
  ultimately show ?thesis using c(2) ver [OF c(4)] by (auto simp: connection_ok_def assms(3,4) n(1-3))
qed

lemma on_session_bridge [simp]:
  "cx_bridge (on_session f c) = sn_kernel (f (nd_session (cx_node c)))" "cx_log (on_session f c) = cx_log c"
  "cx_rejected (on_session f c) = cx_rejected c"
  by (simp_all add: on_session_def)

lemma on_host_kernel [simp]: "sn_kernel (on_host f s) = (sn_kernel s)\<lparr>kb_host := f (kb_host (sn_kernel s))\<rparr>"
  by (simp add: on_host_def)

lemma drain_ok:
  assumes "wired env" and ok: "connection_ok (nv_bridge env) c" and "ho_drains (cx_host c) > 0" and "\<not> cx_rejected c"
  shows "connection_ok (nv_bridge env) (drain_round env now isOpen c)"
proof (cases "ho_pendingLeases (cx_host c)")
  case Nil
  with ok show ?thesis by (simp add: drain_round_def connection_ok_def end_drain_def all_verified_def)
next
  case (Cons leaseId rest)
  let ?c1 = "(on_session (on_host shift_lease) c)\<lparr>cx_log := cx_log c @ [(leaseId, Inl (BridgeThrew []))]\<rparr>"
  obtain r n where e: "execute_lease env leaseId now isOpen (cx_node (on_session (on_host shift_lease) c)) = (r, n)" by fastforce
  let ?c2 = "c\<lparr>cx_node := n, cx_rejected := False, cx_log := cx_log ?c1\<rparr>"
  from ok assms(3) have "connection_ok (nv_bridge env) ?c1"
    by (simp add: connection_ok_def shift_lease_def Cons all_verified_def)
  moreover have "bridge_grows (nv_bridge env) (cx_bridge ?c1) (cx_bridge ?c2)"
    using keepsD [OF execute_lease_grows [OF assms(1)] e] by (simp add: node_grows_def on_session_def)
  ultimately have "connection_ok (nv_bridge env) ?c2" by (rule connection_grows) (simp_all add: assms(4))
  then show ?thesis by (auto simp: drain_round_def Cons e connection_ok_def)
qed

lemma connection_step_ok:
  assumes "wired env" and "connection_step env c c'" and ok: "connection_ok (nv_bridge env) c"
  shows "connection_ok (nv_bridge env) c'"
  using assms(2)
proof cases
  case (connection_traffic s)
  with traffic_grows [OF assms(1) this(2)] show ?thesis by (intro connection_grows [OF ok]) simp_all
qed (use drain_ok [OF assms(1) ok] in simp)

lemma connection_run_ok:
  assumes "wired env" and "start_connection env coord st = Inr c0" and "(connection_step env)\<^sup>*\<^sup>* c0 c"
  shows "connection_ok (nv_bridge env) c"
  using assms(3)
proof (induction rule: rtranclp_induct)
  case base
  from assms(2) show ?case
    by (auto simp: start_connection_def newSession_def new_bridge_def new_host_def connection_ok_def all_verified_def
        split: sum.splits prod.splits)
qed (rule connection_step_ok [OF assms(1)])


text \<open>Once an execution threw, no later lease is executed: every callback chained to the rejected promise is skipped.\<close>

lemma rejected_step: "connection_step env c d \<Longrightarrow> cx_rejected c \<Longrightarrow> cx_rejected d \<and> cx_log d = cx_log c"
  by (erule connection_step.cases) simp_all

lemma rejected_chain_never_executes:
  assumes "(connection_step env)\<^sup>*\<^sup>* c d" and "cx_rejected c"
  shows "cx_rejected d \<and> cx_log d = cx_log c"
  using assms(1)
proof (induction rule: rtranclp_induct)
  case (step d e)
  from rejected_step [OF step.hyps(2)] step.IH show ?case by simp
qed (simp add: assms(2))

subsection \<open>What an execution reports\<close>

lemma unknown_lease:
  "accepted_entry leaseId n = None \<Longrightarrow>
   executeAccepted env leaseId now n = (Inl (BridgeThrew (''no accepted offer for lease '' @ leaseId)), n)"
  by (simp add: executeAccepted_def andThen_query) (simp add: andThen_def orThrow_def)

text \<open>
  The accepted offers live in the process, the answers to them in the store: a restarted node refuses to execute
  every lease, also one whose offer it answered with \<open>work.accepted\<close> and will answer that way again.
\<close>

lemma restarted_node_forgets_leases:
  assumes "start_connection env coord st = Inr c"
  shows "executeAccepted env leaseId now (cx_node c) = (Inl (BridgeThrew (''no accepted offer for lease '' @ leaseId)), cx_node c)"
proof (rule unknown_lease)
  from assms show "accepted_entry leaseId (cx_node c) = None"
    by (auto simp: start_connection_def newSession_def new_bridge_def accepted_entry_def split: sum.splits prod.splits)
qed

subsection \<open>Reconnecting\<close>

lemma reconnect_from_bounds:
  "reconnect_from base capMs maxAttempts connects n attempts waited = (r, attempts', waited') \<Longrightarrow>
   \<exists>new. waited' = waited @ new \<and> r = connects (n + length new) \<and> (\<forall>i < length new. connects (n + i) \<noteq> None)
     \<and> int (length new) \<le> max 0 (maxAttempts - attempts - 1) \<and> (\<forall>x \<in> set new. x \<le> capMs)
     \<and> attempts' = (case r of None \<Rightarrow> 0 | Some _ \<Rightarrow> attempts + int (length new) + 1)"
proof (induction base capMs maxAttempts connects n attempts waited rule: reconnect_from.induct)
  case (1 base capMs maxAttempts connects n attempts waited)
  show ?case
  proof (cases "connects n = None \<or> maxAttempts \<le> attempts + 1")
    case True
    with "1.prems" show ?thesis
      by (intro exI [of _ "[]"]) (auto simp: reconnect_from.simps split: option.splits if_splits)
  next
    case False
    then obtain e where e: "connects n = Some e" "\<not> maxAttempts \<le> attempts + 1" by auto
    let ?d = "min capMs (base * 2 ^ nat (attempts + 1))"
    from "1.prems" have "reconnect_from base capMs maxAttempts connects (Suc n) (attempts + 1) (waited @ [?d]) = (r, attempts', waited')"
      by (simp add: reconnect_from.simps [of _ _ _ _ n] e)
    from "1.IH" [OF e this] obtain new where new: "waited' = (waited @ [?d]) @ new" "r = connects (Suc n + length new)"
      "\<forall>i < length new. connects (Suc n + i) \<noteq> None" "int (length new) \<le> max 0 (maxAttempts - (attempts + 1) - 1)"
      "\<forall>x \<in> set new. x \<le> capMs" "attempts' = (case r of None \<Rightarrow> 0 | Some _ \<Rightarrow> attempts + 1 + int (length new) + 1)" by blast
    have "\<forall>i < length (?d # new). connects (n + i) \<noteq> None"
    proof (intro allI impI)
      fix i assume "i < length (?d # new)"
      with new(3) e(1) show "connects (n + i) \<noteq> None" by (cases i) auto
    qed
    with new e(2) show ?thesis by (intro exI [of _ "?d # new"]) (auto split: option.splits)
  qed
qed

text \<open>
  Reconnecting ends: whatever \<open>connect\<close> does, the loop waits at most \<open>maxAttempts - attempts - 1\<close> times, never
  longer than the cap, stops at the first connection that succeeds and otherwise rethrows the error of the last
  attempt, with the counter at the number of attempts made.
\<close>
theorem reconnect_bounded:
  assumes "reconnectWithBackoff base capMs maxAttempts connects attempts = (r, attempts', waited)"
  shows "int (length waited) \<le> max 0 (maxAttempts - attempts - 1) \<and> list_all (\<lambda>x. x \<le> capMs) waited
    \<and> r = connects (length waited) \<and> (\<forall>i < length waited. connects i \<noteq> None)
    \<and> attempts' = (case r of None \<Rightarrow> 0 | Some _ \<Rightarrow> attempts + int (length waited) + 1)"
  using reconnect_from_bounds [OF assms [unfolded reconnectWithBackoff_def]] by (auto simp: list_all_iff)

lemma reconnect_bounded_witness:
  "reconnectWithBackoff 1000 60000 3 (\<lambda>_. Some ''refused'') 0 = (Some ''refused'', 3, [2000, 4000])
   \<and> list_all (\<lambda>x. x \<le> (60000 :: int)) [2000, 4000]"
proof -
  have r: "reconnectWithBackoff 1000 60000 3 (\<lambda>_. Some ''refused'') 0 = (Some ''refused'', 3, [2000, 4000])" by code_simp
  from reconnect_bounded [OF r] r show ?thesis by blast
qed

subsection \<open>A node that accepts an offer\<close>

definition runtime_bridge :: "host bridge_options" where
  "runtime_bridge = \<lparr>bo_capabilities = [''worktree''], bo_availableSecrets = [], bo_resolvePlan = planFromCache, bo_onAccepted = enqueue,
     bo_sha = example_sha, bo_parseJson = (\<lambda>_. Some (JObj [(''goal'', JStr ''Fix it''), (''repo'', JStr ''/repo''), (''agent'', JStr ''codex'')])),
     bo_commitExists = (\<lambda>_ repo _. repo = ''/repo'')\<rparr>"

definition runtime_session :: "(sqlite_store, host kernel_bridge) session_env" where
  "runtime_session = \<lparr>se_store = SqliteNodeStateStore (\<lambda>_. True), se_workspaceId = example_uuid, se_nodeId = ''n1'', se_cloudPublicKeyPem = ''key'',
     se_schemaDigest = ''sha256:'' @ example_sha [], se_maxBufferedEvents = 1, se_platform = ''linux-x64'',
     se_sha = example_sha, se_sign = (\<lambda>_. ''AA''), se_verify = (\<lambda>_ _ sg. sg = ''AA''), se_parseDate = (\<lambda>_. Some 0),
     se_isoDate = (\<lambda>_. ''2026-01-01T00:00:00Z''), se_url = (\<lambda>_. True), se_why = (\<lambda>_ _. []), se_uuidV7 = (\<lambda>_ _. example_uuid),
     se_decideOffer = decideOffer (host_options runtime_bridge), se_onReviewDecision = Some onReviewDecision\<rparr>"

definition runtime_env :: "(unit, sqlite_store, host) node_env" where
  "runtime_env = \<lparr>nv_coord = demo_env, nv_session = runtime_session, nv_bridge = runtime_bridge, nv_stepIds = (\<lambda>_. ''s''),
     nv_received = (\<lambda>_ s. s)\<rparr>"

definition runtime_offer :: json where
  "runtime_offer = JObj [(''protocol'', JStr ''accp/1.0''), (''schemaDigest'', JStr (''sha256:'' @ example_sha [])),
     (''type'', JStr ''work.offer''), (''messageId'', JStr example_uuid), (''sessionId'', JStr example_uuid),
     (''workspaceId'', JStr example_uuid), (''senderId'', JStr ''cloud''), (''idempotencyKey'', JStr ''offer-1''), (''sequence'', JNum 1),
     (''sentAt'', JStr ''2026-01-01T00:00:00Z''), (''payloadDigest'', JStr (''sha256:'' @ example_sha [])),
     (''payload'', example_offer), (''signature'', JStr ''ed25519:AA'')]"

definition runtime_start :: "(unit, sqlite_store) connection" where
  "runtime_start = \<lparr>cx_node = \<lparr>nd_coord = demo_state, nd_session = \<lparr>sn_store = sn_store example_node, sn_kernel = new_bridge new_host,
     sn_nodeCursor = 0, sn_ackedCursor = 0, sn_offerAnswers = (\<lambda>_. None), sn_sessionId = [], sn_epoch = None, sn_outSeq = 0,
     sn_welcome = None, sn_dedup = new_dedup_index, sn_connected = False, sn_uuids = 0\<rparr>\<rparr>, cx_rejected = False, cx_log = []\<rparr>"

text \<open>The handshake, the fetch of the plan, and the frame with the offer.\<close>

definition runtime_greeted :: "(sqlite_store, host kernel_bridge) session" where
  "runtime_greeted = snd (startHandshake runtime_session 0 (nd_session (cx_node runtime_start)))"

definition runtime_fetched :: "(sqlite_store, host kernel_bridge) session" where
  "runtime_fetched = on_host (prefetchPlan False (FetchBody (JObj [(''planBytes'', JStr ''{}'')])) (example_sha [])) runtime_greeted"

definition runtime_accepted :: "(sqlite_store, host kernel_bridge) session" where
  "runtime_accepted = snd (receive runtime_session runtime_offer 0 runtime_fetched)"

lemma runtime_run:
  "wired runtime_env" "start_connection runtime_env demo_state (sn_store example_node) = Inr runtime_start"
  "(connection_step runtime_env)\<^sup>*\<^sup>* runtime_start (on_session (\<lambda>_. runtime_accepted) runtime_start)"
proof -
  show "wired runtime_env" by (simp add: wired_def runtime_env_def runtime_session_def)
  show "start_connection runtime_env demo_state (sn_store example_node) = Inr runtime_start"
    by (simp add: start_connection_def runtime_env_def runtime_session_def example_node_def newSession_def SqliteNodeStateStore_def
        sqlite_cursorValue_def query_def runtime_start_def)
  let ?c = "\<lambda>s. on_session (\<lambda>_. s) runtime_start"
  have s: "nv_session runtime_env = runtime_session" by (simp add: runtime_env_def)
  have c: "nd_session (cx_node (?c s)) = s" "on_session (\<lambda>_. s') (?c s) = ?c s'" for s s' by (simp_all add: on_session_def)
  have "wanted_plan runtime_offer = Some (example_sha [])"
    by (simp add: wanted_plan_def runtime_offer_def example_offer_def field_path_def)
  then have "traffic runtime_session runtime_greeted runtime_fetched" unfolding runtime_fetched_def by (rule traffic_plan)
  then have "connection_step runtime_env (?c runtime_greeted) (?c runtime_fetched)"
    using connection_traffic [of runtime_env "?c runtime_greeted" runtime_fetched] by (simp add: s c)
  moreover have "connection_step runtime_env (?c runtime_fetched) (?c runtime_accepted)"
    using connection_traffic [of runtime_env "?c runtime_fetched" runtime_accepted] by (simp add: s c runtime_accepted_def traffic_frame)
  moreover have "connection_step runtime_env runtime_start (?c runtime_greeted)"
    using connection_traffic [of runtime_env runtime_start runtime_greeted] by (simp add: s runtime_greeted_def traffic_handshake)
  ultimately show "(connection_step runtime_env)\<^sup>*\<^sup>* runtime_start (?c runtime_accepted)" by simp
qed

lemma receive_offer_kernel:
  assumes "unanswered s idem" and "se_decideOffer env offer (sn_kernel s) = (Inr d, k)"
  shows "sn_kernel (snd (receive_offer env offer idem i now s)) = k"
  using assms(2)
  by (auto simp: receive_offer_unanswered [OF assms(1)] andThen_def decide_offer_def Let_def update_def store_op_def send_answer_def
      seal_def uuid_def query_def ok_def split: prod.splits sum.splits)

lemma runtime_offer_fields [simp]:
  "str_field ''type'' runtime_offer = ''work.offer''" "str_field ''protocol'' runtime_offer = PROTOCOL"
  "str_field ''senderId'' runtime_offer = ''cloud''" "str_field ''sentAt'' runtime_offer = ''2026-01-01T00:00:00Z''"
  "str_field ''sessionId'' runtime_offer = example_uuid" "str_field ''workspaceId'' runtime_offer = example_uuid"
  "str_field ''payloadDigest'' runtime_offer = ''sha256:'' @ example_sha []" "opt_str_field ''expiresAt'' runtime_offer = None"
  "json_field ''payload'' runtime_offer = Some example_offer"
  by (simp_all add: runtime_offer_def str_field_def opt_str_field_def PROTOCOL_def)

lemma runtime_offer_parse: "parse url EnvelopeSchema runtime_offer = Some runtime_offer"
proof -
  have "has_idempotency runtime_offer"
    by (simp add: has_idempotency_def runtime_offer_def str_field_def)
  then show ?thesis
    using example_uuid_ok [of url] example_digest_ok example_date_ok example_sender_ok
    by (simp add: EnvelopeSchema_def runtime_offer_def DigestSchema_def DateTimeSchema_def positive_def
      within_def is_safe_int_def max_safe_int_def)
qed

lemma runtime_offer_verified:
  "verifySealedEnvelope (se_url runtime_session) (se_why runtime_session) (se_sha runtime_session) (se_verify runtime_session)
     (se_parseDate runtime_session) runtime_offer (se_cloudPublicKeyPem runtime_session) 0 = VerifyOk runtime_offer example_offer"
proof -
  have "str_field ''signature'' runtime_offer = ''ed25519:AA''" by (simp add: runtime_offer_def str_field_def)
  moreover have "isAccpMessageType ''work.offer''" by (simp add: isAccpMessageType_def MESSAGE_SCHEMAS_def)
  ultimately show ?thesis
    by (simp add: verifySealedEnvelope_def runtime_session_def runtime_offer_parse example_offer_ok isWithinClockSkew_def isExpired_def
        CLOCK_SKEW_TOLERANCE_MS_def computePayloadDigest_def example_sha_def)
qed

lemma runtime_greeted:
  "sn_kernel runtime_greeted = new_bridge new_host" "sn_sessionId runtime_greeted = example_uuid"
  "sn_offerAnswers runtime_greeted = (\<lambda>_. None)" "sn_dedup runtime_greeted = new_dedup_index"
  by (simp_all add: runtime_greeted_def startHandshake_def uuid_def seal_def andThen_def update_def query_def runtime_start_def runtime_session_def)

lemma runtime_fetched:
  "sn_sessionId runtime_fetched = example_uuid" "sn_offerAnswers runtime_fetched = (\<lambda>_. None)" "sn_dedup runtime_fetched = new_dedup_index"
  by (simp_all add: runtime_fetched_def on_host_def runtime_greeted)

lemma runtime_acceptable:
  "\<exists>plan. acceptable (host_options runtime_bridge) (sn_kernel runtime_fetched) example_offer plan"
proof -
  let ?plan = "JObj [(''goal'', JStr ''Fix it''), (''repo'', JStr ''/repo''), (''agent'', JStr ''codex'')]"
  have "planFromCache (kb_host (sn_kernel runtime_fetched)) (example_sha []) = Some ''{}''"
    by (simp add: runtime_fetched_def runtime_greeted new_bridge_def prefetchPlan_def planFromCache_def new_host_def)
  then have "acceptable (host_options runtime_bridge) (sn_kernel runtime_fetched) example_offer ?plan"
    by (simp add: acceptable_def host_options_def runtime_bridge_def satisfiable_def requiredCapabilities_def requiredSecrets_def
      example_offer_def authentic_plan_def offered_digest_def offered_commit_def str_at_def field_path_def PlanDocumentSchema_def within_def
      List.map_filter_def example_sha_def)
  then show ?thesis ..
qed

lemma runtime_accepts: "ho_enqueued (kb_host (sn_kernel runtime_accepted)) = [example_uuid]"
proof -
  obtain plan where plan: "acceptable (host_options runtime_bridge) (sn_kernel runtime_fetched) example_offer plan"
    using runtime_acceptable ..
  define s where "s = snd (check_duplicate (str_field ''messageId'' runtime_offer) runtime_fetched)"
  have s: "check_duplicate (str_field ''messageId'' runtime_offer) runtime_fetched = (Inr False, s)"
    "sn_kernel s = sn_kernel runtime_fetched" "sn_offerAnswers s = (\<lambda>_. None)"
    by (simp_all add: s_def check_duplicate_def runtime_fetched dedup_check_def new_dedup_index_def split: prod.split)
  have expected: "isExpectedCloudEnvelope runtime_session runtime_fetched runtime_offer"
    by (simp add: isExpectedCloudEnvelope_def runtime_fetched runtime_session_def)
  have payload: "parsePayload (se_url runtime_session) ''work.offer'' example_offer = Some example_offer"
    by (simp add: runtime_session_def example_offer_ok)
  have "runtime_accepted = snd (dispatch runtime_session runtime_offer 0 s)"
    by (simp add: runtime_accepted_def receive_def runtime_offer_verified andThen_def query_def expected s(1))
  also have "\<dots> = snd (receive_offer runtime_session example_offer (str_field ''idempotencyKey'' runtime_offer) (str_field ''messageId'' runtime_offer) 0 s)"
    by (simp add: dispatch_offer payload andThen_def orThrow_def)
  finally have "sn_kernel runtime_accepted = recorded (host_options runtime_bridge) example_offer plan (sn_kernel runtime_fetched)"
  proof (elim ssubst, intro receive_offer_kernel)
    show "unanswered s idem" for idem by (simp add: unanswered_def s(3))
    have "se_decideOffer runtime_session = decideOffer (host_options runtime_bridge)" by (simp add: runtime_session_def)
    then show "se_decideOffer runtime_session example_offer (sn_kernel s)
        = (Inr OfferAccept, recorded (host_options runtime_bridge) example_offer plan (sn_kernel runtime_fetched))"
      by (simp only: s(2) accepts [OF plan])
  qed
  then show ?thesis
    by (simp add: recorded_def host_options_def enqueue_def runtime_fetched_def runtime_greeted new_bridge_def new_host_def
        prefetchPlan_def offered_lease_def str_at_def field_path_def example_offer_def)
qed


lemma offer_decided_on_checks_witness:
  "fst (decideOffer (host_options runtime_bridge) example_offer (sn_kernel runtime_fetched)) = Inr OfferAccept"
  using offer_decided_on_checks [of "host_options runtime_bridge" example_offer "sn_kernel runtime_fetched"] runtime_acceptable by blast

end
