(* ===== verification/Projections.thy ===== *)
theory Projections
  imports CoordState
begin

text \<open>
  \<open>src/api-projections.ts\<close>: the views of a task the daemon serves, a row of the board and the detail page.

  The source orders by \<open>localeCompare\<close>, which compares the collation keys of the platform's locale; the function
  \<open>collate\<close> that gives a string's key is an argument. \<open>Array.prototype.sort\<close> is stable, as \<open>order_by\<close> is.
\<close>

subsection \<open>Spellings\<close>

definition StepStatusSchema :: "(string \<times> step_status) list" where
  "StepStatusSchema = [(''pending'', SPending), (''running'', SRunning), (''succeeded'', SSucceeded),
     (''failed'', SFailed), (''skipped'', SSkipped)]"

definition EventLevelSchema :: "(string \<times> event_level) list" where
  "EventLevelSchema = [(''debug'', LDebug), (''info'', LInfo), (''warn'', LWarn), (''error'', LError)]"

definition ReviewStatusSchema :: "(string \<times> review_status) list" where
  "ReviewStatusSchema = [(''pending'', RevPending), (''approved'', RevApproved),
     (''rework_requested'', RevReworkRequested), (''rejected'', RevRejected)]"

definition DirectionSchema :: "(string \<times> msg_direction) list" where
  "DirectionSchema = [(''user-to-agent'', UserToAgent), (''agent-to-user'', AgentToUser), (''system'', System)]"

definition DeliverySchema :: "(string \<times> delivery_status) list" where
  "DeliverySchema = [(''queued'', DQueued), (''delivered'', DDelivered), (''unsupported'', DUnsupported), (''failed'', DFailed)]"

definition RouteModeSchema :: "(string \<times> route_mode) list" where
  "RouteModeSchema = [(''single'', Single), (''sequential'', Sequential), (''parallel'', Parallel)]"

definition RiskLevelSchema :: "(string \<times> risk_level) list" where
  "RiskLevelSchema = [(''normal'', RiskNormal), (''high'', RiskHigh)]"

definition json_name :: "(string \<times> 'a) list \<Rightarrow> 'a \<Rightarrow> json" where
  "json_name schema v = JStr (enum_name schema v)"

definition or_null :: "('a \<Rightarrow> json) \<Rightarrow> 'a option \<Rightarrow> json" where
  "or_null f v = (case v of None \<Rightarrow> JNull | Some x \<Rightarrow> f x)"

text \<open>\<open>value.replaceAll("\\", "/").replace(/\/+$/, "")\<close> and what follows its last slash.\<close>

definition pathLeaf :: "string \<Rightarrow> string \<Rightarrow> string" where
  "pathLeaf value fallback =
     (let normalized = strip_slashes (map (\<lambda>c. if c = CHR 0x5C then CHR ''/'' else c) value);
          leaf = rev (takeWhile (\<lambda>c. c \<noteq> CHR ''/'') (rev normalized)) in
      if leaf \<noteq> [] \<and> leaf \<noteq> ''.'' \<and> leaf \<noteq> ''..'' then leaf else fallback)"

subsection \<open>URI components\<close>

definition upper_hex :: "nat \<Rightarrow> char" where
  "upper_hex n = (if n < 10 then char_of (48 + n) else char_of (55 + n))"

definition percent_byte :: "nat \<Rightarrow> string" where
  "percent_byte b = [CHR ''%'', upper_hex (b div 16), upper_hex (b mod 16)]"

text \<open>The UTF-8 bytes of a code unit below 256.\<close>

definition utf8_bytes :: "char \<Rightarrow> nat list" where
  "utf8_bytes c = (let n = of_char c in if n < 128 then [n] else [192 + n div 64, 128 + n mod 64])"

definition uri_unreserved :: "char \<Rightarrow> bool" where
  "uri_unreserved c \<longleftrightarrow> alnum c \<or> c \<in> set ''-_.!~*()'' \<or> c = CHR 0x27"

definition encodeURIComponent :: "string \<Rightarrow> string" where
  "encodeURIComponent s = concat (map (\<lambda>c. if uri_unreserved c then [c] else concat (map percent_byte (utf8_bytes c))) s)"

definition artifactContentUrl :: "string \<Rightarrow> string" where
  "artifactContentUrl artifactId = ''/v1/artifacts/'' @ encodeURIComponent artifactId @ ''/content''"

subsection \<open>The parts of a board row\<close>

record route_progress =
  pr_total :: nat
  pr_completed :: nat
  pr_pending :: nat
  pr_running :: nat
  pr_succeeded :: nat
  pr_failed :: nat
  pr_skipped :: nat
  pr_percent :: nat

text \<open>
  \<open>counts[step.status] += 1\<close> for every step. \<open>Math.round((completed / total) * 100)\<close> is the nearest integer, halves
  rounded up; on doubles this is the quotient below for every route of fewer than 40 steps.
\<close>

definition step_counts :: "step_row list \<Rightarrow> step_status \<Rightarrow> nat" where
  "step_counts steps = fold (\<lambda>step counts. counts(s_status step := counts (s_status step) + 1)) steps (\<lambda>_. 0)"

definition projectRouteProgress :: "task_aggregate \<Rightarrow> route_progress" where
  "projectRouteProgress aggregate =
     (let counts = step_counts (ag_routeSteps aggregate);
          total = length (ag_routeSteps aggregate);
          completed = counts SSucceeded + counts SFailed + counts SSkipped in
      \<lparr>pr_total = total, pr_completed = completed, pr_pending = counts SPending, pr_running = counts SRunning,
       pr_succeeded = counts SSucceeded, pr_failed = counts SFailed, pr_skipped = counts SSkipped,
       pr_percent = (if total = 0 then 0 else (200 * completed + total) div (2 * total))\<rparr>)"

record evidence_summary =
  es_totalArtifacts :: nat
  es_totalBytes :: int
  es_byKind :: "(string \<times> nat) list"

definition projectEvidenceSummary :: "artifact_row list \<Rightarrow> evidence_summary" where
  "projectEvidenceSummary rows =
     (let (byKind, totalBytes) = fold (\<lambda>artifact (byKind, totalBytes).
            (byKind(a_kind artifact := byKind (a_kind artifact) + 1), totalBytes + a_size_bytes artifact)) rows (\<lambda>_. 0, 0) in
      \<lparr>es_totalArtifacts = length rows, es_totalBytes = totalBytes,
       es_byKind = map (\<lambda>(name, kind). (name, byKind kind)) ArtifactKindSchema\<rparr>)"

definition latestPendingReview :: "(string \<Rightarrow> string) \<Rightarrow> task_aggregate \<Rightarrow> review_row option" where
  "latestPendingReview collate aggregate =
     (case order_by_desc (\<lambda>r. (collate (v_created_at r), collate (v_id r)))
        (filter (\<lambda>r. v_status r = RevPending) (ag_reviews aggregate)) of
        [] \<Rightarrow> None | pending # _ \<Rightarrow> Some pending)"

definition latestEvent :: "task_aggregate \<Rightarrow> event_row option" where
  "latestEvent aggregate = fold (\<lambda>candidate latest. case latest of
       None \<Rightarrow> Some candidate
     | Some l \<Rightarrow> if e_id l < e_id candidate then Some candidate else latest) (ag_events aggregate) None"

datatype task_next_action = NextExecute | NextMonitor | NextReview | NextRetry | NextInspect | NextNone

definition NextActionSchema :: "(string \<times> task_next_action) list" where
  "NextActionSchema = [(''execute'', NextExecute), (''monitor'', NextMonitor), (''review'', NextReview),
     (''retry'', NextRetry), (''inspect'', NextInspect), (''none'', NextNone)]"

fun nextAction :: "task_status \<Rightarrow> review_row option \<Rightarrow> task_next_action" where
  "nextAction TQueued pendingReview = NextExecute"
| "nextAction TRunning pendingReview = NextMonitor"
| "nextAction TNeedsReview pendingReview = (if pendingReview \<noteq> None then NextReview else NextInspect)"
| "nextAction TBlocked pendingReview = NextRetry"
| "nextAction TDone pendingReview = NextNone"

fun isActiveRunStatus :: "run_status \<Rightarrow> bool" where
  "isActiveRunStatus status = (status \<in> {RQueued, RStarting, RRunning})"

definition activeRuns :: "(string \<Rightarrow> string) \<Rightarrow> task_aggregate \<Rightarrow> run_row list" where
  "activeRuns collate aggregate = order_by (\<lambda>r. (collate (r_created_at r), collate (r_id r)))
     (filter (\<lambda>r. isActiveRunStatus (r_status r)) (ag_runs aggregate))"

subsection \<open>The objects\<close>

definition progress_json :: "route_progress \<Rightarrow> json" where
  "progress_json p = JObj [(''total'', JNum (int (pr_total p))), (''completed'', JNum (int (pr_completed p))),
     (''pending'', JNum (int (pr_pending p))), (''running'', JNum (int (pr_running p))),
     (''succeeded'', JNum (int (pr_succeeded p))), (''failed'', JNum (int (pr_failed p))),
     (''skipped'', JNum (int (pr_skipped p))), (''percent'', JNum (int (pr_percent p)))]"

definition evidence_json :: "evidence_summary \<Rightarrow> json" where
  "evidence_json e = JObj [(''totalArtifacts'', JNum (int (es_totalArtifacts e))), (''totalBytes'', JNum (es_totalBytes e)),
     (''byKind'', JObj (map (\<lambda>(name, n). (name, JNum (int n))) (es_byKind e)))]"

definition pending_json :: "review_row \<Rightarrow> json" where
  "pending_json r = JObj [(''id'', JStr (v_id r)), (''runId'', or_null JStr (v_run_id r)),
     (''reviewer'', or_null JStr (v_reviewer r)), (''createdAt'', JStr (v_created_at r))]"

definition projectEvent :: "event_row \<Rightarrow> json" where
  "projectEvent e = JObj [(''id'', JNum (int (e_id e))), (''runId'', or_null JStr (e_run_id e)), (''type'', JStr (e_type e)),
     (''level'', json_name EventLevelSchema (e_level e)), (''message'', JStr (e_message e)), (''createdAt'', JStr (e_created_at e))]"

definition active_run_json :: "run_row \<Rightarrow> json" where
  "active_run_json r = JObj [(''id'', JStr (r_id r)), (''routeStepId'', JStr (r_route_step_id r)),
     (''agent'', json_name AgentKindSchema (r_agent r)), (''role'', json_name RouteRoleSchema (r_role r)),
     (''attempt'', JNum (int (r_attempt r))), (''status'', json_name RunStatusSchema (r_status r)),
     (''startedAt'', or_null JStr (r_started_at r)), (''updatedAt'', JStr (r_updated_at r))]"

definition projectTaskBoardRow :: "(string \<Rightarrow> string) \<Rightarrow> task_aggregate \<Rightarrow> json" where
  "projectTaskBoardRow collate aggregate =
     (let task = ag_task aggregate; pendingReview = latestPendingReview collate aggregate in
      JObj [(''id'', JStr (tr_id task)), (''goal'', JStr (tr_goal task)),
        (''repositoryName'', JStr (pathLeaf (tr_repo task) ''repository'')),
        (''status'', json_name TaskStatusSchema (tr_status task)), (''priority'', json_name PrioritySchema (tr_priority task)),
        (''requestedAgent'', json_name AgentSelectionSchema (tr_agent task)),
        (''routeMode'', json_name RouteModeSchema (rp_mode (tr_routePlan task))),
        (''routeRisk'', json_name RiskLevelSchema (rp_risk (tr_routePlan task))),
        (''routeAgents'', JArr (map (\<lambda>st. json_name AgentKindSchema (s_agent st)) (ag_routeSteps aggregate))),
        (''routeReasons'', JArr (map JStr (rp_reasons (tr_routePlan task)))),
        (''routeProgress'', progress_json (projectRouteProgress aggregate)),
        (''activeRuns'', JArr (map active_run_json (activeRuns collate aggregate))),
        (''evidenceSummary'', evidence_json (projectEvidenceSummary (ag_artifacts aggregate))),
        (''pendingReview'', or_null pending_json pendingReview),
        (''latestEvent'', or_null projectEvent (latestEvent aggregate)),
        (''nextAction'', json_name NextActionSchema (nextAction (tr_status task) pendingReview)),
        (''latestUpdate'', JStr (tr_latestUpdate task)), (''createdAt'', JStr (tr_createdAt task)),
        (''updatedAt'', JStr (tr_updatedAt task))])"

definition task_header_json :: "task_record \<Rightarrow> json" where
  "task_header_json task = JObj [(''id'', JStr (tr_id task)), (''goal'', JStr (tr_goal task)),
     (''status'', json_name TaskStatusSchema (tr_status task)), (''priority'', json_name PrioritySchema (tr_priority task)),
     (''requestedAgent'', json_name AgentSelectionSchema (tr_agent task)),
     (''repositoryName'', JStr (pathLeaf (tr_repo task) ''repository'')), (''baseRef'', JStr (tr_baseRef task)),
     (''context'', or_null JStr (tr_context task)), (''successCriteria'', JArr (map JStr (tr_successCriteria task))),
     (''verificationCommand'', or_null JStr (tr_verificationCommand task)),
     (''handoffRequired'', JBool (tr_handoffRequired task)), (''latestUpdate'', JStr (tr_latestUpdate task)),
     (''route'', JObj [(''mode'', json_name RouteModeSchema (rp_mode (tr_routePlan task))),
        (''risk'', json_name RiskLevelSchema (rp_risk (tr_routePlan task))),
        (''reasons'', JArr (map JStr (rp_reasons (tr_routePlan task))))]),
     (''createdAt'', JStr (tr_createdAt task)), (''updatedAt'', JStr (tr_updatedAt task))]"

definition step_json :: "step_row \<Rightarrow> json" where
  "step_json st = JObj [(''id'', JStr (s_id st)), (''sequence'', JNum (s_sequence_no st)),
     (''agent'', json_name AgentKindSchema (s_agent st)), (''role'', json_name RouteRoleSchema (s_role st)),
     (''required'', JBool (s_required st)), (''reason'', JStr (s_reason st)),
     (''status'', json_name StepStatusSchema (s_status st)), (''runId'', or_null JStr (s_run_id st)),
     (''createdAt'', JStr (s_created_at st)), (''updatedAt'', JStr (s_updated_at st))]"

definition run_json :: "run_row \<Rightarrow> json" where
  "run_json r = JObj [(''id'', JStr (r_id r)), (''routeStepId'', JStr (r_route_step_id r)),
     (''agent'', json_name AgentKindSchema (r_agent r)), (''role'', json_name RouteRoleSchema (r_role r)),
     (''attempt'', JNum (int (r_attempt r))), (''status'', json_name RunStatusSchema (r_status r)),
     (''branch'', or_null JStr (r_branch r)), (''baseCommit'', or_null JStr (r_base_commit r)),
     (''exitCode'', or_null JNum (r_exit_code r)), (''signal'', or_null JStr (r_signal r)),
     (''summary'', or_null JStr (r_summary r)), (''error'', or_null JStr (r_error r)),
     (''startedAt'', or_null JStr (r_started_at r)), (''finishedAt'', or_null JStr (r_finished_at r)),
     (''createdAt'', JStr (r_created_at r)), (''updatedAt'', JStr (r_updated_at r))]"

definition artifact_json :: "artifact_row \<Rightarrow> json" where
  "artifact_json a = JObj [(''id'', JStr (a_id a)), (''runId'', or_null JStr (a_run_id a)),
     (''kind'', json_name ArtifactKindSchema (a_kind a)),
     (''name'', JStr (pathLeaf (a_path a) (enum_name ArtifactKindSchema (a_kind a)))),
     (''sha256'', JStr (a_sha256 a)), (''sizeBytes'', JNum (a_size_bytes a)), (''createdAt'', JStr (a_created_at a)),
     (''contentUrl'', JStr (artifactContentUrl (a_id a)))]"

definition message_json :: "message_row \<Rightarrow> json" where
  "message_json m = JObj [(''id'', JStr (m_id m)), (''runId'', or_null JStr (m_run_id m)),
     (''direction'', json_name DirectionSchema (m_direction m)), (''role'', JStr (m_role m)), (''body'', JStr (m_body m)),
     (''deliveryStatus'', json_name DeliverySchema (m_delivery_status m)), (''createdAt'', JStr (m_created_at m))]"

definition review_json :: "review_row \<Rightarrow> json" where
  "review_json r = JObj [(''id'', JStr (v_id r)), (''runId'', or_null JStr (v_run_id r)),
     (''reviewer'', or_null JStr (v_reviewer r)), (''status'', json_name ReviewStatusSchema (v_status r)),
     (''note'', or_null JStr (v_note r)), (''createdAt'', JStr (v_created_at r)), (''updatedAt'', JStr (v_updated_at r))]"

definition projectTaskDetail :: "(string \<Rightarrow> string) \<Rightarrow> task_aggregate \<Rightarrow> json" where
  "projectTaskDetail collate aggregate =
     JObj [(''summary'', projectTaskBoardRow collate aggregate), (''task'', task_header_json (ag_task aggregate)),
       (''routeSteps'', JArr (map step_json (order_by (\<lambda>st. (s_sequence_no st, collate (s_created_at st))) (ag_routeSteps aggregate)))),
       (''runs'', JArr (map run_json (order_by (\<lambda>r. (collate (r_created_at r), collate (r_id r))) (ag_runs aggregate)))),
       (''events'', JArr (map projectEvent (order_by e_id (ag_events aggregate)))),
       (''artifacts'', JArr (map artifact_json (order_by (\<lambda>a. (collate (a_created_at a), collate (a_id a))) (ag_artifacts aggregate)))),
       (''messages'', JArr (map message_json (order_by (\<lambda>m. (collate (m_created_at m), collate (m_id m))) (ag_messages aggregate)))),
       (''reviews'', JArr (map review_json (order_by (\<lambda>r. (collate (v_created_at r), collate (v_id r))) (ag_reviews aggregate))))]"

subsection \<open>Progress\<close>

lemma step_counts_count: "step_counts steps st = length (filter (\<lambda>r. s_status r = st) steps)"
proof -
  have "fold (\<lambda>step counts. counts(s_status step := counts (s_status step) + 1)) steps c st
      = c st + length (filter (\<lambda>r. s_status r = st) steps)" for c
    by (induction steps arbitrary: c) auto
  then show ?thesis by (simp add: step_counts_def)
qed

lemma step_counts_sum:
  "step_counts steps SPending + step_counts steps SRunning + step_counts steps SSucceeded + step_counts steps SFailed
     + step_counts steps SSkipped = length steps"
  unfolding step_counts_count
proof (induction steps)
  case (Cons r steps)
  then show ?case by (cases "s_status r") auto
qed simp

lemma percent_rounds:
  fixes c t :: nat
  assumes "c \<le> t" and "0 < t"
  shows "(200 * c + t) div (2 * t) \<le> 100" and "t < 200 \<Longrightarrow> (200 * c + t) div (2 * t) = 100 \<longleftrightarrow> c = t"
proof -
  have "200 * c + t \<le> 200 * t + t" using assms(1) by simp
  also have "\<dots> < 101 * (2 * t)" using assms(2) by simp
  finally have lt: "(200 * c + t) div (2 * t) < 101" using assms(2) by (simp add: less_mult_imp_div_less)
  then show "(200 * c + t) div (2 * t) \<le> 100" by simp
  assume t: "t < 200"
  have "100 \<le> (200 * c + t) div (2 * t) \<longleftrightarrow> 100 * (2 * t) \<le> 200 * c + t"
    using assms(2) by (simp add: less_eq_div_iff_mult_less_eq)
  also have "\<dots> \<longleftrightarrow> c = t"
  proof
    assume "100 * (2 * t) \<le> 200 * c + t"
    then have "200 * (t - c) \<le> t" using assms(1) by simp
    with t have "t - c = 0" by (cases "t - c") auto
    with assms(1) show "c = t" by simp
  qed simp
  finally show "(200 * c + t) div (2 * t) = 100 \<longleftrightarrow> c = t" using lt by linarith
qed

text \<open>
  The progress of a route counts every step once: the five counts add up to the total, the completed ones are those
  that succeeded, failed or were skipped, the percentage never exceeds 100, and on a route of fewer than 200 steps it
  is 100 exactly when no step is pending or running.
\<close>
theorem route_progress_counts:
  fixes aggregate :: task_aggregate
  defines "p \<equiv> projectRouteProgress aggregate"
  shows "pr_total p = length (ag_routeSteps aggregate)"
    and "pr_total p = pr_pending p + pr_running p + pr_completed p"
    and "pr_completed p = pr_succeeded p + pr_failed p + pr_skipped p"
    and "pr_percent p \<le> 100"
    and "0 < pr_total p \<Longrightarrow> pr_total p < 200 \<Longrightarrow> pr_percent p = 100 \<longleftrightarrow> pr_pending p = 0 \<and> pr_running p = 0"
proof -
  let ?s = "ag_routeSteps aggregate"
  let ?c = "step_counts ?s SSucceeded + step_counts ?s SFailed + step_counts ?s SSkipped"
  have sum: "step_counts ?s SPending + step_counts ?s SRunning + ?c = length ?s"
    using step_counts_sum [of ?s] by simp
  have percent: "pr_percent p = (if length ?s = 0 then 0 else (200 * ?c + length ?s) div (2 * length ?s))"
    by (simp only: p_def projectRouteProgress_def Let_def route_progress.simps)
  show "pr_total p = length ?s" "pr_total p = pr_pending p + pr_running p + pr_completed p"
    "pr_completed p = pr_succeeded p + pr_failed p + pr_skipped p"
    using sum by (simp_all add: p_def projectRouteProgress_def Let_def)
  have le: "?c \<le> length ?s" using sum by linarith
  show "pr_percent p \<le> 100" unfolding percent using percent_rounds(1) [OF le] by simp
  assume "0 < pr_total p" "pr_total p < 200"
  then have t: "0 < length ?s" "length ?s < 200" by (simp_all add: p_def projectRouteProgress_def Let_def)
  have "pr_pending p = 0 \<and> pr_running p = 0 \<longleftrightarrow> ?c = length ?s"
    using sum by (auto simp: p_def projectRouteProgress_def Let_def)
  then show "pr_percent p = 100 \<longleftrightarrow> pr_pending p = 0 \<and> pr_running p = 0"
    unfolding percent using percent_rounds(2) [OF le t] t(1) by auto
qed

subsection \<open>Evidence, events and reviews\<close>

lemma evidence_fold:
  "fold (\<lambda>artifact (byKind, totalBytes). (byKind(a_kind artifact := Suc (byKind (a_kind artifact))), totalBytes + a_size_bytes artifact)) rows (k, b)
     = (\<lambda>kind. k kind + length (filter (\<lambda>r. a_kind r = kind) rows), b + sum_list (map a_size_bytes rows))"
  by (induction rows arbitrary: k b) (auto simp: fun_eq_iff)

lemma artifact_kinds_covered: "distinct (map snd ArtifactKindSchema)" "kind \<in> snd ` set ArtifactKindSchema"
  by (simp add: ArtifactKindSchema_def) (cases kind; simp add: ArtifactKindSchema_def)

lemma sum_kinds:
  assumes "distinct kinds" and "\<And>r. r \<in> set rows \<Longrightarrow> f r \<in> set kinds"
  shows "sum_list (map (\<lambda>kind. length (filter (\<lambda>r. f r = kind) rows)) kinds) = length rows"
  using assms(2)
proof (induction rows)
  case (Cons r rows)
  have "sum_list (map (\<lambda>kind. length (filter (\<lambda>r. f r = kind) (r # rows))) kinds)
      = sum_list (map (\<lambda>kind. (if kind = f r then 1 else 0) + length (filter (\<lambda>r. f r = kind) rows)) kinds)"
    by (rule arg_cong [where f = sum_list]) auto
  also have "\<dots> = sum_list (map (\<lambda>kind. if kind = f r then 1 else 0) kinds) + length rows"
    using Cons by (simp add: sum_list_addf)
  also have "sum_list (map (\<lambda>kind. if kind = f r then 1 else (0 :: nat)) kinds) = 1"
    using assms(1) Cons.prems [of r] by (simp add: sum_list_distinct_conv_sum_set)
  finally show ?case by simp
qed simp

text \<open>The evidence summary counts every artifact under exactly one kind and adds up all their sizes.\<close>

lemma evidence_summary_counts:
  "es_totalArtifacts (projectEvidenceSummary rows) = length rows"
  "es_totalBytes (projectEvidenceSummary rows) = sum_list (map a_size_bytes rows)"
  "sum_list (map snd (es_byKind (projectEvidenceSummary rows))) = length rows"
proof -
  have "sum_list (map (\<lambda>kind. length (filter (\<lambda>r. a_kind r = kind) rows)) (map snd ArtifactKindSchema)) = length rows"
    by (rule sum_kinds) (use artifact_kinds_covered in auto)
  then show "sum_list (map snd (es_byKind (projectEvidenceSummary rows))) = length rows"
    by (simp add: projectEvidenceSummary_def evidence_fold o_def case_prod_beta)
qed (simp_all add: projectEvidenceSummary_def evidence_fold)

lemma latest_fold:
  fixes events' :: "event_row list"
  defines "f \<equiv> \<lambda>candidate latest. case latest of None \<Rightarrow> Some candidate
     | Some l \<Rightarrow> if e_id l < e_id candidate then Some candidate else latest"
  shows "fold f events' (Some l) = Some m \<Longrightarrow> m \<in> insert l (set events') \<and> (\<forall>e \<in> insert l (set events'). e_id e \<le> e_id m)"
    and "fold f events' (Some l) \<noteq> None"
  by (induction events' arbitrary: l) (auto simp: f_def split: if_splits, force+)

text \<open>The latest event is one of the task's events with the largest id; there is none only without events.\<close>

lemma latestEvent_max:
  "latestEvent aggregate = None \<longleftrightarrow> ag_events aggregate = []"
  "latestEvent aggregate = Some m \<Longrightarrow> m \<in> set (ag_events aggregate) \<and> (\<forall>e \<in> set (ag_events aggregate). e_id e \<le> e_id m)"
  using latest_fold [of "tl (ag_events aggregate)" "hd (ag_events aggregate)"]
  by (cases "ag_events aggregate"; force simp: latestEvent_def)+

lemma latestPendingReview_max:
  "latestPendingReview collate aggregate = None \<longleftrightarrow> (\<forall>r \<in> set (ag_reviews aggregate). v_status r \<noteq> RevPending)"
  "latestPendingReview collate aggregate = Some p \<Longrightarrow> p \<in> set (ag_reviews aggregate) \<and> v_status p = RevPending \<and>
     (\<forall>r \<in> set (ag_reviews aggregate). v_status r = RevPending \<longrightarrow> (collate (v_created_at r), collate (v_id r)) \<le> (collate (v_created_at p), collate (v_id p)))"
proof -
  let ?key = "\<lambda>r. (collate (v_created_at r), collate (v_id r))"
  let ?pending = "filter (\<lambda>r. v_status r = RevPending) (ag_reviews aggregate)"
  have s: "set (order_by_desc ?key ?pending) = set ?pending" by simp
  show "latestPendingReview collate aggregate = None \<longleftrightarrow> (\<forall>r \<in> set (ag_reviews aggregate). v_status r \<noteq> RevPending)"
    using s unfolding latestPendingReview_def by (cases "order_by_desc ?key ?pending") (auto simp: filter_empty_conv)
  assume "latestPendingReview collate aggregate = Some p"
  then obtain rest where o: "order_by_desc ?key ?pending = p # rest"
    unfolding latestPendingReview_def by (cases "order_by_desc ?key ?pending") auto
  with s have "p \<in> set ?pending" by (metis list.set_intros(1))
  moreover have "?key r \<le> ?key p" if "r \<in> set ?pending" for r
    using order_by_desc_hd [OF o that] .
  ultimately show "p \<in> set (ag_reviews aggregate) \<and> v_status p = RevPending \<and>
     (\<forall>r \<in> set (ag_reviews aggregate). v_status r = RevPending \<longrightarrow> ?key r \<le> ?key p)" by simp
qed

text \<open>
  The board asks for a review exactly for a task that waits for one and has a pending review; the review it shows is
  then one of the task's pending reviews, the newest.
\<close>
theorem board_asks_for_pending_review:
  "nextAction (tr_status (ag_task aggregate)) (latestPendingReview collate aggregate) = NextReview \<longleftrightarrow>
     tr_status (ag_task aggregate) = TNeedsReview \<and> (\<exists>r \<in> set (ag_reviews aggregate). v_status r = RevPending)"
  using latestPendingReview_max(1) [of collate aggregate] by (cases "tr_status (ag_task aggregate)") auto

end
