(* ===== verification/Paths.thy ===== *)
theory Paths
  imports CoordState
begin

text \<open>
  Paths below a root: \<open>relative\<close> of \<open>node:path\<close>, the test the source makes on its result wherever it wants a path
  to stay below a directory, and what that test guarantees.
\<close>

fun common_tail :: "string list \<Rightarrow> string list \<Rightarrow> string list \<times> string list" where
  "common_tail (a # as) (b # bs) = (if a = b then common_tail as bs else (a # as, b # bs))"
| "common_tail as bs = (as, bs)"

text \<open>\<open>relative\<close> of \<open>node:path\<close> on two absolute POSIX paths.\<close>

definition relative :: "string \<Rightarrow> string \<Rightarrow> string" where
  "relative frm to = (case common_tail (rev (normal_segments frm)) (rev (normal_segments to)) of
     (as, bs) \<Rightarrow> join ''/'' (replicate (length as) ''..'' @ bs))"

definition escapes :: "string \<Rightarrow> bool" where
  "escapes child \<longleftrightarrow> child = [] \<or> child = ''..'' \<or> starts_with ''../'' child \<or> starts_with ''/'' child"

lemma starts_with_iff: "starts_with p s \<longleftrightarrow> (\<exists>r. s = p @ r)"
  unfolding starts_with_def by (metis append_eq_conv_conj append_take_drop_id)

lemma common_tail_spec: "common_tail as bs = (cs, ds) \<Longrightarrow> \<exists>ps. as = ps @ cs \<and> bs = ps @ ds"
proof (induction as bs rule: common_tail.induct)
  case (1 a as b bs)
  show ?case
  proof (cases "a = b")
    case True
    with 1 obtain ps where "as = ps @ cs" "bs = ps @ ds" by auto
    with True show ?thesis by (intro exI [of _ "a # ps"]) simp
  qed (use 1 in auto)
qed auto

text \<open>A relative path that does not escape leads to a path below the root.\<close>

lemma relative_below:
  assumes "\<not> escapes (relative root path)"
  shows "\<exists>below. below \<noteq> [] \<and> rev (normal_segments path) = rev (normal_segments root) @ below"
proof -
  obtain cs ds where c: "common_tail (rev (normal_segments root)) (rev (normal_segments path)) = (cs, ds)"
    by (cases "common_tail (rev (normal_segments root)) (rev (normal_segments path))")
  from common_tail_spec [OF c] obtain ps where ps: "rev (normal_segments root) = ps @ cs" "rev (normal_segments path) = ps @ ds" by blast
  have rel: "relative root path = join ''/'' (replicate (length cs) ''..'' @ ds)" by (simp add: relative_def c)
  have "cs = []"
  proof (rule ccontr)
    assume "cs \<noteq> []"
    then obtain n where "length cs = Suc n" by (cases cs) auto
    with assms rel show False
      by (cases "replicate n ''..'' @ ds") (auto simp: escapes_def starts_with_iff)
  qed
  moreover have "ds \<noteq> []" using assms rel \<open>cs = []\<close> by (auto simp: escapes_def)
  ultimately show ?thesis using ps by auto
qed

end
