(* ===== verification/HttpErrors.thy ===== *)
theory HttpErrors
  imports Paths
begin

text \<open>
  \<open>src/daemon.ts\<close>: the errors of the HTTP API and how what a handler throws becomes one (\<open>HttpError\<close>,
  \<open>normalizeError\<close>, \<open>errorBody\<close>); the texts of the database's errors, which \<open>normalizeError\<close> searches for words.
\<close>

subsection \<open>API errors\<close>

datatype api_code = ValidationFailedCode | NotFoundCode | StateConflict | AdapterUnavailable | CapabilityUnsupported
  | IdempotencyRequired | IdempotencyConflict | IdempotencyPending | Unauthorized | Forbidden | PayloadTooLarge | InternalError

definition ApiErrorCodes :: "(string \<times> api_code) list" where
  "ApiErrorCodes = [(''validation_failed'', ValidationFailedCode), (''not_found'', NotFoundCode),
     (''state_conflict'', StateConflict), (''adapter_unavailable'', AdapterUnavailable),
     (''capability_unsupported'', CapabilityUnsupported), (''idempotency_required'', IdempotencyRequired),
     (''idempotency_conflict'', IdempotencyConflict), (''idempotency_pending'', IdempotencyPending),
     (''unauthorized'', Unauthorized), (''forbidden'', Forbidden), (''payload_too_large'', PayloadTooLarge),
     (''internal_error'', InternalError)]"

record http_error =
  he_status :: int
  he_code :: api_code
  he_message :: string
  he_retryable :: bool
  he_details :: "json option"

definition HttpError :: "int \<Rightarrow> api_code \<Rightarrow> string \<Rightarrow> http_error" where
  "HttpError status code message =
     \<lparr>he_status = status, he_code = code, he_message = message, he_retryable = False, he_details = None\<rparr>"

text \<open>What a handler throws: an \<open>HttpError\<close>, zod's issues (path and message), the coordinator's errors, any other \<open>Error\<close>.\<close>

datatype thrown =
    ThrewHttp http_error
  | ThrewZod "(string list \<times> string) list"
  | ThrewControl control_code string
  | ThrewCapability string
  | ThrewError string

definition not_found_words :: "string list" where
  "not_found_words = [''not found'', ''Task disappeared'', ''Run disappeared'']"

definition conflict_words :: "string list" where
  "conflict_words = [''must be'', ''requires'', ''status'', ''transition'', ''concurrent'', ''claimed'', ''does not own'',
     ''not running'', ''not pending'', ''belongs to'']"

text \<open>\<open>/a|b|c/iu.test(message)\<close> for alternatives without special characters.\<close>

definition mentions :: "string list \<Rightarrow> string \<Rightarrow> bool" where
  "mentions alternatives message \<longleftrightarrow> list_ex (\<lambda>w. like_contains w message) alternatives"

fun normalizeError :: "thrown \<Rightarrow> http_error" where
  "normalizeError (ThrewHttp e) = e"
| "normalizeError (ThrewZod issues) = (HttpError 400 ValidationFailedCode ''Request validation failed'')
     \<lparr>he_details := Some (JObj [(''issues'', JArr (map (\<lambda>(path, message).
        JObj [(''path'', JStr (join ''.'' path)), (''message'', JStr message)]) issues))])\<rparr>"
| "normalizeError (ThrewControl code message) =
     (if code = RunNotFoundCode then HttpError 404 NotFoundCode message
      else (HttpError 409 StateConflict message)\<lparr>he_retryable := (code = RunStarting)\<rparr>)"
| "normalizeError (ThrewCapability message) = HttpError 409 CapabilityUnsupported message"
| "normalizeError (ThrewError message) =
     (if mentions not_found_words message then HttpError 404 NotFoundCode message
      else if mentions conflict_words message then HttpError 409 StateConflict message
      else (HttpError 500 InternalError ''Internal control-plane error'')\<lparr>he_retryable := True\<rparr>)"

definition errorBody :: "http_error \<Rightarrow> (string \<times> json) list" where
  "errorBody e = [(''error'', JObj ([(''code'', JStr (enum_name ApiErrorCodes (he_code e))), (''message'', JStr (he_message e)),
     (''retryable'', JBool (he_retryable e))] @ (case he_details e of None \<Rightarrow> [] | Some d \<Rightarrow> [(''details'', d)])))]"

subsection \<open>The database's texts\<close>

text \<open>
  The texts \<open>src/db.ts\<close> and \<open>src/protocol.ts\<close> throw for an error of the model, more than one where several statements
  throw it with different texts. \<open>sqlite\<close> are the driver's texts for a violated constraint; validation is zod's.
\<close>

fun transition_text :: "transition_error \<Rightarrow> string" where
  "transition_text (InvalidTaskTransition a b) =
     ''Invalid task transition: '' @ enum_name TaskStatusSchema a @ '' -> '' @ enum_name TaskStatusSchema b"
| "transition_text (InvalidRunTransition a b) =
     ''Invalid run transition: '' @ enum_name RunStatusSchema a @ '' -> '' @ enum_name RunStatusSchema b"

fun db_error_texts :: "(string \<Rightarrow> string list) \<Rightarrow> db_error \<Rightarrow> string list" where
  "db_error_texts sqlite (SqliteConstraint name) = sqlite name"
| "db_error_texts sqlite ValidationFailed = []"
| "db_error_texts sqlite (BadTransition e) = [transition_text e]"
| "db_error_texts sqlite (TaskNotFound i) = [''Task not found: '' @ i]"
| "db_error_texts sqlite (TaskDisappeared i) = [''Task disappeared after create: '' @ i]"
| "db_error_texts sqlite (RunDisappeared i) = [''Run disappeared after create: '' @ i, ''Run disappeared after update: '' @ i]"
| "db_error_texts sqlite EventDisappeared = [''Event disappeared after insert'']"
| "db_error_texts sqlite ArtifactDisappeared = [''Artifact disappeared after insert'']"
| "db_error_texts sqlite (ReviewDisappeared i) = [''Review disappeared after decision: '' @ i]"
| "db_error_texts sqlite (StepNotFound i) = [''Route step not found: '' @ i]"
| "db_error_texts sqlite (RunNotFound i) = [''Run not found: '' @ i]"
| "db_error_texts sqlite (MessageNotFound i) = [''Message not found: '' @ i]"
| "db_error_texts sqlite (WorkerRequired what) = [''Worker id is required for '' @ what, ''Claimed worker id is required for '' @ what]"
| "db_error_texts sqlite (NotClaimedBy i w) = [''Task '' @ i @ '' is not running or is not claimed by '' @ w]"
| "db_error_texts sqlite (InvalidCutoff c) = [''Invalid stale-task cutoff: '' @ c]"
| "db_error_texts sqlite (ChangedInRecovery i) =
     [''Run status changed during stale recovery: '' @ i, ''Task status changed during stale recovery: '' @ i]"
| "db_error_texts sqlite (TaskChangedConcurrently i) = [''Task status changed concurrently: '' @ i]"
| "db_error_texts sqlite (StepChangedConcurrently i) = [''Route step changed concurrently: '' @ i]"
| "db_error_texts sqlite (RunChangedConcurrently i) = [''Run status changed concurrently: '' @ i]"
| "db_error_texts sqlite (LimitOutOfRange n) = [''Limit must be an integer between 1 and 1000'']"
| "db_error_texts sqlite (CursorOutOfRange n) = [''Event cursor must be a non-negative safe integer'']"
| "db_error_texts sqlite BadSha256 = [''Artifact sha256 must be a lowercase SHA-256 digest'']"
| "db_error_texts sqlite BadArtifactSize = [''Artifact size must be a non-negative safe integer'']"
| "db_error_texts sqlite MetadataNotObject = [''Artifact metadata must be JSON-serializable'', ''Artifact metadata must be a JSON object'']"
| "db_error_texts sqlite (ArtifactConflict path) = [''Artifact database evidence must be identical for immutable path: '' @ path]"
| "db_error_texts sqlite (ReviewDecided i) = [''Review not found or already decided: '' @ i]"
| "db_error_texts sqlite (CannotFinalize i st) = [''Task '' @ i @ '' cannot finalize from '' @ enum_name TaskStatusSchema st]"
| "db_error_texts sqlite (NotWaitingForReview i) = [''Task '' @ i @ '' is not waiting for review'']"
| "db_error_texts sqlite (NoPendingReview i) = [''Task '' @ i @ '' has no pending review'']"
| "db_error_texts sqlite (ReviewChangedConcurrently i) = [''Review changed concurrently: '' @ i]"
| "db_error_texts sqlite ReworkNoteRequired = [''Rework note is required'']"
| "db_error_texts sqlite (NotBlocked i) = [''Task '' @ i @ '' is not blocked'']"
| "db_error_texts sqlite (UnconfirmedRemote i run) = [''Task '' @ i @ '' has unconfirmed remote OpenClaw work ('' @ run
     @ ''); confirm cancellation or use the explicit allow-unconfirmed-remote override'']"
| "db_error_texts sqlite (IdemValueRequired label) = [label @ '' is required'']"
| "db_error_texts sqlite (IdemValueTooLong label) = [label @ '' must not exceed 512 characters'']"
| "db_error_texts sqlite BadResponseStatus = [''Idempotent response status must be an integer from 100 to 599'']"
| "db_error_texts sqlite (IdemNoReplay key) = [''Completed idempotency key has no replay response: '' @ key]"
| "db_error_texts sqlite (IdemDisappeared key) = [''Idempotency key disappeared during claim: '' @ key]"
| "db_error_texts sqlite (IdemNotClaimed key) = [''Idempotency key is not claimed: '' @ key]"
| "db_error_texts sqlite (IdemHashConflict key) = [''Idempotency key request hash conflict: '' @ key]"
| "db_error_texts sqlite (IdemUnverified key) = [''Idempotency key completion could not be verified: '' @ key]"
| "db_error_texts sqlite (IdemDifferentResponse key) = [''Idempotency key already has a different response: '' @ key]"

text \<open>The error of a coordinator operation as the daemon catches it; \<open>issues\<close> are zod's for the value at hand.\<close>

fun coord_thrown :: "'w coord_env \<Rightarrow> (string list \<times> string) list \<Rightarrow> coord_error \<Rightarrow> thrown" where
  "coord_thrown env issues (DbFailed e) = (if e = ValidationFailed then ThrewZod issues else ThrewError (ce_message env e))"
| "coord_thrown env issues (Thrown message) = ThrewError message"
| "coord_thrown env issues (PostThrew (CapabilityMissing message)) = ThrewCapability message"
| "coord_thrown env issues (PostThrew (PostFailed message)) = ThrewError message"
| "coord_thrown env issues (RunControl code message) = ThrewControl code message"

subsection \<open>Which status an error answers\<close>

definition code_status :: "api_code \<Rightarrow> int \<Rightarrow> bool" where
  "code_status code status \<longleftrightarrow> (case code of
     ValidationFailedCode \<Rightarrow> status = 400 | Unauthorized \<Rightarrow> status = 401 | Forbidden \<Rightarrow> status = 403
   | NotFoundCode \<Rightarrow> status = 404 | PayloadTooLarge \<Rightarrow> status = 413 | IdempotencyRequired \<Rightarrow> status = 428
   | InternalError \<Rightarrow> status = 500 | AdapterUnavailable \<Rightarrow> False | _ \<Rightarrow> status = 409)"

definition proper_error :: "http_error \<Rightarrow> bool" where
  "proper_error e \<longleftrightarrow> code_status (he_code e) (he_status e)"

lemma proper_status: "proper_error e \<Longrightarrow> 400 \<le> he_status e \<and> he_status e \<le> 500"
  by (simp add: proper_error_def code_status_def split: api_code.splits)

lemma proper_HttpError [simp]: "proper_error (HttpError st c m) \<longleftrightarrow> code_status c st"
  by (simp add: proper_error_def HttpError_def)

text \<open>Whatever is thrown becomes an API error whose code and status agree.\<close>

lemma normalizeError_proper:
  assumes "\<And>e. t = ThrewHttp e \<Longrightarrow> proper_error e"
  shows "proper_error (normalizeError t)"
  using assms by (cases t) (auto simp: proper_error_def HttpError_def code_status_def)

text \<open>Only a missing thing is answered 404, and only an unexplained failure or a run that starts asks for a retry.\<close>

lemma normalizeError_retryable:
  assumes "\<And>e. t = ThrewHttp e \<Longrightarrow> \<not> he_retryable e"
  shows "he_retryable (normalizeError t) \<longleftrightarrow>
    he_code (normalizeError t) = InternalError \<and> (\<exists>m. t = ThrewError m) \<or> (\<exists>m. t = ThrewControl RunStarting m)
    \<or> (\<exists>e. t = ThrewHttp e \<and> he_retryable e)"
  using assms by (cases t) (auto simp: HttpError_def)

subsection \<open>Searching the texts\<close>

lemma contains_iff: "contains p s \<longleftrightarrow> (\<exists>a r. s = a @ p @ r)"
proof (induction s)
  case (Cons c s)
  have "contains p (c # s) \<longleftrightarrow> (\<exists>r. c # s = p @ r) \<or> (\<exists>a r. s = a @ p @ r)"
    using Cons by (simp add: starts_with_iff)
  also have "\<dots> \<longleftrightarrow> (\<exists>a r. c # s = a @ p @ r)"
    by (metis append_Cons append_Nil neq_Nil_conv list.inject)
  finally show ?case .
qed auto

lemma contains_appendI: "contains p a \<or> contains p b \<Longrightarrow> contains p (a @ b)"
  unfolding contains_iff by (metis append.assoc)

text \<open>
  A word can start inside a run of \<open>H\<close>-characters only if its first character outside \<open>H\<close> is the one that follows
  the run.
\<close>

lemma contains_skip:
  assumes "list_all H u" and "dropWhile H p = y # z" and "case rest of [] \<Rightarrow> True | x # _ \<Rightarrow> \<not> H x \<and> x \<noteq> y"
  shows "contains p (u @ rest) \<longleftrightarrow> contains p rest"
  using assms(1)
proof (induction u)
  case (Cons c u)
  have "\<not> starts_with p (c # u @ rest)"
  proof
    assume "starts_with p (c # u @ rest)"
    then obtain r where r: "(c # u) @ rest = p @ r" by (auto simp: starts_with_iff)
    have p: "p = takeWhile H p @ y # z" by (simp flip: assms(2))
    have "dropWhile H (p @ r) = (y # z) @ r"
      using assms(2) by (metis dropWhile_append3 dropWhile_eq_Nil_conv list.discI dropWhile_append)
    moreover have "dropWhile H ((c # u) @ rest) = rest"
      using Cons.prems assms(3) by (cases rest) (auto simp: dropWhile_append list_all_iff)
    moreover have "dropWhile H ((c # u) @ rest) = dropWhile H (p @ r)" by (simp only: r)
    ultimately have "rest = y # z @ r" by simp
    with assms(3) show False by simp
  qed
  with Cons show ?case by simp
qed simp

text \<open>The identifiers the program generates: a prefix and a UUID.\<close>

definition uuid_char :: "char \<Rightarrow> bool" where
  "uuid_char c \<longleftrightarrow> c \<in> set ''0123456789abcdef-''"

definition generated :: "string \<Rightarrow> string \<Rightarrow> bool" where
  "generated kind i \<longleftrightarrow> (\<exists>u. i = kind @ ''_'' @ u \<and> list_all uuid_char u)"

lemma lower_uuid: "list_all uuid_char u \<Longrightarrow> map ascii_lower u = u"
  by (induction u) (auto simp: uuid_char_def ascii_lower_def)

text \<open>What is not there answers 404, whatever the identifier.\<close>

lemma mentions_prefix:
  assumes "list_ex (\<lambda>w. like_contains w a) words"
  shows "mentions words (a @ b)"
  using assms by (auto simp: mentions_def list_ex_iff like_contains_def intro: contains_appendI)

lemma missing_answers_404:
  assumes "e \<in> {TaskNotFound i, RunNotFound i, StepNotFound i, MessageNotFound i, ReviewDecided i, TaskDisappeared i, RunDisappeared i}"
    and "m \<in> set (db_error_texts sqlite e)"
  shows "normalizeError (ThrewError m) = HttpError 404 NotFoundCode m"
proof -
  note hit = mentions_prefix [where words = not_found_words]
  have "mentions not_found_words (''Task not found: '' @ i)" "mentions not_found_words (''Run not found: '' @ i)"
    "mentions not_found_words (''Route step not found: '' @ i)" "mentions not_found_words (''Message not found: '' @ i)"
    "mentions not_found_words (''Review not found or already decided: '' @ i)"
    "mentions not_found_words (''Task disappeared after create: '' @ i)"
    "mentions not_found_words (''Run disappeared after create: '' @ i)"
    "mentions not_found_words (''Run disappeared after update: '' @ i)"
    by (rule hit, code_simp)+
  then have "mentions not_found_words m" using assms by (elim insertE emptyE) auto
  then show ?thesis by simp
qed

definition low :: "string \<Rightarrow> string" where
  "low = map ascii_lower"

fun suffixes_of :: "'a list \<Rightarrow> 'a list list" where
  "suffixes_of [] = []"
| "suffixes_of (x # xs) = (x # xs) # suffixes_of xs"

text \<open>No occurrence of the word starts in the text \<open>a\<close>, whatever follows it.\<close>

definition apart :: "string \<Rightarrow> string \<Rightarrow> bool" where
  "apart p a \<longleftrightarrow> list_all (\<lambda>t. \<not> starts_with p t \<and> \<not> starts_with t p) (suffixes_of a)"

lemma starts_with_both: "starts_with p (a @ x) \<Longrightarrow> starts_with p a \<or> starts_with a p"
  unfolding starts_with_iff by (auto simp: append_eq_append_conv2)

lemma contains_apart: "apart p a \<Longrightarrow> contains p (a @ x) \<longleftrightarrow> contains p x"
  using starts_with_both [of p "_ # _" x] by (induction a) (auto simp: apart_def)

text \<open>A text with identifiers in its gaps.\<close>

fun weave :: "string list \<Rightarrow> string list \<Rightarrow> string" where
  "weave [] us = []"
| "weave [a] us = a"
| "weave (a # b # parts) [] = a"
| "weave (a # b # parts) (u # us) = a @ u @ weave (b # parts) us"

fun silent :: "string list \<Rightarrow> string \<Rightarrow> bool" where
  "silent [] p = False"
| "silent [a] p = (\<not> contains p a)"
| "silent (a # b # parts) p = (apart p a \<and> (case dropWhile uuid_char p of [] \<Rightarrow> False | y # _ \<Rightarrow>
     case b of [] \<Rightarrow> parts = [] | x # _ \<Rightarrow> \<not> uuid_char x \<and> x \<noteq> y) \<and> silent (b # parts) p)"

lemma weave_Cons: "weave ((x # a) # parts) us = x # weave (a # parts) us"
  by (cases parts; cases us) simp_all

lemma silent_weave:
  assumes "silent parts p" and "list_all (list_all uuid_char) us" and "length parts = Suc (length us)"
  shows "\<not> contains p (weave parts us)"
  using assms
proof (induction us arbitrary: parts)
  case Nil
  then obtain a where "parts = [a]" by (cases parts) auto
  with Nil show ?case by simp
next
  case (Cons u us)
  then obtain a b rest where parts: "parts = a # b # rest" by (cases parts; cases "tl parts") auto
  with Cons.prems obtain y z where p: "dropWhile uuid_char p = y # z" and a: "apart p a"
    and b: "case b of [] \<Rightarrow> rest = [] | x # _ \<Rightarrow> \<not> uuid_char x \<and> x \<noteq> y" by (auto split: list.splits)
  have "contains p (weave parts (u # us)) \<longleftrightarrow> contains p (u @ weave (b # rest) us)"
    by (simp add: parts contains_apart [OF a])
  also have "\<dots> \<longleftrightarrow> contains p (weave (b # rest) us)"
    by (rule contains_skip [OF _ p]) (use Cons.prems b in \<open>auto simp: weave_Cons split: list.splits\<close>)
  finally show ?case using Cons parts by simp
qed

lemma low_weave: "list_all (list_all uuid_char) us \<Longrightarrow> low (weave parts us) = weave (map low parts) us"
  by (induction parts us rule: weave.induct) (simp_all add: low_def lower_uuid)

lemma not_mentioned:
  assumes "list_all (silent (map low parts)) (map low words)" and "list_all (list_all uuid_char) us"
    and "length parts = Suc (length us)"
  shows "\<not> mentions words (weave parts us)"
proof -
  have "\<not> like_contains w (weave parts us)" if "w \<in> set words" for w
  proof -
    have "silent (map low parts) (low w)" using assms(1) that by (simp add: list_all_iff)
    from silent_weave [OF this assms(2)] assms(2,3) show ?thesis
      by (simp add: like_contains_def flip: low_def) (simp add: low_weave)
  qed
  then show ?thesis by (auto simp: mentions_def list_ex_iff)
qed

text \<open>
  The refusals of stale operator actions: the texts of four errors contain none of the words \<open>normalizeError\<close> looks
  for, so a review or a retry that lost its race is answered as an internal error that asks to be retried.
\<close>
theorem stale_action_answers_500:
  assumes "generated ''task'' i" and "generated ''run'' run"
    and "e \<in> {NotWaitingForReview i, NoPendingReview i, NotBlocked i, UnconfirmedRemote i run}"
    and "m \<in> set (db_error_texts sqlite e)"
  shows "he_status (normalizeError (ThrewError m)) = 500 \<and> he_retryable (normalizeError (ThrewError m))"
proof -
  from assms(1,2) obtain u v where uv: "i = ''task_'' @ u" "run = ''run_'' @ v" "list_all uuid_char u" "list_all uuid_char v"
    by (auto simp: generated_def)
  let ?words = "not_found_words @ conflict_words"
  let ?silent = "\<lambda>parts. list_all (silent (map low parts)) (map low (not_found_words @ conflict_words))"
  have us: "list_all (list_all uuid_char) [u]" "list_all (list_all uuid_char) [u, v]" using uv(3,4) by simp_all
  have "?silent [''Task task_'', '' is not waiting for review'']" "?silent [''Task task_'', '' has no pending review'']"
    "?silent [''Task task_'', '' is not blocked'']" by code_simp+
  note 1 = this [THEN not_mentioned, OF us(1)]
  have "?silent [''Task task_'', '' has unconfirmed remote OpenClaw work (run_'',
     ''); confirm cancellation or use the explicit allow-unconfirmed-remote override'']" by code_simp
  note 2 = not_mentioned [OF this us(2)]
  have "\<not> mentions ?words m" using 1 2 assms(3,4) by (elim insertE emptyE) (auto simp: uv)
  then have "\<not> mentions not_found_words m" "\<not> mentions conflict_words m" by (simp_all add: mentions_def)
  then show ?thesis by (simp add: HttpError_def)
qed

theorem stale_action_answers_500_witness:
  "he_status (normalizeError (ThrewError ''Task task_0 is not waiting for review'')) = 500"
  using stale_action_answers_500 [of "''task_0''" "''run_0''" "NotWaitingForReview ''task_0''" "''Task task_0 is not waiting for review''" "\<lambda>_. []"]
  by (simp add: generated_def uuid_char_def)

text \<open>A statement that lost a race answers 409.\<close>

lemma lost_race_answers_409:
  assumes "generated ''task'' i" and "generated ''run'' run" and "generated ''review'' rev'"
    and "e \<in> {TaskChangedConcurrently i, RunChangedConcurrently run, ReviewChangedConcurrently rev'}"
    and "m \<in> set (db_error_texts sqlite e)"
  shows "normalizeError (ThrewError m) = HttpError 409 StateConflict m"
proof -
  from assms(1-3) obtain u v w where uv: "i = ''task_'' @ u" "run = ''run_'' @ v" "rev' = ''review_'' @ w"
      "list_all uuid_char u" "list_all uuid_char v" "list_all uuid_char w"
    by (auto simp: generated_def)
  let ?silent = "\<lambda>parts. list_all (silent (map low parts)) (map low not_found_words)"
  have us: "list_all (list_all uuid_char) [u]" "list_all (list_all uuid_char) [v]" "list_all (list_all uuid_char) [w]"
    using uv by simp_all
  have "?silent [''Task status changed concurrently: task_'', '''']" by code_simp
  note 1 = not_mentioned [OF this us(1)]
  have "?silent [''Run status changed concurrently: run_'', '''']" by code_simp
  note 2 = not_mentioned [OF this us(2)]
  have "?silent [''Review changed concurrently: review_'', '''']" by code_simp
  note 3 = not_mentioned [OF this us(3)]
  have "\<not> mentions not_found_words m" using 1 2 3 assms(4,5) by (elim insertE emptyE) (auto simp: uv)
  moreover have "mentions conflict_words (''Task status changed concurrently: '' @ i)"
    "mentions conflict_words (''Run status changed concurrently: '' @ run)" "mentions conflict_words (''Review changed concurrently: '' @ rev')"
    by (rule mentions_prefix, code_simp)+
  then have "mentions conflict_words m" using assms(4,5) by (elim insertE emptyE) auto
  ultimately show ?thesis by simp
qed

end
