(* ===== verification/EventStream.thy ===== *)
theory EventStream
  imports DbReads Projections CanonicalJson HttpErrors "HOL-Library.Sublist"
begin

text \<open>
  The event stream of \<open>src/daemon.ts\<close>: \<open>formatSseEvent\<close>, the sink that writes to a client with back pressure
  (\<open>SseSink\<close>), the event cursor, and the drain that reads the event log and writes what lies after the cursor
  (\<open>openEventStream\<close>). \<open>ser\<close> is \<open>JSON.stringify\<close>.
\<close>

subsection \<open>Frames\<close>

definition event_record_json :: "event_row \<Rightarrow> json" where
  "event_record_json e = JObj [(''id'', JNum (int (e_id e))), (''taskId'', JStr (e_task_id e)), (''runId'', or_null JStr (e_run_id e)),
     (''type'', JStr (e_type e)), (''level'', json_name EventLevelSchema (e_level e)), (''message'', JStr (e_message e)),
     (''data'', or_null id (e_data e)), (''createdAt'', JStr (e_created_at e))]"

definition event_name_char :: "char \<Rightarrow> char" where
  "event_name_char c = (if alnum c \<or> c \<in> {CHR ''_'', CHR ''.'', CHR ''-''} then c else CHR ''_'')"

definition formatSseEvent :: "event_row \<Rightarrow> string" where
  "formatSseEvent e = join newline [''id: '' @ show_nat (e_id e), ''event: '' @ map event_name_char (e_type e),
     ''data: '' @ ser (event_record_json e), '''', '''']"

definition byteLength :: "string \<Rightarrow> nat" where
  "byteLength s = length (concat (map utf8_bytes s))"

subsection \<open>The sink\<close>

definition SSE_MAX_BUFFER_BYTES :: nat where
  "SSE_MAX_BUFFER_BYTES = 1024 * 1024"

text \<open>
  \<open>sk_written\<close> is what the response was given, in order; \<open>accepts n\<close> is what its \<open>write\<close> answers to the
  \<open>n\<close>-th value: whether more may be written before the next \<open>drain\<close> event.
\<close>

record sse_sink =
  sk_written :: "string list"
  sk_queue :: "string list"
  sk_queuedBytes :: nat
  sk_backpressured :: bool
  sk_closed :: bool
  sk_destroyed :: bool

definition new_sink :: sse_sink where
  "new_sink = \<lparr>sk_written = [], sk_queue = [], sk_queuedBytes = 0, sk_backpressured = False, sk_closed = False, sk_destroyed = False\<rparr>"

definition closed :: "sse_sink \<Rightarrow> bool" where
  "closed s \<longleftrightarrow> sk_closed s \<or> sk_destroyed s"

definition response_write :: "(nat \<Rightarrow> bool) \<Rightarrow> string \<Rightarrow> sse_sink \<Rightarrow> sse_sink" where
  "response_write accepts value s = s\<lparr>sk_written := sk_written s @ [value], sk_backpressured := \<not> accepts (length (sk_written s))\<rparr>"

definition sink_write :: "(nat \<Rightarrow> bool) \<Rightarrow> string \<Rightarrow> sse_sink \<Rightarrow> sse_sink" where
  "sink_write accepts value s =
     (if closed s then s
      else if \<not> sk_backpressured s \<and> sk_queue s = [] then response_write accepts value s
      else
        let b = byteLength value in
        if SSE_MAX_BUFFER_BYTES < sk_queuedBytes s + b then s\<lparr>sk_destroyed := True\<rparr>
        else s\<lparr>sk_queue := sk_queue s @ [value], sk_queuedBytes := sk_queuedBytes s + b\<rparr>)"

function flush_loop :: "(nat \<Rightarrow> bool) \<Rightarrow> sse_sink \<Rightarrow> sse_sink" where
  "flush_loop accepts s =
     (if sk_backpressured s then s
      else case sk_queue s of
        [] \<Rightarrow> s
      | value # rest \<Rightarrow> flush_loop accepts (response_write accepts value
          (s\<lparr>sk_queue := rest, sk_queuedBytes := sk_queuedBytes s - byteLength value\<rparr>)))"
  by auto
termination by (relation "measure (\<lambda>(_, s). length (sk_queue s))") (auto simp: response_write_def)

declare flush_loop.simps [simp del]

definition sink_flush :: "(nat \<Rightarrow> bool) \<Rightarrow> sse_sink \<Rightarrow> sse_sink" where
  "sink_flush accepts s = (if closed s then s else flush_loop accepts (s\<lparr>sk_backpressured := False\<rparr>))"

definition sink_close :: "sse_sink \<Rightarrow> sse_sink" where
  "sink_close s = s\<lparr>sk_closed := True, sk_queue := [], sk_queuedBytes := 0\<rparr>"

subsection \<open>The sink keeps order and its bound\<close>

datatype sink_event = Offer string | Drained | Closes

fun sink_step :: "(nat \<Rightarrow> bool) \<Rightarrow> sink_event \<Rightarrow> sse_sink \<Rightarrow> sse_sink" where
  "sink_step accepts (Offer v) s = sink_write accepts v s"
| "sink_step accepts Drained s = sink_flush accepts s"
| "sink_step accepts Closes s = sink_close s"

definition sink_run :: "(nat \<Rightarrow> bool) \<Rightarrow> sink_event list \<Rightarrow> sse_sink" where
  "sink_run accepts evs = fold (sink_step accepts) evs new_sink"

fun offered :: "sink_event list \<Rightarrow> string list" where
  "offered [] = []"
| "offered (Offer v # evs) = v # offered evs"
| "offered (_ # evs) = offered evs"

definition sink_ok :: "string list \<Rightarrow> sse_sink \<Rightarrow> bool" where
  "sink_ok vs s \<longleftrightarrow> sk_queuedBytes s = sum_list (map byteLength (sk_queue s)) \<and> sk_queuedBytes s \<le> SSE_MAX_BUFFER_BYTES
     \<and> (\<exists>lost. vs = sk_written s @ sk_queue s @ lost \<and> (\<not> closed s \<longrightarrow> lost = []))
     \<and> (\<not> closed s \<and> \<not> sk_backpressured s \<longrightarrow> sk_queue s = [])"

lemma flush_loop_done: "sk_backpressured s \<or> sk_queue s = [] \<Longrightarrow> flush_loop accepts s = s"
  by (subst flush_loop.simps) auto

lemma flush_loop_more:
  "\<not> sk_backpressured s \<Longrightarrow> sk_queue s = v # rest \<Longrightarrow> flush_loop accepts s =
     flush_loop accepts (response_write accepts v (s\<lparr>sk_queue := rest, sk_queuedBytes := sk_queuedBytes s - byteLength v\<rparr>))"
  by (subst flush_loop.simps) simp

lemma flush_loop_ok:
  assumes "sk_queuedBytes s = sum_list (map byteLength (sk_queue s))" and "sk_queuedBytes s \<le> SSE_MAX_BUFFER_BYTES"
    and "t = flush_loop accepts s"
  shows "sk_queuedBytes t = sum_list (map byteLength (sk_queue t)) \<and> sk_queuedBytes t \<le> SSE_MAX_BUFFER_BYTES
    \<and> sk_written t @ sk_queue t = sk_written s @ sk_queue s \<and> closed t = closed s
    \<and> (\<not> sk_backpressured t \<longrightarrow> sk_queue t = [])"
  using assms(1,2) unfolding assms(3)
proof (induction accepts s rule: flush_loop.induct)
  case (1 accepts s)
  show ?case
  proof (cases "sk_backpressured s \<or> sk_queue s = []")
    case True
    with 1(2,3) show ?thesis by (auto simp: flush_loop_done)
  next
    case False
    then obtain v rest where q: "\<not> sk_backpressured s" "sk_queue s = v # rest" by (cases "sk_queue s") auto
    let ?s = "response_write accepts v (s\<lparr>sk_queue := rest, sk_queuedBytes := sk_queuedBytes s - byteLength v\<rparr>)"
    have "flush_loop accepts s = flush_loop accepts ?s" using q by (rule flush_loop_more)
    moreover have "sk_queuedBytes ?s = sum_list (map byteLength (sk_queue ?s))" "sk_queuedBytes ?s \<le> SSE_MAX_BUFFER_BYTES"
      using 1(2,3) q(2) by (simp_all add: response_write_def)
    note 1(1) [OF q this]
    ultimately show ?thesis using q(2) by (simp add: response_write_def closed_def)
  qed
qed

lemma sink_step_ok: "sink_ok vs s \<Longrightarrow> sink_ok (vs @ offered [e]) (sink_step accepts e s)"
proof (cases e)
  case (Offer v)
  assume "sink_ok vs s"
  with Offer show ?thesis
    by (auto simp: sink_ok_def sink_write_def response_write_def closed_def Let_def)
next
  case Drained
  assume ok: "sink_ok vs s"
  show ?thesis
  proof (cases "closed s")
    case True
    with ok Drained show ?thesis by (simp add: sink_flush_def)
  next
    case False
    let ?s = "s\<lparr>sk_backpressured := False\<rparr>"
    have "sk_queuedBytes ?s = sum_list (map byteLength (sk_queue ?s))" "sk_queuedBytes ?s \<le> SSE_MAX_BUFFER_BYTES"
      using ok by (simp_all add: sink_ok_def)
    note f = flush_loop_ok [OF this refl, of accepts]
    have "closed ?s = closed s" by (simp add: closed_def)
    with False f ok Drained show ?thesis by (auto simp: sink_ok_def sink_flush_def)
  qed
next
  case Closes
  assume "sink_ok vs s"
  with Closes show ?thesis by (auto simp: sink_ok_def sink_close_def closed_def)
qed

lemma offered_append: "offered (a @ b) = offered a @ offered b"
  by (induction a rule: offered.induct) auto

text \<open>
  What a client has been sent is always a beginning of what was offered, in order; while the connection is open
  nothing is missing but the queue, and the queue never holds more than its bound.
\<close>
theorem sink_keeps_order:
  "sk_queuedBytes (sink_run accepts evs) = sum_list (map byteLength (sk_queue (sink_run accepts evs)))
   \<and> sk_queuedBytes (sink_run accepts evs) \<le> SSE_MAX_BUFFER_BYTES
   \<and> (\<exists>lost. offered evs = sk_written (sink_run accepts evs) @ sk_queue (sink_run accepts evs) @ lost
        \<and> (\<not> closed (sink_run accepts evs) \<longrightarrow> lost = []))"
proof -
  have "sink_ok (offered evs) (sink_run accepts evs)"
  proof (induction evs rule: rev_induct)
    case Nil
    show ?case by (simp add: sink_ok_def sink_run_def new_sink_def)
  next
    case (snoc e evs)
    then show ?case using sink_step_ok [OF snoc, of e accepts] by (simp add: sink_run_def offered_append)
  qed
  then show ?thesis by (simp add: sink_ok_def)
qed

subsection \<open>Cursors\<close>

definition cursor_value :: "string \<Rightarrow> int" where
  "cursor_value s = foldl (\<lambda>n c. 10 * n + (of_char c - 48)) 0 s"

definition all_digits :: "string \<Rightarrow> bool" where
  "all_digits s \<longleftrightarrow> s \<noteq> [] \<and> list_all (\<lambda>c. CHR ''0'' \<le> c \<and> c \<le> CHR ''9'') s"

definition parseEventCursor :: "string option \<Rightarrow> http_error + nat" where
  "parseEventCursor value = (case truthy value of
     None \<Rightarrow> Inr 0
   | Some v \<Rightarrow>
       if \<not> all_digits v then Inl (HttpError 400 ValidationFailedCode ''Event cursor must be an integer'')
       else if \<not> is_safe_int (cursor_value v) then Inl (HttpError 400 ValidationFailedCode ''Event cursor is too large'')
       else Inr (nat (cursor_value v)))"

subsection \<open>The drain\<close>

text \<open>
  The closure of \<open>openEventStream\<close>: its cursor, its filter and its sink; \<open>sm_reads\<close> counts the reads of the event
  log. \<open>dbs n\<close> is the database the \<open>n\<close>-th read sees, \<open>client n\<close> what happens to the sink while it is awaited (the
  client drains or closes the connection, the timer writes a heartbeat).
\<close>

record event_stream =
  sm_cursor :: nat
  sm_taskId :: "string option"
  sm_sink :: sse_sink
  sm_reads :: nat

record stream_env =
  se_accepts :: "nat \<Rightarrow> bool"
  se_dbs :: "nat \<Rightarrow> db"
  se_client :: "nat \<Rightarrow> sink_event list"
  se_again :: "nat \<Rightarrow> bool"

definition heartbeat_frame :: string where
  "heartbeat_frame = '': keepalive'' @ newline @ newline"

definition send_event :: "stream_env \<Rightarrow> event_row \<Rightarrow> event_stream \<Rightarrow> event_stream" where
  "send_event env e m =
     (if e_id e \<le> sm_cursor m then m
      else m\<lparr>sm_sink := sink_write (se_accepts env) (formatSseEvent e) (sm_sink m), sm_cursor := e_id e\<rparr>)"

definition read_events :: "stream_env \<Rightarrow> event_stream \<Rightarrow> (db_error + event_row list) \<times> event_stream" where
  "read_events env m =
     (listEventsAfter (int (sm_cursor m)) (sm_taskId m) 500 (se_dbs env (sm_reads m)),
      m\<lparr>sm_sink := fold (sink_step (se_accepts env)) (se_client env (sm_reads m)) (sm_sink m), sm_reads := Suc (sm_reads m)\<rparr>)"

text \<open>The inner loop. What it throws leaves the cursor where it is.\<close>

partial_function (option) drain_pages :: "stream_env \<Rightarrow> event_stream \<Rightarrow> (db_error option \<times> event_stream) option" where
  "drain_pages env m =
     (if closed (sm_sink m) then Some (None, m)
      else case read_events env m of
        (Inl e, m') \<Rightarrow> Some (Some e, m')
      | (Inr rows, m') \<Rightarrow>
          if rows = [] then Some (None, m')
          else if length rows < 500 then Some (None, fold (send_event env) rows m')
          else drain_pages env (fold (send_event env) rows m'))"

text \<open>\<open>do { ... } while (drainAgain && !sink.closed)\<close>; \<open>se_again\<close>: a wake-up came during the round.\<close>

partial_function (option) drain :: "stream_env \<Rightarrow> event_stream \<Rightarrow> (db_error option \<times> event_stream) option" where
  "drain env m =
     Option.bind (drain_pages env m) (\<lambda>(err, m').
       if err = None \<and> se_again env (sm_reads m') \<and> \<not> closed (sm_sink m') then drain env m' else Some (err, m'))"

subsection \<open>What the client is sent\<close>

definition event_frames :: "sse_sink \<Rightarrow> string list" where
  "event_frames s = filter (\<lambda>v. v \<noteq> heartbeat_frame) (sk_written s @ sk_queue s)"

lemma flush_loop_frames: "sk_written (flush_loop accepts s) @ sk_queue (flush_loop accepts s) = sk_written s @ sk_queue s
    \<and> closed (flush_loop accepts s) = closed s"
proof (induction accepts s rule: flush_loop.induct)
  case (1 accepts s)
  show ?case
  proof (cases "sk_backpressured s \<or> sk_queue s = []")
    case False
    then obtain v rest where q: "\<not> sk_backpressured s" "sk_queue s = v # rest" by (cases "sk_queue s") auto
    show ?thesis using 1 [OF q] by (simp add: flush_loop_more [OF q] q response_write_def closed_def)
  qed (simp add: flush_loop_done)
qed

lemma closed_step: "closed s \<Longrightarrow> closed (sink_step accepts e s)"
  by (cases e) (simp_all add: sink_write_def sink_flush_def sink_close_def closed_def)

lemma step_frames:
  assumes "\<not> closed (sink_step accepts e s)"
  shows "\<not> closed s \<and> event_frames (sink_step accepts e s) = event_frames s @ filter (\<lambda>v. v \<noteq> heartbeat_frame) (offered [e])"
proof -
  from assms closed_step have open': "\<not> closed s" by blast
  show ?thesis
  proof (cases e)
    case (Offer v)
    with assms open' show ?thesis
      by (auto simp: sink_write_def response_write_def event_frames_def closed_def Let_def split: if_splits)
  next
    case Drained
    have "event_frames (flush_loop accepts (s\<lparr>sk_backpressured := False\<rparr>)) = event_frames s"
      unfolding event_frames_def using flush_loop_frames [of accepts "s\<lparr>sk_backpressured := False\<rparr>"] by simp
    with Drained open' show ?thesis by (simp add: sink_flush_def)
  next
    case Closes
    with assms show ?thesis by (simp add: sink_close_def closed_def)
  qed
qed

lemma steps_frames:
  assumes "\<not> closed (fold (sink_step accepts) evs s)" and "set (offered evs) \<subseteq> {heartbeat_frame}"
  shows "\<not> closed s \<and> event_frames (fold (sink_step accepts) evs s) = event_frames s"
  using assms
proof (induction evs arbitrary: s)
  case (Cons e evs)
  have off: "offered (e # evs) = offered [e] @ offered evs" by (cases e) simp_all
  then have hb: "set (offered [e]) \<subseteq> {heartbeat_frame}" "set (offered evs) \<subseteq> {heartbeat_frame}" using Cons.prems(2) by auto
  from Cons.IH [OF _ hb(2), of "sink_step accepts e s"] Cons.prems(1)
  have 1: "\<not> closed (sink_step accepts e s)" "event_frames (fold (sink_step accepts) (e # evs) s) = event_frames (sink_step accepts e s)" by auto
  have "filter (\<lambda>v. v \<noteq> heartbeat_frame) (offered [e]) = []" using hb(1) by (auto simp: filter_empty_conv)
  with step_frames [OF 1(1)] 1(2) show ?case by simp
qed simp

lemma frame_not_heartbeat: "formatSseEvent e \<noteq> heartbeat_frame"
  by (simp add: formatSseEvent_def heartbeat_frame_def)

definition last_id :: "nat \<Rightarrow> event_row list \<Rightarrow> nat" where
  "last_id c rows = (if rows = [] then c else e_id (last rows))"

lemma closed_write: "closed s \<Longrightarrow> closed (sink_write accepts v s)"
  using closed_step [of s accepts "Offer v"] by simp

lemma send_events:
  assumes "sorted_wrt (\<lambda>x y. e_id x < e_id y) rows" and "\<And>e. e \<in> set rows \<Longrightarrow> sm_cursor m < e_id e"
    and "m' = fold (send_event env) rows m"
  shows "sm_cursor m' = last_id (sm_cursor m) rows" and "sm_taskId m' = sm_taskId m" and "sm_reads m' = sm_reads m"
    and "\<not> closed (sm_sink m') \<Longrightarrow>
      \<not> closed (sm_sink m) \<and> event_frames (sm_sink m') = event_frames (sm_sink m) @ map formatSseEvent rows"
proof -
  have "sm_cursor m' = last_id (sm_cursor m) rows \<and> sm_taskId m' = sm_taskId m \<and> sm_reads m' = sm_reads m
    \<and> (\<not> closed (sm_sink m') \<longrightarrow>
      \<not> closed (sm_sink m) \<and> event_frames (sm_sink m') = event_frames (sm_sink m) @ map formatSseEvent rows)"
    using assms(1,2) unfolding assms(3)
  proof (induction rows arbitrary: m)
    case (Cons e rows)
    let ?m = "send_event env e m"
    have m: "sm_cursor ?m = e_id e" "sm_taskId ?m = sm_taskId m" "sm_reads ?m = sm_reads m"
      "sm_sink ?m = sink_write (se_accepts env) (formatSseEvent e) (sm_sink m)"
      using Cons.prems(2) [of e] by (simp_all add: send_event_def)
    have "sm_cursor ?m < e_id x" if "x \<in> set rows" for x using Cons.prems(1) that m(1) by simp
    with Cons.IH [of ?m] Cons.prems(1) have IH:
      "sm_cursor (fold (send_event env) (e # rows) m) = last_id (e_id e) rows"
      "sm_taskId (fold (send_event env) (e # rows) m) = sm_taskId m" "sm_reads (fold (send_event env) (e # rows) m) = sm_reads m"
      "\<not> closed (sm_sink (fold (send_event env) (e # rows) m)) \<Longrightarrow> \<not> closed (sm_sink ?m) \<and>
        event_frames (sm_sink (fold (send_event env) (e # rows) m)) = event_frames (sm_sink ?m) @ map formatSseEvent rows"
      by (simp_all add: m)
    moreover have "\<not> closed (sm_sink ?m) \<Longrightarrow> \<not> closed (sm_sink m) \<and>
        event_frames (sm_sink ?m) = event_frames (sm_sink m) @ [formatSseEvent e]"
      using step_frames [of "se_accepts env" "Offer (formatSseEvent e)" "sm_sink m"] frame_not_heartbeat [of e]
      by (simp add: m)
    ultimately show ?case by (simp add: last_id_def)
  qed (simp add: last_id_def)
  then show "sm_cursor m' = last_id (sm_cursor m) rows" "sm_taskId m' = sm_taskId m" "sm_reads m' = sm_reads m"
    "\<not> closed (sm_sink m') \<Longrightarrow>
      \<not> closed (sm_sink m) \<and> event_frames (sm_sink m') = event_frames (sm_sink m) @ map formatSseEvent rows"
    by blast+
qed

text \<open>The event log only grows, keeps well-formed, and nothing but heartbeats is written beside the drain.\<close>

definition steady :: "stream_env \<Rightarrow> bool" where
  "steady env \<longleftrightarrow> (\<forall>n. db_wf (se_dbs env n) \<and> Sublist.prefix (events (se_dbs env n)) (events (se_dbs env (Suc n)))
     \<and> event_seq (se_dbs env n) \<le> event_seq (se_dbs env (Suc n)) \<and> int (event_seq (se_dbs env n)) \<le> max_safe_int
     \<and> set (offered (se_client env n)) \<subseteq> {heartbeat_frame})"

lemma steady_later:
  assumes "steady env" and "n \<le> k"
  shows "Sublist.prefix (events_after c t (se_dbs env n)) (events_after c t (se_dbs env k))"
    and "event_seq (se_dbs env n) \<le> event_seq (se_dbs env k)"
proof -
  have "Sublist.prefix (events (se_dbs env n)) (events (se_dbs env k)) \<and> event_seq (se_dbs env n) \<le> event_seq (se_dbs env k)"
    using assms(2)
  proof (induction k rule: dec_induct)
    case (step k)
    have "Sublist.prefix (events (se_dbs env k)) (events (se_dbs env (Suc k)))" "event_seq (se_dbs env k) \<le> event_seq (se_dbs env (Suc k))"
      using assms(1) by (auto simp: steady_def)
    with step.IH show ?case by (metis prefix_order.trans le_trans)
  qed simp
  then show "Sublist.prefix (events_after c t (se_dbs env n)) (events_after c t (se_dbs env k))"
    "event_seq (se_dbs env n) \<le> event_seq (se_dbs env k)"
    by (auto simp: events_after_def Sublist.prefix_def)
qed

text \<open>A page of the log and what lies after its last event make up the log.\<close>

lemma events_after_page:
  assumes "db_wf d'" and "Sublist.prefix (events_after c t d) (events_after c t d')"
    and "rows = take n (events_after c t d)"
  shows "events_after c t d' = rows @ events_after (last_id c rows) t d'"
proof (cases "rows = []")
  case False
  let ?k = "length rows"
  from assms(2,3) have rows: "rows = take ?k (events_after c t d')"
    by (auto simp: Sublist.prefix_def min_def)
  with False have "filter (\<lambda>x. e_id (last rows) < e_id x) (events_after c t d') = drop ?k (events_after c t d')"
    using filter_after_take [OF events_after_sorted [OF assms(1)], of ?k c t] by simp
  moreover have "c < e_id (last rows)"
    using False rows events_after_le [OF _ assms(1), of "last rows" c t] by (metis in_set_takeD last_in_set)
  then have "events_after (e_id (last rows)) t d' = filter (\<lambda>x. e_id (last rows) < e_id x) (events_after c t d')"
    by (auto simp: events_after_def intro: filter_cong)
  ultimately show ?thesis using False rows append_take_drop_id [of ?k "events_after c t d'"] by (simp add: last_id_def)
qed (simp add: last_id_def)

text \<open>
  \<open>advanced env m rows m'\<close>: between \<open>m\<close> and \<open>m'\<close> the stream moved its cursor over \<open>rows\<close> and, if the connection is
  still open, sent exactly them. \<open>caught_up\<close>: they are all the events after the cursor in the last database read.
\<close>

definition advanced :: "event_stream \<Rightarrow> event_row list \<Rightarrow> event_stream \<Rightarrow> bool" where
  "advanced m rows m' \<longleftrightarrow> sm_cursor m' = last_id (sm_cursor m) rows \<and> sm_taskId m' = sm_taskId m \<and> sm_reads m < sm_reads m'
     \<and> (\<not> closed (sm_sink m') \<longrightarrow> \<not> closed (sm_sink m)
          \<and> event_frames (sm_sink m') = event_frames (sm_sink m) @ map formatSseEvent rows)"

definition caught_up :: "stream_env \<Rightarrow> event_stream \<Rightarrow> event_stream \<Rightarrow> bool" where
  "caught_up env m m' \<longleftrightarrow>
     advanced m (events_after (sm_cursor m) (sm_taskId m) (se_dbs env (sm_reads m' - 1))) m'"

definition in_log :: "stream_env \<Rightarrow> event_stream \<Rightarrow> bool" where
  "in_log env m \<longleftrightarrow> sm_cursor m \<le> event_seq (se_dbs env (sm_reads m))"

lemma last_id_append: "last_id c (a @ b) = last_id (last_id c a) b"
  by (simp add: last_id_def)

lemma advanced_trans: "advanced m a m1 \<Longrightarrow> advanced m1 b m' \<Longrightarrow> advanced m (a @ b) m'"
  by (simp add: advanced_def last_id_append)

text \<open>One read: a page of the log after the cursor, of which nothing is lost.\<close>

lemma page_step:
  assumes "steady env" and "in_log env m"
    and "rows = take 500 (events_after (sm_cursor m) (sm_taskId m) (se_dbs env (sm_reads m)))"
    and "m' = fold (send_event env) rows (snd (read_events env m))"
  shows "fst (read_events env m) = Inr rows" and "advanced m rows m'" and "sm_reads m' = Suc (sm_reads m)" and "in_log env m'"
proof -
  let ?d = "se_dbs env (sm_reads m)"
  have d: "db_wf ?d" "int (event_seq ?d) \<le> max_safe_int" "set (offered (se_client env (sm_reads m))) \<subseteq> {heartbeat_frame}"
    using assms(1) by (simp_all add: steady_def)
  have "is_safe_int (int (sm_cursor m))"
    using assms(2) d(2) by (simp add: in_log_def is_safe_int_def max_safe_int_def)
  from listEventsAfter_page [OF d(1) this, of 500] show "fst (read_events env m) = Inr rows"
    by (simp add: read_events_def assms(3))
  have sorted: "sorted_wrt (\<lambda>x y. e_id x < e_id y) rows"
    unfolding assms(3) by (intro sorted_wrt_take events_after_sorted d(1))
  have after: "sm_cursor m < e_id e \<and> e_id e \<le> event_seq ?d" if "e \<in> set rows" for e
    using that d(1) unfolding assms(3) by (blast dest: in_set_takeD events_after_le)
  let ?m = "snd (read_events env m)"
  have m: "sm_cursor ?m = sm_cursor m" "sm_taskId ?m = sm_taskId m" "sm_reads ?m = Suc (sm_reads m)"
    by (simp_all add: read_events_def)
  have sent: "sm_cursor m' = last_id (sm_cursor m) rows" "sm_taskId m' = sm_taskId m" "sm_reads m' = Suc (sm_reads m)"
    "\<not> closed (sm_sink m') \<Longrightarrow>
      \<not> closed (sm_sink ?m) \<and> event_frames (sm_sink m') = event_frames (sm_sink ?m) @ map formatSseEvent rows"
    using send_events [OF sorted _ assms(4)] after m by auto
  show "sm_reads m' = Suc (sm_reads m)" by (fact sent(3))
  have "\<not> closed (sm_sink ?m) \<Longrightarrow> \<not> closed (sm_sink m) \<and> event_frames (sm_sink ?m) = event_frames (sm_sink m)"
    using steps_frames [OF _ d(3)] by (simp add: read_events_def)
  with sent show "advanced m rows m'" by (auto simp: advanced_def)
  have "last_id (sm_cursor m) rows \<le> event_seq ?d"
    using assms(2) after by (auto simp: last_id_def in_log_def)
  with steady_later(2) [OF assms(1), of "sm_reads m" "Suc (sm_reads m)"] show "in_log env m'"
    by (simp add: in_log_def sent(1,3))
qed

lemma caught_up_trans:
  assumes "steady env" and "advanced m (take n (events_after (sm_cursor m) (sm_taskId m) (se_dbs env k))) m1"
    and "k < sm_reads m1" and "caught_up env m1 m'"
  shows "caught_up env m m'"
proof -
  let ?rows = "take n (events_after (sm_cursor m) (sm_taskId m) (se_dbs env k))" and ?last = "sm_reads m' - 1"
  have le: "k \<le> ?last" using assms(3,4) by (auto simp: caught_up_def advanced_def)
  have "db_wf (se_dbs env ?last)" using assms(1) by (simp add: steady_def)
  from events_after_page [OF this steady_later(1) [OF assms(1) le] refl]
  have "events_after (sm_cursor m) (sm_taskId m) (se_dbs env ?last) =
      ?rows @ events_after (sm_cursor m1) (sm_taskId m1) (se_dbs env ?last)"
    using assms(2) by (simp add: advanced_def)
  with advanced_trans [OF assms(2)] assms(4) show ?thesis by (simp add: caught_up_def)
qed

definition drain_ok :: "stream_env \<Rightarrow> event_stream \<Rightarrow> db_error option \<times> event_stream \<Rightarrow> bool" where
  "drain_ok env m y \<longleftrightarrow> (steady env \<longrightarrow> in_log env m \<longrightarrow>
     fst y = None \<and> in_log env (snd y) \<and> (\<not> closed (sm_sink (snd y)) \<longrightarrow> caught_up env m (snd y)))"

lemma drain_pages_catches_up: "drain_pages env m = Some y \<Longrightarrow> drain_ok env m y"
proof (erule drain_pages.raw_induct [where P = drain_ok, rotated])
  fix pages env m y
  assume IH: "\<And>m b y. pages m b = Some y \<Longrightarrow> drain_ok m b y" and body: "(if closed (sm_sink m) then Some (None, m)
      else case read_events env m of
        (Inl e, m') \<Rightarrow> Some (Some e, m')
      | (Inr rows, m') \<Rightarrow>
          if rows = [] then Some (None, m')
          else if length rows < 500 then Some (None, fold (send_event env) rows m')
          else pages env (fold (send_event env) rows m')) = Some y"
  show "drain_ok env m y" unfolding drain_ok_def
  proof (intro impI)
    assume st: "steady env" and log: "in_log env m"
    let ?EA = "events_after (sm_cursor m) (sm_taskId m) (se_dbs env (sm_reads m))"
    let ?rows = "take 500 ?EA"
    define m1 where "m1 = fold (send_event env) ?rows (snd (read_events env m))"
    note step = page_step [OF st log refl m1_def]
    show "fst y = None \<and> in_log env (snd y) \<and> (\<not> closed (sm_sink (snd y)) \<longrightarrow> caught_up env m (snd y))"
    proof (cases "closed (sm_sink m)")
      case True
      with body log show ?thesis by auto
    next
      case False
      with body step(1) m1_def have y: "(if ?rows = [] \<or> length ?rows < 500 then Some (None, m1) else pages env m1) = Some y"
        by (auto simp: case_prod_beta split: if_splits)
      show ?thesis
      proof (cases "?rows = [] \<or> length ?rows < 500")
        case True
        then have "length ?EA \<le> 500" by (auto simp: min_def split: if_splits)
        then have "?rows = ?EA" by simp
        with step(2-4) True y show ?thesis by (auto simp: caught_up_def)
      next
        case False
        with y have "pages env m1 = Some y" by simp
        from IH [OF this] st step(4) have IH: "fst y = None" "in_log env (snd y)"
            "\<not> closed (sm_sink (snd y)) \<Longrightarrow> caught_up env m1 (snd y)" by (simp_all add: drain_ok_def)
        with caught_up_trans [OF st step(2)] step(3) show ?thesis by simp
      qed
    qed
  qed
qed

lemma drain_catches_up: "drain env m = Some y \<Longrightarrow> drain_ok env m y"
proof (erule drain.raw_induct [where P = drain_ok, rotated])
  fix rounds env m y
  assume IH: "\<And>m b y. rounds m b = Some y \<Longrightarrow> drain_ok m b y" and body: "Option.bind (drain_pages env m) (\<lambda>(err, m').
       if err = None \<and> se_again env (sm_reads m') \<and> \<not> closed (sm_sink m') then rounds env m' else Some (err, m')) = Some y"
  from body obtain err m1 where pages: "drain_pages env m = Some (err, m1)"
    and y: "(if err = None \<and> se_again env (sm_reads m1) \<and> \<not> closed (sm_sink m1) then rounds env m1 else Some (err, m1)) = Some y"
    by (auto simp: bind_eq_Some_conv)
  note first = drain_pages_catches_up [OF pages]
  show "drain_ok env m y"
  proof (cases "err = None \<and> se_again env (sm_reads m1) \<and> \<not> closed (sm_sink m1)")
    case True
    with y IH have again: "drain_ok env m1 y" by simp
    show ?thesis unfolding drain_ok_def
    proof (intro impI)
      assume st: "steady env" and log: "in_log env m"
      with first True have 1: "in_log env m1" "caught_up env m m1" by (auto simp: drain_ok_def)
      with again st have 2: "fst y = None" "in_log env (snd y)" "\<not> closed (sm_sink (snd y)) \<Longrightarrow> caught_up env m1 (snd y)"
        by (simp_all add: drain_ok_def)
      have k: "advanced m (take (length (events_after (sm_cursor m) (sm_taskId m) (se_dbs env (sm_reads m1 - 1))))
          (events_after (sm_cursor m) (sm_taskId m) (se_dbs env (sm_reads m1 - 1)))) m1" "sm_reads m1 - 1 < sm_reads m1"
        using 1(2) by (auto simp: caught_up_def advanced_def)
      from 2 caught_up_trans [OF st k] show "fst y = None \<and> in_log env (snd y) \<and> (\<not> closed (sm_sink (snd y)) \<longrightarrow> caught_up env m (snd y))"
        by blast
    qed
  next
    case False
    with y first show ?thesis by (auto simp: drain_ok_def split: if_splits)
  qed
qed

subsection \<open>The drain returns\<close>

lemma last_id_page:
  assumes "\<And>e. e \<in> set rows \<Longrightarrow> c < e_id e" and "rows \<noteq> []"
  shows "c < last_id c rows"
  using assms by (simp add: last_id_def)

lemma drain_pages_returns:
  assumes "steady env" and "\<And>n. event_seq (se_dbs env n) \<le> N" and "in_log env m"
  shows "\<exists>y. drain_pages env m = Some y"
  using assms(3)
proof (induction "N - sm_cursor m" arbitrary: m rule: less_induct)
  case less
  let ?EA = "events_after (sm_cursor m) (sm_taskId m) (se_dbs env (sm_reads m))"
  let ?rows = "take 500 ?EA"
  define m1 where "m1 = fold (send_event env) ?rows (snd (read_events env m))"
  note step = page_step [OF assms(1) less.prems refl m1_def]
  show ?case
  proof (cases "\<not> closed (sm_sink m) \<and> \<not> (?rows = [] \<or> length ?rows < 500)")
    case False
    with step(1) show ?thesis by (subst drain_pages.simps) (auto simp: case_prod_beta)
  next
    case True
    have "db_wf (se_dbs env (sm_reads m))" using assms(1) by (simp add: steady_def)
    then have "sm_cursor m < e_id e" if "e \<in> set ?rows" for e
      using that by (meson events_after_le in_set_takeD)
    then have "sm_cursor m < sm_cursor m1" using last_id_page [of ?rows] True step(2) by (auto simp: advanced_def)
    moreover have "sm_cursor m1 \<le> N" using step(4) assms(2) [of "sm_reads m1"] by (simp add: in_log_def)
    ultimately have "N - sm_cursor m1 < N - sm_cursor m" by simp
    from less.hyps [OF this step(4)] obtain y where "drain_pages env m1 = Some y" by blast
    with True step(1) m1_def show ?thesis by (subst drain_pages.simps) (auto simp: case_prod_beta)
  qed
qed

lemma drain_returns:
  assumes "steady env" and "\<And>n. event_seq (se_dbs env n) \<le> N" and "\<And>n. K \<le> n \<Longrightarrow> \<not> se_again env n" and "in_log env m"
  shows "\<exists>y. drain env m = Some y"
  using assms(4)
proof (induction "K - sm_reads m" arbitrary: m rule: less_induct)
  case less
  from drain_pages_returns [OF assms(1,2) less.prems] obtain y where y: "drain_pages env m = Some y" by blast
  with drain_pages_catches_up [OF y] assms(1) less.prems have ok: "fst y = None" "in_log env (snd y)"
    "\<not> closed (sm_sink (snd y)) \<Longrightarrow> sm_reads m < sm_reads (snd y)"
    by (auto simp: drain_ok_def caught_up_def advanced_def)
  show ?case
  proof (cases "se_again env (sm_reads (snd y)) \<and> \<not> closed (sm_sink (snd y))")
    case False
    with y show ?thesis by (subst drain.simps) (auto simp: case_prod_beta)
  next
    case True
    with assms(3) have "sm_reads (snd y) < K" by (meson not_le)
    with ok(3) True have "K - sm_reads (snd y) < K - sm_reads m" by simp
    from less.hyps [OF this ok(2)] obtain z where "drain env (snd y) = Some z" by blast
    with y ok(1) True show ?thesis by (subst drain.simps) (auto simp: case_prod_beta)
  qed
qed

text \<open>
  C38 A subscriber misses nothing and is sent nothing twice: with a log that ends and finitely many wake-ups the drain
  returns without an error, and if the connection is still open the client was sent, after what it had before,
  exactly one frame for every event of its filter after its cursor, in the order of the log, up to the last read; the
  cursor then stands on the last of them, so the next drain, or a reconnection with that id, continues there.
\<close>
theorem stream_delivers_once:
  assumes "steady env" and "\<And>n. event_seq (se_dbs env n) \<le> N" and "\<And>n. K \<le> n \<Longrightarrow> \<not> se_again env n"
    and "in_log env m"
  shows "\<exists>m'. drain env m = Some (None, m') \<and> (\<not> closed (sm_sink m') \<longrightarrow>
    (let missed = events_after (sm_cursor m) (sm_taskId m) (se_dbs env (sm_reads m' - 1)) in
      event_frames (sm_sink m') = event_frames (sm_sink m) @ map formatSseEvent missed
      \<and> sorted_wrt (\<lambda>x y. e_id x < e_id y) missed
      \<and> sm_cursor m' = last_id (sm_cursor m) missed
      \<and> events_after (sm_cursor m') (sm_taskId m') (se_dbs env (sm_reads m' - 1)) = []))"
proof -
  from drain_returns [where K = K and N = N, OF assms] obtain err m' where y: "drain env m = Some (err, m')" by auto
  with drain_catches_up [OF y] assms(1,4) have ok: "err = None" "\<not> closed (sm_sink m') \<Longrightarrow> caught_up env m m'"
    by (simp_all add: drain_ok_def)
  let ?d = "se_dbs env (sm_reads m' - 1)"
  have wf: "db_wf ?d" using assms(1) by (simp add: steady_def)
  have "events_after (last_id c (events_after c t ?d)) t ?d = []" for c t
    using events_after_page [OF wf prefix_order.refl, of "events_after c t ?d" "length (events_after c t ?d)" c t] by simp
  with ok y events_after_sorted [OF wf] show ?thesis
    by (intro exI [of _ m']) (auto simp: caught_up_def advanced_def Let_def)
qed

definition sample_stream_env :: stream_env where
  "sample_stream_env = \<lparr>se_accepts = (\<lambda>_. True), se_dbs = (\<lambda>_. sample_db), se_client = (\<lambda>_. [Drained, Offer heartbeat_frame]),
     se_again = (\<lambda>_. False)\<rparr>"

definition sample_stream :: event_stream where
  "sample_stream = \<lparr>sm_cursor = 1, sm_taskId = None, sm_sink = new_sink, sm_reads = 0\<rparr>"

lemma sample_steady: "steady sample_stream_env"
  by (simp add: steady_def sample_stream_env_def sample_db_wf) (simp add: sample_defs max_safe_int_def)

theorem stream_delivers_once_witness:
  "\<exists>m'. drain sample_stream_env sample_stream = Some (None, m') \<and> (\<not> closed (sm_sink m') \<longrightarrow>
     event_frames (sm_sink m') = map formatSseEvent [sample_event 2 ''b'', sample_event 4 ''a''] \<and> sm_cursor m' = 4)"
proof -
  have "event_seq (se_dbs sample_stream_env n) \<le> 4" "\<not> se_again sample_stream_env n" "in_log sample_stream_env sample_stream" for n
    by (simp_all add: sample_stream_env_def sample_stream_def in_log_def sample_defs)
  from stream_delivers_once [OF sample_steady this(1) this(2) this(3)] obtain m' where m':
    "drain sample_stream_env sample_stream = Some (None, m')" "\<not> closed (sm_sink m') \<Longrightarrow>
      event_frames (sm_sink m') = event_frames new_sink @ map formatSseEvent (events_after 1 None sample_db)
      \<and> sm_cursor m' = last_id 1 (events_after 1 None sample_db)"
    by (auto simp: sample_stream_def sample_stream_env_def Let_def)
  have "events_after 1 None sample_db = [sample_event 2 ''b'', sample_event 4 ''a'']"
    by (simp add: sample_defs events_after_def matches_def truthy_def)
  with m' show ?thesis by (auto simp: new_sink_def event_frames_def last_id_def sample_event_def)
qed

subsection \<open>Frames hold together\<close>

lemma escape_no_newline: "CHR 0x0A \<notin> set (escape_char c)"
proof (cases c rule: escape_char_cases)
  case control
  have h: "CHR 0x0A \<noteq> hex_digit n" if "n < 16" for n
  proof
    assume "CHR 0x0A = hex_digit n"
    then have "(of_char (hex_digit n) :: nat) = of_char (CHR 0x0A)" by simp
    with that show False by (simp add: hex_digit_def split: if_splits)
  qed
  have "(of_char c :: nat) div 16 < 16" "(of_char c :: nat) mod 16 < 16" using control(1) by auto
  with control(2) show ?thesis using h [of "of_char c div 16"] h [of "of_char c mod 16"] by simp
next
  case plain
  then show ?thesis by (auto simp: escape_char_def special_chars)
qed auto

lemma digit_no_newline: "CHR 0x0A \<notin> set (show_nat n)"
proof -
  have "list_all dec_digit (show_nat n)" by (simp add: show_nat_digits)
  then show ?thesis by (auto simp: list_all_iff dec_digit_def)
qed

lemma join_no_newline: "(\<And>x. x \<in> set xs \<Longrightarrow> CHR 0x0A \<notin> set x) \<Longrightarrow> CHR 0x0A \<notin> set (join '','' xs)"
  by (induction "'',''::string" xs rule: join.induct) auto

lemma quote_no_newline: "CHR 0x0A \<notin> set (json_quote s)"
  by (auto simp: json_quote_def escape_no_newline)

lemma ser_no_newline: "CHR 0x0A \<notin> set (ser v)"
proof (induction v)
  case (JNum n)
  show ?case by (auto simp: show_int_def digit_no_newline)
next
  case (JArr xs)
  then show ?case by (auto intro!: join_no_newline)
next
  case (JObj kvs)
  have "CHR 0x0A \<notin> set (json_quote k @ '':'' @ ser v)" if "(k, v) \<in> set kvs" for k v
    using that JObj by (auto simp: quote_no_newline snds.simps)
  then have "CHR 0x0A \<notin> set (join '','' (map (\<lambda>(k, t). json_quote k @ '':'' @ t) (map (map_prod id ser) kvs)))"
    by (intro join_no_newline) (auto simp del: set_append)
  then show ?case by simp
qed (auto simp: quote_no_newline)

fun frame_lines :: "string \<Rightarrow> string list" where
  "frame_lines [] = [[]]"
| "frame_lines (c # cs) = (if c = CHR 0x0A then [] # frame_lines cs
     else case frame_lines cs of [] \<Rightarrow> [[c]] | l # ls \<Rightarrow> (c # l) # ls)"

lemma frame_lines_line: "CHR 0x0A \<notin> set l \<Longrightarrow> frame_lines (l @ newline @ rest) = l # frame_lines rest"
  by (induction l) (auto simp: newline_def special_chars)

lemma event_name_no_newline: "CHR 0x0A \<notin> set (map event_name_char ty)"
proof -
  have "event_name_char c \<noteq> CHR 0x0A" for c by (auto simp: event_name_char_def alnum_def Let_def)
  then show ?thesis by (metis (no_types, lifting) in_set_conv_nth length_map nth_map)
qed

text \<open>
  A frame is read back as exactly its three fields and the blank line that ends it, whatever the event's type,
  message and data contain: no event can add a field or a frame to the stream. The data field is the whole event.
\<close>
theorem frame_is_one_event:
  "frame_lines (formatSseEvent e) =
     [''id: '' @ show_nat (e_id e), ''event: '' @ map event_name_char (e_type e), ''data: '' @ ser (event_record_json e), [], []]"
proof -
  have "frame_lines (join newline [a, b, c, [], []]) = [a, b, c, [], []]"
    if "CHR 0x0A \<notin> set a" "CHR 0x0A \<notin> set b" "CHR 0x0A \<notin> set c" for a b c
    using that frame_lines_line [of "[]" "[]"] by (simp add: frame_lines_line)
  from this [of "''id: '' @ show_nat (e_id e)" "''event: '' @ map event_name_char (e_type e)" "''data: '' @ ser (event_record_json e)"]
  show ?thesis
    using event_name_no_newline [of "e_type e"] by (simp add: formatSseEvent_def digit_no_newline ser_no_newline)
qed

text \<open>Different events have different frames.\<close>

lemma formatSseEvent_inj: "formatSseEvent e = formatSseEvent e' \<Longrightarrow> event_record_json e = event_record_json e'"
  using frame_is_one_event [of e] frame_is_one_event [of e'] by (auto dest: ser_inj)

end
