(* ===== verification/Base64.thy ===== *)
theory Base64
  imports HttpErrors
begin

text \<open>
  \<open>parseBase64\<close> of \<open>src/daemon.ts\<close>: the canonical base64 a screenshot is uploaded in. Bytes are characters.
  \<open>Buffer.from(value, "base64")\<close> is modelled on the strings the regular expression lets through.
\<close>

definition b64_code :: "char \<Rightarrow> nat option" where
  "b64_code c = (let n = of_char c in
     if 65 \<le> n \<and> n \<le> 90 then Some (n - 65)
     else if 97 \<le> n \<and> n \<le> 122 then Some (n - 71)
     else if 48 \<le> n \<and> n \<le> 57 then Some (n + 4)
     else if n = 43 then Some 62 else if n = 47 then Some 63 else None)"

definition b64_digit :: "nat \<Rightarrow> char" where
  "b64_digit v = (if v < 26 then char_of (65 + v) else if v < 52 then char_of (71 + v) else if v < 62 then char_of (v - 4)
     else if v = 62 then CHR ''+'' else CHR ''/'')"

definition b64_char :: "char \<Rightarrow> bool" where
  "b64_char c \<longleftrightarrow> b64_code c \<noteq> None"

definition b64_value :: "char \<Rightarrow> nat" where
  "b64_value c = (case b64_code c of None \<Rightarrow> 0 | Some v \<Rightarrow> v)"

text \<open>The regular expression: groups of four, the last one possibly padded.\<close>

fun b64_shape :: "string \<Rightarrow> bool" where
  "b64_shape [] = True"
| "b64_shape (a # b # c # d # rest) =
     (b64_char a \<and> b64_char b \<and>
       (b64_char c \<and> b64_char d \<and> b64_shape rest
        \<or> rest = [] \<and> d = CHR ''='' \<and> (b64_char c \<or> c = CHR ''='')))"
| "b64_shape _ = False"

fun b64_decode :: "string \<Rightarrow> string" where
  "b64_decode (a # b # c # d # rest) =
     (let v = b64_value a * 262144 + b64_value b * 4096 + b64_value c * 64 + b64_value d in
      if c = CHR ''='' then [char_of (v div 65536)]
      else if d = CHR ''='' then [char_of (v div 65536), char_of (v div 256 mod 256)]
      else char_of (v div 65536) # char_of (v div 256 mod 256) # char_of (v mod 256) # b64_decode rest)"
| "b64_decode _ = []"

fun b64_encode :: "string \<Rightarrow> string" where
  "b64_encode [] = []"
| "b64_encode [x] = (let v = of_char x * 65536 in [b64_digit (v div 262144), b64_digit (v div 4096 mod 64), CHR ''='', CHR ''=''])"
| "b64_encode [x, y] = (let v = of_char x * 65536 + of_char y * 256 in
     [b64_digit (v div 262144), b64_digit (v div 4096 mod 64), b64_digit (v div 64 mod 64), CHR ''=''])"
| "b64_encode (x # y # z # rest) = (let v = of_char x * 65536 + of_char y * 256 + of_char z in
     b64_digit (v div 262144) # b64_digit (v div 4096 mod 64) # b64_digit (v div 64 mod 64) # b64_digit (v mod 64)
       # b64_encode rest)"

definition parseBase64 :: "string \<Rightarrow> http_error + string" where
  "parseBase64 value =
     (if \<not> b64_shape value then Inl (HttpError 400 ValidationFailedCode ''dataBase64 is not canonical base64'')
      else
        let decoded = b64_decode value in
        if b64_encode decoded \<noteq> value then Inl (HttpError 400 ValidationFailedCode ''dataBase64 is not canonical base64'')
        else Inr decoded)"

subsection \<open>Round trip\<close>

lemma b64_code_digit: "v < 64 \<Longrightarrow> b64_code (b64_digit v) = Some v"
  by (auto simp: b64_code_def b64_digit_def Let_def)

lemma b64_digit_facts [simp]:
  "v < 64 \<Longrightarrow> b64_value (b64_digit v) = v" "v < 64 \<Longrightarrow> b64_char (b64_digit v)"
  by (simp_all add: b64_value_def b64_char_def b64_code_digit)

lemma not_pad: "v < 64 \<Longrightarrow> b64_digit v \<noteq> CHR ''=''"
  using b64_code_digit [of v] by (auto simp: b64_code_def)

lemma byte: "(of_char c :: nat) < 256"
  by simp

lemma zero: "(0 :: nat) < 256"
  by simp

text \<open>Three bytes as one number, and its four digits of six bits.\<close>

lemma digits_of:
  fixes v :: nat
  assumes "v < 16777216"
  shows "v div 262144 < 64" "v div 262144 * 262144 + v div 4096 mod 64 * 4096 + v div 64 mod 64 * 64 + v mod 64 = v"
proof -
  show "v div 262144 < 64" using assms by simp
  have "v div 4096 = v div 262144 * 64 + v div 4096 mod 64" "v div 64 = v div 4096 * 64 + v div 64 mod 64" "v = v div 64 * 64 + v mod 64"
    using div_mult_mod_eq [of "v div 4096" 64] div_mult_mod_eq [of "v div 64" 64] div_mult_mod_eq [of v 64]
    by (simp_all add: div_mult2_eq [symmetric] mult.commute)
  then show "v div 262144 * 262144 + v div 4096 mod 64 * 4096 + v div 64 mod 64 * 64 + v mod 64 = v" by linarith
qed

lemma bytes_of:
  fixes x y z :: nat
  assumes "x < 256" and "y < 256" and "z < 256"
  defines "v \<equiv> x * 65536 + y * 256 + z"
  shows "v < 16777216" "v div 65536 = x" "v div 256 mod 256 = y" "v mod 256 = z"
proof -
  have "(k * 256 + z) div 256 = k" "(k * 256 + z) mod 256 = z" for k using assms(3) by simp_all
  from this [of "x * 256 + y"] have "v div 256 = x * 256 + y" "v mod 256 = z" by (simp_all add: v_def algebra_simps)
  moreover have "v div 65536 = v div 256 div 256" by (simp flip: div_mult2_eq)
  ultimately show "v div 65536 = x" "v div 256 mod 256 = y" "v mod 256 = z" using assms(2) by simp_all
  show "v < 16777216" using assms by simp
qed

lemma pad_value [simp]: "b64_value CHR ''='' = 0"
  by (simp add: b64_value_def b64_code_def)

lemma decode_padded:
  assumes "v < 16777216" and "v mod 64 = 0"
  shows "b64_decode [b64_digit (v div 262144), b64_digit (v div 4096 mod 64), b64_digit (v div 64 mod 64), CHR ''='']
      = [char_of (v div 65536), char_of (v div 256 mod 256)]"
    and "b64_shape [b64_digit (v div 262144), b64_digit (v div 4096 mod 64), b64_digit (v div 64 mod 64), CHR ''='']"
    and "v div 64 mod 64 = 0 \<Longrightarrow> b64_decode [b64_digit (v div 262144), b64_digit (v div 4096 mod 64), CHR ''='', CHR ''='']
      = [char_of (v div 65536)]"
    and "b64_shape [b64_digit (v div 262144), b64_digit (v div 4096 mod 64), CHR ''='', CHR ''='']"
  using digits_of [OF assms(1)] assms(2) by (simp_all add: Let_def not_pad)

lemma decode_group:
  assumes "v < 16777216"
  shows "b64_decode (b64_digit (v div 262144) # b64_digit (v div 4096 mod 64) # b64_digit (v div 64 mod 64) # b64_digit (v mod 64) # rest)
      = char_of (v div 65536) # char_of (v div 256 mod 256) # char_of (v mod 256) # b64_decode rest"
    and "b64_shape (b64_digit (v div 262144) # b64_digit (v div 4096 mod 64) # b64_digit (v div 64 mod 64) # b64_digit (v mod 64) # rest)
      \<longleftrightarrow> b64_shape rest"
  using digits_of [OF assms] by (simp_all add: Let_def not_pad)

lemma decode_encode: "b64_decode (b64_encode bs) = bs \<and> b64_shape (b64_encode bs)"
proof (induction bs rule: b64_encode.induct)
  case (2 x)
  let ?v = "of_char x * 65536 + 0 * 256 + 0 :: nat"
  note b = bytes_of [OF byte [of x] zero zero]
  have v: "?v = (of_char x * 1024) * 64" "of_char x * 1024 = (of_char x * 16) * (64 :: nat)" by simp_all
  have 1: "?v mod 64 = 0" "?v div 64 = of_char x * 1024" unfolding v(1) by (simp_all only: mod_mult_self2_is_0 nonzero_mult_div_cancel_right)
  moreover have "of_char x * 1024 mod 64 = (0 :: nat)" unfolding v(2) by (simp only: mod_mult_self2_is_0)
  ultimately have 2: "?v div 64 mod 64 = 0" by (simp only:)
  have e: "b64_encode [x] = [b64_digit (?v div 262144), b64_digit (?v div 4096 mod 64), CHR ''='', CHR ''='']"
    by (simp only: b64_encode.simps Let_def mult_zero_left add_0_right)
  show ?case unfolding e using decode_padded(3) [OF b(1) 1(1) 2] decode_padded(4) [OF b(1) 1(1)]
    by (simp only: b char_of_char simp_thms)
next
  case (3 x y)
  let ?v = "of_char x * 65536 + of_char y * 256 + 0 :: nat"
  note b = bytes_of [OF byte [of x] byte [of y] zero]
  have "?v = (of_char x * 1024 + of_char y * 4) * 64" by simp
  then have 1: "?v mod 64 = 0" by (simp only: mod_mult_self2_is_0)
  have e: "b64_encode [x, y] = [b64_digit (?v div 262144), b64_digit (?v div 4096 mod 64), b64_digit (?v div 64 mod 64), CHR ''='']"
    by (simp only: b64_encode.simps Let_def add_0_right)
  show ?case unfolding e using decode_padded(1,2) [OF b(1) 1]
    by (simp only: b char_of_char simp_thms)
next
  case (4 x y z rest)
  let ?v = "of_char x * 65536 + of_char y * 256 + of_char z :: nat"
  note b = bytes_of [OF byte [of x] byte [of y] byte [of z]]
  show ?case unfolding b64_encode.simps Let_def decode_group [OF b(1)] using 4 by (simp only: b char_of_char simp_thms)
qed simp

text \<open>
  The accepted strings are exactly the encodings of byte strings, and each is read as the bytes it encodes: no two
  uploads spell the same bytes, and every byte string can be uploaded.
\<close>
theorem base64_roundtrip: "parseBase64 value = Inr bs \<longleftrightarrow> value = b64_encode bs"
  using decode_encode [of bs] by (auto simp: parseBase64_def Let_def)

end
