(* ===== verification/DaemonHttp.thy ===== *)
theory DaemonHttp
  imports CoordControl CoordTask EventStream Base64
begin

text \<open>
  The request side of \<open>src/daemon.ts\<close>: the checks before a request is served, reading its body, the idempotent
  mutations, the routes and the answers.

  The server state is the coordinator with the response under construction; every \<open>await\<close> of a coordinator or
  database call is one of \<open>CoordState\<close>, so other requests, the worker and other processes act in between. What comes
  from the platform is an argument: the URL parser, percent decoding, UTF-8 decoding, \<open>JSON.parse\<close>, SHA-256, the
  issues zod reports for a rejected value, and the availability of the agents.
\<close>

subsection \<open>Requests and responses\<close>

datatype header = Absent | One string | Many "string list"

fun headerValue :: "header \<Rightarrow> string option" where
  "headerValue Absent = None"
| "headerValue (One v) = Some v"
| "headerValue (Many vs) = (case vs of [] \<Rightarrow> None | v # _ \<Rightarrow> Some v)"

record http_request =
  rq_method :: "string option"
  rq_url :: "string option"
  rq_host :: header
  rq_origin :: header
  rq_authorization :: header
  rq_idempotencyKey :: header
  rq_lastEventId :: header
  rq_contentLength :: header
  rq_chunks :: "string list"

text \<open>The value \<open>StreamBody cursor taskId\<close> is a response left open for the stream of \<open>EventStream\<close>.\<close>

datatype response_body = NoBody | JsonBody "(string \<times> json) list" | BytesBody string | StreamBody nat "string option"

record http_response =
  re_sent :: bool
  re_destroyed :: bool
  re_status :: int
  re_headers :: "(string \<times> string) list"
  re_body :: response_body

definition new_response :: http_response where
  "new_response = \<lparr>re_sent = False, re_destroyed = False, re_status = 200, re_headers = [], re_body = NoBody\<rparr>"

datatype worker_state = WorkerDisabled | WorkerIdle | WorkerRunning | WorkerStopping

definition WorkerStates :: "(string \<times> worker_state) list" where
  "WorkerStates = [(''disabled'', WorkerDisabled), (''idle'', WorkerIdle), (''running'', WorkerRunning), (''stopping'', WorkerStopping)]"

record 'w daemon =
  dm_coord :: "'w coord"
  dm_response :: http_response
  dm_wakes :: nat
  dm_worker :: worker_state
  dm_stopping :: bool
  dm_lastWorkerError :: "string option"

record 'w daemon_env =
  de_coord :: "'w coord_env"
  de_token :: string
  de_allowedOrigins :: "string list"
  de_allowedHosts :: "string list"
  de_maxJsonBytes :: nat
  de_instanceId :: string
  de_startedAt :: string
  de_pid :: int
  de_recovery :: json
  de_artifactsDir :: string
  de_parse_url :: "string \<Rightarrow> (string \<times> (string \<times> string) list) option"
  de_decode :: "string \<Rightarrow> string option"
  de_utf8 :: "string \<Rightarrow> string"
  de_json :: "string \<Rightarrow> json option"
  de_datetime :: "string \<Rightarrow> bool"
  de_issues :: "string \<Rightarrow> json \<Rightarrow> (string list \<times> string) list"
  de_sha256 :: "string \<Rightarrow> string"
  de_stepIds :: "nat \<Rightarrow> string"
  de_collate :: "string \<Rightarrow> string"
  de_agents :: "(string, 'w, json list) eff"
  de_realpath :: "string \<Rightarrow> (string, 'w, string) eff"

type_synonym ('w, 'a) dop = "(thrown, 'w daemon, 'a) eff"

definition on_coord :: "'w daemon_env \<Rightarrow> ('w, 'a) op \<Rightarrow> ('w, 'a) dop" where
  "on_coord env m s = (case m (dm_coord s) of (r, c) \<Rightarrow>
     (map_sum (coord_thrown (de_coord env) (de_issues env ''stored value'' JNull)) id r, s\<lparr>dm_coord := c\<rparr>))"

definition on_db :: "'w daemon_env \<Rightarrow> 'a db_call \<Rightarrow> ('w, 'a) dop" where
  "on_db env f = on_coord env (call_db (de_coord env) f)"

definition on_world :: "'w daemon_env \<Rightarrow> (string, 'w, 'a) eff \<Rightarrow> ('w, 'a) dop" where
  "on_world env m = on_coord env (call_world (de_coord env) m)"

definition throwHttp :: "int \<Rightarrow> api_code \<Rightarrow> string \<Rightarrow> ('w, 'a) dop" where
  "throwHttp status code message = fail (ThrewHttp (HttpError status code message))"

definition zod :: "'w daemon_env \<Rightarrow> string \<Rightarrow> json \<Rightarrow> 'a option \<Rightarrow> ('w, 'a) dop" where
  "zod env schema value parsed = orThrow (ThrewZod (de_issues env schema value)) parsed"

definition on_response :: "(http_response \<Rightarrow> http_response) \<Rightarrow> ('w, unit) dop" where
  "on_response f = update (\<lambda>s. s\<lparr>dm_response := f (dm_response s)\<rparr>)"

subsection \<open>Answering\<close>

definition setHeader :: "string \<Rightarrow> string \<Rightarrow> http_response \<Rightarrow> http_response" where
  "setHeader name value r = r\<lparr>re_headers := map_set name value (re_headers r)\<rparr>"

definition setCommonHeaders :: "'w daemon_env \<Rightarrow> string \<Rightarrow> string option \<Rightarrow> http_response \<Rightarrow> http_response" where
  "setCommonHeaders env requestId origin r =
     (let r = setHeader ''X-Request-Id'' requestId r;
          r = setHeader ''Cache-Control'' ''no-store'' r;
          r = setHeader ''X-Content-Type-Options'' ''nosniff'' r;
          r = setHeader ''Referrer-Policy'' ''no-referrer'' r in
      case truthy origin of
        None \<Rightarrow> r
      | Some site \<Rightarrow> if site \<in> set (de_allowedOrigins env)
          then setHeader ''Vary'' ''Origin'' (setHeader ''Access-Control-Allow-Origin'' site r) else r)"

definition finish :: "int \<Rightarrow> response_body \<Rightarrow> http_response \<Rightarrow> http_response" where
  "finish status body r = r\<lparr>re_sent := True, re_status := status, re_body := body\<rparr>"

text \<open>\<open>JSON.stringify({ ...body, requestId })\<close>: the body is kept as the object that is written.\<close>

definition sendJson :: "'w daemon_env \<Rightarrow> int \<Rightarrow> (string \<times> json) list \<Rightarrow> string \<Rightarrow> bool \<Rightarrow> string option \<Rightarrow> ('w, unit) dop" where
  "sendJson env status body requestId replayed origin = on_response (\<lambda>r.
     if re_sent r \<or> re_destroyed r then r
     else
       let r = setHeader ''Content-Type'' ''application/json; charset=utf-8'' (setCommonHeaders env requestId origin r);
           r = (if replayed then setHeader ''Idempotency-Replayed'' ''true'' r else r) in
       finish status (JsonBody (map_set ''requestId'' (JStr requestId) body)) r)"

subsection \<open>Bodies\<close>

definition SCREENSHOT_MAX_JSON_BYTES :: nat where
  "SCREENSHOT_MAX_JSON_BYTES = 24 * 1024 * 1024"

definition too_large :: "nat \<Rightarrow> thrown" where
  "too_large maximumBytes = ThrewHttp (HttpError 413 PayloadTooLarge (''Request exceeds '' @ show_nat maximumBytes @ '' bytes''))"

text \<open>\<open>Number(content-length)\<close>: the HTTP parser of the platform lets only digits through.\<close>

definition declared_length :: "header \<Rightarrow> int option" where
  "declared_length h = Option.bind (headerValue h) (\<lambda>v. if all_digits v then Some (cursor_value v) else None)"

fun read_chunks :: "nat \<Rightarrow> nat \<Rightarrow> string list \<Rightarrow> string option" where
  "read_chunks maximumBytes sofar [] = Some []"
| "read_chunks maximumBytes sofar (chunk # chunks) =
     (let sofar = sofar + length chunk in
      if maximumBytes < sofar then None else map_option ((@) chunk) (read_chunks maximumBytes sofar chunks))"

definition readBody :: "'w daemon_env \<Rightarrow> http_request \<Rightarrow> nat \<Rightarrow> ('w, string \<times> json) dop" where
  "readBody env request maximumBytes =
     andThen (require (\<not> (case declared_length (rq_contentLength request) of None \<Rightarrow> False | Some n \<Rightarrow> int maximumBytes < n))
       (too_large maximumBytes)) (\<lambda>_.
     andThen (orThrow (too_large maximumBytes) (read_chunks maximumBytes 0 (rq_chunks request))) (\<lambda>concatenated.
     let raw = de_utf8 env concatenated in
     if trim raw = [] then ok ([], JObj [])
     else
       andThen (orThrow (ThrewHttp (HttpError 400 ValidationFailedCode ''Request body must be valid JSON'')) (de_json env raw)) (\<lambda>value.
       ok (raw, value))))"

definition decodeSegment :: "'w daemon_env \<Rightarrow> string \<Rightarrow> ('w, string) dop" where
  "decodeSegment env segment =
     orThrow (ThrewHttp (HttpError 400 ValidationFailedCode ''URL contains invalid percent encoding'')) (de_decode env segment)"

definition requestFingerprint :: "'w daemon_env \<Rightarrow> http_request \<Rightarrow> string \<Rightarrow> string" where
  "requestFingerprint env request rawBody =
     de_sha256 env ((case rq_method request of None \<Rightarrow> [] | Some m \<Rightarrow> m) @ [char_of (0 :: nat)]
       @ (case rq_url request of None \<Rightarrow> [] | Some u \<Rightarrow> u) @ [char_of (0 :: nat)] @ rawBody)"

subsection \<open>Schemas\<close>

definition EntityIdSchema :: "string \<Rightarrow> string option" where
  "EntityIdSchema s = (if 1 \<le> length s \<and> length s \<le> 200 \<and> task_id_shape s then Some s else None)"

definition IdempotencyKeySchema :: "string \<Rightarrow> string option" where
  "IdempotencyKeySchema s = (if 1 \<le> length s \<and> length s \<le> 200
     \<and> (case s of [] \<Rightarrow> False | c # cs \<Rightarrow> alnum c \<and> list_all (\<lambda>d. id_char d \<or> d = CHR '':'') cs) then Some s else None)"

text \<open>\<open>z.object(...).strict()\<close>: an object without other keys.\<close>

definition strict :: "string list \<Rightarrow> json \<Rightarrow> json option" where
  "strict keys v = (case v of JObj kvs \<Rightarrow> if list_all (\<lambda>kv. fst kv \<in> set keys) kvs then Some v else None | _ \<Rightarrow> None)"

definition string_field :: "string \<Rightarrow> json \<Rightarrow> string option" where
  "string_field k v = Option.bind (json_field k v) json_string"

definition optional_text :: "nat \<Rightarrow> nat \<Rightarrow> json option \<Rightarrow> string option option" where
  "optional_text lo hi v = optional_field (\<lambda>w. Option.bind (json_string w) (text_field lo (Some hi))) v"

definition MessageBodySchema :: "json \<Rightarrow> string option" where
  "MessageBodySchema v = Option.bind (strict [''body''] v) (\<lambda>w. Option.bind (string_field ''body'' w) (text_field 1 (Some 100000)))"

definition RetryBodySchema :: "json \<Rightarrow> (string option \<times> bool) option" where
  "RetryBodySchema v =
     Option.bind (strict [''note'', ''allowUnconfirmedRemote''] v) (\<lambda>w.
     Option.bind (optional_text 1 20000 (json_field ''note'' w)) (\<lambda>reason.
     Option.bind (default_field False json_bool (json_field ''allowUnconfirmedRemote'' w)) (\<lambda>allow.
     Some (reason, allow))))"

record review_decision =
  rd_approved :: bool
  rd_note :: "string option"
  rd_expectedUpdatedAt :: string

definition ReviewDecisionBodySchema :: "(string \<Rightarrow> bool) \<Rightarrow> json \<Rightarrow> review_decision option" where
  "ReviewDecisionBodySchema datetime v =
     Option.bind (strict [''decision'', ''note'', ''expectedUpdatedAt''] v) (\<lambda>w.
     Option.bind (Option.bind (json_field ''decision'' w) (json_enum [(''approved'', True), (''rework_requested'', False)])) (\<lambda>approved.
     Option.bind (optional_text 0 20000 (json_field ''note'' w)) (\<lambda>reason.
     Option.bind (string_field ''expectedUpdatedAt'' w) (\<lambda>expected.
     if datetime expected \<and> (approved \<or> truthy reason \<noteq> None)
     then Some \<lparr>rd_approved = approved, rd_note = reason, rd_expectedUpdatedAt = expected\<rparr> else None))))"

record screenshot_upload =
  su_name :: string
  su_contentType :: screenshot_type
  su_dataBase64 :: string
  su_metadata :: "(string \<times> json) list option"

definition json_object :: "json \<Rightarrow> (string \<times> json) list option" where
  "json_object v = (case v of JObj kvs \<Rightarrow> Some kvs | _ \<Rightarrow> None)"

definition ScreenshotSchema :: "json \<Rightarrow> screenshot_upload option" where
  "ScreenshotSchema v =
     Option.bind (strict [''name'', ''contentType'', ''dataBase64'', ''metadata''] v) (\<lambda>w.
     Option.bind (string_field ''name'' w) (\<lambda>name.
     Option.bind (Option.bind (json_field ''contentType'' w) (json_enum
       [(''image/png'', Png), (''image/jpeg'', Jpeg), (''image/webp'', Webp), (''image/gif'', Gif)])) (\<lambda>contentType.
     Option.bind (string_field ''dataBase64'' w) (\<lambda>dataBase64.
     Option.bind (optional_field json_object (json_field ''metadata'' w)) (\<lambda>metadata.
     if 1 \<le> length name \<and> length name \<le> 160 \<and> 1 \<le> length dataBase64 \<and> length dataBase64 \<le> 22 * 1024 * 1024
     then Some \<lparr>su_name = name, su_contentType = contentType, su_dataBase64 = dataBase64, su_metadata = metadata\<rparr> else None)))))"

subsection \<open>Idempotent mutations\<close>

definition claim_key :: "string \<Rightarrow> string \<Rightarrow> idempotency_claim db_call" where
  "claim_key key hash = (\<lambda>other other' uid ts. claimIdempotencyKey (\<lambda>n. if n = 0 then other' else other) (\<lambda>_. ts) key hash)"

text \<open>What is stored and answered for what the handler returned or threw.\<close>

fun stored_outcome :: "thrown + int \<times> json \<Rightarrow> int \<times> (string \<times> json) list" where
  "stored_outcome (Inr (status, value)) = (status, [(''data'', value)])"
| "stored_outcome (Inl thrown) = (he_status (normalizeError thrown), errorBody (normalizeError thrown))"

text \<open>The claimed key: the handler runs, its outcome is stored, and then answered.\<close>

definition complete_mutation ::
  "'w daemon_env \<Rightarrow> string \<Rightarrow> string \<Rightarrow> string \<Rightarrow> string option \<Rightarrow> ('w, int \<times> json) dop \<Rightarrow> ('w, unit) dop" where
  "complete_mutation env key hash requestId origin handler =
     andThen (attempt handler) (\<lambda>outcome.
     let (status, stored) = stored_outcome outcome in
     andThen (on_db env (\<lambda>other _ _ ts. completeIdempotencyKey other ts key hash status (Some (JObj stored)))) (\<lambda>_.
     sendJson env status stored requestId False (truthy origin)))"

definition runIdempotentMutation ::
  "'w daemon_env \<Rightarrow> http_request \<Rightarrow> string \<Rightarrow> string \<Rightarrow> string option \<Rightarrow> ('w, int \<times> json) dop \<Rightarrow> ('w, unit) dop" where
  "runIdempotentMutation env request requestId rawBody origin handler =
     andThen (orThrow (ThrewHttp (HttpError 428 IdempotencyRequired ''Idempotency-Key is required for mutations''))
       (truthy (headerValue (rq_idempotencyKey request)))) (\<lambda>keyHeader.
     andThen (zod env ''idempotency key'' (JStr keyHeader) (IdempotencyKeySchema keyHeader)) (\<lambda>key.
     let hash = requestFingerprint env request rawBody in
     andThen (on_db env (claim_key key hash)) (\<lambda>claim. case claim of
       ClaimConflict \<Rightarrow> throwHttp 409 IdempotencyConflict ''Idempotency-Key was already used for a different request''
     | ClaimPending _ _ \<Rightarrow> fail (ThrewHttp ((HttpError 409 IdempotencyPending
         ''The original request is still pending or requires reconciliation'')\<lparr>he_retryable := True\<rparr>))
     | ClaimReplay status body _ \<Rightarrow>
         sendJson env status (case body of JObj kvs \<Rightarrow> kvs | _ \<Rightarrow> []) requestId True (truthy origin)
     | ClaimNew _ \<Rightarrow>
         complete_mutation env key hash requestId origin handler)))"

end
