(* ===== verification/DaemonRoutes.thy ===== *)
theory DaemonRoutes
  imports DaemonHttp Paths
begin

text \<open>
  The routes of \<open>src/daemon.ts\<close>: \<open>routeRequest\<close> with the handler of every route, \<open>sendArtifact\<close>, and the
  request callback of the server with its guards and its \<open>catch\<close>.
\<close>

subsection \<open>Reads\<close>

fun each :: "('x \<Rightarrow> ('w, 'a) dop) \<Rightarrow> 'x list \<Rightarrow> ('w, 'a list) dop" where
  "each f [] = ok []"
| "each f (x # xs) = andThen (f x) (\<lambda>y. andThen (each f xs) (\<lambda>ys. ok (y # ys)))"

definition loadAggregates :: "'w daemon_env \<Rightarrow> task_status option \<Rightarrow> ('w, task_aggregate list) dop" where
  "loadAggregates env status =
     andThen (on_db env (\<lambda>_ _ _ _. listTasks status)) (\<lambda>records.
     andThen (each (\<lambda>task. on_db env (\<lambda>_ _ _ _. getTask (tr_id task))) records) (\<lambda>aggregates.
     ok (List.map_filter id aggregates)))"

definition health_fields :: "'w daemon_env \<Rightarrow> 'w daemon \<Rightarrow> (string \<times> json) list" where
  "health_fields env s = [(''status'', JStr (if dm_lastWorkerError s \<noteq> None \<and> dm_lastWorkerError s \<noteq> Some [] then ''degraded'' else ''ready'')),
     (''apiVersion'', JStr ''v1''), (''version'', JStr ''0.1.0''), (''pid'', JNum (de_pid env)),
     (''instanceId'', JStr (de_instanceId env)), (''startedAt'', JStr (de_startedAt env)),
     (''worker'', json_name WorkerStates (dm_worker s))]"

definition answer :: "'w daemon_env \<Rightarrow> string \<Rightarrow> string option \<Rightarrow> json \<Rightarrow> ('w, unit) dop" where
  "answer env requestId origin value = sendJson env 200 [(''data'', value)] requestId False (truthy origin)"

definition get_health :: "'w daemon_env \<Rightarrow> ('w, json) dop" where
  "get_health env = query (\<lambda>s. JObj (health_fields env s @ [(''recovery'', de_recovery env)]))"

definition get_agents :: "'w daemon_env \<Rightarrow> ('w, json) dop" where
  "get_agents env = andThen (on_world env (de_agents env)) (\<lambda>agents. ok (JObj [(''agents'', JArr agents)]))"

text \<open>The board's rows are JSON; \<open>row.status\<close> is the status of the aggregate the row is of.\<close>

definition get_control_center :: "'w daemon_env \<Rightarrow> ('w, json) dop" where
  "get_control_center env =
     andThen (loadAggregates env None) (\<lambda>aggregates.
     let status = (\<lambda>a. tr_status (ag_task a));
         counts = map (\<lambda>(name, st). (name, JNum (int (length (filter (\<lambda>a. status a = st) aggregates))))) TaskStatusSchema;
         attention = filter (\<lambda>a. status a \<in> {TRunning, TBlocked, TNeedsReview}) aggregates in
     andThen (query (\<lambda>s. JObj (health_fields env s))) (\<lambda>daemon.
     andThen (on_world env (de_agents env)) (\<lambda>agents.
     ok (JObj [(''daemon'', daemon), (''counts'', JObj counts),
       (''attention'', JArr (map (projectTaskBoardRow (de_collate env)) attention)), (''agents'', JArr agents)]))))"

definition get_tasks :: "'w daemon_env \<Rightarrow> string option \<Rightarrow> ('w, json) dop" where
  "get_tasks env status =
     andThen (case truthy status of None \<Rightarrow> ok None
       | Some st \<Rightarrow> andThen (zod env ''status'' (JStr st) (map_of TaskStatusSchema st)) (\<lambda>v. ok (Some v))) (\<lambda>filt.
     andThen (loadAggregates env filt) (\<lambda>aggregates.
     ok (JObj [(''tasks'', JArr (map (projectTaskBoardRow (de_collate env)) aggregates))])))"

definition get_task :: "'w daemon_env \<Rightarrow> string \<Rightarrow> ('w, json) dop" where
  "get_task env taskId =
     andThen (on_db env (\<lambda>_ _ _ _. getTask taskId)) (\<lambda>found.
     andThen (orThrow (ThrewHttp (HttpError 404 NotFoundCode (''Task not found: '' @ taskId))) found) (\<lambda>aggregate.
     ok (projectTaskDetail (de_collate env) aggregate)))"

definition review_record_json :: "review_row \<Rightarrow> json" where
  "review_record_json r = JObj [(''id'', JStr (v_id r)), (''taskId'', JStr (v_task_id r)), (''runId'', or_null JStr (v_run_id r)),
     (''reviewer'', or_null JStr (v_reviewer r)), (''status'', json_name ReviewStatusSchema (v_status r)),
     (''note'', or_null JStr (v_note r)), (''createdAt'', JStr (v_created_at r)), (''updatedAt'', JStr (v_updated_at r))]"

text \<open>The status goes to \<open>listReviews\<close> unchecked, which refuses an unknown one.\<close>

definition get_reviews :: "'w daemon_env \<Rightarrow> string option \<Rightarrow> ('w, json) dop" where
  "get_reviews env status =
     andThen (case truthy status of None \<Rightarrow> ok None
       | Some st \<Rightarrow> andThen (orThrow (ThrewError (''Invalid review status: '' @ st)) (map_of ReviewStatusSchema st)) (\<lambda>v. ok (Some v))) (\<lambda>filt.
     andThen (on_db env (\<lambda>_ _ _ _ s. (listReviews None \<lparr>vf_status = filt, vf_limit = Some 500\<rparr> s, s))) (\<lambda>rows.
     ok (JObj [(''reviews'', JArr (map review_record_json rows))])))"

definition run_record_json :: "run_row \<Rightarrow> json" where
  "run_record_json r = JObj [(''id'', JStr (r_id r)), (''taskId'', JStr (r_task_id r)), (''routeStepId'', JStr (r_route_step_id r)),
     (''agent'', json_name AgentKindSchema (r_agent r)), (''role'', json_name RouteRoleSchema (r_role r)),
     (''attempt'', JNum (int (r_attempt r))), (''status'', json_name RunStatusSchema (r_status r)),
     (''branch'', or_null JStr (r_branch r)), (''baseCommit'', or_null JStr (r_base_commit r)),
     (''exitCode'', or_null JNum (r_exit_code r)), (''signal'', or_null JStr (r_signal r)),
     (''summary'', or_null JStr (r_summary r)), (''error'', or_null JStr (r_error r)),
     (''startedAt'', or_null JStr (r_started_at r)), (''finishedAt'', or_null JStr (r_finished_at r)),
     (''createdAt'', JStr (r_created_at r)), (''updatedAt'', JStr (r_updated_at r))]"

definition enum_param :: "'w daemon_env \<Rightarrow> string \<Rightarrow> (string \<times> 'a) list \<Rightarrow> string option \<Rightarrow> ('w, 'a option) dop" where
  "enum_param env name schema value = (case truthy value of None \<Rightarrow> ok None
     | Some v \<Rightarrow> andThen (zod env name (JStr v) (map_of schema v)) (\<lambda>x. ok (Some x)))"

definition get_runs :: "'w daemon_env \<Rightarrow> string option \<Rightarrow> string option \<Rightarrow> ('w, json) dop" where
  "get_runs env status agent =
     andThen (enum_param env ''status'' RunStatusSchema status) (\<lambda>st.
     andThen (enum_param env ''agent'' AgentKindSchema agent) (\<lambda>ag.
     andThen (on_db env (\<lambda>_ _ _ _ s. (listRuns None \<lparr>rf_status = st, rf_agent = ag, rf_limit = Some 500\<rparr> s, s))) (\<lambda>rows.
     ok (JObj [(''runs'', JArr (map run_record_json rows))]))))"

subsection \<open>Mutations\<close>

definition wakeWorker :: "('w, unit) dop" where
  "wakeWorker = update (\<lambda>s. s\<lparr>dm_wakes := Suc (dm_wakes s)\<rparr>)"

definition task_detail :: "'w daemon_env \<Rightarrow> string \<Rightarrow> ('w, json) dop" where
  "task_detail env taskId =
     andThen (on_db env (\<lambda>_ _ _ _. getTask taskId)) (\<lambda>found.
     andThen (orThrow (ThrewError (''Task disappeared: '' @ taskId)) found) (\<lambda>aggregate.
     ok (projectTaskDetail (de_collate env) aggregate)))"

text \<open>An operation identifier and the time.\<close>

definition draw_operation :: "'w daemon_env \<Rightarrow> ('w, string \<times> string) dop" where
  "draw_operation env = query (\<lambda>s. (''op_'' @ ce_uuid (de_coord env) (co_tick (dm_coord s)), ce_now (de_coord env) (co_tick (dm_coord s))))"

text \<open>\<open>createTask\<close> parses the parsed payload again, which gives the same payload: it gets the value as it came.\<close>

definition post_task :: "'w daemon_env \<Rightarrow> json \<Rightarrow> ('w, int \<times> json) dop" where
  "post_task env value =
     andThen (zod env ''task'' value (parseTaskPayload value)) (\<lambda>_.
     andThen (on_coord env (coord_createTask (de_coord env) (de_stepIds env) value)) (\<lambda>created.
     andThen wakeWorker (\<lambda>_.
     ok (201, projectTaskDetail (de_collate env) created))))"

definition post_retry :: "'w daemon_env \<Rightarrow> string \<Rightarrow> json \<Rightarrow> ('w, int \<times> json) dop" where
  "post_retry env taskId value =
     andThen (zod env ''retry'' value (RetryBodySchema value)) (\<lambda>(reason, allow).
     andThen (on_coord env (coord_retryBlockedTask (de_coord env) taskId reason allow)) (\<lambda>_.
     andThen wakeWorker (\<lambda>_.
     andThen (task_detail env taskId) (\<lambda>detail.
     ok (202, detail)))))"

definition post_cancel_task :: "'w daemon_env \<Rightarrow> string \<Rightarrow> ('w, int \<times> json) dop" where
  "post_cancel_task env taskId =
     andThen (on_coord env (stopTask (de_coord env) taskId)) (\<lambda>_.
     andThen (draw_operation env) (\<lambda>(operationId, createdAt).
     ok (202, JObj [(''operationId'', JStr operationId), (''state'', JStr ''accepted''), (''taskId'', JStr taskId),
       (''createdAt'', JStr createdAt)])))"

definition post_screenshot :: "'w daemon_env \<Rightarrow> string \<Rightarrow> string \<Rightarrow> json \<Rightarrow> ('w, int \<times> json) dop" where
  "post_screenshot env taskId runId value =
     andThen (zod env ''screenshot'' value (ScreenshotSchema value)) (\<lambda>parsed.
     andThen (lift_res (map_sum ThrewHttp id (parseBase64 (su_dataBase64 parsed)))) (\<lambda>bs.
     andThen (on_coord env (attachScreenshot (de_coord env) \<lparr>sh_taskId = taskId, sh_runId = runId, sh_name = su_name parsed,
       sh_contentType = su_contentType parsed, sh_data = bs, sh_metadata = (case su_metadata parsed of None \<Rightarrow> [] | Some m \<Rightarrow> m)\<rparr>)) (\<lambda>artifact.
     ok (201, JObj [(''id'', JStr (a_id artifact)), (''kind'', json_name ArtifactKindSchema (a_kind artifact)),
       (''sha256'', JStr (a_sha256 artifact)), (''sizeBytes'', JNum (a_size_bytes artifact)),
       (''contentUrl'', JStr (artifactContentUrl (a_id artifact)))]))))"

definition message_record_json :: "message_row \<Rightarrow> json" where
  "message_record_json m = JObj [(''id'', JStr (m_id m)), (''taskId'', JStr (m_task_id m)), (''runId'', or_null JStr (m_run_id m)),
     (''direction'', json_name DirectionSchema (m_direction m)), (''role'', JStr (m_role m)), (''body'', JStr (m_body m)),
     (''deliveryStatus'', json_name DeliverySchema (m_delivery_status m)), (''createdAt'', JStr (m_created_at m))]"

definition post_message :: "'w daemon_env \<Rightarrow> string \<Rightarrow> json \<Rightarrow> ('w, int \<times> json) dop" where
  "post_message env runId value =
     andThen (zod env ''message'' value (MessageBodySchema value)) (\<lambda>body.
     andThen (on_coord env (postMessageToRun (de_coord env) runId body)) (\<lambda>message.
     ok (202, message_record_json message)))"

definition StopStates :: "(string \<times> stop_result) list" where
  "StopStates = [(''accepted'', StopAccepted), (''already-terminal'', StopAlreadyTerminal), (''finalizing'', StopFinalizing)]"

definition post_cancel_run :: "'w daemon_env \<Rightarrow> string \<Rightarrow> ('w, int \<times> json) dop" where
  "post_cancel_run env runId =
     andThen (on_coord env (stopRun (de_coord env) runId)) (\<lambda>state.
     andThen (on_db env (\<lambda>_ _ _ _. query (getRun runId))) (\<lambda>run.
     andThen (draw_operation env) (\<lambda>(operationId, createdAt).
     ok (202, JObj [(''operationId'', JStr operationId), (''state'', json_name StopStates state), (''runId'', JStr runId),
       (''taskId'', or_null (\<lambda>r. JStr (r_task_id r)) run), (''createdAt'', JStr createdAt)]))))"

definition post_decision :: "'w daemon_env \<Rightarrow> string \<Rightarrow> json \<Rightarrow> ('w, int \<times> json) dop" where
  "post_decision env reviewId value =
     andThen (zod env ''decision'' value (ReviewDecisionBodySchema (de_datetime env) value)) (\<lambda>parsed.
     andThen (if rd_approved parsed
       then on_coord env (approveReview (de_coord env) reviewId (rd_expectedUpdatedAt parsed) (rd_note parsed))
       else
         andThen (on_coord env (requestReviewRework (de_coord env) reviewId (rd_expectedUpdatedAt parsed)
           (case rd_note parsed of None \<Rightarrow> [] | Some n \<Rightarrow> n))) (\<lambda>taskId.
         andThen wakeWorker (\<lambda>_. ok taskId))) (\<lambda>taskId.
     andThen (task_detail env taskId) (\<lambda>detail.
     ok (200, detail))))"

definition mutation ::
  "'w daemon_env \<Rightarrow> http_request \<Rightarrow> string \<Rightarrow> string option \<Rightarrow> nat \<Rightarrow> (json \<Rightarrow> ('w, int \<times> json) dop) \<Rightarrow> ('w, unit) dop" where
  "mutation env request requestId origin maximumBytes handler =
     andThen (readBody env request maximumBytes) (\<lambda>(raw, value).
     runIdempotentMutation env request requestId raw origin (handler value))"

subsection \<open>Artifacts\<close>

definition artifactContentType :: "string \<Rightarrow> json option \<Rightarrow> string" where
  "artifactContentType path metadata = (case Option.bind metadata (json_field ''contentType'') of
     Some (JStr t) \<Rightarrow> if starts_with ''image/'' t then t else
       (let extension = map ascii_lower (extname path) in
        if extension = ''.json'' then ''application/json; charset=utf-8''
        else if extension \<in> {''.txt'', ''.log'', ''.md'', ''.patch''} then ''text/plain; charset=utf-8''
        else ''application/octet-stream'')
   | _ \<Rightarrow>
       (let extension = map ascii_lower (extname path) in
        if extension = ''.json'' then ''application/json; charset=utf-8''
        else if extension \<in> {''.txt'', ''.log'', ''.md'', ''.patch''} then ''text/plain; charset=utf-8''
        else ''application/octet-stream''))"

definition conflict :: "string \<Rightarrow> thrown" where
  "conflict message = ThrewHttp (HttpError 409 StateConflict message)"

definition sendArtifact :: "'w daemon_env \<Rightarrow> string \<Rightarrow> string \<Rightarrow> string option \<Rightarrow> ('w, unit) dop" where
  "sendArtifact env artifactId requestId origin =
     andThen (on_db env (\<lambda>_ _ _ _. query (getArtifact artifactId))) (\<lambda>found.
     andThen (orThrow (ThrewHttp (HttpError 404 NotFoundCode (''Artifact not found: '' @ artifactId))) found) (\<lambda>artifact.
     andThen (on_world env (de_realpath env (de_artifactsDir env))) (\<lambda>root.
     andThen (on_world env (sv_lstat (ce_services (de_coord env)) (a_path artifact))) (\<lambda>info.
     andThen (require (fi_isFile info \<and> \<not> fi_isSymbolicLink info) (conflict ''Artifact is not a regular file'')) (\<lambda>_.
     andThen (on_world env (de_realpath env (a_path artifact))) (\<lambda>path.
     andThen (require (\<not> escapes (relative root path)) (conflict ''Artifact path escaped storage root'')) (\<lambda>_.
     andThen (on_world env (sv_readFile (ce_services (de_coord env)) path)) (\<lambda>bs.
     andThen (require (int (length bs) = a_size_bytes artifact) (conflict ''Artifact size no longer matches metadata'')) (\<lambda>_.
     andThen (require (de_sha256 env bs = a_sha256 artifact) (conflict ''Artifact hash no longer matches metadata'')) (\<lambda>_.
     on_response (\<lambda>r.
       let r = setCommonHeaders env requestId origin r;
           r = setHeader ''Content-Type'' (artifactContentType path (a_metadata artifact)) r;
           r = setHeader ''Content-Length'' (show_nat (length bs)) r;
           r = setHeader ''ETag'' ([CHR 0x22] @ a_sha256 artifact @ [CHR 0x22]) r;
           r = setHeader ''Content-Disposition'' (''inline; filename='' @ [CHR 0x22]
             @ filter (\<lambda>c. c \<noteq> CHR 0x22) (basename path) @ [CHR 0x22]) r in
       finish 200 (BytesBody bs) r)))))))))))"

subsection \<open>The event stream\<close>

definition openEventStream ::
  "'w daemon_env \<Rightarrow> http_request \<Rightarrow> (string \<times> string) list \<Rightarrow> string \<Rightarrow> string option \<Rightarrow> ('w, unit) dop" where
  "openEventStream env request params requestId origin =
     andThen (lift_res (map_sum ThrewHttp id (parseEventCursor (map_of params ''after'')))) (\<lambda>queryCursor.
     andThen (lift_res (map_sum ThrewHttp id (parseEventCursor (headerValue (rq_lastEventId request))))) (\<lambda>headerCursor.
     andThen (case truthy (map_of params ''taskId'') of None \<Rightarrow> ok None
       | Some i \<Rightarrow> andThen (zod env ''taskId'' (JStr i) (TaskIdSchema i)) (\<lambda>v. ok (Some v))) (\<lambda>taskId.
     on_response (\<lambda>r.
       let r = setCommonHeaders env requestId origin r;
           r = setHeader ''Content-Type'' ''text/event-stream; charset=utf-8'' r;
           r = setHeader ''Connection'' ''keep-alive'' r;
           r = setHeader ''X-Accel-Buffering'' ''no'' r in
       finish 200 (StreamBody (max queryCursor headerCursor) taskId) r))))"

subsection \<open>Routes\<close>

definition not_found :: thrown where
  "not_found = ThrewHttp (HttpError 404 NotFoundCode ''API route not found'')"

definition task_routes :: "'w daemon_env \<Rightarrow> http_request \<Rightarrow> string \<Rightarrow> string option \<Rightarrow> string \<Rightarrow> string \<Rightarrow> string list \<Rightarrow> ('w, unit) dop" where
  "task_routes env request requestId origin http_method taskId subpath =
     (if http_method = ''GET'' \<and> subpath = [] then andThen (get_task env taskId) (answer env requestId origin)
      else if http_method = ''POST'' \<and> subpath = [''retry'']
      then mutation env request requestId origin (de_maxJsonBytes env) (post_retry env taskId)
      else if http_method = ''POST'' \<and> subpath = [''cancel'']
      then mutation env request requestId origin (de_maxJsonBytes env) (\<lambda>_. post_cancel_task env taskId)
      else if http_method = ''POST'' \<and> length subpath = 3 \<and> subpath ! 0 = ''runs'' \<and> subpath ! 2 = ''screenshots''
      then
        andThen (zod env ''runId'' (JStr (subpath ! 1)) (EntityIdSchema (subpath ! 1))) (\<lambda>runId.
        mutation env request requestId origin SCREENSHOT_MAX_JSON_BYTES (post_screenshot env taskId runId))
      else fail not_found)"

definition run_routes :: "'w daemon_env \<Rightarrow> http_request \<Rightarrow> string \<Rightarrow> string option \<Rightarrow> string \<Rightarrow> string \<Rightarrow> string list \<Rightarrow> ('w, unit) dop" where
  "run_routes env request requestId origin http_method runId subpath =
     (if http_method = ''POST'' \<and> subpath = [''messages'']
      then mutation env request requestId origin (de_maxJsonBytes env) (post_message env runId)
      else if http_method = ''POST'' \<and> subpath = [''cancel'']
      then mutation env request requestId origin (de_maxJsonBytes env) (\<lambda>_. post_cancel_run env runId)
      else fail not_found)"

definition routes :: "'w daemon_env \<Rightarrow> http_request \<Rightarrow> string \<Rightarrow> string option \<Rightarrow> string \<Rightarrow> (string \<times> string) list \<Rightarrow> string list \<Rightarrow> ('w, unit) dop" where
  "routes env request requestId origin http_method params rest =
     (if http_method = ''GET'' \<and> rest = [''health''] then andThen (get_health env) (answer env requestId origin)
      else if http_method = ''GET'' \<and> rest = [''agents''] then andThen (get_agents env) (answer env requestId origin)
      else if http_method = ''GET'' \<and> rest = [''control-center''] then andThen (get_control_center env) (answer env requestId origin)
      else if http_method = ''GET'' \<and> rest = [''tasks''] then andThen (get_tasks env (map_of params ''status'')) (answer env requestId origin)
      else if http_method = ''POST'' \<and> rest = [''tasks''] then mutation env request requestId origin (de_maxJsonBytes env) (post_task env)
      else if 2 \<le> length rest \<and> rest ! 0 = ''tasks''
      then andThen (zod env ''taskId'' (JStr (rest ! 1)) (TaskIdSchema (rest ! 1))) (\<lambda>taskId.
        task_routes env request requestId origin http_method taskId (drop 2 rest))
      else if 2 \<le> length rest \<and> rest ! 0 = ''runs''
      then andThen (zod env ''runId'' (JStr (rest ! 1)) (EntityIdSchema (rest ! 1))) (\<lambda>runId.
        run_routes env request requestId origin http_method runId (drop 2 rest))
      else if http_method = ''POST'' \<and> length rest = 3 \<and> rest ! 0 = ''reviews'' \<and> rest ! 2 = ''decision''
      then andThen (zod env ''reviewId'' (JStr (rest ! 1)) (EntityIdSchema (rest ! 1))) (\<lambda>reviewId.
        mutation env request requestId origin (de_maxJsonBytes env) (post_decision env reviewId))
      else if http_method = ''GET'' \<and> rest = [''reviews''] then andThen (get_reviews env (map_of params ''status'')) (answer env requestId origin)
      else if http_method = ''GET'' \<and> rest = [''runs'']
      then andThen (get_runs env (map_of params ''status'') (map_of params ''agent'')) (answer env requestId origin)
      else if http_method = ''GET'' \<and> length rest = 3 \<and> rest ! 0 = ''artifacts'' \<and> rest ! 2 = ''content''
      then andThen (zod env ''artifactId'' (JStr (rest ! 1)) (EntityIdSchema (rest ! 1))) (\<lambda>artifactId.
        sendArtifact env artifactId requestId origin)
      else if http_method = ''GET'' \<and> rest = [''events''] then openEventStream env request params requestId origin
      else fail not_found)"

definition routeRequest :: "'w daemon_env \<Rightarrow> http_request \<Rightarrow> string \<Rightarrow> string option \<Rightarrow> ('w, unit) dop" where
  "routeRequest env request requestId origin =
     andThen (orThrow (ThrewError ''Invalid URL'') (de_parse_url env (case rq_url request of None \<Rightarrow> ''/'' | Some u \<Rightarrow> u))) (\<lambda>(pathname, params).
     andThen (each (decodeSegment env) (filter (\<lambda>w. w \<noteq> []) (split_path pathname))) (\<lambda>segments.
     andThen (require (segments \<noteq> [] \<and> hd segments = ''v1'') not_found) (\<lambda>_.
     routes env request requestId origin (case rq_method request of None \<Rightarrow> ''GET'' | Some m \<Rightarrow> m) params (tl segments))))"

subsection \<open>The server's callback\<close>

definition bearer_candidate :: "string \<Rightarrow> string option" where
  "bearer_candidate authorization =
     (let candidate = drop 7 authorization in
      if map ascii_lower (take 7 authorization) = ''bearer '' \<and> candidate \<noteq> []
         \<and> list_all (\<lambda>c. alnum c \<or> c = CHR ''_'' \<or> c = CHR ''-'') candidate then Some candidate else None)"

definition secureTokenEquals :: "(string \<Rightarrow> string) \<Rightarrow> string \<Rightarrow> string \<Rightarrow> bool" where
  "secureTokenEquals sha256 expected candidate \<longleftrightarrow> sha256 expected = sha256 candidate"

definition bearerTokenMatches :: "(string \<Rightarrow> string) \<Rightarrow> string \<Rightarrow> string option \<Rightarrow> bool" where
  "bearerTokenMatches sha256 expectedToken authorization =
     (let candidate = Option.bind authorization bearer_candidate;
          equal = secureTokenEquals sha256 expectedToken (case candidate of None \<Rightarrow> [] | Some c \<Rightarrow> c) in
      candidate \<noteq> None \<and> equal)"

definition host_allowed :: "'w daemon_env \<Rightarrow> http_request \<Rightarrow> bool" where
  "host_allowed env request \<longleftrightarrow> (case truthy (map_option (map ascii_lower) (headerValue (rq_host request))) of
     None \<Rightarrow> False | Some h \<Rightarrow> h \<in> set (de_allowedHosts env))"

definition guarded :: "'w daemon_env \<Rightarrow> http_request \<Rightarrow> string \<Rightarrow> ('w, unit) dop" where
  "guarded env request requestId =
     (let origin = headerValue (rq_origin request) in
      andThen (require (host_allowed env request) (ThrewHttp (HttpError 403 Forbidden ''Host header is not allowed''))) (\<lambda>_.
      andThen (require (case truthy origin of None \<Rightarrow> True | Some site \<Rightarrow> site \<in> set (de_allowedOrigins env))
        (ThrewHttp (HttpError 403 Forbidden ''Origin is not allowed''))) (\<lambda>_.
      if rq_method request = Some ''OPTIONS'' then
        andThen (require (truthy origin \<noteq> None) (ThrewHttp (HttpError 403 Forbidden ''CORS preflight requires Origin''))) (\<lambda>_.
        on_response (\<lambda>r.
          finish 204 NoBody (setHeader ''Access-Control-Allow-Headers'' ''Authorization, Content-Type, Idempotency-Key, Last-Event-ID''
            (setHeader ''Access-Control-Allow-Methods'' ''GET, POST, OPTIONS'' (setCommonHeaders env requestId origin r)))))
      else if \<not> bearerTokenMatches (de_sha256 env) (de_token env) (headerValue (rq_authorization request)) then
        andThen (on_response (setHeader ''WWW-Authenticate'' (''Bearer realm='' @ [CHR 0x22] @ ''Agent Control Center'' @ [CHR 0x22]))) (\<lambda>_.
        throwHttp 401 Unauthorized ''A valid bearer token is required'')
      else routeRequest env request requestId origin)))"

text \<open>\<open>(async () => { ... })().catch(...)\<close>: the callback never throws.\<close>

definition handleRequest :: "'w daemon_env \<Rightarrow> http_request \<Rightarrow> string \<Rightarrow> 'w daemon \<Rightarrow> 'w daemon" where
  "handleRequest env request requestId s =
     (case guarded env request requestId s of
        (Inr _, t) \<Rightarrow> t
      | (Inl thrown, t) \<Rightarrow>
          (let normalized = normalizeError thrown in
           snd (sendJson env (he_status normalized) (errorBody normalized) requestId False (truthy (headerValue (rq_origin request))) t)))"

end
