(* ===== verification/DaemonKeys.thy ===== *)
theory DaemonKeys
  imports DaemonRoutes
begin

text \<open>
  Idempotency keys under the daemon: no request, whatever its route and outcome, frees a key that is in use, as long
  as the processes that act in between do not.
\<close>

subsection \<open>Relations on the table of keys\<close>

text \<open>
  The coordinator's operations and the handlers of the routes never write the table of idempotency keys. So a
  relation of databases that is reflexive, transitive and holds wherever the table is the same is kept by all of
  them, as soon as the processes that act in between keep it. There are two such relations: no key is freed
  (\<open>keys_kept\<close>), and no key changes (\<open>keys_same\<close>).
\<close>

definition coord_rel :: "(db \<Rightarrow> db \<Rightarrow> bool) \<Rightarrow> 'w coord \<Rightarrow> 'w coord \<Rightarrow> bool" where
  "coord_rel K s t \<longleftrightarrow> K (co_db s) (co_db t)"

definition daemon_rel :: "(db \<Rightarrow> db \<Rightarrow> bool) \<Rightarrow> 'w daemon \<Rightarrow> 'w daemon \<Rightarrow> bool" where
  "daemon_rel K s t \<longleftrightarrow> coord_rel K (dm_coord s) (dm_coord t)"

definition respected :: "(db \<Rightarrow> db \<Rightarrow> bool) \<Rightarrow> 'w coord_env \<Rightarrow> bool" where
  "respected K env \<longleftrightarrow> (\<forall>n s. coord_rel K s (ce_other env n s)) \<and> (\<forall>n d. K d (ce_otherDb env n d))"

locale key_relation =
  fixes K :: "db \<Rightarrow> db \<Rightarrow> bool"
  assumes K_refl: "K d d"
    and K_trans: "K d e \<Longrightarrow> K e f \<Longrightarrow> K d f"
    and K_untouched: "idempotency_keys d' = idempotency_keys d \<Longrightarrow> K d d'"
begin

lemma keys_evolution: "evolution K"
  by unfold_locales (rule K_refl, rule K_trans)

lemma ckeys_evolution: "evolution (coord_rel K)"
  by unfold_locales (auto simp: coord_rel_def intro: K_refl K_trans)

lemma dkeys_evolution: "evolution (daemon_rel K)"
  by unfold_locales (auto simp: daemon_rel_def coord_rel_def intro: K_refl K_trans)

lemmas keys_keeps_rules = evolution.keeps_rules [OF keys_evolution]
lemmas keys_keeps_attempt = evolution.keeps_attempt [OF keys_evolution]
lemmas ckeys_keeps_control = evolution.keeps_control [OF ckeys_evolution]
lemmas ckeys_keeps_basic = evolution.keeps_basic [OF ckeys_evolution]
lemmas ckeys_refl = evolution.refl [OF ckeys_evolution]
lemmas dkeys_keeps_control = evolution.keeps_control [OF dkeys_evolution]
lemmas dkeys_refl = evolution.refl [OF dkeys_evolution]
lemmas dkeys_trans = evolution.trans [OF dkeys_evolution]

lemma keys_untouched: "(\<And>d. idempotency_keys (snd (m d)) = idempotency_keys d) \<Longrightarrow> keeps K m"
  by (simp add: keeps_def K_untouched)

lemma keys_statements:
  "keeps K (sql_all get P)" "keeps K (sql_get get' P')"
  "keeps K (sql_update tasks tasks_update P1 f1)" "keeps K (sql_update route_steps route_steps_update P2 f2)"
  "keeps K (sql_update messages messages_update P3 f3)" "keeps K (sql_update reviews reviews_update P4 f4)"
  "keeps K (insert_task a)" "keeps K (insert_step b)" "keeps K (insert_message e)"
  "keeps K (insert_artifact_once g)"
  "keeps K (insert_event task run ty level msg data ts)"
  by (rule keys_untouched,
      simp add: eff_simps insert_defs insert_event_def insert_artifact_once_def Let_def)+

lemmas keys_rules = keys_keeps_rules keys_keeps_attempt keys_statements

lemma keys_reads: "keeps K (getTask i)" "keeps K (listTasks st)"
  by (rule keys_untouched, simp add: getTask_snd listTasks_snd)+

lemma keys_createTask: "keeps K (createTask uid ts input plan)"
  unfolding createTask_def Let_def by (intro keys_rules keys_reads)

lemma keys_appendEvent: "(\<And>d. K d (other d)) \<Longrightarrow> keeps K (appendEvent other ts i r ty l m d)"
  unfolding appendEvent_def by (intro keys_rules)

lemma keys_messages: "keeps K (addMessage uid ts i r d role body ds)" "keeps K (updateMessageDelivery m ds')"
  unfolding addMessage_def updateMessageDelivery_def Let_def by (intro keys_rules)+

lemma keys_addArtifact: "(\<And>d. K d (other d)) \<Longrightarrow> keeps K (addArtifact other uid input)"
  unfolding addArtifact_def by (intro keys_rules)

lemma keys_review_parts:
  "keeps K (select_review i ex)" "keeps K (decide_pending i v ex rst n ts)"
  "keeps K (move_task i frm to u ts)" "keeps K (reset_steps i which ts)"
  unfolding select_review_def decide_pending_def move_task_def reset_steps_def by (intro keys_rules)+

lemma keys_reviews:
  "keeps K (approveTaskReview ts i n ex)" "keeps K (requestTaskRework uid ts i n' ex)"
  "keeps K (retryBlockedTask uid ts i n allow)"
  unfolding approveTaskReview_def requestTaskRework_def retryBlockedTask_def Let_def
  by (intro keys_rules keys_review_parts)+

text \<open>The coordinator.\<close>

lemma ckeys_same: "(\<And>s. co_db (snd (m s)) = co_db s) \<Longrightarrow> keeps (coord_rel K) m"
  by (simp add: keeps_def coord_rel_def K_refl)

lemma ckeys_await: "respected K env \<Longrightarrow> keeps (coord_rel K) m \<Longrightarrow> keeps (coord_rel K) (await env m)"
proof -
  assume r: "respected K env" and m: "keeps (coord_rel K) m"
  have "keeps (coord_rel K) (pause env)"
    using r by (auto simp: keeps_def pause_def update_def respected_def coord_rel_def)
  with m show ?thesis unfolding await_def by (intro ckeys_keeps_control)
qed

lemma ckeys_call_db:
  assumes "respected K env"
    and "\<And>other other' uid ts. (\<And>d. K d (other d)) \<Longrightarrow> (\<And>d. K d (other' d)) \<Longrightarrow>
      keeps K (f other other' uid ts)"
  shows "keeps (coord_rel K) (call_db env f)"
proof -
  have "keeps K (f (ce_otherDb env n) (ce_otherDb env m) uid ts)" for n m uid ts
    using assms(1) by (intro assms(2)) (simp_all add: respected_def)
  then have "keeps (coord_rel K) (db_call_op env f)"
    by (auto simp: keeps_def db_call_op_def coord_rel_def split: prod.splits) (metis snd_conv)
  then show ?thesis unfolding call_db_def by (intro ckeys_await assms(1))
qed

lemma ckeys_call_world: "respected K env \<Longrightarrow> keeps (coord_rel K) (call_world env m)"
  unfolding call_world_def by (intro ckeys_await ckeys_same) (auto simp: world_op_def split: prod.splits)

lemma ckeys_publish: "respected K env \<Longrightarrow> keeps (coord_rel K) (publish env t r ty l m d)"
  unfolding publish_def by (intro ckeys_keeps_control ckeys_call_db ckeys_call_world keys_appendEvent)

lemma ckeys_fail_if: "keeps (coord_rel K) (fail_if b m)"
  by (simp add: fail_if_def ckeys_keeps_basic)

lemma ckeys_run_each: "(\<And>x. keeps (coord_rel K) (f x)) \<Longrightarrow> keeps (coord_rel K) (run_each f xs)"
  by (induction xs) (auto intro!: ckeys_keeps_control)

lemma ckeys_promise_all: "(\<And>x. keeps (coord_rel K) (f x)) \<Longrightarrow> keeps (coord_rel K) (promise_all f xs)"
  unfolding promise_all_def by (intro ckeys_keeps_control ckeys_run_each)

lemmas ckeys_rules = ckeys_keeps_control ckeys_call_db ckeys_call_world ckeys_publish ckeys_fail_if ckeys_promise_all
  keys_rules keys_reads keys_createTask keys_messages keys_addArtifact keys_reviews

lemma ckeys_reviews:
  assumes "respected K env"
  shows "keeps (coord_rel K) (approveReview env r u a)" "keeps (coord_rel K) (requestReviewRework env r u n)"
    "keeps (coord_rel K) (coord_retryBlockedTask env i reason allow)" "keeps (coord_rel K) (coord_createTask env ids v)"
  unfolding approveReview_def requestReviewRework_def find_review_def coord_retryBlockedTask_def coord_createTask_def Let_def
  using assms by (intro ckeys_rules; assumption)+

lemma ckeys_await_world:
  "respected K env \<Longrightarrow> keeps (coord_rel K) (await env (world_op err m))"
  by (intro ckeys_await ckeys_same) (auto simp: world_op_def split: prod.splits)

lemma ckeys_find_run: "respected K env \<Longrightarrow> keeps (coord_rel K) (find_run env i)"
  unfolding find_run_def by (intro ckeys_rules; assumption?)

lemma ckeys_control:
  assumes "respected K env"
  shows "keeps (coord_rel K) (postMessageToRun env i b)" "keeps (coord_rel K) (stopRun env i)" "keeps (coord_rel K) (attachScreenshot env sh)"
proof -
  note rules = ckeys_rules ckeys_await_world ckeys_find_run
  have "keeps (coord_rel K) (with_adapter env agent f)" if "\<And>a. keeps (coord_rel K) (f a)" for agent and f :: "'a adapter \<Rightarrow> ('a, unit) op"
    unfolding with_adapter_def using that by (intro ckeys_keeps_control)
  note adapter = this
  have "keeps (coord_rel K) (set_delivery env m st)" for m st
    unfolding set_delivery_def using assms by (intro rules; assumption)
  note delivery = this
  have "keeps (coord_rel K) (deliver env m agent a body)" for m agent a body
    unfolding deliver_def using assms by (intro rules adapter delivery; assumption)
  note deliver = this
  show "keeps (coord_rel K) (postMessageToRun env i b)"
    unfolding postMessageToRun_def throwControlPhase_def add_user_message_def using assms by (intro rules deliver; assumption)
  have "keeps (coord_rel K) (update (co_stopRequested_update f))" for f :: "string list \<Rightarrow> string list"
    by (rule ckeys_same) (simp add: update_def)
  note stop = this
  show "keeps (coord_rel K) (stopRun env i)"
    unfolding stopRun_def using assms by (intro rules adapter stop; assumption)
  show "keeps (coord_rel K) (attachScreenshot env sh)"
    unfolding attachScreenshot_def assertScreenshotBytes_def add_artifact_def using assms by (intro rules; simp)
qed

lemma ckeys_stopTask: "respected K env \<Longrightarrow> keeps (coord_rel K) (stopTask env i)"
  unfolding stopTask_def by (intro ckeys_rules ckeys_control; assumption)

text \<open>The routes.\<close>

lemma dkeys_coord: "keeps (coord_rel K) m \<Longrightarrow> keeps (daemon_rel K) (on_coord env m)"
  by (auto simp: keeps_def on_coord_def daemon_rel_def split: prod.splits) (metis snd_conv)

lemma dkeys_same: "(\<And>s. dm_coord (snd (m s)) = dm_coord s) \<Longrightarrow> keeps (daemon_rel K) m"
  by (simp add: keeps_def daemon_rel_def ckeys_refl)

lemma dkeys_response: "keeps (daemon_rel K) (on_response f)" "keeps (daemon_rel K) (sendJson env st b i r or')"
  "keeps (daemon_rel K) wakeWorker" "keeps (daemon_rel K) (draw_operation env)" "keeps (daemon_rel K) (zod env sch v p)"
  "keeps (daemon_rel K) (throwHttp st c msg)"
  by (rule dkeys_same, simp add: on_response_def sendJson_def wakeWorker_def draw_operation_def zod_def throwHttp_def eff_simps split: option.split)+

lemma dkeys_each: "(\<And>x. keeps (daemon_rel K) (f x)) \<Longrightarrow> keeps (daemon_rel K) (each f xs)"
  by (induction xs) (auto intro!: dkeys_keeps_control)

lemma keys_db_reads:
  "keeps K (\<lambda>s. (g s, s))"
  by (rule keys_untouched) simp

lemma dkeys_db:
  assumes "respected K (de_coord env)"
    and "\<And>other other' uid ts. (\<And>d. K d (other d)) \<Longrightarrow> (\<And>d. K d (other' d)) \<Longrightarrow>
      keeps K (f other other' uid ts)"
  shows "keeps (daemon_rel K) (on_db env f)"
  unfolding on_db_def by (intro dkeys_coord ckeys_call_db assms)

lemma dkeys_world: "respected K (de_coord env) \<Longrightarrow> keeps (daemon_rel K) (on_world env m)"
  unfolding on_world_def by (intro dkeys_coord ckeys_call_world)

lemmas dkeys_rules = dkeys_keeps_control dkeys_response dkeys_each dkeys_db dkeys_world keys_rules keys_reads keys_db_reads

lemma dkeys_reads:
  assumes "respected K (de_coord env)"
  shows "keeps (daemon_rel K) (get_health env)" "keeps (daemon_rel K) (get_agents env)" "keeps (daemon_rel K) (get_control_center env)"
    "keeps (daemon_rel K) (get_tasks env st)" "keeps (daemon_rel K) (get_task env i)" "keeps (daemon_rel K) (get_reviews env st)"
    "keeps (daemon_rel K) (get_runs env st' ag)" "keeps (daemon_rel K) (task_detail env i)"
    "keeps (daemon_rel K) (answer env r or' v)" "keeps (daemon_rel K) (sendArtifact env a r or')"
    "keeps (daemon_rel K) (openEventStream env req ps r or')"
  unfolding get_health_def get_agents_def get_control_center_def get_tasks_def get_task_def get_reviews_def get_runs_def
    task_detail_def answer_def sendArtifact_def openEventStream_def loadAggregates_def enum_param_def Let_def
  using assms by (intro dkeys_rules; simp)+

lemma dkeys_mutations:
  assumes "respected K (de_coord env)"
  shows "keeps (daemon_rel K) (post_task env v)" "keeps (daemon_rel K) (post_retry env i v)" "keeps (daemon_rel K) (post_cancel_task env i)"
    "keeps (daemon_rel K) (post_screenshot env i j v)" "keeps (daemon_rel K) (post_message env i v)" "keeps (daemon_rel K) (post_cancel_run env i)"
    "keeps (daemon_rel K) (post_decision env i v)"
  unfolding post_task_def post_retry_def post_cancel_task_def post_screenshot_def post_message_def post_cancel_run_def post_decision_def
  using assms by (intro dkeys_rules dkeys_coord dkeys_reads(8) ckeys_reviews ckeys_control ckeys_stopTask; simp)+

end

subsection \<open>Requests\<close>

text \<open>
  A sequence of requests, each with its own response, in any order and with anything between them that keeps \<open>K\<close>.
\<close>

inductive served :: "(db \<Rightarrow> db \<Rightarrow> bool) \<Rightarrow> 'w daemon_env \<Rightarrow> 'w daemon \<Rightarrow> 'w daemon \<Rightarrow> bool"
  for K :: "db \<Rightarrow> db \<Rightarrow> bool" and env :: "'w daemon_env" where
  served_none: "served K env s s"
| served_request: "served K env s t \<Longrightarrow> served K env s (handleRequest env req requestId (t\<lparr>dm_response := new_response\<rparr>))"
| served_between: "served K env s t \<Longrightarrow> daemon_rel K t u \<Longrightarrow> served K env s u"

text \<open>A relation that the operations on keys keep too is kept by whole requests, and so by any sequence of them.\<close>

locale key_service = key_relation K for K :: "db \<Rightarrow> db \<Rightarrow> bool" +
  assumes K_claim: "(\<And>n d. K d (other n d)) \<Longrightarrow> keeps K (claimIdempotencyKey other ts key h)"
    and K_complete: "(\<And>d. K d (other' d)) \<Longrightarrow> keeps K (completeIdempotencyKey other' ts' key h c b)"
begin

lemma dkeys_complete:
  fixes env :: "'w daemon_env"
  assumes "respected K (de_coord env)" and "keeps (daemon_rel K) h"
  shows "keeps (daemon_rel K) (complete_mutation env key hash r or' h)"
proof -
  have "keeps (daemon_rel K) (on_db env (\<lambda>other _ _ ts. completeIdempotencyKey other ts key hash st b))" for st b
    by (rule dkeys_db [OF assms(1)]) (auto intro: K_complete)
  note stored = this
  show ?thesis unfolding complete_mutation_def Let_def by (intro dkeys_keeps_control dkeys_response assms(2) stored)
qed

lemma dkeys_mutation:
  assumes "respected K (de_coord env)" and "\<And>v. keeps (daemon_rel K) (h v)"
  shows "keeps (daemon_rel K) (mutation env req r or' n h)"
proof -
  have claim: "keeps (daemon_rel K) (on_db env (claim_key k hash))" for k hash
    by (rule dkeys_db [OF assms(1)]) (auto simp: claim_key_def intro: K_claim)
  have "keeps (daemon_rel K) (runIdempotentMutation env req r raw or' (h v))" for raw v
    unfolding runIdempotentMutation_def Let_def
    by (intro dkeys_rules claim; simp split: idempotency_claim.split)
      (intro conjI allI impI dkeys_rules dkeys_complete assms)
  then show ?thesis
    unfolding mutation_def readBody_def Let_def using assms(1) by (intro dkeys_rules; simp)
qed

lemma dkeys_guarded:
  assumes "respected K (de_coord env)"
  shows "keeps (daemon_rel K) (guarded env req r)"
proof -
  note m = dkeys_mutation [OF assms dkeys_mutations(1) [OF assms]] dkeys_mutation [OF assms dkeys_mutations(2) [OF assms]]
    dkeys_mutation [OF assms dkeys_mutations(3) [OF assms]] dkeys_mutation [OF assms dkeys_mutations(4) [OF assms]]
    dkeys_mutation [OF assms dkeys_mutations(5) [OF assms]] dkeys_mutation [OF assms dkeys_mutations(6) [OF assms]]
    dkeys_mutation [OF assms dkeys_mutations(7) [OF assms]]
  have tasks: "keeps (daemon_rel K) (task_routes env req r or' hm i sub)" for or' hm i sub
    unfolding task_routes_def by (intro dkeys_rules dkeys_reads m assms)
  have runs: "keeps (daemon_rel K) (run_routes env req r or' hm i sub)" for or' hm i sub
    unfolding run_routes_def by (intro dkeys_rules dkeys_reads m assms)
  have "keeps (daemon_rel K) (routes env req r or' hm ps rest)" for or' hm ps rest
    unfolding routes_def by (intro dkeys_rules dkeys_reads m tasks runs assms)
  then have "keeps (daemon_rel K) (routeRequest env req r or')" for or'
    unfolding routeRequest_def decodeSegment_def by (intro dkeys_rules; simp)
  then show ?thesis unfolding guarded_def Let_def by (intro dkeys_rules; simp)
qed

lemma dkeys_handleRequest:
  assumes "respected K (de_coord env)"
  shows "(daemon_rel K) s (handleRequest env req r s)"
proof -
  obtain res t where g: "guarded env req r s = (res, t)" by (cases "guarded env req r s")
  have "(daemon_rel K) s t" using keepsD [OF dkeys_guarded [OF assms] g] .
  moreover have "(daemon_rel K) t (snd (sendJson env st b r False or' t))" for st b or'
    using dkeys_response(2) [of env st b r False or'] by (simp add: keeps_def)
  ultimately show ?thesis by (auto simp: handleRequest_def g Let_def split: sum.split intro: dkeys_trans)
qed

lemma served_keys: "served K env s t \<Longrightarrow> respected K (de_coord env) \<Longrightarrow> (daemon_rel K) s t"
proof (induction rule: served.induct)
  case served_none
  show ?case by (rule dkeys_refl)
next
  case (served_request s t req requestId)
  have "(daemon_rel K) t (t\<lparr>dm_response := new_response\<rparr>)" by (simp add: daemon_rel_def ckeys_refl)
  with served_request dkeys_handleRequest [of env "t\<lparr>dm_response := new_response\<rparr>"] show ?case by (meson dkeys_trans)
next
  case (served_between s t u)
  then show ?case by (meson dkeys_trans)
qed

end

subsection \<open>Keys in use\<close>

definition used_keys :: "db \<Rightarrow> string set" where
  "used_keys d = k_key ` set (idempotency_keys d)"

definition keys_kept :: "db \<Rightarrow> db \<Rightarrow> bool" where
  "keys_kept d d' \<longleftrightarrow> used_keys d \<subseteq> used_keys d'"

lemma used_keys_state: "key \<in> used_keys d \<longleftrightarrow> key_state_of d key \<noteq> Free"
proof (cases "find (\<lambda>r. k_key r = key) (idempotency_keys d)")
  case None
  then show ?thesis using find_key_None [of k_key key "idempotency_keys d"] by (simp add: key_state_of_def used_keys_def)
next
  case (Some r)
  then have "key \<in> used_keys d" by (auto simp: used_keys_def dest: find_key_Some)
  with Some show ?thesis by (auto simp: key_state_of_def split: idem_state.splits option.splits)
qed

definition keys_same :: "db \<Rightarrow> db \<Rightarrow> bool" where
  "keys_same d d' \<longleftrightarrow> idempotency_keys d' = idempotency_keys d"

lemma kept_relation: "key_relation keys_kept"
  by unfold_locales (auto simp: keys_kept_def used_keys_def)

interpretation same: key_relation keys_same
  by unfold_locales (auto simp: keys_same_def)

abbreviation coord_keys :: "'w coord \<Rightarrow> 'w coord \<Rightarrow> bool" where
  "coord_keys \<equiv> coord_rel keys_kept"

abbreviation daemon_keys :: "'w daemon \<Rightarrow> 'w daemon \<Rightarrow> bool" where
  "daemon_keys \<equiv> daemon_rel keys_kept"

abbreviation keys_respected :: "'w coord_env \<Rightarrow> bool" where
  "keys_respected \<equiv> respected keys_kept"

lemmas kept_rules = key_relation.keys_rules [OF kept_relation]

lemma keys_update_idem: "(\<And>r. k_key (f r) = k_key r) \<Longrightarrow> keeps keys_kept (sql_update idempotency_keys idempotency_keys_update P f)"
  by (simp add: keeps_def keys_kept_def used_keys_def sql_update_def key_image_update_rows)

lemma keys_insert_idem: "keeps keys_kept (insert_idem_once r)"
  by (auto simp: keeps_def keys_kept_def used_keys_def insert_idem_once_def)

lemma keys_claim: "(\<And>n d. keys_kept d (other n d)) \<Longrightarrow> keeps keys_kept (claimIdempotencyKey other ts key h)"
proof -
  assume o: "\<And>n d. keys_kept d (other n d)"
  have "keeps keys_kept (read_claim key' h' row)" for key' h' row
    unfolding read_claim_def by (auto intro!: kept_rules split: idem_state.splits option.splits)
  then have "keeps keys_kept (claim_attempts n other ts key' h')" for n key' h'
    by (induction n) (auto intro!: kept_rules keys_insert_idem o)
  then show ?thesis unfolding claimIdempotencyKey_def by (intro kept_rules)
qed

lemma keys_complete: "(\<And>d. keys_kept d (other d)) \<Longrightarrow> keeps keys_kept (completeIdempotencyKey other ts key h c b)"
  unfolding completeIdempotencyKey_def Let_def by (intro kept_rules keys_update_idem) simp_all

interpretation kept: key_service keys_kept
  by (intro key_service.intro kept_relation key_service_axioms.intro keys_claim keys_complete)

text \<open>A claim that returns leaves the key in use, whoever used it.\<close>

lemma claim_uses:
  assumes "\<And>n d. keys_kept d (other n d)"
    and "claim_attempts n other ts key h d = (Inr a, d')"
  shows "key \<in> used_keys d'"
  using assms(2)
proof (induction n arbitrary: d)
  case 0
  then show ?case by (simp add: fail_def)
next
  case (Suc n)
  show ?case
  proof (cases "key \<in> k_key ` set (idempotency_keys d)")
    case False
    with Suc.prems show ?thesis
      by (auto simp: andThen_def insert_idem_once_def pending_row_def ok_def used_keys_def)
  next
    case True
    let ?d = "other n d"
    have used: "key \<in> used_keys ?d" using True assms(1) [where d = d and n = n] by (auto simp: keys_kept_def used_keys_def)
    then obtain row where row: "find (\<lambda>r. k_key r = key) (idempotency_keys ?d) = Some row"
      by (cases "find (\<lambda>r. k_key r = key) (idempotency_keys ?d)") (auto simp: used_keys_def find_None_iff)
    have "snd (read_claim key h row ?d) = ?d"
      by (simp add: read_claim_def ok_def fail_def split: idem_state.split option.split)
    moreover have "claim_attempts (Suc n) other ts key h d = read_claim key h row ?d"
      using True row by (simp add: andThen_def insert_idem_once_def pending_row_def update_def sql_get_def)
    ultimately have "d' = ?d" using Suc.prems by (metis snd_conv)
    with used show ?thesis by simp
  qed
qed


subsection \<open>A key runs its handler at most once\<close>

lemma claim_call:
  assumes "keys_respected env" and "call_db env (claim_key key hash) c = (r, c')"
  shows "coord_keys c c'" and "r = Inr a \<Longrightarrow> \<exists>k. normalizeIdempotencyValue key ''Idempotency key'' = Inr k \<and> k \<in> used_keys (co_db c')"
proof -
  have "keeps coord_keys (call_db env (claim_key key hash))"
    by (rule kept.ckeys_call_db [OF assms(1)]) (auto simp: claim_key_def intro: keys_claim)
  from keepsD [OF this assms(2)] show "coord_keys c c'" .
  assume r: "r = Inr a"
  define c1 where "c1 = snd (pause env c)"
  obtain r2 c2 where c2: "db_call_op env (claim_key key hash) c1 = (r2, c2)" by (cases "db_call_op env (claim_key key hash) c1")
  have c': "r = r2" "c' = snd (pause env c2)"
    using assms(2) c2 by (simp_all add: call_db_def await_def with_cleanup_def attempt_def andThen_def pause_def update_def lift_res_def c1_def)
  from c2 r c' obtain a' where claim: "claimIdempotencyKey (\<lambda>n. if n = 0 then ce_otherDb env (Suc (co_tick c1)) else ce_otherDb env (co_tick c1))
      (\<lambda>_. ce_now env (co_tick c1)) key hash (co_db c1) = (Inr a', co_db c2)"
    by (auto simp: db_call_op_def claim_key_def split: prod.splits sum.splits) (metis old.sum.exhaust map_sum.simps sum.distinct(1))
  then obtain k h where k: "normalizeIdempotencyValue key ''Idempotency key'' = Inr k"
    and att: "claim_attempts 2 (\<lambda>n. if n = 0 then ce_otherDb env (Suc (co_tick c1)) else ce_otherDb env (co_tick c1))
      (\<lambda>_. ce_now env (co_tick c1)) k h (co_db c1) = (Inr a', co_db c2)"
    by (auto simp: claimIdempotencyKey_def andThen_def lift_res_def split: sum.splits)
  have "k \<in> used_keys (co_db c2)"
    by (rule claim_uses [OF _ att]) (use assms(1) in \<open>simp add: respected_def\<close>)
  moreover have "coord_keys c2 c'"
    using assms(1) by (simp add: c' pause_def update_def respected_def coord_rel_def)
  ultimately show "\<exists>k. normalizeIdempotencyValue key ''Idempotency key'' = Inr k \<and> k \<in> used_keys (co_db c')"
    using k by (auto simp: coord_rel_def keys_kept_def)
qed

lemma claim_used_not_new:
  assumes "\<And>n d. keys_kept d (other n d)" and "key \<in> used_keys d"
  shows "fst (claim_attempts n other ts key h d) \<noteq> Inr (ClaimNew at)"
  using assms(2)
proof (induction n arbitrary: d)
  case (Suc n)
  let ?d = "other n d"
  have used: "key \<in> used_keys ?d" using Suc.prems assms(1) [of d n] by (auto simp: keys_kept_def)
  then obtain row where row: "find (\<lambda>r. k_key r = key) (idempotency_keys ?d) = Some row"
    by (cases "find (\<lambda>r. k_key r = key) (idempotency_keys ?d)") (auto simp: used_keys_def find_None_iff)
  have "claim_attempts (Suc n) other ts key h d = read_claim key h row ?d"
    using Suc.prems row by (simp add: andThen_def insert_idem_once_def pending_row_def update_def sql_get_def used_keys_def)
  then show ?case by (simp add: read_claim_def ok_def fail_def split: idem_state.split option.split)
qed (simp add: fail_def)

lemma call_db_fst: "fst (call_db env f c) = fst (db_call_op env f (snd (pause env c)))"
  by (cases "db_call_op env f (snd (pause env c))")
    (simp add: call_db_def await_def with_cleanup_def attempt_def andThen_def pause_def update_def lift_res_def split: sum.split)

lemma claim_call_used:
  assumes "keys_respected env" and "normalizeIdempotencyValue key ''Idempotency key'' = Inr k" and "k \<in> used_keys (co_db c)"
  shows "fst (call_db env (claim_key key hash) c) \<noteq> Inr (ClaimNew at)"
proof -
  define c1 where "c1 = snd (pause env c)"
  have "k \<in> used_keys (co_db c1)"
    using assms(1,3) by (auto simp: c1_def pause_def update_def respected_def coord_rel_def keys_kept_def)
  then have "fst (claim_attempts 2 (\<lambda>n. if n = 0 then ce_otherDb env (Suc (co_tick c1)) else ce_otherDb env (co_tick c1))
      (\<lambda>_. ce_now env (co_tick c1)) k h (co_db c1)) \<noteq> Inr (ClaimNew at)" for h
    by (intro claim_used_not_new) (use assms(1) in \<open>simp add: respected_def\<close>)
  then have "fst (claimIdempotencyKey (\<lambda>n. if n = 0 then ce_otherDb env (Suc (co_tick c1)) else ce_otherDb env (co_tick c1))
      (\<lambda>_. ce_now env (co_tick c1)) key hash (co_db c1)) \<noteq> Inr (ClaimNew at)"
    using assms(2) by (simp add: claimIdempotencyKey_def andThen_def lift_res_def split: sum.split)
  then have "fst (db_call_op env (claim_key key hash) c1) \<noteq> Inr (ClaimNew at)"
    by (cases "claimIdempotencyKey (\<lambda>n. if n = 0 then ce_otherDb env (Suc (co_tick c1)) else ce_otherDb env (co_tick c1))
      (\<lambda>_. ce_now env (co_tick c1)) key hash (co_db c1)"; cases "fst (claimIdempotencyKey (\<lambda>n. if n = 0 then ce_otherDb env (Suc (co_tick c1)) else ce_otherDb env (co_tick c1))
      (\<lambda>_. ce_now env (co_tick c1)) key hash (co_db c1))") (auto simp: db_call_op_def claim_key_def)
  then show ?thesis by (simp add: call_db_fst c1_def)
qed

definition key_of :: "http_request \<Rightarrow> string option" where
  "key_of req = Option.bind (truthy (headerValue (rq_idempotencyKey req))) IdempotencyKeySchema"

lemma key_normal: "key_of req = Some key \<Longrightarrow> normalizeIdempotencyValue key ''Idempotency key'' = Inr key"
proof -
  assume "key_of req = Some key"
  then obtain c cs where key: "key = c # cs" "length key \<le> 200" "alnum c" "list_all (\<lambda>d. id_char d \<or> d = CHR '':'') cs"
    by (auto simp: key_of_def IdempotencyKeySchema_def bind_eq_Some_conv split: if_splits list.splits)
  have "\<not> js_space d" if "alnum d \<or> id_char d \<or> d = CHR '':''" for d
    using that by (auto simp: js_space_def alnum_def id_char_def Let_def)
  with key(3,4) have "\<forall>d \<in> set key. \<not> js_space d" unfolding key(1) by (auto simp: list_all_iff)
  then have "trim key = key" by (rule trim_no_space)
  with key(1,2) show ?thesis by (simp add: normalizeIdempotencyValue_def)
qed

text \<open>\<open>unconsulted m s\<close>: what the mutation does from \<open>s\<close> is the same for every handler, so it runs none.\<close>

definition unconsulted :: "(('w, int \<times> json) dop \<Rightarrow> ('w, unit) dop) \<Rightarrow> 'w daemon \<Rightarrow> bool" where
  "unconsulted m s \<longleftrightarrow> (\<forall>h h'. m h s = m h' s)"

lemma mutation_run:
  assumes "key_of req = Some key"
  shows "runIdempotentMutation env req r raw or' h = andThen (on_db env (claim_key key (requestFingerprint env req raw))) (\<lambda>claim. case claim of
       ClaimConflict \<Rightarrow> throwHttp 409 IdempotencyConflict ''Idempotency-Key was already used for a different request''
     | ClaimPending _ _ \<Rightarrow> fail (ThrewHttp ((HttpError 409 IdempotencyPending
         ''The original request is still pending or requires reconciliation'')\<lparr>he_retryable := True\<rparr>))
     | ClaimReplay status body _ \<Rightarrow> sendJson env status (case body of JObj kvs \<Rightarrow> kvs | _ \<Rightarrow> []) r True (truthy or')
     | ClaimNew _ \<Rightarrow>
         complete_mutation env key (requestFingerprint env req raw) r or' h)"
proof -
  from assms have v: "truthy (headerValue (rq_idempotencyKey req)) = Some key" "IdempotencyKeySchema key = Some key"
    by (auto simp: key_of_def bind_eq_Some_conv IdempotencyKeySchema_def split: if_splits)
  have 1: "andThen (orThrow e (Some x)) f = f x" for e x f by (intro ext) (simp add: andThen_def orThrow_def)
  show ?thesis unfolding runIdempotentMutation_def v zod_def Let_def 1 ..
qed

lemma claim_not_new_unconsulted:
  assumes "key_of req = Some key" and "\<And>at. fst (on_db env (claim_key key (requestFingerprint env req raw)) s) \<noteq> Inr (ClaimNew at)"
  shows "unconsulted (runIdempotentMutation env req r raw or') s"
proof -
  obtain res t where "on_db env (claim_key key (requestFingerprint env req raw)) s = (res, t)"
    by (cases "on_db env (claim_key key (requestFingerprint env req raw)) s")
  with assms(2) show ?thesis
    unfolding unconsulted_def mutation_run [OF assms(1)] by (auto simp: andThen_def split: sum.split idempotency_claim.split)
qed

lemma on_db_fst: "fst (on_db env f s) = map_sum (coord_thrown (de_coord env) (de_issues env ''stored value'' JNull)) id (fst (call_db (de_coord env) f (dm_coord s)))"
  "dm_coord (snd (on_db env f s)) = snd (call_db (de_coord env) f (dm_coord s))"
  by (simp_all add: on_db_def on_coord_def split: prod.split)

lemma used_unconsulted:
  assumes "keys_respected (de_coord env)" and "key_of req = Some key" and "key \<in> used_keys (co_db (dm_coord s))"
  shows "unconsulted (runIdempotentMutation env req r raw or') s"
proof (rule claim_not_new_unconsulted [OF assms(2)])
  fix at
  show "fst (on_db env (claim_key key (requestFingerprint env req raw)) s) \<noteq> Inr (ClaimNew at)"
    using claim_call_used [OF assms(1) key_normal [OF assms(2)] assms(3)]
    by (cases "fst (call_db (de_coord env) (claim_key key (requestFingerprint env req raw)) (dm_coord s))") (auto simp: on_db_fst)
qed

text \<open>
  C33 An idempotency key runs its handler at most once. A mutation that is served under a key either ran no handler
  (it was refused, answered as pending or replayed), or no mutation that is served under the key afterwards runs its
  handler, whatever requests are served between them and whatever else happens, short of a key being released.
\<close>
theorem key_runs_handler_once:
  assumes "keys_respected (de_coord env)" and "\<And>s. daemon_keys s (snd (h s))"
    and "key_of req = Some key" and "key_of req' = Some key"
    and "served keys_kept env (snd (runIdempotentMutation env req r raw or' h s)) u"
  shows "unconsulted (runIdempotentMutation env req r raw or') s \<or> unconsulted (runIdempotentMutation env req' r' raw' or'') u"
proof (cases "\<exists>at. fst (on_db env (claim_key key (requestFingerprint env req raw)) s) = Inr (ClaimNew at)")
  case False
  with claim_not_new_unconsulted [OF assms(3)] show ?thesis by blast
next
  case True
  then obtain at t where t: "on_db env (claim_key key (requestFingerprint env req raw)) s = (Inr (ClaimNew at), t)"
    by (metis prod.collapse)
  obtain res c where c: "call_db (de_coord env) (claim_key key (requestFingerprint env req raw)) (dm_coord s) = (res, c)"
    by (cases "call_db (de_coord env) (claim_key key (requestFingerprint env req raw)) (dm_coord s)")
  have "dm_coord t = c" "\<exists>a. res = Inr a" using t c on_db_fst [of env "claim_key key (requestFingerprint env req raw)" s]
    by (cases res; simp)+
  with claim_call(2) [OF assms(1) c] key_normal [OF assms(3)] have used: "key \<in> used_keys (co_db (dm_coord t))" by auto
  let ?rest = "complete_mutation env key (requestFingerprint env req raw) r or' h"
  have run: "runIdempotentMutation env req r raw or' h s = ?rest t"
    unfolding mutation_run [OF assms(3)] by (simp add: andThen_def t)
  have "keeps daemon_keys h" using assms(2) by (simp add: keeps_def)
  from kept.dkeys_complete [OF assms(1) this] have "daemon_keys t (snd (?rest t))" by (simp add: keeps_def)
  with kept.served_keys [OF assms(5,1)] have "daemon_keys t u" by (simp add: run kept.dkeys_trans)
  with used have "key \<in> used_keys (co_db (dm_coord u))" by (auto simp: daemon_rel_def coord_rel_def keys_kept_def)
  from used_unconsulted [OF assms(1,4) this] show ?thesis by blast
qed

end
