(* ===== verification/DaemonFacts.thy ===== *)
theory DaemonFacts
  imports DaemonKeys CoordControlFacts
begin

text \<open>
  What the daemon promises its clients: a mutation is answered by its stored outcome and repeated requests get that
  same answer, a request that is not admitted changes nothing, every request is answered, and an artifact is only
  served if it is the recorded evidence.
\<close>

subsection \<open>Calls without interference\<close>

lemma alone_call_db:
  assumes "quiet env"
  shows "\<exists>uid ts n. call_db env f c =
    (map_sum DbFailed id (fst (f id id uid ts (co_db c))), c\<lparr>co_db := snd (f id id uid ts (co_db c)), co_tick := n\<rparr>)"
proof -
  have o: "ce_otherDb env n = id" "ce_other env n s = s" for n s using assms by (auto simp: quiet_def)
  obtain r d where f: "f id id (ce_uuid env (Suc (co_tick c))) (ce_now env (Suc (co_tick c))) (co_db c) = (r, d)"
    by (cases "f id id (ce_uuid env (Suc (co_tick c))) (ce_now env (Suc (co_tick c))) (co_db c)")
  have "call_db env f c = (map_sum DbFailed id r, c\<lparr>co_db := d, co_tick := Suc (Suc (Suc (Suc (co_tick c))))\<rparr>)"
    by (simp add: call_db_def await_def with_cleanup_def attempt_def andThen_def pause_def update_def lift_res_def db_call_op_def o f)
  with f show ?thesis by (metis fst_conv snd_conv)
qed

lemma alone_on_db:
  assumes "quiet (de_coord env)"
  shows "\<exists>uid ts n. on_db env f s =
    (map_sum (coord_thrown (de_coord env) (de_issues env ''stored value'' JNull) \<circ> DbFailed) id (fst (f id id uid ts (co_db (dm_coord s)))),
     s\<lparr>dm_coord := (dm_coord s)\<lparr>co_db := snd (f id id uid ts (co_db (dm_coord s))), co_tick := n\<rparr>\<rparr>)"
proof -
  from alone_call_db [OF assms, of f "dm_coord s"] obtain uid ts n where
    "call_db (de_coord env) f (dm_coord s) = (map_sum DbFailed id (fst (f id id uid ts (co_db (dm_coord s)))),
       (dm_coord s)\<lparr>co_db := snd (f id id uid ts (co_db (dm_coord s))), co_tick := n\<rparr>)" by blast
  then have "on_db env f s = (map_sum (coord_thrown (de_coord env) (de_issues env ''stored value'' JNull) \<circ> DbFailed) id (fst (f id id uid ts (co_db (dm_coord s)))),
     s\<lparr>dm_coord := (dm_coord s)\<lparr>co_db := snd (f id id uid ts (co_db (dm_coord s))), co_tick := n\<rparr>\<rparr>)"
    by (cases "fst (f id id uid ts (co_db (dm_coord s)))") (simp_all add: on_db_def on_coord_def)
  then show ?thesis by blast
qed

subsection \<open>Claiming and completing\<close>

lemma claim_run:
  assumes "db_wf d" and "normalizeIdempotencyValue key ''Idempotency key'' = Inr k"
    and "normalizeIdempotencyValue hash ''Request hash'' = Inr h"
  shows "\<exists>a. fst (claim_key key hash id id uid ts d) = Inr a \<and> claim_answers h (key_state_of d k) a"
    and "db_wf (snd (claim_key key hash id id uid ts d))"
    and "key_state_of d k \<noteq> Free \<Longrightarrow> snd (claim_key key hash id id uid ts d) = d"
    and "key_state_of (snd (claim_key key hash id id uid ts d)) k = claim_spec h (key_state_of d k)"
proof -
  have id: "(\<lambda>n. if n = 0 then id else id) = (\<lambda>_ :: nat. id)" by simp
  have "claim_key key hash id id uid ts d = claim_attempts (Suc 1) (\<lambda>_. id) (\<lambda>_. ts) k h d"
    using assms(2,3) unfolding claim_key_def id by (simp add: claimIdempotencyKey_def andThen_def lift_res_def numeral_2_eq_2)
  with claim_attempt_run [OF assms(1), of 1 "\<lambda>_. ts" k h] obtain a t where
    "claim_key key hash id id uid ts d = (Inr a, t)" "claim_answers h (key_state_of d k) a"
    "key_state_of d k \<noteq> Free \<longrightarrow> t = d"
    "\<forall>k'. key_state_of t k' = (if k' = k then claim_spec h (key_state_of d k') else key_state_of d k')" by auto
  then show "\<exists>a. fst (claim_key key hash id id uid ts d) = Inr a \<and> claim_answers h (key_state_of d k) a"
    "key_state_of d k \<noteq> Free \<Longrightarrow> snd (claim_key key hash id id uid ts d) = d"
    "key_state_of (snd (claim_key key hash id id uid ts d)) k = claim_spec h (key_state_of d k)" by auto
  have "preserves db_wf (claim_key key hash id id uid ts)"
    unfolding claim_key_def id by (intro preserves_rules) simp
  with assms(1) show "db_wf (snd (claim_key key hash id id uid ts d))" by (simp add: preserves_def)
qed

text \<open>Completion acts on the table of keys only.\<close>

lemma complete_frame:
  assumes "idempotency_keys d' = idempotency_keys d"
  shows "fst (completeIdempotencyKey id ts key hash c b d') = fst (completeIdempotencyKey id ts key hash c b d)"
    and "idempotency_keys (snd (completeIdempotencyKey id ts key hash c b d')) = idempotency_keys (snd (completeIdempotencyKey id ts key hash c b d))"
  using assms
  by (auto simp: completeIdempotencyKey_def eff_simps Let_def normalizeIdempotencyValue_def split: option.splits)

lemma key_state_frame: "idempotency_keys d' = idempotency_keys d \<Longrightarrow> key_state_of d' k = key_state_of d k"
  by (simp add: key_state_of_def)

subsection \<open>A completed key\<close>

text \<open>The outcome of a completed key: no request changes it, and a claim of the key is answered by it.\<close>

definition outcomes_kept :: "db \<Rightarrow> db \<Rightarrow> bool" where
  "outcomes_kept d d' \<longleftrightarrow> (\<forall>k h c b. key_state_of d k = Completed h c b \<longrightarrow> key_state_of d' k = Completed h c b)"

lemma outcomes_relation: "key_relation outcomes_kept"
  by unfold_locales (auto simp: outcomes_kept_def key_state_of_def)

lemmas outcomes_rules = key_relation.keys_rules [OF outcomes_relation]

lemma outcomes_insert: "keeps outcomes_kept (insert_idem_once r)"
  by (auto simp: keeps_def outcomes_kept_def insert_idem_once_def key_state_of_def find_snoc split: option.splits)

lemma outcomes_update:
  assumes "\<And>r. k_key (f r) = k_key r" and "\<And>r. P r \<Longrightarrow> k_state r = IPending"
  shows "keeps outcomes_kept (sql_update idempotency_keys idempotency_keys_update P f)"
proof -
  have "row_state (map_option (\<lambda>r. if P r then f r else r) found) = row_state found"
    if "row_state found = Completed h c b" for found h c b
    using that assms(2) by (cases found) (auto split: idem_state.splits option.splits)
  then show ?thesis
    using assms(1) by (auto simp: keeps_def outcomes_kept_def sql_update_def key_state_of_def find_update_rows)
qed

lemma outcomes_claim: "(\<And>n d. outcomes_kept d (other n d)) \<Longrightarrow> keeps outcomes_kept (claimIdempotencyKey other ts key h)"
proof -
  assume o: "\<And>n d. outcomes_kept d (other n d)"
  have "keeps outcomes_kept (read_claim key' h' row)" for key' h' row
    unfolding read_claim_def by (auto intro!: outcomes_rules split: idem_state.splits option.splits)
  then have "keeps outcomes_kept (claim_attempts n other ts key' h')" for n key' h'
    by (induction n) (auto intro!: outcomes_rules outcomes_insert o)
  then show ?thesis unfolding claimIdempotencyKey_def by (intro outcomes_rules)
qed

lemma outcomes_complete: "(\<And>d. outcomes_kept d (other d)) \<Longrightarrow> keeps outcomes_kept (completeIdempotencyKey other ts key h c b)"
  unfolding completeIdempotencyKey_def Let_def by (intro outcomes_rules outcomes_update) simp_all

interpretation outcomes: key_service outcomes_kept
  by (intro key_service.intro outcomes_relation key_service_axioms.intro outcomes_claim outcomes_complete)

lemma completed_row:
  assumes "key_state_of d k = Completed h c b"
  shows "\<exists>r. find (\<lambda>q. k_key q = k) (idempotency_keys d) = Some r \<and> k_request_hash r = h \<and> k_state r = ICompleted
    \<and> k_response_status r = Some c \<and> k_response_body r = Some b \<and> k \<in> k_key ` set (idempotency_keys d)"
proof (cases "find (\<lambda>q. k_key q = k) (idempotency_keys d)")
  case None
  with assms show ?thesis by (simp add: key_state_of_def)
next
  case (Some r)
  then have "k \<in> k_key ` set (idempotency_keys d)" by (auto dest: find_key_Some)
  with Some assms show ?thesis by (auto simp: key_state_of_def split: option.splits idem_state.splits)
qed

lemma completed_claim:
  assumes "\<And>n d. outcomes_kept d (other n d)" and "key_state_of d k = Completed h c b"
  shows "\<exists>u. claim_attempts (Suc n) other ts k h d = (Inr (ClaimReplay c b u), other n d)"
proof -
  from assms have "key_state_of (other n d) k = Completed h c b" by (auto simp: outcomes_kept_def)
  from completed_row [OF this] completed_row [OF assms(2)] show ?thesis
    by (auto simp: andThen_def insert_idem_once_def pending_row_def update_def sql_get_def read_claim_def ok_def)
qed

lemma claim_key_attempts:
  assumes "normalizeIdempotencyValue key ''Idempotency key'' = Inr k" and "normalizeIdempotencyValue hash ''Request hash'' = Inr h"
  shows "claim_key key hash other other' uid ts = claim_attempts 2 (\<lambda>n. if n = 0 then other' else other) (\<lambda>_. ts) k h"
  using assms by (intro ext) (simp add: claim_key_def claimIdempotencyKey_def andThen_def lift_res_def)

lemma completed_call:
  assumes "respected outcomes_kept env" and "normalizeIdempotencyValue key ''Idempotency key'' = Inr k"
    and "normalizeIdempotencyValue hash ''Request hash'' = Inr h" and "key_state_of (co_db s) k = Completed h c b"
  shows "\<exists>u. fst (call_db env (claim_key key hash) s) = Inr (ClaimReplay c b u)"
proof -
  define s1 where "s1 = snd (pause env s)"
  have "key_state_of (co_db s1) k = Completed h c b"
    using assms(1,4) by (simp add: s1_def pause_def update_def respected_def coord_rel_def outcomes_kept_def)
  note completed = this
  define others where "others = (\<lambda>n :: nat. if n = 0 then ce_otherDb env (Suc (co_tick s1)) else ce_otherDb env (co_tick s1))"
  have "\<And>n d. outcomes_kept d (others n d)" using assms(1) by (simp add: respected_def others_def)
  from completed_claim [of others, OF this completed] obtain u where
    u: "claim_attempts (Suc 1) others (\<lambda>_. ce_now env (co_tick s1)) k h (co_db s1) = (Inr (ClaimReplay c b u), others 1 (co_db s1))" by blast
  have "claim_key key hash (ce_otherDb env (co_tick s1)) (ce_otherDb env (Suc (co_tick s1))) (ce_uuid env (co_tick s1)) (ce_now env (co_tick s1)) (co_db s1)
      = (Inr (ClaimReplay c b u), others 1 (co_db s1))"
    using u unfolding claim_key_attempts [OF assms(2,3)] others_def Suc_1 .
  then show ?thesis unfolding call_db_fst s1_def [symmetric] by (auto simp: db_call_op_def split: prod.splits)
qed

definition answered :: "http_response \<Rightarrow> int \<Rightarrow> (string \<times> json) list \<Rightarrow> string \<Rightarrow> bool" where
  "answered r status stored requestId \<longleftrightarrow>
     re_sent r \<and> re_status r = status \<and> re_body r = JsonBody (map_set ''requestId'' (JStr requestId) stored)"

lemma sendJson_run:
  "sendJson env status body r replayed or' s = (Inr (), s\<lparr>dm_response := dm_response (snd (sendJson env status body r replayed or' s))\<rparr>)"
  by (simp add: sendJson_def on_response_def update_def)

lemma sendJson_answered:
  "\<not> re_sent (dm_response s) \<Longrightarrow> \<not> re_destroyed (dm_response s) \<Longrightarrow>
    answered (dm_response (snd (sendJson env status body r replayed or' s))) status body r"
  by (simp add: sendJson_def on_response_def update_def answered_def finish_def Let_def)

lemma completed_replay:
  fixes env :: "'w daemon_env" and u :: "'w daemon"
  assumes "respected outcomes_kept (de_coord env)" and "key_of req = Some key"
    and "normalizeIdempotencyValue (requestFingerprint env req raw) ''Request hash'' = Inr (requestFingerprint env req raw)"
    and "key_state_of (co_db (dm_coord u)) key = Completed (requestFingerprint env req raw) status (JObj stored)"
    and "dm_response u = new_response"
  shows "\<exists>v. runIdempotentMutation env req r raw or' h u = (Inr (), v) \<and> answered (dm_response v) status stored r"
proof -
  let ?claim = "on_db env (claim_key key (requestFingerprint env req raw)) u"
  from completed_call [OF assms(1) key_normal [OF assms(2)] assms(3,4)] obtain at where
    "fst ?claim = Inr (ClaimReplay status (JObj stored) at)" by (auto simp: on_db_fst)
  then obtain w where w: "?claim = (Inr (ClaimReplay status (JObj stored) at), w)" by (cases ?claim) auto
  have "dm_response w = new_response"
    using w assms(5) by (auto simp: on_db_def on_coord_def split: prod.splits)
  then have "answered (dm_response (snd (sendJson env status stored r True (truthy or') w))) status stored r"
    by (intro sendJson_answered) (simp_all add: new_response_def)
  moreover have "runIdempotentMutation env req r raw or' h u = sendJson env status stored r True (truthy or') w"
    unfolding mutation_run [OF assms(2)] by (simp add: andThen_def w)
  ultimately show ?thesis by (metis sendJson_run snd_conv)
qed

lemma claim_free:
  fixes env :: "'w daemon_env"
  assumes "quiet (de_coord env)" and "db_wf (co_db (dm_coord s))" and "key_of req = Some key"
    and "normalizeIdempotencyValue hash ''Request hash'' = Inr hash" and "key_state_of (co_db (dm_coord s)) key = Free"
  shows "\<exists>at s1. on_db env (claim_key key hash) s = (Inr (ClaimNew at), s1) \<and> dm_response s1 = dm_response s
    \<and> db_wf (co_db (dm_coord s1)) \<and> key_state_of (co_db (dm_coord s1)) key = Claimed hash"
proof -
  obtain uid ts n where run: "on_db env (claim_key key hash) s =
    (map_sum (coord_thrown (de_coord env) (de_issues env ''stored value'' JNull) \<circ> DbFailed) id (fst (claim_key key hash id id uid ts (co_db (dm_coord s)))),
     s\<lparr>dm_coord := (dm_coord s)\<lparr>co_db := snd (claim_key key hash id id uid ts (co_db (dm_coord s))), co_tick := n\<rparr>\<rparr>)"
    using alone_on_db [OF assms(1), of "claim_key key hash" s] by blast
  note claim = claim_run [OF assms(2) key_normal [OF assms(3)] assms(4), of uid ts]
  from claim(1) obtain at where "fst (claim_key key hash id id uid ts (co_db (dm_coord s))) = Inr (ClaimNew at)"
    by (auto simp: assms(5))
  with claim(2,4) show ?thesis by (simp add: run assms(5))
qed

lemma complete_claimed:
  fixes env :: "'w daemon_env"
  assumes "quiet (de_coord env)" and "db_wf d" and "key_of req = Some key"
    and "normalizeIdempotencyValue hash ''Request hash'' = Inr hash" and "key_state_of d key = Claimed hash"
    and "100 \<le> status" and "status \<le> 599" and "keys_same d (co_db (dm_coord s))"
  shows "\<exists>row t. on_db env (\<lambda>other _ _ ts. completeIdempotencyKey other ts key hash status (Some body)) s = (Inr row, t)
    \<and> dm_response t = dm_response s \<and> key_state_of (co_db (dm_coord t)) key = Completed hash status body"
proof -
  let ?f = "\<lambda>ts. completeIdempotencyKey id ts key hash status (Some body)"
  obtain ts n where run: "on_db env (\<lambda>other _ _ ts. completeIdempotencyKey other ts key hash status (Some body)) s =
    (map_sum (coord_thrown (de_coord env) (de_issues env ''stored value'' JNull) \<circ> DbFailed) id (fst (?f ts (co_db (dm_coord s)))),
     s\<lparr>dm_coord := (dm_coord s)\<lparr>co_db := snd (?f ts (co_db (dm_coord s))), co_tick := n\<rparr>\<rparr>)"
    using alone_on_db [OF assms(1), of "\<lambda>other _ _ ts. completeIdempotencyKey other ts key hash status (Some body)" s] by blast
  have same: "idempotency_keys (co_db (dm_coord s)) = idempotency_keys d" using assms(8) by (simp add: keys_same_def)
  obtain r t where t: "?f ts d = (r, t)" "\<exists>row. r = Inr row" "key_state_of t key = Completed hash status body"
    using complete_run [OF assms(2) key_normal [OF assms(3)] assms(4,6,7), of body "Some body" ts] assms(5)
    by (auto simp: complete_spec_def)
  have result: "fst (?f ts (co_db (dm_coord s))) = r" by (simp only: complete_frame(1) [OF same] t(1) fst_conv)
  have "idempotency_keys (snd (?f ts (co_db (dm_coord s)))) = idempotency_keys t"
    by (simp only: complete_frame(2) [OF same] t(1) snd_conv)
  from key_state_frame [OF this, of key] t(3)
  have "key_state_of (snd (?f ts (co_db (dm_coord s)))) key = Completed hash status body" by simp
  with t(2) show ?thesis unfolding run result by auto
qed

lemma quiet_outcomes: "quiet env \<Longrightarrow> respected outcomes_kept env"
  by (simp add: quiet_def respected_def coord_rel_def outcomes_kept_def)

lemma mutation_stored:
  fixes env :: "'w daemon_env"
  assumes "quiet (de_coord env)" and "db_wf (co_db (dm_coord s))" and "key_of req = Some key"
    and "hash = requestFingerprint env req raw" and "normalizeIdempotencyValue hash ''Request hash'' = Inr hash"
    and "key_state_of (co_db (dm_coord s)) key = Free" and "dm_response s = new_response"
    and "\<And>s. daemon_rel keys_same s (snd (h s))" and "\<And>s. dm_response (snd (h s)) = dm_response s"
    and "\<And>s. fst (stored_outcome (fst (h s))) \<in> {100..599}"
  shows "\<exists>s1 status stored t. key_state_of (co_db (dm_coord s1)) key = Claimed hash
    \<and> stored_outcome (fst (h s1)) = (status, stored) \<and> runIdempotentMutation env req r raw or' h s = (Inr (), t)
    \<and> answered (dm_response t) status stored r \<and> key_state_of (co_db (dm_coord t)) key = Completed hash status (JObj stored)"
proof -
  obtain at s1 where s1: "on_db env (claim_key key hash) s = (Inr (ClaimNew at), s1)" "dm_response s1 = new_response"
    "db_wf (co_db (dm_coord s1))" "key_state_of (co_db (dm_coord s1)) key = Claimed hash"
    using claim_free [OF assms(1,2,3,5,6)] assms(7) by auto
  obtain outcome s2 where s2: "h s1 = (outcome, s2)" by (cases "h s1")
  obtain status stored where st: "stored_outcome outcome = (status, stored)" by (cases "stored_outcome outcome")
  have keep: "keys_same (co_db (dm_coord s1)) (co_db (dm_coord s2))" "dm_response s2 = new_response" "100 \<le> status" "status \<le> 599"
    using assms(8,9,10) [of s1] s1(2) by (simp_all add: s2 st daemon_rel_def coord_rel_def)
  obtain row s3 where s3: "on_db env (\<lambda>other _ _ ts. completeIdempotencyKey other ts key hash status (Some (JObj stored))) s2 = (Inr row, s3)"
    "dm_response s3 = new_response" "key_state_of (co_db (dm_coord s3)) key = Completed hash status (JObj stored)"
    using complete_claimed [OF assms(1) s1(3) assms(3,5) s1(4) keep(3,4,1), of "JObj stored"] unfolding keep(2) by blast
  have "runIdempotentMutation env req r raw or' h s = sendJson env status stored r False (truthy or') s3"
    unfolding mutation_run [OF assms(3)] complete_mutation_def
    by (simp add: andThen_def attempt_def s1(1) s2 st s3(1) assms(4) [symmetric])
  moreover have "answered (dm_response (snd (sendJson env status stored r False (truthy or') s3))) status stored r"
    by (intro sendJson_answered) (simp_all add: s3(2) new_response_def)
  moreover have "dm_coord (snd (sendJson env status stored r False (truthy or') s3)) = dm_coord s3"
    by (subst sendJson_run) simp
  ultimately show ?thesis using s1(4) s2 st s3(3) sendJson_run by (metis fst_conv snd_conv)
qed

text \<open>
  C34 A mutation is answered by what is stored for its key, and so is every repetition. If the key was free, the
  handler runs from a state in which the key is claimed for this request, its outcome (a value or an error) is both
  answered and stored under the key, and after any further requests the same request with the same key is answered with
  that status and body, whatever its handler would do then.
\<close>
theorem mutation_answer_is_replayed:
  fixes env :: "'w daemon_env"
  assumes "quiet (de_coord env)" and "db_wf (co_db (dm_coord s))" and "key_of req = Some key"
    and "hash = requestFingerprint env req raw" and "normalizeIdempotencyValue hash ''Request hash'' = Inr hash"
    and "key_state_of (co_db (dm_coord s)) key = Free" and "dm_response s = new_response"
    and "\<And>s. daemon_rel keys_same s (snd (h s))" and "\<And>s. dm_response (snd (h s)) = dm_response s"
    and "\<And>s. fst (stored_outcome (fst (h s))) \<in> {100..599}"
  shows "\<exists>s1 status stored t. key_state_of (co_db (dm_coord s1)) key = Claimed hash
    \<and> stored_outcome (fst (h s1)) = (status, stored) \<and> runIdempotentMutation env req r raw or' h s = (Inr (), t)
    \<and> answered (dm_response t) status stored r
    \<and> (\<forall>u req' r' raw' or'' h'. served outcomes_kept env t u \<and> dm_response u = new_response \<and> key_of req' = Some key
        \<and> requestFingerprint env req' raw' = hash \<longrightarrow>
        (\<exists>v. runIdempotentMutation env req' r' raw' or'' h' u = (Inr (), v) \<and> answered (dm_response v) status stored r'))"
proof -
  from mutation_stored [where h = h, OF assms] obtain s1 status stored t where t: "key_state_of (co_db (dm_coord s1)) key = Claimed hash"
    "stored_outcome (fst (h s1)) = (status, stored)" "runIdempotentMutation env req r raw or' h s = (Inr (), t)"
    "answered (dm_response t) status stored r" "key_state_of (co_db (dm_coord t)) key = Completed hash status (JObj stored)" by blast
  note resp = quiet_outcomes [OF assms(1)]
  have "\<exists>v. runIdempotentMutation env req' r' raw' or'' h' u = (Inr (), v) \<and> answered (dm_response v) status stored r'"
    if u: "served outcomes_kept env t u" "dm_response u = new_response" "key_of req' = Some key"
      "requestFingerprint env req' raw' = hash" for u req' r' raw' or'' h'
  proof (rule completed_replay [OF resp u(3)])
    from outcomes.served_keys [OF u(1) resp] t(5)
    show "key_state_of (co_db (dm_coord u)) key = Completed (requestFingerprint env req' raw') status (JObj stored)"
      by (simp add: u(4) daemon_rel_def coord_rel_def outcomes_kept_def)
  qed (simp_all add: u assms(5))
  with t show ?thesis by blast
qed

end
