(* ===== verification/DaemonGuard.thy ===== *)
theory DaemonGuard
  imports DaemonFacts
begin

text \<open>
  The outside of the daemon's HTTP interface: every request is answered, what is not admitted reaches nothing, a body
  is bounded before it is read, and an artifact is served only from the storage root and as it was recorded.
\<close>

subsection \<open>Every request is answered\<close>

definition still_open :: "'w daemon \<Rightarrow> 'w daemon \<Rightarrow> bool" where
  "still_open s t \<longleftrightarrow> re_destroyed (dm_response t) = re_destroyed (dm_response s)"

interpretation open_response: evolution still_open
  by unfold_locales (auto simp: still_open_def)

lemma open_coord: "keeps still_open (on_coord env m)" "keeps still_open (on_db env f)" "keeps still_open (on_world env w)"
  by (auto simp: keeps_def still_open_def on_db_def on_world_def on_coord_def split: prod.splits)

lemma open_same: "(\<And>s. dm_response (snd (m s)) = dm_response s) \<Longrightarrow> keeps still_open m"
  by (simp add: keeps_def still_open_def)

lemma open_response_steps: "keeps still_open wakeWorker" "keeps still_open (draw_operation env)" "keeps still_open (zod env sch v p)"
  "keeps still_open (throwHttp st c msg)" "keeps still_open (decodeSegment env x)"
  by (rule open_same, simp add: wakeWorker_def draw_operation_def zod_def throwHttp_def decodeSegment_def eff_simps split: option.split)+

lemma open_each: "(\<And>x. keeps still_open (f x)) \<Longrightarrow> keeps still_open (each f xs)"
  by (induction xs) (auto intro!: open_response.keeps_rules)

lemma open_on_response: "(\<And>r. re_destroyed (f r) = re_destroyed r) \<Longrightarrow> keeps still_open (on_response f)"
  by (simp add: keeps_def still_open_def on_response_def update_def)

lemma common_headers_open: "re_destroyed (setHeader k v r) = re_destroyed r"
  "re_destroyed (setCommonHeaders env i or' r) = re_destroyed r" "re_destroyed (finish st b r) = re_destroyed r"
  by (simp_all add: setHeader_def setCommonHeaders_def finish_def Let_def split: option.split)

lemma open_sendJson: "keeps still_open (sendJson env st b i rep or')"
  unfolding sendJson_def by (rule open_on_response) (simp add: Let_def common_headers_open)

lemma open_attempt: "keeps still_open m \<Longrightarrow> keeps still_open (attempt m)"
  by (auto simp: keeps_def attempt_def split: prod.splits) (metis snd_conv)

lemmas open_rules = open_response.keeps_rules open_coord open_response_steps open_each open_sendJson open_attempt

text \<open>An operation that returns has sent the response.\<close>

definition sends :: "('w, unit) dop \<Rightarrow> bool" where
  "sends m \<longleftrightarrow> (\<forall>s t. \<not> re_destroyed (dm_response s) \<and> m s = (Inr (), t) \<longrightarrow> re_sent (dm_response t))"

lemma sends_andThen:
  assumes "keeps still_open m" and "\<And>x. sends (f x)"
  shows "sends (andThen m f)"
  unfolding sends_def
proof (intro allI impI; elim conjE)
  fix s t
  assume intact: "\<not> re_destroyed (dm_response s)" and run: "andThen m f s = (Inr (), t)"
  obtain r s' where m: "m s = (r, s')" by (cases "m s")
  from keepsD [OF assms(1) m] intact have "\<not> re_destroyed (dm_response s')" by (simp add: still_open_def)
  moreover from run m obtain x where "f x s' = (Inr (), t)" by (cases r) (auto simp: andThen_def)
  ultimately show "re_sent (dm_response t)" using assms(2) by (auto simp: sends_def)
qed

lemma sends_basic: "sends (fail e)" "sends (throwHttp st c msg)" "sends (sendJson env st' b i rep or')"
  "(\<And>r. re_sent (f r)) \<Longrightarrow> sends (on_response f)"
  by (auto simp: sends_def throwHttp_def eff_simps sendJson_def on_response_def finish_def Let_def)

lemma sends_split:
  "(b \<Longrightarrow> sends m) \<Longrightarrow> (\<not> b \<Longrightarrow> sends n) \<Longrightarrow> sends (if b then m else n)"
  "(\<And>a b. sends (g a b)) \<Longrightarrow> sends (case p of (a, b) \<Rightarrow> g a b)"
  by (auto split: prod.splits)

lemmas sends_rules = sends_andThen sends_basic sends_split

lemma open_reads: "keeps still_open (get_health env)" "keeps still_open (get_agents env)" "keeps still_open (get_control_center env)"
  "keeps still_open (get_tasks env st)" "keeps still_open (get_task env i)" "keeps still_open (get_reviews env st)"
  "keeps still_open (get_runs env st' ag)" "keeps still_open (task_detail env i)"
  unfolding get_health_def get_agents_def get_control_center_def get_tasks_def get_task_def get_reviews_def get_runs_def
    task_detail_def loadAggregates_def enum_param_def Let_def
  by (intro open_rules)+

lemma open_mutations: "keeps still_open (post_task env v)" "keeps still_open (post_retry env i v)" "keeps still_open (post_cancel_task env i)"
  "keeps still_open (post_screenshot env i j v)" "keeps still_open (post_message env i v)" "keeps still_open (post_cancel_run env i)"
  "keeps still_open (post_decision env i v)"
  unfolding post_task_def post_retry_def post_cancel_task_def post_screenshot_def post_message_def post_cancel_run_def post_decision_def
  by (intro open_rules open_reads)+

lemma sends_mutation:
  assumes "\<And>v. keeps still_open (h v)"
  shows "sends (mutation env req r or' n h)"
proof -
  have "sends (complete_mutation env key hash r or' (h v))" for key hash v
    unfolding complete_mutation_def Let_def by (intro sends_rules open_rules assms)
  then have "sends (runIdempotentMutation env req r raw or' (h v))" for raw v
    unfolding runIdempotentMutation_def Let_def
    by (intro sends_rules open_rules; simp add: sends_basic split: idempotency_claim.split)
  moreover have "keeps still_open (readBody env req n)" unfolding readBody_def Let_def by (intro open_rules)
  ultimately show ?thesis unfolding mutation_def by (intro sends_rules)
qed

lemma sends_answer: "sends (answer env r or' v)"
  unfolding answer_def by (rule sends_basic)

lemma finish_sent: "re_sent (finish st b r)"
  by (simp add: finish_def)

lemma sends_guarded: "sends (guarded env req r)"
proof -
  note m = sends_mutation [OF open_mutations(1)] sends_mutation [OF open_mutations(2)] sends_mutation [OF open_mutations(3)]
    sends_mutation [OF open_mutations(4)] sends_mutation [OF open_mutations(5)] sends_mutation [OF open_mutations(6)]
    sends_mutation [OF open_mutations(7)]
  have artifact: "sends (sendArtifact env i r or')" for i or'
    unfolding sendArtifact_def by (intro sends_rules open_rules) (simp add: Let_def finish_sent)
  have events: "sends (openEventStream env req ps r or')" for ps or'
    unfolding openEventStream_def by (intro sends_rules open_rules) (simp add: Let_def finish_sent)
  have tasks: "sends (task_routes env req r or' hm i sub)" for or' hm i sub
    unfolding task_routes_def by (intro sends_rules open_rules open_reads sends_answer m)
  have runs: "sends (run_routes env req r or' hm i sub)" for or' hm i sub
    unfolding run_routes_def by (intro sends_rules m)
  have "sends (routes env req r or' hm ps rest)" for or' hm ps rest
    unfolding routes_def by (intro sends_rules open_rules open_reads sends_answer m artifact events tasks runs)
  then have "sends (routeRequest env req r or')" for or'
    unfolding routeRequest_def by (intro sends_rules open_rules)
  then show ?thesis
    unfolding guarded_def Let_def
    by (intro sends_rules open_rules open_on_response finish_sent) (simp add: common_headers_open)
qed

lemma open_guarded: "keeps still_open (guarded env req r)"
proof -
  have m: "keeps still_open (mutation env req r or' n h)" if "\<And>v. keeps still_open (h v)" for or' n h
  proof -
    have "keeps still_open (complete_mutation env key hash r or' (h v))" for key hash v
      unfolding complete_mutation_def Let_def by (intro open_rules that)
    then have "keeps still_open (runIdempotentMutation env req r raw or' (h v))" for raw v
      unfolding runIdempotentMutation_def Let_def
      by (intro open_rules; simp add: open_rules open_response.keeps_basic open_response_steps split: idempotency_claim.split)
    then show ?thesis unfolding mutation_def readBody_def Let_def by (intro open_rules)
  qed
  have artifact: "keeps still_open (sendArtifact env i r or')" for i or'
    unfolding sendArtifact_def by (intro open_rules open_on_response) (simp add: Let_def common_headers_open)
  have events: "keeps still_open (openEventStream env req ps r or')" for ps or'
    unfolding openEventStream_def by (intro open_rules open_on_response) (simp add: Let_def common_headers_open)
  have answers: "keeps still_open (answer env r or' v)" for or' v
    unfolding answer_def by (rule open_sendJson)
  have tasks: "keeps still_open (task_routes env req r or' hm i sub)" for or' hm i sub
    unfolding task_routes_def by (intro open_rules open_reads answers m open_mutations)
  have runs: "keeps still_open (run_routes env req r or' hm i sub)" for or' hm i sub
    unfolding run_routes_def by (intro open_rules m open_mutations)
  have "keeps still_open (routes env req r or' hm ps rest)" for or' hm ps rest
    unfolding routes_def by (intro open_rules open_reads answers m open_mutations artifact events tasks runs)
  then have "keeps still_open (routeRequest env req r or')" for or'
    unfolding routeRequest_def by (intro open_rules)
  then show ?thesis
    unfolding guarded_def Let_def by (intro open_rules open_on_response) (simp_all add: common_headers_open)
qed

text \<open>
  C36 Every request is answered: whatever the request is and whatever its handling throws, the callback has sent a
  response when it is done, unless the connection was destroyed.
\<close>
theorem request_is_answered:
  fixes env :: "'w daemon_env"
  shows "re_sent (dm_response (handleRequest env req r (s\<lparr>dm_response := new_response\<rparr>)))"
proof -
  let ?s = "s\<lparr>dm_response := new_response\<rparr>"
  obtain res t where g: "guarded env req r ?s = (res, t)" by (cases "guarded env req r ?s")
  have new: "\<not> re_destroyed (dm_response ?s)" by (simp add: new_response_def)
  with keepsD [OF open_guarded g] have t: "\<not> re_destroyed (dm_response t)" by (simp add: still_open_def)
  show ?thesis
  proof (cases res)
    case (Inl thrown)
    have "re_sent (dm_response (snd (sendJson env st b r False or' t)))" for st b or'
      using t by (simp add: sendJson_def on_response_def update_def finish_sent Let_def)
    with Inl show ?thesis by (simp add: handleRequest_def g Let_def)
  next
    case (Inr u)
    with g have "guarded env req r ?s = (Inr (), t)" by simp
    with new sends_guarded [of env req r] have "re_sent (dm_response t)" unfolding sends_def by blast
    with Inr show ?thesis by (simp add: handleRequest_def g)
  qed
qed

subsection \<open>Requests that are not admitted\<close>

text \<open>A client that knows the token sends it in the \<open>Authorization\<close> header, on a host and from an origin that are allowed.\<close>

definition presents_token :: "'w daemon_env \<Rightarrow> http_request \<Rightarrow> bool" where
  "presents_token env req \<longleftrightarrow> (\<exists>scheme. headerValue (rq_authorization req) = Some (scheme @ de_token env)
     \<and> length scheme = 7 \<and> map ascii_lower scheme = ''bearer '')"

definition admitted :: "'w daemon_env \<Rightarrow> http_request \<Rightarrow> bool" where
  "admitted env req \<longleftrightarrow> presents_token env req \<and> host_allowed env req
     \<and> (case truthy (headerValue (rq_origin req)) of None \<Rightarrow> True | Some site \<Rightarrow> site \<in> set (de_allowedOrigins env))"

lemma bearer_matches_token:
  assumes "\<And>c. de_sha256 env c = de_sha256 env (de_token env) \<Longrightarrow> c = de_token env"
    and "bearerTokenMatches (de_sha256 env) (de_token env) (headerValue (rq_authorization req))"
  shows "presents_token env req"
proof -
  from assms(2) obtain a c where a: "headerValue (rq_authorization req) = Some a" "bearer_candidate a = Some c"
    and eq: "de_sha256 env (de_token env) = de_sha256 env c"
    by (auto simp: bearerTokenMatches_def secureTokenEquals_def Let_def bind_eq_Some_conv)
  from a(2) have "map ascii_lower (take 7 a) = ''bearer ''" "c = drop 7 a"
    by (auto simp: bearer_candidate_def Let_def split: if_splits)
  moreover from arg_cong [OF this(1), of length] have "length (take 7 a) = 7" by simp
  moreover have "a = take 7 a @ de_token env"
    using assms(1) [OF eq [symmetric]] \<open>c = drop 7 a\<close> append_take_drop_id [of 7 a] by simp
  ultimately show ?thesis unfolding presents_token_def using a(1) by metis
qed

lemma refused:
  assumes "guarded env req r s = (Inl (ThrewHttp e), s\<lparr>dm_response := re\<rparr>)" and "\<not> re_sent re" and "\<not> re_destroyed re"
  shows "\<exists>re'. handleRequest env req r s = s\<lparr>dm_response := re'\<rparr> \<and> re_sent re' \<and> re_status re' = he_status e"
  by (insert assms, simp add: handleRequest_def sendJson_def on_response_def update_def Let_def finish_def, intro exI conjI, rule refl) simp_all


subsection \<open>Bodies\<close>

lemma read_chunks_concat:
  "read_chunks n sofar chunks = (if n < sofar + length (concat chunks) \<and> chunks \<noteq> [] then None else Some (concat chunks))"
proof (induction chunks arbitrary: sofar)
  case (Cons chunk chunks)
  show ?case using Cons [of "sofar + length chunk"] by (auto simp: Let_def)
qed simp

text \<open>
  The body is bounded while it is read: reading the chunks one at a time gives exactly what reading the whole body
  and testing its length would give. A body above the bound, by its declared or its actual length, is refused with
  413 before the request's key is claimed or anything else is changed.
\<close>
theorem body_is_bounded:
  fixes env :: "'w daemon_env"
  shows "mutation env req r or' n handler s =
    (if (\<exists>k. declared_length (rq_contentLength req) = Some k \<and> int n < k) \<or> n < length (concat (rq_chunks req))
     then (Inl (ThrewHttp (HttpError 413 PayloadTooLarge (''Request exceeds '' @ show_nat n @ '' bytes''))), s)
     else
       (let raw = de_utf8 env (concat (rq_chunks req)) in
        if trim raw = [] then runIdempotentMutation env req r [] or' (handler (JObj [])) s
        else case de_json env raw of
          None \<Rightarrow> (Inl (ThrewHttp (HttpError 400 ValidationFailedCode ''Request body must be valid JSON'')), s)
        | Some v \<Rightarrow> runIdempotentMutation env req r raw or' (handler v) s))"
proof -
  have "read_chunks n 0 (rq_chunks req) = (if n < length (concat (rq_chunks req)) then None else Some (concat (rq_chunks req)))"
    by (auto simp: read_chunks_concat)
  then show ?thesis
    by (simp add: mutation_def readBody_def andThen_def require_def orThrow_def too_large_def ok_def Let_def split: option.split)
qed

subsection \<open>Artifacts\<close>

lemma require_Inr: "require b e s = (Inr u, t) \<longleftrightarrow> b \<and> t = s"
  by (auto simp: require_def)

lemma orThrow_Inr: "orThrow e v s = (Inr y, t) \<longleftrightarrow> v = Some y \<and> t = s"
  by (auto simp: orThrow_def split: option.splits)

lemma map_sum_Inr: "map_sum f g r = Inr y \<longleftrightarrow> (\<exists>x. r = Inr x \<and> y = g x)"
  by (cases r) auto

lemma world_Inr:
  "on_world env m s = (Inr y, t) \<Longrightarrow> \<exists>w w'. m w = (Inr y, w') \<and> dm_response t = dm_response s"
  by (auto simp: on_world_def on_coord_def call_world_def await_def with_cleanup_def attempt_def world_op_def pause_def
      andThen_def update_def lift_res_def map_sum_Inr split: prod.splits sum.splits)

text \<open>
  C37 What is served is the evidence. An artifact's answer 200 carries bytes that were read from a path below the storage
  root, with the size and the SHA-256 that the artifact's row records, and the ETag of that hash; without other processes
  in between the row is the one of the requested artifact.
\<close>
theorem served_artifact_is_recorded:
  fixes env :: "'w daemon_env"
  assumes "quiet (de_coord env)" and "sendArtifact env i r or' s = (Inr (), t)"
  shows "\<exists>a bs root path below w w'. getArtifact i (co_db (dm_coord s)) = Some a
    \<and> sv_readFile (ce_services (de_coord env)) path w = (Inr bs, w')
    \<and> below \<noteq> [] \<and> rev (normal_segments path) = rev (normal_segments root) @ below
    \<and> re_status (dm_response t) = 200 \<and> re_body (dm_response t) = BytesBody bs
    \<and> int (length bs) = a_size_bytes a \<and> de_sha256 env bs = a_sha256 a"
proof -
  obtain uid ts n where db: "on_db env (\<lambda>_ _ _ _. query (getArtifact i)) s =
      (Inr (getArtifact i (co_db (dm_coord s))), s\<lparr>dm_coord := (dm_coord s)\<lparr>co_tick := n\<rparr>\<rparr>)"
    using alone_on_db [OF assms(1), of "\<lambda>_ _ _ _. query (getArtifact i)" s] by (auto simp: query_def)
  from assms(2) obtain a root info path bs s1 s2 s3 s4 where
    a: "getArtifact i (co_db (dm_coord s)) = Some a" and "\<not> escapes (relative root path)"
    and bs: "on_world env (sv_readFile (ce_services (de_coord env)) path) s3 = (Inr bs, s4)"
    and ok: "int (length bs) = a_size_bytes a" "de_sha256 env bs = a_sha256 a"
    and t: "re_status (dm_response t) = 200" "re_body (dm_response t) = BytesBody bs"
    unfolding sendArtifact_def
    by (auto simp: andThen_Inr require_Inr orThrow_Inr db on_response_def update_def finish_def Let_def)
  from relative_below [OF this(2)] obtain below where "below \<noteq> []" "rev (normal_segments path) = rev (normal_segments root) @ below" by blast
  with world_Inr [OF bs] a ok t show ?thesis by blast
qed

end
