(* ===== verification/DaemonDemo.thy ===== *)
theory DaemonDemo
  imports DaemonGuard CoordDemo
begin

text \<open>
  A daemon on the deployment of \<open>CoordDemo\<close> and the witnesses of the theorems on its HTTP interface: its parser,
  hash and file system are concrete functions.
\<close>

definition demo_daemon_env :: "unit daemon_env" where
  "demo_daemon_env = \<lparr>de_coord = demo_env, de_token = ''secret'', de_allowedOrigins = [''http://localhost:5173''],
     de_allowedHosts = [''127.0.0.1:8787''], de_maxJsonBytes = 1000, de_instanceId = ''i'', de_startedAt = ''1'', de_pid = 9,
     de_recovery = JNull, de_artifactsDir = ''/a'', de_parse_url = (\<lambda>u. Some (u, [])), de_decode = Some, de_utf8 = id,
     de_json = (\<lambda>_. Some (JObj [])), de_datetime = (\<lambda>_. True), de_issues = (\<lambda>_ _. []), de_sha256 = (\<lambda>s. ''h'' @ s @ ''h''),
     de_stepIds = (\<lambda>_. ''s''), de_collate = id, de_agents = ok [], de_realpath = ok\<rparr>"

definition demo_request :: http_request where
  "demo_request = \<lparr>rq_method = Some ''POST'', rq_url = Some ''/v1/tasks/a/cancel'', rq_host = One ''127.0.0.1:8787'', rq_origin = Absent,
     rq_authorization = One ''Bearer secret'', rq_idempotencyKey = One ''k1'', rq_lastEventId = Absent, rq_contentLength = Absent,
     rq_chunks = [''{}'']\<rparr>"

definition demo_screenshot :: artifact_row where
  "demo_screenshot = \<lparr>a_id = ''art_1'', a_task_id = ''a'', a_run_id = None, a_kind = KScreenshot, a_path = ''/a/r/x.png'', a_relative_path = None,
     a_sha256 = ''hxh'', a_size_bytes = 1, a_metadata = None, a_created_at = ''1''\<rparr>"

definition demo_daemon :: "unit daemon" where
  "demo_daemon = \<lparr>dm_coord = \<lparr>co_db = sample_db, co_world = (), co_activeRuns = [],
     co_activeVerifications = [], co_runPhases = [], co_stopRequested = [], co_shutdown = False, co_tick = 0\<rparr>,
     dm_response = new_response, dm_wakes = 0, dm_worker = WorkerIdle, dm_stopping = False, dm_lastWorkerError = None\<rparr>"

lemma demo_quiet: "quiet (de_coord demo_daemon_env)"
  by (simp add: quiet_def demo_daemon_env_def demo_env_def)

lemma demo_key: "key_of demo_request = Some ''k1''"
  by (simp add: key_of_def demo_request_def truthy_def IdempotencyKeySchema_def alnum_def id_char_def)

lemma demo_hash:
  "normalizeIdempotencyValue (requestFingerprint demo_daemon_env demo_request ''{}'') ''Request hash''
    = Inr (requestFingerprint demo_daemon_env demo_request ''{}'')"
  by (simp add: demo_daemon_env_def demo_request_def requestFingerprint_def) code_simp

lemma demo_wf: "db_wf (co_db (dm_coord demo_daemon))" "key_state_of (co_db (dm_coord demo_daemon)) k = Free"
  by (simp add: demo_daemon_def sample_db_wf) (simp add: demo_daemon_def sample_defs key_state_of_def)

lemma demo_new: "dm_response demo_daemon = new_response"
  by (simp add: demo_daemon_def)

text \<open>The handler returns a value; the repetition's would throw, and is not run.\<close>

theorem mutation_answer_is_replayed_witness:
  "\<exists>t v. runIdempotentMutation demo_daemon_env demo_request ''r1'' ''{}'' None (ok (201, JNum 7)) demo_daemon = (Inr (), t)
     \<and> answered (dm_response t) 201 [(''data'', JNum 7)] ''r1''
     \<and> runIdempotentMutation demo_daemon_env demo_request ''r2'' ''{}'' None (fail (ThrewError ''no'')) (t\<lparr>dm_response := new_response\<rparr>) = (Inr (), v)
     \<and> answered (dm_response v) 201 [(''data'', JNum 7)] ''r2''"
proof -
  have "\<And>s. daemon_rel keys_same s (snd (ok (201, JNum 7) s))" "\<And>s. dm_response (snd (ok (201, JNum 7) s)) = dm_response s"
    "\<And>s. fst (stored_outcome (fst (ok (201, JNum 7) s))) \<in> {100..599}"
    by (simp_all add: ok_def daemon_rel_def coord_rel_def keys_same_def)
  note handler = this
  from mutation_answer_is_replayed [where h = "ok (201, JNum 7)", OF demo_quiet demo_wf(1) demo_key refl demo_hash demo_wf(2) demo_new handler, of "''r1''" None]
  obtain s1 :: "unit daemon" and status stored t where t: "stored_outcome (fst (ok (201, JNum 7) s1)) = (status, stored)"
    "runIdempotentMutation demo_daemon_env demo_request ''r1'' ''{}'' None (ok (201, JNum 7)) demo_daemon = (Inr (), t)"
    "answered (dm_response t) status stored ''r1''"
    and again: "\<forall>u req' r' raw' or'' h'. served outcomes_kept demo_daemon_env t u \<and> dm_response u = new_response \<and> key_of req' = Some ''k1''
        \<and> requestFingerprint demo_daemon_env req' raw' = requestFingerprint demo_daemon_env demo_request ''{}'' \<longrightarrow>
        (\<exists>v. runIdempotentMutation demo_daemon_env req' r' raw' or'' h' u = (Inr (), v) \<and> answered (dm_response v) status stored r')"
    by (elim exE conjE) (rule that)
  from t(1) have st: "status = 201" "stored = [(''data'', JNum 7)]" by (simp_all add: ok_def)
  have "served outcomes_kept demo_daemon_env t (t\<lparr>dm_response := new_response\<rparr>)"
    by (rule served_between [OF served_none]) (simp add: daemon_rel_def coord_rel_def outcomes_kept_def)
  with again demo_key have "\<exists>v. runIdempotentMutation demo_daemon_env demo_request ''r2'' ''{}'' None (fail (ThrewError ''no'')) (t\<lparr>dm_response := new_response\<rparr>) = (Inr (), v)
    \<and> answered (dm_response v) status stored ''r2''" by simp
  then obtain v where
    "runIdempotentMutation demo_daemon_env demo_request ''r2'' ''{}'' None (fail (ThrewError ''no'')) (t\<lparr>dm_response := new_response\<rparr>) = (Inr (), v)"
    "answered (dm_response v) status stored ''r2''" by blast
  with t(2,3) show ?thesis unfolding st by blast
qed

theorem key_runs_handler_once_witness:
  "unconsulted (runIdempotentMutation demo_daemon_env demo_request ''r1'' ''{}'' None) demo_daemon
    \<or> unconsulted (runIdempotentMutation demo_daemon_env demo_request ''r2'' ''[]'' None)
        (snd (runIdempotentMutation demo_daemon_env demo_request ''r1'' ''{}'' None (ok (201, JNum 7)) demo_daemon))"
proof (rule key_runs_handler_once [OF _ _ demo_key demo_key served_none])
  show "keys_respected (de_coord demo_daemon_env)"
    by (simp add: demo_daemon_env_def demo_env_def respected_def coord_rel_def keys_kept_def)
  show "daemon_keys s (snd (ok (201, JNum 7) s))" for s
    by (simp add: ok_def daemon_rel_def coord_rel_def keys_kept_def)
qed


definition demo_stored :: "unit daemon" where
  "demo_stored = demo_daemon\<lparr>dm_coord := (dm_coord demo_daemon)\<lparr>co_db := sample_db\<lparr>artifacts := [demo_screenshot]\<rparr>\<rparr>\<rparr>"

theorem served_artifact_is_recorded_witness:
  "\<exists>t. sendArtifact demo_daemon_env ''art_1'' ''r1'' None demo_stored = (Inr (), t) \<and> re_body (dm_response t) = BytesBody ''x''"
proof -
  have below: "\<not> escapes (relative ''/a'' ''/a/r/x.png'')" by code_simp
  have "\<exists>t. sendArtifact demo_daemon_env ''art_1'' ''r1'' None demo_stored = (Inr (), t)"
    by (simp add: sendArtifact_def demo_stored_def demo_daemon_def demo_daemon_env_def demo_screenshot_def getArtifact_def on_db_def on_world_def
        on_coord_def demo_call_db demo_call_world demo_sel demo_services_def below on_response_def weak_eff eff_simps cong: weak_eff)
  then obtain t where t: "sendArtifact demo_daemon_env ''art_1'' ''r1'' None demo_stored = (Inr (), t)" ..
  from served_artifact_is_recorded [OF demo_quiet t] show ?thesis using t
    by (auto simp: demo_daemon_env_def demo_env_def demo_services_def eff_simps)
qed

end
