(* ===== verification/Files.thy ===== *)
theory Files
  imports Paths
begin

text \<open>
  Regular files and their names, as far as the program relies on them: names lead to inodes, a hard link is a second
  name of an inode, and writing through a handle changes the inode behind all its names. Between two calls other
  processes act (\<open>fe_other\<close>), and every call may fail (\<open>fe_fault\<close>).

  \<open>triple P m Q E\<close> is the rule for an operation with such interference: from files that satisfy \<open>P\<close>, \<open>m\<close> returns
  \<open>x\<close> with \<open>Q x\<close> or throws \<open>e\<close> with \<open>E e\<close>; a condition that is needed across a call has to be stable.
\<close>

subsection \<open>The file system\<close>

text \<open>Directories are implicit: a file can be created under any path.\<close>

datatype fnode = Regular nat | SymbolicLink | OtherNode

record files =
  fs_names :: "string \<Rightarrow> fnode option"
  fs_bytes :: "nat \<Rightarrow> string"
  fs_mode :: "nat \<Rightarrow> int"
  fs_next :: nat

record disk =
  dk_files :: files
  dk_tick :: nat

record files_env =
  fe_other :: "nat \<Rightarrow> files \<Rightarrow> files"
  fe_fault :: "nat \<Rightarrow> string option"
  fe_written :: "nat \<Rightarrow> nat"

datatype file_error = Errno string | FileConflict string string | FileError string

definition is_errno :: "string \<Rightarrow> file_error \<Rightarrow> bool" where
  "is_errno code e \<longleftrightarrow> e = Errno code"

type_synonym 'a fop = "(file_error, disk, 'a) eff"

definition fs_call :: "files_env \<Rightarrow> (file_error, files, 'a) eff \<Rightarrow> 'a fop" where
  "fs_call env m s =
     (let fs = fe_other env (dk_tick s) (dk_files s) in
      case fe_fault env (dk_tick s) of
        Some code \<Rightarrow> (Inl (Errno code), \<lparr>dk_files = fs, dk_tick = Suc (dk_tick s)\<rparr>)
      | None \<Rightarrow> (case m fs of (r, fs') \<Rightarrow> (r, \<lparr>dk_files = fs', dk_tick = Suc (dk_tick s)\<rparr>)))"

text \<open>\<open>open(path, "wx", mode)\<close>\<close>

definition fs_create :: "string \<Rightarrow> int \<Rightarrow> (file_error, files, nat) eff" where
  "fs_create path mode fs = (case fs_names fs path of
       Some _ \<Rightarrow> (Inl (Errno ''EEXIST''), fs)
     | None \<Rightarrow> (Inr (fs_next fs), fs\<lparr>fs_names := (fs_names fs)(path \<mapsto> Regular (fs_next fs)),
         fs_bytes := (fs_bytes fs)(fs_next fs := []), fs_mode := (fs_mode fs)(fs_next fs := mode), fs_next := Suc (fs_next fs)\<rparr>))"

text \<open>A write that fails may have written the first \<open>fe_written\<close> bytes.\<close>

definition fs_write :: "files_env \<Rightarrow> nat \<Rightarrow> string \<Rightarrow> unit fop" where
  "fs_write env handle data s =
     (let fs = fe_other env (dk_tick s) (dk_files s);
          store = (\<lambda>bytes. \<lparr>dk_files = fs\<lparr>fs_bytes := (fs_bytes fs)(handle := bytes)\<rparr>, dk_tick = Suc (dk_tick s)\<rparr>) in
      case fe_fault env (dk_tick s) of
        Some code \<Rightarrow> (Inl (Errno code), store (take (fe_written env (dk_tick s)) data))
      | None \<Rightarrow> (Inr (), store data))"

definition fs_link :: "string \<Rightarrow> string \<Rightarrow> (file_error, files, unit) eff" where
  "fs_link existing new fs = (case (fs_names fs existing, fs_names fs new) of
       (None, _) \<Rightarrow> (Inl (Errno ''ENOENT''), fs)
     | (_, Some _) \<Rightarrow> (Inl (Errno ''EEXIST''), fs)
     | (Some node, None) \<Rightarrow> (Inr (), fs\<lparr>fs_names := (fs_names fs)(new \<mapsto> node)\<rparr>))"

text \<open>\<open>chmod\<close>; the mode of what a symbolic link leads to is not tracked.\<close>

definition fs_chmod :: "string \<Rightarrow> int \<Rightarrow> (file_error, files, unit) eff" where
  "fs_chmod path mode fs = (case fs_names fs path of
       None \<Rightarrow> (Inl (Errno ''ENOENT''), fs)
     | Some (Regular n) \<Rightarrow> (Inr (), fs\<lparr>fs_mode := (fs_mode fs)(n := mode)\<rparr>)
     | Some _ \<Rightarrow> (Inr (), fs))"

text \<open>\<open>rm(path, { force: true })\<close>\<close>

definition fs_rm :: "string \<Rightarrow> (file_error, files, unit) eff" where
  "fs_rm path fs = (Inr (), fs\<lparr>fs_names := (fs_names fs)(path := None)\<rparr>)"

text \<open>\<open>open(path, O_RDONLY | O_NOFOLLOW)\<close>, and reading the open file.\<close>

definition fs_open :: "string \<Rightarrow> (file_error, files, fnode) eff" where
  "fs_open path fs = (case fs_names fs path of
       None \<Rightarrow> (Inl (Errno ''ENOENT''), fs)
     | Some SymbolicLink \<Rightarrow> (Inl (Errno ''ELOOP''), fs)
     | Some node \<Rightarrow> (Inr node, fs))"

definition fs_read :: "nat \<Rightarrow> (file_error, files, string) eff" where
  "fs_read handle fs = (Inr (fs_bytes fs handle), fs)"

text \<open>Calls that only wait: \<open>mkdir\<close> of implicit directories, \<open>sync\<close>, \<open>close\<close>, \<open>stat\<close> of an open file.\<close>

definition fs_wait :: "files_env \<Rightarrow> unit fop" where
  "fs_wait env = fs_call env (ok ())"

subsection \<open>Triples\<close>

definition triple ::
  "(files \<Rightarrow> bool) \<Rightarrow> ('e, disk, 'a) eff \<Rightarrow> ('a \<Rightarrow> files \<Rightarrow> bool) \<Rightarrow> ('e \<Rightarrow> files \<Rightarrow> bool) \<Rightarrow> bool" where
  "triple P m Q E \<longleftrightarrow> (\<forall>s. P (dk_files s) \<longrightarrow>
     (case m s of (Inr x, t) \<Rightarrow> Q x (dk_files t) | (Inl e, t) \<Rightarrow> E e (dk_files t)))"

definition stable :: "files_env \<Rightarrow> (files \<Rightarrow> bool) \<Rightarrow> bool" where
  "stable env P \<longleftrightarrow> (\<forall>n fs. P fs \<longrightarrow> P (fe_other env n fs))"

lemma tripleD: "triple P m Q E \<Longrightarrow> P (dk_files s) \<Longrightarrow> m s = (Inr x, t) \<Longrightarrow> Q x (dk_files t)"
  and tripleD_error: "triple P m Q E \<Longrightarrow> P (dk_files s) \<Longrightarrow> m s = (Inl e, t) \<Longrightarrow> E e (dk_files t)"
  by (fastforce simp: triple_def)+

lemma triple_weaken:
  "triple P m Q E \<Longrightarrow> (\<And>fs. P' fs \<Longrightarrow> P fs) \<Longrightarrow> (\<And>x fs. Q x fs \<Longrightarrow> Q' x fs) \<Longrightarrow> (\<And>e fs. E e fs \<Longrightarrow> E' e fs) \<Longrightarrow> triple P' m Q' E'"
  by (fastforce simp: triple_def split: prod.splits sum.splits)

lemma triple_ok: "(\<And>fs. P fs \<Longrightarrow> Q x fs) \<Longrightarrow> triple P (ok x) Q E"
  by (simp add: triple_def ok_def)

lemma triple_fail: "(\<And>fs. P fs \<Longrightarrow> E e fs) \<Longrightarrow> triple P (fail e) Q E"
  by (simp add: triple_def fail_def)

lemma triple_require:
  "(\<And>fs. P fs \<Longrightarrow> b \<Longrightarrow> Q () fs) \<Longrightarrow> (\<And>fs. P fs \<Longrightarrow> \<not> b \<Longrightarrow> E e fs) \<Longrightarrow> triple P (require b e) Q E"
  by (simp add: triple_def require_def)

lemma triple_orThrow:
  "(\<And>fs y. P fs \<Longrightarrow> v = Some y \<Longrightarrow> Q y fs) \<Longrightarrow> (\<And>fs. P fs \<Longrightarrow> E e fs) \<Longrightarrow> triple P (orThrow e v) Q E"
  by (simp add: triple_def orThrow_def split: option.split)

lemma triple_query: "(\<And>fs s. P fs \<Longrightarrow> Q (g s) fs) \<Longrightarrow> triple P (query g) Q E"
  by (simp add: triple_def query_def)

lemmas triple_basic = triple_ok triple_fail triple_require triple_orThrow triple_query

lemma triple_andThen:
  assumes "triple P m Q E" and "\<And>x. triple (Q x) (f x) Q' E"
  shows "triple P (andThen m f) Q' E"
  unfolding triple_def
proof (intro allI impI)
  fix s :: disk assume P: "P (dk_files s)"
  obtain r t where m: "m s = (r, t)" by (cases "m s")
  show "case andThen m f s of (Inr x, t) \<Rightarrow> Q' x (dk_files t) | (Inl e, t) \<Rightarrow> E e (dk_files t)"
  proof (cases r)
    case (Inl e)
    with tripleD_error [OF assms(1) P] m show ?thesis by (simp add: andThen_def)
  next
    case (Inr x)
    with tripleD [OF assms(1) P] m have "Q x (dk_files t)" by simp
    with assms(2) [of x] Inr m show ?thesis by (simp add: andThen_def triple_def)
  qed
qed

lemma triple_seq: "triple P m (\<lambda>_. P) E \<Longrightarrow> (\<And>x. triple P (f x) Q E) \<Longrightarrow> triple P (andThen m f) Q E"
  by (rule triple_andThen)

lemma triple_attempt: "triple P m Q E \<Longrightarrow> triple P (attempt m) (\<lambda>r. case r of Inl e \<Rightarrow> E e | Inr x \<Rightarrow> Q x) E'"
  by (fastforce simp: triple_def attempt_def split: prod.splits sum.splits)

lemma triple_with_cleanup:
  assumes "triple P m Q E" and "\<And>x. triple (Q x) c (\<lambda>_. Q' x) E'" and "\<And>e. triple (E e) c (\<lambda>_. E' e) E'"
  shows "triple P (with_cleanup m c) Q' E'"
  unfolding with_cleanup_def
proof (rule triple_andThen [OF triple_attempt [OF assms(1)]])
  fix r
  have "triple (case r of Inl e \<Rightarrow> E e | Inr x \<Rightarrow> Q x) c (\<lambda>_. case r of Inl e \<Rightarrow> E' e | Inr x \<Rightarrow> Q' x) E'"
    using assms(2,3) by (cases r) simp_all
  moreover have "triple (case r of Inl e \<Rightarrow> E' e | Inr x \<Rightarrow> Q' x) (lift_res r) Q' E'"
    by (auto simp: triple_def lift_res_def split: sum.split)
  ultimately show "triple (case r of Inl e \<Rightarrow> E e | Inr x \<Rightarrow> Q x) (andThen c (\<lambda>_. lift_res r)) Q' E'"
    by (rule triple_andThen)
qed

lemma triple_if: "(b \<Longrightarrow> triple P m Q E) \<Longrightarrow> (\<not> b \<Longrightarrow> triple P m' Q E) \<Longrightarrow> triple P (if b then m else m') Q E"
  by simp

lemma triple_call:
  assumes "stable env P" and "\<And>fs code. P fs \<Longrightarrow> E (Errno code) fs"
    and "\<And>fs x fs'. P fs \<Longrightarrow> m fs = (Inr x, fs') \<Longrightarrow> Q x fs'" and "\<And>fs e fs'. P fs \<Longrightarrow> m fs = (Inl e, fs') \<Longrightarrow> E e fs'"
  shows "triple P (fs_call env m) Q E"
  unfolding triple_def
proof (intro allI impI)
  fix s :: disk assume "P (dk_files s)"
  then have P: "P (fe_other env (dk_tick s) (dk_files s))" using assms(1) by (simp add: stable_def)
  obtain r fs' where m: "m (fe_other env (dk_tick s) (dk_files s)) = (r, fs')"
    by (cases "m (fe_other env (dk_tick s) (dk_files s))")
  show "case fs_call env m s of (Inr x, t) \<Rightarrow> Q x (dk_files t) | (Inl e, t) \<Rightarrow> E e (dk_files t)"
    using P m assms(2,3,4) by (cases r) (auto simp: fs_call_def Let_def split: option.split)
qed

lemma triple_write:
  assumes "stable env P" and "\<And>fs bytes. P fs \<Longrightarrow> R (fs\<lparr>fs_bytes := (fs_bytes fs)(h := bytes)\<rparr>)"
    and "\<And>fs. P fs \<Longrightarrow> Q () (fs\<lparr>fs_bytes := (fs_bytes fs)(h := data)\<rparr>)" and "\<And>e fs. R fs \<Longrightarrow> E e fs"
  shows "triple P (fs_write env h data) Q E"
  unfolding triple_def
proof (intro allI impI)
  fix s :: disk assume "P (dk_files s)"
  then have P: "P (fe_other env (dk_tick s) (dk_files s))" using assms(1) by (simp add: stable_def)
  with assms(2,3,4) show "case fs_write env h data s of (Inr x, t) \<Rightarrow> Q x (dk_files t) | (Inl e, t) \<Rightarrow> E e (dk_files t)"
    by (auto simp: fs_write_def Let_def split: option.split)
qed

lemma triple_wait: "stable env P \<Longrightarrow> triple P (fs_wait env) (\<lambda>_. P) (\<lambda>_. P)"
  unfolding fs_wait_def by (rule triple_call) (auto simp: ok_def)

end
