(* ===== verification/Artifacts.thy ===== *)
theory Artifacts
  imports Files
begin

text \<open>
  \<open>src/artifacts.ts\<close>: evidence files that are written once. A file is installed by linking a complete temporary file
  to its name, which fails when the name is taken; a sidecar with the metadata is installed the same way after it.
  The hash, the printing and parsing of JSON, \<open>realpath\<close>, identifiers and the clock are arguments.
\<close>

subsection \<open>Data\<close>

record artifact_metadata =
  am_taskId :: string
  am_runId :: string
  am_kind :: artifact_kind
  am_name :: string
  am_path :: string
  am_relativePath :: string
  am_metadataPath :: string
  am_sha256 :: string
  am_sizeBytes :: int
  am_createdAt :: string

record artifact_env =
  ae_files :: files_env
  ae_pid :: string
  ae_uuid :: "nat \<Rightarrow> string"
  ae_now :: "nat \<Rightarrow> string"
  ae_sha256 :: "string \<Rightarrow> string"
  ae_realpath :: "string \<Rightarrow> files \<Rightarrow> string option"
  ae_print :: "json \<Rightarrow> string"
  ae_parse :: "string \<Rightarrow> json option"
  ae_date :: "string \<Rightarrow> bool"

record artifact_store =
  st_home :: string
  st_root :: string

text \<open>The home is resolved when the store is made.\<close>

definition new_artifact_store :: "string \<Rightarrow> string \<Rightarrow> artifact_store" where
  "new_artifact_store cwd home = (let h = resolve cwd home in \<lparr>st_home = h, st_root = h @ ''/artifacts''\<rparr>)"

definition SAFE_SEGMENT :: "string \<Rightarrow> bool" where
  "SAFE_SEGMENT s \<longleftrightarrow> task_id_shape s \<and> length s \<le> 160"

definition assertSafePathSegment :: "string \<Rightarrow> string \<Rightarrow> string fop" where
  "assertSafePathSegment value label =
     (if SAFE_SEGMENT value \<and> value \<noteq> ''.'' \<and> value \<noteq> ''..'' then ok value
      else fail (FileError (label @ '' must contain only letters, numbers, dot, underscore, or dash'')))"

definition assertContained :: "string \<Rightarrow> string \<Rightarrow> unit fop" where
  "assertContained root candidate =
     require (\<not> escapes (relative root candidate)) (FileError (''Artifact path escapes its storage root: '' @ candidate))"

definition conflict_on :: "string \<Rightarrow> string \<Rightarrow> file_error" where
  "conflict_on path message = FileConflict path (message @ path)"

definition IMMUTABLE_FILE_MODE :: int where
  "IMMUTABLE_FILE_MODE = 256"

subsection \<open>Files\<close>

text \<open>The handle is an inode; what is open and not a regular file has none to read.\<close>

definition readRegularFile :: "artifact_env \<Rightarrow> string \<Rightarrow> string fop" where
  "readRegularFile env filePath =
     andThen (fs_call (ae_files env) (fs_open filePath)) (\<lambda>node.
     with_cleanup
       (andThen (fs_wait (ae_files env)) (\<lambda>_.
        case node of
          Regular handle \<Rightarrow> fs_call (ae_files env) (fs_read handle)
        | _ \<Rightarrow> fail (conflict_on filePath ''Artifact evidence must be a regular file: '')))
       (fs_wait (ae_files env)))"

datatype installed = Created | Exists

definition temporary_name :: "artifact_env \<Rightarrow> string \<Rightarrow> nat \<Rightarrow> string" where
  "temporary_name env destination n = dirname destination @ ''/'' @
     (CHR ''.'' # basename destination @ ''.'' @ ae_pid env @ ''.'' @ ae_uuid env n @ ''.tmp'')"

text \<open>What the \<open>finally\<close> block does with errors is to ignore them; closing the handle there changes nothing.\<close>

definition link_installed :: "artifact_env \<Rightarrow> string \<Rightarrow> string \<Rightarrow> installed fop" where
  "link_installed env temporary destination =
     andThen (attempt (andThen (fs_call (ae_files env) (fs_link temporary destination)) (\<lambda>_.
       fs_call (ae_files env) (fs_chmod destination IMMUTABLE_FILE_MODE)))) (\<lambda>r. case r of
         Inr _ \<Rightarrow> ok Created
       | Inl e \<Rightarrow> if is_errno ''EEXIST'' e then ok Exists else fail e)"

definition installExclusiveFile :: "artifact_env \<Rightarrow> string \<Rightarrow> string \<Rightarrow> installed fop" where
  "installExclusiveFile env destination data =
     andThen (fs_wait (ae_files env)) (\<lambda>_.
     andThen (query (\<lambda>s. temporary_name env destination (dk_tick s))) (\<lambda>temporary.
     with_cleanup
       (andThen (fs_call (ae_files env) (fs_create temporary 384)) (\<lambda>handle.
        andThen (fs_write (ae_files env) handle data) (\<lambda>_.
        andThen (fs_wait (ae_files env)) (\<lambda>_.
        andThen (fs_wait (ae_files env)) (\<lambda>_.
        link_installed env temporary destination)))))
       (andThen (attempt (fs_call (ae_files env) (fs_rm temporary))) (\<lambda>_. ok ()))))"

definition atomicWriteFile :: "artifact_env \<Rightarrow> string \<Rightarrow> string \<Rightarrow> unit fop" where
  "atomicWriteFile env destination data =
     andThen (installExclusiveFile env destination data) (\<lambda>installed.
     if installed = Created then ok ()
     else
       andThen (readRegularFile env destination) (\<lambda>existing.
       andThen (require (existing = data) (conflict_on destination ''Artifact bytes must be identical for immutable path: '')) (\<lambda>_.
       fs_call (ae_files env) (fs_chmod destination IMMUTABLE_FILE_MODE))))"

subsection \<open>Metadata\<close>

definition metadata_json :: "artifact_metadata \<Rightarrow> json" where
  "metadata_json m = JObj [(''taskId'', JStr (am_taskId m)), (''runId'', JStr (am_runId m)),
     (''kind'', JStr (enum_name ArtifactKindSchema (am_kind m))), (''name'', JStr (am_name m)), (''path'', JStr (am_path m)),
     (''relativePath'', JStr (am_relativePath m)), (''metadataPath'', JStr (am_metadataPath m)), (''sha256'', JStr (am_sha256 m)),
     (''sizeBytes'', JNum (am_sizeBytes m)), (''createdAt'', JStr (am_createdAt m))]"

definition metadata_of :: "(string \<Rightarrow> bool) \<Rightarrow> json \<Rightarrow> artifact_metadata option" where
  "metadata_of date value =
     (let field = (\<lambda>k. Option.bind (json_field k value) json_string) in
      case (field ''taskId'', field ''runId'', Option.bind (json_field ''kind'' value) (json_enum ArtifactKindSchema),
            field ''name'', field ''path'', field ''relativePath'', field ''metadataPath'', field ''sha256'',
            json_field ''sizeBytes'' value, field ''createdAt'') of
        (Some taskId, Some runId, Some kind, Some name, Some path, Some relativePath, Some metadataPath, Some sha256,
         Some (JNum sizeBytes), Some createdAt) \<Rightarrow>
          if is_sha256 sha256 \<and> is_safe_int sizeBytes \<and> 0 \<le> sizeBytes \<and> date createdAt
          then Some \<lparr>am_taskId = taskId, am_runId = runId, am_kind = kind, am_name = name, am_path = path,
            am_relativePath = relativePath, am_metadataPath = metadataPath, am_sha256 = sha256, am_sizeBytes = sizeBytes,
            am_createdAt = createdAt\<rparr>
          else None
      | _ \<Rightarrow> None)"

definition parseMetadata :: "artifact_env \<Rightarrow> string \<Rightarrow> string \<Rightarrow> artifact_metadata fop" where
  "parseMetadata env metadataPath content =
     andThen (orThrow (conflict_on metadataPath ''Artifact metadata must be valid JSON: '') (ae_parse env content)) (\<lambda>value.
     andThen (require (is_json_object value) (conflict_on metadataPath ''Artifact metadata must be an object: '')) (\<lambda>_.
     orThrow (conflict_on metadataPath ''Artifact metadata must contain a valid immutable evidence record: '')
       (metadata_of (ae_date env) value)))"

text \<open>Every field is compared but \<open>createdAt\<close>.\<close>

definition assertMetadataMatches :: "artifact_metadata \<Rightarrow> artifact_metadata \<Rightarrow> unit fop" where
  "assertMetadataMatches actual expected =
     require (actual\<lparr>am_createdAt := []\<rparr> = expected\<lparr>am_createdAt := []\<rparr>)
       (FileConflict (am_metadataPath expected) (''Artifact metadata must be identical for immutable path: '' @ am_path expected))"

definition readStoredMetadata :: "artifact_env \<Rightarrow> string \<Rightarrow> artifact_metadata fop" where
  "readStoredMetadata env metadataPath =
     andThen (readRegularFile env metadataPath) (parseMetadata env metadataPath)"

subsection \<open>The store\<close>

definition fs_realpath :: "artifact_env \<Rightarrow> string \<Rightarrow> string fop" where
  "fs_realpath env path = fs_call (ae_files env) (\<lambda>fs. case ae_realpath env path fs of
     None \<Rightarrow> (Inl (Errno ''ENOENT''), fs) | Some p \<Rightarrow> (Inr p, fs))"

definition ensureRoot :: "artifact_env \<Rightarrow> artifact_store \<Rightarrow> string fop" where
  "ensureRoot env store =
     andThen (fs_wait (ae_files env)) (\<lambda>_.
     andThen (fs_realpath env (st_home store)) (\<lambda>realHome.
     andThen (fs_wait (ae_files env)) (\<lambda>_.
     andThen (fs_realpath env (st_root store)) (\<lambda>realRoot.
     andThen (assertContained realHome realRoot) (\<lambda>_.
     ok realRoot)))))"

definition prepareRunDirectory :: "artifact_env \<Rightarrow> artifact_store \<Rightarrow> string \<Rightarrow> string \<Rightarrow> string fop" where
  "prepareRunDirectory env store taskIdInput runIdInput =
     andThen (assertSafePathSegment taskIdInput ''taskId'') (\<lambda>taskId.
     andThen (assertSafePathSegment runIdInput ''runId'') (\<lambda>runId.
     andThen (ensureRoot env store) (\<lambda>root.
     andThen (fs_wait (ae_files env)) (\<lambda>_.
     andThen (fs_realpath env (root @ ''/'' @ taskId @ ''/'' @ runId)) (\<lambda>directory.
     andThen (assertContained root directory) (\<lambda>_.
     ok directory))))))"

text \<open>The two ways of \<open>write\<close>: a complete prior write is checked, and a new one is installed.\<close>

definition confirm_prior :: "artifact_env \<Rightarrow> artifact_metadata \<Rightarrow> string \<Rightarrow> artifact_metadata \<Rightarrow> artifact_metadata fop" where
  "confirm_prior env immutableMetadata bytes priorMetadata =
     andThen (assertMetadataMatches priorMetadata immutableMetadata) (\<lambda>_.
     andThen (readRegularFile env (am_path immutableMetadata)) (\<lambda>existing.
     andThen (require (existing = bytes)
       (conflict_on (am_path immutableMetadata) ''Artifact bytes must be identical for immutable path: '')) (\<lambda>_.
     ok priorMetadata)))"

definition install_new :: "artifact_env \<Rightarrow> artifact_metadata \<Rightarrow> string \<Rightarrow> artifact_metadata fop" where
  "install_new env immutableMetadata bytes =
     andThen (atomicWriteFile env (am_path immutableMetadata) bytes) (\<lambda>_.
     andThen (query (\<lambda>s. immutableMetadata\<lparr>am_createdAt := ae_now env (dk_tick s)\<rparr>)) (\<lambda>metadata.
     andThen (installExclusiveFile env (am_metadataPath metadata) (ae_print env (metadata_json metadata) @ newline)) (\<lambda>metadataState.
     if metadataState = Created then ok metadata
     else
       andThen (readStoredMetadata env (am_metadataPath metadata)) (\<lambda>winner.
       andThen (assertMetadataMatches winner immutableMetadata) (\<lambda>_.
       ok winner)))))"

definition immutable_metadata :: "artifact_env \<Rightarrow> artifact_write \<Rightarrow> string \<Rightarrow> string \<Rightarrow> artifact_metadata" where
  "immutable_metadata env input realHome destination =
     \<lparr>am_taskId = aw_taskId input, am_runId = aw_runId input, am_kind = aw_kind input, am_name = aw_name input,
      am_path = destination, am_relativePath = relative realHome destination, am_metadataPath = destination @ ''.metadata.json'',
      am_sha256 = ae_sha256 env (aw_data input), am_sizeBytes = int (length (aw_data input)), am_createdAt = []\<rparr>"

definition store_evidence :: "artifact_env \<Rightarrow> artifact_metadata \<Rightarrow> string \<Rightarrow> artifact_metadata fop" where
  "store_evidence env immutableMetadata bytes =
     andThen (attempt (readStoredMetadata env (am_metadataPath immutableMetadata))) (\<lambda>prior. case prior of
       Inr priorMetadata \<Rightarrow> confirm_prior env immutableMetadata bytes priorMetadata
     | Inl e \<Rightarrow> if is_errno ''ENOENT'' e then install_new env immutableMetadata bytes else fail e)"

definition write_artifact :: "artifact_env \<Rightarrow> artifact_store \<Rightarrow> artifact_write \<Rightarrow> artifact_metadata fop" where
  "write_artifact env store input =
     andThen (assertSafePathSegment (aw_taskId input) ''taskId'') (\<lambda>taskId.
     andThen (assertSafePathSegment (aw_runId input) ''runId'') (\<lambda>runId.
     andThen (assertSafePathSegment (aw_name input) ''artifact name'') (\<lambda>name.
     andThen (prepareRunDirectory env store taskId runId) (\<lambda>directory.
     andThen (fs_realpath env (st_home store)) (\<lambda>realHome.
     andThen (fs_realpath env (st_root store)) (\<lambda>realRoot.
     let destination = directory @ ''/'' @ name in
     andThen (assertContained realRoot destination) (\<lambda>_.
     store_evidence env (immutable_metadata env input realHome destination) (aw_data input))))))))"

definition writeJson :: "artifact_env \<Rightarrow> artifact_store \<Rightarrow> artifact_write \<Rightarrow> json \<Rightarrow> artifact_metadata fop" where
  "writeJson env store input data = write_artifact env store (input\<lparr>aw_data := ae_print env data @ newline\<rparr>)"

definition writeArtifact :: "artifact_env \<Rightarrow> string \<Rightarrow> string \<Rightarrow> artifact_write \<Rightarrow> artifact_metadata fop" where
  "writeArtifact env cwd home = write_artifact env (new_artifact_store cwd home)"

text \<open>A metadata file is read back only from its own place.\<close>

definition readMetadata :: "artifact_env \<Rightarrow> artifact_store \<Rightarrow> string \<Rightarrow> string \<Rightarrow> artifact_metadata fop" where
  "readMetadata env store cwd metadataPath =
     andThen (ensureRoot env store) (\<lambda>root.
     let resolved = resolve cwd metadataPath in
     andThen (assertContained root resolved) (\<lambda>_.
     andThen (readStoredMetadata env resolved) (\<lambda>parsed.
     andThen (require (am_metadataPath parsed = resolved)
       (conflict_on resolved ''Artifact metadata path must be identical to its immutable location: '')) (\<lambda>_.
     andThen (assertContained root (am_path parsed)) (\<lambda>_.
     ok parsed)))))"

text \<open>\<open>lstat\<close> and \<open>readFile\<close> by path.\<close>

definition fs_lstat :: "artifact_env \<Rightarrow> string \<Rightarrow> fnode fop" where
  "fs_lstat env path = fs_call (ae_files env) (\<lambda>fs. case fs_names fs path of
     None \<Rightarrow> (Inl (Errno ''ENOENT''), fs) | Some node \<Rightarrow> (Inr node, fs))"

definition fs_readFile :: "artifact_env \<Rightarrow> string \<Rightarrow> string fop" where
  "fs_readFile env path = fs_call (ae_files env) (\<lambda>fs. case fs_names fs path of
     None \<Rightarrow> (Inl (Errno ''ENOENT''), fs)
   | Some (Regular n) \<Rightarrow> (Inr (fs_bytes fs n), fs)
   | Some _ \<Rightarrow> (Inl (Errno ''EISDIR''), fs))"

definition verifyArtifactEvidence :: "artifact_env \<Rightarrow> string \<Rightarrow> string \<Rightarrow> string \<Rightarrow> int \<Rightarrow> (string \<times> string \<times> int) fop" where
  "verifyArtifactEvidence env artifactRoot path sha256 sizeBytes =
     andThen (require (is_sha256 sha256) (FileError ''Artifact record contains an invalid SHA-256 digest'')) (\<lambda>_.
     andThen (require (is_safe_int sizeBytes \<and> 0 \<le> sizeBytes) (FileError ''Artifact record contains an invalid byte size'')) (\<lambda>_.
     andThen (fs_realpath env artifactRoot) (\<lambda>root.
     andThen (fs_lstat env path) (\<lambda>info.
     andThen (require (case info of Regular _ \<Rightarrow> True | _ \<Rightarrow> False) (conflict_on path ''Artifact evidence must be a regular file: '')) (\<lambda>_.
     andThen (fs_realpath env path) (\<lambda>storedPath.
     andThen (assertContained root storedPath) (\<lambda>_.
     andThen (fs_readFile env storedPath) (\<lambda>bytes.
     andThen (require (int (length bytes) = sizeBytes) (conflict_on storedPath ''Artifact size does not match its immutable record: '')) (\<lambda>_.
     andThen (require (ae_sha256 env bytes = sha256) (conflict_on storedPath ''Artifact digest does not match its immutable record: '')) (\<lambda>_.
     ok (storedPath, ae_sha256 env bytes, int (length bytes))))))))))))"

end
