(* ===== verification/ArtifactFacts.thy ===== *)
theory ArtifactFacts
  imports Artifacts
begin

text \<open>
  What the artifact store guarantees with other processes at work: a name that is not hidden keeps the bytes it got
  first, and a write that returns has its bytes under its name and describes them in its metadata.
\<close>

subsection \<open>Names\<close>

definition hidden :: "string \<Rightarrow> bool" where
  "hidden p \<longleftrightarrow> starts_with ''.'' (basename p)"

lemma strip_slashes_last: "s \<noteq> [] \<Longrightarrow> last s \<noteq> CHR ''/'' \<Longrightarrow> strip_slashes s = s"
proof -
  assume "s \<noteq> []" "last s \<noteq> CHR ''/''"
  then have "dropWhile (\<lambda>c. c = CHR ''/'') (rev s) = rev s" by (cases s rule: rev_cases) auto
  then show ?thesis by (simp add: strip_slashes_def)
qed

lemma basename_join:
  assumes "CHR ''/'' \<notin> set name" and "name \<noteq> []"
  shows "basename (d @ ''/'' @ name) = name"
proof -
  have "last (d @ ''/'' @ name) \<noteq> CHR ''/''" using assms by (cases name rule: rev_cases) auto
  then have "strip_slashes (d @ ''/'' @ name) = d @ ''/'' @ name" by (intro strip_slashes_last) simp
  moreover have "takeWhile (\<lambda>c. c \<noteq> CHR ''/'') (rev name @ CHR ''/'' # rev d) = rev name"
    using assms(1) by (subst takeWhile_append2) auto
  ultimately show ?thesis by (simp add: basename_def)
qed

lemma basename_no_slash: "CHR ''/'' \<notin> set (basename p)"
  by (auto simp: basename_def dest: set_takeWhileD)

lemma safe_no_slash: "SAFE_SEGMENT s \<Longrightarrow> CHR ''/'' \<notin> set s \<and> s \<noteq> [] \<and> \<not> starts_with ''.'' s"
  by (cases s) (auto simp: SAFE_SEGMENT_def task_id_shape_def alnum_def id_char_def list_all_iff starts_with_def)

text \<open>Process identifiers and UUIDs have no slash.\<close>

definition plain_names :: "artifact_env \<Rightarrow> bool" where
  "plain_names env \<longleftrightarrow> CHR ''/'' \<notin> set (ae_pid env) \<and> (\<forall>n. CHR ''/'' \<notin> set (ae_uuid env n))"

lemma temporary_hidden: "plain_names env \<Longrightarrow> hidden (temporary_name env d n)"
  using basename_no_slash [of d] unfolding hidden_def temporary_name_def
  by (subst basename_join) (auto simp: plain_names_def starts_with_def)

lemma artifact_visible:
  assumes "SAFE_SEGMENT name"
  shows "\<not> hidden (d @ ''/'' @ name)" and "\<not> hidden (d @ ''/'' @ name @ ''.metadata.json'')"
proof -
  note s = safe_no_slash [OF assms]
  show "\<not> hidden (d @ ''/'' @ name)" unfolding hidden_def using s by (subst basename_join) auto
  from s have "\<not> starts_with ''.'' (name @ ''.metadata.json'')" by (cases name) (auto simp: starts_with_def)
  with s show "\<not> hidden (d @ ''/'' @ name @ ''.metadata.json'')"
    unfolding hidden_def by (subst basename_join) auto
qed

subsection \<open>Evidence\<close>

definition files_ok :: "files \<Rightarrow> bool" where
  "files_ok fs \<longleftrightarrow> (\<forall>p n. fs_names fs p = Some (Regular n) \<longrightarrow> n < fs_next fs)"

definition sealed :: "files \<Rightarrow> nat \<Rightarrow> bool" where
  "sealed fs n \<longleftrightarrow> (\<exists>p. \<not> hidden p \<and> fs_names fs p = Some (Regular n))"

definition evidence_kept :: "files \<Rightarrow> files \<Rightarrow> bool" where
  "evidence_kept fs fs' \<longleftrightarrow> (\<forall>p n. \<not> hidden p \<and> fs_names fs p = Some (Regular n) \<longrightarrow>
     fs_names fs' p = Some (Regular n) \<and> fs_bytes fs' n = fs_bytes fs n)"

interpretation evidence: evolution evidence_kept
  by unfold_locales (simp add: evidence_kept_def, unfold evidence_kept_def, metis)

text \<open>Nobody else names, renames or writes a temporary file of this process.\<close>

definition undisturbed :: "string \<Rightarrow> files \<Rightarrow> files \<Rightarrow> bool" where
  "undisturbed p fs fs' \<longleftrightarrow> fs_names fs' p = fs_names fs p
     \<and> (\<forall>n. fs_names fs p = Some (Regular n) \<and> \<not> sealed fs n \<longrightarrow> \<not> sealed fs' n \<and> fs_bytes fs' n = fs_bytes fs n)"

definition considerate :: "artifact_env \<Rightarrow> bool" where
  "considerate env \<longleftrightarrow> plain_names env \<and> (\<forall>n fs. files_ok fs \<longrightarrow> files_ok (fe_other (ae_files env) n fs)
     \<and> evidence_kept fs (fe_other (ae_files env) n fs)
     \<and> (\<forall>d k. undisturbed (temporary_name env d k) fs (fe_other (ae_files env) n fs)))"

definition base :: "files \<Rightarrow> files \<Rightarrow> bool" where
  "base fs0 fs \<longleftrightarrow> files_ok fs \<and> evidence_kept fs0 fs"

definition owned :: "files \<Rightarrow> string \<Rightarrow> nat \<Rightarrow> files \<Rightarrow> bool" where
  "owned fs0 temp k fs \<longleftrightarrow> base fs0 fs \<and> fs_names fs temp = Some (Regular k) \<and> \<not> sealed fs k"

definition holds :: "string \<Rightarrow> string \<Rightarrow> files \<Rightarrow> bool" where
  "holds p data fs \<longleftrightarrow> (\<exists>n. fs_names fs p = Some (Regular n) \<and> fs_bytes fs n = data)"

lemma holds_kept: "holds p data fs \<Longrightarrow> evidence_kept fs fs' \<Longrightarrow> \<not> hidden p \<Longrightarrow> holds p data fs'"
  by (fastforce simp: holds_def evidence_kept_def)

lemma stable_base: "considerate env \<Longrightarrow> stable (ae_files env) (base fs0)"
  by (auto simp: stable_def considerate_def base_def intro: evidence.trans)

lemma stable_holds: "considerate env \<Longrightarrow> \<not> hidden p \<Longrightarrow> stable (ae_files env) (\<lambda>fs. base fs0 fs \<and> holds p data fs)"
  using stable_base [of env fs0] by (auto simp: stable_def considerate_def base_def intro: holds_kept)

lemma stable_owned:
  assumes "considerate env" and "temp = temporary_name env d m"
  shows "stable (ae_files env) (owned fs0 temp k)"
    and "stable (ae_files env) (\<lambda>fs. owned fs0 temp k fs \<and> fs_bytes fs k = data)"
proof -
  have "undisturbed temp fs (fe_other (ae_files env) n fs)" if "base fs0 fs" for n fs
    using assms that by (simp add: considerate_def base_def)
  with stable_base [OF assms(1), of fs0]
  show "stable (ae_files env) (owned fs0 temp k)" "stable (ae_files env) (\<lambda>fs. owned fs0 temp k fs \<and> fs_bytes fs k = data)"
    by (auto simp: stable_def owned_def undisturbed_def)
qed

subsection \<open>Calls\<close>

lemma owned_base: "owned fs0 temp k fs \<Longrightarrow> base fs0 fs"
  by (simp add: owned_def)

lemma base_bytes: "owned fs0 temp k fs \<Longrightarrow> owned fs0 temp k (fs\<lparr>fs_bytes := (fs_bytes fs)(k := data)\<rparr>)"
  by (auto simp: owned_def base_def files_ok_def evidence_kept_def sealed_def)

lemma base_mode: "base fs0 fs \<Longrightarrow> base fs0 (fs\<lparr>fs_mode := m\<rparr>)"
  by (simp add: base_def files_ok_def evidence_kept_def)

lemma base_unlink: "base fs0 fs \<Longrightarrow> hidden p \<Longrightarrow> base fs0 (fs\<lparr>fs_names := (fs_names fs)(p := None)\<rparr>)"
  by (auto simp: base_def files_ok_def evidence_kept_def)

lemma base_link:
  "base fs0 fs \<Longrightarrow> fs_names fs p = Some node \<Longrightarrow> fs_names fs q = None \<Longrightarrow> base fs0 (fs\<lparr>fs_names := (fs_names fs)(q \<mapsto> node)\<rparr>)"
proof -
  assume fs: "base fs0 fs" "fs_names fs p = Some node" "fs_names fs q = None"
  from fs have "files_ok (fs\<lparr>fs_names := (fs_names fs)(q \<mapsto> node)\<rparr>)" by (auto simp: base_def files_ok_def)
  moreover have "evidence_kept fs (fs\<lparr>fs_names := (fs_names fs)(q \<mapsto> node)\<rparr>)" using fs(3) by (auto simp: evidence_kept_def)
  ultimately show ?thesis using fs(1) unfolding base_def by (blast intro: evidence.trans)
qed

lemma create_owned:
  assumes "base fs0 fs" and "hidden p" and "fs_create p mode fs = (Inr k, fs')"
  shows "owned fs0 p k fs'"
proof -
  from assms(3) have new: "fs_names fs p = None" "k = fs_next fs" and fs': "fs' = fs\<lparr>fs_names := (fs_names fs)(p \<mapsto> Regular (fs_next fs)),
         fs_bytes := (fs_bytes fs)(fs_next fs := []), fs_mode := (fs_mode fs)(fs_next fs := mode), fs_next := Suc (fs_next fs)\<rparr>"
    by (auto simp: fs_create_def split: option.splits)
  have below: "n < fs_next fs" if "fs_names fs q = Some (Regular n)" for q n
    using assms(1) that by (auto simp: base_def files_ok_def)
  have "files_ok fs'" using below by (auto simp: fs' files_ok_def less_Suc_eq)
  moreover have "evidence_kept fs fs'" using below assms(2) by (fastforce simp: fs' evidence_kept_def)
  moreover have "\<not> sealed fs' k" using assms(2) by (auto simp: fs' new sealed_def split: if_splits dest: below)
  ultimately show ?thesis using assms(1) by (auto simp: owned_def base_def fs' new intro: evidence.trans)
qed

lemma wait_base: "considerate env \<Longrightarrow> triple (base fs0) (fs_wait (ae_files env)) (\<lambda>_. base fs0) (\<lambda>_. base fs0)"
  by (intro triple_wait stable_base)

lemma read_only_base:
  assumes "considerate env" and "\<And>fs. snd (m fs) = fs"
  shows "triple (base fs0) (fs_call (ae_files env) m) (\<lambda>_. base fs0) (\<lambda>_. base fs0)"
  using assms(2) by (intro triple_call stable_base assms(1)) (metis snd_conv)+

lemma readRegularFile_holds:
  assumes "considerate env" and "\<not> hidden p"
  shows "triple (base fs0) (readRegularFile env p) (\<lambda>bytes fs. base fs0 fs \<and> holds p bytes fs) (\<lambda>_. base fs0)"
proof -
  let ?opened = "\<lambda>node fs. base fs0 fs \<and> (\<forall>n. node = Regular n \<longrightarrow> fs_names fs p = Some (Regular n))"
  have opened: "stable (ae_files env) (?opened node)" for node
    using assms stable_base [OF assms(1), of fs0] by (auto simp: stable_def considerate_def base_def evidence_kept_def)
  have "triple (base fs0) (fs_call (ae_files env) (fs_open p)) ?opened (\<lambda>_. base fs0)"
    by (intro triple_call stable_base assms(1)) (auto simp: fs_open_def split: option.splits fnode.splits)
  moreover have "triple (?opened node) (case node of Regular h \<Rightarrow> fs_call (ae_files env) (fs_read h)
      | _ \<Rightarrow> fail (conflict_on p ''Artifact evidence must be a regular file: ''))
      (\<lambda>bytes fs. base fs0 fs \<and> holds p bytes fs) (\<lambda>_. base fs0)" for node
  proof (cases node)
    case (Regular h)
    have "triple (?opened node) (fs_call (ae_files env) (fs_read h)) (\<lambda>bytes fs. base fs0 fs \<and> holds p bytes fs) (\<lambda>_. base fs0)"
      by (rule triple_call [OF opened]) (auto simp: fs_read_def holds_def Regular)
    with Regular show ?thesis by simp
  qed (simp_all add: triple_basic)
  moreover have "triple (?opened node) (fs_wait (ae_files env)) (\<lambda>_. ?opened node) (\<lambda>_. base fs0)" for node
    by (rule triple_weaken [OF triple_wait [OF opened]]) auto
  moreover have "triple (\<lambda>fs. base fs0 fs \<and> holds p bytes fs) (fs_wait (ae_files env)) (\<lambda>_ fs. base fs0 fs \<and> holds p bytes fs) (\<lambda>_. base fs0)" for bytes
    by (rule triple_weaken [OF triple_wait [OF stable_holds [OF assms]]]) auto
  ultimately show ?thesis
    unfolding readRegularFile_def by (intro triple_andThen triple_with_cleanup) (assumption | rule wait_base [OF assms(1)])+
qed

lemma chmod_holds:
  assumes "considerate env" and "\<not> hidden p"
  shows "triple (\<lambda>fs. base fs0 fs \<and> holds p data fs) (fs_call (ae_files env) (fs_chmod p mode)) (\<lambda>_ fs. base fs0 fs \<and> holds p data fs) (\<lambda>_. base fs0)"
  by (rule triple_call [OF stable_holds [OF assms]])
    (auto simp: fs_chmod_def holds_def intro: base_mode split: option.splits fnode.splits)

lemma link_installed_holds:
  assumes "considerate env" and "temp = temporary_name env d m" and "\<not> hidden p"
  shows "triple (\<lambda>fs. owned fs0 temp k fs \<and> fs_bytes fs k = data) (link_installed env temp p)
    (\<lambda>r fs. base fs0 fs \<and> (r = Created \<longrightarrow> holds p data fs)) (\<lambda>_. base fs0)"
proof -
  have "triple (\<lambda>fs. owned fs0 temp k fs \<and> fs_bytes fs k = data) (fs_call (ae_files env) (fs_link temp p))
    (\<lambda>_ fs. base fs0 fs \<and> holds p data fs) (\<lambda>_. base fs0)"
    by (rule triple_call [OF stable_owned(2) [OF assms(1,2)]])
      (auto simp: owned_def fs_link_def holds_def intro: base_link split: option.splits)
  then have "triple (\<lambda>fs. owned fs0 temp k fs \<and> fs_bytes fs k = data)
      (andThen (fs_call (ae_files env) (fs_link temp p)) (\<lambda>_. fs_call (ae_files env) (fs_chmod p IMMUTABLE_FILE_MODE)))
      (\<lambda>_ fs. base fs0 fs \<and> holds p data fs) (\<lambda>_. base fs0)"
    by (rule triple_andThen) (rule chmod_holds [OF assms(1,3)])
  from triple_attempt [OF this] show ?thesis
    unfolding link_installed_def by (rule triple_andThen) (simp add: triple_basic split: sum.split)
qed

lemma installExclusiveFile_holds:
  assumes "considerate env" and "\<not> hidden p"
  shows "triple (base fs0) (installExclusiveFile env p data) (\<lambda>r fs. base fs0 fs \<and> (r = Created \<longrightarrow> holds p data fs)) (\<lambda>_. base fs0)"
proof -
  have hid: "hidden (temporary_name env d n)" for d n
    using assms(1) by (simp add: considerate_def temporary_hidden)
  let ?Q = "\<lambda>r fs. base fs0 fs \<and> (r = Created \<longrightarrow> holds p data fs)"
  have body: "triple (base fs0) (andThen (fs_call (ae_files env) (fs_create temp 384)) (\<lambda>handle.
        andThen (fs_write (ae_files env) handle data) (\<lambda>_.
        andThen (fs_wait (ae_files env)) (\<lambda>_.
        andThen (fs_wait (ae_files env)) (\<lambda>_.
        link_installed env temp p))))) ?Q (\<lambda>_. base fs0)" if temp: "temp = temporary_name env p n" for temp n
  proof -
    have create: "triple (base fs0) (fs_call (ae_files env) (fs_create temp 384)) (owned fs0 temp) (\<lambda>_. base fs0)"
      by (rule triple_call [OF stable_base [OF assms(1)]])
        (auto simp: temp dest: create_owned [OF _ hid] simp: fs_create_def split: option.splits)
    have "triple (owned fs0 temp k) (fs_write (ae_files env) k data) (\<lambda>_ fs. owned fs0 temp k fs \<and> fs_bytes fs k = data) (\<lambda>_. base fs0)" for k
      by (rule triple_write [OF stable_owned(1) [OF assms(1) temp], where R = "owned fs0 temp k"])
        (auto intro: base_bytes dest: owned_base)
    moreover have "triple (\<lambda>fs. owned fs0 temp k fs \<and> fs_bytes fs k = data) (fs_wait (ae_files env))
        (\<lambda>_ fs. owned fs0 temp k fs \<and> fs_bytes fs k = data) (\<lambda>_. base fs0)" for k
      by (rule triple_weaken [OF triple_wait [OF stable_owned(2) [OF assms(1) temp]]]) (auto simp: owned_def)
    ultimately show ?thesis
      by (intro triple_andThen [OF create] triple_andThen) (assumption | rule link_installed_holds [OF assms(1) temp assms(2)])+
  qed
  have remove: "triple (?Q r) (andThen (attempt (fs_call (ae_files env) (fs_rm temp))) (\<lambda>_. ok ())) (\<lambda>_. ?Q r) E"
    if "temp = temporary_name env p n" for r temp n E
  proof -
    have "stable (ae_files env) (?Q r)"
      using stable_base [OF assms(1), of fs0] stable_holds [OF assms, of fs0 data] by (auto simp: stable_def)
    moreover have "temp \<noteq> p" using hid [of p n] assms(2) that by auto
    ultimately have "triple (?Q r) (fs_call (ae_files env) (fs_rm temp)) (\<lambda>_. ?Q r) (\<lambda>_. ?Q r)"
      using that hid by (intro triple_call) (auto simp: fs_rm_def holds_def intro: base_unlink)
    from triple_attempt [OF this] show ?thesis by (rule triple_andThen) (simp add: triple_basic split: sum.split)
  qed
  have remove': "triple (base fs0) (andThen (attempt (fs_call (ae_files env) (fs_rm temp))) (\<lambda>_. ok ())) (\<lambda>_. base fs0) E"
    if "temp = temporary_name env p n" for temp n E
    using remove [OF that, of Exists E] by simp
  have "triple (base fs0) (query (\<lambda>s. temporary_name env p (dk_tick s))) (\<lambda>temp fs. base fs0 fs \<and> (\<exists>n. temp = temporary_name env p n)) (\<lambda>_. base fs0)"
    by (rule triple_basic) auto
  then have rest: "triple (base fs0) (andThen (query (\<lambda>s. temporary_name env p (dk_tick s))) (\<lambda>temp. with_cleanup
       (andThen (fs_call (ae_files env) (fs_create temp 384)) (\<lambda>handle.
        andThen (fs_write (ae_files env) handle data) (\<lambda>_.
        andThen (fs_wait (ae_files env)) (\<lambda>_.
        andThen (fs_wait (ae_files env)) (\<lambda>_.
        link_installed env temp p)))))
       (andThen (attempt (fs_call (ae_files env) (fs_rm temp))) (\<lambda>_. ok ())))) ?Q (\<lambda>_. base fs0)"
  proof (rule triple_andThen)
    fix temp
    show "triple (\<lambda>fs. base fs0 fs \<and> (\<exists>n. temp = temporary_name env p n)) (with_cleanup
       (andThen (fs_call (ae_files env) (fs_create temp 384)) (\<lambda>handle.
        andThen (fs_write (ae_files env) handle data) (\<lambda>_.
        andThen (fs_wait (ae_files env)) (\<lambda>_.
        andThen (fs_wait (ae_files env)) (\<lambda>_.
        link_installed env temp p)))))
       (andThen (attempt (fs_call (ae_files env) (fs_rm temp))) (\<lambda>_. ok ()))) ?Q (\<lambda>_. base fs0)"
    proof (cases "\<exists>n. temp = temporary_name env p n")
      case True
      then obtain n where n: "temp = temporary_name env p n" ..
      show ?thesis
        by (rule triple_weaken [OF triple_with_cleanup [OF body [OF n] remove [OF n] remove' [OF n]]]) auto
    qed (auto simp: triple_def)
  qed
  show ?thesis unfolding installExclusiveFile_def by (rule triple_andThen [OF wait_base [OF assms(1)] rest])
qed

subsection \<open>The store\<close>

lemma atomicWriteFile_holds:
  assumes "considerate env" and "\<not> hidden p"
  shows "triple (base fs0) (atomicWriteFile env p data) (\<lambda>_ fs. base fs0 fs \<and> holds p data fs) (\<lambda>_. base fs0)"
proof -
  have "triple (base fs0) (andThen (readRegularFile env p) (\<lambda>existing.
       andThen (require (existing = data) e) (\<lambda>_.
       fs_call (ae_files env) (fs_chmod p mode)))) (\<lambda>_ fs. base fs0 fs \<and> holds p data fs) (\<lambda>_. base fs0)" for e mode
  proof (rule triple_andThen [OF readRegularFile_holds [OF assms]], rule triple_andThen)
    show "triple (\<lambda>fs. base fs0 fs \<and> holds p existing fs) (require (existing = data) e) (\<lambda>_ fs. base fs0 fs \<and> holds p data fs) (\<lambda>_. base fs0)" for existing
      by (rule triple_require) auto
  qed (rule chmod_holds [OF assms])
  note checked = this
  show ?thesis
    unfolding atomicWriteFile_def
  proof (rule triple_andThen [OF installExclusiveFile_holds [OF assms]])
    fix r
    show "triple (\<lambda>fs. base fs0 fs \<and> (r = Created \<longrightarrow> holds p data fs)) (if r = Created then ok () else
       andThen (readRegularFile env p) (\<lambda>existing.
       andThen (require (existing = data) (conflict_on p ''Artifact bytes must be identical for immutable path: '')) (\<lambda>_.
       fs_call (ae_files env) (fs_chmod p IMMUTABLE_FILE_MODE)))) (\<lambda>_ fs. base fs0 fs \<and> holds p data fs) (\<lambda>_. base fs0)"
      by (rule triple_if) (auto intro: triple_ok triple_weaken [OF checked])
  qed
qed

lemma parseMetadata_base: "triple P (parseMetadata env p content) (\<lambda>_. P) (\<lambda>_. P)"
  unfolding parseMetadata_def by (intro triple_andThen triple_basic)

lemma assertMetadataMatches_spec:
  "triple P (assertMetadataMatches actual expected) (\<lambda>_ fs. P fs \<and> actual\<lparr>am_createdAt := []\<rparr> = expected\<lparr>am_createdAt := []\<rparr>) (\<lambda>_. P)"
  unfolding assertMetadataMatches_def by (rule triple_require) auto

lemma readStoredMetadata_base:
  assumes "considerate env" and "\<not> hidden p"
  shows "triple (base fs0) (readStoredMetadata env p) (\<lambda>_. base fs0) (\<lambda>_. base fs0)"
  unfolding readStoredMetadata_def
  by (rule triple_andThen [OF triple_weaken [OF readRegularFile_holds [OF assms]] parseMetadata_base]) auto

text \<open>What a returned metadata record says of the files: the bytes are under its path, and it describes them.\<close>

definition describes :: "artifact_metadata \<Rightarrow> artifact_metadata \<Rightarrow> string \<Rightarrow> files \<Rightarrow> bool" where
  "describes m im data fs \<longleftrightarrow> m\<lparr>am_createdAt := []\<rparr> = im\<lparr>am_createdAt := []\<rparr> \<and> holds (am_path im) data fs"

lemma confirm_prior_spec:
  assumes "considerate env" and "\<not> hidden (am_path im)"
  shows "triple (base fs0) (confirm_prior env im data prior) (\<lambda>m fs. base fs0 fs \<and> describes m im data fs) (\<lambda>_. base fs0)"
  unfolding confirm_prior_def
proof (rule triple_andThen [OF assertMetadataMatches_spec], rule triple_andThen)
  let ?same = "prior\<lparr>am_createdAt := []\<rparr> = im\<lparr>am_createdAt := []\<rparr>"
  show "triple (\<lambda>fs. base fs0 fs \<and> ?same) (readRegularFile env (am_path im))
     (\<lambda>bytes fs. base fs0 fs \<and> holds (am_path im) bytes fs \<and> ?same) (\<lambda>_. base fs0)"
    using readRegularFile_holds [OF assms, of fs0] by (cases ?same) (simp_all add: triple_def)
  show "triple (\<lambda>fs. base fs0 fs \<and> holds (am_path im) existing fs \<and> ?same)
     (andThen (require (existing = data) (conflict_on (am_path im) msg)) (\<lambda>_. ok prior))
     (\<lambda>m fs. base fs0 fs \<and> describes m im data fs) (\<lambda>_. base fs0)" for existing msg
    by (rule triple_andThen [where Q = "\<lambda>_ fs. base fs0 fs \<and> describes prior im data fs"])
      (auto intro!: triple_require triple_ok simp: describes_def)
qed

lemma triple_frame_holds:
  assumes "\<And>fs1. triple (base fs1) m (\<lambda>x fs. base fs1 fs \<and> Q x fs) (\<lambda>_. base fs1)" and "\<not> hidden p"
  shows "triple (\<lambda>fs. base fs0 fs \<and> holds p data fs) m (\<lambda>x fs. base fs0 fs \<and> holds p data fs \<and> Q x fs) (\<lambda>_. base fs0)"
  unfolding triple_def
proof (intro allI impI)
  fix s :: disk assume s: "base fs0 (dk_files s) \<and> holds p data (dk_files s)"
  then have "base (dk_files s) (dk_files s)" by (simp add: base_def evidence.refl)
  note m = assms(1) [of "dk_files s", unfolded triple_def, rule_format, OF this]
  have up: "base fs0 fs \<and> holds p data fs" if "base (dk_files s) fs" for fs
    using s that assms(2) unfolding base_def by (blast intro: evidence.trans holds_kept)
  obtain r t where r: "m s = (r, t)" by (cases "m s")
  show "case m s of (Inr x, t) \<Rightarrow> base fs0 (dk_files t) \<and> holds p data (dk_files t) \<and> Q x (dk_files t) | (Inl e, t) \<Rightarrow> base fs0 (dk_files t)"
    using m up [of "dk_files t"] r by (cases r) simp_all
qed

lemma install_new_spec:
  assumes "considerate env" and "\<not> hidden (am_path im)" and "\<not> hidden (am_metadataPath im)"
  shows "triple (base fs0) (install_new env im data) (\<lambda>m fs. base fs0 fs \<and> describes m im data fs) (\<lambda>_. base fs0)"
proof -
  let ?P = "\<lambda>fs. base fs0 fs \<and> holds (am_path im) data fs"
  have install: "triple ?P (installExclusiveFile env (am_metadataPath im) content) (\<lambda>_. ?P) (\<lambda>_. base fs0)" for content
    by (rule triple_weaken [OF triple_frame_holds [OF installExclusiveFile_holds [OF assms(1,3)] assms(2)]]) auto
  have read: "triple ?P (readStoredMetadata env (am_metadataPath im)) (\<lambda>_. ?P) (\<lambda>_. base fs0)"
    by (rule triple_weaken [OF triple_frame_holds [where Q = "\<lambda>_ _. True", OF _ assms(2)]])
      (auto intro: triple_weaken [OF readStoredMetadata_base [OF assms(1,3)]])
  have "triple (\<lambda>fs. ?P fs \<and> (\<exists>c. m = im\<lparr>am_createdAt := c\<rparr>)) (andThen (installExclusiveFile env (am_metadataPath m) content) (\<lambda>st.
     if st = Created then ok m
     else andThen (readStoredMetadata env (am_metadataPath m)) (\<lambda>winner. andThen (assertMetadataMatches winner im) (\<lambda>_. ok winner))))
     (\<lambda>m fs. base fs0 fs \<and> describes m im data fs) (\<lambda>_. base fs0)" for m content
  proof (cases "\<exists>c. m = im\<lparr>am_createdAt := c\<rparr>")
    case True
    then have m: "am_metadataPath m = am_metadataPath im" "m\<lparr>am_createdAt := []\<rparr> = im\<lparr>am_createdAt := []\<rparr>" by auto
    have "triple ?P (assertMetadataMatches w im) (\<lambda>_ fs. base fs0 fs \<and> describes w im data fs) (\<lambda>_. base fs0)" for w
      by (rule triple_weaken [OF assertMetadataMatches_spec [where P = ?P]]) (auto simp: describes_def)
    then have "triple ?P (andThen (assertMetadataMatches w im) (\<lambda>_. ok w)) (\<lambda>m fs. base fs0 fs \<and> describes m im data fs) (\<lambda>_. base fs0)" for w
      by (rule triple_andThen) (rule triple_ok)
    with read have "triple ?P (andThen (readStoredMetadata env (am_metadataPath im)) (\<lambda>winner. andThen (assertMetadataMatches winner im) (\<lambda>_. ok winner)))
        (\<lambda>m fs. base fs0 fs \<and> describes m im data fs) (\<lambda>_. base fs0)" by (rule triple_andThen)
    then have "triple ?P (if st = Created then ok m
       else andThen (readStoredMetadata env (am_metadataPath im)) (\<lambda>winner. andThen (assertMetadataMatches winner im) (\<lambda>_. ok winner)))
        (\<lambda>m fs. base fs0 fs \<and> describes m im data fs) (\<lambda>_. base fs0)" for st
      by (intro triple_if triple_ok) (simp_all add: describes_def m(2))
    from triple_andThen [OF install this] show ?thesis
      unfolding m(1) by (rule triple_weaken) auto
  qed (auto simp: triple_def)
  note sidecar = this
  have "triple ?P (query (\<lambda>s. im\<lparr>am_createdAt := ae_now env (dk_tick s)\<rparr>)) (\<lambda>m fs. ?P fs \<and> (\<exists>c. m = im\<lparr>am_createdAt := c\<rparr>)) (\<lambda>_. base fs0)"
    by (rule triple_query) auto
  from triple_andThen [OF this sidecar] show ?thesis
    unfolding install_new_def by (rule triple_andThen [OF atomicWriteFile_holds [OF assms(1,2)]])
qed

lemma triple_segment:
  assumes "SAFE_SEGMENT v \<Longrightarrow> triple P (f v) Q E" and "\<And>e fs. P fs \<Longrightarrow> E e fs"
  shows "triple P (andThen (assertSafePathSegment v label) f) Q E"
  using assms by (auto simp: assertSafePathSegment_def triple_def andThen_def ok_def fail_def)

lemma assertContained_base: "triple P (assertContained root p) (\<lambda>_. P) (\<lambda>_. P)"
  unfolding assertContained_def by (rule triple_require)

lemma realpath_base: "considerate env \<Longrightarrow> triple (base fs0) (fs_realpath env p) (\<lambda>_. base fs0) (\<lambda>_. base fs0)"
  unfolding fs_realpath_def by (rule read_only_base) (simp_all split: option.split)

lemma ensureRoot_base: "considerate env \<Longrightarrow> triple (base fs0) (ensureRoot env store) (\<lambda>_. base fs0) (\<lambda>_. base fs0)"
  unfolding ensureRoot_def by (intro triple_seq wait_base realpath_base assertContained_base triple_ok)

lemma prepareRunDirectory_base:
  "considerate env \<Longrightarrow> triple (base fs0) (prepareRunDirectory env store t r) (\<lambda>_. base fs0) (\<lambda>_. base fs0)"
  unfolding prepareRunDirectory_def
  by (intro triple_segment triple_seq ensureRoot_base wait_base realpath_base assertContained_base triple_ok)

text \<open>The metadata of a write: it names the request and describes the bytes.\<close>

definition evidence_for :: "artifact_env \<Rightarrow> artifact_write \<Rightarrow> artifact_metadata \<Rightarrow> bool" where
  "evidence_for env input m \<longleftrightarrow> am_taskId m = aw_taskId input \<and> am_runId m = aw_runId input \<and> am_kind m = aw_kind input
     \<and> am_name m = aw_name input \<and> am_sha256 m = ae_sha256 env (aw_data input) \<and> am_sizeBytes m = int (length (aw_data input))
     \<and> \<not> hidden (am_path m)"

lemma store_evidence_spec:
  assumes "considerate env" and "evidence_for env input im" and "\<not> hidden (am_metadataPath im)"
  shows "triple (base fs0) (store_evidence env im (aw_data input))
    (\<lambda>m fs. base fs0 fs \<and> holds (am_path m) (aw_data input) fs \<and> evidence_for env input m) (\<lambda>_. base fs0)"
proof -
  let ?Q = "\<lambda>m fs. base fs0 fs \<and> holds (am_path m) (aw_data input) fs \<and> evidence_for env input m"
  have path: "\<not> hidden (am_path im)" using assms(2) by (simp add: evidence_for_def)
  have desc: "evidence_for env input m \<and> am_path m = am_path im" if "m\<lparr>am_createdAt := []\<rparr> = im\<lparr>am_createdAt := []\<rparr>" for m
    using assms(2) that by (cases m; cases im) (simp add: evidence_for_def)
  have "triple (base fs0) (case prior of
       Inr priorMetadata \<Rightarrow> confirm_prior env im (aw_data input) priorMetadata
     | Inl e \<Rightarrow> if is_errno ''ENOENT'' e then install_new env im (aw_data input) else fail e) (\<lambda>m fs. base fs0 fs \<and> describes m im (aw_data input) fs) (\<lambda>_. base fs0)" for prior
    using confirm_prior_spec [OF assms(1) path] install_new_spec [OF assms(1) path assms(3)] by (cases prior) (auto intro: triple_fail)
  then have "triple (base fs0) (case prior of
       Inr priorMetadata \<Rightarrow> confirm_prior env im (aw_data input) priorMetadata
     | Inl e \<Rightarrow> if is_errno ''ENOENT'' e then install_new env im (aw_data input) else fail e) ?Q (\<lambda>_. base fs0)" for prior
    by (rule triple_weaken) (auto simp: describes_def dest: desc)
  moreover have "triple (base fs0) (attempt (readStoredMetadata env (am_metadataPath im))) (\<lambda>_. base fs0) (\<lambda>_. base fs0)"
    by (rule triple_weaken [OF triple_attempt [OF readStoredMetadata_base [OF assms(1,3)]]]) (auto split: sum.splits)
  ultimately show ?thesis unfolding store_evidence_def by (intro triple_seq)
qed

lemma write_artifact_spec:
  assumes "considerate env"
  shows "triple (base fs0) (write_artifact env store input)
    (\<lambda>m fs. base fs0 fs \<and> holds (am_path m) (aw_data input) fs \<and> evidence_for env input m) (\<lambda>_. base fs0)"
proof -
  have im: "evidence_for env input (immutable_metadata env input realHome (d @ ''/'' @ aw_name input))"
    "\<not> hidden (am_metadataPath (immutable_metadata env input realHome (d @ ''/'' @ aw_name input)))"
    if "SAFE_SEGMENT (aw_name input)" for realHome d
    using artifact_visible [OF that] by (simp_all add: immutable_metadata_def evidence_for_def)
  show ?thesis
    unfolding write_artifact_def Let_def
    by (intro triple_segment triple_seq prepareRunDirectory_base realpath_base assertContained_base store_evidence_spec im assms)
qed

lemma write_keeps_evidence:
  assumes "considerate env" and "files_ok (dk_files s)"
  shows "evidence_kept (dk_files s) (dk_files (snd (write_artifact env store input s)))"
    and "files_ok (dk_files (snd (write_artifact env store input s)))"
proof -
  have "base (dk_files s) (dk_files s)" using assms(2) by (simp add: base_def evidence.refl)
  note spec = write_artifact_spec [OF assms(1), of "dk_files s" store input, unfolded triple_def, rule_format, OF this]
  obtain r t where "write_artifact env store input s = (r, t)" by (cases "write_artifact env store input s")
  with spec show "evidence_kept (dk_files s) (dk_files (snd (write_artifact env store input s)))"
    "files_ok (dk_files (snd (write_artifact env store input s)))" by (cases r; simp add: base_def)+
qed


subsection \<open>A store at work\<close>

definition demo_digest :: string where
  "demo_digest = replicate 64 (CHR ''0'')"

definition demo_input :: artifact_write where
  "demo_input = \<lparr>aw_taskId = ''a'', aw_runId = ''r'', aw_kind = KDiff, aw_name = ''diff.patch'', aw_data = ''x''\<rparr>"

definition demo_metadata :: artifact_metadata where
  "demo_metadata = \<lparr>am_taskId = ''a'', am_runId = ''r'', am_kind = KDiff, am_name = ''diff.patch'', am_path = ''/h/artifacts/a/r/diff.patch'',
     am_relativePath = ''artifacts/a/r/diff.patch'', am_metadataPath = ''/h/artifacts/a/r/diff.patch.metadata.json'',
     am_sha256 = demo_digest, am_sizeBytes = 1, am_createdAt = ''1''\<rparr>"

definition demo_artifact_env :: artifact_env where
  "demo_artifact_env = \<lparr>ae_files = \<lparr>fe_other = (\<lambda>_ fs. fs), fe_fault = (\<lambda>_. None), fe_written = (\<lambda>_. 0)\<rparr>, ae_pid = ''7'',
     ae_uuid = (\<lambda>n. replicate n (CHR ''u'')), ae_now = (\<lambda>_. ''1''), ae_sha256 = (\<lambda>_. demo_digest), ae_realpath = (\<lambda>p _. Some p),
     ae_print = (\<lambda>_. ''{}''), ae_parse = (\<lambda>_. Some (metadata_json demo_metadata)), ae_date = (\<lambda>_. True)\<rparr>"

definition demo_store :: artifact_store where
  "demo_store = \<lparr>st_home = ''/h'', st_root = ''/h/artifacts''\<rparr>"

definition empty_disk :: disk where
  "empty_disk = \<lparr>dk_files = \<lparr>fs_names = (\<lambda>_. None), fs_bytes = (\<lambda>_. []), fs_mode = (\<lambda>_. 0), fs_next = 0\<rparr>, dk_tick = 0\<rparr>"

lemma demo_written: "fst (write_artifact demo_artifact_env demo_store demo_input empty_disk) = Inr demo_metadata"
  by code_simp

lemma demo_written_again:
  "fst (write_artifact demo_artifact_env demo_store demo_input (snd (write_artifact demo_artifact_env demo_store demo_input empty_disk)))
    = Inr demo_metadata"
  by code_simp

lemma demo_considerate: "considerate demo_artifact_env"
  by (simp add: considerate_def plain_names_def demo_artifact_env_def undisturbed_def evidence.refl)


end
