(* ===== verification/DaemonLease.thy ===== *)
theory DaemonLease
  imports Files DaemonRoutes
begin

text \<open>
  \<open>src/daemon-lease.ts\<close>: the lease file that lets one daemon run on a home directory, and the file of its bearer
  token. JSON, the clock, randomness and the probe of a process (\<open>process.kill(pid, 0)\<close>) are arguments.
\<close>

subsection \<open>Records\<close>

record lease_record =
  lr_pid :: int
  lr_instanceToken :: string
  lr_acquiredAt :: string

record lease_env =
  le_files :: files_env
  le_kill :: "nat \<Rightarrow> int \<Rightarrow> string option"
  le_now :: string
  le_random :: string
  le_sha256 :: "string \<Rightarrow> string"
  le_print :: "json \<Rightarrow> string"
  le_parse :: "string \<Rightarrow> json option"
  le_date :: "string \<Rightarrow> bool"
  le_owns :: "nat \<Rightarrow> bool"

datatype lease_error = LeaseFile file_error | LeaseHeld lease_record | LeaseOwnership string

type_synonym 'a lease_op = "(lease_error, disk, 'a) eff"

definition on_files :: "'a fop \<Rightarrow> 'a lease_op" where
  "on_files m s = (case m s of (r, t) \<Rightarrow> (map_sum LeaseFile id r, t))"

record daemon_lease =
  dl_path :: string
  dl_record :: lease_record
  dl_reclaimed :: "lease_record option"

definition base64url :: "nat \<Rightarrow> string \<Rightarrow> bool" where
  "base64url n s \<longleftrightarrow> length s = n \<and> list_all (\<lambda>c. alnum c \<or> c = CHR ''_'' \<or> c = CHR ''-'') s"

definition lease_json :: "lease_record \<Rightarrow> json" where
  "lease_json r = JObj [(''version'', JNum 1), (''pid'', JNum (lr_pid r)), (''instanceToken'', JStr (lr_instanceToken r)),
     (''acquiredAt'', JStr (lr_acquiredAt r))]"

definition parseLeaseRecord :: "lease_env \<Rightarrow> string \<Rightarrow> string \<Rightarrow> lease_record fop" where
  "parseLeaseRecord env path content =
     (let invalid = FileError (''Daemon lease has an invalid record: '' @ path) in
      andThen (orThrow (FileError (''Daemon lease is not valid JSON: '' @ path)) (le_parse env content)) (\<lambda>parsed.
      andThen (require (is_json_object parsed) invalid) (\<lambda>_.
      case (json_field ''version'' parsed, json_field ''pid'' parsed, json_field ''instanceToken'' parsed, json_field ''acquiredAt'' parsed) of
        (Some (JNum version), Some (JNum pid), Some (JStr token), Some (JStr at)) \<Rightarrow>
          if version = 1 \<and> is_safe_int pid \<and> 1 < pid \<and> base64url 43 token \<and> le_date env at
          then ok \<lparr>lr_pid = pid, lr_instanceToken = token, lr_acquiredAt = at\<rparr> else fail invalid
      | _ \<Rightarrow> fail invalid)))"

subsection \<open>Secure files\<close>

definition FILE_MODE :: int where
  "FILE_MODE = 384"

text \<open>\<open>handle.stat()\<close>: what is open, its permission bits, and whether it belongs to this user.\<close>

definition assertPrivateRegularFile :: "lease_env \<Rightarrow> string \<Rightarrow> fnode \<Rightarrow> files \<Rightarrow> (file_error + nat) \<times> files" where
  "assertPrivateRegularFile env path node fs = (case node of
       Regular n \<Rightarrow>
         if fs_mode fs n mod 512 \<noteq> FILE_MODE then (Inl (FileError (''Secure daemon file must have mode 0600: '' @ path)), fs)
         else if \<not> le_owns env n then (Inl (FileError (''Secure daemon file is not owned by the current user: '' @ path)), fs)
         else (Inr n, fs)
     | _ \<Rightarrow> (Inl (FileError (''Secure daemon file must be a regular file: '' @ path)), fs))"

definition readSecureText :: "lease_env \<Rightarrow> string \<Rightarrow> string fop" where
  "readSecureText env path =
     andThen (fs_call (le_files env) (fs_open path)) (\<lambda>node.
     with_cleanup
       (andThen (fs_call (le_files env) (assertPrivateRegularFile env path node)) (\<lambda>handle.
        fs_call (le_files env) (fs_read handle)))
       (fs_wait (le_files env)))"

definition readLeaseRecord :: "lease_env \<Rightarrow> string \<Rightarrow> lease_record fop" where
  "readLeaseRecord env path = andThen (readSecureText env path) (parseLeaseRecord env path)"

definition fs_fchmod :: "nat \<Rightarrow> int \<Rightarrow> (file_error, files, unit) eff" where
  "fs_fchmod handle mode fs = (Inr (), fs\<lparr>fs_mode := (fs_mode fs)(handle := mode)\<rparr>)"

definition writeExclusive :: "lease_env \<Rightarrow> string \<Rightarrow> string \<Rightarrow> unit fop" where
  "writeExclusive env path contents =
     andThen (fs_call (le_files env) (fs_create path FILE_MODE)) (\<lambda>handle.
     andThen (attempt
       (andThen (fs_call (le_files env) (fs_fchmod handle FILE_MODE)) (\<lambda>_.
        andThen (fs_write (le_files env) handle contents) (\<lambda>_.
        fs_wait (le_files env))))) (\<lambda>outcome.
     andThen (fs_wait (le_files env)) (\<lambda>_. case outcome of
       Inr _ \<Rightarrow> ok ()
     | Inl e \<Rightarrow> andThen (attempt (fs_call (le_files env) (fs_rm path))) (\<lambda>_. fail e))))"

subsection \<open>The lease\<close>

definition processIsAlive :: "lease_env \<Rightarrow> int \<Rightarrow> bool fop" where
  "processIsAlive env pid s = (case le_kill env (dk_tick s) pid of
       None \<Rightarrow> (Inr True, s)
     | Some code \<Rightarrow> if code = ''ESRCH'' then (Inr False, s) else if code = ''EPERM'' then (Inr True, s) else (Inl (Errno code), s))"

definition same_lease :: "lease_env \<Rightarrow> lease_record \<Rightarrow> lease_record \<Rightarrow> bool" where
  "same_lease env a b \<longleftrightarrow> lr_pid a = lr_pid b \<and> secureTokenEquals (le_sha256 env) (lr_instanceToken a) (lr_instanceToken b)"

text \<open>\<open>rm(path)\<close>, which fails when there is nothing to remove.\<close>

definition fs_unlink :: "string \<Rightarrow> (file_error, files, unit) eff" where
  "fs_unlink path fs = (if fs_names fs path = None then (Inl (Errno ''ENOENT''), fs) else fs_rm path fs)"

definition MAX_ACQUIRE_ATTEMPTS :: nat where
  "MAX_ACQUIRE_ATTEMPTS = 16"

text \<open>The attempt after the file was found: \<open>Some\<close> the record that was removed, \<open>None\<close> when it had changed.\<close>

definition reclaim_stale :: "lease_env \<Rightarrow> string \<Rightarrow> lease_record option lease_op" where
  "reclaim_stale env path =
     andThen (on_files (readLeaseRecord env path)) (\<lambda>observed.
     andThen (on_files (processIsAlive env (lr_pid observed))) (\<lambda>alive.
     andThen (require (\<not> alive) (LeaseHeld observed)) (\<lambda>_.
     andThen (on_files (readLeaseRecord env path)) (\<lambda>current.
     if \<not> same_lease env current observed then ok None
     else
       andThen (on_files (attempt (fs_call (le_files env) (fs_unlink path)))) (\<lambda>removed. case removed of
         Inl e \<Rightarrow> if is_errno ''ENOENT'' e then ok (Some observed) else fail (LeaseFile e)
       | Inr _ \<Rightarrow> ok (Some observed))))))"

text \<open>What is written: the record and a line end.\<close>

definition lease_text :: "lease_env \<Rightarrow> lease_record \<Rightarrow> string" where
  "lease_text env lease = le_print env (lease_json lease) @ newline"

primrec acquire_attempts :: "nat \<Rightarrow> lease_env \<Rightarrow> string \<Rightarrow> lease_record \<Rightarrow> lease_record option \<Rightarrow> daemon_lease lease_op" where
  "acquire_attempts 0 env path lease reclaimed =
     fail (LeaseFile (FileError ''Could not acquire daemon lease after concurrent stale reclamation''))"
| "acquire_attempts (Suc n) env path lease reclaimed =
     andThen (on_files (attempt (writeExclusive env path (lease_text env lease)))) (\<lambda>written. case written of
       Inr _ \<Rightarrow> ok \<lparr>dl_path = path, dl_record = lease, dl_reclaimed = reclaimed\<rparr>
     | Inl e \<Rightarrow>
         if \<not> is_errno ''EEXIST'' e then fail (LeaseFile e)
         else
           andThen (reclaim_stale env path) (\<lambda>removed. case removed of
             None \<Rightarrow> acquire_attempts n env path lease reclaimed
           | Some observed \<Rightarrow> acquire_attempts n env path lease (Some observed)))"

definition ensurePrivateHome :: "lease_env \<Rightarrow> unit fop" where
  "ensurePrivateHome env = andThen (fs_wait (le_files env)) (\<lambda>_. fs_wait (le_files env))"

text \<open>\<open>home\<close> is the resolved directory.\<close>

definition acquireDaemonLease :: "lease_env \<Rightarrow> string \<Rightarrow> int \<Rightarrow> string option \<Rightarrow> daemon_lease lease_op" where
  "acquireDaemonLease env home pid instanceToken =
     andThen (on_files (ensurePrivateHome env)) (\<lambda>_.
     andThen (require (is_safe_int pid \<and> 1 < pid) (LeaseFile (FileError ''Daemon lease PID must be a safe integer greater than 1''))) (\<lambda>_.
     let token = (case instanceToken of None \<Rightarrow> le_random env | Some t \<Rightarrow> t) in
     andThen (require (base64url 43 token) (LeaseFile (FileError ''Daemon lease instance token must contain 256 bits of base64url data''))) (\<lambda>_.
     acquire_attempts MAX_ACQUIRE_ATTEMPTS env (home @ ''/daemon.lock'') \<lparr>lr_pid = pid, lr_instanceToken = token, lr_acquiredAt = le_now env\<rparr> None)))"

text \<open>\<open>release\<close>; \<open>released\<close> is set once it has returned.\<close>

definition releaseLease :: "lease_env \<Rightarrow> daemon_lease \<Rightarrow> bool \<Rightarrow> unit lease_op" where
  "releaseLease env lease released =
     (if released then ok ()
      else
        andThen (on_files (attempt (readLeaseRecord env (dl_path lease)))) (\<lambda>current. case current of
          Inl e \<Rightarrow> if is_errno ''ENOENT'' e then ok () else fail (LeaseFile e)
        | Inr current \<Rightarrow>
            andThen (require (same_lease env current (dl_record lease)) (LeaseOwnership (dl_path lease))) (\<lambda>_.
            on_files (fs_call (le_files env) (fs_unlink (dl_path lease))))))"

subsection \<open>The bearer token\<close>

text \<open>43 characters of six bits make 32 bytes.\<close>

definition parseBearerToken :: "string \<Rightarrow> string \<Rightarrow> string fop" where
  "parseBearerToken path content =
     (let token = trim content in
      if base64url 43 token \<and> length token * 6 div 8 = 32 then ok token
      else fail (FileError (''Daemon bearer token is not 256-bit base64url data: '' @ path)))"

definition loadBearerTokenFile :: "lease_env \<Rightarrow> string \<Rightarrow> (string \<times> string) fop" where
  "loadBearerTokenFile env path =
     andThen (readSecureText env path) (\<lambda>content.
     andThen (parseBearerToken path content) (\<lambda>token.
     ok (path, token)))"

definition loadOrCreateBearerToken :: "lease_env \<Rightarrow> string \<Rightarrow> (string \<times> string) fop" where
  "loadOrCreateBearerToken env home =
     (let path = home @ ''/daemon.token'' in
      andThen (ensurePrivateHome env) (\<lambda>_.
      andThen (attempt (writeExclusive env path (le_random env @ newline))) (\<lambda>written. case written of
        Inr _ \<Rightarrow> ok (path, le_random env)
      | Inl e \<Rightarrow> if is_errno ''EEXIST'' e then loadBearerTokenFile env path else fail e)))"

end
