(* ===== verification/LeaseFacts.thy ===== *)
theory LeaseFacts
  imports DaemonLease
begin

text \<open>
  What the lease guarantees: the daemon that acquired it left its record in the lease file, and as long as its process
  lives and others leave that file alone, no other daemon acquires it. The hypothesis on the others is needed: the last
  lemma is a run in which a slow reclaimer removes the lease of a living daemon.
\<close>

subsection \<open>The file of a held lease\<close>

definition private_file :: "string \<Rightarrow> nat \<Rightarrow> string \<Rightarrow> int \<Rightarrow> files \<Rightarrow> bool" where
  "private_file path n content mode fs \<longleftrightarrow> fs_names fs path = Some (Regular n) \<and> fs_bytes fs n = content \<and> fs_mode fs n = mode"

abbreviation lease_file :: "string \<Rightarrow> nat \<Rightarrow> string \<Rightarrow> files \<Rightarrow> bool" where
  "lease_file path n content \<equiv> private_file path n content FILE_MODE"

text \<open>Other processes never touch the file under this name.\<close>

definition left_alone :: "lease_env \<Rightarrow> string \<Rightarrow> bool" where
  "left_alone env path \<longleftrightarrow> (\<forall>n content mode. stable (le_files env) (private_file path n content mode))"

text \<open>The text is a record that this daemon's checks accept.\<close>

definition accepted_record :: "lease_env \<Rightarrow> string \<Rightarrow> lease_record \<Rightarrow> bool" where
  "accepted_record env content r \<longleftrightarrow> le_parse env content = Some (lease_json r) \<and> is_safe_int (lr_pid r) \<and> 1 < lr_pid r
     \<and> base64url 43 (lr_instanceToken r) \<and> le_date env (lr_acquiredAt r) \<and> (\<forall>n. le_owns env n)"

definition lives :: "lease_env \<Rightarrow> int \<Rightarrow> bool" where
  "lives env pid \<longleftrightarrow> (\<forall>k. le_kill env k pid = None \<or> le_kill env k pid = Some ''EPERM'')"

lemma left_alone_stable: "left_alone env path \<Longrightarrow> stable (le_files env) (private_file path n content mode)"
  by (simp add: left_alone_def)

lemma parse_readable: "accepted_record env content r \<Longrightarrow> parseLeaseRecord env path content s = (Inr r, s)"
  unfolding parseLeaseRecord_def Let_def
  by (simp add: accepted_record_def lease_json_def andThen_def orThrow_def require_def is_json_object_def ok_def)

lemma alive_lives: "lives env pid \<Longrightarrow> processIsAlive env pid s = (Inr True, s)"
  unfolding lives_def processIsAlive_def by (elim allE [of _ "dk_tick s"]) auto

subsection \<open>Rules\<close>

lemma triple_on_files:
  assumes "triple P m Q (\<lambda>e. E (LeaseFile e))"
  shows "triple P (on_files m) Q E"
  unfolding triple_def
proof (intro allI impI)
  fix s :: disk assume P: "P (dk_files s)"
  obtain r t where m: "m s = (r, t)" by (cases "m s")
  with tripleD [OF assms P] tripleD_error [OF assms P]
  show "case on_files m s of (Inl e, t) \<Rightarrow> E e (dk_files t) | (Inr x, t) \<Rightarrow> Q x (dk_files t)"
    by (cases r) (simp_all add: on_files_def)
qed

lemma triple_false: "triple (\<lambda>_. False) m Q E"
  by (simp add: triple_def)

lemma triple_pure: "(\<And>s. m s = (Inr x, s)) \<Longrightarrow> triple P m (\<lambda>y fs. y = x \<and> P fs) E"
  by (simp add: triple_def)

lemma triple_given: "(b \<Longrightarrow> triple P m Q E) \<Longrightarrow> triple (\<lambda>fs. b \<and> P fs) m Q E"
  by (simp add: triple_def)

text \<open>A call that reads the file and leaves it as it is.\<close>

lemma triple_reads:
  assumes "stable env P" and "\<And>fs. P fs \<Longrightarrow> m fs = (Inr x, fs)"
  shows "triple P (fs_call env m) (\<lambda>y fs. y = x \<and> P fs) (\<lambda>_. P)"
  using assms by (intro triple_call) auto

subsection \<open>A held lease refuses\<close>

lemma read_held:
  assumes "left_alone env path" and "accepted_record env content r"
  shows "triple (lease_file path n content) (readLeaseRecord env path)
    (\<lambda>r' fs. r' = r \<and> lease_file path n content fs) (\<lambda>_. lease_file path n content)"
proof -
  let ?P = "lease_file path n content"
  note alone = left_alone_stable [OF assms(1), of n content FILE_MODE]
  have opened: "triple ?P (fs_call (le_files env) (fs_open path)) (\<lambda>node fs. node = Regular n \<and> ?P fs) (\<lambda>_. ?P)"
    by (rule triple_reads [OF alone]) (simp add: fs_open_def private_file_def)
  have checked: "triple ?P (fs_call (le_files env) (assertPrivateRegularFile env path (Regular n))) (\<lambda>h fs. h = n \<and> ?P fs) (\<lambda>_. ?P)"
    by (rule triple_reads [OF alone]) (use assms(2) in \<open>simp add: assertPrivateRegularFile_def private_file_def FILE_MODE_def accepted_record_def\<close>)
  have got: "triple ?P (fs_call (le_files env) (fs_read n)) (\<lambda>c fs. c = content \<and> ?P fs) (\<lambda>_. ?P)"
    by (rule triple_reads [OF alone]) (simp add: fs_read_def private_file_def)
  have close: "triple (\<lambda>fs. c = content \<and> ?P fs) (fs_wait (le_files env)) (\<lambda>_ fs. c = content \<and> ?P fs) (\<lambda>_. ?P)" for c
    by (intro triple_given triple_weaken [OF triple_wait [OF alone]]) auto
  have "triple ?P (with_cleanup
       (andThen (fs_call (le_files env) (assertPrivateRegularFile env path (Regular n))) (\<lambda>handle. fs_call (le_files env) (fs_read handle)))
       (fs_wait (le_files env))) (\<lambda>c fs. c = content \<and> ?P fs) (\<lambda>_. ?P)"
    by (rule triple_with_cleanup [OF triple_andThen [OF checked] close triple_wait [OF alone]]) (auto intro: triple_given got)
  then have "triple ?P (readSecureText env path) (\<lambda>c fs. c = content \<and> ?P fs) (\<lambda>_. ?P)"
    unfolding readSecureText_def by (intro triple_andThen [OF opened] triple_given) simp
  then show ?thesis
    unfolding readLeaseRecord_def
    by (rule triple_andThen) (auto intro!: triple_given triple_pure parse_readable assms(2))
qed

lemma create_refused:
  assumes "left_alone env path"
  shows "triple (lease_file path n content) (writeExclusive env path c) (\<lambda>_ _. False) (\<lambda>_. lease_file path n content)"
proof -
  have "triple (lease_file path n content) (fs_call (le_files env) (fs_create path FILE_MODE)) (\<lambda>_ _. False) (\<lambda>_. lease_file path n content)"
    by (rule triple_call [OF left_alone_stable [OF assms]]) (auto simp: fs_create_def private_file_def)
  then show ?thesis unfolding writeExclusive_def by (rule triple_andThen) (rule triple_false)
qed

lemma reclaim_refused:
  assumes "left_alone env path" and "accepted_record env content r" and "lives env (lr_pid r)"
  shows "triple (lease_file path n content) (reclaim_stale env path) (\<lambda>_ _. False) (\<lambda>_. lease_file path n content)"
proof -
  let ?P = "lease_file path n content"
  have "triple ?P (on_files (processIsAlive env (lr_pid r))) (\<lambda>alive fs. alive \<and> ?P fs) (\<lambda>_. ?P)"
    by (rule triple_on_files, rule triple_weaken [OF triple_pure [OF alive_lives [OF assms(3)]]]) auto
  moreover have "triple (\<lambda>fs. alive \<and> ?P fs) (andThen (require (\<not> alive) (LeaseHeld r)) f) (\<lambda>_ _. False) (\<lambda>_. ?P)"
    for alive and f :: "unit \<Rightarrow> lease_record option lease_op"
    by (rule triple_andThen [OF triple_require triple_false]) auto
  ultimately show ?thesis
    unfolding reclaim_stale_def
    by (intro triple_andThen [OF triple_on_files [OF read_held [OF assms(1,2)]]] triple_given) (auto intro: triple_andThen)
qed

lemma acquire_refused:
  assumes "left_alone env path" and "accepted_record env content r" and "lives env (lr_pid r)"
  shows "triple (lease_file path n content) (acquire_attempts m env path lease reclaimed) (\<lambda>_ _. False) (\<lambda>_. lease_file path n content)"
proof (cases m)
  case 0
  then show ?thesis by (auto intro: triple_fail)
next
  case (Suc k)
  let ?P = "lease_file path n content"
  have "triple ?P (on_files (attempt (writeExclusive env path c))) (\<lambda>w fs. (\<exists>e. w = Inl e) \<and> ?P fs) (\<lambda>_. ?P)" for c
    by (rule triple_on_files, rule triple_weaken [OF triple_attempt [OF create_refused [OF assms(1)]]]) (auto split: sum.splits)
  then show ?thesis
    unfolding Suc acquire_attempts.simps
    by (rule triple_andThen)
      (auto intro!: triple_given triple_if triple_fail triple_andThen [OF reclaim_refused [OF assms] triple_false])
qed

subsection \<open>What an acquired lease has written\<close>

lemma triple_any: "triple P m (\<lambda>_ _. True) (\<lambda>_ _. True)"
  by (simp add: triple_def split: prod.split sum.split)

lemma triple_throws: "triple P (andThen m (\<lambda>_. fail e)) Q (\<lambda>_ _. True)"
  by (rule triple_andThen [OF triple_any]) (rule triple_fail, simp)

lemma stable_True: "stable env (\<lambda>_. True)"
  by (simp add: stable_def)

lemma write_own:
  assumes "left_alone env path"
  shows "triple (private_file path h [] FILE_MODE)
    (andThen (fs_call (le_files env) (fs_fchmod h FILE_MODE)) (\<lambda>_.
     andThen (fs_write (le_files env) h c) (\<lambda>_. fs_wait (le_files env)))) (\<lambda>_. lease_file path h c) (\<lambda>_ _. True)"
proof -
  note alone = left_alone_stable [OF assms]
  have chmod: "triple (private_file path h [] FILE_MODE) (fs_call (le_files env) (fs_fchmod h FILE_MODE))
      (\<lambda>_. private_file path h [] FILE_MODE) (\<lambda>_ _. True)"
    by (rule triple_call [OF alone]) (auto simp: fs_fchmod_def private_file_def)
  have written: "triple (private_file path h [] FILE_MODE) (fs_write (le_files env) h c) (\<lambda>_. lease_file path h c) (\<lambda>_ _. True)"
    by (rule triple_write [OF alone, where R = "\<lambda>_. True"]) (auto simp: private_file_def)
  have "triple (lease_file path h c) (fs_wait (le_files env)) (\<lambda>_. lease_file path h c) (\<lambda>_ _. True)"
    by (rule triple_weaken [OF triple_wait [OF alone]]) auto
  with chmod written show ?thesis by (blast intro: triple_andThen)
qed

lemma write_created:
  assumes "left_alone env path"
  shows "triple P (writeExclusive env path c) (\<lambda>_ fs. \<exists>n. lease_file path n c fs) (\<lambda>_ _. True)"
proof -
  have created: "triple P (fs_call (le_files env) (fs_create path FILE_MODE)) (\<lambda>h. private_file path h [] FILE_MODE) (\<lambda>_ _. True)"
    by (rule triple_weaken [OF triple_call [OF stable_True]])
      (auto simp: fs_create_def private_file_def split: option.splits)
  have closed: "triple (case w of Inl e \<Rightarrow> \<lambda>_. True | Inr _ \<Rightarrow> lease_file path h c) (fs_wait (le_files env))
      (\<lambda>_. case w of Inl e \<Rightarrow> \<lambda>_. True | Inr _ \<Rightarrow> lease_file path h c) (\<lambda>_ _. True)" for w :: "file_error + unit" and h
    by (cases w) (auto intro: triple_any triple_weaken [OF triple_wait [OF left_alone_stable [OF assms]]])
  have answered: "triple (case w of Inl e \<Rightarrow> \<lambda>_. True | Inr _ \<Rightarrow> lease_file path h c)
      (case w of Inr _ \<Rightarrow> ok () | Inl e \<Rightarrow> andThen (attempt (fs_call (le_files env) (fs_rm path))) (\<lambda>_. fail e))
      (\<lambda>_ fs. \<exists>n. lease_file path n c fs) (\<lambda>_ _. True)" for w :: "file_error + unit" and h
    by (cases w) (auto intro: triple_throws triple_ok)
  show ?thesis
    unfolding writeExclusive_def
  proof (rule triple_andThen [OF created])
    fix h
    have "triple (private_file path h [] FILE_MODE)
        (attempt (andThen (fs_call (le_files env) (fs_fchmod h FILE_MODE)) (\<lambda>_.
          andThen (fs_write (le_files env) h c) (\<lambda>_. fs_wait (le_files env)))))
        (\<lambda>w. case w of Inl e \<Rightarrow> \<lambda>_. True | Inr _ \<Rightarrow> lease_file path h c) (\<lambda>_ _. True)"
      by (rule triple_weaken [OF triple_attempt [OF write_own [OF assms]]]) (auto split: sum.splits)
    then show "triple (private_file path h [] FILE_MODE)
        (andThen (attempt (andThen (fs_call (le_files env) (fs_fchmod h FILE_MODE)) (\<lambda>_.
          andThen (fs_write (le_files env) h c) (\<lambda>_. fs_wait (le_files env))))) (\<lambda>outcome.
         andThen (fs_wait (le_files env)) (\<lambda>_. case outcome of
           Inr _ \<Rightarrow> ok () | Inl e \<Rightarrow> andThen (attempt (fs_call (le_files env) (fs_rm path))) (\<lambda>_. fail e))))
        (\<lambda>_ fs. \<exists>n. lease_file path n c fs) (\<lambda>_ _. True)"
      by (rule triple_andThen) (rule triple_andThen [OF closed answered])
  qed
qed

lemma attempts_written:
  assumes "left_alone env path"
  shows "triple P (acquire_attempts m env path lease reclaimed)
    (\<lambda>l fs. dl_path l = path \<and> dl_record l = lease \<and> (\<exists>n. lease_file path n (lease_text env lease) fs)) (\<lambda>_ _. True)"
proof (induction m arbitrary: P reclaimed)
  case 0
  then show ?case by (auto intro: triple_fail)
next
  case (Suc m)
  have "triple P (on_files (attempt (writeExclusive env path (lease_text env lease))))
      (\<lambda>w fs. \<forall>x. w = Inr x \<longrightarrow> (\<exists>n. lease_file path n (lease_text env lease) fs)) (\<lambda>_ _. True)"
    by (rule triple_on_files, rule triple_weaken [OF triple_attempt [OF write_created [OF assms]]]) auto
  then show ?case
    unfolding acquire_attempts.simps
  proof (rule triple_andThen)
    fix w
    show "triple (\<lambda>fs. \<forall>x. w = Inr x \<longrightarrow> (\<exists>n. lease_file path n (lease_text env lease) fs)) (case w of
       Inr _ \<Rightarrow> ok \<lparr>dl_path = path, dl_record = lease, dl_reclaimed = reclaimed\<rparr>
     | Inl e \<Rightarrow> if \<not> is_errno ''EEXIST'' e then fail (LeaseFile e)
         else andThen (reclaim_stale env path) (\<lambda>removed. case removed of
             None \<Rightarrow> acquire_attempts m env path lease reclaimed
           | Some observed \<Rightarrow> acquire_attempts m env path lease (Some observed)))
       (\<lambda>l fs. dl_path l = path \<and> dl_record l = lease \<and> (\<exists>n. lease_file path n (lease_text env lease) fs)) (\<lambda>_ _. True)"
      by (auto intro!: triple_ok triple_fail triple_andThen [OF triple_any] Suc.IH split: sum.split option.split)
  qed
qed

lemma acquired_written:
  assumes "left_alone env (home @ ''/daemon.lock'')"
  shows "triple P (acquireDaemonLease env home pid instanceToken)
    (\<lambda>l fs. dl_path l = home @ ''/daemon.lock'' \<and> lr_pid (dl_record l) = pid \<and> is_safe_int pid \<and> 1 < pid
       \<and> base64url 43 (lr_instanceToken (dl_record l))
       \<and> (\<exists>n. lease_file (home @ ''/daemon.lock'') n (lease_text env (dl_record l)) fs)) (\<lambda>_ _. True)"
proof -
  let ?Q = "\<lambda>l fs. dl_path l = home @ ''/daemon.lock'' \<and> lr_pid (dl_record l) = pid \<and> is_safe_int pid \<and> 1 < pid
       \<and> base64url 43 (lr_instanceToken (dl_record l)) \<and> (\<exists>n. lease_file (home @ ''/daemon.lock'') n (lease_text env (dl_record l)) fs)"
  define token where "token = (case instanceToken of None \<Rightarrow> le_random env | Some t \<Rightarrow> t)"
  have attempts: "triple (\<lambda>_. True) (acquire_attempts MAX_ACQUIRE_ATTEMPTS env (home @ ''/daemon.lock'')
      \<lparr>lr_pid = pid, lr_instanceToken = token, lr_acquiredAt = le_now env\<rparr> None) ?Q (\<lambda>_ _. True)"
    if "is_safe_int pid \<and> 1 < pid" and "base64url 43 token"
    using that by (intro triple_weaken [OF attempts_written [OF assms]]) auto
  have tokens: "triple (\<lambda>_. True) (andThen (require (base64url 43 token) e) (\<lambda>_. acquire_attempts MAX_ACQUIRE_ATTEMPTS env
      (home @ ''/daemon.lock'') \<lparr>lr_pid = pid, lr_instanceToken = token, lr_acquiredAt = le_now env\<rparr> None)) ?Q (\<lambda>_ _. True)"
    if "is_safe_int pid \<and> 1 < pid" for e
    by (rule triple_andThen [where Q = "\<lambda>_ _. base64url 43 token"], rule triple_require)
      (auto intro: triple_given [where P = "\<lambda>_. True", simplified] attempts [OF that])
  show ?thesis
    unfolding acquireDaemonLease_def Let_def token_def [symmetric]
    by (rule triple_andThen [OF triple_any], rule triple_andThen [where Q = "\<lambda>_ _. is_safe_int pid \<and> 1 < pid"], rule triple_require)
      (auto intro: triple_given [where P = "\<lambda>_. True", simplified] tokens)
qed

lemma acquire_held:
  assumes "left_alone env (home @ ''/daemon.lock'')" and "accepted_record env content r" and "lives env (lr_pid r)"
  shows "triple (lease_file (home @ ''/daemon.lock'') n content) (acquireDaemonLease env home pid instanceToken)
    (\<lambda>_ _. False) (\<lambda>_. lease_file (home @ ''/daemon.lock'') n content)"
proof -
  note alone = left_alone_stable [OF assms(1)]
  have home: "triple (lease_file (home @ ''/daemon.lock'') n content) (on_files (ensurePrivateHome env))
      (\<lambda>_. lease_file (home @ ''/daemon.lock'') n content) (\<lambda>_. lease_file (home @ ''/daemon.lock'') n content)"
    unfolding ensurePrivateHome_def by (intro triple_on_files triple_seq triple_wait alone)
  show ?thesis
    unfolding acquireDaemonLease_def Let_def
    by (intro triple_andThen [OF home] triple_seq triple_require acquire_refused [OF assms]) auto
qed

subsection \<open>Exclusion\<close>


definition race_token :: string where
  "race_token = replicate 43 CHR ''a''"

definition race_lease :: "int \<Rightarrow> lease_record" where
  "race_lease pid = \<lparr>lr_pid = pid, lr_instanceToken = race_token, lr_acquiredAt = ''2026''\<rparr>"

text \<open>Two runs below: in both the processes 7 and 8 live and 5 has died; a text of n characters is the record of process n.\<close>

definition race_env :: "(nat \<Rightarrow> files \<Rightarrow> files) \<Rightarrow> lease_env" where
  "race_env other = \<lparr>le_files = \<lparr>fe_other = other, fe_fault = \<lambda>_. None, fe_written = \<lambda>_. 0\<rparr>,
     le_kill = (\<lambda>_ pid. if pid = 5 then Some ''ESRCH'' else None), le_now = ''2026'', le_random = race_token,
     le_sha256 = id, le_print = (\<lambda>j. case json_field ''pid'' j of Some (JNum p) \<Rightarrow> replicate (nat p - 1) CHR ''x'' | _ \<Rightarrow> []),
     le_parse = (\<lambda>t. Some (lease_json (race_lease (int (length t))))), le_date = (\<lambda>_. True), le_owns = (\<lambda>_. True)\<rparr>"

definition no_files :: disk where
  "no_files = \<lparr>dk_files = \<lparr>fs_names = \<lambda>_. None, fs_bytes = \<lambda>_. [], fs_mode = \<lambda>_. 0, fs_next = 0\<rparr>, dk_tick = 0\<rparr>"

lemma alone_race: "left_alone (race_env (\<lambda>_ fs. fs)) path"
  by (simp add: left_alone_def stable_def race_env_def)

lemma first_run: "fst (acquireDaemonLease (race_env (\<lambda>_ fs. fs)) ''/h'' 7 None no_files)
    = Inr \<lparr>dl_path = ''/h/daemon.lock'', dl_record = race_lease 7, dl_reclaimed = None\<rparr>"
  by code_simp


subsection \<open>Why the hypothesis is needed\<close>

text \<open>The lease of process 5, which has died, and a process 7 that reclaims it while process 8 is between its second
  read and its removal.\<close>

definition race_text :: "nat \<Rightarrow> string" where
  "race_text n = replicate (n - 1) CHR ''x'' @ newline"

definition put_lease :: "nat \<Rightarrow> string \<Rightarrow> files \<Rightarrow> files" where
  "put_lease n content fs = fs\<lparr>fs_names := (fs_names fs)(''/h/daemon.lock'' \<mapsto> Regular n),
     fs_bytes := (fs_bytes fs)(n := content), fs_mode := (fs_mode fs)(n := FILE_MODE), fs_next := Suc n\<rparr>"

definition reclaimer :: "nat \<Rightarrow> files \<Rightarrow> files" where
  "reclaimer n fs = (if n = 11 then put_lease 1 (race_text 7) fs else fs)"

definition stale_files :: disk where
  "stale_files = no_files\<lparr>dk_files := put_lease 0 (race_text 5) (dk_files no_files)\<rparr>"

lemma reclaim_race:
  "lease_file ''/h/daemon.lock'' 1 (lease_text (race_env reclaimer) (race_lease 7)) (reclaimer 11 fs)"
  "lives (race_env reclaimer) 7"
  "fst (acquireDaemonLease (race_env reclaimer) ''/h'' 8 None stale_files)
    = Inr \<lparr>dl_path = ''/h/daemon.lock'', dl_record = race_lease 8, dl_reclaimed = Some (race_lease 5)\<rparr>"
proof -
  have "lease_text (race_env reclaimer) (race_lease 7) = race_text 7" by code_simp
  then show "lease_file ''/h/daemon.lock'' 1 (lease_text (race_env reclaimer) (race_lease 7)) (reclaimer 11 fs)"
    by (simp add: reclaimer_def put_lease_def private_file_def)
  show "lives (race_env reclaimer) 7" by (simp add: lives_def race_env_def)
  show "fst (acquireDaemonLease (race_env reclaimer) ''/h'' 8 None stale_files)
    = Inr \<lparr>dl_path = ''/h/daemon.lock'', dl_record = race_lease 8, dl_reclaimed = Some (race_lease 5)\<rparr>"
    by code_simp
qed

end
