(* ===== verification/Spec2Isabelle.thy ===== *)
theory Spec2Isabelle
  imports NodeReceive CoordControlFacts SupervisorFacts ProcessRecovery Verifier SchemaMigrations NodeRuntimeFacts DaemonDemo
    ArtifactFacts LeaseFacts
begin

text \<open>
  Agent Control Center core (TypeScript, \<open>src/\<close>): a local control plane that queues coding tasks in SQLite,
  routes each to a sequence of coding agents, runs the agents in isolated git worktrees, collects evidence and
  puts the result before a human reviewer; and a node session that talks the ACCP protocol to a cloud service.

  \<^bold>\<open>Parts and theories.\<close>

  \<^item> \<open>Prelude\<close>: operations on a state that may throw (\<open>eff\<close>, \<open>andThen\<close>), SQL statements on lists of rows, the
    locale \<open>evolution\<close> of relations that operations keep, JSON values, strings of JavaScript.
  \<^item> \<open>Protocol\<close>, \<open>Schemas\<close> (\<open>protocol.ts\<close>): the enumerations, the transition tables of tasks and runs, the zod
    schemas as option-valued functions. \<open>Router\<close> (\<open>router.ts\<close>): \<open>routeTask\<close>.
  \<^item> \<open>DbState\<close> (\<open>db.ts\<close>): the rows of the eight tables, the constraints of the schema, the invariant \<open>db_wf\<close>.
    \<open>DbMoves\<close>: the relation \<open>db_evolves\<close> (rows keep their identity, statuses move along given edges, events and
    artifacts are only appended). Then the operations of \<open>ControlCenterDb\<close>, each with its lemmas: \<open>DbReads\<close>,
    \<open>DbTasks\<close> (queue, claims, heartbeats), \<open>DbRuns\<close> (runs, events, messages), \<open>DbEvidence\<close> (artifacts),
    \<open>DbReviews\<close>, \<open>DbRecovery\<close>, \<open>DbIdempotency\<close>. \<open>DbLifecycle\<close>: the step relation of all of them, reachable states.
    An \<open>await\<close> between two statements of an operation is a parameter (\<open>other\<close>): what other clients of the same
    database do there. Identifiers and times are arguments.
  \<^item> \<open>Messages\<close>, \<open>CanonicalJson\<close>, \<open>Envelope\<close> (\<open>accp/\<close>): payload schemas, canonical JSON text, envelopes, signatures
    (an abstract signature scheme), clock rules, duplicate index, cursors.
  \<^item> \<open>NodeStore\<close>, \<open>NodeSession\<close>, \<open>NodeEvents\<close>, \<open>NodeFlush\<close>, \<open>NodeReceive\<close> (\<open>node/state-store.ts\<close>,
    \<open>node/session.ts\<close>): the two event journals behind one contract, the session over it, its emission of
    events, its batches, its handling of messages.
  \<^item> \<open>CoordState\<close>, \<open>CoordText\<close>, \<open>CoordStep\<close>, \<open>CoordRun\<close>, \<open>CoordTask\<close>, \<open>CoordControl\<close> (\<open>coordinator.ts\<close>,
    \<open>prompt.ts\<close>): the coordinator. Its state (record \<open>coord\<close>) holds the database, a world \<open>'w\<close> for processes
    and files, the maps of active runs, verifications and phases, the stop requests and the shutdown flag. Its
    environment (record \<open>coord_env\<close>) gives the adapters, the worktree manager, the artifact store and the
    verifier as operations on the world, and \<open>ce_other\<close>, what everybody else does at every \<open>await\<close>. A callback
    given to an adapter or to the verifier is a dialogue (\<open>talk\<close>): any number of calls, each told whether it threw.

  \<^item> \<open>CommandLine\<close>, \<open>Verifier\<close> (\<open>verifier.ts\<close>): the scanner that splits a verification command without a shell, and
    the verifier that runs it under the supervisor and writes one log.
  \<^item> \<open>Supervisor\<close>, \<open>SupervisorFacts\<close> (\<open>adapters/process-supervisor.ts\<close>): the life of one supervised process as a state
    machine over events (output, errors, timers, signals, the exit of the child); \<open>ProcessRecovery\<close>: the
    termination of a crashed worker's process group and the probe of an executable.
  \<^item> \<open>Migrations\<close>, \<open>SchemaMigrations\<close> (\<open>migrations/\<close>, \<open>ControlCenterDb.init\<close>): the forward-only runner over any database,
    with other processes acting between its statements, and the program's migrations on the tables of the file.
  \<^item> \<open>KernelBridge\<close> (\<open>kernel/\<close>): the decision on a work offer and the execution of an accepted one, which composes the
    coordinator with the session; \<open>NodeRuntime\<close>, \<open>NodeRuntimeFacts\<close> (\<open>node/node-runtime.ts\<close>, \<open>node/ws-client.ts\<close>): the
    connection that queues accepted leases and executes them one at a time, as a step relation, and the reconnect loop.

  \<^item> \<open>Projections\<close> (\<open>api-projections.ts\<close>): the JSON of a task's board row and detail. \<open>Paths\<close>: \<open>path.relative\<close> and the
    containment test; \<open>HttpErrors\<close>: thrown errors as HTTP status and body; \<open>Base64\<close>: the strict decoder of uploads;
    \<open>EventStream\<close>: the bounded buffer of a slow client, the cursor, the draining of pages (all \<open>daemon.ts\<close>).
  \<^item> \<open>DaemonHttp\<close>, \<open>DaemonRoutes\<close> (\<open>daemon.ts\<close>): requests, responses, bodies and their schemas; the idempotent mutation,
    every route with its handler, the guards in front of them and the answer to whatever is thrown. The state (record
    \<open>daemon\<close>) is a coordinator, the worker's state and the response under way. \<open>DaemonKeys\<close>: the life of an idempotency
    key under requests and other processes; \<open>DaemonFacts\<close>: a stored answer is replayed; \<open>DaemonGuard\<close>: the guards and
    that every request is answered; \<open>DaemonDemo\<close>: a small daemon for the witnesses.
  \<^item> \<open>Files\<close>: what the program relies on of \<open>node:fs\<close>: names, inodes, hard links; every call may fail, and other processes
    act before it. \<open>triple\<close> is the rule format for such operations. \<open>Artifacts\<close>, \<open>ArtifactFacts\<close> (\<open>artifacts.ts\<close>): the
    store of evidence files. \<open>DaemonLease\<close>, \<open>LeaseFacts\<close> (\<open>daemon-lease.ts\<close>): the lease of a home directory and the token file.

  \<^bold>\<open>Lemma groups.\<close> \<open>preserves_*\<close>/\<open>db_wf_*\<close>: every operation preserves the invariant; \<open>keeps_*\<close>: every operation
  keeps the evolution relation, under a rely on the others (\<open>well_behaved\<close>: they use the database operations
  only); \<open>*_yields\<close>: what an operation that returns has established and what still holds at its end
  (\<open>CoordFacts\<close>, \<open>CoordResults\<close>, \<open>CoordEvidence\<close>, \<open>CoordGate\<close>, \<open>CoordControlFacts\<close>). \<open>CoordDemo\<close> is a small
  deployment on which the coordinator is run by the simplifier; the witnesses use it. \<open>*_holds\<close>, \<open>*_spec\<close>, \<open>*_written\<close>,
  \<open>*_refused\<close>: triples of the file operations.

  \<^bold>\<open>Interfaces.\<close> Locales: the table contract (interpreted on the eight tables); \<open>evolution\<close> (interpreted on the
  coordinator, a step's local variables, cancellations, migrations, node states and connections, the open response and
  the evidence files) and its extension \<open>db_moves\<close>, which status edges an operation of the database may take (one
  interpretation for each kind of move); the node state store (interpreted on the in-memory and the SQLite journal);
  \<open>kernel_contract\<close>, what a session may do to the kernel behind it (interpreted on the coordinator bridge and on the
  simulated kernel); \<open>key_relation\<close> and \<open>key_service\<close>, a relation of databases that the daemon's operations keep
  (interpreted on: no key changes, no used key is freed, a stored outcome is final).

  \<^bold>\<open>Fuel and bounds.\<close> \<open>claim_attempts\<close> retries as often as the source does; \<open>drop_victims\<close> gets the number of events
  as fuel, which suffices because every round drops one. The size limits of the schemas are kept as written.
  The waits on a deadline (\<open>wait_loop\<close>) are partial functions on a clock and a sequence of observations; they
  return when the clock advances between observations. \<open>reconnect_from\<close> ends because every failure counts.

  \<^bold>\<open>Simplifications.\<close> The members of \<open>Promise.all\<close> run one after the other, each with the interference of the
  others at its pauses, and all of them run to their end; the source starts them together and rejects at the
  first error. Strings are lists of 8-bit characters; JSON numbers are integers. The heartbeat timer is part of
  the interference. The concurrent reads of \<open>loadAggregates\<close> happen in their order; the cached list of agents is an
  argument. Directories are implicit: \<open>mkdir\<close> and closing a file change nothing. The platform is not Windows.

  \<^bold>\<open>Not modelled.\<close> The start and stop of the daemon and the loop of its worker, the client of the HTTP API, the MCP
  server and the command line (glue over the operations here), the adapters and git worktrees (processes; the
  coordinator's environment), the adapter conformance suite (a test harness), sockets and enrolment of the node, the
  driver of SQLite, configuration, usage records.
\<close>

end
